(* ===== verification/Xpcf_Prelude.thy ===== *)
theory Xpcf_Prelude
  imports Main "HOL-Library.Word"
begin

text \<open>
  The vocabulary every component of the model shares: identifiers, computations with a state
  and an exception, the rules that evaluate them and the calculus of state invariants.

  A C++ member function that changes the object and may throw is a computation of type
  \<open>('s, 'e, 'a) eff\<close>: from the state before the call to the outcome (an exception, or a
  value) and the state at that point. The state is part of the outcome in both cases, because a
  C++ function that throws keeps the writes it made before the throw.
\<close>

section \<open>Identifiers\<close>

text \<open>\<open>boost::uuids::uuid\<close> is sixteen bytes, compared for equality and ordered.\<close>

type_synonym uuid = "128 word"

named_theorems eff_simps \<open>equations that evaluate computations\<close>
named_theorems preserves_intros \<open>rules that carry a state invariant through a computation\<close>

section \<open>Computations with a state and an exception\<close>

type_synonym ('s, 'e, 'a) eff = "'s \<Rightarrow> ('e + 'a) \<times> 's"

definition return_eff :: "'a \<Rightarrow> ('s, 'e, 'a) eff" where
  "return_eff x = (\<lambda>s. (Inr x, s))"

definition throw_eff :: "'e \<Rightarrow> ('s, 'e, 'a) eff" where
  "throw_eff e = (\<lambda>s. (Inl e, s))"

definition bind_eff :: "('s, 'e, 'a) eff \<Rightarrow> ('a \<Rightarrow> ('s, 'e, 'b) eff) \<Rightarrow> ('s, 'e, 'b) eff" where
  "bind_eff m f = (\<lambda>s. case m s of (Inl e, s') \<Rightarrow> (Inl e, s') | (Inr x, s') \<Rightarrow> f x s')"

definition seq_eff :: "('s, 'e, unit) eff \<Rightarrow> ('s, 'e, 'b) eff \<Rightarrow> ('s, 'e, 'b) eff" where
  "seq_eff m n = bind_eff m (\<lambda>_. n)"

definition gets_eff :: "('s \<Rightarrow> 'a) \<Rightarrow> ('s, 'e, 'a) eff" where
  "gets_eff f = (\<lambda>s. (Inr (f s), s))"

definition modify_eff :: "('s \<Rightarrow> 's) \<Rightarrow> ('s, 'e, unit) eff" where
  "modify_eff f = (\<lambda>s. (Inr (), f s))"

text \<open>\<open>lift_eff r\<close> is a computation that reads and writes nothing: a pure call that may throw.\<close>

definition lift_eff :: "('e + 'a) \<Rightarrow> ('s, 'e, 'a) eff" where
  "lift_eff r = (\<lambda>s. (r, s))"

text \<open>
  \<open>try { m } catch (e) { h e }\<close>: the handler runs in the state the exception left. A handler
  that does not match the exception throws it again.
\<close>

definition catch_eff :: "('s, 'e, 'a) eff \<Rightarrow> ('e \<Rightarrow> ('s, 'e, 'a) eff) \<Rightarrow> ('s, 'e, 'a) eff" where
  "catch_eff m h = (\<lambda>s. case m s of (Inl e, s') \<Rightarrow> h e s' | (Inr x, s') \<Rightarrow> (Inr x, s'))"

text \<open>
  A call of another object's member function runs on that object's part of the state:
  \<open>get\<close> reads the part and \<open>put\<close> writes it back, whatever the outcome.
\<close>

definition zoom_eff ::
  "('s \<Rightarrow> 't) \<Rightarrow> ('t \<Rightarrow> 's \<Rightarrow> 's) \<Rightarrow> ('t, 'e, 'a) eff \<Rightarrow> ('s, 'e, 'a) eff" where
  "zoom_eff get put m = (\<lambda>s. case m (get s) of (r, t) \<Rightarrow> (r, put t s))"

text \<open>A C++ range-based \<open>for\<close> whose body throws leaves the loop.\<close>

fun for_eff :: "('a \<Rightarrow> ('s, 'e, unit) eff) \<Rightarrow> 'a list \<Rightarrow> ('s, 'e, unit) eff" where
  "for_eff f [] = return_eff ()"
| "for_eff f (x # xs) = seq_eff (f x) (for_eff f xs)"

lemma return_eff_run [eff_simps]: "return_eff x s = (Inr x, s)"
  by (simp add: return_eff_def)

lemma throw_eff_run [eff_simps]: "throw_eff e s = (Inl e, s)"
  by (simp add: throw_eff_def)

lemma gets_eff_run [eff_simps]: "gets_eff f s = (Inr (f s), s)"
  by (simp add: gets_eff_def)

lemma modify_eff_run [eff_simps]: "modify_eff f s = (Inr (), f s)"
  by (simp add: modify_eff_def)

lemma lift_eff_run [eff_simps]: "lift_eff r s = (r, s)"
  by (simp add: lift_eff_def)

lemma bind_eff_run [eff_simps]:
  "bind_eff m f s = (case m s of (Inl e, s') \<Rightarrow> (Inl e, s') | (Inr x, s') \<Rightarrow> f x s')"
  by (simp add: bind_eff_def)

lemma seq_eff_run [eff_simps]:
  "seq_eff m n s = (case m s of (Inl e, s') \<Rightarrow> (Inl e, s') | (Inr _, s') \<Rightarrow> n s')"
  by (simp add: seq_eff_def bind_eff_def)

lemma catch_eff_run [eff_simps]:
  "catch_eff m h s = (case m s of (Inl e, s') \<Rightarrow> h e s' | (Inr x, s') \<Rightarrow> (Inr x, s'))"
  by (simp add: catch_eff_def)

lemma zoom_eff_run [eff_simps]:
  "zoom_eff get put m s = (case m (get s) of (r, t) \<Rightarrow> (r, put t s))"
  by (simp add: zoom_eff_def)

lemma bind_eff_cong [fundef_cong]:
  assumes "m = m'" and "s = s'"
    and "\<And>x t. m' s' = (Inr x, t) \<Longrightarrow> f x t = f' x t"
  shows "bind_eff m f s = bind_eff m' f' s'"
  using assms by (auto simp: bind_eff_def split: prod.splits sum.splits)

lemma for_eff_append:
  "for_eff f (xs @ ys) s = seq_eff (for_eff f xs) (for_eff f ys) s"
  by (induction xs arbitrary: s) (auto simp: eff_simps split: prod.splits sum.splits)

section \<open>State invariants\<close>

text \<open>
  \<open>preserves P m\<close>: the computation \<open>m\<close>, started in a state with \<open>P\<close>, ends in a state with
  \<open>P\<close> on every path, the throwing ones included.
\<close>

definition preserves :: "('s \<Rightarrow> bool) \<Rightarrow> ('s, 'e, 'a) eff \<Rightarrow> bool" where
  "preserves P m \<longleftrightarrow> (\<forall>s. P s \<longrightarrow> P (snd (m s)))"

lemma preservesI: "(\<And>s. P s \<Longrightarrow> P (snd (m s))) \<Longrightarrow> preserves P m"
  by (simp add: preserves_def)

lemma preservesD: "preserves P m \<Longrightarrow> P s \<Longrightarrow> P (snd (m s))"
  by (simp add: preserves_def)

lemma preserves_return [preserves_intros]: "preserves P (return_eff x)"
  by (simp add: preserves_def eff_simps)

lemma preserves_throw [preserves_intros]: "preserves P (throw_eff e)"
  by (simp add: preserves_def eff_simps)

lemma preserves_gets [preserves_intros]: "preserves P (gets_eff f)"
  by (simp add: preserves_def eff_simps)

lemma preserves_lift [preserves_intros]: "preserves P (lift_eff r)"
  by (simp add: preserves_def eff_simps)

lemma preserves_modify: "(\<And>s. P s \<Longrightarrow> P (f s)) \<Longrightarrow> preserves P (modify_eff f)"
  by (simp add: preserves_def eff_simps)

lemma preserves_bind [preserves_intros]:
  assumes "preserves P m" and "\<And>x. preserves P (f x)"
  shows "preserves P (bind_eff m f)"
  using assms unfolding preserves_def bind_eff_def
  by (fastforce split: prod.splits sum.splits)

lemma preserves_seq [preserves_intros]:
  "preserves P m \<Longrightarrow> preserves P n \<Longrightarrow> preserves P (seq_eff m n)"
  by (simp add: seq_eff_def preserves_bind)

lemma preserves_catch [preserves_intros]:
  assumes "preserves P m" and "\<And>e. preserves P (h e)"
  shows "preserves P (catch_eff m h)"
  using assms unfolding preserves_def catch_eff_def
  by (fastforce split: prod.splits sum.splits)

lemma preserves_if [preserves_intros]:
  "(b \<Longrightarrow> preserves P m) \<Longrightarrow> (\<not> b \<Longrightarrow> preserves P n) \<Longrightarrow> preserves P (if b then m else n)"
  by simp

lemma preserves_case_option [preserves_intros]:
  "(x = None \<Longrightarrow> preserves P m) \<Longrightarrow> (\<And>y. x = Some y \<Longrightarrow> preserves P (f y)) \<Longrightarrow>
   preserves P (case x of None \<Rightarrow> m | Some y \<Rightarrow> f y)"
  by (cases x) auto

lemma preserves_for [preserves_intros]:
  "(\<And>x. x \<in> set xs \<Longrightarrow> preserves P (f x)) \<Longrightarrow> preserves P (for_eff f xs)"
  by (induction xs) (auto intro: preserves_intros)

lemma preserves_zoom:
  assumes "preserves Q m"
    and "\<And>s. P s \<Longrightarrow> Q (get s)"
    and "\<And>s t. P s \<Longrightarrow> Q t \<Longrightarrow> P (put t s)"
  shows "preserves P (zoom_eff get put m)"
  using assms unfolding preserves_def zoom_eff_def
  by (auto split: prod.splits) (metis snd_conv)

section \<open>Generic lemmas\<close>

lemma map_upd_None_iff [simp]: "(m(k \<mapsto> v)) k' = None \<longleftrightarrow> k' \<noteq> k \<and> m k' = None"
  by auto

text \<open>\<open>mapContains\<close> of \<^verbatim>\<open>core/helpers.h\<close>: the key is found in the map.\<close>

definition mapContains :: "('k \<rightharpoonup> 'v) \<Rightarrow> 'k \<Rightarrow> bool" where
  "mapContains m k \<longleftrightarrow> (case m k of None \<Rightarrow> False | Some _ \<Rightarrow> True)"

lemma mapContains_iff [simp]: "mapContains m k \<longleftrightarrow> k \<in> dom m"
  by (auto simp: mapContains_def split: option.splits)

lemma distinct_snoc [simp]: "distinct (xs @ [x]) \<longleftrightarrow> distinct xs \<and> x \<notin> set xs"
  by auto

end
