(* ===== verification/Xpcf_Exceptions.thy ===== *)
theory Xpcf_Exceptions
  imports Xpcf_Prelude
begin

text \<open>
  Error codes, exceptions and error messages: \<^verbatim>\<open>core/XPCFErrorCode.h\<close>, \<^verbatim>\<open>core/Result.h\<close>,
  \<^verbatim>\<open>core/BaseException.h\<close>, \<^verbatim>\<open>core/Exception.h\<close> with \<^verbatim>\<open>src/BaseException.cpp\<close>,
  \<^verbatim>\<open>src/Exception.cpp\<close>, and \<^verbatim>\<open>src/ErrorMessage.cpp\<close>. Exceptions of the C++ standard library
  that the code lets escape or catches are further constructors of the same type.
\<close>

section \<open>Error codes\<close>

datatype XPCFErrorCode =
    SUCCESS | FAIL
  | ERROR_INVALID_ARGUMENT | ERROR_DOMAIN | ERROR_NOT_IMPLEMENTED | ERROR_NULL_POINTER
  | ERROR_OUT_OF_RANGE | ERROR_TYPE | ERROR_OVERFLOW | ERROR_UNDERFLOW | ERROR_OUT_OF_MEMORY
  | ERROR_RANGE | ERROR_SYSTEM | ERROR_UNKNOWN | ERROR_ACCESS_DENIED | ERROR_TIMEOUT
  | ERROR_ILLEGAL_STATE | ERROR_COMPONENT_UNKNOWN | ERROR_INTERFACE_UNKNOWN
  | ERROR_MODULE_UNKNOWN | ERROR_MODULE_MISSINGXPCF_ENTRY | ERROR_INJECTION_FAILED
  | ERROR_INJECTABLE_ALREADY_DECLARED | ERROR_INJECTABLE_UNKNOWN | ERROR_INJECTABLE_NOBIND
  | ERROR_REMOTING

fun error_code_value :: "XPCFErrorCode \<Rightarrow> int" where
  "error_code_value SUCCESS = 0"
| "error_code_value FAIL = -1"
| "error_code_value ERROR_INVALID_ARGUMENT = -10"
| "error_code_value ERROR_DOMAIN = -11"
| "error_code_value ERROR_NOT_IMPLEMENTED = -12"
| "error_code_value ERROR_NULL_POINTER = -13"
| "error_code_value ERROR_OUT_OF_RANGE = -14"
| "error_code_value ERROR_TYPE = -15"
| "error_code_value ERROR_OVERFLOW = -20"
| "error_code_value ERROR_UNDERFLOW = -21"
| "error_code_value ERROR_OUT_OF_MEMORY = -22"
| "error_code_value ERROR_RANGE = -23"
| "error_code_value ERROR_SYSTEM = -24"
| "error_code_value ERROR_UNKNOWN = -25"
| "error_code_value ERROR_ACCESS_DENIED = -26"
| "error_code_value ERROR_TIMEOUT = -27"
| "error_code_value ERROR_ILLEGAL_STATE = -28"
| "error_code_value ERROR_COMPONENT_UNKNOWN = -30"
| "error_code_value ERROR_INTERFACE_UNKNOWN = -40"
| "error_code_value ERROR_MODULE_UNKNOWN = -50"
| "error_code_value ERROR_MODULE_MISSINGXPCF_ENTRY = -51"
| "error_code_value ERROR_INJECTION_FAILED = -60"
| "error_code_value ERROR_INJECTABLE_ALREADY_DECLARED = -61"
| "error_code_value ERROR_INJECTABLE_UNKNOWN = -62"
| "error_code_value ERROR_INJECTABLE_NOBIND = -63"
| "error_code_value ERROR_REMOTING = -70"

definition hasError :: "XPCFErrorCode \<Rightarrow> bool" where
  "hasError e \<longleftrightarrow> error_code_value e < 0"

lemma hasError_iff [simp]: "hasError e \<longleftrightarrow> e \<noteq> SUCCESS"
  by (cases e) (auto simp: hasError_def)

text \<open>
  The message map holds every code but \<^verbatim>\<open>_ERROR_REMOTING\<close>; \<^verbatim>\<open>operator[]\<close> of \<^verbatim>\<open>std::map\<close> inserts
  and returns an empty string for a key it does not hold.
\<close>

fun error_code_message :: "XPCFErrorCode \<Rightarrow> string" where
  "error_code_message SUCCESS = ''SUCCESS''"
| "error_code_message FAIL = ''FAIL''"
| "error_code_message ERROR_INVALID_ARGUMENT = ''ERROR: argument provided is invalid''"
| "error_code_message ERROR_DOMAIN = ''ERROR: domain error ''"
| "error_code_message ERROR_NOT_IMPLEMENTED = ''ERROR: method is not implemented yet''"
| "error_code_message ERROR_NULL_POINTER = ''ERROR: Null pointer argument provided''"
| "error_code_message ERROR_OUT_OF_RANGE = ''ERROR: Out of range argument''"
| "error_code_message ERROR_TYPE = ''ERROR: Unsupported type''"
| "error_code_message ERROR_OVERFLOW = ''ERROR: overflow''"
| "error_code_message ERROR_UNDERFLOW = ''ERROR: underflow''"
| "error_code_message ERROR_OUT_OF_MEMORY = ''ERROR: out of memory''"
| "error_code_message ERROR_RANGE = ''ERROR: range''"
| "error_code_message ERROR_SYSTEM = ''ERROR: system''"
| "error_code_message ERROR_UNKNOWN = ''ERROR: unknown''"
| "error_code_message ERROR_ACCESS_DENIED = ''ERROR: access denied ''"
| "error_code_message ERROR_TIMEOUT = ''ERROR: timeout ''"
| "error_code_message ERROR_ILLEGAL_STATE = ''ERROR: illegal state ''"
| "error_code_message ERROR_COMPONENT_UNKNOWN = ''ERROR: unknown component ''"
| "error_code_message ERROR_INTERFACE_UNKNOWN = ''ERROR: unknown interface''"
| "error_code_message ERROR_MODULE_UNKNOWN = ''ERROR: unknown module''"
| "error_code_message ERROR_MODULE_MISSINGXPCF_ENTRY =
     ''ERROR: missing xpcf method(s) in the library (either one or several from getModuleUUID, getModuleName, getComponent ... )''"
| "error_code_message ERROR_INJECTION_FAILED = ''ERROR: injection failed''"
| "error_code_message ERROR_INJECTABLE_UNKNOWN = ''ERROR: injectable unknown''"
| "error_code_message ERROR_INJECTABLE_ALREADY_DECLARED = ''ERROR: injectable already declared''"
| "error_code_message ERROR_INJECTABLE_NOBIND = ''ERROR: no binding declared for injectable''"
| "error_code_message ERROR_REMOTING = ''''"

section \<open>Exceptions\<close>

datatype exn_class =
    Exception | ConfigurationException | AccessDeniedException | IllegalStateException
  | NotImplementedException | NullPointerException | TimeoutException | RemotingException
  | UUIDNotFoundException | ComponentNotFoundException | InterfaceNotImplementedException
  | ModuleException | ModuleNotFoundException | InjectionException
  | InjectableNotFoundException | InjectableDeclarationException | GenerationException

text \<open>
  The base class of each exception class of the library; \<open>Exception\<close> is the root. \<open>GenerationException\<close> is a class
  of the gRPC generators (\<^verbatim>\<open>tools/generators/grpc/AbstractGenerator.h\<close>).
\<close>

fun base_class :: "exn_class \<Rightarrow> exn_class" where
  "base_class ComponentNotFoundException = UUIDNotFoundException"
| "base_class ModuleNotFoundException = UUIDNotFoundException"
| "base_class InjectionException = UUIDNotFoundException"
| "base_class InjectableNotFoundException = InjectionException"
| "base_class InjectableDeclarationException = InjectionException"
| "base_class _ = Exception"

text \<open>The hierarchy is three levels below the root, so three steps reach every ancestor.\<close>

definition is_a :: "exn_class \<Rightarrow> exn_class \<Rightarrow> bool" where
  "is_a c d \<longleftrightarrow> c = d \<or> base_class c = d \<or> base_class (base_class c) = d
     \<or> base_class (base_class (base_class c)) = d"

lemma is_a_refl [simp]: "is_a c c"
  by (simp add: is_a_def)

lemma is_a_Exception [simp]: "is_a c Exception"
  by (cases c) (simp_all add: is_a_def)

lemma is_a_base: "is_a (base_class c) d \<Longrightarrow> is_a c d"
  by (cases c; cases d) (simp_all add: is_a_def)

text \<open>
  A thrown object: an exception of the library with its class, its \<open>what()\<close> text and its code;
  an exception of the standard library; or \<open>Undefined_behaviour\<close>, the result of a
  call the C++ standard does not define (a \<open>std::string\<close> built or appended from a null pointer, a null
  pointer dereferenced), or \<open>Stack_overflow\<close>, the end of a recursion deeper than the stack: no handler of the program
  can rely on catching these two.
\<close>

datatype exn =
    Xpcf exn_class string XPCFErrorCode
  | Runtime_error string
  | Invalid_argument string
  | Out_of_range string
  | Bad_any_cast
  | Bad_function_call
  | Undefined_behaviour
  | Stack_overflow

fun is_xpcf :: "exn \<Rightarrow> bool" where
  "is_xpcf (Xpcf _ _ _) = True"
| "is_xpcf _ = False"

text \<open>\<open>xpcf::Exception\<close> derives from \<open>std::runtime_error\<close>; the argument and range errors are logic errors.\<close>

fun is_runtime_error :: "exn \<Rightarrow> bool" where
  "is_runtime_error (Xpcf _ _ _) = True"
| "is_runtime_error (Runtime_error _) = True"
| "is_runtime_error _ = False"

fun is_std_exception :: "exn \<Rightarrow> bool" where
  "is_std_exception Undefined_behaviour = False"
| "is_std_exception Stack_overflow = False"
| "is_std_exception _ = True"

fun is_instance :: "exn_class \<Rightarrow> exn \<Rightarrow> bool" where
  "is_instance d (Xpcf c _ _) = is_a c d"
| "is_instance d _ = False"

fun what :: "exn \<Rightarrow> string" where
  "what (Xpcf _ w _) = w"
| "what (Runtime_error w) = w"
| "what (Invalid_argument w) = w"
| "what (Out_of_range w) = w"
| "what Bad_any_cast = ''bad any_cast''"
| "what Bad_function_call = ''bad_function_call''"
| "what Undefined_behaviour = ''''"
| "what Stack_overflow = ''''"

fun getErrorCode :: "exn \<Rightarrow> XPCFErrorCode" where
  "getErrorCode (Xpcf _ _ c) = c"
| "getErrorCode _ = FAIL"

lemma is_xpcf_runtime [simp]: "is_xpcf e \<Longrightarrow> is_runtime_error e"
  by (cases e) auto

lemma is_instance_Exception [simp]: "is_instance Exception e \<longleftrightarrow> is_xpcf e"
  by (cases e) auto

section \<open>Constructors of the exception classes\<close>

text \<open>\<open>Exception(XPCFErrorCode)\<close> takes its text from the message map; the text constructors default to \<open>FAIL\<close>.\<close>

definition exception_of_code :: "exn_class \<Rightarrow> XPCFErrorCode \<Rightarrow> exn" where
  "exception_of_code c code = Xpcf c (error_code_message code) code"

text \<open>The code a constructor from a text gives, one line per class.\<close>

fun text_code :: "exn_class \<Rightarrow> XPCFErrorCode" where
  "text_code AccessDeniedException = ERROR_ACCESS_DENIED"
| "text_code IllegalStateException = ERROR_ILLEGAL_STATE"
| "text_code RemotingException = ERROR_REMOTING"
| "text_code ComponentNotFoundException = ERROR_COMPONENT_UNKNOWN"
| "text_code InterfaceNotImplementedException = ERROR_INTERFACE_UNKNOWN"
| "text_code ModuleNotFoundException = ERROR_MODULE_UNKNOWN"
| "text_code InjectableNotFoundException = ERROR_INJECTABLE_NOBIND"
| "text_code InjectableDeclarationException = ERROR_INJECTABLE_ALREADY_DECLARED"
| "text_code _ = FAIL"

definition exception_of_text :: "exn_class \<Rightarrow> string \<Rightarrow> exn" where
  "exception_of_text c w = Xpcf c w (text_code c)"

text \<open>
  The constructor from a \<open>const char *\<close> is written separately from the one from a \<open>std::string\<close>;
  the two differ for \<open>IllegalStateException\<close> only.
\<close>

fun char_text_code :: "exn_class \<Rightarrow> XPCFErrorCode" where
  "char_text_code IllegalStateException = ERROR_ACCESS_DENIED"
| "char_text_code c = text_code c"

definition exception_of_char_text :: "exn_class \<Rightarrow> string \<Rightarrow> exn" where
  "exception_of_char_text c w = Xpcf c w (char_text_code c)"

text \<open>The constructors without argument.\<close>

fun default_code :: "exn_class \<Rightarrow> XPCFErrorCode option" where
  "default_code AccessDeniedException = Some ERROR_ACCESS_DENIED"
| "default_code IllegalStateException = Some ERROR_ACCESS_DENIED"
| "default_code NotImplementedException = Some ERROR_NOT_IMPLEMENTED"
| "default_code NullPointerException = Some ERROR_NULL_POINTER"
| "default_code TimeoutException = Some ERROR_TIMEOUT"
| "default_code ModuleException = Some ERROR_MODULE_MISSINGXPCF_ENTRY"
| "default_code _ = None"

definition default_exception :: "exn_class \<Rightarrow> exn option" where
  "default_exception c = map_option (exception_of_code c) (default_code c)"

abbreviation NullPointerException_default :: exn where
  "NullPointerException_default \<equiv> exception_of_code NullPointerException ERROR_NULL_POINTER"

abbreviation AccessDeniedException_default :: exn where
  "AccessDeniedException_default \<equiv> exception_of_code AccessDeniedException ERROR_ACCESS_DENIED"

abbreviation ConfigurationException_text :: "string \<Rightarrow> exn" where
  "ConfigurationException_text \<equiv> exception_of_text ConfigurationException"

text \<open>The constructors from an identifier print it with \<open>uuids::to_string\<close>, a parameter.\<close>

definition ComponentNotFoundException_uuid :: "(uuid \<Rightarrow> string) \<Rightarrow> uuid \<Rightarrow> exn" where
  "ComponentNotFoundException_uuid to_string u =
     exception_of_text ComponentNotFoundException
       (''xpcf::ComponentNotFoundException: '' @ to_string u)"

definition ModuleNotFoundException_uuid :: "(uuid \<Rightarrow> string) \<Rightarrow> uuid \<Rightarrow> exn" where
  "ModuleNotFoundException_uuid to_string u =
     exception_of_text ModuleNotFoundException
       (''xpcf::ModuleNotFoundException: '' @ to_string u)"

definition InterfaceNotImplementedException_uuid ::
  "(uuid \<Rightarrow> string) \<Rightarrow> uuid \<Rightarrow> uuid \<Rightarrow> exn" where
  "InterfaceNotImplementedException_uuid to_string c i =
     exception_of_text InterfaceNotImplementedException
       (''Component '' @ to_string c @ '' doesn't implement interface '' @ to_string i)"

text \<open>
  \<open>buildExceptionMessage\<close>: the text found for the code is overwritten by the assignment that follows it.
\<close>

definition buildExceptionMessage ::
  "(uuid \<Rightarrow> string) \<Rightarrow> uuid \<Rightarrow> string option \<Rightarrow> XPCFErrorCode \<Rightarrow> string \<Rightarrow> string" where
  "buildExceptionMessage to_string u name code w =
     (let message = error_code_message code @ ''=>'' @ [CHR 0x0A];
          message = ''uuid= '' @ to_string u;
          message = (case name of
                       Some n \<Rightarrow> message @ [CHR 0x0A] @ ''name='' @ n
                     | None \<Rightarrow> message)
      in message @ [CHR 0x0A] @ w)"

definition InjectionException_metadata ::
  "(uuid \<Rightarrow> string) \<Rightarrow> exn_class \<Rightarrow> uuid \<Rightarrow> string option \<Rightarrow> XPCFErrorCode \<Rightarrow> exn" where
  "InjectionException_metadata to_string c u name code =
     Xpcf c (buildExceptionMessage to_string u name code '''') code"

text \<open>
  Of the constructors the library gives to \<open>IllegalStateException\<close>, the one from a
  \<open>std::string\<close> reports \<open>_ERROR_ILLEGAL_STATE\<close>, while the default one and the one from a \<open>const char *\<close>
  report \<open>_ERROR_ACCESS_DENIED\<close>; for every other class the two text constructors agree, and a
  default constructor, where there is one, reports a code whose message is its text.
\<close>

theorem exception_constructors_codes:
  "getErrorCode (exception_of_text IllegalStateException w) = ERROR_ILLEGAL_STATE \<and>
   getErrorCode (exception_of_char_text IllegalStateException w) = ERROR_ACCESS_DENIED \<and>
   map_option getErrorCode (default_exception IllegalStateException) = Some ERROR_ACCESS_DENIED \<and>
   (exception_of_char_text c w = exception_of_text c w \<longleftrightarrow> c \<noteq> IllegalStateException) \<and>
   (case default_exception c of None \<Rightarrow> True
      | Some e \<Rightarrow> is_instance c e \<and> what e = error_code_message (getErrorCode e)
                  \<and> hasError (getErrorCode e))"
  by (cases c) (simp_all add: exception_of_text_def exception_of_char_text_def
      default_exception_def exception_of_code_def)

text \<open>
  The message of an injection exception does not depend on the error code: what
  \<open>buildExceptionMessage\<close> looks up for the code never reaches the text.
\<close>

theorem buildExceptionMessage_ignores_code:
  "buildExceptionMessage to_string u name code w =
     ''uuid= '' @ to_string u
       @ (case name of None \<Rightarrow> '''' | Some n \<Rightarrow> [CHR 0x0A] @ ''name='' @ n)
       @ [CHR 0x0A] @ w"
  by (simp add: buildExceptionMessage_def split: option.splits)

section \<open>Handlers\<close>

text \<open>\<open>catch (const xpcf::Exception & e)\<close>, \<open>catch (const std::runtime_error & e)\<close>, a derived class, any exception.\<close>

definition catch_if :: "(exn \<Rightarrow> bool) \<Rightarrow> ('s, exn, 'a) eff \<Rightarrow> (exn \<Rightarrow> ('s, exn, 'a) eff) \<Rightarrow> ('s, exn, 'a) eff" where
  "catch_if p m h = catch_eff m (\<lambda>e. if p e then h e else throw_eff e)"

abbreviation catch_xpcf where "catch_xpcf \<equiv> catch_if is_xpcf"
abbreviation catch_runtime where "catch_runtime \<equiv> catch_if is_runtime_error"
abbreviation catch_std where "catch_std \<equiv> catch_if is_std_exception"

lemma catch_if_run [eff_simps]:
  "catch_if p m h s = (case m s of (Inl e, s') \<Rightarrow> if p e then h e s' else (Inl e, s')
                                 | (Inr x, s') \<Rightarrow> (Inr x, s'))"
  by (auto simp: catch_if_def eff_simps split: prod.splits sum.splits)

lemma preserves_catch_if [preserves_intros]:
  "preserves P m \<Longrightarrow> (\<And>e. preserves P (h e)) \<Longrightarrow> preserves P (catch_if p m h)"
  by (auto simp: catch_if_def intro!: preserves_intros)

section \<open>XML error messages\<close>

text \<open>\<open>XmlErrorMessage\<close>: a tag, the error text and whether that text comes from an inner element.\<close>

record XmlErrorMessage =
  xem_tag :: string
  xem_whatError :: string
  xem_subElementError :: bool
  xem_tagAttributes :: "(string \<times> string) list"

definition newXmlErrorMessage :: "string \<Rightarrow> string \<Rightarrow> bool \<Rightarrow> XmlErrorMessage" where
  "newXmlErrorMessage tag w sub =
     \<lparr>xem_tag = tag, xem_whatError = w, xem_subElementError = sub, xem_tagAttributes = []\<rparr>"

definition XmlErrorMessage_addAttribute ::
  "string \<Rightarrow> string \<Rightarrow> XmlErrorMessage \<Rightarrow> XmlErrorMessage" where
  "XmlErrorMessage_addAttribute name val m =
     m\<lparr>xem_tagAttributes := xem_tagAttributes m @ [(name, val)]\<rparr>"

abbreviation dquote :: string where "dquote \<equiv> [CHR 0x22]"

fun write_attributes :: "string \<Rightarrow> (string \<times> string) list \<Rightarrow> string" where
  "write_attributes acc [] = acc"
| "write_attributes acc ((n, v) # rest) =
     write_attributes (acc @ '' '' @ n @ ''='' @ dquote @ v @ dquote) rest"

definition XmlErrorMessage_write :: "XmlErrorMessage \<Rightarrow> string" where
  "XmlErrorMessage_write m =
     (let msg = write_attributes (''<'' @ xem_tag m) (xem_tagAttributes m)
      in if \<not> xem_subElementError m
         then msg @ '' error='' @ dquote @ xem_whatError m @ dquote @ ''>''
         else msg @ ''>'' @ xem_whatError m)"

lemma write_attributes_concat:
  "write_attributes acc ps =
     acc @ concat (map (\<lambda>(n, v). '' '' @ n @ ''='' @ dquote @ v @ dquote) ps)"
  by (induction acc ps rule: write_attributes.induct) auto

text \<open>
  The handler every XML reader ends with: the exception is written into the message of the
  enclosing element and thrown again as a \<open>ConfigurationException\<close>.
\<close>

definition rethrow_in :: "string \<Rightarrow> bool \<Rightarrow> (string \<times> string) list \<Rightarrow> exn \<Rightarrow> ('s, exn, 'a) eff" where
  "rethrow_in tag sub attrs e =
     throw_eff (ConfigurationException_text
       (XmlErrorMessage_write
          (fold (\<lambda>(n, v). XmlErrorMessage_addAttribute n v) attrs
             (newXmlErrorMessage tag (what e) sub))))"

lemma rethrow_in_run [eff_simps]: "snd (rethrow_in tag sub attrs e s) = s"
  by (simp add: rethrow_in_def eff_simps)

lemma preserves_rethrow_in [preserves_intros]: "preserves P (rethrow_in tag sub attrs e)"
  by (simp add: preserves_def eff_simps)

lemma fold_addAttribute:
  "fold (\<lambda>(n, v). XmlErrorMessage_addAttribute n v) attrs m =
     m\<lparr>xem_tagAttributes := xem_tagAttributes m @ attrs\<rparr>"
  by (induction attrs arbitrary: m) (auto simp: XmlErrorMessage_addAttribute_def)

text \<open>
  What a reader of an XML element throws: the text of the error is inside the tag of the
  element, as its \<open>error\<close> attribute for an error of the element itself and after the tag for an error of an
  inner element, with the attributes the reader knows in the order it adds them; it is a
  \<open>ConfigurationException\<close> with code \<open>_FAIL\<close>, whatever was caught, and the state is the one of the throw.
\<close>

theorem rethrow_in_text:
  "rethrow_in tag sub attrs e s =
     (Inl (Xpcf ConfigurationException
        (''<'' @ tag @ concat (map (\<lambda>(n, v). '' '' @ n @ ''='' @ dquote @ v @ dquote) attrs) @
          (if sub then ''>'' @ what e else '' error='' @ dquote @ what e @ dquote @ ''>''))
        FAIL), s)"
  by (simp add: rethrow_in_def eff_simps fold_addAttribute newXmlErrorMessage_def
      XmlErrorMessage_write_def exception_of_text_def Let_def write_attributes_concat)

end
