(* ===== verification/Xpcf_PathBuilder.thy ===== *)
theory Xpcf_PathBuilder
  imports Xpcf_Prelude "HOL-Library.Sublist"
begin

text \<open>
  \<^verbatim>\<open>src/PathBuilder.cpp\<close>: where module files are looked for. Paths are their text. The functions of
  \<open>boost::filesystem\<close> and of the operating system that the code calls are the fields of a
  record the definitions take; conversions between the narrow and the UTF-8 form of a path are the
  identity on the text.
\<close>

section \<open>The environment\<close>

record Filesystem =
  fs_append :: "string \<Rightarrow> string \<Rightarrow> string"       \<comment> \<open>\<open>operator/\<close>\<close>
  fs_path_eq :: "string \<Rightarrow> string \<Rightarrow> bool"           \<comment> \<open>\<open>operator==\<close>\<close>
  fs_filename :: "string \<Rightarrow> string"
  fs_stem :: "string \<Rightarrow> string"
  fs_parent_path :: "string \<Rightarrow> string"
  fs_exists :: "string \<Rightarrow> bool"
  fs_is_directory :: "string \<Rightarrow> bool"
  fs_is_regular_file :: "string \<Rightarrow> bool"
  fs_is_relative :: "string \<Rightarrow> bool"
  fs_extension :: "string \<Rightarrow> string"
  fs_is_symlink :: "string \<Rightarrow> bool"
  fs_directory :: "string \<Rightarrow> string list"          \<comment> \<open>the entries of a \<open>directory_iterator\<close>\<close>
  fs_recursive_directory :: "string \<Rightarrow> string list"
  os_getenv :: "string \<Rightarrow> string option"
  os_pw_dir :: "string option"                    \<comment> \<open>the home directory of the password entry\<close>
  xpcf_subdir_search :: "string option"           \<comment> \<open>\<open>XPCFSUBDIRSEARCH\<close>, when the build defines it\<close>

section \<open>Strings\<close>

text \<open>\<open>std::string::find\<close>: the position of the first occurrence at or after the start, if any.\<close>

fun string_find :: "string \<Rightarrow> string \<Rightarrow> nat option" where
  "string_find pat [] = (if pat = [] then Some 0 else None)"
| "string_find pat (c # s) = (if prefix pat (c # s) then Some 0 else map_option Suc (string_find pat s))"

lemma string_find_iff: "string_find pat s \<noteq> None \<longleftrightarrow> sublist pat s"
  by (induction s) (auto simp: sublist_Cons_right)

definition is_env_char :: "char \<Rightarrow> bool" where
  "is_env_char c \<longleftrightarrow> (let n = of_char c :: nat in
     97 \<le> n \<and> n \<le> 122 \<or> 65 \<le> n \<and> n \<le> 90 \<or> 48 \<le> n \<and> n \<le> 57 \<or> n = 95)"

text \<open>
  The regular expression \<^verbatim>\<open>^\$([a-zA-Z0-9_]*)/\<close>: a match is a dollar at the very start, a longest run of the
  characters and a slash. The result is the run and what is left when the match is replaced by nothing.
\<close>

definition env_prefix :: "string \<Rightarrow> (string \<times> string) option" where
  "env_prefix s =
     (case s of
        [] \<Rightarrow> None
      | c # t \<Rightarrow>
          if c \<noteq> CHR ''$'' then None
          else case dropWhile is_env_char t of
              [] \<Rightarrow> None
            | d # rest \<Rightarrow> if d = CHR ''/'' then Some (takeWhile is_env_char t, rest) else None)"

section \<open>Paths\<close>

definition PathBuilder_findRegistries :: string where
  "PathBuilder_findRegistries = ''''"

definition PathBuilder_replaceRootEnvVars :: "'a Filesystem_scheme \<Rightarrow> string \<Rightarrow> string" where
  "PathBuilder_replaceRootEnvVars fs sourcePath =
     (case env_prefix sourcePath of
        None \<Rightarrow> sourcePath
      | Some (matchStr, replacedStr) \<Rightarrow>
          (case os_getenv fs matchStr of
             None \<Rightarrow> sourcePath
           | Some envVar \<Rightarrow> fs_append fs envVar replacedStr))"

definition PathBuilder_buildModuleFolderPath :: "'a Filesystem_scheme \<Rightarrow> string \<Rightarrow> string" where
  "PathBuilder_buildModuleFolderPath fs filePathStr =
     (let filePath = PathBuilder_replaceRootEnvVars fs filePathStr in
      case xpcf_subdir_search fs of
        None \<Rightarrow> filePath
      | Some modeSubDir \<Rightarrow>
          if fs_exists fs (fs_append fs filePath modeSubDir)
          then fs_append fs filePath modeSubDir else filePath)"

definition PathBuilder_buildModuleFilePath :: "'a Filesystem_scheme \<Rightarrow> string \<Rightarrow> string \<Rightarrow> string" where
  "PathBuilder_buildModuleFilePath fs moduleName filePathStr =
     fs_append fs (PathBuilder_buildModuleFolderPath fs filePathStr) moduleName"

text \<open>The POSIX branch. \<open>None\<close> is the null pointer \<open>getenv\<close> returns when neither gives a directory.\<close>

definition PathBuilder_getHomePath :: "'a Filesystem_scheme \<Rightarrow> string option" where
  "PathBuilder_getHomePath fs =
     (case os_pw_dir fs of Some d \<Rightarrow> Some d | None \<Rightarrow> os_getenv fs ''HOME'')"

definition PathBuilder_getXPCFHomePath :: "'a Filesystem_scheme \<Rightarrow> string option" where
  "PathBuilder_getXPCFHomePath fs =
     map_option (\<lambda>home. fs_append fs home ''.xpcf'') (PathBuilder_getHomePath fs)"

definition suffix :: string where
  "suffix = ''.so''"

definition PathBuilder_appendModuleDecorations :: "'a Filesystem_scheme \<Rightarrow> string \<Rightarrow> string" where
  "PathBuilder_appendModuleDecorations fs sl =
     (let actual = (if fs_stem fs sl = fs_filename fs sl then sl @ suffix else sl) in
      if take 3 (fs_filename fs actual) \<noteq> ''lib''
      then (if fs_parent_path fs actual \<noteq> '''' then fs_append fs (fs_parent_path fs actual) ''lib'' else ''lib'')
             @ fs_filename fs actual
      else actual)"

definition PathBuilder_is_shared_library :: "'a Filesystem_scheme \<Rightarrow> string \<Rightarrow> bool" where
  "PathBuilder_is_shared_library fs s \<longleftrightarrow>
     (if fs_is_symlink fs s then False
      else string_find ''.dll'' s \<noteq> None \<or> string_find ''.so'' s \<noteq> None
           \<or> string_find ''.dylib'' s \<noteq> None)"

section \<open>Properties\<close>

abbreviation env_path :: "string \<Rightarrow> string \<Rightarrow> string" where
  "env_path v rest \<equiv> CHR ''$'' # v @ CHR ''/'' # rest"

lemma env_prefix_Some:
  assumes "env_prefix s = Some (v, rest)"
  shows "s = env_path v rest \<and> list_all is_env_char v"
proof (cases s)
  case (Cons c t)
  show ?thesis
  proof (cases "dropWhile is_env_char t")
    case (Cons d u)
    with assms \<open>s = c # t\<close> have "c = CHR ''$''" "d = CHR ''/''" "v = takeWhile is_env_char t" "u = rest"
      by (simp_all add: env_prefix_def split: if_splits)
    with Cons \<open>s = c # t\<close> show ?thesis
      using takeWhile_dropWhile_id [of is_env_char t] set_takeWhileD [of _ is_env_char t]
      unfolding list_all_iff by metis
  next
    case Nil
    have "env_prefix s = None"
      unfolding env_prefix_def \<open>s = c # t\<close> by (simp only: list.case Nil) simp
    with assms show ?thesis by simp
  qed
qed (use assms in \<open>simp add: env_prefix_def\<close>)

lemma env_prefix_env_path:
  assumes "list_all is_env_char v"
  shows "env_prefix (env_path v rest) = Some (v, rest)"
proof -
  have "\<not> is_env_char CHR ''/''" by (simp add: is_env_char_def)
  with assms have "dropWhile is_env_char (v @ CHR ''/'' # rest) = CHR ''/'' # rest"
    and "takeWhile is_env_char (v @ CHR ''/'' # rest) = v"
    by (simp_all add: list_all_iff)
  then show ?thesis by (simp add: env_prefix_def)
qed

text \<open>
  A source path that starts with \<open>$NAME/\<close>, the name made of letters, digits and underscores
  (it may be empty), is resolved under the value of that variable; it stays as written when the
  variable is not set, and so does every other path, a variable further inside it included.
\<close>

theorem replaceRootEnvVars_cases:
  "(list_all is_env_char v \<longrightarrow>
     PathBuilder_replaceRootEnvVars fs (env_path v rest) =
       (case os_getenv fs v of None \<Rightarrow> env_path v rest | Some d \<Rightarrow> fs_append fs d rest)) \<and>
   ((\<forall>v rest. s = env_path v rest \<longrightarrow> \<not> list_all is_env_char v) \<longrightarrow>
     PathBuilder_replaceRootEnvVars fs s = s)"
proof (intro conjI impI)
  assume "list_all is_env_char v"
  then show "PathBuilder_replaceRootEnvVars fs (env_path v rest) =
       (case os_getenv fs v of None \<Rightarrow> env_path v rest | Some d \<Rightarrow> fs_append fs d rest)"
    by (simp add: PathBuilder_replaceRootEnvVars_def env_prefix_env_path split: option.splits)
next
  assume "\<forall>v rest. s = env_path v rest \<longrightarrow> \<not> list_all is_env_char v"
  then have "env_prefix s = None"
    by (cases "env_prefix s") (use env_prefix_Some in force)+
  then show "PathBuilder_replaceRootEnvVars fs s = s"
    by (simp add: PathBuilder_replaceRootEnvVars_def)
qed

text \<open>A file system with textual paths and one variable, for the witness.\<close>

definition sample_fs :: Filesystem where
  "sample_fs =
     \<lparr>fs_append = (\<lambda>p q. p @ ''/'' @ q), fs_path_eq = (\<lambda>p q. p = q), fs_filename = (\<lambda>p. p), fs_stem = (\<lambda>p. p), fs_parent_path = (\<lambda>p. ''''),
      fs_exists = (\<lambda>p. True), fs_is_directory = (\<lambda>p. True), fs_is_regular_file = (\<lambda>p. True),
      fs_is_relative = (\<lambda>p. False), fs_extension = (\<lambda>p. ''.xml''), fs_is_symlink = (\<lambda>p. False),
      fs_directory = (\<lambda>p. []), fs_recursive_directory = (\<lambda>p. []),
      os_getenv = (\<lambda>v. if v = ''HOME_1'' then Some ''/h'' else None), os_pw_dir = None,
      xpcf_subdir_search = None\<rparr>"

theorem replaceRootEnvVars_cases_witness:
  "PathBuilder_replaceRootEnvVars sample_fs ''$HOME_1/m'' = ''/h/m'' \<and>
   PathBuilder_replaceRootEnvVars sample_fs ''m/$HOME_1/'' = ''m/$HOME_1/''"
  using replaceRootEnvVars_cases [of "''HOME_1''" sample_fs "''m''" "''m/$HOME_1/''"]
  by (simp add: is_env_char_def sample_fs_def)

end
