(* ===== verification/Xpcf_GenTypes.thy ===== *)
theory Xpcf_GenTypes
  imports Xpcf_Exceptions Xpcf_PathBuilder
begin

text \<open>
  The description of a C++ type the gRPC code generators work on: \<open>TypeDescriptor\<close> of
  \<^verbatim>\<open>tools/generators/grpc/TypeDescriptor.cpp\<close>. The types come from the \<^verbatim>\<open>cppast\<close> library: the datatype
  \<open>cpp_type\<close> has one constructor for each kind the code tests, with the parts the code asks for, and one for
  the others. What the library prints for a type is a parameter, \<open>cp_to_string\<close>.

  The members of \<open>TypeDescriptorInfo\<close> that its constructor leaves uninitialised have the values of the parameter
  \<open>raw\<close>. The messages on the standard output are not modelled. The part that is compiled with
  \<^verbatim>\<open>CPPAST_TPLARGS_NOTEXPOSED\<close>, which no build file defines, is not modelled.
\<close>

section \<open>C++ types\<close>

datatype cpp_builtin_type =
    cpp_void | cpp_bool | cpp_uchar | cpp_ushort | cpp_uint | cpp_ulong | cpp_ulonglong | cpp_uint128 | cpp_schar |
    cpp_short | cpp_int | cpp_long | cpp_longlong | cpp_int128 | cpp_float | cpp_double | cpp_longdouble |
    cpp_float128 | cpp_char | cpp_wchar | cpp_char16 | cpp_char32 | cpp_nullptr | cpp_int8_t | cpp_int16_t |
    cpp_int32_t | cpp_int64_t | cpp_uint8_t | cpp_uint16_t | cpp_uint32_t | cpp_uint64_t | cpp_int_least8_t |
    cpp_int_least16_t | cpp_int_least32_t | cpp_int_least64_t | cpp_uint_least8_t | cpp_uint_least16_t |
    cpp_uint_least32_t | cpp_uint_least64_t | cpp_int_fast8_t | cpp_int_fast16_t | cpp_int_fast32_t |
    cpp_int_fast64_t | cpp_uint_fast8_t | cpp_uint_fast16_t | cpp_uint_fast32_t | cpp_uint_fast64_t | cpp_intptr_t |
    cpp_uintptr_t | cpp_intmax_t | cpp_uintmax_t

datatype cpp_cv = cpp_cv_none | cpp_cv_const | cpp_cv_volatile | cpp_cv_const_volatile

fun is_const :: "cpp_cv \<Rightarrow> bool" where
  "is_const cpp_cv_const = True"
| "is_const cpp_cv_const_volatile = True"
| "is_const _ = False"

datatype cpp_reference = cpp_ref_lvalue | cpp_ref_rvalue

text \<open>
  A user defined type has a name, and the index of the parsed entities tells whether it is an enumeration. An
  instantiation of a template has the name of the template, whether its arguments are exposed, and, optionally, the
  arguments; an argument that is not a type has no type.
\<close>

datatype cpp_type =
    cpp_builtin cpp_builtin_type
  | cpp_user_defined string bool
  | cpp_cv_qualified cpp_cv cpp_type
  | cpp_pointer cpp_type
  | cpp_reference_to cpp_reference cpp_type
  | cpp_array cpp_type
  | cpp_template_instantiation string bool "cpp_type option list option"
  | cpp_other_type string

record Cppast =
  cp_to_string :: "cpp_type \<Rightarrow> string"
  cp_builtin_to_string :: "cpp_builtin_type \<Rightarrow> string"

section \<open>Descriptions\<close>

datatype type_kind = builtin_t | c_string_t | std_string_t | user_defined_t | array_t | enum_t | template_t

datatype template_type =
    no_template_t | vector_t | map_t | tuple_t | sharedptr_t | user_defined_template_t

record TypeDescriptorInfo =
  ti_typename :: string
  ti_const :: bool
  ti_isBuiltin :: bool
  ti_isReference :: bool
  ti_isPointer :: bool
  ti_void :: bool
  ti_kind :: type_kind
  ti_rpcType :: string
  ti_templateType :: template_type
  ti_builtinType :: cpp_builtin_type
  ti_nameSpace :: string
  ti_staticCast :: bool

datatype TypeDescriptor = TypeDescriptor (td_info: TypeDescriptorInfo) (td_tmplArgs: "TypeDescriptor list")

record RawMembers =
  raw_isBuiltin :: bool
  raw_kind :: type_kind
  raw_builtinType :: cpp_builtin_type

definition TypeDescriptorInfo_init :: "RawMembers \<Rightarrow> TypeDescriptorInfo" where
  "TypeDescriptorInfo_init raw =
     \<lparr>ti_typename = '''', ti_const = True, ti_isBuiltin = raw_isBuiltin raw, ti_isReference = False,
      ti_isPointer = False, ti_void = True, ti_kind = raw_kind raw, ti_rpcType = '''',
      ti_templateType = no_template_t, ti_builtinType = raw_builtinType raw, ti_nameSpace = '''', ti_staticCast = False\<rparr>"

definition td_kind :: "TypeDescriptor \<Rightarrow> type_kind" where
  "td_kind d = ti_kind (td_info d)"

definition td_isConst :: "TypeDescriptor \<Rightarrow> bool" where
  "td_isConst d = ti_const (td_info d)"

definition td_isReference :: "TypeDescriptor \<Rightarrow> bool" where
  "td_isReference d = ti_isReference (td_info d)"

definition td_isVoid :: "TypeDescriptor \<Rightarrow> bool" where
  "td_isVoid d = ti_void (td_info d)"

definition needsStaticCast :: "TypeDescriptor \<Rightarrow> bool" where
  "needsStaticCast d = ti_staticCast (td_info d)"

definition enableStaticCast :: "string \<Rightarrow> TypeDescriptor \<Rightarrow> TypeDescriptor" where
  "enableStaticCast rpcType d = TypeDescriptor ((td_info d)\<lparr>ti_rpcType := rpcType, ti_staticCast := True\<rparr>) (td_tmplArgs d)"

definition td_setNamespace :: "string \<Rightarrow> TypeDescriptor \<Rightarrow> TypeDescriptor" where
  "td_setNamespace nameSpace d = TypeDescriptor ((td_info d)\<lparr>ti_nameSpace := nameSpace\<rparr>) (td_tmplArgs d)"

definition qualified_name :: "string \<Rightarrow> string \<Rightarrow> string" where
  "qualified_name nSpace name = (if nSpace \<noteq> '''' then nSpace @ ''::'' @ name else name)"

text \<open>The loop over the arguments writes a comma before each argument but the first.\<close>

fun getFullTypeDescription :: "TypeDescriptor \<Rightarrow> string" and arguments_text :: "bool \<Rightarrow> TypeDescriptor list \<Rightarrow> string" where
  "getFullTypeDescription (TypeDescriptor i args) =
     qualified_name (ti_nameSpace i) (ti_typename i) @ (if ti_kind i = template_t then ''<'' else '''') @
     arguments_text False args @ (if ti_kind i = template_t then ''>'' else '''')"
| "arguments_text severalArgs [] = ''''"
| "arguments_text severalArgs (d # ds) =
     (if severalArgs then '','' else '''') @
     (if td_kind d = template_t then getFullTypeDescription d
      else qualified_name (ti_nameSpace (td_info d)) (ti_typename (td_info d))) @
     arguments_text True ds"

section \<open>Known names\<close>

definition cppFixedWidthTypeList :: string where
  "cppFixedWidthTypeList =
     ''int8_t|int16_t|int32_t|int64_t|uint8_t|uint16_t|uint32_t|uint64_t|int_least8_t|int_least16_t|'' @
     ''int_least32_t|int_least64_t|uint_least8_t|uint_least16_t|uint_least32_t|uint_least64_t|'' @
     ''int_fast8_t|int_fast16_t|int_fast32_t|int_fast64_t|uint_fast8_t|uint_fast16_t|uint_fast32_t|'' @
     ''uint_fast64_t|intptr_t|uintptr_t|intmax_t|uintmax_t|''"

definition isCppFixedWidthType :: "Cppast \<Rightarrow> cpp_type \<Rightarrow> bool" where
  "isCppFixedWidthType cp p \<longleftrightarrow> string_find (cp_to_string cp p @ ''|'') cppFixedWidthTypeList \<noteq> None"

definition isStdString :: "Cppast \<Rightarrow> cpp_type \<Rightarrow> bool" where
  "isStdString cp p \<longleftrightarrow> string_find (cp_to_string cp p @ ''|'') ''std::string|std::basic_string<char>|'' \<noteq> None"

definition builtinStrToEnumMap :: "string \<rightharpoonup> cpp_builtin_type" where
  "builtinStrToEnumMap = map_of [
     (''int8_t'', cpp_int8_t), (''int16_t'', cpp_int16_t), (''int32_t'', cpp_int32_t), (''int64_t'', cpp_int64_t),
     (''uint8_t'', cpp_uint8_t), (''uint16_t'', cpp_uint16_t), (''uint32_t'', cpp_uint32_t),
     (''uint64_t'', cpp_uint64_t), (''int_least8_t'', cpp_int_least8_t), (''int_least16_t'', cpp_int_least16_t),
     (''int_least32_t'', cpp_int_least32_t), (''int_least64_t'', cpp_int_least64_t),
     (''uint_least8_t'', cpp_uint_least8_t), (''uint_least16_t'', cpp_uint_least16_t),
     (''uint_least32_t'', cpp_uint_least32_t), (''uint_least64_t'', cpp_uint_least64_t),
     (''int_fast8_t'', cpp_int_fast8_t), (''int_fast16_t'', cpp_int_fast16_t), (''int_fast32_t'', cpp_int_fast32_t),
     (''int_fast64_t'', cpp_int_fast64_t), (''uint_fast8_t'', cpp_uint_fast8_t),
     (''uint_fast16_t'', cpp_uint_fast16_t), (''uint_fast32_t'', cpp_uint_fast32_t),
     (''uint_fast64_t'', cpp_uint_fast64_t), (''uint_fast64_t'', cpp_uint_fast64_t), (''intptr_t'', cpp_intptr_t),
     (''uintptr_t'', cpp_uintptr_t), (''intmax_t'', cpp_intmax_t), (''uintmax_t'', cpp_uintmax_t)]"

text \<open>\<open>std::map::at\<close> throws for a key that is not there.\<close>

definition at_key :: "('k \<rightharpoonup> 'v) \<Rightarrow> 'k \<Rightarrow> exn + 'v" where
  "at_key m k = (case m k of None \<Rightarrow> Inl (Out_of_range ''map::at'') | Some v \<Rightarrow> Inr v)"

definition cppFixedWidthType :: "Cppast \<Rightarrow> cpp_type \<Rightarrow> exn + cpp_builtin_type" where
  "cppFixedWidthType cp p = at_key builtinStrToEnumMap (cp_to_string cp p)"

definition templateToContainerMap :: "string \<rightharpoonup> template_type" where
  "templateToContainerMap = map_of [(''std::vector'', vector_t), (''std::map'', map_t), (''std::unordered_map'', map_t),
     (''std::tuple'', tuple_t), (''std::shared_ptr'', sharedptr_t), (''SRef'', sharedptr_t)]"

definition isContainer :: "string \<Rightarrow> bool" where
  "isContainer name \<longleftrightarrow> string_find name ''std::vector|std::map|std::unordered_map'' \<noteq> None"

definition getContainerType :: "string \<Rightarrow> exn + template_type" where
  "getContainerType name = at_key templateToContainerMap name"

section \<open>Parsing a type\<close>

text \<open>
  \<open>parseType\<close> walks from a type to the type it is made from, one level an iteration, and notes what it meets. The two
  deques \<open>m_foundConst\<close> and \<open>m_foundRef\<close> are members of the descriptor: the arguments of a template are parsed by the
  same object and go on with the same deques.
\<close>

record ParseState =
  ps_info :: TypeDescriptorInfo
  ps_tmplArgs :: "TypeDescriptor list"
  ps_foundConst :: "bool list"
  ps_foundRef :: "bool list"
  ps_derefTypeKind :: string
  ps_bIsLeaf :: bool

definition update_info :: "(TypeDescriptorInfo \<Rightarrow> TypeDescriptorInfo) \<Rightarrow> ParseState \<Rightarrow> ParseState" where
  "update_info f st = st\<lparr>ps_info := f (ps_info st)\<rparr>"

definition descend :: "Cppast \<Rightarrow> cpp_type \<Rightarrow> ParseState \<Rightarrow> ParseState" where
  "descend cp innerType st = st\<lparr>ps_derefTypeKind := cp_to_string cp innerType, ps_bIsLeaf := False\<rparr>"

definition parse_fixed_width :: "Cppast \<Rightarrow> cpp_type \<Rightarrow> ParseState \<Rightarrow> exn + ParseState" where
  "parse_fixed_width cp currentType st =
     (if isCppFixedWidthType cp currentType
      then (case cppFixedWidthType cp currentType of
              Inl e \<Rightarrow> Inl e
            | Inr b \<Rightarrow> Inr (update_info (\<lambda>i. i\<lparr>ti_typename := cp_to_string cp currentType, ti_builtinType := b,
                ti_kind := builtin_t, ti_isBuiltin := True\<rparr>) st))
      else Inr st)"

definition parse_std_string :: "Cppast \<Rightarrow> cpp_type \<Rightarrow> ParseState \<Rightarrow> ParseState" where
  "parse_std_string cp currentType st =
     (if isStdString cp currentType
      then update_info (\<lambda>i. i\<lparr>ti_typename := ''std::string'', ti_kind := std_string_t\<rparr>) (st\<lparr>ps_bIsLeaf := True\<rparr>)
      else st)"

text \<open>What the code does for the kind of the current type, the instantiations of templates apart.\<close>

fun parse_level :: "Cppast \<Rightarrow> cpp_type \<Rightarrow> ParseState \<Rightarrow> ParseState" where
  "parse_level cp (cpp_pointer pointee) st =
     descend cp pointee (update_info (\<lambda>i. i\<lparr>ti_const := (if ps_foundConst st = [] then False else ti_const i),
       ti_isReference := True, ti_isPointer := True, ti_void := False\<rparr>) (st\<lparr>ps_foundConst := []\<rparr>))"
| "parse_level cp (cpp_array value_type) st = descend cp value_type (update_info (\<lambda>i. i\<lparr>ti_void := False\<rparr>) st)"
| "parse_level cp (cpp_reference_to k referee) st =
     descend cp referee (update_info (\<lambda>i. i\<lparr>ti_void := False\<rparr>)
       (if k = cpp_ref_lvalue
        then update_info (\<lambda>i. i\<lparr>ti_isReference := True\<rparr>) (st\<lparr>ps_foundRef := ps_foundRef st @ [True]\<rparr>) else st))"
| "parse_level cp (cpp_cv_qualified cv t) st =
     update_info (\<lambda>i. i\<lparr>ti_void := False\<rparr>)
       (let st' = descend cp t st in if is_const cv then st'\<lparr>ps_foundConst := True # ps_foundConst st'\<rparr> else st')"
| "parse_level cp (cpp_builtin b) st =
     update_info (\<lambda>i. i\<lparr>ti_void := (if b \<noteq> cpp_void then False else ti_void i),
         ti_typename := cp_to_string cp (cpp_builtin b), ti_builtinType := b, ti_kind := builtin_t, ti_isBuiltin := True\<rparr>)
       (st\<lparr>ps_derefTypeKind := cp_builtin_to_string cp b, ps_bIsLeaf := True\<rparr>)"
| "parse_level cp (cpp_user_defined name enum) st =
     (let st' = update_info (\<lambda>i. i\<lparr>ti_void := False\<rparr>) st; t = cpp_user_defined name enum in
      if \<not> isCppFixedWidthType cp t \<and> \<not> isStdString cp t
      then update_info (\<lambda>i. i\<lparr>ti_typename := name, ti_kind := (if enum then enum_t else user_defined_t)\<rparr>)
             (st'\<lparr>ps_bIsLeaf := True, ps_derefTypeKind := (if enum then ''Enum type'' else ''User defined type'')\<rparr>)
      else st')"
| "parse_level cp (cpp_template_instantiation name exposed args) st =
     update_info (\<lambda>i. i\<lparr>ti_void := False, ti_kind := template_t, ti_typename := name\<rparr>) (st\<lparr>ps_bIsLeaf := True\<rparr>)"
| "parse_level cp (cpp_other_type name) st = update_info (\<lambda>i. i\<lparr>ti_void := False\<rparr>) st"

fun innerType :: "cpp_type \<Rightarrow> cpp_type" where
  "innerType (cpp_pointer t) = t"
| "innerType (cpp_array t) = t"
| "innerType (cpp_reference_to k t) = t"
| "innerType (cpp_cv_qualified cv t) = t"
| "innerType t = t"

text \<open>After the loop: constness from the two deques, and \<open>const char *\<close>.\<close>

definition finish_type :: "ParseState \<Rightarrow> TypeDescriptor" where
  "finish_type st =
     (let i = (ps_info st)\<lparr>ti_const := \<not> length (ps_foundConst st) < length (ps_foundRef st)\<rparr> in
      TypeDescriptor
        (if ti_isBuiltin i \<and> ti_const i \<and> ti_isPointer i \<and> ti_builtinType i = cpp_char
         then i\<lparr>ti_isBuiltin := False, ti_kind := c_string_t\<rparr> else i)
        (ps_tmplArgs st))"

type_synonym found = "bool list \<times> bool list"

definition ParseState_init :: "RawMembers \<Rightarrow> found \<Rightarrow> ParseState" where
  "ParseState_init raw fnd =
     \<lparr>ps_info = TypeDescriptorInfo_init raw, ps_tmplArgs = [], ps_foundConst = fst fnd, ps_foundRef = snd fnd,
      ps_derefTypeKind = '''', ps_bIsLeaf = True\<rparr>"

text \<open>
  One iteration, the arguments of a template apart. \<open>parse_container\<close> and \<open>template_arguments\<close> are of
  \<open>parseTemplateInstanciation\<close>; a type that is no instantiation of a template is the last one when its text is the
  text stored by the level before.
\<close>

fun parse_container :: "cpp_type \<Rightarrow> ParseState \<Rightarrow> exn + ParseState" where
  "parse_container (cpp_template_instantiation name exposed args) st =
     (if isContainer name
      then (case getContainerType name of
              Inl e \<Rightarrow> Inl e
            | Inr c \<Rightarrow> Inr (update_info (\<lambda>i. i\<lparr>ti_templateType := c\<rparr>) st))
      else Inr st)"
| "parse_container t st = Inr st"

fun template_arguments :: "cpp_type \<Rightarrow> cpp_type option list" where
  "template_arguments (cpp_template_instantiation name exposed args) =
     (if exposed then (case args of None \<Rightarrow> [] | Some as \<Rightarrow> as) else [])"
| "template_arguments t = []"

fun is_template :: "cpp_type \<Rightarrow> bool" where
  "is_template (cpp_template_instantiation name exposed args) = True"
| "is_template t = False"

definition parse_leaf :: "Cppast \<Rightarrow> cpp_type \<Rightarrow> ParseState \<Rightarrow> ParseState" where
  "parse_leaf cp t st =
     (if \<not> is_template t \<and> cp_to_string cp t = ps_derefTypeKind st then st\<lparr>ps_bIsLeaf := True\<rparr> else st)"

definition parse_iteration :: "Cppast \<Rightarrow> cpp_type \<Rightarrow> ParseState \<Rightarrow> exn + ParseState" where
  "parse_iteration cp t st =
     (case parse_fixed_width cp t st of
        Inl e \<Rightarrow> Inl e
      | Inr st1 \<Rightarrow>
          (case parse_container t (parse_level cp t (parse_std_string cp t st1)) of
             Inl e \<Rightarrow> Inl e
           | Inr st2 \<Rightarrow> Inr (parse_leaf cp t st2)))"

text \<open>
  The iterations and the arguments are counted by the fuel: without fuel there is no result (\<open>None\<close>).
\<close>

definition bind_parse :: "(exn + 'a) option \<Rightarrow> ('a \<Rightarrow> (exn + 'b) option) \<Rightarrow> (exn + 'b) option" where
  "bind_parse r f = (case r of None \<Rightarrow> None | Some (Inl e) \<Rightarrow> Some (Inl e) | Some (Inr x) \<Rightarrow> f x)"

definition found_of :: "ParseState \<Rightarrow> found" where
  "found_of st = (ps_foundConst st, ps_foundRef st)"

definition add_arguments :: "ParseState \<Rightarrow> TypeDescriptor list \<times> found \<Rightarrow> ParseState" where
  "add_arguments st = (\<lambda>(ds, fnd). st\<lparr>ps_tmplArgs := ps_tmplArgs st @ ds, ps_foundConst := fst fnd, ps_foundRef := snd fnd\<rparr>)"

fun parse_loop :: "nat \<Rightarrow> Cppast \<Rightarrow> (cpp_type \<Rightarrow> RawMembers) \<Rightarrow> cpp_type \<Rightarrow> ParseState \<Rightarrow> (exn + ParseState) option"
  and parse_arguments :: "nat \<Rightarrow> Cppast \<Rightarrow> (cpp_type \<Rightarrow> RawMembers) \<Rightarrow> cpp_type option list \<Rightarrow> found \<Rightarrow>
    (exn + TypeDescriptor list \<times> found) option" where
  "parse_loop 0 cp raw t st = None"
| "parse_loop (Suc n) cp raw t st =
     bind_parse (Some (parse_iteration cp t st)) (\<lambda>st1.
       if is_template t
       then bind_parse (parse_arguments n cp raw (template_arguments t) (found_of st1))
              (\<lambda>r. Some (Inr (add_arguments st1 r)))
       else if ps_bIsLeaf st1 then Some (Inr st1) else parse_loop n cp raw (innerType t) st1)"
| "parse_arguments 0 cp raw as fnd = None"
| "parse_arguments (Suc n) cp raw [] fnd = Some (Inr ([], fnd))"
| "parse_arguments (Suc n) cp raw (None # as) fnd = Some (Inl Undefined_behaviour)"
| "parse_arguments (Suc n) cp raw (Some t # as) fnd =
     bind_parse (parse_loop n cp raw t (ParseState_init (raw t) fnd)) (\<lambda>st.
       bind_parse (parse_arguments n cp raw as (found_of st)) (\<lambda>(ds, fnd'). Some (Inr (finish_type st # ds, fnd'))))"

text \<open>\<open>TypeDescriptor::parse\<close> of a new descriptor, whose deques are empty, with fuel for every type (below).\<close>

definition TypeDescriptor_parse ::
  "Cppast \<Rightarrow> (cpp_type \<Rightarrow> RawMembers) \<Rightarrow> cpp_type \<Rightarrow> (exn + TypeDescriptor) option" where
  "TypeDescriptor_parse cp raw p =
     map_option (map_sum id finish_type) (parse_loop (Suc (size p)) cp raw p (ParseState_init (raw p) ([], [])))"

section \<open>Parsing ends\<close>

text \<open>
  A level the loop does not leave comes after a level whose inner type it is, and the text of that inner type was stored:
  a leaf whose kind the code does not know ends the loop because its text is the stored one.
\<close>

lemma update_info_sel [simp]:
  "ps_bIsLeaf (update_info f st) = ps_bIsLeaf st" "ps_derefTypeKind (update_info f st) = ps_derefTypeKind st"
  "ps_foundConst (update_info f st) = ps_foundConst st" "ps_foundRef (update_info f st) = ps_foundRef st"
  "ps_info (update_info f st) = f (ps_info st)" "ps_tmplArgs (update_info f st) = ps_tmplArgs st"
  by (simp_all add: update_info_def)

lemma parse_fixed_width_leaf:
  "parse_fixed_width cp t st = Inr st1 \<Longrightarrow> ps_bIsLeaf st1 = ps_bIsLeaf st \<and> ps_derefTypeKind st1 = ps_derefTypeKind st"
  by (auto simp: parse_fixed_width_def split: if_splits sum.splits)

lemma parse_std_string_leaf:
  "ps_bIsLeaf st \<or> ps_derefTypeKind st = x \<Longrightarrow>
   ps_bIsLeaf (parse_std_string cp t st) \<or> ps_derefTypeKind (parse_std_string cp t st) = x"
  by (auto simp: parse_std_string_def)

lemma parse_container_leaf:
  "\<not> is_template t \<Longrightarrow> parse_container t st = Inr st"
  by (cases t) auto

lemma parse_level_descends:
  "ps_bIsLeaf st \<or> ps_derefTypeKind st = cp_to_string cp t \<Longrightarrow> \<not> is_template t \<Longrightarrow>
   \<not> ps_bIsLeaf (parse_leaf cp t (parse_level cp t st)) \<Longrightarrow>
   size (innerType t) < size t \<and> ps_derefTypeKind (parse_leaf cp t (parse_level cp t st)) = cp_to_string cp (innerType t)"
  by (cases t) (auto simp: parse_leaf_def descend_def Let_def split: if_splits)

lemma parse_iteration_descends:
  assumes "parse_iteration cp t st = Inr st1" and "ps_bIsLeaf st \<or> ps_derefTypeKind st = cp_to_string cp t"
    and "\<not> is_template t" and "\<not> ps_bIsLeaf st1"
  shows "size (innerType t) < size t \<and> ps_derefTypeKind st1 = cp_to_string cp (innerType t)"
proof -
  obtain st0 where st0: "parse_fixed_width cp t st = Inr st0"
    and st1: "st1 = parse_leaf cp t (parse_level cp t (parse_std_string cp t st0))"
    using assms(1,3) by (auto simp: parse_iteration_def parse_container_leaf split: sum.splits)
  have "ps_bIsLeaf st0 \<or> ps_derefTypeKind st0 = cp_to_string cp t"
    using assms(2) parse_fixed_width_leaf [OF st0] by simp
  then show ?thesis
    using assms(3,4) parse_level_descends [OF parse_std_string_leaf] unfolding st1 by blast
qed

lemma size_template_arguments: "is_template t \<Longrightarrow> size_list (size_option size) (template_arguments t) < size t"
  by (cases t) (auto split: option.splits)

lemma bind_parse_Some: "r \<noteq> None \<Longrightarrow> (\<And>x. r = Some (Inr x) \<Longrightarrow> f x \<noteq> None) \<Longrightarrow> bind_parse r f \<noteq> None"
  by (auto simp: bind_parse_def split: option.splits sum.splits)

lemma parse_ends:
  "size t < n \<Longrightarrow> ps_bIsLeaf st \<or> ps_derefTypeKind st = cp_to_string cp t \<Longrightarrow> parse_loop n cp raw t st \<noteq> None"
  "size_list (size_option size) as < n \<Longrightarrow> parse_arguments n cp raw as fnd \<noteq> None"
proof (induction n cp raw t st and n cp raw as fnd rule: parse_loop_parse_arguments.induct)
  case (2 n cp raw t st)
  show ?case
    unfolding parse_loop.simps
  proof (rule bind_parse_Some)
    fix st1 assume "Some (parse_iteration cp t st) = Some (Inr st1)"
    then have it: "parse_iteration cp t st = Inr st1" by simp
    show "(if is_template t
        then bind_parse (parse_arguments n cp raw (template_arguments t) (found_of st1)) (\<lambda>r. Some (Inr (add_arguments st1 r)))
        else if ps_bIsLeaf st1 then Some (Inr st1) else parse_loop n cp raw (innerType t) st1) \<noteq> None"
    proof (cases "is_template t")
      case True
      then have "parse_arguments n cp raw (template_arguments t) (found_of st1) \<noteq> None"
        using "2.IH"(1) "2.prems"(1) size_template_arguments [of t] by simp
      with True show ?thesis by (simp add: bind_parse_Some)
    next
      case False
      show ?thesis
      proof (cases "ps_bIsLeaf st1")
        case False
        with \<open>\<not> is_template t\<close> have "size (innerType t) < n" "ps_derefTypeKind st1 = cp_to_string cp (innerType t)"
          using parse_iteration_descends [OF it "2.prems"(2)] "2.prems"(1) by auto
        then show ?thesis using \<open>\<not> is_template t\<close> False "2.IH"(2) by simp
      qed (simp add: \<open>\<not> is_template t\<close>)
    qed
  qed simp
next
  case (6 n cp raw t as fnd)
  have "parse_loop n cp raw t (ParseState_init (raw t) fnd) \<noteq> None"
    using "6.IH"(1) "6.prems" by (simp add: ParseState_init_def)
  moreover have "parse_arguments n cp raw as (found_of st) \<noteq> None" for st
    using "6.IH"(2) "6.prems" by simp
  ultimately show ?case
    unfolding parse_arguments.simps by (intro bind_parse_Some) (auto split: prod.splits)
qed simp_all

text \<open>
  Parsing a C++ type always ends, however the type is built and whatever the library prints for it: the loop over
  the levels of the type stops, so that there is a description or an exception.
\<close>

theorem parse_type_ends: "\<exists>r. TypeDescriptor_parse cp raw p = Some r"
  using parse_ends(1) [of p "Suc (size p)" "ParseState_init (raw p) ([], [])" cp raw]
  by (auto simp: TypeDescriptor_parse_def ParseState_init_def)

section \<open>What the description says of the type\<close>

text \<open>
  The levels of a type that decide its description: the references to lvalues, the pointers, and the \<open>const\<close>
  qualifiers that come after the innermost pointer.
\<close>

fun lvalue_references :: "cpp_type \<Rightarrow> nat" where
  "lvalue_references (cpp_reference_to k t) = (if k = cpp_ref_lvalue then 1 else 0) + lvalue_references t"
| "lvalue_references (cpp_pointer t) = lvalue_references t"
| "lvalue_references (cpp_array t) = lvalue_references t"
| "lvalue_references (cpp_cv_qualified cv t) = lvalue_references t"
| "lvalue_references t = 0"

fun has_pointer :: "cpp_type \<Rightarrow> bool" where
  "has_pointer (cpp_pointer t) = True"
| "has_pointer (cpp_reference_to k t) = has_pointer t"
| "has_pointer (cpp_array t) = has_pointer t"
| "has_pointer (cpp_cv_qualified cv t) = has_pointer t"
| "has_pointer t = False"

fun pointee_consts :: "nat \<Rightarrow> cpp_type \<Rightarrow> nat" where
  "pointee_consts k (cpp_pointer t) = pointee_consts 0 t"
| "pointee_consts k (cpp_reference_to r t) = pointee_consts k t"
| "pointee_consts k (cpp_array t) = pointee_consts k t"
| "pointee_consts k (cpp_cv_qualified cv t) = pointee_consts (if is_const cv then Suc k else k) t"
| "pointee_consts k t = k"

fun base_type :: "cpp_type \<Rightarrow> cpp_type" where
  "base_type (cpp_pointer t) = base_type t"
| "base_type (cpp_reference_to r t) = base_type t"
| "base_type (cpp_array t) = base_type t"
| "base_type (cpp_cv_qualified cv t) = base_type t"
| "base_type t = t"

text \<open>The text of a type is not the text of the type it qualifies, points to or refers to.\<close>

definition texts_differ :: "Cppast \<Rightarrow> bool" where
  "texts_differ cp \<longleftrightarrow> (\<forall>t. innerType t \<noteq> t \<longrightarrow> cp_to_string cp t \<noteq> cp_to_string cp (innerType t))"

lemma texts_differD [simp]:
  assumes "texts_differ cp"
  shows "cp_to_string cp (cpp_pointer t) \<noteq> cp_to_string cp t" "cp_to_string cp (cpp_array t) \<noteq> cp_to_string cp t"
    "cp_to_string cp (cpp_reference_to k t) \<noteq> cp_to_string cp t" "cp_to_string cp (cpp_cv_qualified cv t) \<noteq> cp_to_string cp t"
proof -
  have "cp_to_string cp u \<noteq> cp_to_string cp (innerType u)" if "size (innerType u) < size u" for u
    using assms that unfolding texts_differ_def by (metis less_irrefl)
  from this [of "cpp_pointer t"] this [of "cpp_array t"] this [of "cpp_reference_to k t"] this [of "cpp_cv_qualified cv t"]
  show "cp_to_string cp (cpp_pointer t) \<noteq> cp_to_string cp t" "cp_to_string cp (cpp_array t) \<noteq> cp_to_string cp t"
    "cp_to_string cp (cpp_reference_to k t) \<noteq> cp_to_string cp t" "cp_to_string cp (cpp_cv_qualified cv t) \<noteq> cp_to_string cp t"
    by simp_all
qed

text \<open>The part of the state the levels count; the tests on the names of types do not touch it.\<close>

definition summary_of :: "ParseState \<Rightarrow> nat \<times> nat \<times> bool \<times> bool \<times> bool" where
  "summary_of st = (length (ps_foundConst st), length (ps_foundRef st), ti_isReference (ps_info st), ti_isPointer (ps_info st),
     ti_void (ps_info st))"

lemma parse_names_summary:
  assumes "parse_fixed_width cp t st = Inr st1"
  shows "summary_of (parse_std_string cp u st1) = summary_of st"
    "ps_foundConst (parse_std_string cp u st1) = ps_foundConst st"
  using assms by (auto simp: parse_fixed_width_def parse_std_string_def summary_of_def split: if_splits sum.splits)

lemma parse_loop_SomeE:
  assumes "parse_loop (Suc n) cp raw t st = Some (Inr st')" and "\<not> is_template t"
  obtains st1 where "parse_iteration cp t st = Inr st1"
    and "if ps_bIsLeaf st1 then st' = st1 else parse_loop n cp raw (innerType t) st1 = Some (Inr st')"
  using assms by (auto simp: bind_parse_def split: sum.splits if_splits)

text \<open>The summary after one iteration.\<close>

fun level_summary :: "cpp_type \<Rightarrow> nat \<times> nat \<times> bool \<times> bool \<times> bool \<Rightarrow> nat \<times> nat \<times> bool \<times> bool \<times> bool" where
  "level_summary (cpp_pointer t) (c, r, ref, ptr, v) = (0, r, True, True, False)"
| "level_summary (cpp_reference_to k t) (c, r, ref, ptr, v) =
     (if k = cpp_ref_lvalue then (c, Suc r, True, ptr, False) else (c, r, ref, ptr, False))"
| "level_summary (cpp_cv_qualified cv t) (c, r, ref, ptr, v) = (if is_const cv then Suc c else c, r, ref, ptr, False)"
| "level_summary (cpp_builtin b) (c, r, ref, ptr, v) = (c, r, ref, ptr, b = cpp_void \<and> v)"
| "level_summary t (c, r, ref, ptr, v) = (c, r, ref, ptr, False)"

lemma summary_parse_leaf [simp]: "summary_of (parse_leaf cp t st) = summary_of st"
  by (simp add: parse_leaf_def summary_of_def)

lemma summary_parse_level: "summary_of (parse_level cp t st) = level_summary t (summary_of st)"
  by (cases t) (auto simp: summary_of_def descend_def Let_def)

lemma parse_iteration_summary:
  assumes "parse_iteration cp t st = Inr st1" and "\<not> is_template t"
  shows "summary_of st1 = level_summary t (summary_of st)"
  using assms by (auto simp: parse_iteration_def parse_container_leaf summary_parse_level parse_names_summary split: sum.splits)

lemma parse_level_inner:
  "innerType t \<noteq> t \<Longrightarrow>
   \<not> ps_bIsLeaf (parse_level cp t st) \<and> ps_derefTypeKind (parse_level cp t st) = cp_to_string cp (innerType t)"
  by (cases t) (auto simp: descend_def Let_def)

lemma parse_iteration_leaf:
  assumes "parse_iteration cp t st = Inr st1" and "texts_differ cp" and "innerType t \<noteq> t"
  shows "\<not> ps_bIsLeaf st1"
proof -
  have "\<not> is_template t" using assms(3) by (cases t) auto
  then obtain st0 where "st1 = parse_leaf cp t (parse_level cp t st0)"
    using assms(1) by (auto simp: parse_iteration_def parse_container_leaf split: sum.splits)
  then show ?thesis
    using parse_level_inner [OF assms(3)] assms(2,3) by (simp add: parse_leaf_def texts_differ_def)
qed

lemma parse_loop_summary:
  assumes "parse_loop n cp raw t st = Some (Inr st')" and "texts_differ cp" and "\<not> is_template (base_type t)"
    and "summary_of st = (c, r, ref, ptr, v)" and "ps_bIsLeaf st \<or> ps_derefTypeKind st = cp_to_string cp t"
  shows "summary_of st' = (pointee_consts c t, lvalue_references t + r, ref \<or> has_pointer t \<or> 0 < lvalue_references t,
    ptr \<or> has_pointer t, v \<and> t = cpp_builtin cpp_void)"
  using assms
proof (induction n arbitrary: t st c r ref ptr v)
  case (Suc n)
  have nt: "\<not> is_template t" using Suc.prems(3) by (cases t) auto
  obtain st1 where it: "parse_iteration cp t st = Inr st1"
    and more: "if ps_bIsLeaf st1 then st' = st1 else parse_loop n cp raw (innerType t) st1 = Some (Inr st')"
    using parse_loop_SomeE [OF Suc.prems(1) nt] .
  have sum: "summary_of st1 = level_summary t (c, r, ref, ptr, v)"
    using parse_iteration_summary [OF it nt] Suc.prems(4) by simp
  show ?case
  proof (cases "innerType t = t")
    case True
    have "ps_bIsLeaf st1"
      using parse_iteration_descends [OF it Suc.prems(5) nt] True by auto
    with more sum True show ?thesis by (cases t) auto
  next
    case False
    have nl: "\<not> ps_bIsLeaf st1" using parse_iteration_leaf [OF it Suc.prems(2) False] .
    have der: "ps_derefTypeKind st1 = cp_to_string cp (innerType t)"
      using parse_iteration_descends [OF it Suc.prems(5) nt nl] by simp
    have loop: "parse_loop n cp raw (innerType t) st1 = Some (Inr st')" using more nl by simp
    have base: "\<not> is_template (base_type (innerType t))" using Suc.prems(3) False by (cases t) auto
    show ?thesis
      using Suc.IH [OF loop Suc.prems(2) base _ disjI2 [OF der]] sum False by (cases t) (auto split: if_splits)
  qed
qed simp

text \<open>The kind the last level gives; the code knows no kind for the types of the library that are neither of these.\<close>

fun base_kind :: "Cppast \<Rightarrow> cpp_type \<Rightarrow> type_kind option" where
  "base_kind cp (cpp_builtin b) = Some builtin_t"
| "base_kind cp (cpp_user_defined name enum) = Some
     (if isStdString cp (cpp_user_defined name enum) then std_string_t
      else if isCppFixedWidthType cp (cpp_user_defined name enum) then builtin_t
      else if enum then enum_t else user_defined_t)"
| "base_kind cp t = None"

text \<open>The builtin type noted so far is \<open>char\<close>.\<close>

definition noted_char :: "ParseState \<Rightarrow> bool" where
  "noted_char st \<longleftrightarrow> ti_isBuiltin (ps_info st) \<and> ti_builtinType (ps_info st) = cpp_char"

lemma fixed_width_no_char: "cppFixedWidthType cp t = Inr b \<Longrightarrow> b \<noteq> cpp_char"
  by (auto simp: cppFixedWidthType_def at_key_def builtinStrToEnumMap_def split: option.splits if_splits)

lemma parse_names_no_char:
  "parse_fixed_width cp t st = Inr st1 \<Longrightarrow> \<not> noted_char st \<Longrightarrow> \<not> noted_char (parse_std_string cp t st1)"
  by (auto simp: parse_fixed_width_def parse_std_string_def noted_char_def dest: fixed_width_no_char split: if_splits sum.splits)

lemma parse_level_char:
  "\<not> noted_char st \<Longrightarrow> noted_char (parse_leaf cp t (parse_level cp t st)) \<longleftrightarrow> t = cpp_builtin cpp_char"
  by (cases t) (auto simp: noted_char_def parse_leaf_def descend_def Let_def)

lemma parse_iteration_char:
  assumes "parse_iteration cp t st = Inr st1" and "\<not> is_template t" and "\<not> noted_char st"
  shows "noted_char st1 \<longleftrightarrow> t = cpp_builtin cpp_char"
  using assms parse_names_no_char [of cp t st] parse_level_char
  by (auto simp: parse_iteration_def parse_container_leaf split: sum.splits)

lemma parse_fixed_width_kind:
  "parse_fixed_width cp t st = Inr st1 \<Longrightarrow> isCppFixedWidthType cp t \<Longrightarrow> ti_kind (ps_info st1) = builtin_t"
  by (auto simp: parse_fixed_width_def split: sum.splits)

lemma parse_iteration_kind:
  assumes "parse_iteration cp t st = Inr st1" and "base_kind cp t = Some k"
  shows "ti_kind (ps_info st1) = k"
  using assms
  by (cases t) (auto simp: parse_iteration_def parse_leaf_def parse_std_string_def Let_def dest: parse_fixed_width_kind
      split: sum.splits if_splits)

lemma parse_loop_kind:
  assumes "parse_loop n cp raw t st = Some (Inr st')" and "texts_differ cp" and "base_kind cp (base_type t) = Some k"
    and "\<not> noted_char st" and "ps_bIsLeaf st \<or> ps_derefTypeKind st = cp_to_string cp t"
  shows "ti_kind (ps_info st') = k \<and> (noted_char st' \<longleftrightarrow> base_type t = cpp_builtin cpp_char)"
  using assms
proof (induction n arbitrary: t st)
  case (Suc n)
  have nt: "\<not> is_template t" using Suc.prems(3) by (cases t) auto
  obtain st1 where it: "parse_iteration cp t st = Inr st1"
    and more: "if ps_bIsLeaf st1 then st' = st1 else parse_loop n cp raw (innerType t) st1 = Some (Inr st')"
    using parse_loop_SomeE [OF Suc.prems(1) nt] .
  have char: "noted_char st1 \<longleftrightarrow> t = cpp_builtin cpp_char"
    using parse_iteration_char [OF it nt Suc.prems(4)] .
  show ?case
  proof (cases "innerType t = t")
    case True
    then have "base_type t = t"
      by (induction t) auto
    moreover have "ps_bIsLeaf st1"
      using parse_iteration_descends [OF it Suc.prems(5) nt] True by auto
    ultimately show ?thesis
      using more char Suc.prems(3) parse_iteration_kind [OF it] by simp
  next
    case False
    have nl: "\<not> ps_bIsLeaf st1" using parse_iteration_leaf [OF it Suc.prems(2) False] .
    have der: "ps_derefTypeKind st1 = cp_to_string cp (innerType t)"
      using parse_iteration_descends [OF it Suc.prems(5) nt nl] by simp
    have loop: "parse_loop n cp raw (innerType t) st1 = Some (Inr st')" using more nl by simp
    have base: "base_type (innerType t) = base_type t" using False by (cases t) auto
    have "\<not> noted_char st1" using char False by auto
    with Suc.IH [OF loop Suc.prems(2) _ _ disjI2 [OF der]] Suc.prems(3) base show ?thesis by simp
  qed
qed simp

text \<open>
  Property C40. What the generators are told of the type of a parameter or a result, template arguments apart: it is constant
  exactly when it has no more references to lvalues than \<open>const\<close> qualifiers after its innermost pointer, so that every
  pointer is constant, whatever it points to; it is a reference when it has a pointer or a reference to an lvalue; and
  it is void only when it is plain \<open>void\<close>, never for a pointer to \<open>void\<close>. When its base type, below the pointers, references,
  arrays and qualifiers, is a builtin or a user-defined type, its kind is the kind of that, \<open>std::string\<close> and the names of the fixed width
  types included; except for a pointer to \<open>char\<close> that is constant, which is a C string. For the kind, the member that
  tells builtin types must not have been true by chance when the description was made, which nothing initialises. The texts the library prints for a type and for the type
  inside it have to differ.
\<close>

theorem type_description:
  assumes "TypeDescriptor_parse cp raw p = Some (Inr d)" and "texts_differ cp" and "\<not> is_template (base_type p)"
  shows "(td_isConst d \<longleftrightarrow> lvalue_references p \<le> pointee_consts 0 p) \<and>
    (td_isReference d \<longleftrightarrow> has_pointer p \<or> 0 < lvalue_references p) \<and> (td_isVoid d \<longleftrightarrow> p = cpp_builtin cpp_void) \<and>
    (\<forall>k. base_kind cp (base_type p) = Some k \<and> \<not> raw_isBuiltin (raw p) \<longrightarrow>
      td_kind d = (if base_type p = cpp_builtin cpp_char \<and> has_pointer p \<and> td_isConst d then c_string_t else k))"
proof -
  obtain r where "parse_loop (Suc (size p)) cp raw p (ParseState_init (raw p) ([], [])) = Some r"
    and r: "map_sum id finish_type r = Inr d"
    using assms(1) unfolding TypeDescriptor_parse_def by (auto simp del: parse_loop.simps)
  moreover obtain st where "r = Inr st" and d: "d = finish_type st"
    using r by (cases r) auto
  ultimately have run: "parse_loop (Suc (size p)) cp raw p (ParseState_init (raw p) ([], [])) = Some (Inr st)" by simp
  from parse_loop_summary [OF run assms(2,3), of 0 0 False False True]
  have sum: "summary_of st = (pointee_consts 0 p, lvalue_references p, has_pointer p \<or> 0 < lvalue_references p, has_pointer p,
      p = cpp_builtin cpp_void)"
    by (simp add: summary_of_def ParseState_init_def TypeDescriptorInfo_init_def)
  have kind: "ti_kind (ps_info st) = k \<and> (noted_char st \<longleftrightarrow> base_type p = cpp_builtin cpp_char)"
    if "base_kind cp (base_type p) = Some k" "\<not> raw_isBuiltin (raw p)" for k
    using parse_loop_kind [OF run assms(2) that(1)] that(2)
    by (simp add: noted_char_def ParseState_init_def TypeDescriptorInfo_init_def)
  have const: "td_isConst d \<longleftrightarrow> lvalue_references p \<le> pointee_consts 0 p"
    using sum by (auto simp: d finish_type_def Let_def td_isConst_def summary_of_def not_less)
  moreover have "td_kind d = (if noted_char st \<and> has_pointer p \<and> td_isConst d then c_string_t else ti_kind (ps_info st))"
    using sum unfolding const by (auto simp: d finish_type_def Let_def td_kind_def summary_of_def noted_char_def not_less)
  ultimately show ?thesis
    using sum kind by (auto simp: d finish_type_def Let_def td_isReference_def td_isVoid_def summary_of_def)
qed

text \<open>A library that writes the levels of a type in front of its name.\<close>

fun sample_text :: "cpp_type \<Rightarrow> string" where
  "sample_text (cpp_pointer t) = ''*'' @ sample_text t"
| "sample_text (cpp_array t) = ''[]'' @ sample_text t"
| "sample_text (cpp_reference_to k t) = (if k = cpp_ref_lvalue then ''&'' else ''&&'') @ sample_text t"
| "sample_text (cpp_cv_qualified cv t) = (if is_const cv then ''const '' else ''volatile '') @ sample_text t"
| "sample_text (cpp_builtin b) =
     (if b = cpp_int then ''int'' else if b = cpp_char then ''char'' else if b = cpp_void then ''void'' else ''builtin'')"
| "sample_text (cpp_user_defined name enum) = name"
| "sample_text (cpp_template_instantiation name exposed args) = name @ ''<>''"
| "sample_text (cpp_other_type name) = name"

definition sample_cppast :: Cppast where
  "sample_cppast = \<lparr>cp_to_string = sample_text, cp_builtin_to_string = \<lambda>b. sample_text (cpp_builtin b)\<rparr>"

definition sample_raw :: "cpp_type \<Rightarrow> RawMembers" where
  "sample_raw p = \<lparr>raw_isBuiltin = False, raw_kind = builtin_t, raw_builtinType = cpp_void\<rparr>"

lemma sample_texts_differ: "texts_differ sample_cppast"
proof -
  have "length (sample_text (innerType t)) < length (sample_text t) \<or> innerType t = t" for t
    by (cases t) auto
  then show ?thesis
    unfolding texts_differ_def sample_cppast_def by (metis Cppast.select_convs(1) less_irrefl)
qed

text \<open>A \<open>char *\<close> is constant, and so a C string, and an \<open>int &\<close> is not.\<close>

theorem type_description_witness:
  "\<exists>d e. TypeDescriptor_parse sample_cppast sample_raw (cpp_pointer (cpp_builtin cpp_char)) = Some (Inr d) \<and> td_isConst d \<and>
     td_kind d = c_string_t \<and>
     TypeDescriptor_parse sample_cppast sample_raw (cpp_reference_to cpp_ref_lvalue (cpp_builtin cpp_int)) = Some (Inr e) \<and>
     \<not> td_isConst e \<and> td_kind e = builtin_t"
proof -
  have parsed: "\<exists>d. r = Some (Inr d)" if "case r of Some (Inr d) \<Rightarrow> True | _ \<Rightarrow> False" for r :: "(exn + TypeDescriptor) option"
    using that by (auto split: option.splits sum.splits)
  have "\<exists>d. TypeDescriptor_parse sample_cppast sample_raw (cpp_pointer (cpp_builtin cpp_char)) = Some (Inr d)"
    by (rule parsed) code_simp
  moreover have "\<exists>e. TypeDescriptor_parse sample_cppast sample_raw (cpp_reference_to cpp_ref_lvalue (cpp_builtin cpp_int)) = Some (Inr e)"
    by (rule parsed) code_simp
  ultimately show ?thesis
    using type_description [OF _ sample_texts_differ, of sample_raw "cpp_pointer (cpp_builtin cpp_char)"]
      type_description [OF _ sample_texts_differ, of sample_raw "cpp_reference_to cpp_ref_lvalue (cpp_builtin cpp_int)"]
    by (auto simp: sample_raw_def)
qed

text \<open>
  The test for the fixed width types looks for the name, followed by a bar, anywhere in the list of their names: a class
  called \<open>t\<close> is found in it, and the table of these types is asked for a name it does not have.
\<close>

lemma fixed_width_suffix_throws:
  "TypeDescriptor_parse sample_cppast sample_raw (cpp_user_defined ''t'' False) = Some (Inl (Out_of_range ''map::at''))"
  by code_simp

end
