(* ===== verification/Xpcf_NumberText.thy ===== *)
theory Xpcf_NumberText
  imports Xpcf_Exceptions
begin

text \<open>
  Integers as text, what the C++ library makes of them: \<open>std::to_string\<close>, and \<open>std::stol\<close>, \<open>std::stoul\<close>, \<open>std::stoll\<close> and
  \<open>std::stoull\<close> with base 0. \<open>long\<close> is 64 bits wide, as on the systems with \<^verbatim>\<open>.so\<close> libraries.
\<close>

section \<open>Printing\<close>

definition digit_char :: "nat \<Rightarrow> char" where
  "digit_char d = char_of (48 + d)"

fun nat_text :: "nat \<Rightarrow> string" where
  "nat_text n = (if n < 10 then [digit_char n] else nat_text (n div 10) @ [digit_char (n mod 10)])"

declare nat_text.simps [simp del]

definition to_string :: "int \<Rightarrow> string" where
  "to_string i = (if i < 0 then CHR ''-'' # nat_text (nat (- i)) else nat_text (nat i))"

section \<open>Scanning\<close>

text \<open>White space, a sign, the prefix of the base, then as many digits of the base as there are.\<close>

definition is_space :: "char \<Rightarrow> bool" where
  "is_space c \<longleftrightarrow> (let n = of_char c :: nat in n = 32 \<or> 9 \<le> n \<and> n \<le> 13)"

definition digit_value :: "char \<Rightarrow> nat" where
  "digit_value c = (let n = of_char c in
     if 48 \<le> n \<and> n \<le> 57 then n - 48 else if 97 \<le> n \<and> n \<le> 122 then n - 87
     else if 65 \<le> n \<and> n \<le> 90 then n - 55 else 36)"

definition number_sign :: "string \<Rightarrow> bool \<times> nat \<times> string" where
  "number_sign t = (if t \<noteq> [] \<and> hd t = CHR ''-'' then (True, 1, tl t)
     else if t \<noteq> [] \<and> hd t = CHR ''+'' then (False, 1, tl t) else (False, 0, t))"

definition number_prefix :: "string \<Rightarrow> nat \<times> nat \<times> string" where
  "number_prefix t =
     (if length t \<ge> 3 \<and> t ! 0 = CHR ''0'' \<and> (t ! 1 = CHR ''x'' \<or> t ! 1 = CHR ''X'') \<and> digit_value (t ! 2) < 16
      then (16, 2, drop 2 t) else if t \<noteq> [] \<and> hd t = CHR ''0'' then (8, 0, t) else (10, 0, t))"

definition digits_value :: "nat \<Rightarrow> string \<Rightarrow> nat" where
  "digits_value base ds = foldl (\<lambda>v c. v * base + digit_value c) 0 ds"

text \<open>The sign, the magnitude and the number of characters read; nothing when there is no digit.\<close>

definition scan_number :: "string \<Rightarrow> (bool \<times> nat \<times> nat) option" where
  "scan_number t =
     (let spaces = takeWhile is_space t;
          (neg, sign, t1) = number_sign (drop (length spaces) t);
          (base, prefix, t2) = number_prefix t1;
          ds = takeWhile (\<lambda>c. digit_value c < base) t2
      in if ds = [] then None else Some (neg, digits_value base ds, length spaces + sign + prefix + length ds))"

text \<open>
  The result with its width; out of range for a signed number that does not fit and for a magnitude that does not fit
  an unsigned one, whose negation wraps around.
\<close>

definition signed_number :: "string \<Rightarrow> string \<Rightarrow> exn + 64 word \<times> nat" where
  "signed_number name t =
     (case scan_number t of
        None \<Rightarrow> Inl (Invalid_argument name)
      | Some (neg, m, processed) \<Rightarrow>
          let v = if neg then - int m else int m in
          if - (2 ^ 63) \<le> v \<and> v < 2 ^ 63 then Inr (word_of_int v, processed) else Inl (Out_of_range name))"

definition unsigned_number :: "string \<Rightarrow> string \<Rightarrow> exn + 64 word \<times> nat" where
  "unsigned_number name t =
     (case scan_number t of
        None \<Rightarrow> Inl (Invalid_argument name)
      | Some (neg, m, processed) \<Rightarrow>
          if m < 2 ^ 64 then Inr (word_of_int (if neg then - int m else int m), processed) else Inl (Out_of_range name))"

section \<open>What is printed is read back\<close>

lemma of_char_digit [simp]: "d < 10 \<Longrightarrow> of_char (digit_char d) = (48 + d :: nat)"
  by (simp add: digit_char_def)

lemma digit_value_char [simp]: "d < 10 \<Longrightarrow> digit_value (digit_char d) = d"
  by (simp add: digit_value_def)

lemma digit_char_eq: "d < 10 \<Longrightarrow> digit_char d = c \<Longrightarrow> of_char c = (48 + d :: nat)"
  by auto

lemma nat_text_digits: "c \<in> set (nat_text n) \<Longrightarrow> \<exists>d < 10. c = digit_char d"
proof (induction n rule: nat_text.induct)
  case (1 n)
  have "\<exists>d < 10. digit_char (n mod 10) = digit_char d"
    by (intro exI [where x = "n mod 10"]) simp
  with 1 show ?case
    by (cases "n < 10") (auto simp: nat_text.simps [of n])
qed

lemma nat_text_not_empty [simp]: "nat_text n \<noteq> []"
  by (subst nat_text.simps) simp

lemma nat_text_hd: "0 < n \<Longrightarrow> \<exists>d < 10. 0 < d \<and> hd (nat_text n) = digit_char d"
proof (induction n rule: nat_text.induct)
  case (1 n)
  then show ?case
    by (cases "n < 10") (auto simp: nat_text.simps [of n])
qed

lemma nat_text_value [simp]: "digits_value 10 (nat_text n) = n"
proof (induction n rule: nat_text.induct)
  case (1 n)
  then show ?case
    by (cases "n < 10") (auto simp: nat_text.simps [of n] digits_value_def)
qed

lemma takeWhile_digits:
  assumes "\<And>c. c \<in> set t \<Longrightarrow> \<exists>d < 10. c = digit_char d"
  shows "takeWhile (\<lambda>c. digit_value c < 10) t = t"
  using assms by (fastforce simp: takeWhile_eq_all_conv)

lemma nat_text_hd_digit: "\<exists>d < 10. hd (nat_text n) = digit_char d"
  using nat_text_digits [of "hd (nat_text n)" n] by auto

lemma hd_nat_text: "hd (nat_text n) = c \<Longrightarrow> 48 \<le> (of_char c :: nat)"
  using nat_text_hd_digit [of n] by auto

lemma scan_digits:
  "(case number_prefix (nat_text n) of (base, prefix, t) \<Rightarrow>
      let ds = takeWhile (\<lambda>c. digit_value c < base) t in
      ds \<noteq> [] \<and> digits_value base ds = n \<and> prefix + length ds = length (nat_text n))"
proof (cases "n = 0")
  case True
  then show ?thesis
    by (simp add: number_prefix_def nat_text.simps [of 0] digits_value_def digit_char_def digit_value_def)
next
  case False
  then obtain d where d: "0 < d" "d < 10" "hd (nat_text n) = digit_char d"
    using nat_text_hd [of n] by auto
  then have "hd (nat_text n) \<noteq> CHR ''0''"
    using digit_char_eq [of d "CHR ''0''"] by auto
  then have "number_prefix (nat_text n) = (10, 0, nat_text n)"
    by (simp add: number_prefix_def hd_conv_nth)
  moreover have "takeWhile (\<lambda>c. digit_value c < 10) (nat_text n) = nat_text n"
    by (rule takeWhile_digits) (rule nat_text_digits)
  ultimately show ?thesis by (simp only: prod.case Let_def nat_text_value nat_text_not_empty) simp
qed

lemma scan_to_string [simp]: "scan_number (to_string i) = Some (i < 0, nat \<bar>i\<bar>, length (to_string i))"
proof -
  let ?ds = "nat_text (nat \<bar>i\<bar>)"
  have c: "48 \<le> (of_char (hd ?ds) :: nat)"
    using hd_nat_text [of "nat \<bar>i\<bar>"] by simp
  have "\<not> is_space (hd ?ds)" and "\<not> is_space (CHR ''-'')"
    using c by (auto simp: is_space_def Let_def)
  moreover have "hd ?ds \<noteq> CHR ''-''" "hd ?ds \<noteq> CHR ''+''"
    using c by auto
  ultimately have sign: "takeWhile is_space (to_string i) = []"
    "number_sign (to_string i) = (i < 0, if i < 0 then 1 else 0, ?ds)"
    using takeWhile_eq_Nil_iff [of is_space ?ds] by (auto simp: to_string_def number_sign_def)
  have len: "length (to_string i) = (if i < 0 then 1 else 0) + length ?ds"
    by (simp add: to_string_def)
  obtain base prefix t where p: "number_prefix ?ds = (base, prefix, t)"
    by (cases "number_prefix ?ds")
  show ?thesis
    using scan_digits [of "nat \<bar>i\<bar>"] by (simp add: scan_number_def sign len p Let_def)
qed

lemma to_string_not_empty [simp]: "to_string i \<noteq> ''''"
  by (simp add: to_string_def)

lemma signed_to_string: "signed_number name (to_string (sint (w :: 64 word))) = Inr (w, length (to_string (sint w)))"
  using sint_range_size [of w] by (auto simp: signed_number_def word_size Let_def)

lemma signed_to_string_32:
  "signed_number name (to_string (sint (w :: 32 word))) = Inr (word_of_int (sint w), length (to_string (sint w)))"
  using sint_range_size [of w] by (auto simp: signed_number_def word_size Let_def)

lemma unsigned_to_string: "unsigned_number name (to_string (uint (w :: 64 word))) = Inr (w, length (to_string (uint w)))"
  using unsigned_less [of w, where 'a = nat] by (simp add: unsigned_number_def)

lemma unsigned_to_string_32:
  "unsigned_number name (to_string (uint (w :: 32 word))) = Inr (word_of_int (uint w), length (to_string (uint w)))"
  using unsigned_less [of w, where 'a = nat] by (simp add: unsigned_number_def)

section \<open>\<open>std::atol\<close>\<close>

text \<open>White space, a sign and decimal digits; zero when there is no digit, the nearest bound when the number does not fit.\<close>

definition atol :: "string \<Rightarrow> int" where
  "atol t =
     (let (neg, _, t') = number_sign (dropWhile is_space t);
          m = int (digits_value 10 (takeWhile (\<lambda>c. digit_value c < 10) t'))
      in if neg then max (- (2 ^ 63)) (- m) else min (2 ^ 63 - 1) m)"

end
