(* ===== verification/Xpcf_Xml.thy ===== *)
theory Xpcf_Xml
  imports Xpcf_Exceptions
begin

text \<open>
  The XML documents the framework reads and writes, as the tree the vendored \<^verbatim>\<open>tinyxml2\<close> builds,
  with the accessors the framework calls on it, and the sibling loop of \<^verbatim>\<open>tinyxmlhelper.h\<close>.
  Which tree the file of a path loads to and whether a document is saved are arguments of the definitions that load or save;
  the parser and the printer themselves are in \<open>Xpcf_XmlParse\<close> and \<open>Xpcf_XmlPrint\<close>.
\<close>

section \<open>Documents\<close>

datatype xml =
    Element string "(string \<times> string) list" "xml list"
  | Text string
  | Comment string

fun xml_children :: "xml \<Rightarrow> xml list" where
  "xml_children (Element _ _ cs) = cs"
| "xml_children _ = []"

text \<open>\<open>XMLElement::Value\<close> of an element is its tag name.\<close>

fun xml_Value :: "xml \<Rightarrow> string" where
  "xml_Value (Element n _ _) = n"
| "xml_Value (Text t) = t"
| "xml_Value (Comment t) = t"

text \<open>\<open>None\<close> stands for the null pointer \<open>Attribute\<close> returns for an attribute that is not there.\<close>

fun FindAttribute :: "string \<Rightarrow> (string \<times> string) list \<Rightarrow> string option" where
  "FindAttribute name [] = None"
| "FindAttribute name ((n, v) # rest) = (if n = name then Some v else FindAttribute name rest)"

fun xml_Attribute :: "string \<Rightarrow> xml \<Rightarrow> string option" where
  "xml_Attribute name (Element _ attrs _) = FindAttribute name attrs"
| "xml_Attribute name _ = None"

fun SetAttributeIn :: "string \<Rightarrow> string \<Rightarrow> (string \<times> string) list \<Rightarrow> (string \<times> string) list" where
  "SetAttributeIn name val [] = [(name, val)]"
| "SetAttributeIn name val ((n, v) # rest) =
     (if n = name then (n, val) # rest else (n, v) # SetAttributeIn name val rest)"

fun xml_SetAttribute :: "string \<Rightarrow> string \<Rightarrow> xml \<Rightarrow> xml" where
  "xml_SetAttribute name val (Element n attrs cs) = Element n (SetAttributeIn name val attrs) cs"
| "xml_SetAttribute name val x = x"

fun xml_InsertEndChild :: "xml \<Rightarrow> xml \<Rightarrow> xml" where
  "xml_InsertEndChild (Element n attrs cs) c = Element n attrs (cs @ [c])"
| "xml_InsertEndChild x c = x"

text \<open>\<open>GetText\<close> skips comments and reads a text node if it comes next; \<open>SetText\<close> on the first child.\<close>

fun first_text :: "xml list \<Rightarrow> string option" where
  "first_text [] = None"
| "first_text (Comment _ # cs) = first_text cs"
| "first_text (Text t # _) = Some t"
| "first_text (Element _ _ _ # _) = None"

definition xml_GetText :: "xml \<Rightarrow> string option" where
  "xml_GetText e = first_text (xml_children e)"

fun xml_SetText :: "string \<Rightarrow> xml \<Rightarrow> xml" where
  "xml_SetText t (Element n attrs (Text _ # cs)) = Element n attrs (Text t # cs)"
| "xml_SetText t (Element n attrs cs) = Element n attrs (Text t # cs)"
| "xml_SetText t x = x"

definition newElement :: "string \<Rightarrow> xml" where
  "newElement name = Element name [] []"

section \<open>Children by name\<close>

text \<open>
  A position among siblings is the list of nodes from there on. \<open>find_element\<close> gives the first
  element with the name and the nodes after it, which is what the next search starts from.
\<close>

fun find_element :: "string \<Rightarrow> xml list \<Rightarrow> (xml \<times> xml list) option" where
  "find_element name [] = None"
| "find_element name (Element n attrs cs # rest) =
     (if n = name then Some (Element n attrs cs, rest) else find_element name rest)"
| "find_element name (_ # rest) = find_element name rest"

definition FirstChildElement :: "string \<Rightarrow> xml \<Rightarrow> xml option" where
  "FirstChildElement name e = map_option fst (find_element name (xml_children e))"

fun is_element_named :: "string \<Rightarrow> xml \<Rightarrow> bool" where
  "is_element_named name (Element n _ _) = (n = name)"
| "is_element_named name _ = False"

lemma find_element_Some:
  "find_element name xs = Some (e, rest) \<Longrightarrow> length rest < length xs \<and> e \<in> set xs \<and> set rest \<subseteq> set xs
     \<and> is_element_named name e"
  by (induction name xs rule: find_element.induct) (auto split: if_splits)

lemma find_element_filter:
  "filter (is_element_named name) xs =
     (case find_element name xs of None \<Rightarrow> []
      | Some (e, rest) \<Rightarrow> e # filter (is_element_named name) rest)"
  by (induction name xs rule: find_element.induct) auto

lemma FindAttribute_SetAttributeIn [simp]:
  "FindAttribute a (SetAttributeIn b v attrs) = (if a = b then Some v else FindAttribute a attrs)"
  by (induction b v attrs rule: SetAttributeIn.induct) auto

lemma xml_Attribute_SetAttribute:
  "xml_Attribute a (xml_SetAttribute b v (Element n attrs cs)) =
     (if a = b then Some v else xml_Attribute a (Element n attrs cs))"
  by simp

lemma xml_GetText_SetText: "xml_GetText (xml_SetText t (Element n attrs cs)) = Some t"
  by (cases "(t, Element n attrs cs)" rule: xml_SetText.cases) (auto simp: xml_GetText_def)

section \<open>The sibling loop\<close>

text \<open>
  \<open>processXmlNode\<close>: from the first child with the name to the last, calling the function on each.
  The overload with further arguments passes them on unchanged, so it is this loop
  with the arguments applied to the function.
\<close>

function xml_siblings :: "string \<Rightarrow> (xml \<Rightarrow> ('s, exn, unit) eff) \<Rightarrow> xml list \<Rightarrow> ('s, exn, unit) eff" where
  "xml_siblings name func nodes =
     (case find_element name nodes of
        None \<Rightarrow> return_eff ()
      | Some (e, rest) \<Rightarrow> seq_eff (func e) (xml_siblings name func rest))"
  by pat_completeness auto
termination
  by (relation "measure (\<lambda>(name, func, nodes). length nodes)") (auto dest: find_element_Some)

declare xml_siblings.simps [simp del]

definition processXmlNode :: "xml \<Rightarrow> string \<Rightarrow> (xml \<Rightarrow> ('s, exn, unit) eff) \<Rightarrow> ('s, exn, unit) eff" where
  "processXmlNode e name func = xml_siblings name func (xml_children e)"

lemma xml_siblings_for:
  "xml_siblings name func nodes = for_eff func (filter (is_element_named name) nodes)"
proof (induction name func nodes rule: xml_siblings.induct)
  case (1 name func nodes)
  then show ?case
    by (subst xml_siblings.simps, subst find_element_filter) (auto split: option.splits)
qed

text \<open>
  \<open>processXmlNode\<close> calls the function on the children with the name, on every one of them and
  in document order, and stops at the first that throws, with the state that one left.
\<close>

theorem processXmlNode_for:
  "processXmlNode e name func =
     for_eff func (filter (is_element_named name) (xml_children e))"
  by (simp add: processXmlNode_def xml_siblings_for)

lemma preserves_processXmlNode [preserves_intros]:
  "(\<And>c. preserves P (func c)) \<Longrightarrow> preserves P (processXmlNode e name func)"
  by (simp add: processXmlNode_def xml_siblings_for preserves_for)

lemma processXmlNode_run [eff_simps]:
  "processXmlNode e name func s = for_eff func (filter (is_element_named name) (xml_children e)) s"
  by (simp add: processXmlNode_def xml_siblings_for)

text \<open>\<open>xmlGetTextSecure\<close> of \<^verbatim>\<open>src/tinyxmlhelper.cpp\<close>.\<close>

definition xmlGetTextSecure :: "xml \<Rightarrow> string \<Rightarrow> bool \<Rightarrow> string \<Rightarrow> exn + string" where
  "xmlGetTextSecure elt nodeName opt defaultValue =
     (case FirstChildElement nodeName elt of
        None \<Rightarrow> Inl (Runtime_error (''Node '' @ [CHR 0x27] @ nodeName @ [CHR 0x27] @ '' doesn't exist in XML file''))
      | Some c \<Rightarrow>
         (case xml_GetText c of
            None \<Rightarrow> if opt then Inr defaultValue
                    else Inl (Runtime_error (''Node '' @ [CHR 0x27] @ nodeName @ [CHR 0x27]
                                @ '' doesn't contain a non empty value in XML file''))
          | Some t \<Rightarrow> Inr t))"

text \<open>
  \<open>std::string(const char * )\<close>: constructing or assigning a string from a null pointer is undefined.
\<close>

definition string_of_ptr :: "string option \<Rightarrow> ('s, exn, string) eff" where
  "string_of_ptr p = (case p of None \<Rightarrow> throw_eff Undefined_behaviour | Some t \<Rightarrow> return_eff t)"

lemma string_of_ptr_run [eff_simps]:
  "string_of_ptr p s = (case p of None \<Rightarrow> (Inl Undefined_behaviour, s) | Some t \<Rightarrow> (Inr t, s))"
  by (simp add: string_of_ptr_def eff_simps split: option.splits)

lemma preserves_string_of_ptr [preserves_intros]: "preserves P (string_of_ptr p)"
  by (auto simp: string_of_ptr_def intro!: preserves_intros)

text \<open>The attribute as the string it initialises, empty when it is not there.\<close>

definition attr_or_empty :: "string \<Rightarrow> xml \<Rightarrow> string" where
  "attr_or_empty name e = (case xml_Attribute name e of None \<Rightarrow> '''' | Some v \<Rightarrow> v)"

text \<open>The attributes a handler adds when their strings are not empty.\<close>

definition nonempty_attrs :: "(string \<times> string) list \<Rightarrow> (string \<times> string) list" where
  "nonempty_attrs ps = filter (\<lambda>(n, v). v \<noteq> '''') ps"

section \<open>Identifiers in attributes\<close>

text \<open>
  \<open>toUUID\<close> of \<^verbatim>\<open>core/uuid.h\<close> calls \<open>boost::uuids::string_generator\<close>, which throws \<open>std::runtime_error\<close> on
  a text that is no UUID. The generator is a parameter: the identifier, or \<open>None\<close> for such a text.
\<close>

definition toUUID :: "(string \<Rightarrow> uuid option) \<Rightarrow> string \<Rightarrow> exn + uuid" where
  "toUUID gen t = (case gen t of None \<Rightarrow> Inl (Runtime_error ''invalid uuid string'') | Some u \<Rightarrow> Inr u)"

text \<open>
  The readers convert an attribute and, when that fails, throw a \<open>ConfigurationException\<close> whose text appends the
  attribute once more through the pointer \<open>p\<close>, which is null when the attribute is not there.
\<close>

definition uuid_attribute ::
  "(string \<Rightarrow> uuid option) \<Rightarrow> string \<Rightarrow> string \<Rightarrow> string option \<Rightarrow> ('s, exn, uuid) eff" where
  "uuid_attribute gen prefix t p =
     catch_runtime (lift_eff (toUUID gen t))
       (\<lambda>_. bind_eff (string_of_ptr p)
              (\<lambda>v. throw_eff (ConfigurationException_text (prefix @ v))))"

lemma uuid_attribute_run [eff_simps]:
  "uuid_attribute gen prefix t p s =
     (case gen t of
        Some u \<Rightarrow> (Inr u, s)
      | None \<Rightarrow> (case p of None \<Rightarrow> (Inl Undefined_behaviour, s)
                          | Some v \<Rightarrow> (Inl (ConfigurationException_text (prefix @ v)), s)))"
  by (simp add: uuid_attribute_def toUUID_def eff_simps split: option.splits)

lemma preserves_uuid_attribute [preserves_intros]:
  "preserves P (uuid_attribute gen prefix t p)"
  by (auto simp: uuid_attribute_def intro!: preserves_intros)

end
