(* ===== verification/Xpcf_GenDescriptors.thy ===== *)
theory Xpcf_GenDescriptors
  imports Xpcf_GenTypes Xpcf_NumberText Xpcf_Xml "HOL-Library.Multiset"
begin

text \<open>
  The descriptions of parameters, methods and classes of the gRPC code generators (\<^verbatim>\<open>tools/generators/grpc\<close>:
  \<^verbatim>\<open>ParameterDescriptor.cpp\<close>, \<^verbatim>\<open>MethodDescriptor.cpp\<close>, \<^verbatim>\<open>ClassDescriptor.cpp\<close>). What they are made from
  is the view \<^verbatim>\<open>cppast\<close> gives of the parsed files: a record for a parameter and for a member function, with what the
  code asks for, and a datatype for a class, with its base classes where the index knows them.

  The lists of input, output and input-output parameters of a method hold pointers to the parameters of the method: they are
  positions in the list of parameters.
\<close>

section \<open>What the parser of C++ provides\<close>

record cpp_attribute =
  ca_scope :: "string option"
  ca_name :: string
  ca_arguments :: "string option"

record cpp_function_parameter =
  cfp_name :: string
  cfp_type :: cpp_type
  cfp_attributes :: "cpp_attribute list"

record cpp_member_function =
  cmf_name :: string
  cmf_return_type :: cpp_type
  cmf_parameters :: "cpp_function_parameter list"
  cmf_attributes :: "cpp_attribute list"
  cmf_cv :: cpp_cv
  cmf_templated :: bool
  cmf_is_virtual :: bool
  cmf_is_pure :: bool

record cpp_class_head =
  cc_name :: string
  cc_attributes :: "cpp_attribute list"
  cc_templated :: bool

datatype cpp_class = cpp_class (cc_head: cpp_class_head) (cc_bases: "(string \<times> cpp_class option) list")
  (cc_member_functions: "cpp_member_function list")

section \<open>Computations that may throw\<close>

definition bind_sum :: "'e + 'a \<Rightarrow> ('a \<Rightarrow> 'e + 'b) \<Rightarrow> 'e + 'b" where
  "bind_sum r f = (case r of Inl e \<Rightarrow> Inl e | Inr x \<Rightarrow> f x)"

fun for_sum :: "('a \<Rightarrow> 's \<Rightarrow> 'e + 's) \<Rightarrow> 'a list \<Rightarrow> 's \<Rightarrow> 'e + 's" where
  "for_sum f [] s = Inr s"
| "for_sum f (x # xs) s = bind_sum (f x s) (for_sum f xs)"

lemma bind_sum_Inr_iff: "bind_sum r f = Inr y \<longleftrightarrow> (\<exists>x. r = Inr x \<and> f x = Inr y)"
  by (auto simp: bind_sum_def split: sum.splits)

lemma for_sum_append: "for_sum f (xs @ ys) s = bind_sum (for_sum f xs s) (for_sum f ys)"
  by (induction xs arbitrary: s) (auto simp: bind_sum_def split: sum.splits)

text \<open>An invariant of the loop over a list, which may depend on the part of the list already done.\<close>

lemma for_sum_invariant:
  assumes "for_sum f xs s = Inr t" and "I [] s"
    and "\<And>ys x s t. I ys s \<Longrightarrow> x \<in> set xs \<Longrightarrow> f x s = Inr t \<Longrightarrow> I (ys @ [x]) t"
  shows "I xs t"
proof -
  have "I (ys @ zs) t" if "for_sum f zs u = Inr t" and "I ys u" and "set zs \<subseteq> set xs" for ys zs u
    using that
  proof (induction zs arbitrary: ys u)
    case (Cons z zs)
    then obtain w where "f z u = Inr w" and "for_sum f zs w = Inr t" by (auto simp: bind_sum_Inr_iff)
    with Cons.IH [of w "ys @ [z]"] Cons.prems assms(3) show ?case by simp
  qed simp
  from this [of xs s "[]"] assms(1,2) show ?thesis by simp
qed

text \<open>\<open>boost::algorithm::erase_all\<close> of a one-character string.\<close>

definition erase_all :: "char \<Rightarrow> string \<Rightarrow> string" where
  "erase_all c t = filter (\<lambda>d. d \<noteq> c) t"

abbreviation double_quote :: char where "double_quote \<equiv> CHR 0x22"

text \<open>The description of a type; the fuel of \<open>TypeDescriptor_parse\<close> is always enough, as its theory shows.\<close>

definition describe :: "Cppast \<Rightarrow> (cpp_type \<Rightarrow> RawMembers) \<Rightarrow> cpp_type \<Rightarrow> exn + TypeDescriptor" where
  "describe cp raw p = the (TypeDescriptor_parse cp raw p)"

section \<open>Parameters\<close>

datatype io_type = io_none | io_in | io_out | io_inout

record ParameterDescriptor =
  pd_baseParam :: cpp_function_parameter
  pd_ioType :: io_type
  pd_type :: TypeDescriptor
  pd_name :: string

definition pd_cppastType :: "ParameterDescriptor \<Rightarrow> cpp_type" where
  "pd_cppastType p = cfp_type (pd_baseParam p)"

definition str2typeIoMap :: "string \<rightharpoonup> io_type" where
  "str2typeIoMap = map_of [(''inout'', io_inout), (''in'', io_in), (''out'', io_out)]"

definition setIOType :: "string \<Rightarrow> io_type \<Rightarrow> io_type" where
  "setIOType ioType m =
     (case str2typeIoMap ioType of
        None \<Rightarrow> m
      | Some t \<Rightarrow> if m = io_in \<and> t = io_out \<or> m = io_out \<and> t = io_in then io_inout else t)"

definition deduced_io :: "TypeDescriptor \<Rightarrow> io_type" where
  "deduced_io d = (if td_isConst d then io_in else if td_isReference d then io_inout else io_none)"

definition attribute_io :: "cpp_attribute \<Rightarrow> io_type \<Rightarrow> io_type" where
  "attribute_io a m = (if ca_scope a = Some ''xpcf'' then setIOType (ca_name a) m else m)"

definition ParameterDescriptor_parse ::
  "Cppast \<Rightarrow> (cpp_type \<Rightarrow> RawMembers) \<Rightarrow> cpp_function_parameter \<Rightarrow> exn + ParameterDescriptor" where
  "ParameterDescriptor_parse cp raw p =
     bind_sum (describe cp raw (cfp_type p)) (\<lambda>d.
       Inr \<lparr>pd_baseParam = p, pd_ioType = fold attribute_io (cfp_attributes p) (deduced_io d), pd_type = d, pd_name = cfp_name p\<rparr>)"

section \<open>Methods\<close>

datatype streaming_type = no_streaming | client_streaming | server_streaming | bidir_streaming

record MethodDescriptor =
  md_baseMethod :: cpp_member_function
  md_inParams :: "nat list"
  md_outParams :: "nat list"
  md_inoutParams :: "nat list"
  md_params :: "ParameterDescriptor list"
  md_requestName :: string
  md_responseName :: string
  md_rpcName :: string
  md_compressionDisabled :: bool
  md_returnDescriptor :: TypeDescriptor
  md_rpcStreamingType :: streaming_type
  md_pureVirtual :: bool
  md_const :: bool
  md_returnType :: string

definition MethodDescriptor_init :: "(cpp_type \<Rightarrow> RawMembers) \<Rightarrow> cpp_member_function \<Rightarrow> bool \<Rightarrow> MethodDescriptor" where
  "MethodDescriptor_init raw m compressionDisabled =
     \<lparr>md_baseMethod = m, md_inParams = [], md_outParams = [], md_inoutParams = [], md_params = [], md_requestName = '''',
      md_responseName = '''', md_rpcName = '''', md_compressionDisabled = compressionDisabled,
      md_returnDescriptor = TypeDescriptor (TypeDescriptorInfo_init (raw (cmf_return_type m))) [],
      md_rpcStreamingType = no_streaming, md_pureVirtual = False, md_const = False, md_returnType = ''''\<rparr>"

definition md_name :: "MethodDescriptor \<Rightarrow> string" where
  "md_name m = cmf_name (md_baseMethod m)"

definition str2typeStreamingMap :: "string \<rightharpoonup> streaming_type" where
  "str2typeStreamingMap = map_of [(''streaming'', bidir_streaming), (''client_streaming'', client_streaming),
     (''server_streaming'', server_streaming)]"

definition setStreamingType :: "string \<Rightarrow> MethodDescriptor \<Rightarrow> MethodDescriptor" where
  "setStreamingType streamType m =
     (case str2typeStreamingMap streamType of
        None \<Rightarrow> m
      | Some t \<Rightarrow>
          m\<lparr>md_rpcStreamingType :=
             (if md_rpcStreamingType m = client_streaming \<and> t = server_streaming \<or>
                 md_rpcStreamingType m = server_streaming \<and> t = client_streaming
              then bidir_streaming else t)\<rparr>)"

definition MethodDescriptor_getReturnType :: "MethodDescriptor \<Rightarrow> string" where
  "MethodDescriptor_getReturnType m = qualified_name (ti_nameSpace (td_info (md_returnDescriptor m))) (md_returnType m)"

fun parameters_text :: "Cppast \<Rightarrow> nat \<Rightarrow> ParameterDescriptor list \<Rightarrow> string" where
  "parameters_text cp nbTypes [] = ''''"
| "parameters_text cp nbTypes (p # ps) =
     (if nbTypes \<noteq> 0 then '', '' else '''') @
     qualified_name (ti_nameSpace (td_info (pd_type p))) (cp_to_string cp (pd_cppastType p)) @ '' '' @ pd_name p @
     parameters_text cp (Suc nbTypes) ps"

definition MethodDescriptor_getDeclaration :: "Cppast \<Rightarrow> MethodDescriptor \<Rightarrow> string" where
  "MethodDescriptor_getDeclaration cp m = md_name m @ ''('' @ parameters_text cp 0 (md_params m) @ '')''"

definition MethodDescriptor_getFullDeclaration :: "Cppast \<Rightarrow> MethodDescriptor \<Rightarrow> string" where
  "MethodDescriptor_getFullDeclaration cp m = MethodDescriptor_getReturnType m @ '' '' @ MethodDescriptor_getDeclaration cp m"

definition hasInputs :: "MethodDescriptor \<Rightarrow> bool" where
  "hasInputs m \<longleftrightarrow> md_inParams m \<noteq> [] \<or> md_inoutParams m \<noteq> []"

definition hasOutputs :: "MethodDescriptor \<Rightarrow> bool" where
  "hasOutputs m \<longleftrightarrow> md_inoutParams m \<noteq> [] \<or> md_outParams m \<noteq> [] \<or> \<not> td_isVoid (md_returnDescriptor m)"

definition method_attribute :: "cpp_attribute \<Rightarrow> MethodDescriptor \<Rightarrow> MethodDescriptor" where
  "method_attribute a m =
     (if ca_scope a \<noteq> Some ''grpc'' then m
      else if ca_name a = ''request''
      then (case ca_arguments a of None \<Rightarrow> m | Some t \<Rightarrow> m\<lparr>md_requestName := erase_all double_quote t\<rparr>)
      else if ca_name a = ''response''
      then (case ca_arguments a of None \<Rightarrow> m | Some t \<Rightarrow> m\<lparr>md_responseName := erase_all double_quote t\<rparr>)
      else if ca_name a = ''rpcName''
      then (case ca_arguments a of None \<Rightarrow> m | Some t \<Rightarrow> m\<lparr>md_rpcName := erase_all double_quote t\<rparr>)
      else if ca_name a = ''noCompression'' \<and> \<not> md_compressionDisabled m then m\<lparr>md_compressionDisabled := True\<rparr>
      else setStreamingType (ca_name a) m)"

text \<open>Where a parameter goes: its direction, or, without one, what its type says.\<close>

definition file_parameter :: "nat \<Rightarrow> ParameterDescriptor \<Rightarrow> MethodDescriptor \<Rightarrow> MethodDescriptor" where
  "file_parameter i d m =
     (case pd_ioType d of
        io_in \<Rightarrow> m\<lparr>md_inParams := md_inParams m @ [i]\<rparr>
      | io_out \<Rightarrow> m\<lparr>md_outParams := md_outParams m @ [i]\<rparr>
      | io_inout \<Rightarrow> m\<lparr>md_inoutParams := md_inoutParams m @ [i]\<rparr>
      | io_none \<Rightarrow>
          (let m1 = (if td_isConst (pd_type d) then m\<lparr>md_inParams := md_inParams m @ [i]\<rparr> else m);
               m2 = (if \<not> td_isReference (pd_type d) \<and> \<not> td_isConst (pd_type d)
                     then m1\<lparr>md_inParams := md_inParams m1 @ [i]\<rparr> else m1)
           in if td_isReference (pd_type d) \<and> \<not> td_isConst (pd_type d)
              then m2\<lparr>md_inoutParams := md_inoutParams m2 @ [i]\<rparr> else m2))"

definition parse_method_parameter ::
  "Cppast \<Rightarrow> (cpp_type \<Rightarrow> RawMembers) \<Rightarrow> cpp_function_parameter \<Rightarrow> MethodDescriptor \<Rightarrow> exn + MethodDescriptor" where
  "parse_method_parameter cp raw p m =
     bind_sum (ParameterDescriptor_parse cp raw p) (\<lambda>d.
       Inr (file_parameter (length (md_params m)) d (m\<lparr>md_params := md_params m @ [d]\<rparr>)))"

definition protobuf_Empty :: string where
  "protobuf_Empty = ''::google::protobuf::Empty''"

text \<open>The names of empty messages are set last.\<close>

definition empty_messages :: "MethodDescriptor \<Rightarrow> MethodDescriptor" where
  "empty_messages m =
     (let m1 = (if md_outParams m = [] \<and> md_inoutParams m = [] \<and> td_isVoid (md_returnDescriptor m)
                then (let m0 = m\<lparr>md_responseName := protobuf_Empty\<rparr> in
                      if md_inParams m0 = [] \<and> md_inoutParams m0 = [] then m0\<lparr>md_requestName := protobuf_Empty\<rparr> else m0)
                else m)
      in if md_inParams m1 = [] \<and> md_inoutParams m1 = [] \<and> md_compressionDisabled m1
         then m1\<lparr>md_requestName := protobuf_Empty\<rparr> else m1)"

text \<open>The result is the descriptor; the answer of the code, false for a member template, is not used by its caller.\<close>

definition MethodDescriptor_parse ::
  "Cppast \<Rightarrow> (cpp_type \<Rightarrow> RawMembers) \<Rightarrow> MethodDescriptor \<Rightarrow> exn + bool \<times> MethodDescriptor" where
  "MethodDescriptor_parse cp raw m0 =
     (let f = md_baseMethod m0;
          m1 = fold method_attribute (cmf_attributes f)
                 (m0\<lparr>md_const := (cmf_cv f = cpp_cv_const \<or> cmf_cv f = cpp_cv_const_volatile)\<rparr>)
      in if cmf_templated f then Inr (False, m1)
         else bind_sum (for_sum (parse_method_parameter cp raw) (cmf_parameters f)
                (m1\<lparr>md_pureVirtual := cmf_is_virtual f \<and> cmf_is_pure f,
                    md_returnType := cp_to_string cp (cmf_return_type f)\<rparr>)) (\<lambda>m2.
              bind_sum (describe cp raw (cmf_return_type f)) (\<lambda>d.
                Inr (True, empty_messages (m2\<lparr>md_returnDescriptor := d\<rparr>)))))"

section \<open>Classes\<close>

datatype ClassMetadataType = INTERFACENAMESPACE | INTERFACEFILEPATH | REMOTINGNSPACE | GRPCSERVICENAME | GRPCPROTOFILENAME

record Traits =
  tr_uuid :: string
  tr_name :: string
  tr_description :: string

record ClassDescriptor =
  cd_baseClass :: cpp_class
  cd_virtualMethods :: "MethodDescriptor list"
  cd_ignored :: bool
  cd_isXpcfInterface :: bool
  cd_isInterface :: bool
  cd_isXpcfComponent :: bool
  cd_clientReceiveSize :: "int option"
  cd_clientSendSize :: "int option"
  cd_compressionDisabled :: bool
  cd_clientUUID :: uuid
  cd_serverUUID :: uuid
  cd_metadata :: "ClassMetadataType \<rightharpoonup> string"
  cd_classParsed :: "string \<rightharpoonup> bool"
  cd_bases :: "string list"
  cd_xpcfTrait :: Traits

text \<open>
  The sizes are \<open>None\<close> until an attribute overrides them, and the identifiers are nil. \<open>ClassDescriptor::operator[]\<close>
  and \<open>getMetadata().at\<close> read the same map; the second throws when the key is not there, the first makes an empty
  entry.
\<close>

definition ClassDescriptor_init :: "cpp_class \<Rightarrow> string \<Rightarrow> string \<Rightarrow> ClassDescriptor" where
  "ClassDescriptor_init c nameSpace filePath =
     \<lparr>cd_baseClass = c, cd_virtualMethods = [], cd_ignored = False, cd_isXpcfInterface = False, cd_isInterface = False,
      cd_isXpcfComponent = False, cd_clientReceiveSize = None, cd_clientSendSize = None, cd_compressionDisabled = False,
      cd_clientUUID = 0, cd_serverUUID = 0,
      cd_metadata = Map.empty(INTERFACENAMESPACE \<mapsto> nameSpace, INTERFACEFILEPATH \<mapsto> filePath),
      cd_classParsed = Map.empty, cd_bases = [], cd_xpcfTrait = \<lparr>tr_uuid = '''', tr_name = '''', tr_description = ''''\<rparr>\<rparr>"

definition cd_name :: "ClassDescriptor \<Rightarrow> string" where
  "cd_name c = cc_name (cc_head (cd_baseClass c))"

definition cd_setMetadata :: "ClassMetadataType \<Rightarrow> string \<Rightarrow> ClassDescriptor \<Rightarrow> ClassDescriptor" where
  "cd_setMetadata k v c = c\<lparr>cd_metadata := (cd_metadata c)(k \<mapsto> v)\<rparr>"

definition ClassDescriptor_getFullName :: "ClassDescriptor \<Rightarrow> exn + string" where
  "ClassDescriptor_getFullName c =
     bind_sum (at_key (cd_metadata c) INTERFACENAMESPACE) (\<lambda>n.
       Inr (if n = '''' then cd_name c else n @ ''::'' @ cd_name c))"

definition setXpcfTrait :: "Traits \<Rightarrow> ClassDescriptor \<Rightarrow> ClassDescriptor" where
  "setXpcfTrait t c =
     c\<lparr>cd_xpcfTrait := \<lparr>tr_uuid = tr_uuid t, tr_name = tr_name t, tr_description = tr_description t\<rparr>\<rparr>"

text \<open>\<open>virtualMethodsMap\<close>: the positions of the methods of each name, in the order the names were met.\<close>

type_synonym method_positions = "(string \<times> nat list) list"

fun add_position :: "string \<Rightarrow> nat \<Rightarrow> method_positions \<Rightarrow> method_positions" where
  "add_position n i [] = [(n, [i])]"
| "add_position n i ((k, is) # al) = (if k = n then (k, is @ [i]) # al else (k, is) # add_position n i al)"

definition set_rpcName :: "nat \<Rightarrow> string \<Rightarrow> MethodDescriptor list \<Rightarrow> MethodDescriptor list" where
  "set_rpcName i n ms = ms[i := (ms ! i)\<lparr>md_rpcName := n\<rparr>]"

fun number_overloads :: "string \<Rightarrow> nat \<Rightarrow> nat list \<Rightarrow> MethodDescriptor list \<Rightarrow> MethodDescriptor list" where
  "number_overloads name methodIndex [] ms = ms"
| "number_overloads name methodIndex (i # is) ms =
     number_overloads name (Suc methodIndex) is (set_rpcName i (name @ ''_grpc'' @ to_string (int methodIndex)) ms)"

definition map_overloads :: "string \<times> nat list \<Rightarrow> MethodDescriptor list \<Rightarrow> MethodDescriptor list" where
  "map_overloads = (\<lambda>(name, indexArray) ms.
     if length indexArray > 1 then number_overloads name 0 indexArray ms else set_rpcName (indexArray ! 0) name ms)"

definition ClassDescriptor_generateRpcMapping :: "method_positions \<Rightarrow> ClassDescriptor \<Rightarrow> ClassDescriptor" where
  "ClassDescriptor_generateRpcMapping al c = c\<lparr>cd_virtualMethods := fold map_overloads al (cd_virtualMethods c)\<rparr>"

definition parse_member_function ::
  "Cppast \<Rightarrow> (cpp_type \<Rightarrow> RawMembers) \<Rightarrow> cpp_member_function \<Rightarrow> ClassDescriptor \<times> method_positions \<Rightarrow>
   exn + ClassDescriptor \<times> method_positions" where
  "parse_member_function cp raw f = (\<lambda>(c, al).
     bind_sum (MethodDescriptor_parse cp raw (MethodDescriptor_init raw f (cd_compressionDisabled c))) (\<lambda>(_, m).
       Inr (if md_pureVirtual m
            then (c\<lparr>cd_virtualMethods := cd_virtualMethods c @ [m]\<rparr>,
                  add_position (md_name m) (length (cd_virtualMethods c)) al)
            else (c, al))))"

definition note_base :: "string \<Rightarrow> ClassDescriptor \<Rightarrow> ClassDescriptor" where
  "note_base name c =
     (let c1 = (if name = ''org::bcom::xpcf::ComponentBase'' \<or> name = ''org::bcom::xpcf::ConfigurableBase''
                then c\<lparr>cd_isXpcfComponent := True\<rparr> else c)
      in if name = ''org::bcom::xpcf::IComponentIntrospect'' then c1\<lparr>cd_isXpcfInterface := True\<rparr> else c1)"

text \<open>
  \<open>parseMethods\<close>: the base classes the index knows first, each once for its name, then the member functions.
\<close>

fun ClassDescriptor_parseMethods ::
  "Cppast \<Rightarrow> (cpp_type \<Rightarrow> RawMembers) \<Rightarrow> cpp_class \<Rightarrow> ClassDescriptor \<times> method_positions \<Rightarrow>
   exn + ClassDescriptor \<times> method_positions"
  and parse_bases ::
  "Cppast \<Rightarrow> (cpp_type \<Rightarrow> RawMembers) \<Rightarrow> (string \<times> cpp_class option) list \<Rightarrow> ClassDescriptor \<times> method_positions \<Rightarrow>
   exn + ClassDescriptor \<times> method_positions" where
  "ClassDescriptor_parseMethods cp raw (cpp_class h bs fs) s =
     bind_sum (parse_bases cp raw bs s) (for_sum (parse_member_function cp raw) fs)"
| "parse_bases cp raw [] s = Inr s"
| "parse_bases cp raw ((name, None) # bs) s = parse_bases cp raw bs (note_base name (fst s), snd s)"
| "parse_bases cp raw ((name, Some b) # bs) s =
     (let c = note_base name (fst s); base = cc_name (cc_head b) in
      if \<not> mapContains (cd_classParsed c) base
      then bind_sum (ClassDescriptor_parseMethods cp raw b (c\<lparr>cd_classParsed := (cd_classParsed c)(base \<mapsto> True)\<rparr>, snd s))
             (parse_bases cp raw bs)
      else parse_bases cp raw bs (c, snd s))"

text \<open>
  The attributes of a class. \<open>gen\<close> reads a UUID. The loop ends at \<open>[[xpcf::ignore]]\<close>, with the answer \<open>Some True\<close>
  of the whole \<open>parse\<close>.
\<close>

definition class_attribute :: "(string \<Rightarrow> uuid option) \<Rightarrow> cpp_attribute \<Rightarrow> ClassDescriptor \<Rightarrow> exn + ClassDescriptor" where
  "class_attribute gen a c =
     (if ca_scope a = Some ''xpcf''
      then (case ca_arguments a of
              None \<Rightarrow> Inr c
            | Some t \<Rightarrow>
                if ca_name a = ''clientUUID''
                then bind_sum (toUUID gen (erase_all double_quote t)) (\<lambda>u. Inr (c\<lparr>cd_clientUUID := u\<rparr>))
                else if ca_name a = ''serverUUID''
                then bind_sum (toUUID gen (erase_all double_quote t)) (\<lambda>u. Inr (c\<lparr>cd_serverUUID := u\<rparr>))
                else Inr c)
      else if ca_scope a = Some ''grpc''
      then (if ca_name a = ''client_receiveSize''
            then Inr (case ca_arguments a of None \<Rightarrow> c
                      | Some t \<Rightarrow> c\<lparr>cd_clientReceiveSize := Some (atol (erase_all double_quote t))\<rparr>)
            else if ca_name a = ''client_sendSize''
            then Inr (case ca_arguments a of None \<Rightarrow> c
                      | Some t \<Rightarrow> c\<lparr>cd_clientSendSize := Some (atol (erase_all double_quote t))\<rparr>)
            else if ca_name a = ''noCompression'' then Inr (c\<lparr>cd_compressionDisabled := True\<rparr>) else Inr c)
      else Inr c)"

fun class_attributes :: "(string \<Rightarrow> uuid option) \<Rightarrow> cpp_attribute list \<Rightarrow> ClassDescriptor \<Rightarrow> exn + bool \<times> ClassDescriptor" where
  "class_attributes gen [] c = Inr (False, c)"
| "class_attributes gen (a # as) c =
     (if ca_scope a = Some ''xpcf'' \<and> ca_name a = ''ignore'' then Inr (True, c\<lparr>cd_ignored := True\<rparr>)
      else bind_sum (class_attribute gen a c) (class_attributes gen as))"

definition ClassDescriptor_parse ::
  "(string \<Rightarrow> uuid option) \<Rightarrow> Cppast \<Rightarrow> (cpp_type \<Rightarrow> RawMembers) \<Rightarrow> ClassDescriptor \<Rightarrow> exn + bool \<times> ClassDescriptor" where
  "ClassDescriptor_parse gen cp raw c0 =
     (let cls = cd_baseClass c0 in
      bind_sum (class_attributes gen (cc_attributes (cc_head cls)) c0) (\<lambda>(stop, c1).
        if stop then Inr (True, c1)
        else if cc_templated (cc_head cls) then Inr (False, c1)
        else bind_sum (ClassDescriptor_parseMethods cp raw cls
               (c1\<lparr>cd_bases := cd_bases c1 @ List.map fst (cc_bases cls)\<rparr>, [])) (\<lambda>(c2, al).
             let c3 = c2\<lparr>cd_isInterface := \<not> cd_isXpcfComponent c2 \<and> 0 < length (cd_virtualMethods c2) \<and> cd_isXpcfInterface c2\<rparr>
             in Inr (True, if cd_isInterface c3 then ClassDescriptor_generateRpcMapping al c3 else c3))))"

section \<open>Every parameter has one direction\<close>

definition effective_io :: "ParameterDescriptor \<Rightarrow> io_type" where
  "effective_io d =
     (if pd_ioType d \<noteq> io_none then pd_ioType d
      else if td_isConst (pd_type d) \<or> \<not> td_isReference (pd_type d) then io_in else io_inout)"

definition positions_of :: "io_type \<Rightarrow> MethodDescriptor \<Rightarrow> nat list" where
  "positions_of t m = filter (\<lambda>i. effective_io (md_params m ! i) = t) [0..<length (md_params m)]"

definition parameters_filed :: "MethodDescriptor \<Rightarrow> bool" where
  "parameters_filed m \<longleftrightarrow>
     md_inParams m = positions_of io_in m \<and> md_outParams m = positions_of io_out m \<and> md_inoutParams m = positions_of io_inout m"

lemma effective_io_cases: "effective_io d = io_in \<or> effective_io d = io_out \<or> effective_io d = io_inout"
  by (cases "pd_ioType d") (auto simp: effective_io_def)

lemma file_parameter_effective:
  "file_parameter i d m =
     (case effective_io d of io_out \<Rightarrow> m\<lparr>md_outParams := md_outParams m @ [i]\<rparr>
      | io_inout \<Rightarrow> m\<lparr>md_inoutParams := md_inoutParams m @ [i]\<rparr> | _ \<Rightarrow> m\<lparr>md_inParams := md_inParams m @ [i]\<rparr>)"
  by (cases "pd_ioType d") (auto simp: file_parameter_def effective_io_def Let_def)

lemma positions_of_snoc:
  "positions_of t (m\<lparr>md_params := md_params m @ [d]\<rparr>) =
     positions_of t m @ (if effective_io d = t then [length (md_params m)] else [])"
  by (auto simp: positions_of_def nth_append intro!: filter_cong)

lemma positions_of_cong: "md_params m = md_params m' \<Longrightarrow> positions_of t m = positions_of t m'"
  by (simp add: positions_of_def)

lemma parameters_filed_step:
  assumes "parameters_filed m"
  shows "parameters_filed (file_parameter (length (md_params m)) d (m\<lparr>md_params := md_params m @ [d]\<rparr>))"
proof -
  let ?m = "m\<lparr>md_params := md_params m @ [d]\<rparr>"
  have "positions_of t (file_parameter (length (md_params m)) d ?m) = positions_of t ?m" for t
    by (rule positions_of_cong) (auto simp: file_parameter_effective split: io_type.splits)
  then show ?thesis
    using assms effective_io_cases [of d]
    by (auto simp: parameters_filed_def file_parameter_effective positions_of_snoc)
qed

lemma file_parameter_params [simp]: "md_params (file_parameter i d m) = md_params m"
  by (auto simp: file_parameter_effective split: io_type.splits)

lemma parse_method_parameters:
  assumes "for_sum (parse_method_parameter cp raw) ps m = Inr m'" and "parameters_filed m"
  shows "parameters_filed m' \<and> List.map pd_name (md_params m') = List.map pd_name (md_params m) @ List.map cfp_name ps"
proof (rule for_sum_invariant [where I = "\<lambda>(ys :: cpp_function_parameter list) n. parameters_filed n \<and>
    List.map pd_name (md_params n) = List.map pd_name (md_params m) @ List.map cfp_name ys", OF assms(1)])
  fix ys :: "cpp_function_parameter list" and p n t
  assume "parameters_filed n \<and> List.map pd_name (md_params n) = List.map pd_name (md_params m) @ List.map cfp_name ys"
    and "parse_method_parameter cp raw p n = Inr t"
  then show "parameters_filed t \<and> List.map pd_name (md_params t) = List.map pd_name (md_params m) @ List.map cfp_name (ys @ [p])"
    by (auto simp: parse_method_parameter_def ParameterDescriptor_parse_def bind_sum_Inr_iff parameters_filed_step)
qed (simp add: assms(2))

lemma method_attribute_params [simp]:
  "md_params (method_attribute a m) = md_params m" "md_inParams (method_attribute a m) = md_inParams m"
  "md_outParams (method_attribute a m) = md_outParams m" "md_inoutParams (method_attribute a m) = md_inoutParams m"
  "md_baseMethod (method_attribute a m) = md_baseMethod m"
  by (auto simp: method_attribute_def setStreamingType_def split: option.splits)

lemma method_attributes_params [simp]:
  "md_params (fold method_attribute as m) = md_params m" "md_inParams (fold method_attribute as m) = md_inParams m"
  "md_outParams (fold method_attribute as m) = md_outParams m" "md_inoutParams (fold method_attribute as m) = md_inoutParams m"
  "md_baseMethod (fold method_attribute as m) = md_baseMethod m"
  by (induction as arbitrary: m) auto

lemma empty_messages_params [simp]:
  "md_params (empty_messages m) = md_params m" "md_inParams (empty_messages m) = md_inParams m"
  "md_outParams (empty_messages m) = md_outParams m" "md_inoutParams (empty_messages m) = md_inoutParams m"
  "md_baseMethod (empty_messages m) = md_baseMethod m" "md_pureVirtual (empty_messages m) = md_pureVirtual m"
  "md_returnDescriptor (empty_messages m) = md_returnDescriptor m"
  "md_compressionDisabled (empty_messages m) = md_compressionDisabled m"
  by (auto simp: empty_messages_def Let_def)

lemma mset_three_filters:
  assumes "\<And>i. g i = io_in \<or> g i = io_out \<or> g i = io_inout"
  shows "mset (filter (\<lambda>i. g i = io_in) xs @ filter (\<lambda>i. g i = io_out) xs @ filter (\<lambda>i. g i = io_inout) xs) = mset xs"
proof (induction xs)
  case (Cons i xs)
  then show ?case using assms [of i] by auto
qed simp

text \<open>
  A parsed method has the parameters of the member function, in order and with their names, and each of
  them is in exactly one of the lists of inputs, outputs and input-outputs, in the order of the parameters: the one its
  attributes and its type decide.
\<close>

theorem method_parameters_filed:
  assumes "MethodDescriptor_parse cp raw (MethodDescriptor_init raw f disabled) = Inr (True, m)"
  shows "List.map pd_name (md_params m) = List.map cfp_name (cmf_parameters f) \<and> parameters_filed m \<and>
    mset (md_inParams m @ md_outParams m @ md_inoutParams m) = mset [0..<length (cmf_parameters f)]"
proof -
  define m1 where "m1 = (fold method_attribute (cmf_attributes f) ((MethodDescriptor_init raw f disabled)
       \<lparr>md_const := (cmf_cv f = cpp_cv_const \<or> cmf_cv f = cpp_cv_const_volatile)\<rparr>))
       \<lparr>md_pureVirtual := cmf_is_virtual f \<and> cmf_is_pure f, md_returnType := cp_to_string cp (cmf_return_type f)\<rparr>"
  have m1: "parameters_filed m1" "md_params m1 = []"
    by (simp_all add: m1_def MethodDescriptor_init_def parameters_filed_def positions_of_def)
  obtain m2 d where m2: "for_sum (parse_method_parameter cp raw) (cmf_parameters f) m1 = Inr m2"
    and m: "m = empty_messages (m2\<lparr>md_returnDescriptor := d\<rparr>)"
    using assms
    by (auto simp: MethodDescriptor_parse_def Let_def bind_sum_Inr_iff m1_def MethodDescriptor_init_def split: if_splits)
  have filed: "parameters_filed m2" "List.map pd_name (md_params m2) = List.map cfp_name (cmf_parameters f)"
    using parse_method_parameters [OF m2 m1(1)] m1(2) by simp_all
  have m_filed: "parameters_filed m" and names: "List.map pd_name (md_params m) = List.map cfp_name (cmf_parameters f)"
    using filed positions_of_cong [of m m2] by (auto simp: parameters_filed_def m)
  have "mset (positions_of io_in m @ positions_of io_out m @ positions_of io_inout m) = mset [0..<length (md_params m)]"
    using mset_three_filters [of "\<lambda>i. effective_io (md_params m ! i)"] effective_io_cases unfolding positions_of_def by blast
  moreover have "length (md_params m) = length (cmf_parameters f)"
    using names by (metis length_map)
  ultimately show ?thesis
    using m_filed names by (simp add: parameters_filed_def)
qed

section \<open>The names of the remote procedures\<close>

definition positions_named :: "string list \<Rightarrow> string \<Rightarrow> nat list" where
  "positions_named names n = filter (\<lambda>i. names ! i = n) [0..<length names]"

text \<open>The name of the remote procedure of each method: its own name, or, when methods share it, with its rank among them.\<close>

definition rpcName_of :: "string list \<Rightarrow> nat \<Rightarrow> string" where
  "rpcName_of names k =
     (if length (positions_named names (names ! k)) > 1
      then names ! k @ ''_grpc'' @ to_string (int (length (filter (\<lambda>i. names ! i = names ! k) [0..<k]))) else names ! k)"

definition positions_ok :: "string list \<Rightarrow> method_positions \<Rightarrow> bool" where
  "positions_ok names al \<longleftrightarrow>
     distinct (List.map fst al) \<and> set (List.map fst al) = set names \<and> (\<forall>(n, is) \<in> set al. is = positions_named names n)"

lemma positions_named_snoc:
  "positions_named (names @ [n]) m = positions_named names m @ (if n = m then [length names] else [])"
  by (auto simp: positions_named_def nth_append intro!: filter_cong)

lemma fst_add_position: "set (List.map fst (add_position n i al)) = insert n (set (List.map fst al))"
  by (induction al rule: add_position.induct) auto

lemma distinct_add_position: "distinct (List.map fst al) \<Longrightarrow> distinct (List.map fst (add_position n i al))"
proof (induction n i al rule: add_position.induct)
  case (2 n i k "is" al)
  then show ?case using fst_add_position [of n i al] by auto
qed simp

lemma add_position_new: "n \<notin> set (List.map fst al) \<Longrightarrow> add_position n i al = al @ [(n, [i])]"
  by (induction al rule: add_position.induct) auto

lemma add_position_old:
  "distinct (List.map fst al) \<Longrightarrow> (n, ps) \<in> set al \<Longrightarrow>
   set (add_position n i al) = insert (n, ps @ [i]) (set al - {(n, ps)})"
proof (induction al)
  case (Cons e al)
  obtain k js where e: "e = (k, js)" by (cases e)
  show ?case
  proof (cases "k = n")
    case True
    with Cons.prems e have "js = ps" and "(n, ps) \<notin> set al" by force+
    with True e show ?thesis by simp
  next
    case False
    with Cons e show ?thesis by (simp add: insert_commute insert_Diff_if)
  qed
qed simp

lemma positions_okD: "positions_ok names al \<Longrightarrow> (m, qs) \<in> set al \<Longrightarrow> qs = positions_named names m"
  unfolding positions_ok_def by blast

lemma positions_ok_fst: "positions_ok names al \<Longrightarrow> e \<in> set al \<Longrightarrow> fst e \<in> set names"
  unfolding positions_ok_def by (metis image_eqI list.set_map)

lemma positions_okI:
  assumes "distinct (List.map fst al)" and "set (List.map fst al) = set names"
    and "\<And>m qs. (m, qs) \<in> set al \<Longrightarrow> qs = positions_named names m"
  shows "positions_ok names al"
  using assms unfolding positions_ok_def by blast

lemma positions_ok_step:
  assumes ok: "positions_ok names al"
  shows "positions_ok (names @ [n]) (add_position n (length names) al)"
proof (rule positions_okI)
  show "distinct (List.map fst (add_position n (length names) al))"
    using ok by (intro distinct_add_position) (simp add: positions_ok_def)
  show "set (List.map fst (add_position n (length names) al)) = set (names @ [n])"
    using ok fst_add_position [of n "length names" al] by (simp add: positions_ok_def)
  fix m qs assume mem: "(m, qs) \<in> set (add_position n (length names) al)"
  show "qs = positions_named (names @ [n]) m"
  proof (cases "n \<in> set names")
    case True
    have "n \<in> set (List.map fst al)" using ok True by (simp add: positions_ok_def)
    then obtain ps where e: "(n, ps) \<in> set al" by auto
    have upd: "set (add_position n (length names) al) = insert (n, ps @ [length names]) (set al - {(n, ps)})"
      using ok e by (intro add_position_old) (simp_all add: positions_ok_def)
    show ?thesis
    proof (cases "(m, qs) = (n, ps @ [length names])")
      case True
      then show ?thesis using positions_okD [OF ok e] by (simp add: positions_named_snoc)
    next
      case False
      then have old: "(m, qs) \<in> set al" "(m, qs) \<noteq> (n, ps)" using mem upd by auto
      then have "m \<noteq> n" using positions_okD [OF ok e] positions_okD [OF ok old(1)] by metis
      then show ?thesis using positions_okD [OF ok old(1)] by (simp add: positions_named_snoc)
    qed
  next
    case False
    then have empty: "positions_named names n = []" by (auto simp: positions_named_def filter_empty_conv)
    have "add_position n (length names) al = al @ [(n, [length names])]"
      using ok False by (intro add_position_new) (simp add: positions_ok_def)
    then consider "(m, qs) \<in> set al" | "m = n" "qs = [length names]" using mem by auto
    then show ?thesis
    proof cases
      case 1
      then have "m \<noteq> n" using positions_ok_fst [OF ok 1] False by auto
      then show ?thesis using positions_okD [OF ok 1] by (simp add: positions_named_snoc)
    qed (simp add: positions_named_snoc empty)
  qed
qed

abbreviation cd_names :: "ClassDescriptor \<Rightarrow> string list" where
  "cd_names c \<equiv> List.map md_name (cd_virtualMethods c)"

lemma parse_method_base:
  assumes "for_sum (parse_method_parameter cp raw) ps m = Inr m'"
  shows "md_baseMethod m' = md_baseMethod m"
  using assms
proof (induction ps arbitrary: m)
  case (Cons p ps)
  have "md_baseMethod (file_parameter i d n) = md_baseMethod n" for i d n
    by (auto simp: file_parameter_effective split: io_type.splits)
  with Cons show ?case by (auto simp: bind_sum_Inr_iff parse_method_parameter_def)
qed simp

lemma MethodDescriptor_parse_name:
  "MethodDescriptor_parse cp raw m0 = Inr (b, m) \<Longrightarrow> md_baseMethod m = md_baseMethod m0"
  by (auto simp: MethodDescriptor_parse_def Let_def bind_sum_Inr_iff split: if_splits dest!: parse_method_base)

lemma note_base_methods [simp]:
  "cd_virtualMethods (note_base n c) = cd_virtualMethods c"
  by (simp add: note_base_def Let_def)

definition numbered :: "ClassDescriptor \<times> method_positions \<Rightarrow> bool" where
  "numbered s \<longleftrightarrow> positions_ok (cd_names (fst s)) (snd s)"

lemma parse_member_functions_numbered:
  assumes "for_sum (parse_member_function cp raw) fs s = Inr t" and "numbered s"
  shows "numbered t"
proof (rule for_sum_invariant [where I = "\<lambda>(ys :: cpp_member_function list) s. numbered s", OF assms])
  fix f and s t :: "ClassDescriptor \<times> method_positions"
  assume "numbered s" "parse_member_function cp raw f s = Inr t"
  then show "numbered t"
    using positions_ok_step [of "cd_names (fst s)" "snd s"]
    by (auto simp: parse_member_function_def bind_sum_Inr_iff numbered_def split: if_splits prod.splits)
qed

lemma parseMethods_numbered:
  "ClassDescriptor_parseMethods cp raw c s = Inr t \<Longrightarrow> numbered s \<Longrightarrow> numbered t"
  "parse_bases cp raw bs s = Inr t \<Longrightarrow> numbered s \<Longrightarrow> numbered t"
proof (induction cp raw c s and cp raw bs s arbitrary: t and t rule: ClassDescriptor_parseMethods_parse_bases.induct)
  case (1 cp raw h bs fs s)
  then obtain u where "parse_bases cp raw bs s = Inr u" and fs: "for_sum (parse_member_function cp raw) fs u = Inr t"
    by (auto simp: bind_sum_Inr_iff)
  with 1 have "numbered u" by simp
  with fs show ?case by (rule parse_member_functions_numbered)
next
  case (4 cp raw name b bs s)
  then show ?case
    by (auto simp: bind_sum_Inr_iff Let_def numbered_def simp del: mapContains_iff split: if_splits)
qed (auto simp: numbered_def)

lemma set_rpcName_simps [simp]:
  "length (set_rpcName i n ms) = length ms"
  "i < length ms \<Longrightarrow> set_rpcName i n ms ! k = (if k = i then (ms ! i)\<lparr>md_rpcName := n\<rparr> else ms ! k)"
  by (simp_all add: set_rpcName_def nth_list_update)

definition overload_name :: "string \<Rightarrow> nat \<Rightarrow> string" where
  "overload_name name r = name @ ''_grpc'' @ to_string (int r)"

lemma number_overloads_nth:
  "distinct ps \<Longrightarrow> \<forall>i \<in> set ps. i < length ms \<Longrightarrow>
   length (number_overloads name j ps ms) = length ms \<and>
   number_overloads name j ps ms ! k =
     (if k \<in> set ps then (ms ! k)\<lparr>md_rpcName := overload_name name (j + length (takeWhile (\<lambda>i. i \<noteq> k) ps))\<rparr> else ms ! k)"
  by (induction name j ps ms rule: number_overloads.induct) (auto simp: overload_name_def add.left_commute)

text \<open>The name \<open>map_overloads\<close> gives the method at a position of the entry.\<close>

definition entry_name :: "string \<times> nat list \<Rightarrow> nat \<Rightarrow> string" where
  "entry_name e k =
     (if length (snd e) > 1 then overload_name (fst e) (length (takeWhile (\<lambda>i. i \<noteq> k) (snd e))) else fst e)"

lemma map_overloads_nth:
  assumes "distinct (snd e)" and "\<forall>i \<in> set (snd e). i < length ms" and "snd e \<noteq> []"
  shows "length (map_overloads e ms) = length ms \<and>
    map_overloads e ms ! k = (if k \<in> set (snd e) then (ms ! k)\<lparr>md_rpcName := entry_name e k\<rparr> else ms ! k)"
proof (cases "length (snd e) > 1")
  case True
  with assms show ?thesis
    using number_overloads_nth [of "snd e" ms "fst e" 0 k] by (simp add: map_overloads_def entry_name_def split_beta)
next
  case False
  with assms(3) obtain i where "snd e = [i]" by (cases "snd e") auto
  with assms show ?thesis by (simp add: map_overloads_def entry_name_def split_beta)
qed

lemma fold_overloads_nth:
  assumes "\<And>e. e \<in> set al \<Longrightarrow> distinct (snd e) \<and> snd e \<noteq> [] \<and> (\<forall>i \<in> set (snd e). i < length ms)"
    and "e \<in> set al" and "k \<in> set (snd e)" and "\<And>e'. e' \<in> set al \<Longrightarrow> k \<in> set (snd e') \<Longrightarrow> e' = e"
  shows "length (fold map_overloads al ms) = length ms \<and>
    fold map_overloads al ms ! k = (ms ! k)\<lparr>md_rpcName := entry_name e k\<rparr>"
proof -
  have "length (fold map_overloads xs ns) = length ns \<and>
      fold map_overloads xs ns ! k = (if e \<in> set xs then (ns ! k)\<lparr>md_rpcName := entry_name e k\<rparr> else ns ! k)"
    if "set xs \<subseteq> set al" and "length ns = length ms" for xs ns
    using that
  proof (induction xs arbitrary: ns)
    case (Cons x xs)
    have "length (map_overloads x ns) = length ns \<and>
        map_overloads x ns ! k = (if k \<in> set (snd x) then (ns ! k)\<lparr>md_rpcName := entry_name x k\<rparr> else ns ! k)"
      using assms(1) [of x] Cons.prems by (intro map_overloads_nth) auto
    moreover have "k \<in> set (snd x) \<longleftrightarrow> x = e" using assms(3) assms(4) [of x] Cons.prems(1) by (metis list.set_intros(1) subsetD)
    ultimately show ?case using Cons.IH [of "map_overloads x ns"] Cons.prems by auto
  qed simp
  from this [of al ms] assms(2) show ?thesis by simp
qed

lemma positions_named_rank:
  assumes "k < length names"
  shows "takeWhile (\<lambda>i. i \<noteq> k) (positions_named names (names ! k)) = filter (\<lambda>i. names ! i = names ! k) [0..<k]"
proof -
  have "[0..<length names] = [0..<k] @ k # [Suc k..<length names]"
    using assms by (metis le_add_diff_inverse less_imp_le_nat upt_add_eq_append upt_conv_Cons zero_le)
  then show ?thesis by (auto simp: positions_named_def takeWhile_append)
qed

lemma entry_name_rpcName:
  "k < length names \<Longrightarrow> entry_name (names ! k, positions_named names (names ! k)) k = rpcName_of names k"
  by (simp add: entry_name_def rpcName_of_def overload_name_def positions_named_rank)

lemma generateRpcMapping_names:
  assumes ok: "positions_ok (cd_names c) al"
  shows "cd_names (ClassDescriptor_generateRpcMapping al c) = cd_names c \<and>
    List.map md_rpcName (cd_virtualMethods (ClassDescriptor_generateRpcMapping al c)) =
      List.map (rpcName_of (cd_names c)) [0..<length (cd_virtualMethods c)]"
proof -
  let ?ms = "cd_virtualMethods c" and ?names = "cd_names c"
  have wf: "distinct (snd e) \<and> snd e \<noteq> [] \<and> (\<forall>i \<in> set (snd e). i < length ?ms)" if "e \<in> set al" for e
  proof -
    have e: "snd e = positions_named ?names (fst e)" using positions_okD [OF ok, of "fst e" "snd e"] that by simp
    have "fst e \<in> set ?names" using positions_ok_fst [OF ok that] .
    then obtain j where "j < length ?names" "?names ! j = fst e" by (metis in_set_conv_nth)
    then have "j \<in> set (snd e)" by (simp add: e positions_named_def)
    then have "snd e \<noteq> []" by auto
    then show ?thesis using e by (simp add: positions_named_def)
  qed
  have nth: "length (fold map_overloads al ?ms) = length ?ms \<and>
      fold map_overloads al ?ms ! k = (?ms ! k)\<lparr>md_rpcName := rpcName_of ?names k\<rparr>" if k: "k < length ?ms" for k
  proof -
    have "?names ! k \<in> set (List.map fst al)" using ok k unfolding positions_ok_def by (metis length_map nth_mem)
    then obtain ps where e: "(?names ! k, ps) \<in> set al" by auto
    have ps: "ps = positions_named ?names (?names ! k)" using positions_okD [OF ok e] .
    have k_ps: "k \<in> set (snd (?names ! k, ps))" using k by (simp add: ps positions_named_def)
    have unique: "e' = (?names ! k, ps)" if "e' \<in> set al" "k \<in> set (snd e')" for e'
    proof -
      have "snd e' = positions_named ?names (fst e')" using positions_okD [OF ok, of "fst e'" "snd e'"] that(1) by simp
      then have "fst e' = ?names ! k" using that(2) by (auto simp: positions_named_def)
      with \<open>snd e' = _\<close> ps show ?thesis by (simp add: prod_eq_iff)
    qed
    have "entry_name (?names ! k, ps) k = rpcName_of ?names k"
      unfolding ps by (rule entry_name_rpcName) (simp add: k)
    with fold_overloads_nth [OF wf e k_ps unique] show ?thesis by simp
  qed
  have len: "length (fold map_overloads al ?ms) = length ?ms"
  proof (cases "?ms = []")
    case True
    then have "al = []" using ok by (simp add: positions_ok_def)
    then show ?thesis by simp
  qed (use nth [of 0] in simp)
  show ?thesis
    by (auto simp: ClassDescriptor_generateRpcMapping_def len nth md_name_def intro!: nth_equalityI)
qed

lemma digits_suffix:
  assumes "a @ [c] @ nat_text i = b @ [c] @ nat_text j" and "\<And>d. d < 10 \<Longrightarrow> c \<noteq> digit_char d"
  shows "a = b \<and> i = j"
proof -
  let ?P = "\<lambda>x. x \<in> digit_char ` {..<10}"
  have digits: "takeWhile ?P (rev (u @ [c] @ nat_text n)) = rev (nat_text n)" for u n
    using nat_text_digits [of _ n] assms(2) by (auto simp: takeWhile_append)
  have "rev (nat_text i) = rev (nat_text j)"
    using arg_cong [OF assms(1), of "\<lambda>t. takeWhile ?P (rev t)"] unfolding digits .
  then have "nat_text i = nat_text j" by simp
  moreover have "i = j" using calculation nat_text_value by metis
  ultimately show ?thesis using assms(1) by simp
qed

lemma overload_name_eq_iff: "overload_name a i = overload_name b j \<longleftrightarrow> a = b \<and> i = j"
proof
  assume "overload_name a i = overload_name b j"
  then have "(a @ ''_grp'') @ [CHR ''c''] @ nat_text i = (b @ ''_grp'') @ [CHR ''c''] @ nat_text j"
    by (simp add: overload_name_def to_string_def)
  moreover have "CHR ''c'' \<noteq> digit_char d" if "d < 10" for d
  proof
    assume "CHR ''c'' = digit_char d"
    then have "of_char (CHR ''c'') = (48 + d :: nat)" using of_char_digit [OF that] by simp
    then show False using that by simp
  qed
  ultimately show "a = b \<and> i = j" using digits_suffix by blast
qed simp

lemma rank_strict:
  assumes "k < l" and "names ! k = names ! l"
  shows "length (filter (\<lambda>i. names ! i = names ! k) [0..<k]) < length (filter (\<lambda>i. names ! i = names ! l) [0..<l])"
proof -
  have "[0..<l] = [0..<k] @ k # [Suc k..<l]"
    using assms(1) by (metis le_add_diff_inverse less_imp_le_nat upt_add_eq_append upt_conv_Cons zero_le)
  then show ?thesis using assms(2) by simp
qed

lemma rpcName_of_overload:
  "rpcName_of names k =
     (if length (positions_named names (names ! k)) > 1
      then overload_name (names ! k) (length (filter (\<lambda>i. names ! i = names ! k) [0..<k])) else names ! k)"
  by (simp add: rpcName_of_def overload_name_def)

lemma rpcName_of_distinct:
  assumes suffix: "\<And>n a i. n \<in> set names \<Longrightarrow> n \<noteq> overload_name a i"
  shows "distinct (List.map (rpcName_of names) [0..<length names])"
proof -
  have "rpcName_of names k \<noteq> rpcName_of names l" if kl: "k < l" "l < length names" for k l
  proof (cases "names ! k = names ! l")
    case True
    have "{k, l} \<subseteq> set (positions_named names (names ! l))"
      using kl True by (auto simp: positions_named_def)
    then have "card {k, l} \<le> length (positions_named names (names ! l))"
      by (meson List.finite_set card_length card_mono le_trans)
    then have "1 < length (positions_named names (names ! l))" using kl(1) by simp
    then show ?thesis
      using rank_strict [OF kl(1) True] True by (simp add: rpcName_of_overload overload_name_eq_iff)
  next
    case False
    have "names ! k \<in> set names" "names ! l \<in> set names" using kl by simp_all
    then have "names ! k \<noteq> overload_name a i" "names ! l \<noteq> overload_name a i" for a i using suffix by blast+
    then show ?thesis
      using False unfolding rpcName_of_overload by (metis overload_name_eq_iff)
  qed
  then show ?thesis
    by (auto simp: distinct_map inj_on_def) (metis nat_neq_iff)
qed

lemma class_attribute_keeps:
  "class_attribute gen a c = Inr c' \<Longrightarrow>
   cd_virtualMethods c' = cd_virtualMethods c \<and> cd_isInterface c' = cd_isInterface c \<and> cd_baseClass c' = cd_baseClass c"
  by (auto simp: class_attribute_def bind_sum_Inr_iff split: if_splits option.splits)

lemma class_attributes_keep:
  "class_attributes gen as c = Inr (stop, c') \<Longrightarrow>
   cd_virtualMethods c' = cd_virtualMethods c \<and> cd_isInterface c' = cd_isInterface c \<and> cd_baseClass c' = cd_baseClass c"
proof (induction gen as c rule: class_attributes.induct)
  case (2 gen a as c)
  show ?case
  proof (cases "ca_scope a = Some ''xpcf'' \<and> ca_name a = ''ignore''")
    case False
    with "2.prems" obtain d where d: "class_attribute gen a c = Inr d" and "class_attributes gen as d = Inr (stop, c')"
      by (auto simp: bind_sum_Inr_iff split: if_splits)
    then show ?thesis using "2.IH" [OF False] class_attribute_keeps [OF d] by simp
  qed (use "2.prems" in auto)
qed simp

text \<open>
  Property C39. The remote procedures of a parsed interface: a method whose name no other method of the class has keeps its
  name; methods that share a name get it with \<open>_grpc\<close> and their rank, in the order the methods were found, base classes
  first. So the procedures have different names, unless a method has a name of that form itself.
\<close>

theorem interface_rpc_names:
  assumes "ClassDescriptor_parse gen cp raw (ClassDescriptor_init cls ns path) = Inr (True, c)" and "cd_isInterface c"
  shows "List.map md_rpcName (cd_virtualMethods c) = List.map (rpcName_of (cd_names c)) [0..<length (cd_virtualMethods c)] \<and>
    ((\<forall>n \<in> set (cd_names c). \<forall>a i. n \<noteq> overload_name a i) \<longrightarrow> distinct (List.map md_rpcName (cd_virtualMethods c)))"
proof -
  obtain c1 c2 al where c1: "class_attributes gen (cc_attributes (cc_head cls)) (ClassDescriptor_init cls ns path) = Inr (False, c1)"
    and c2: "ClassDescriptor_parseMethods cp raw cls (c1\<lparr>cd_bases := cd_bases c1 @ List.map fst (cc_bases cls)\<rparr>, []) = Inr (c2, al)"
    and c: "c = ClassDescriptor_generateRpcMapping al (c2\<lparr>cd_isInterface := True\<rparr>)"
    using assms class_attributes_keep
    by (auto simp: ClassDescriptor_parse_def Let_def bind_sum_Inr_iff ClassDescriptor_init_def split: if_splits)
  have "cd_virtualMethods c1 = []" using class_attributes_keep [OF c1] by (simp add: ClassDescriptor_init_def)
  then have "positions_ok (cd_names (c2\<lparr>cd_isInterface := True\<rparr>)) al"
    using parseMethods_numbered(1) [OF c2] by (simp add: numbered_def positions_ok_def)
  from generateRpcMapping_names [OF this]
  have names: "cd_names c = cd_names c2" and rpc2: "List.map md_rpcName (cd_virtualMethods c) =
      List.map (rpcName_of (cd_names c2)) [0..<length (cd_virtualMethods c2)]"
    unfolding c by simp_all
  have "length (cd_virtualMethods c) = length (cd_virtualMethods c2)" using names by (metis length_map)
  with names rpc2 have rpc: "List.map md_rpcName (cd_virtualMethods c) =
      List.map (rpcName_of (cd_names c)) [0..<length (cd_virtualMethods c)]" by simp
  moreover have "distinct (List.map md_rpcName (cd_virtualMethods c))" if "\<forall>n \<in> set (cd_names c). \<forall>a i. n \<noteq> overload_name a i"
    using rpcName_of_distinct [of "cd_names c"] that unfolding rpc by simp
  ultimately show ?thesis using rpc by blast
qed

text \<open>An interface with two methods of one name.\<close>

definition sample_function :: "string \<Rightarrow> cpp_function_parameter list \<Rightarrow> cpp_member_function" where
  "sample_function n ps = \<lparr>cmf_name = n, cmf_return_type = cpp_builtin cpp_int, cmf_parameters = ps, cmf_attributes = [],
     cmf_cv = cpp_cv_none, cmf_templated = False, cmf_is_virtual = True, cmf_is_pure = True\<rparr>"

definition sample_parameter :: "string \<Rightarrow> cpp_type \<Rightarrow> cpp_function_parameter" where
  "sample_parameter n t = \<lparr>cfp_name = n, cfp_type = t, cfp_attributes = []\<rparr>"

definition sample_shape :: cpp_class where
  "sample_shape = cpp_class \<lparr>cc_name = ''IShape'', cc_attributes = [], cc_templated = False\<rparr>
     [(''org::bcom::xpcf::IComponentIntrospect'', None)]
     [sample_function ''move'' [sample_parameter ''dx'' (cpp_builtin cpp_int)],
      sample_function ''area'' [],
      sample_function ''move'' [sample_parameter ''to'' (cpp_reference_to cpp_ref_lvalue (cpp_builtin cpp_int))]]"

definition sample_parsed :: "exn + bool \<times> ClassDescriptor" where
  "sample_parsed = ClassDescriptor_parse (\<lambda>_. None) sample_cppast sample_raw (ClassDescriptor_init sample_shape ''geo'' ''IShape.h'')"

theorem interface_rpc_names_witness:
  "\<exists>c. sample_parsed = Inr (True, c) \<and> cd_isInterface c \<and> cd_names c = [''move'', ''area'', ''move''] \<and>
     List.map md_rpcName (cd_virtualMethods c) = [''move_grpc0'', ''area'', ''move_grpc1'']"
proof -
  have "case sample_parsed of Inr (b, c) \<Rightarrow> b \<and> cd_isInterface c \<and> cd_names c = [''move'', ''area'', ''move''] | _ \<Rightarrow> False"
    by code_simp
  then obtain c where c: "sample_parsed = Inr (True, c)" "cd_isInterface c" "cd_names c = [''move'', ''area'', ''move'']"
    by (auto split: sum.splits)
  have "length (cd_virtualMethods c) = 3" using c(3) by (metis length_map length_Cons list.size(3) numeral_3_eq_3)
  moreover have "List.map (rpcName_of [''move'', ''area'', ''move'']) [0..<3] = [''move_grpc0'', ''area'', ''move_grpc1'']"
    by code_simp
  ultimately show ?thesis
    using interface_rpc_names [OF c(1) [unfolded sample_parsed_def] c(2)] c by auto
qed

theorem method_parameters_filed_witness:
  "\<exists>m. MethodDescriptor_parse sample_cppast sample_raw (MethodDescriptor_init sample_raw (sample_function ''copy''
     [sample_parameter ''from'' (cpp_pointer (cpp_builtin cpp_int)),
      sample_parameter ''to'' (cpp_reference_to cpp_ref_lvalue (cpp_builtin cpp_int))]) False) = Inr (True, m) \<and>
     md_inParams m = [0] \<and> md_inoutParams m = [1] \<and> List.map pd_name (md_params m) = [''from'', ''to'']"
proof -
  let ?f = "sample_function ''copy'' [sample_parameter ''from'' (cpp_pointer (cpp_builtin cpp_int)),
      sample_parameter ''to'' (cpp_reference_to cpp_ref_lvalue (cpp_builtin cpp_int))]"
  have "case MethodDescriptor_parse sample_cppast sample_raw (MethodDescriptor_init sample_raw ?f False) of
      Inr (b, m) \<Rightarrow> b \<and> md_inParams m = [0] \<and> md_inoutParams m = [1] | _ \<Rightarrow> False"
    by code_simp
  then obtain m where m: "MethodDescriptor_parse sample_cppast sample_raw (MethodDescriptor_init sample_raw ?f False) = Inr (True, m)"
    "md_inParams m = [0]" "md_inoutParams m = [1]"
    by (auto split: sum.splits)
  with method_parameters_filed [OF m(1)] show ?thesis
    by (auto simp: sample_function_def sample_parameter_def)
qed

end
