(* ===== verification/Xpcf_GenCpp.thy ===== *)
theory Xpcf_GenCpp
  imports Xpcf_GenDescriptors "HOL-Library.List_Lexorder" "HOL-Library.Char_ord"
begin

text \<open>
  Writing C++ text: \<open>CppBlockManager\<close> and \<open>block_guard\<close> of \<^verbatim>\<open>tools/generators/grpc/CppHelpers.h\<close>, which the
  generators of the proxy, the server and the mock component share, and the part of the state these generators have in
  common. The text written to the stream is a string of the state. At the end: the calculus that shows that a generator
  closes the blocks it opens.
\<close>

section \<open>Blocks\<close>

definition nl :: string where
  "nl = [CHR 0x0A]"

datatype CPP = STD | CLASS | PUBLIC | PROTECTED | PRIVATE | NSPACE

record CppBlockManager =
  bm_indentLevel :: nat
  bm_out :: string
  bm_blockStack :: "CPP list"

type_synonym 's gen = "('s, exn, unit) eff"

definition cppBeginBlock :: string where
  \<open>cppBeginBlock = ''{'' @ nl\<close>

definition cppEndBlock :: string where
  \<open>cppEndBlock = ''}'' @ nl @ nl\<close>

definition classEndBlock :: string where
  \<open>classEndBlock = ''};'' @ nl @ nl\<close>

definition bm_indent :: "'s CppBlockManager_scheme \<Rightarrow> string" where
  "bm_indent b = concat (replicate (bm_indentLevel b) ''  '')"

definition bm_write :: "string \<Rightarrow> 's CppBlockManager_scheme gen" where
  "bm_write t = modify_eff (\<lambda>b. b\<lparr>bm_out := bm_out b @ t\<rparr>)"

definition newline :: "'s CppBlockManager_scheme gen" where
  "newline = bm_write nl"

text \<open>\<open>blockMgr.out() << t1 << t2 ...\<close>\<close>

definition out :: "string list \<Rightarrow> 's CppBlockManager_scheme gen" where
  "out ts = bind_eff (gets_eff bm_indent) (\<lambda>ind. bm_write (ind @ concat ts))"

definition enter :: "CPP \<Rightarrow> 's CppBlockManager_scheme gen" where
  "enter t = modify_eff (\<lambda>s.
     let s1 = s\<lparr>bm_blockStack := t # bm_blockStack s\<rparr>;
         b = (case t of
                PUBLIC \<Rightarrow> bm_indent s1 @ ''public:'' @ nl
              | PROTECTED \<Rightarrow> bm_indent s1 @ ''protected:'' @ nl
              | PRIVATE \<Rightarrow> bm_indent s1 @ ''private:'' @ nl
              | _ \<Rightarrow> bm_indent s1 @ cppBeginBlock);
         s2 = (if t \<noteq> NSPACE then s1\<lparr>bm_indentLevel := Suc (bm_indentLevel s1)\<rparr> else s1)
     in s2\<lparr>bm_out := bm_out s2 @ b\<rparr>)"

text \<open>\<open>top\<close> of an empty stack is undefined.\<close>

definition leave :: "'s CppBlockManager_scheme gen" where
  "leave = (\<lambda>s. case bm_blockStack s of
     [] \<Rightarrow> (Inl Undefined_behaviour, s)
   | t # ts \<Rightarrow>
       (let s1 = s\<lparr>bm_blockStack := ts\<rparr>;
            s2 = (if t \<noteq> NSPACE \<and> bm_indentLevel s1 > 0 then s1\<lparr>bm_indentLevel := bm_indentLevel s1 - 1\<rparr> else s1);
            b = (case t of
                   PUBLIC \<Rightarrow> nl | PROTECTED \<Rightarrow> nl | PRIVATE \<Rightarrow> nl
                 | CLASS \<Rightarrow> bm_indent s2 @ classEndBlock
                 | _ \<Rightarrow> bm_indent s2 @ cppEndBlock)
        in (Inr (), s2\<lparr>bm_out := bm_out s2 @ b\<rparr>)))"

text \<open>The destructor of the guard leaves the block, also when an exception passes.\<close>

definition block_guard :: "CPP \<Rightarrow> 's CppBlockManager_scheme gen \<Rightarrow> 's CppBlockManager_scheme gen" where
  "block_guard t body = (\<lambda>s.
     case seq_eff (enter t) body s of (r, s1) \<Rightarrow>
       (case leave s1 of (Inl e, s2) \<Rightarrow> (Inl e, s2) | (Inr _, s2) \<Rightarrow> (r, s2)))"

definition to_upper :: "string \<Rightarrow> string" where
  "to_upper t = List.map (\<lambda>c. let n = of_char c :: nat in if 97 \<le> n \<and> n \<le> 122 then char_of (n - 32) else c) t"

definition to_lower :: "string \<Rightarrow> string" where
  "to_lower t = List.map (\<lambda>c. let n = of_char c :: nat in if 65 \<le> n \<and> n \<le> 90 then char_of (n + 32) else c) t"

text \<open>The statements of a function body, one after the other.\<close>

definition run_all :: "'s gen list \<Rightarrow> 's gen" where
  "run_all ms = for_eff (\<lambda>m. m) ms"

definition if_then :: "bool \<Rightarrow> 's gen list \<Rightarrow> 's gen" where
  "if_then b ms = (if b then run_all ms else return_eff ())"

definition includeGuardsStart :: "string \<Rightarrow> 's CppBlockManager_scheme gen" where
  "includeGuardsStart name = run_all [
     out [''#ifndef '', to_upper name, ''_H''], newline,
     out [''#define '', to_upper name, ''_H''], newline]"

definition includeGuardsEnd :: "'s CppBlockManager_scheme gen" where
  "includeGuardsEnd = out [''#endif'']"

definition include_header :: "string \<Rightarrow> bool \<Rightarrow> 's CppBlockManager_scheme gen" where
  \<open>include_header headerName quoted =
     out [''#include '', (if quoted then ''"'' else ''<''), headerName, (if quoted then ''"'' else ''>''), nl]\<close>

section \<open>Ordered maps\<close>

text \<open>\<open>m[k] = v\<close> of a \<open>std::map\<close> with strings as keys, whose iteration goes through the keys in order.\<close>

fun std_map_set :: "string \<Rightarrow> 'v \<Rightarrow> (string \<times> 'v) list \<Rightarrow> (string \<times> 'v) list" where
  "std_map_set k v [] = [(k, v)]"
| "std_map_set k v ((k', v') # m) =
     (if k = k' then (k, v) # m else if k < k' then (k, v) # (k', v') # m else (k', v') # std_map_set k v m)"

section \<open>The state of a generator of C++ text\<close>

text \<open>
  The class the text is made for, shared with the other generators; the identifiers made for classes without one; the
  variables the methods of a proxy need, by name, with their type and whether a constant method writes them.
\<close>

record CodeGenerator = CppBlockManager +
  cg_class :: ClassDescriptor
  cg_serviceUuidMap :: "(string \<times> string) list"
  cg_proxyMembersVariables :: "(string \<times> (string \<times> bool)) list"

text \<open>The members a generator computes from the name of the class before it writes.\<close>

record GeneratorNames =
  gn_nameSpace :: string
  gn_className :: string
  gn_headerFileName :: string
  gn_cppFileName :: string
  gn_grpcClassName :: string

definition metadata_at :: "ClassMetadataType \<Rightarrow> (string \<Rightarrow> CodeGenerator gen) \<Rightarrow> CodeGenerator gen" where
  "metadata_at k f = bind_eff (gets_eff cg_class) (\<lambda>c. bind_eff (lift_eff (at_key (cd_metadata c) k)) f)"

text \<open>\<open>(*c)[k]\<close> makes an empty entry when there is none.\<close>

definition metadata_entry :: "ClassMetadataType \<Rightarrow> ClassDescriptor \<Rightarrow> string \<times> ClassDescriptor" where
  "metadata_entry k c =
     (case cd_metadata c k of Some v \<Rightarrow> (v, c) | None \<Rightarrow> ('''', cd_setMetadata k '''' c))"

definition with_entry :: "ClassMetadataType \<Rightarrow> (string \<Rightarrow> CodeGenerator gen) \<Rightarrow> CodeGenerator gen" where
  "with_entry k f = bind_eff (\<lambda>s. case metadata_entry k (cg_class s) of (v, c) \<Rightarrow> (Inr v, s\<lparr>cg_class := c\<rparr>)) f"

text \<open>The identifier of the class, made and noted when the class has none: \<open>getu\<close> and \<open>setu\<close> are the side it is for.\<close>

definition class_uuid ::
  "(ClassDescriptor \<Rightarrow> uuid) \<Rightarrow> (uuid \<Rightarrow> ClassDescriptor \<Rightarrow> ClassDescriptor) \<Rightarrow> uuid \<Rightarrow> (uuid \<Rightarrow> string) \<Rightarrow> string \<Rightarrow>
   (CodeGenerator, exn, uuid) eff" where
  "class_uuid getu setu fresh uuid_text className =
     bind_eff (gets_eff (\<lambda>s. getu (cg_class s))) (\<lambda>u.
       if u = 0
       then seq_eff (modify_eff (\<lambda>s. s\<lparr>cg_class := setu fresh (cg_class s),
              cg_serviceUuidMap := std_map_set className (uuid_text fresh) (cg_serviceUuidMap s)\<rparr>)) (return_eff fresh)
       else return_eff u)"

definition setClientUUID :: "uuid \<Rightarrow> ClassDescriptor \<Rightarrow> ClassDescriptor" where
  "setClientUUID u c = c\<lparr>cd_clientUUID := u\<rparr>"

definition setServerUUID :: "uuid \<Rightarrow> ClassDescriptor \<Rightarrow> ClassDescriptor" where
  "setServerUUID u c = c\<lparr>cd_serverUUID := u\<rparr>"

definition base_interface :: "(string \<Rightarrow> CodeGenerator gen) \<Rightarrow> CodeGenerator gen" where
  "base_interface f = metadata_at INTERFACENAMESPACE (\<lambda>n.
     bind_eff (gets_eff (\<lambda>s. cd_name (cg_class s))) (\<lambda>name. f ((if n \<noteq> '''' then n @ ''::'' else '''') @ name)))"


text \<open>\<open>blockMgr.out() << ... << c->getMetadata().at(k) << ...\<close>: the indentation is written before the lookup throws.\<close>

definition out_with :: "ClassMetadataType \<Rightarrow> (string \<Rightarrow> string list) \<Rightarrow> CodeGenerator gen" where
  "out_with k f = seq_eff (out []) (metadata_at k (\<lambda>v. bm_write (concat (f v))))"

definition td_rpcType :: "TypeDescriptor \<Rightarrow> string" where
  "td_rpcType d = ti_rpcType (td_info d)"

definition in_params :: "MethodDescriptor \<Rightarrow> ParameterDescriptor list" where
  "in_params m = List.map (nth (md_params m)) (md_inParams m)"

definition out_params :: "MethodDescriptor \<Rightarrow> ParameterDescriptor list" where
  "out_params m = List.map (nth (md_params m)) (md_outParams m)"

definition inout_params :: "MethodDescriptor \<Rightarrow> ParameterDescriptor list" where
  "inout_params m = List.map (nth (md_params m)) (md_inoutParams m)"

text \<open>The variables of a proxy: \<open>m_proxyMembersVariables\<close>.\<close>

definition note_member :: "MethodDescriptor \<Rightarrow> string \<Rightarrow> bool \<Rightarrow> CodeGenerator gen" where
  "note_member m t isConst = modify_eff (\<lambda>s.
     s\<lparr>cg_proxyMembersVariables := std_map_set (''m_'' @ md_name m) (t, isConst) (cg_proxyMembersVariables s)\<rparr>)"

definition clear_members :: "CodeGenerator gen" where
  "clear_members = modify_eff (\<lambda>s. s\<lparr>cg_proxyMembersVariables := []\<rparr>)"

definition declare_member :: "string \<times> (string \<times> bool) \<Rightarrow> CodeGenerator gen" where
  "declare_member = (\<lambda>(k, t, isConst). run_all [
     if_then isConst [out [''mutable '']],
     out [t, '' '', k, '';'', nl]])"

definition declare_members :: "CodeGenerator gen" where
  "declare_members = bind_eff (gets_eff cg_proxyMembersVariables) (for_eff declare_member)"

section \<open>Generating the files of a component\<close>

datatype GenerateMode = STD_COUT | FILE_MODE

datatype GeneratorMetadataType =
    GRPCPACKAGE | PROXY_HEADERFILENAME | PROXY_CPPFILENAME | PROXY_XPCFGRPCCOMPONENTNAME | PROXY_XPCFGRPCNAMESPACE
  | SERVER_HEADERFILENAME | SERVER_CPPFILENAME | SERVER_XPCFGRPCCOMPONENTNAME | SERVER_XPCFGRPCNAMESPACE | CPPNAMESPACE
  | PROJECT_NAME | PROJECT_VERSION | PROJECT_DEPENDENCY_URL | MODULE_UUID | MODULE_NAME | MODULE_DESCRIPTION

type_synonym GeneratorMetadata = "GeneratorMetadataType \<rightharpoonup> string"

text \<open>The class, the text on the standard output, the files with their contents and the members a generator keeps.\<close>

record ComponentGenerator =
  gr_class :: ClassDescriptor
  gr_cout :: string
  gr_files :: "(string \<times> string) list"
  gr_serviceUuidMap :: "(string \<times> string) list"
  gr_proxyMembersVariables :: "(string \<times> (string \<times> bool)) list"

text \<open>A new \<open>CppBlockManager\<close> on a stream with the text \<open>t\<close>.\<close>

definition on_stream :: "CodeGenerator gen \<Rightarrow> string \<Rightarrow> ComponentGenerator \<Rightarrow> (exn + unit) \<times> string \<times> ComponentGenerator" where
  "on_stream m t g =
     (case m \<lparr>bm_indentLevel = 0, bm_out = t, bm_blockStack = [], cg_class = gr_class g,
              cg_serviceUuidMap = gr_serviceUuidMap g, cg_proxyMembersVariables = gr_proxyMembersVariables g\<rparr> of
        (r, s) \<Rightarrow> (r, bm_out s, g\<lparr>gr_class := cg_class s, gr_serviceUuidMap := cg_serviceUuidMap s,
                                 gr_proxyMembersVariables := cg_proxyMembersVariables s\<rparr>))"

definition to_cout :: "CodeGenerator gen \<Rightarrow> ComponentGenerator gen" where
  "to_cout m = (\<lambda>g. case on_stream m (gr_cout g) g of (r, t, g') \<Rightarrow> (r, g'\<lparr>gr_cout := t\<rparr>))"

definition to_file :: "string \<Rightarrow> CodeGenerator gen \<Rightarrow> ComponentGenerator gen" where
  "to_file path m = (\<lambda>g. case on_stream m '''' g of (r, t, g') \<Rightarrow> (r, g'\<lparr>gr_files := gr_files g' @ [(path, t)]\<rparr>))"

definition generate_component ::
  "'f Filesystem_scheme \<Rightarrow> GenerateMode \<Rightarrow> string \<Rightarrow> GeneratorNames \<Rightarrow> CodeGenerator gen \<Rightarrow> CodeGenerator gen \<Rightarrow> ComponentGenerator gen" where
  "generate_component fs mode folder n header body =
     (if mode = STD_COUT
      then run_all [to_cout header, to_cout body, modify_eff (\<lambda>g. g\<lparr>gr_cout := gr_cout g @ nl\<rparr>)]
      else run_all [to_file (fs_append fs folder (gn_headerFileName n)) header,
                    to_file (fs_append fs folder (gn_cppFileName n)) body])"

text \<open>The members that hold the names, the name of the service being looked up with \<open>(*c)[...]\<close>.\<close>

definition component_names :: "string \<Rightarrow> string \<Rightarrow> string \<Rightarrow> string \<Rightarrow> GeneratorNames" where
  "component_names nameSpace ending grpcClassName name =
     \<lparr>gn_nameSpace = nameSpace @ name, gn_className = name @ ending, gn_headerFileName = name @ ending @ ''.h'',
      gn_cppFileName = name @ ending @ ''.cpp'', gn_grpcClassName = grpcClassName\<rparr>"

definition service_name :: "(ComponentGenerator, exn, string) eff" where
  "service_name = (\<lambda>g. case metadata_entry GRPCSERVICENAME (gr_class g) of (v, c) \<Rightarrow> (Inr v, g\<lparr>gr_class := c\<rparr>))"

text \<open>\<open>finalizeImpl\<close> prints the identifiers that were made.\<close>

definition print_uuids :: "string \<Rightarrow> ComponentGenerator gen" where
  "print_uuids attr = modify_eff (\<lambda>g. g\<lparr>gr_serviceUuidMap := [],
     gr_cout := gr_cout g @ concat (List.map (\<lambda>(name, u). ''Component '' @ name @ '' generated uuid = [[xpcf::'' @ attr @ ''('' @ u @
       '')]]'' @ nl) (gr_serviceUuidMap g))\<rparr>)"

end
