(* ===== verification/Xpcf_Collections.thy ===== *)
theory Xpcf_Collections
  imports Xpcf_Exceptions
begin

text \<open>
  The collections of \<^verbatim>\<open>interfaces/xpcf/collection\<close>: a sequence with its operations, the enumerators
  over the whole sequence and over a block of it, and the loop a range-based \<open>for\<close> makes of them.
  The contract a loop needs from an enumerator is a locale.
\<close>

section \<open>Collections\<close>

text \<open>
  A \<open>Collection\<close> is its sequence (a vector or a deque). The specialisation for
  \<open>const char *\<close> keeps \<open>std::string\<close>s and compares them as strings, which is this model at strings.
\<close>

definition Collection_add :: "'a \<Rightarrow> 'a list \<Rightarrow> 'a list" where
  "Collection_add v seq = seq @ [v]"

definition Collection_clear :: "'a list \<Rightarrow> 'a list" where
  "Collection_clear seq = []"

fun Collection_contains :: "'a \<Rightarrow> 'a list \<Rightarrow> bool" where
  "Collection_contains v [] = False"
| "Collection_contains v (x # xs) = (x = v \<or> Collection_contains v xs)"

definition Collection_remove :: "'a \<Rightarrow> 'a list \<Rightarrow> bool \<times> 'a list" where
  "Collection_remove v seq =
     (if \<not> Collection_contains v seq then (False, seq) else (True, filter (\<lambda>x. x \<noteq> v) seq))"

text \<open>\<open>size\<close> converts a \<open>size_t\<close> to \<open>uint32_t\<close>.\<close>

definition Collection_size :: "'a list \<Rightarrow> 32 word" where
  "Collection_size seq = word_of_nat (length seq)"

text \<open>
  The assignment operator builds a copy of its argument and returns it: the pair is the
  collection on the left after the call and the value of the expression.
\<close>

definition Collection_assign :: "'a list \<Rightarrow> 'a list \<Rightarrow> 'a list \<times> 'a list" where
  "Collection_assign self collection = (let coll = collection in (self, coll))"

lemma Collection_contains_iff [simp]: "Collection_contains v seq \<longleftrightarrow> v \<in> set seq"
  by (induction seq) auto

section \<open>Enumerators\<close>

text \<open>
  An enumerator holds a reference to the sequence of its collection, so its operations take the
  sequence as it is when they are called. \<open>enum_block\<close> is the offset and the end of a
  \<open>BlockEnumerator\<close>, which overrides \<open>computeSize\<close> and \<open>reset\<close>; \<open>None\<close> is an \<open>Enumerator\<close>.
  Positions are \<open>int64_t\<close> values between -1 and the number of elements, and so do not wrap.
\<close>

record Enumerator =
  enum_index :: int
  enum_endReached :: bool
  enum_block :: "(32 word \<times> 32 word) option"

definition Enumerator_init :: Enumerator where
  "Enumerator_init = \<lparr>enum_index = -1, enum_endReached = False, enum_block = None\<rparr>"

text \<open>The end of the block is a \<open>uint32_t\<close> sum, which wraps.\<close>

definition BlockEnumerator_init :: "'a list \<Rightarrow> 32 word \<Rightarrow> 32 word \<Rightarrow> exn + Enumerator" where
  "BlockEnumerator_init seq offset chunkSize =
     (let m_size = offset + chunkSize in
      if length seq < unat m_size then Inl (Out_of_range ''offset + size > sequence size'')
      else Inr \<lparr>enum_index = uint offset - 1, enum_endReached = False, enum_block = Some (offset, m_size)\<rparr>)"

fun Enumerator_computeSize :: "'a list \<Rightarrow> Enumerator \<Rightarrow> int" where
  "Enumerator_computeSize seq e =
     (case enum_block e of None \<Rightarrow> int (length seq) | Some (_, m_size) \<Rightarrow> uint m_size)"

definition Enumerator_moveNext :: "'a list \<Rightarrow> Enumerator \<Rightarrow> bool \<times> Enumerator" where
  "Enumerator_moveNext seq e =
     (if enum_index e < Enumerator_computeSize seq e - 1
      then (True, e\<lparr>enum_index := enum_index e + 1\<rparr>)
      else (False, e\<lparr>enum_endReached := True\<rparr>))"

definition Enumerator_reset :: "Enumerator \<Rightarrow> Enumerator" where
  "Enumerator_reset e =
     e\<lparr>enum_endReached := False,
       enum_index := (case enum_block e of None \<Rightarrow> -1 | Some (offset, _) \<Rightarrow> uint offset - 1)\<rparr>"

text \<open>\<open>at\<close> converts the index to an unsigned size, so a negative one is out of range too.\<close>

definition Enumerator_current :: "'a list \<Rightarrow> Enumerator \<Rightarrow> exn + 'a" where
  "Enumerator_current seq e =
     (if 0 \<le> enum_index e \<and> enum_index e < int (length seq) then Inr (seq ! nat (enum_index e))
      else Inl (Out_of_range ''at''))"

definition Enumerator_endReached :: "Enumerator \<Rightarrow> bool" where
  "Enumerator_endReached e = enum_endReached e"

section \<open>The loop over an enumerator\<close>

text \<open>
  \<open>Iterator\<close> and the free functions \<open>begin\<close> and \<open>end\<close>: \<open>begin\<close> resets and moves to the first
  element, \<open>!=\<close> asks whether the end was reached, \<open>*\<close> reads the current element, \<open>++\<close> moves on. The loop
  collects the elements its body sees; its fuel is the number of tests of \<open>!=\<close>.
\<close>

definition Iterator_begin :: "('e \<Rightarrow> 'e) \<Rightarrow> ('e \<Rightarrow> bool \<times> 'e) \<Rightarrow> 'e \<Rightarrow> 'e" where
  "Iterator_begin reset moveNext e = snd (moveNext (reset e))"

fun Iterator_loop ::
  "nat \<Rightarrow> ('e \<Rightarrow> bool \<times> 'e) \<Rightarrow> ('e \<Rightarrow> exn + 'a) \<Rightarrow> ('e \<Rightarrow> bool) \<Rightarrow> 'e \<Rightarrow> ((exn + 'a list) \<times> 'e) option" where
  "Iterator_loop 0 moveNext current endReached e = None"
| "Iterator_loop (Suc n) moveNext current endReached e =
     (if endReached e then Some (Inr [], e)
      else case current e of
          Inl x \<Rightarrow> Some (Inl x, e)
        | Inr v \<Rightarrow>
            (case Iterator_loop n moveNext current endReached (snd (moveNext e)) of
               None \<Rightarrow> None
             | Some (Inl x, e') \<Rightarrow> Some (Inl x, e')
             | Some (Inr vs, e') \<Rightarrow> Some (Inr (v # vs), e')))"

text \<open>
  The contract of an enumerator in a loop: \<open>ahead\<close> lists what is still in front of the
  position, \<open>good\<close> is its well-formedness. Moving steps over the first element ahead, which \<open>current\<close>
  then reads, and reports the end when nothing is ahead.
\<close>

locale enumerator =
  fixes reset :: "'e \<Rightarrow> 'e" and moveNext :: "'e \<Rightarrow> bool \<times> 'e"
    and current :: "'e \<Rightarrow> exn + 'a" and endReached :: "'e \<Rightarrow> bool"
    and good :: "'e \<Rightarrow> bool" and ahead :: "'e \<Rightarrow> 'a list"
  assumes reset_good: "good e \<Longrightarrow> good (reset e) \<and> \<not> endReached (reset e)"
    and move_more: "good e \<Longrightarrow> \<not> endReached e \<Longrightarrow> ahead e = x # xs \<Longrightarrow>
          \<exists>e'. moveNext e = (True, e') \<and> good e' \<and> \<not> endReached e' \<and> ahead e' = xs \<and> current e' = Inr x"
    and move_end: "good e \<Longrightarrow> ahead e = [] \<Longrightarrow>
          \<exists>e'. moveNext e = (False, e') \<and> good e' \<and> endReached e'"
begin

lemma loop_from:
  assumes "good e" and "\<not> endReached e" and "length (ahead e) < n"
  shows "\<exists>e'. Iterator_loop n moveNext current endReached (snd (moveNext e)) = Some (Inr (ahead e), e')
    \<and> good e' \<and> endReached e'"
  using assms
proof (induction "ahead e" arbitrary: e n)
  case Nil
  then obtain k where "n = Suc k" by (cases n) auto
  with Nil move_end [of e] show ?case by auto
next
  case (Cons x xs)
  then obtain k where n: "n = Suc k" by (cases n) auto
  obtain e1 where m: "moveNext e = (True, e1)" and g: "good e1" "\<not> endReached e1"
    and a: "ahead e1 = xs" and c: "current e1 = Inr x"
    using move_more [of e x xs] Cons.prems Cons.hyps(2) by auto
  have "length (ahead e1) < k"
    using Cons.prems Cons.hyps(2) n a by (metis Suc_less_eq length_Cons)
  with Cons.hyps(1) [of e1 k] a g obtain e2
    where "Iterator_loop k moveNext current endReached (snd (moveNext e1)) = Some (Inr xs, e2)"
      and "good e2 \<and> endReached e2"
    by auto
  with n m g c Cons.hyps(2) show ?case by (auto split: option.splits)
qed

text \<open>A loop over an enumerator sees what is ahead of the reset position, and ends.\<close>

lemma loop_complete:
  "good e \<Longrightarrow> length (ahead (reset e)) < n \<Longrightarrow>
   \<exists>e'. Iterator_loop n moveNext current endReached (Iterator_begin reset moveNext e)
          = Some (Inr (ahead (reset e)), e') \<and> good e' \<and> endReached e'"
  using loop_from [of "reset e" n] reset_good [of e] by (auto simp: Iterator_begin_def)

end

text \<open>
  The enumerators of the library over a sequence that does not change meanwhile: what is ahead is the
  rest of the sequence up to the computed size.
\<close>

definition enum_ahead :: "'a list \<Rightarrow> Enumerator \<Rightarrow> 'a list" where
  "enum_ahead seq e = drop (nat (enum_index e + 1)) (take (nat (Enumerator_computeSize seq e)) seq)"

lemma minus_one_less_uint [simp]: "- 1 < uint w"
  by (rule less_le_trans [OF _ uint_ge_0]) simp

definition enum_good :: "'a list \<Rightarrow> Enumerator \<Rightarrow> bool" where
  "enum_good seq e \<longleftrightarrow> -1 \<le> enum_index e \<and> Enumerator_computeSize seq e \<le> int (length seq)"

lemma enum_ahead_Nil_iff:
  "enum_good seq e \<Longrightarrow> enum_ahead seq e = [] \<longleftrightarrow> \<not> enum_index e < Enumerator_computeSize seq e - 1"
    unfolding enum_ahead_def enum_good_def by (auto simp del: Enumerator_computeSize.simps simp: min_def nat_le_iff)

lemma enum_ahead_Cons:
  assumes "enum_good seq e" and "enum_index e < Enumerator_computeSize seq e - 1"
  shows "enum_ahead seq e = seq ! nat (enum_index e + 1) # enum_ahead seq (e\<lparr>enum_index := enum_index e + 1\<rparr>)"
proof -
  let ?t = "take (nat (Enumerator_computeSize seq e)) seq"
  have i: "nat (enum_index e + 1) < length ?t"
    using assms by (auto simp: enum_good_def nat_less_eq_zless split: option.splits prod.splits)
  have "nat (enum_index e + 1 + 1) = Suc (nat (enum_index e + 1))"
    using assms by (simp add: enum_good_def Suc_nat_eq_nat_zadd1 del: Enumerator_computeSize.simps)
  moreover have "Enumerator_computeSize seq (e\<lparr>enum_index := enum_index e + 1\<rparr>) = Enumerator_computeSize seq e"
    by simp
  ultimately show ?thesis
    using Cons_nth_drop_Suc [OF i] i unfolding enum_ahead_def
    by (metis Enumerator.select_convs(1) Enumerator.surjective Enumerator.update_convs(1) nth_take length_take
        min_less_iff_conj)
qed

interpretation enums: enumerator Enumerator_reset "Enumerator_moveNext seq" "Enumerator_current seq"
  Enumerator_endReached "enum_good seq" "enum_ahead seq" for seq :: "'a list"
proof
  fix e :: Enumerator and x :: 'a and xs
  show "enum_good seq (Enumerator_reset e) \<and> \<not> Enumerator_endReached (Enumerator_reset e)"
    if "enum_good seq e"
    using that by (auto simp: enum_good_def Enumerator_reset_def Enumerator_endReached_def split: option.splits)
  show "\<exists>e'. Enumerator_moveNext seq e = (True, e') \<and> enum_good seq e' \<and> \<not> Enumerator_endReached e' \<and>
           enum_ahead seq e' = xs \<and> Enumerator_current seq e' = Inr x"
    if g: "enum_good seq e" and r: "\<not> Enumerator_endReached e" and a: "enum_ahead seq e = x # xs"
  proof -
    have lt: "enum_index e < Enumerator_computeSize seq e - 1"
      using enum_ahead_Nil_iff [OF g] a by simp
    with enum_ahead_Cons [OF g] a g r show ?thesis
      by (auto simp: Enumerator_moveNext_def enum_good_def Enumerator_endReached_def Enumerator_current_def
          split: option.splits)
  qed
  show "\<exists>e'. Enumerator_moveNext seq e = (False, e') \<and> enum_good seq e' \<and> Enumerator_endReached e'"
    if g: "enum_good seq e" and a: "enum_ahead seq e = []"
    using enum_ahead_Nil_iff [OF g] a g
    by (auto simp: Enumerator_moveNext_def enum_good_def Enumerator_endReached_def split: option.splits)
qed

section \<open>Properties\<close>

text \<open>
  A loop over a collection sees every element once, in the order of the sequence, from
  whatever position the enumerator is in, and ends: one test more than there are elements is enough.
\<close>

theorem enumeration_complete:
  assumes "enum_block e = None" and "-1 \<le> enum_index e" and "length seq < n"
  shows "\<exists>e'. Iterator_loop n (Enumerator_moveNext seq) (Enumerator_current seq) Enumerator_endReached
     (Iterator_begin Enumerator_reset (Enumerator_moveNext seq) e) = Some (Inr seq, e') \<and> Enumerator_endReached e'"
proof -
  have "enum_good seq e" and "enum_ahead seq (Enumerator_reset e) = seq"
    using assms by (auto simp: enum_good_def enum_ahead_def Enumerator_reset_def)
  with enums.loop_complete [of seq e n] assms(3) show ?thesis by auto
qed

theorem enumeration_complete_witness:
  "\<exists>e'. Iterator_loop 4 (Enumerator_moveNext ''abc'') (Enumerator_current ''abc'') Enumerator_endReached
     (Iterator_begin Enumerator_reset (Enumerator_moveNext ''abc'') Enumerator_init) = Some (Inr ''abc'', e')
     \<and> Enumerator_endReached e'"
  by (rule enumeration_complete) (simp_all add: Enumerator_init_def)

lemma wrapped_sum:
  fixes a b m :: int
  assumes "a < m" and "b < m" and "0 \<le> a" and "0 \<le> b"
  shows "(a + b) mod m = (if a + b < m then a + b else a + b - m)"
proof (cases "a + b < m")
  case False
  then have "(a + b - m) mod m = a + b - m"
    using assms by (intro mod_pos_pos_trivial) auto
  with False show ?thesis by simp
qed (use assms in simp)

text \<open>
  Property C32. A block enumerator is refused when its block ends after the last element and otherwise
  enumerates the block, but only when the end of the block fits \<open>uint32_t\<close>: when the sum of offset and size
  wraps, the block is accepted as long as the wrapped end fits, and the loop sees no element.
\<close>

theorem block_enumeration:
  "case BlockEnumerator_init seq offset chunk of
     Inl x \<Rightarrow> x = Out_of_range ''offset + size > sequence size''
       \<and> int (length seq) < (uint offset + uint chunk) mod 2 ^ 32
   | Inr e \<Rightarrow> (uint offset + uint chunk) mod 2 ^ 32 \<le> int (length seq) \<and>
       (\<exists>e'. Iterator_loop (Suc (length seq)) (Enumerator_moveNext seq) (Enumerator_current seq) Enumerator_endReached
          (Iterator_begin Enumerator_reset (Enumerator_moveNext seq) e) =
          Some (Inr (if uint offset + uint chunk < 2 ^ 32 then take (unat chunk) (drop (unat offset) seq) else []), e'))"
proof -
  have wrap: "uint (offset + chunk) = (uint offset + uint chunk) mod 2 ^ 32"
    by (simp add: uint_word_ariths)
  show ?thesis
  proof (cases "length seq < unat (offset + chunk)")
    case True
    then have "int (length seq) < uint (offset + chunk)" by (metis of_nat_less_iff uint_nat)
    then show ?thesis using True wrap by (simp add: BlockEnumerator_init_def)
  next
    case False
    define e where "e = \<lparr>enum_index = uint offset - 1, enum_endReached = False,
      enum_block = Some (offset, offset + chunk)\<rparr>"
    have init: "BlockEnumerator_init seq offset chunk = Inr e"
      using False by (simp add: BlockEnumerator_init_def e_def)
    have fits: "uint (offset + chunk) \<le> int (length seq)"
      using False by (metis not_less of_nat_le_iff uint_nat)
    then have good: "enum_good seq e" by (simp add: enum_good_def e_def)
    have size: "uint (offset + chunk) = (if uint offset + uint chunk < 2 ^ 32 then uint offset + uint chunk
        else uint offset + uint chunk - 2 ^ 32)"
      using wrap wrapped_sum [OF uint_lt2p [of offset] uint_lt2p [of chunk] uint_ge_0 uint_ge_0] by simp
    have u: "nat (uint offset + uint chunk) = unat offset + unat chunk"
      by (simp add: nat_add_distrib)
    have ahead: "enum_ahead seq (Enumerator_reset e) =
      (if uint offset + uint chunk < 2 ^ 32 then take (unat chunk) (drop (unat offset) seq) else [])"
    proof (cases "uint offset + uint chunk < 2 ^ 32")
      case True
      then show ?thesis using size u
        by (simp add: enum_ahead_def Enumerator_reset_def e_def take_drop add.commute)
    next
      case False
      then have "uint (offset + chunk) \<le> uint offset"
        using size uint_lt2p [of chunk] by auto
      then show ?thesis using False
        by (simp add: enum_ahead_def Enumerator_reset_def e_def) (simp flip: nat_uint_eq add: nat_mono min.coboundedI2)
    qed
    have "length (enum_ahead seq (Enumerator_reset e)) < Suc (length seq)"
      by (simp add: enum_ahead_def less_Suc_eq_le)
    from enums.loop_complete [OF good this] show ?thesis
      using init fits wrap ahead by (auto simp: ahead)
  qed
qed

text \<open>
  \<open>remove\<close> takes out every occurrence of a value, keeps the others in order and tells whether there
  was one; a value is contained exactly when it was added and not removed or cleared since. Assigning to a collection
  leaves it as it was: the operator returns a copy of its argument instead.
\<close>

theorem collection_operations:
  "(case Collection_remove v seq of (found, seq') \<Rightarrow>
      (found \<longleftrightarrow> Collection_contains v seq) \<and> seq' = filter (\<lambda>x. x \<noteq> v) seq \<and> \<not> Collection_contains v seq') \<and>
   (Collection_contains w (Collection_add v seq) \<longleftrightarrow> w = v \<or> Collection_contains w seq) \<and>
   (fst (Collection_remove v (Collection_add v seq))) \<and>
   \<not> Collection_contains v (Collection_clear seq) \<and>
   Collection_size (Collection_add v seq) = Collection_size seq + 1 \<and>
   Collection_assign seq other = (seq, other)"
  by (auto simp: Collection_remove_def Collection_add_def Collection_clear_def Collection_size_def
      Collection_assign_def intro: filter_True [symmetric])

end
