(* ===== verification/Xpcf_Metadata.thy ===== *)
theory Xpcf_Metadata
  imports Xpcf_Collections Xpcf_PathBuilder Xpcf_Xml
begin

text \<open>
  The metadata of interfaces, components, modules and injectables: \<^verbatim>\<open>src/InterfaceMetadata.cpp\<close>,
  \<^verbatim>\<open>src/ComponentMetadata.cpp\<close>, \<^verbatim>\<open>src/ModuleMetadata.cpp\<close> and \<^verbatim>\<open>src/InjectableMetadata.cpp\<close>. The derived
  classes extend the record of their base. A shared pointer to a \<open>ComponentMetadata\<close> is an address:
  modules, the registry and its clients hold the same object, and add to it through any of them.
\<close>

section \<open>Interfaces\<close>

record InterfaceMetadata =
  md_name :: string
  md_description :: string
  md_uuid :: uuid

text \<open>The strings of the constructors are C strings; a null one is undefined behaviour.\<close>

definition newInterfaceMetadata :: "string option \<Rightarrow> uuid \<Rightarrow> string option \<Rightarrow> exn + InterfaceMetadata" where
  "newInterfaceMetadata name u description =
     (case (name, description) of
        (Some n, Some d) \<Rightarrow> Inr \<lparr>md_name = n, md_description = d, md_uuid = u\<rparr>
      | _ \<Rightarrow> Inl Undefined_behaviour)"

text \<open>
  The constructor from a textual identifier leaves \<open>m_uuid\<close> as its default constructor made it when
  the pointer is null; that value is the parameter \<open>uuid0\<close>.
\<close>

definition newInterfaceMetadata_text ::
  "(string \<Rightarrow> uuid option) \<Rightarrow> uuid \<Rightarrow> string option \<Rightarrow> string option \<Rightarrow> string option \<Rightarrow> exn + InterfaceMetadata" where
  "newInterfaceMetadata_text gen uuid0 name interfaceUUID description =
     (case newInterfaceMetadata name uuid0 description of
        Inl e \<Rightarrow> Inl e
      | Inr m \<Rightarrow>
          (case interfaceUUID of
             None \<Rightarrow> Inr m
           | Some t \<Rightarrow> (case toUUID gen t of Inl e \<Rightarrow> Inl e | Inr u \<Rightarrow> Inr (m\<lparr>md_uuid := u\<rparr>))))"

definition InterfaceMetadata_assign :: "'a InterfaceMetadata_scheme \<Rightarrow> 'b InterfaceMetadata_scheme \<Rightarrow> 'b InterfaceMetadata_scheme" where
  "InterfaceMetadata_assign other self =
     self\<lparr>md_description := md_description other, md_name := md_name other, md_uuid := md_uuid other\<rparr>"

definition InterfaceMetadata_eq :: "'a InterfaceMetadata_scheme \<Rightarrow> 'b InterfaceMetadata_scheme \<Rightarrow> bool" where
  "InterfaceMetadata_eq self c \<longleftrightarrow>
     md_description c = md_description self \<and> md_uuid c = md_uuid self \<and> md_name c = md_name self"

section \<open>Components\<close>

record ComponentMetadata = InterfaceMetadata +
  cm_interfaceUUIDs :: "uuid list"

definition newComponentMetadata :: "string option \<Rightarrow> uuid \<Rightarrow> string option \<Rightarrow> exn + ComponentMetadata" where
  "newComponentMetadata name u description =
     (case newInterfaceMetadata name u description of
        Inl e \<Rightarrow> Inl e
      | Inr m \<Rightarrow> Inr (InterfaceMetadata.extend m (ComponentMetadata.fields [])))"

definition newComponentMetadata_text ::
  "(string \<Rightarrow> uuid option) \<Rightarrow> uuid \<Rightarrow> string option \<Rightarrow> string option \<Rightarrow> string option \<Rightarrow> exn + ComponentMetadata" where
  "newComponentMetadata_text gen uuid0 name componentID description =
     (case newInterfaceMetadata_text gen uuid0 name componentID description of
        Inl e \<Rightarrow> Inl e
      | Inr m \<Rightarrow> Inr (InterfaceMetadata.extend m (ComponentMetadata.fields [])))"

definition ComponentMetadata_addInterface :: "uuid \<Rightarrow> ComponentMetadata \<Rightarrow> ComponentMetadata" where
  "ComponentMetadata_addInterface u c = c\<lparr>cm_interfaceUUIDs := Collection_add u (cm_interfaceUUIDs c)\<rparr>"

definition ComponentMetadata_assign :: "ComponentMetadata \<Rightarrow> ComponentMetadata \<Rightarrow> ComponentMetadata" where
  "ComponentMetadata_assign copy self =
     (let self = InterfaceMetadata_assign copy self;
          self = self\<lparr>cm_interfaceUUIDs := Collection_clear (cm_interfaceUUIDs self)\<rparr>
      in fold ComponentMetadata_addInterface (cm_interfaceUUIDs copy) self)"

definition ComponentMetadata_eq :: "ComponentMetadata \<Rightarrow> ComponentMetadata \<Rightarrow> bool" where
  "ComponentMetadata_eq self c \<longleftrightarrow>
     md_description c = md_description self \<and> md_uuid c = md_uuid self \<and> md_name c = md_name self"

section \<open>Modules\<close>

record ModuleMetadata = InterfaceMetadata +
  mm_componentUUIDs :: "uuid list"
  mm_components :: "nat list"
  mm_moduleComponentMap :: "uuid \<rightharpoonup> nat"
  mm_modulePath :: string
  mm_moduleFullPath :: string

definition ModuleMetadata_setPath :: "'a Filesystem_scheme \<Rightarrow> string option \<Rightarrow> ModuleMetadata \<Rightarrow> ModuleMetadata" where
  "ModuleMetadata_setPath fs modulePath m =
     (let m = (case modulePath of Some p \<Rightarrow> m\<lparr>mm_modulePath := p\<rparr> | None \<Rightarrow> m)
      in m\<lparr>mm_moduleFullPath := PathBuilder_buildModuleFilePath fs (md_name m) (mm_modulePath m)\<rparr>)"

definition newModuleMetadata ::
  "'a Filesystem_scheme \<Rightarrow> string option \<Rightarrow> uuid \<Rightarrow> string option \<Rightarrow> string option \<Rightarrow> exn + ModuleMetadata" where
  "newModuleMetadata fs name u description modulePath =
     (case newInterfaceMetadata name u description of
        Inl e \<Rightarrow> Inl e
      | Inr m \<Rightarrow> Inr (ModuleMetadata_setPath fs modulePath
                   (InterfaceMetadata.extend m (ModuleMetadata.fields [] [] Map.empty '''' ''''))))"

definition newModuleMetadata_text ::
  "'a Filesystem_scheme \<Rightarrow> (string \<Rightarrow> uuid option) \<Rightarrow> uuid \<Rightarrow> string option \<Rightarrow> string option \<Rightarrow> string option \<Rightarrow> string option
    \<Rightarrow> exn + ModuleMetadata" where
  "newModuleMetadata_text fs gen uuid0 name moduleID description modulePath =
     (case newInterfaceMetadata_text gen uuid0 name moduleID description of
        Inl e \<Rightarrow> Inl e
      | Inr m \<Rightarrow> Inr (ModuleMetadata_setPath fs modulePath
                   (InterfaceMetadata.extend m (ModuleMetadata.fields [] [] Map.empty '''' ''''))))"

text \<open>\<open>addComponent\<close> takes the pointer and reads the identifier of the object it points to.\<close>

definition ModuleMetadata_addComponent :: "nat \<Rightarrow> uuid \<Rightarrow> ModuleMetadata \<Rightarrow> ModuleMetadata" where
  "ModuleMetadata_addComponent componentInfo u m =
     (if mm_moduleComponentMap m u = None
      then m\<lparr>mm_componentUUIDs := Collection_add u (mm_componentUUIDs m),
             mm_moduleComponentMap := (mm_moduleComponentMap m)(u \<mapsto> componentInfo),
             mm_components := Collection_add componentInfo (mm_components m)\<rparr>
      else m)"

definition ModuleMetadata_removeComponent :: "uuid \<Rightarrow> ModuleMetadata \<Rightarrow> ModuleMetadata" where
  "ModuleMetadata_removeComponent u m =
     (case mm_moduleComponentMap m u of
        None \<Rightarrow> m
      | Some componentInfo \<Rightarrow>
          m\<lparr>mm_componentUUIDs := snd (Collection_remove u (mm_componentUUIDs m)),
            mm_components := snd (Collection_remove componentInfo (mm_components m))\<rparr>)"

definition ModuleMetadata_getComponents :: "ModuleMetadata \<Rightarrow> uuid list" where
  "ModuleMetadata_getComponents m = mm_componentUUIDs m"

definition ModuleMetadata_getComponentsMetadata :: "ModuleMetadata \<Rightarrow> nat list" where
  "ModuleMetadata_getComponentsMetadata m = mm_components m"

definition ModuleMetadata_getComponentMetadata :: "uuid \<Rightarrow> ModuleMetadata \<Rightarrow> nat option" where
  "ModuleMetadata_getComponentMetadata u m =
     (if mm_moduleComponentMap m u \<noteq> None then mm_moduleComponentMap m u else None)"

section \<open>Injectables\<close>

record InjectableMetadata =
  inj_serviceUUID :: uuid
  inj_name :: string
  inj_named :: bool
  inj_optional :: bool

definition newInjectableMetadata :: "uuid \<Rightarrow> bool \<Rightarrow> InjectableMetadata" where
  "newInjectableMetadata u opt = \<lparr>inj_serviceUUID = u, inj_name = '''', inj_named = False, inj_optional = opt\<rparr>"

definition newInjectableMetadata_named :: "uuid \<Rightarrow> string \<Rightarrow> bool \<Rightarrow> InjectableMetadata" where
  "newInjectableMetadata_named u name opt =
     (newInjectableMetadata u opt)\<lparr>inj_name := name, inj_named := True\<rparr>"

text \<open>
  An \<open>Injector\<close> wraps one of two functions, the other staying empty. What the functions capture is
  the component that made it, the name, and the interface type they were instantiated
  with; they are modelled by that type, and interpreted by the component.
\<close>

record InterfaceTraits =
  it_type :: string
  it_UUID :: uuid
  it_NAME :: string
  it_DESCRIPTION :: string

record Injector = InjectableMetadata +
  inj_interface :: InterfaceTraits
  inj_isMulti :: bool

definition newInjector :: "InterfaceTraits \<Rightarrow> uuid \<Rightarrow> bool \<Rightarrow> Injector" where
  "newInjector I u opt = InjectableMetadata.extend (newInjectableMetadata u opt) (Injector.fields I False)"

definition newInjector_named :: "InterfaceTraits \<Rightarrow> uuid \<Rightarrow> string \<Rightarrow> bool \<Rightarrow> Injector" where
  "newInjector_named I u name opt =
     InjectableMetadata.extend (newInjectableMetadata_named u name opt) (Injector.fields I False)"

definition newInjector_multi :: "InterfaceTraits \<Rightarrow> uuid \<Rightarrow> bool \<Rightarrow> Injector" where
  "newInjector_multi I u opt = InjectableMetadata.extend (newInjectableMetadata u opt) (Injector.fields I True)"

section \<open>Properties\<close>

text \<open>Every listed component of a module is the one its map gives for the identifier.\<close>

definition module_wf :: "ModuleMetadata \<Rightarrow> bool" where
  "module_wf m \<longleftrightarrow> distinct (mm_componentUUIDs m) \<and>
     map (mm_moduleComponentMap m) (mm_componentUUIDs m) = map Some (mm_components m)"

lemma module_wf_listed: "module_wf m \<Longrightarrow> set (mm_componentUUIDs m) \<subseteq> dom (mm_moduleComponentMap m)"
proof
  fix u assume "module_wf m" and "u \<in> set (mm_componentUUIDs m)"
  then have "mm_moduleComponentMap m u \<in> set (map Some (mm_components m))"
    unfolding module_wf_def by (metis image_eqI list.set_map)
  then show "u \<in> dom (mm_moduleComponentMap m)" by auto
qed

lemma module_wf_new: "module_wf m \<Longrightarrow> mm_moduleComponentMap m u = None \<Longrightarrow> u \<notin> set (mm_componentUUIDs m)"
  using module_wf_listed [of m] by auto

lemma addComponent_wf: "module_wf m \<Longrightarrow> module_wf (ModuleMetadata_addComponent a u m)"
  using module_wf_new [of m u]
  by (cases "mm_moduleComponentMap m u")
     (simp_all add: module_wf_def ModuleMetadata_addComponent_def Collection_add_def)

lemma newModuleMetadata_wf: "newModuleMetadata fs n u d p = Inr m \<Longrightarrow> module_wf m"
  by (auto simp: newModuleMetadata_def module_wf_def ModuleMetadata_setPath_def
      InterfaceMetadata.extend_def ModuleMetadata.fields_def Let_def split: sum.splits option.splits)

text \<open>
  A module lists each component once, in the order of the additions, and finds it by its
  identifier: the first component added under an identifier stays, later ones are ignored. A removed
  component is no longer listed, but the module still finds it and refuses to add it again,
  because its map keeps the entry.
\<close>

theorem module_add_remove:
  assumes wf: "module_wf m"
  shows "module_wf (ModuleMetadata_addComponent a u m) \<and>
     ModuleMetadata_getComponents (ModuleMetadata_addComponent a u m) =
       ModuleMetadata_getComponents m @ (if ModuleMetadata_getComponentMetadata u m = None then [u] else []) \<and>
     ModuleMetadata_getComponentMetadata v (ModuleMetadata_addComponent a u m) =
       (if v = u \<and> ModuleMetadata_getComponentMetadata u m = None then Some a
        else ModuleMetadata_getComponentMetadata v m) \<and>
     u \<notin> set (ModuleMetadata_getComponents (ModuleMetadata_removeComponent u m)) \<and>
     ModuleMetadata_getComponentMetadata v (ModuleMetadata_removeComponent u m) =
       ModuleMetadata_getComponentMetadata v m \<and>
     (ModuleMetadata_getComponentMetadata u m \<noteq> None \<longrightarrow>
        ModuleMetadata_addComponent b u (ModuleMetadata_removeComponent u m) = ModuleMetadata_removeComponent u m)"
proof (intro conjI)
  show "module_wf (ModuleMetadata_addComponent a u m)" by (rule addComponent_wf [OF wf])
  show "u \<notin> set (ModuleMetadata_getComponents (ModuleMetadata_removeComponent u m))"
    using module_wf_new [OF wf, of u]
    by (cases "mm_moduleComponentMap m u")
       (simp_all add: ModuleMetadata_removeComponent_def Collection_remove_def ModuleMetadata_getComponents_def)
qed (simp_all add: ModuleMetadata_addComponent_def ModuleMetadata_removeComponent_def Collection_add_def
      ModuleMetadata_getComponents_def ModuleMetadata_getComponentMetadata_def split: option.splits)

theorem module_add_remove_witness:
  "let m = ModuleMetadata_addComponent 7 1
       \<lparr>md_name = ''m'', md_description = '''', md_uuid = 5, mm_componentUUIDs = [], mm_components = [],
        mm_moduleComponentMap = Map.empty, mm_modulePath = '''', mm_moduleFullPath = ''''\<rparr>
   in ModuleMetadata_getComponents (ModuleMetadata_removeComponent 1 m) = [] \<and>
      ModuleMetadata_addComponent 8 1 (ModuleMetadata_removeComponent 1 m) = ModuleMetadata_removeComponent 1 m \<and>
      ModuleMetadata_getComponentMetadata 1 (ModuleMetadata_removeComponent 1 m) = Some 7"
  unfolding Let_def
  using module_add_remove [of "ModuleMetadata_addComponent 7 1
       \<lparr>md_name = ''m'', md_description = '''', md_uuid = 5, mm_componentUUIDs = [], mm_components = [],
        mm_moduleComponentMap = Map.empty, mm_modulePath = '''', mm_moduleFullPath = ''''\<rparr>" 1 1 1 8]
  by (simp add: module_wf_def ModuleMetadata_addComponent_def Collection_add_def
      ModuleMetadata_getComponents_def ModuleMetadata_removeComponent_def Collection_remove_def
      ModuleMetadata_getComponentMetadata_def)

end
