(* ===== verification/Xpcf_ComponentBase.thy ===== *)
theory Xpcf_ComponentBase
  imports Xpcf_Metadata
begin

text \<open>
  \<^verbatim>\<open>src/ComponentBase.cpp\<close>, the base class of every component, with the templates of
  \<^verbatim>\<open>component/ComponentBase.h\<close>, \<^verbatim>\<open>api/IComponentIntrospect.h\<close> and \<^verbatim>\<open>api/IInjectable.h\<close>: the interfaces a
  component implements, its reference count, and the fields other components are injected into.
  A template instance is the operation with the \<open>InterfaceTraits\<close> of the interface type as argument.
\<close>

section \<open>State\<close>

text \<open>\<open>utils::any\<close> holding a pointer: the type it was made with, and the address. A reference to an interface
  (\<open>SRef<I>\<close>) is the address of the component it keeps alive and the interface pointer.\<close>

record any =
  any_type :: string
  any_addr :: nat

type_synonym SRef = "nat \<times> nat"

text \<open>
  \<open>cb_componentUUID\<close> is \<open>InternalImpl::m_componentUUID\<close>, a reference to the argument of the constructor:
  \<open>None\<close> once that argument is gone. \<open>cb_fields\<close> are the injectable members that hold a reference, by address;
  \<open>cb_collectionFields\<close> those that hold a collection, which is an object of its own in \<open>cb_collections\<close>.
\<close>

record ComponentBase =
  cb_UUID :: uuid
  cb_componentUUID :: "uuid option"
  cb_componentTrait :: "string \<rightharpoonup> string"
  cb_interfaces :: "uuid \<rightharpoonup> InterfaceMetadata \<times> any"
  cb_interfacesUUID :: "uuid list"
  cb_injectablesCollection :: "Injector list"
  cb_injectablesMap :: "uuid \<rightharpoonup> any"
  cb_multiInjectablesMap :: "uuid \<rightharpoonup> any"
  cb_namedInjectablesMap :: "uuid \<times> string \<rightharpoonup> any"
  cb_usageRefCount :: "32 word"
  cb_unloaded :: bool
  cb_fields :: "nat \<Rightarrow> SRef option"
  cb_collectionFields :: "nat \<Rightarrow> nat"
  cb_collections :: "nat \<Rightarrow> SRef list"
  cb_nextCollection :: nat

section \<open>Interfaces\<close>

definition InternalImpl_declareInterface ::
  "uuid \<Rightarrow> any \<Rightarrow> string option \<Rightarrow> string option \<Rightarrow> (ComponentBase, exn, unit) eff" where
  "InternalImpl_declareInterface interfaceUUID componentThis name description =
     bind_eff (gets_eff cb_interfaces) (\<lambda>m_interfaces.
     if \<not> mapContains m_interfaces interfaceUUID
     then bind_eff (lift_eff (newInterfaceMetadata name interfaceUUID description)) (\<lambda>data.
          modify_eff (\<lambda>c. c\<lparr>cb_interfaces := (cb_interfaces c)(interfaceUUID \<mapsto> (data, componentThis)),
             cb_interfacesUUID := Collection_add interfaceUUID (cb_interfacesUUID c)\<rparr>))
     else return_eff ())"

definition ComponentBase_declareInterface :: "InterfaceTraits \<Rightarrow> nat \<Rightarrow> (ComponentBase, exn, unit) eff" where
  "ComponentBase_declareInterface T this =
     InternalImpl_declareInterface (it_UUID T) \<lparr>any_type = it_type T, any_addr = this\<rparr>
       (Some (it_NAME T)) (Some (it_DESCRIPTION T))"

definition ComponentBase_queryInterface_any ::
  "(uuid \<Rightarrow> string) \<Rightarrow> uuid \<Rightarrow> (ComponentBase, exn, any) eff" where
  "ComponentBase_queryInterface_any to_string interfaceUUID =
     bind_eff (gets_eff (\<lambda>c. c)) (\<lambda>c.
       case cb_interfaces c interfaceUUID of
         Some (_, component) \<Rightarrow> return_eff component
       | None \<Rightarrow>
           (case cb_componentUUID c of
              None \<Rightarrow> throw_eff Undefined_behaviour
            | Some cu \<Rightarrow> throw_eff (InterfaceNotImplementedException_uuid to_string cu interfaceUUID)))"

definition ComponentBase_implements :: "uuid \<Rightarrow> ComponentBase \<Rightarrow> bool" where
  "ComponentBase_implements u c \<longleftrightarrow> mapContains (cb_interfaces c) u"

definition ComponentBase_getMetadata :: "uuid \<Rightarrow> ComponentBase \<Rightarrow> exn + InterfaceMetadata" where
  "ComponentBase_getMetadata u c =
     (case cb_interfaces c u of
        None \<Rightarrow> Inl (exception_of_char_text InterfaceNotImplementedException ''Interface not found'')
      | Some (m, _) \<Rightarrow> Inr m)"

definition ComponentBase_getDescription :: "uuid \<Rightarrow> ComponentBase \<Rightarrow> exn + string" where
  "ComponentBase_getDescription u c = map_sum id md_description (ComponentBase_getMetadata u c)"

definition ComponentBase_getInterfaces :: "ComponentBase \<Rightarrow> uuid list" where
  "ComponentBase_getInterfaces c = cb_interfacesUUID c"

definition ComponentBase_getNbInterfaces :: "ComponentBase \<Rightarrow> 32 word" where
  "ComponentBase_getNbInterfaces c = Collection_size (cb_interfacesUUID c)"

section \<open>References\<close>

definition ComponentBase_addComponentRef :: "(ComponentBase, exn, unit) eff" where
  "ComponentBase_addComponentRef = modify_eff (\<lambda>c. c\<lparr>cb_usageRefCount := cb_usageRefCount c + 1\<rparr>)"

text \<open>\<open>unloadComponent\<close> is what \<open>XPCF_DEFINE_FACTORY_CREATE_INSTANCE\<close> defines: the component is deleted.\<close>

definition ComponentBase_unloadComponent :: "(ComponentBase, exn, unit) eff" where
  "ComponentBase_unloadComponent = modify_eff (\<lambda>c. c\<lparr>cb_unloaded := True\<rparr>)"

definition ComponentBase_releaseComponentRef :: "(ComponentBase, exn, unit) eff" where
  "ComponentBase_releaseComponentRef =
     seq_eff (modify_eff (\<lambda>c. c\<lparr>cb_usageRefCount := cb_usageRefCount c - 1\<rparr>))
       (bind_eff (gets_eff cb_usageRefCount) (\<lambda>n.
          if n = 0 then ComponentBase_unloadComponent else return_eff ()))"

text \<open>A new reference: the counter is incremented when it is made and decremented when its last copy goes.\<close>

definition acquireComponentRef :: "nat \<Rightarrow> nat \<Rightarrow> (ComponentBase, exn, SRef) eff" where
  "acquireComponentRef self p = seq_eff ComponentBase_addComponentRef (return_eff (self, p))"

definition IComponentIntrospect_queryInterface ::
  "(uuid \<Rightarrow> string) \<Rightarrow> nat \<Rightarrow> InterfaceTraits \<Rightarrow> uuid \<Rightarrow> (ComponentBase, exn, SRef) eff" where
  "IComponentIntrospect_queryInterface to_string self I interfaceUUID =
     bind_eff (ComponentBase_queryInterface_any to_string interfaceUUID) (\<lambda>obj.
       if any_type obj = it_type I then acquireComponentRef self (any_addr obj)
       else throw_eff Bad_any_cast)"

definition IComponentIntrospect_bindTo ::
  "(uuid \<Rightarrow> string) \<Rightarrow> nat \<Rightarrow> InterfaceTraits \<Rightarrow> (ComponentBase, exn, SRef) eff" where
  "IComponentIntrospect_bindTo to_string self I =
     IComponentIntrospect_queryInterface to_string self I (it_UUID I)"

section \<open>Construction\<close>

definition IComponentIntrospect :: InterfaceTraits where
  "IComponentIntrospect =
     \<lparr>it_type = ''IComponentIntrospect'', it_UUID = 0x125f20071bf9421d9367fbdc1210d006,
      it_NAME = ''XPCF::IComponentIntrospect'',
      it_DESCRIPTION = ''Component introspection interface.'' @ [CHR 0x0A] @ ''Provides:'' @ [CHR 0x0A]
        @ ''- browsing of component interfaces'' @ [CHR 0x27, CHR 0x0A]
        @ ''- component binding to its implemented interfaces''\<rparr>"

definition IInjectable :: InterfaceTraits where
  "IInjectable =
     \<lparr>it_type = ''IInjectable'', it_UUID = 0x6C5B9EDCC78B47FD8CB22BF8D7EDE4EA,
      it_NAME = ''XPCF::IInjectable'', it_DESCRIPTION = ''Provides dependency injection interface''\<rparr>"

text \<open>
  The constructor. \<open>live\<close> tells whether the argument outlives the call: a named object does, the
  result of \<open>toUUID\<close> passed directly does not.
\<close>

definition newComponentBase :: "nat \<Rightarrow> bool \<Rightarrow> uuid \<Rightarrow> (exn + unit) \<times> ComponentBase" where
  "newComponentBase this live u =
     seq_eff (ComponentBase_declareInterface IComponentIntrospect this)
       (ComponentBase_declareInterface IInjectable this)
       \<lparr>cb_UUID = u, cb_componentUUID = (if live then Some u else None), cb_componentTrait = Map.empty,
        cb_interfaces = Map.empty, cb_interfacesUUID = [], cb_injectablesCollection = [],
        cb_injectablesMap = Map.empty, cb_multiInjectablesMap = Map.empty, cb_namedInjectablesMap = Map.empty,
        cb_usageRefCount = 0, cb_unloaded = False, cb_fields = (\<lambda>_. None), cb_collectionFields = (\<lambda>_. 0),
        cb_collections = (\<lambda>_. []), cb_nextCollection = 1\<rparr>"

definition newComponentBase_trait ::
  "(string \<Rightarrow> uuid option) \<Rightarrow> nat \<Rightarrow> (string \<rightharpoonup> string) \<Rightarrow> exn + ComponentBase" where
  "newComponentBase_trait gen this trait =
     (case trait ''UUID'' of
        None \<Rightarrow> Inl (Out_of_range ''map::at'')
      | Some t \<Rightarrow>
          (case toUUID gen t of
             Inl e \<Rightarrow> Inl e
           | Inr u \<Rightarrow>
               (case newComponentBase this False u of
                  (Inl e, _) \<Rightarrow> Inl e
                | (Inr _, c) \<Rightarrow> Inr (c\<lparr>cb_componentTrait := trait\<rparr>))))"

section \<open>Injectables\<close>

definition declaration_error :: "(uuid \<Rightarrow> string) \<Rightarrow> Injector \<Rightarrow> exn" where
  "declaration_error to_string i =
     InjectionException_metadata to_string InjectableDeclarationException (inj_serviceUUID i)
       (if inj_named i then Some (inj_name i) else None) ERROR_INJECTABLE_ALREADY_DECLARED"

definition ComponentBase_declareInjectable_named ::
  "(uuid \<Rightarrow> string) \<Rightarrow> InterfaceTraits \<Rightarrow> nat \<Rightarrow> string \<Rightarrow> bool \<Rightarrow> (ComponentBase, exn, unit) eff" where
  "ComponentBase_declareInjectable_named to_string I injectable instanceName opt =
     (let key = (it_UUID I, instanceName);
          injMdata = newInjector_named I (it_UUID I) instanceName opt in
      bind_eff (gets_eff cb_namedInjectablesMap) (\<lambda>m.
        if mapContains m key then throw_eff (declaration_error to_string injMdata)
        else modify_eff (\<lambda>c. c\<lparr>cb_namedInjectablesMap := m(key \<mapsto> \<lparr>any_type = it_type I, any_addr = injectable\<rparr>),
               cb_injectablesCollection := Collection_add injMdata (cb_injectablesCollection c)\<rparr>)))"

definition ComponentBase_declareInjectable ::
  "(uuid \<Rightarrow> string) \<Rightarrow> InterfaceTraits \<Rightarrow> nat \<Rightarrow> bool \<Rightarrow> (ComponentBase, exn, unit) eff" where
  "ComponentBase_declareInjectable to_string I injectable opt =
     (let injMdata = newInjector I (it_UUID I) opt in
      bind_eff (gets_eff cb_injectablesMap) (\<lambda>m.
        if mapContains m (it_UUID I) then throw_eff (declaration_error to_string injMdata)
        else modify_eff (\<lambda>c. c\<lparr>cb_injectablesMap := m(it_UUID I \<mapsto> \<lparr>any_type = it_type I, any_addr = injectable\<rparr>),
               cb_injectablesCollection := Collection_add injMdata (cb_injectablesCollection c)\<rparr>)))"

text \<open>
  The collection variant makes a new empty collection before it declares the field; what it declares is
  the collection, not the field.
\<close>

definition ComponentBase_declareMultiInjectable ::
  "(uuid \<Rightarrow> string) \<Rightarrow> InterfaceTraits \<Rightarrow> nat \<Rightarrow> bool \<Rightarrow> (ComponentBase, exn, unit) eff" where
  "ComponentBase_declareMultiInjectable to_string I injectable opt =
     bind_eff (gets_eff cb_nextCollection) (\<lambda>new.
     seq_eff (modify_eff (\<lambda>c. c\<lparr>cb_collections := (cb_collections c)(new := []), cb_nextCollection := Suc new,
                cb_collectionFields := (cb_collectionFields c)(injectable := new)\<rparr>))
      (let injMdata = newInjector_multi I (it_UUID I) opt in
      bind_eff (gets_eff cb_multiInjectablesMap) (\<lambda>m.
        if mapContains m (it_UUID I) then throw_eff (declaration_error to_string injMdata)
        else modify_eff (\<lambda>c. c\<lparr>cb_multiInjectablesMap := m(it_UUID I \<mapsto> \<lparr>any_type = it_type I, any_addr = new\<rparr>),
               cb_injectablesCollection := Collection_add injMdata (cb_injectablesCollection c)\<rparr>))))"

definition ComponentBase_retrieveInjectable ::
  "(uuid \<Rightarrow> string) \<Rightarrow> uuid \<Rightarrow> (ComponentBase, exn, any) eff" where
  "ComponentBase_retrieveInjectable to_string u =
     bind_eff (gets_eff cb_injectablesMap) (\<lambda>m. case m u of
        None \<Rightarrow> throw_eff (InjectionException_metadata to_string InjectionException u None ERROR_INJECTABLE_UNKNOWN)
      | Some a \<Rightarrow> return_eff a)"

definition ComponentBase_retrieveInjectable_named ::
  "(uuid \<Rightarrow> string) \<Rightarrow> uuid \<Rightarrow> string \<Rightarrow> (ComponentBase, exn, any) eff" where
  "ComponentBase_retrieveInjectable_named to_string u name =
     bind_eff (gets_eff cb_namedInjectablesMap) (\<lambda>m. case m (u, name) of
        None \<Rightarrow> throw_eff (InjectionException_metadata to_string InjectionException u (Some name) ERROR_INJECTABLE_UNKNOWN)
      | Some a \<Rightarrow> return_eff a)"

definition ComponentBase_retrieveMultiInjectable ::
  "(uuid \<Rightarrow> string) \<Rightarrow> uuid \<Rightarrow> (ComponentBase, exn, any) eff" where
  "ComponentBase_retrieveMultiInjectable to_string u =
     bind_eff (gets_eff cb_multiInjectablesMap) (\<lambda>m. case m u of
        None \<Rightarrow> throw_eff (InjectionException_metadata to_string InjectionException u None ERROR_INJECTABLE_UNKNOWN)
      | Some a \<Rightarrow> return_eff a)"

definition ComponentBase_injectExists :: "uuid \<Rightarrow> ComponentBase \<Rightarrow> bool" where
  "ComponentBase_injectExists u c \<longleftrightarrow> mapContains (cb_injectablesMap c) u"

definition ComponentBase_injectExists_named :: "uuid \<Rightarrow> string \<Rightarrow> ComponentBase \<Rightarrow> bool" where
  "ComponentBase_injectExists_named u name c \<longleftrightarrow> mapContains (cb_namedInjectablesMap c) (u, name)"

definition ComponentBase_getInjectables :: "ComponentBase \<Rightarrow> Injector list" where
  "ComponentBase_getInjectables c = cb_injectablesCollection c"

text \<open>\<open>inject\<close> writes a reference into the field, or adds to the collection; the field is found by the interface.\<close>

definition IInjectable_inject :: "(uuid \<Rightarrow> string) \<Rightarrow> InterfaceTraits \<Rightarrow> SRef \<Rightarrow> (ComponentBase, exn, unit) eff" where
  "IInjectable_inject to_string I instance_ref =
     bind_eff (ComponentBase_retrieveInjectable to_string (it_UUID I)) (\<lambda>obj.
       if any_type obj \<noteq> it_type I then throw_eff Bad_any_cast
       else modify_eff (\<lambda>c. c\<lparr>cb_fields := (cb_fields c)(any_addr obj := Some instance_ref)\<rparr>))"

definition IInjectable_inject_named ::
  "(uuid \<Rightarrow> string) \<Rightarrow> InterfaceTraits \<Rightarrow> SRef \<Rightarrow> string \<Rightarrow> (ComponentBase, exn, unit) eff" where
  "IInjectable_inject_named to_string I instance_ref name =
     bind_eff (ComponentBase_retrieveInjectable_named to_string (it_UUID I) name) (\<lambda>obj.
       if any_type obj \<noteq> it_type I then throw_eff Bad_any_cast
       else modify_eff (\<lambda>c. c\<lparr>cb_fields := (cb_fields c)(any_addr obj := Some instance_ref)\<rparr>))"

section \<open>Objects\<close>

text \<open>
  Components live at addresses. A call on a component runs its operation on the object at the address; there
  is none for a null reference.
\<close>

type_synonym Objects = "nat \<rightharpoonup> ComponentBase"

definition on_component :: "nat \<Rightarrow> (ComponentBase, exn, 'a) eff \<Rightarrow> (Objects, exn, 'a) eff" where
  "on_component a m = (\<lambda>objs. case objs a of
     None \<Rightarrow> (Inl Undefined_behaviour, objs)
   | Some c \<Rightarrow> (case m c of (r, c') \<Rightarrow> (r, objs(a \<mapsto> c'))))"

definition bindTo :: "(uuid \<Rightarrow> string) \<Rightarrow> InterfaceTraits \<Rightarrow> nat \<Rightarrow> (Objects, exn, SRef) eff" where
  "bindTo to_string I a = on_component a (IComponentIntrospect_bindTo to_string a I)"

text \<open>
  \<open>inject\<close> of a collection adds every instance, bound to the interface; it gives up without a word when
  the field already holds more elements than there are instances.
\<close>

definition IInjectable_inject_all ::
  "(uuid \<Rightarrow> string) \<Rightarrow> nat \<Rightarrow> InterfaceTraits \<Rightarrow> nat list \<Rightarrow> (Objects, exn, unit) eff" where
  "IInjectable_inject_all to_string self I instances =
     bind_eff (on_component self (ComponentBase_retrieveMultiInjectable to_string (it_UUID I))) (\<lambda>objSet.
       if any_type objSet \<noteq> it_type I then throw_eff Bad_any_cast
       else bind_eff (on_component self (gets_eff (\<lambda>c. cb_collections c (any_addr objSet)))) (\<lambda>injectableSet.
         if Collection_size injectableSet > Collection_size instances then return_eff ()
         else for_eff (\<lambda>i. bind_eff (bindTo to_string I i) (\<lambda>ref.
                on_component self (modify_eff (\<lambda>c. c\<lparr>cb_collections := (cb_collections c)
                  (any_addr objSet := Collection_add ref (cb_collections c (any_addr objSet)))\<rparr>)))) instances))"

text \<open>
  \<open>Injector::inject\<close> calls the function it was made with: the one of the other kind is empty, and
  calling it throws \<open>std::bad_function_call\<close>.
\<close>

definition Injector_inject :: "(uuid \<Rightarrow> string) \<Rightarrow> nat \<Rightarrow> Injector \<Rightarrow> nat \<Rightarrow> (Objects, exn, unit) eff" where
  "Injector_inject to_string self i inst =
     (if inj_isMulti i then throw_eff Bad_function_call
      else bind_eff (bindTo to_string (inj_interface i) inst) (\<lambda>ref.
        on_component self
          (if inj_named i then IInjectable_inject_named to_string (inj_interface i) ref (inj_name i)
           else IInjectable_inject to_string (inj_interface i) ref)))"

definition Injector_inject_all :: "(uuid \<Rightarrow> string) \<Rightarrow> nat \<Rightarrow> Injector \<Rightarrow> nat list \<Rightarrow> (Objects, exn, unit) eff" where
  "Injector_inject_all to_string self i instances =
     (if \<not> inj_isMulti i then throw_eff Bad_function_call
      else IInjectable_inject_all to_string self (inj_interface i) instances)"

section \<open>Properties\<close>

lemmas component_defs =
  InternalImpl_declareInterface_def ComponentBase_declareInterface_def ComponentBase_queryInterface_any_def
  IComponentIntrospect_queryInterface_def IComponentIntrospect_bindTo_def acquireComponentRef_def
  ComponentBase_addComponentRef_def newInterfaceMetadata_def

text \<open>The interfaces listed are those the map holds, each once.\<close>

definition component_wf :: "ComponentBase \<Rightarrow> bool" where
  "component_wf c \<longleftrightarrow> distinct (cb_interfacesUUID c) \<and> set (cb_interfacesUUID c) = dom (cb_interfaces c)"

lemma declareInterface_run:
  "ComponentBase_declareInterface T this c =
     (Inr (), if it_UUID T \<in> dom (cb_interfaces c) then c
      else c\<lparr>cb_interfaces := (cb_interfaces c)(it_UUID T \<mapsto>
               (\<lparr>md_name = it_NAME T, md_description = it_DESCRIPTION T, md_uuid = it_UUID T\<rparr>,
                \<lparr>any_type = it_type T, any_addr = this\<rparr>)),
             cb_interfacesUUID := cb_interfacesUUID c @ [it_UUID T]\<rparr>)"
  by (auto simp: component_defs eff_simps Collection_add_def)

lemma declareInterface_wf: "component_wf c \<Longrightarrow> component_wf (snd (ComponentBase_declareInterface T this c))"
  by (auto simp: declareInterface_run component_wf_def split: if_splits)

lemma bindTo_run:
  "IComponentIntrospect_bindTo to_string self I c =
     (case cb_interfaces c (it_UUID I) of
        None \<Rightarrow> (Inl (case cb_componentUUID c of None \<Rightarrow> Undefined_behaviour
                   | Some cu \<Rightarrow> InterfaceNotImplementedException_uuid to_string cu (it_UUID I)), c)
      | Some (_, a) \<Rightarrow>
          if any_type a = it_type I
          then (Inr (self, any_addr a), c\<lparr>cb_usageRefCount := cb_usageRefCount c + 1\<rparr>)
          else (Inl Bad_any_cast, c))"
  by (auto simp: component_defs eff_simps split: option.splits)

lemma framework_interfaces_differ: "it_UUID IComponentIntrospect \<noteq> it_UUID IInjectable"
  by (simp add: IComponentIntrospect_def IInjectable_def)

lemma newComponentBase_run:
  assumes "newComponentBase this live u = (r, c)"
  shows "r = Inr () \<and> component_wf c \<and> cb_interfacesUUID c = [it_UUID IComponentIntrospect, it_UUID IInjectable]
     \<and> cb_componentUUID c = (if live then Some u else None) \<and> cb_usageRefCount c = 0"
  using assms framework_interfaces_differ
  by (auto simp: newComponentBase_def eff_simps declareInterface_run component_wf_def split: if_splits)

text \<open>
  A new component implements \<open>IComponentIntrospect\<close> and \<open>IInjectable\<close>, whatever its class. Declaring an
  interface makes the component implement it and changes no other; the first declaration of an identifier
  stays. Binding to a declared interface gives the pointer that was declared and counts the
  reference, when the type is the one declared; otherwise the cast throws and nothing is counted.
\<close>

theorem component_interfaces:
  "component_wf (snd (newComponentBase this live u)) \<and>
   ComponentBase_getInterfaces (snd (newComponentBase this live u)) = [it_UUID IComponentIntrospect, it_UUID IInjectable] \<and>
   (let c' = snd (ComponentBase_declareInterface T p c) in
      ComponentBase_implements v c' = (v = it_UUID T \<or> ComponentBase_implements v c) \<and>
      ComponentBase_getMetadata v c' = (if v = it_UUID T \<and> \<not> ComponentBase_implements v c
         then Inr \<lparr>md_name = it_NAME T, md_description = it_DESCRIPTION T, md_uuid = it_UUID T\<rparr>
         else ComponentBase_getMetadata v c) \<and>
      (\<not> ComponentBase_implements (it_UUID T) c \<longrightarrow>
         IComponentIntrospect_bindTo ts self T c' = (Inr (self, p), c'\<lparr>cb_usageRefCount := cb_usageRefCount c + 1\<rparr>) \<and>
         (it_UUID T' = it_UUID T \<longrightarrow> it_type T' \<noteq> it_type T \<longrightarrow>
            IComponentIntrospect_bindTo ts self T' c' = (Inl Bad_any_cast, c'))) \<and>
      (component_wf c \<longrightarrow> component_wf c'))"
proof -
  obtain r n where n: "newComponentBase this live u = (r, n)" by (cases "newComponentBase this live u")
  have "component_wf n \<and> cb_interfacesUUID n = [it_UUID IComponentIntrospect, it_UUID IInjectable]"
    using newComponentBase_run [OF n] by simp
  with n declareInterface_wf [of c T p] show ?thesis
    by (auto simp: Let_def declareInterface_run ComponentBase_getInterfaces_def ComponentBase_implements_def
        ComponentBase_getMetadata_def bindTo_run split: option.splits)
qed

theorem component_interfaces_witness:
  "\<exists>c'. IComponentIntrospect_bindTo (\<lambda>_. '''') 3 \<lparr>it_type = ''I'', it_UUID = 9, it_NAME = ''I'', it_DESCRIPTION = ''''\<rparr>
     (snd (ComponentBase_declareInterface \<lparr>it_type = ''I'', it_UUID = 9, it_NAME = ''I'', it_DESCRIPTION = ''''\<rparr> 5
        (snd (newComponentBase 3 True 1)))) = (Inr (3, 5), c')"
proof -
  let ?I = "\<lparr>it_type = ''I'', it_UUID = 9, it_NAME = ''I'', it_DESCRIPTION = ''''\<rparr>"
  have "\<not> ComponentBase_implements (it_UUID ?I) (snd (newComponentBase 3 True 1))"
    by (simp add: ComponentBase_implements_def newComponentBase_def eff_simps declareInterface_run
        IComponentIntrospect_def IInjectable_def)
  then show ?thesis
    using component_interfaces [of 3 True 1 ?I 5 "snd (newComponentBase 3 True 1)" 9 "\<lambda>_. ''''" 3 ?I]
    unfolding Let_def by blast
qed

text \<open>
  Asking a component for an interface it does not implement throws \<open>InterfaceNotImplementedException\<close>
  only when the identifier it was constructed from is still there; a component constructed from its traits, as
  the library's own components are, keeps a reference to a temporary, and reading it is undefined.
\<close>

theorem queryInterface_missing:
  assumes "cb_interfaces c (it_UUID I) = None"
  shows "IComponentIntrospect_bindTo ts self I c =
     (Inl (case cb_componentUUID c of Some u \<Rightarrow> InterfaceNotImplementedException_uuid ts u (it_UUID I)
           | None \<Rightarrow> Undefined_behaviour), c) \<and>
   (newComponentBase_trait gen this trait = Inr d \<longrightarrow> cb_componentUUID d = None \<and> component_wf d)"
proof -
  have "cb_componentUUID d = None \<and> component_wf d" if "newComponentBase_trait gen this trait = Inr d"
  proof -
    from that obtain u r c where n: "newComponentBase this False u = (r, c)" and d: "d = c\<lparr>cb_componentTrait := trait\<rparr>"
      by (auto simp: newComponentBase_trait_def split: option.splits sum.splits prod.splits)
    from newComponentBase_run [OF n] d show ?thesis by (auto simp: component_wf_def)
  qed
  with assms show ?thesis by (auto simp: bindTo_run split: option.splits)
qed

theorem queryInterface_missing_witness:
  "\<exists>d. newComponentBase_trait (\<lambda>_. Some 7) 3 [''UUID'' \<mapsto> ''u''] = Inr d \<and>
     IComponentIntrospect_bindTo (\<lambda>_. '''') 3 \<lparr>it_type = ''I'', it_UUID = 9, it_NAME = ''I'', it_DESCRIPTION = ''''\<rparr> d
       = (Inl Undefined_behaviour, d)"
proof -
  let ?I = "\<lparr>it_type = ''I'', it_UUID = 9, it_NAME = ''I'', it_DESCRIPTION = ''''\<rparr>"
  obtain d where d: "newComponentBase_trait (\<lambda>_. Some 7) 3 [''UUID'' \<mapsto> ''u''] = Inr d"
    and n: "cb_interfaces d (it_UUID ?I) = None"
    by (auto simp: newComponentBase_trait_def toUUID_def newComponentBase_def eff_simps declareInterface_run
        IComponentIntrospect_def IInjectable_def)
  note q = queryInterface_missing [OF n, of "\<lambda>_. ''''" 3 "\<lambda>_. Some 7" 3 "[''UUID'' \<mapsto> ''u'']" d]
  have "cb_componentUUID d = None" using q d by blast
  then have "IComponentIntrospect_bindTo (\<lambda>_. '''') 3 ?I d = (Inl Undefined_behaviour, d)"
    using q [THEN conjunct1] by (simp only: option.case)
  with d show ?thesis by blast
qed

text \<open>A history of the counter: \<open>True\<close> for a reference acquired, \<open>False\<close> for one released.\<close>

definition run_refs :: "bool list \<Rightarrow> (ComponentBase, exn, unit) eff" where
  "run_refs = for_eff (\<lambda>acquired. if acquired then ComponentBase_addComponentRef else ComponentBase_releaseComponentRef)"

definition ref_balance :: "bool list \<Rightarrow> 32 word" where
  "ref_balance ops = sum_list (map (\<lambda>acquired. if acquired then 1 else -1) ops)"

lemma releaseComponentRef_run:
  "ComponentBase_releaseComponentRef c =
     (Inr (), c\<lparr>cb_usageRefCount := cb_usageRefCount c - 1,
               cb_unloaded := cb_unloaded c \<or> cb_usageRefCount c = 1\<rparr>)"
  by (simp add: ComponentBase_releaseComponentRef_def ComponentBase_unloadComponent_def eff_simps)

lemma ref_balance_simps [simp]:
  "ref_balance [] = 0" "ref_balance (a # ops) = (if a then 1 else -1) + ref_balance ops"
  by (simp_all add: ref_balance_def)

lemma released_to_zero_Cons:
  "(\<exists>ys. prefix (ys @ [False]) (a # ops) \<and> n + ref_balance (ys @ [False]) = 0) \<longleftrightarrow>
   (\<not> a \<and> n = 1) \<or>
   (\<exists>ys. prefix (ys @ [False]) ops \<and> n + (if a then 1 else -1) + ref_balance (ys @ [False]) = 0)"
  (is "?l \<longleftrightarrow> ?r")
proof
  assume ?l
  then obtain ys where p: "prefix (ys @ [False]) (a # ops)" and z: "n + ref_balance (ys @ [False]) = 0" by blast
  then show ?r by (cases ys) (auto simp: algebra_simps split: if_splits)
next
  assume ?r
  then show ?l
  proof
    assume "\<not> a \<and> n = 1"
    then show ?thesis by (intro exI [of _ "[]"]) simp
  next
    assume "\<exists>ys. prefix (ys @ [False]) ops \<and> n + (if a then 1 else -1) + ref_balance (ys @ [False]) = 0"
    then obtain ys where "prefix (ys @ [False]) ops" "n + (if a then 1 else -1) + ref_balance (ys @ [False]) = 0"
      by blast
    then show ?thesis by (intro exI [of _ "a # ys"]) (simp add: add.assoc)
  qed
qed

lemma run_refs_Cons:
  "run_refs (a # ops) c = run_refs ops
     (c\<lparr>cb_usageRefCount := cb_usageRefCount c + (if a then 1 else -1),
        cb_unloaded := cb_unloaded c \<or> \<not> a \<and> cb_usageRefCount c = 1\<rparr>)"
  by (simp add: run_refs_def eff_simps ComponentBase_addComponentRef_def releaseComponentRef_run)

lemma run_refs_state:
  "run_refs ops c =
     (Inr (), c\<lparr>cb_usageRefCount := cb_usageRefCount c + ref_balance ops,
        cb_unloaded := cb_unloaded c \<or>
          (\<exists>ys. prefix (ys @ [False]) ops \<and> cb_usageRefCount c + ref_balance (ys @ [False]) = 0)\<rparr>)"
proof (induction ops arbitrary: c)
  case Nil
  then show ?case by (simp add: run_refs_def eff_simps)
next
  case (Cons a ops)
  show ?case
    unfolding run_refs_Cons Cons.IH released_to_zero_Cons by (simp add: add.assoc disj_assoc del: prefix_snoc)
qed

text \<open>
  Property C19. A component is deleted by the release that brings its counter to zero, and by no other: in any
  history of acquired and released references it is deleted exactly when some released reference leaves as many
  released as acquired (modulo the 32 bits of the counter).
\<close>

theorem unloaded_iff_released:
  "fst (run_refs ops (snd (newComponentBase this live u))) = Inr () \<and>
   (cb_unloaded (snd (run_refs ops (snd (newComponentBase this live u)))) \<longleftrightarrow>
     (\<exists>ys. prefix (ys @ [False]) ops \<and> ref_balance (ys @ [False]) = 0))"
proof -
  have "cb_usageRefCount (snd (newComponentBase this live u)) = 0 \<and> \<not> cb_unloaded (snd (newComponentBase this live u))"
    by (simp add: newComponentBase_def eff_simps declareInterface_run)
  then show ?thesis by (simp add: run_refs_state)
qed

lemmas injectable_defs =
  ComponentBase_declareInjectable_def ComponentBase_declareInjectable_named_def
  ComponentBase_declareMultiInjectable_def ComponentBase_retrieveInjectable_def
  ComponentBase_retrieveInjectable_named_def ComponentBase_retrieveMultiInjectable_def
  IInjectable_inject_def IInjectable_inject_named_def InjectionException_metadata_def
  declaration_error_def Collection_add_def

text \<open>
  An interface is declared injectable once without a name and once per name, the two kinds apart: a second
  declaration throws \<open>InjectableDeclarationException\<close> and leaves the component as it was. Injecting writes the declared
  field and nothing else, and throws with the code of an unknown injectable when there is no declaration.
\<close>

theorem declare_then_inject:
  "(case ComponentBase_declareInjectable ts I f opt c of
      (Inl e, c') \<Rightarrow> ComponentBase_injectExists (it_UUID I) c \<and> c' = c \<and>
         is_instance InjectableDeclarationException e \<and> getErrorCode e = ERROR_INJECTABLE_ALREADY_DECLARED
    | (Inr _, c') \<Rightarrow> \<not> ComponentBase_injectExists (it_UUID I) c \<and>
         ComponentBase_getInjectables c' = ComponentBase_getInjectables c @ [newInjector I (it_UUID I) opt] \<and>
         IInjectable_inject ts I r c' = (Inr (), c'\<lparr>cb_fields := (cb_fields c)(f := Some r)\<rparr>) \<and>
         IInjectable_inject_named ts I r n c' = map_prod id (\<lambda>d. c'\<lparr>cb_fields := cb_fields d\<rparr>) (IInjectable_inject_named ts I r n c)) \<and>
   (case ComponentBase_declareInjectable_named ts I f n opt c of
      (Inl e, c') \<Rightarrow> ComponentBase_injectExists_named (it_UUID I) n c \<and> c' = c \<and>
         is_instance InjectableDeclarationException e \<and> getErrorCode e = ERROR_INJECTABLE_ALREADY_DECLARED
    | (Inr _, c') \<Rightarrow> \<not> ComponentBase_injectExists_named (it_UUID I) n c \<and>
         ComponentBase_getInjectables c' = ComponentBase_getInjectables c @ [newInjector_named I (it_UUID I) n opt] \<and>
         IInjectable_inject_named ts I r n c' = (Inr (), c'\<lparr>cb_fields := (cb_fields c)(f := Some r)\<rparr>) \<and>
         IInjectable_inject ts I r c' = map_prod id (\<lambda>d. c'\<lparr>cb_fields := cb_fields d\<rparr>) (IInjectable_inject ts I r c)) \<and>
   (ComponentBase_injectExists (it_UUID I) c \<or>
      (\<exists>e. IInjectable_inject ts I r c = (Inl e, c) \<and> getErrorCode e = ERROR_INJECTABLE_UNKNOWN))"
  by (auto simp: injectable_defs eff_simps Let_def ComponentBase_injectExists_def ComponentBase_injectExists_named_def
      ComponentBase_getInjectables_def split: option.splits)

text \<open>What a component gives as \<open>I\<close>: the pointer of its declaration, when the types agree.\<close>

definition interface_ptr :: "InterfaceTraits \<Rightarrow> Objects \<Rightarrow> nat \<Rightarrow> nat option" where
  "interface_ptr I objs a =
     Option.bind (objs a) (\<lambda>c. Option.bind (cb_interfaces c (it_UUID I))
       (\<lambda>(_, p). if any_type p = it_type I then Some (any_addr p) else None))"

lemma bindTo_ok:
  "interface_ptr I objs a = Some p \<Longrightarrow>
     bindTo ts I a objs = (Inr (a, p), objs(a \<mapsto> (the (objs a))\<lparr>cb_usageRefCount := cb_usageRefCount (the (objs a)) + 1\<rparr>))"
  by (auto simp: bindTo_def on_component_def bindTo_run interface_ptr_def bind_eq_Some_conv split: if_splits)

lemma interface_ptr_upd:
  "objs a = Some c \<Longrightarrow> cb_interfaces c' = cb_interfaces c \<Longrightarrow> interface_ptr I (objs(a \<mapsto> c')) b = interface_ptr I objs b"
  by (auto simp: interface_ptr_def)

definition add_bound :: "(uuid \<Rightarrow> string) \<Rightarrow> nat \<Rightarrow> InterfaceTraits \<Rightarrow> nat \<Rightarrow> nat \<Rightarrow> (Objects, exn, unit) eff" where
  "add_bound ts self I k i = bind_eff (bindTo ts I i) (\<lambda>ref.
     on_component self (modify_eff (\<lambda>c. c\<lparr>cb_collections := (cb_collections c)(k := Collection_add ref (cb_collections c k))\<rparr>)))"

lemma add_all:
  assumes "objs self = Some c" and "\<forall>i \<in> set is. i \<noteq> self \<and> interface_ptr I objs i \<noteq> None"
  shows "\<exists>objs' c'. for_eff (add_bound ts self I k) is objs = (Inr (), objs') \<and> objs' self = Some c' \<and>
     cb_collections c' k = cb_collections c k @ map (\<lambda>i. (i, the (interface_ptr I objs i))) is"
  using assms
proof (induction "is" arbitrary: objs c)
  case Nil
  then show ?case by (simp add: eff_simps)
next
  case (Cons i "is")
  obtain p where p: "interface_ptr I objs i = Some p" using Cons.prems(2) by auto
  obtain ci where ci: "objs i = Some ci" using p by (auto simp: interface_ptr_def bind_eq_Some_conv)
  let ?c = "c\<lparr>cb_collections := (cb_collections c)(k := cb_collections c k @ [(i, p)])\<rparr>"
  let ?objs = "objs(i \<mapsto> ci\<lparr>cb_usageRefCount := cb_usageRefCount ci + 1\<rparr>, self \<mapsto> ?c)"
  have step: "add_bound ts self I k i objs = (Inr (), ?objs)"
    using bindTo_ok [OF p, of ts] ci Cons.prems
    by (simp add: add_bound_def eff_simps on_component_def Collection_add_def)
  have ptr: "interface_ptr I ?objs j = interface_ptr I objs j" for j
    using ci Cons.prems by (auto simp: interface_ptr_def)
  have "\<exists>objs' c'. for_eff (add_bound ts self I k) is ?objs = (Inr (), objs') \<and> objs' self = Some c' \<and>
     cb_collections c' k = cb_collections ?c k @ map (\<lambda>i. (i, the (interface_ptr I ?objs i))) is"
    using Cons.prems ptr by (intro Cons.IH) (auto simp del: fun_upd_apply, simp)
  then show ?case by (simp add: eff_simps step ptr p fun_upd_same del: fun_upd_apply)
qed

text \<open>
  Property C23. Injecting a list of components into a declared collection adds each of them, bound to the interface and
  in order, to what the collection holds: nothing is replaced. But when the collection already holds more
  than the list has, nothing is injected and no error is raised.
\<close>

theorem inject_all_appends:
  assumes "objs self = Some c" and "cb_multiInjectablesMap c (it_UUID I) = Some a" and "any_type a = it_type I"
    and "\<forall>i \<in> set is. i \<noteq> self \<and> interface_ptr I objs i \<noteq> None"
    and "length is < 2 ^ 32" and "length (cb_collections c (any_addr a)) < 2 ^ 32"
  shows "\<exists>objs' c'. IInjectable_inject_all ts self I is objs = (Inr (), objs') \<and> objs' self = Some c' \<and>
     cb_collections c' (any_addr a) = cb_collections c (any_addr a) @
       (if length is < length (cb_collections c (any_addr a)) then []
        else map (\<lambda>i. (i, the (interface_ptr I objs i))) is)"
proof -
  have size: "(Collection_size (cb_collections c (any_addr a)) > Collection_size is) =
      (length is < length (cb_collections c (any_addr a)))"
    using assms(5,6) by (simp add: Collection_size_def word_less_nat_alt unat_of_nat)
  have "IInjectable_inject_all ts self I is objs =
    (if length is < length (cb_collections c (any_addr a)) then (Inr (), objs)
     else for_eff (add_bound ts self I (any_addr a)) is objs)"
    using assms(1-3) size unfolding add_bound_def [abs_def]
    by (simp add: IInjectable_inject_all_def eff_simps on_component_def injectable_defs fun_upd_idem)
  then show ?thesis
    using add_all [OF assms(1,4), of ts "any_addr a"] assms(1) by auto
qed

text \<open>Two components for the witness: the first is injected with the second.\<close>

definition sample_interface :: InterfaceTraits where
  "sample_interface = \<lparr>it_type = ''I'', it_UUID = 9, it_NAME = ''I'', it_DESCRIPTION = ''''\<rparr>"

definition sample_objects :: Objects where
  "sample_objects =
     [1 \<mapsto> snd (ComponentBase_declareMultiInjectable (\<lambda>_. '''') sample_interface 4 False (snd (newComponentBase 1 True 5))),
      2 \<mapsto> snd (ComponentBase_declareInterface sample_interface 6 (snd (newComponentBase 2 True 7)))]"

lemmas sample_objects_simps =
  sample_objects_def sample_interface_def injectable_defs eff_simps Let_def newComponentBase_def
  declareInterface_run IComponentIntrospect_def IInjectable_def interface_ptr_def

theorem inject_all_appends_witness:
  "\<exists>objs' c'. IInjectable_inject_all (\<lambda>_. '''') 1 sample_interface [2, 2] sample_objects = (Inr (), objs') \<and>
     objs' 1 = Some c' \<and> cb_collections c' 1 = [(2, 6), (2, 6)]"
proof -
  obtain c where c: "sample_objects 1 = Some c" "cb_multiInjectablesMap c 9 = Some \<lparr>any_type = ''I'', any_addr = 1\<rparr>"
    "cb_collections c 1 = []"
    by (simp add: sample_objects_simps)
  have i: "interface_ptr sample_interface sample_objects 2 = Some 6"
    by (simp add: sample_objects_simps)
  have u: "it_UUID sample_interface = 9" "it_type sample_interface = ''I''"
    by (simp_all add: sample_interface_def)
  show ?thesis
    using inject_all_appends [of sample_objects 1 c sample_interface "\<lparr>any_type = ''I'', any_addr = 1\<rparr>" "[2, 2]" "\<lambda>_. ''''"]
    by (simp add: c i u del: One_nat_def)
qed

end
