(* ===== verification/Xpcf_ModuleManager.thy ===== *)
theory Xpcf_ModuleManager
  imports Xpcf_ComponentBase
begin

text \<open>
  \<^verbatim>\<open>src/ModuleManager.cpp\<close>: modules are dynamic libraries that export five functions. The manager checks
  a library before it uses it, reads the metadata of a module once, creates components through the entry point of
  the module, and writes the description of a module to a registry file. Loading a library is an operation of
  \<open>boost::dll\<close> and a parameter; so are the readers and writers of XML files.
\<close>

section \<open>Libraries and the platform\<close>

text \<open>
  What a loaded library exports: its symbols, and what the functions behind them return. The index is the list
  of the calls of \<open>declareComponent\<close> that \<^verbatim>\<open>XPCF_ADD_COMPONENT\<close> makes; \<open>XPCF_getComponent\<close> gives a new
  component, or none when the module has no component with the identifier.
\<close>

record SharedLibrary =
  dll_symbols :: "string list"
  dll_moduleUUID :: string
  dll_moduleName :: string
  dll_moduleDescription :: string
  dll_index :: "(string option \<times> string option \<times> string option) list"
  dll_getComponent :: "uuid \<Rightarrow> exn + ComponentBase option"

record Platform = Filesystem +
  pf_load_library :: "string \<Rightarrow> string + SharedLibrary"
  pf_uuid_of_string :: "string \<Rightarrow> uuid option"
  pf_string_of_uuid :: "uuid \<Rightarrow> string"
  pf_uuid0 :: uuid
  pf_load_xml :: "string \<Rightarrow> xml option"

definition XPCF_GETCOMPONENT :: string where "XPCF_GETCOMPONENT = ''XPCF_getComponent''"
definition XPCF_GETMODULEUUID :: string where "XPCF_GETMODULEUUID = ''XPCF_getModuleUUID''"
definition XPCF_GETMODULENAME :: string where "XPCF_GETMODULENAME = ''XPCF_getModuleName''"
definition XPCF_GETMODULEDESCRIPTION :: string where "XPCF_GETMODULEDESCRIPTION = ''XPCF_getModuleDescription''"
definition XPCF_GETMODULEINDEX :: string where "XPCF_GETMODULEINDEX = ''XPCF_getModuleIndex''"

lemmas symbol_defs = XPCF_GETCOMPONENT_def XPCF_GETMODULEUUID_def XPCF_GETMODULENAME_def
  XPCF_GETMODULEDESCRIPTION_def XPCF_GETMODULEINDEX_def

section \<open>State\<close>

text \<open>The metadata objects, by address; the manager adds its two caches.\<close>

record MetadataHeap =
  mh_components :: "nat \<rightharpoonup> ComponentMetadata"
  mh_modules :: "nat \<rightharpoonup> ModuleMetadata"
  mh_next :: nat

record ModuleManager = MetadataHeap +
  mgr_moduleMap :: "uuid \<rightharpoonup> nat"
  mgr_funcMap :: "uuid \<rightharpoonup> (uuid \<Rightarrow> exn + ComponentBase option)"

definition new_component :: "ComponentMetadata \<Rightarrow> ('a MetadataHeap_scheme, exn, nat) eff" where
  "new_component m = (\<lambda>s. (Inr (mh_next s),
     s\<lparr>mh_components := (mh_components s)(mh_next s \<mapsto> m), mh_next := Suc (mh_next s)\<rparr>))"

definition new_module :: "ModuleMetadata \<Rightarrow> ('a MetadataHeap_scheme, exn, nat) eff" where
  "new_module m = (\<lambda>s. (Inr (mh_next s),
     s\<lparr>mh_modules := (mh_modules s)(mh_next s \<mapsto> m), mh_next := Suc (mh_next s)\<rparr>))"

text \<open>Dereferencing a pointer to metadata; a null or dangling one is undefined.\<close>

definition the_component :: "nat \<Rightarrow> ('a MetadataHeap_scheme, exn, ComponentMetadata) eff" where
  "the_component a = bind_eff (gets_eff (\<lambda>s. mh_components s a))
     (\<lambda>x. case x of None \<Rightarrow> throw_eff Undefined_behaviour | Some m \<Rightarrow> return_eff m)"

definition the_module :: "nat \<Rightarrow> ('a MetadataHeap_scheme, exn, ModuleMetadata) eff" where
  "the_module a = bind_eff (gets_eff (\<lambda>s. mh_modules s a))
     (\<lambda>x. case x of None \<Rightarrow> throw_eff Undefined_behaviour | Some m \<Rightarrow> return_eff m)"

definition heap_addComponent :: "nat \<Rightarrow> nat \<Rightarrow> ('a MetadataHeap_scheme, exn, unit) eff" where
  "heap_addComponent a c = bind_eff (the_module a) (\<lambda>m. bind_eff (the_component c) (\<lambda>ci.
     modify_eff (\<lambda>s. s\<lparr>mh_modules := (mh_modules s)(a \<mapsto> ModuleMetadata_addComponent c (md_uuid ci) m)\<rparr>)))"

definition heap_addInterface :: "nat \<Rightarrow> uuid \<Rightarrow> ('a MetadataHeap_scheme, exn, unit) eff" where
  "heap_addInterface c u = bind_eff (the_component c) (\<lambda>ci.
     modify_eff (\<lambda>s. s\<lparr>mh_components := (mh_components s)(c \<mapsto> ComponentMetadata_addInterface u ci)\<rparr>))"

definition ModuleMetadata_declareComponent ::
  "'p Platform_scheme \<Rightarrow> nat \<Rightarrow> string option \<times> string option \<times> string option \<Rightarrow> ('a MetadataHeap_scheme, exn, unit) eff" where
  "ModuleMetadata_declareComponent pf a = (\<lambda>(u, name, description).
     bind_eff (lift_eff (newComponentMetadata_text (pf_uuid_of_string pf) (pf_uuid0 pf) name u description)) (\<lambda>m.
     bind_eff (new_component m) (\<lambda>c. heap_addComponent a c)))"

section \<open>Checking a library\<close>

definition checkSymbol :: "SharedLibrary \<Rightarrow> string \<Rightarrow> exn + unit" where
  "checkSymbol shlib symbol =
     (if symbol \<in> set (dll_symbols shlib) then Inr ()
      else Inl (exception_of_text ModuleException (''Missing XPCF symbol '' @ symbol)))"

definition validateModule :: "'p Platform_scheme \<Rightarrow> string \<Rightarrow> ('s, exn, SharedLibrary) eff" where
  "validateModule pf modulePath =
     (if \<not> fs_exists pf (PathBuilder_appendModuleDecorations pf modulePath)
      then throw_eff (exception_of_text ModuleException (''No module file found in '' @ modulePath))
      else case pf_load_library pf modulePath of
          Inl e \<Rightarrow> throw_eff (exception_of_text ModuleException
            (''Error loading module for file '' @ [CHR 0x27] @ modulePath @ [CHR 0x27] @ ''=> '' @ e))
        | Inr shlib \<Rightarrow>
            seq_eff (lift_eff (checkSymbol shlib XPCF_GETMODULEUUID))
           (seq_eff (lift_eff (checkSymbol shlib XPCF_GETMODULENAME))
           (seq_eff (lift_eff (checkSymbol shlib XPCF_GETMODULEDESCRIPTION))
           (seq_eff (lift_eff (checkSymbol shlib XPCF_GETCOMPONENT))
           (seq_eff (lift_eff (checkSymbol shlib XPCF_GETMODULEINDEX))
             (return_eff shlib))))))"

definition validateModule_metadata :: "'p Platform_scheme \<Rightarrow> ModuleMetadata \<Rightarrow> ('s, exn, SharedLibrary) eff" where
  "validateModule_metadata pf m =
     (if \<not> fs_exists pf (PathBuilder_appendModuleDecorations pf (mm_moduleFullPath m))
      then throw_eff (exception_of_text ModuleException (''No module file found for module UUID ''
             @ pf_string_of_uuid pf (md_uuid m) @ '' in '' @ mm_moduleFullPath m))
      else validateModule pf (mm_moduleFullPath m))"

text \<open>\<open>isXpcfModule\<close> catches the module exceptions and lets any other through.\<close>

definition is_valid :: "('s, exn, SharedLibrary) eff \<Rightarrow> ('s, exn, bool) eff" where
  "is_valid check = catch_if (is_instance ModuleException)
     (bind_eff check (\<lambda>_. return_eff True)) (\<lambda>_. return_eff False)"

definition ModuleManager_isXpcfModule :: "'p Platform_scheme \<Rightarrow> string \<Rightarrow> ('s, exn, bool) eff" where
  "ModuleManager_isXpcfModule pf modulePath = is_valid (validateModule pf modulePath)"

definition ModuleManager_isXpcfModule_metadata :: "'p Platform_scheme \<Rightarrow> ModuleMetadata \<Rightarrow> ('s, exn, bool) eff" where
  "ModuleManager_isXpcfModule_metadata pf m = is_valid (validateModule_metadata pf m)"

definition ModuleManager_isXpcfModule_in :: "'p Platform_scheme \<Rightarrow> string \<Rightarrow> string \<Rightarrow> ('s, exn, bool) eff" where
  "ModuleManager_isXpcfModule_in pf moduleName moduleFolderPath =
     ModuleManager_isXpcfModule pf (PathBuilder_buildModuleFilePath pf moduleName moduleFolderPath)"

section \<open>Introspection\<close>

text \<open>A relative path is looked for below the home of the framework; reading a null home path is undefined.\<close>

definition introspection_path :: "'p Platform_scheme \<Rightarrow> string \<Rightarrow> ('s, exn, string) eff" where
  "introspection_path pf modulePath =
     (if fs_is_relative pf modulePath
      then case PathBuilder_getXPCFHomePath pf of
          None \<Rightarrow> throw_eff Undefined_behaviour
        | Some home \<Rightarrow> return_eff (fs_append pf (fs_append pf home ''modules'') modulePath)
      else return_eff modulePath)"

definition ModuleManager_introspectModule ::
  "'p Platform_scheme \<Rightarrow> string \<Rightarrow> ('a ModuleManager_scheme, exn, nat) eff" where
  "ModuleManager_introspectModule pf path =
     bind_eff (introspection_path pf path) (\<lambda>modulePath.
     bind_eff (validateModule pf modulePath) (\<lambda>shlib.
     bind_eff (lift_eff (toUUID (pf_uuid_of_string pf) (dll_moduleUUID shlib))) (\<lambda>moduleUUID.
     bind_eff (gets_eff mgr_moduleMap) (\<lambda>m_moduleMap.
       case m_moduleMap moduleUUID of
         Some moduleInfos \<Rightarrow> return_eff moduleInfos
       | None \<Rightarrow>
           bind_eff (lift_eff (newModuleMetadata pf (Some (dll_moduleName shlib)) moduleUUID
                     (Some (dll_moduleDescription shlib)) (Some (fs_parent_path pf modulePath)))) (\<lambda>m.
           bind_eff (new_module m) (\<lambda>moduleInfos.
           seq_eff (for_eff (ModuleMetadata_declareComponent pf moduleInfos) (dll_index shlib))
          (seq_eff (modify_eff (\<lambda>s. s\<lparr>mgr_moduleMap := (mgr_moduleMap s)(moduleUUID \<mapsto> moduleInfos)\<rparr>))
             (return_eff moduleInfos))))))))"

definition ModuleManager_introspectModule_in ::
  "'p Platform_scheme \<Rightarrow> string \<Rightarrow> string \<Rightarrow> ('a ModuleManager_scheme, exn, nat) eff" where
  "ModuleManager_introspectModule_in pf moduleName moduleFolderPath =
     ModuleManager_introspectModule pf (PathBuilder_buildModuleFilePath pf moduleName moduleFolderPath)"

section \<open>Creating components\<close>

definition ModuleManager_createComponent ::
  "'p Platform_scheme \<Rightarrow> nat \<Rightarrow> uuid \<Rightarrow> ('a ModuleManager_scheme, exn, ComponentBase) eff" where
  "ModuleManager_createComponent pf moduleInfos componentUUID =
     bind_eff (the_module moduleInfos) (\<lambda>m.
     bind_eff (validateModule_metadata pf m) (\<lambda>shlib.
     seq_eff (bind_eff (gets_eff mgr_funcMap) (\<lambda>m_funcMap.
         if m_funcMap (md_uuid m) = None
         then modify_eff (\<lambda>s. s\<lparr>mgr_funcMap := (mgr_funcMap s)(md_uuid m \<mapsto> dll_getComponent shlib)\<rparr>)
         else return_eff ()))
    (bind_eff (gets_eff (\<lambda>s. the (mgr_funcMap s (md_uuid m)))) (\<lambda>getComponent.
     bind_eff (lift_eff (getComponent componentUUID)) (\<lambda>componentRef.
       case componentRef of
         Some c \<Rightarrow> return_eff c
       | None \<Rightarrow> throw_eff (ConfigurationException_text
           (''Unable to find component uuid='' @ pf_string_of_uuid pf componentUUID)))))))"

text \<open>The interfaces of a component of the module are read from a component made for that.\<close>

fun metadata_of :: "ComponentBase \<Rightarrow> uuid list \<Rightarrow> exn + InterfaceMetadata list" where
  "metadata_of c [] = Inr []"
| "metadata_of c (u # us) =
     (case ComponentBase_getMetadata u c of
        Inl e \<Rightarrow> Inl e
      | Inr m \<Rightarrow> map_sum id (Cons m) (metadata_of c us))"

definition ModuleManager_getComponentInterfaceList ::
  "'p Platform_scheme \<Rightarrow> nat \<Rightarrow> uuid \<Rightarrow> ('a ModuleManager_scheme, exn, InterfaceMetadata list) eff" where
  "ModuleManager_getComponentInterfaceList pf moduleInfos componentUUID =
     bind_eff (ModuleManager_createComponent pf moduleInfos componentUUID) (\<lambda>rIntrospect.
       lift_eff (metadata_of rIntrospect (ComponentBase_getInterfaces rIntrospect)))"

section \<open>Saving a module\<close>

fun map_eff :: "('a \<Rightarrow> ('s, 'e, 'b) eff) \<Rightarrow> 'a list \<Rightarrow> ('s, 'e, 'b list) eff" where
  "map_eff f [] = return_eff []"
| "map_eff f (x # xs) = bind_eff (f x) (\<lambda>y. bind_eff (map_eff f xs) (\<lambda>ys. return_eff (y # ys)))"

definition interface_element :: "'p Platform_scheme \<Rightarrow> InterfaceMetadata \<Rightarrow> xml" where
  "interface_element pf i =
     xml_SetAttribute ''description'' (md_description i)
       (xml_SetAttribute ''name'' (md_name i)
         (xml_SetAttribute ''uuid'' (pf_string_of_uuid pf (md_uuid i)) (newElement ''interface'')))"

definition component_element :: "'p Platform_scheme \<Rightarrow> nat \<Rightarrow> nat \<Rightarrow> ('a ModuleManager_scheme, exn, xml) eff" where
  "component_element pf moduleInfos componentInfo =
     bind_eff (the_component componentInfo) (\<lambda>ci.
     let xmlComponentElt = xml_SetAttribute ''description'' (md_description ci)
           (xml_SetAttribute ''name'' (md_name ci)
             (xml_SetAttribute ''uuid'' (pf_string_of_uuid pf (md_uuid ci)) (newElement ''component''))) in
     bind_eff (ModuleManager_getComponentInterfaceList pf moduleInfos (md_uuid ci)) (\<lambda>interfaceList.
       return_eff (fold (\<lambda>i e. xml_InsertEndChild e (interface_element pf i)) interfaceList xmlComponentElt)))"

definition module_element :: "'p Platform_scheme \<Rightarrow> ModuleMetadata \<Rightarrow> xml" where
  "module_element pf m =
     xml_SetAttribute ''description'' (md_description m)
       (xml_SetAttribute ''path'' (mm_modulePath m)
         (xml_SetAttribute ''name'' (md_name m)
           (xml_SetAttribute ''uuid'' (pf_string_of_uuid pf (md_uuid m)) (newElement ''module''))))"

text \<open>The result is the code returned and the document saved to the file, if one is.\<close>

definition ModuleManager_saveModuleInformations ::
  "'p Platform_scheme \<Rightarrow> string \<Rightarrow> nat \<Rightarrow> ('a ModuleManager_scheme, exn, XPCFErrorCode \<times> xml option) eff" where
  "ModuleManager_saveModuleInformations pf xmlFilePath moduleInfos =
     (let xmlRoot = (case pf_load_xml pf xmlFilePath of Some root \<Rightarrow> root | None \<Rightarrow> newElement ''xpcf-registry'') in
      catch_runtime
        (bind_eff (the_module moduleInfos) (\<lambda>m.
         bind_eff (map_eff (component_element pf moduleInfos) (ModuleMetadata_getComponentsMetadata m)) (\<lambda>elements.
           return_eff (SUCCESS, Some (xml_InsertEndChild xmlRoot
             (fold (\<lambda>e m. xml_InsertEndChild m e) elements (module_element pf m)))))))
        (\<lambda>_. return_eff (FAIL, None)))"

section \<open>Properties\<close>

lemma map_eff_for: "(\<And>x s. f x s = (Inr (g x), s)) \<Longrightarrow> map_eff f xs s = (Inr (map g xs), s)"
  by (induction xs) (simp_all add: eff_simps)

lemma the_module_run [eff_simps]:
  "the_module a s = (case mh_modules s a of None \<Rightarrow> (Inl Undefined_behaviour, s) | Some m \<Rightarrow> (Inr m, s))"
  by (simp add: the_module_def eff_simps split: option.splits)

lemma the_component_run [eff_simps]:
  "the_component a s = (case mh_components s a of None \<Rightarrow> (Inl Undefined_behaviour, s) | Some m \<Rightarrow> (Inr m, s))"
  by (simp add: the_component_def eff_simps split: option.splits)

lemma new_component_run [eff_simps]:
  "new_component m s = (Inr (mh_next s),
     s\<lparr>mh_components := (mh_components s)(mh_next s \<mapsto> m), mh_next := Suc (mh_next s)\<rparr>)"
  by (simp add: new_component_def)

lemma new_module_run [eff_simps]:
  "new_module m s = (Inr (mh_next s),
     s\<lparr>mh_modules := (mh_modules s)(mh_next s \<mapsto> m), mh_next := Suc (mh_next s)\<rparr>)"
  by (simp add: new_module_def)

definition required_symbols :: "string list" where
  "required_symbols = [XPCF_GETMODULEUUID, XPCF_GETMODULENAME, XPCF_GETMODULEDESCRIPTION, XPCF_GETCOMPONENT,
     XPCF_GETMODULEINDEX]"

text \<open>The library a path stands for, when it passes every check.\<close>

definition valid_library :: "'p Platform_scheme \<Rightarrow> string \<Rightarrow> SharedLibrary option" where
  "valid_library pf path =
     (if fs_exists pf (PathBuilder_appendModuleDecorations pf path)
      then (case pf_load_library pf path of
              Inl _ \<Rightarrow> None
            | Inr l \<Rightarrow> if set required_symbols \<subseteq> set (dll_symbols l) then Some l else None)
      else None)"

lemma validateModule_run:
  "(case valid_library pf path of
      Some l \<Rightarrow> validateModule pf path s = (Inr l, s)
    | None \<Rightarrow> \<exists>w. validateModule pf path s = (Inl (exception_of_text ModuleException w), s))"
  by (auto simp: valid_library_def validateModule_def checkSymbol_def required_symbols_def eff_simps
      split: sum.splits)

lemma validateModule_Some: "valid_library pf path = Some l \<Longrightarrow> validateModule pf path s = (Inr l, s)"
  using validateModule_run [of pf path s] by simp

text \<open>
  A file is an XPCF module exactly when its decorated path exists, the library loads and it exports the
  five entry points; the check answers for every file, without changing the state.
\<close>

theorem isXpcfModule_iff:
  "ModuleManager_isXpcfModule pf path s = (Inr (valid_library pf path \<noteq> None), s)"
  using validateModule_run [of pf path s]
  by (cases "valid_library pf path")
     (auto simp: ModuleManager_isXpcfModule_def is_valid_def eff_simps exception_of_text_def)

lemma declareComponent_keeps:
  "mgr_moduleMap (snd (ModuleMetadata_declareComponent pf a d s)) = mgr_moduleMap s"
  by (auto simp: ModuleMetadata_declareComponent_def heap_addComponent_def eff_simps
      split: prod.splits option.splits sum.splits)

lemma declareComponents_keeps:
  "mgr_moduleMap (snd (for_eff (ModuleMetadata_declareComponent pf a) ds s)) = mgr_moduleMap s"
proof -
  have "preserves (\<lambda>t. mgr_moduleMap t = mgr_moduleMap s) (for_eff (ModuleMetadata_declareComponent pf a) ds)"
    by (intro preserves_for preservesI) (simp add: declareComponent_keeps)
  then show ?thesis by (auto dest: preservesD)
qed

text \<open>
  A module is introspected once: when introspection of a path gives a module, introspecting any path whose
  library has the same identifier gives the same metadata object again, and changes nothing. A path that is no module
  throws \<open>ModuleException\<close>.
\<close>

theorem introspect_once:
  assumes "ModuleManager_introspectModule pf p s = (Inr a, t)"
    and "\<not> fs_is_relative pf p" and "\<not> fs_is_relative pf q"
    and "valid_library pf p = Some l" and "valid_library pf q = Some l'"
    and "pf_uuid_of_string pf (dll_moduleUUID l') = pf_uuid_of_string pf (dll_moduleUUID l)"
  shows "ModuleManager_introspectModule pf q t = (Inr a, t) \<and>
    (valid_library pf p' = None \<longrightarrow> \<not> fs_is_relative pf p' \<longrightarrow>
       (\<exists>e. is_instance ModuleException e \<and> ModuleManager_introspectModule pf p' t = (Inl e, t)))"
proof -
  obtain u where u: "pf_uuid_of_string pf (dll_moduleUUID l) = Some u"
    using assms(1,2) validateModule_Some [OF assms(4), of s]
    by (cases "pf_uuid_of_string pf (dll_moduleUUID l)")
       (simp_all add: ModuleManager_introspectModule_def introspection_path_def eff_simps toUUID_def)
  have "mgr_moduleMap t u = Some a"
    using assms(1,2) u validateModule_Some [OF assms(4), of s]
    by (auto simp: ModuleManager_introspectModule_def introspection_path_def eff_simps toUUID_def
        split: option.splits prod.splits sum.splits)
  then have "ModuleManager_introspectModule pf q t = (Inr a, t)"
    using u assms(3,6) validateModule_Some [OF assms(5), of t]
    by (simp add: ModuleManager_introspectModule_def introspection_path_def eff_simps toUUID_def)
  moreover have "\<exists>e. is_instance ModuleException e \<and> ModuleManager_introspectModule pf p' t = (Inl e, t)"
    if "valid_library pf p' = None" and "\<not> fs_is_relative pf p'"
    using validateModule_run [of pf p' t] that
    by (auto simp: ModuleManager_introspectModule_def introspection_path_def eff_simps exception_of_text_def)
  ultimately show ?thesis by blast
qed

text \<open>A platform on which every file is the same module with one component, for the witnesses.\<close>

definition sample_library :: SharedLibrary where
  "sample_library =
     \<lparr>dll_symbols = required_symbols, dll_moduleUUID = ''u-m'', dll_moduleName = ''mod'', dll_moduleDescription = '''',
      dll_index = [(Some ''u-c'', Some ''comp'', Some ''d'')],
      dll_getComponent = (\<lambda>u. Inr (if u = 21
        then Some (snd (ComponentBase_declareInterface sample_interface 6 (snd (newComponentBase 2 True 21)))) else None))\<rparr>"

definition sample_platform :: Platform where
  "sample_platform = Filesystem.extend sample_fs
     (Platform.fields (\<lambda>_. Inr sample_library)
        (\<lambda>t. if t = ''u-m'' then Some 20 else if t = ''u-c'' then Some 21 else if t = ''u-i'' then Some 9 else None)
        (\<lambda>u. if u = 20 then ''u-m'' else if u = 21 then ''u-c'' else if u = 9 then ''u-i'' else ''u-x'') 0 (\<lambda>_. None))"

definition sample_manager :: ModuleManager where
  "sample_manager = \<lparr>mh_components = Map.empty, mh_modules = Map.empty, mh_next = 1, mgr_moduleMap = Map.empty,
     mgr_funcMap = Map.empty\<rparr>"

lemma sample_valid: "valid_library sample_platform p = Some sample_library"
  by (simp add: valid_library_def sample_platform_def sample_fs_def sample_library_def Filesystem.extend_def
      Platform.fields_def PathBuilder_appendModuleDecorations_def Let_def)

lemma sample_not_relative: "\<not> fs_is_relative sample_platform p"
  by (simp add: sample_platform_def sample_fs_def Filesystem.extend_def Platform.fields_def)

lemma sample_uuid: "pf_uuid_of_string sample_platform ''u-m'' = Some 20" "pf_uuid_of_string sample_platform ''u-c'' = Some 21"
  by (simp_all add: sample_platform_def Filesystem.extend_def Platform.fields_def)

lemma sample_introspect:
  "\<exists>t. ModuleManager_introspectModule sample_platform p sample_manager = (Inr 1, t)"
  using validateModule_Some [OF sample_valid, of p sample_manager]
  by (simp add: ModuleManager_introspectModule_def introspection_path_def sample_not_relative eff_simps toUUID_def
      sample_uuid sample_library_def sample_manager_def newModuleMetadata_def newInterfaceMetadata_def
      ModuleMetadata_declareComponent_def newComponentMetadata_text_def newInterfaceMetadata_text_def
      heap_addComponent_def)

theorem introspect_once_witness:
  "\<exists>t. ModuleManager_introspectModule sample_platform ''m'' sample_manager = (Inr 1, t) \<and>
       ModuleManager_introspectModule sample_platform ''n'' t = (Inr 1, t)"
proof -
  obtain t where t: "ModuleManager_introspectModule sample_platform ''m'' sample_manager = (Inr 1, t)"
    using sample_introspect by blast
  from introspect_once [OF t sample_not_relative sample_not_relative sample_valid sample_valid refl, of "''n''"] t
  show ?thesis by blast
qed

end
