(* ===== verification/Xpcf_AliasManager.thy ===== *)
theory Xpcf_AliasManager
  imports Xpcf_Xml
begin

text \<open>
  \<^verbatim>\<open>src/AliasManager.cpp\<close>: names for the identifiers of interfaces, components and modules, with the
  contract its clients (registry, factory, property manager) rely on as a locale.
\<close>

section \<open>State\<close>

datatype AliasType = AliasComponent | AliasInterface | AliasModule

record AliasContext =
  componentResolverMap :: "string \<rightharpoonup> uuid"
  interfaceResolverMap :: "string \<rightharpoonup> uuid"
  moduleResolverMap :: "string \<rightharpoonup> uuid"

definition AliasContext_clear :: "AliasContext \<Rightarrow> AliasContext" where
  "AliasContext_clear c =
     c\<lparr>componentResolverMap := Map.empty, interfaceResolverMap := Map.empty,
       moduleResolverMap := Map.empty\<rparr>"

definition AliasContext_init :: AliasContext where
  "AliasContext_init =
     \<lparr>componentResolverMap = Map.empty, interfaceResolverMap = Map.empty,
      moduleResolverMap = Map.empty\<rparr>"

fun aliasTypeConvertMap :: "string \<Rightarrow> AliasType option" where
  "aliasTypeConvertMap t =
     (if t = ''interface'' then Some AliasInterface
      else if t = ''component'' then Some AliasComponent
      else if t = ''module'' then Some AliasModule
      else None)"

section \<open>Operations\<close>

definition addAlias ::
  "(string \<rightharpoonup> uuid) \<Rightarrow> string \<Rightarrow> uuid \<Rightarrow> bool \<Rightarrow> exn + (string \<rightharpoonup> uuid)" where
  "addAlias elementMap name u forceReplace =
     (if \<not> forceReplace \<and> elementMap name \<noteq> None
      then Inl (exception_of_text Exception (''Alias already exists for name = '' @ name))
      else Inr (elementMap(name \<mapsto> u)))"

definition aliasExistsIn :: "(string \<rightharpoonup> uuid) \<Rightarrow> string \<Rightarrow> bool" where
  "aliasExistsIn elementMap name \<longleftrightarrow> elementMap name \<noteq> None"

text \<open>\<open>m_addAliasFunction\<close>: one function per kind of alias, each on its map of the context.\<close>

fun addAliasFunction :: "AliasType \<Rightarrow> string \<Rightarrow> uuid \<Rightarrow> bool \<Rightarrow> (AliasContext, exn, unit) eff" where
  "addAliasFunction AliasInterface name u force =
     bind_eff (gets_eff interfaceResolverMap) (\<lambda>m.
     bind_eff (lift_eff (addAlias m name u force)) (\<lambda>m'.
     modify_eff (\<lambda>c. c\<lparr>interfaceResolverMap := m'\<rparr>)))"
| "addAliasFunction AliasComponent name u force =
     bind_eff (gets_eff componentResolverMap) (\<lambda>m.
     bind_eff (lift_eff (addAlias m name u force)) (\<lambda>m'.
     modify_eff (\<lambda>c. c\<lparr>componentResolverMap := m'\<rparr>)))"
| "addAliasFunction AliasModule name u force =
     bind_eff (gets_eff moduleResolverMap) (\<lambda>m.
     bind_eff (lift_eff (addAlias m name u force)) (\<lambda>m'.
     modify_eff (\<lambda>c. c\<lparr>moduleResolverMap := m'\<rparr>)))"

definition AliasManager_declareAlias :: "AliasType \<Rightarrow> string \<Rightarrow> uuid \<Rightarrow> (AliasContext, exn, unit) eff" where
  "AliasManager_declareAlias type name u = addAliasFunction type name u False"

definition AliasManager_declareExplicitAlias ::
  "AliasType \<Rightarrow> string \<Rightarrow> uuid \<Rightarrow> (AliasContext, exn, unit) eff" where
  "AliasManager_declareExplicitAlias type name u = addAliasFunction type name u True"

fun AliasManager_aliasExists :: "AliasType \<Rightarrow> string \<Rightarrow> AliasContext \<Rightarrow> bool" where
  "AliasManager_aliasExists AliasInterface name c = aliasExistsIn (interfaceResolverMap c) name"
| "AliasManager_aliasExists AliasComponent name c = aliasExistsIn (componentResolverMap c) name"
| "AliasManager_aliasExists AliasModule name c = aliasExistsIn (moduleResolverMap c) name"

definition AliasManager_resolveAlias :: "string \<Rightarrow> (string \<rightharpoonup> uuid) \<Rightarrow> exn + uuid" where
  "AliasManager_resolveAlias name elementMap =
     (case elementMap name of
        None \<Rightarrow> Inl (exception_of_text Exception (''Unknown alias : no alias found for name '' @ name))
      | Some u \<Rightarrow> Inr u)"

definition AliasManager_resolveComponentAlias :: "string \<Rightarrow> AliasContext \<Rightarrow> exn + uuid" where
  "AliasManager_resolveComponentAlias name c = AliasManager_resolveAlias name (componentResolverMap c)"

definition AliasManager_resolveInterfaceAlias :: "string \<Rightarrow> AliasContext \<Rightarrow> exn + uuid" where
  "AliasManager_resolveInterfaceAlias name c = AliasManager_resolveAlias name (interfaceResolverMap c)"

definition AliasManager_resolveModuleAlias :: "string \<Rightarrow> AliasContext \<Rightarrow> exn + uuid" where
  "AliasManager_resolveModuleAlias name c = AliasManager_resolveAlias name (moduleResolverMap c)"

section \<open>Reading \<open><aliases>\<close>\<close>

definition AliasManager_declareAliasNode ::
  "(string \<Rightarrow> uuid option) \<Rightarrow> xml \<Rightarrow> (AliasContext, exn, unit) eff" where
  "AliasManager_declareAliasNode gen e =
     (let aliasName = xml_Attribute ''name'' e; aliasUuid = xml_Attribute ''uuid'' e in
      catch_xpcf
        (case (aliasName, xml_Attribute ''type'' e, aliasUuid) of
           (Some n, Some typeStr, Some u) \<Rightarrow>
             (case aliasTypeConvertMap typeStr of
                None \<Rightarrow> throw_eff (exception_of_char_text Exception
                  ''Invalid type attribute : type must be a value in {component|interface|module}. No other value is allowed.'')
              | Some type \<Rightarrow>
                  bind_eff (uuid_attribute gen (''UUID format invalid in '' @ dquote @ ''uuid'' @ dquote @ '': '') u (Some u))
                    (\<lambda>uid. AliasManager_declareExplicitAlias type n uid))
         | _ \<Rightarrow> throw_eff (exception_of_char_text Exception
                  ''node incomplete : attributes name, type and uuid are mandatory.''))
        (rethrow_in ''alias'' True
           ((case aliasUuid of Some u \<Rightarrow> [(''uuid'', u)] | None \<Rightarrow> [])
            @ (case aliasName of Some n \<Rightarrow> [(''name'', n)] | None \<Rightarrow> []))))"

definition AliasManager_declareAliases ::
  "(string \<Rightarrow> uuid option) \<Rightarrow> xml \<Rightarrow> (AliasContext, exn, unit) eff" where
  "AliasManager_declareAliases gen e =
     catch_xpcf (processXmlNode e ''alias'' (AliasManager_declareAliasNode gen))
       (rethrow_in ''aliases'' True [])"

section \<open>The alias service\<close>

text \<open>The view the clients have of a context: a map from names to identifiers per kind.\<close>

fun alias_view :: "AliasType \<Rightarrow> AliasContext \<Rightarrow> (string \<rightharpoonup> uuid)" where
  "alias_view AliasComponent c = componentResolverMap c"
| "alias_view AliasInterface c = interfaceResolverMap c"
| "alias_view AliasModule c = moduleResolverMap c"

text \<open>
  What a client may assume of an alias service. The laws speak of the view: a name exists when it
  has a value, a new name is added without touching any other, a name that exists is refused
  by \<open>declare_alias\<close> and nothing changes, and resolving reads the view.
\<close>

locale alias_service =
  fixes alias_exists :: "AliasType \<Rightarrow> string \<Rightarrow> 's \<Rightarrow> bool"
    and declare_alias :: "AliasType \<Rightarrow> string \<Rightarrow> uuid \<Rightarrow> ('s, exn, unit) eff"
    and resolve_alias :: "AliasType \<Rightarrow> string \<Rightarrow> 's \<Rightarrow> exn + uuid"
    and alias_map :: "AliasType \<Rightarrow> 's \<Rightarrow> (string \<rightharpoonup> uuid)"
  assumes exists_law: "alias_exists t n s \<longleftrightarrow> n \<in> dom (alias_map t s)"
    and declare_new: "alias_map t s n = None \<Longrightarrow> fst (declare_alias t n u s) = Inr ()
        \<and> alias_map t' (snd (declare_alias t n u s)) =
            (if t' = t then (alias_map t s)(n \<mapsto> u) else alias_map t' s)"
    and declare_known: "n \<in> dom (alias_map t s) \<Longrightarrow>
        \<exists>e. is_xpcf e \<and> declare_alias t n u s = (Inl e, s)"
    and resolve_law: "alias_map t s n = Some u \<Longrightarrow> resolve_alias t n s = Inr u"
begin

text \<open>
  The registry declares an alias for what it finds when the name is free. That never throws, keeps
  every alias there was, and the first declaration of a name wins.
\<close>

lemma declare_if_free_ok:
  "(if alias_exists t n s then (Inr (), s) else declare_alias t n u s) =
     (Inr (), snd (if alias_exists t n s then (Inr (), s) else declare_alias t n u s))"
proof (cases "alias_map t s n")
  case None
  then have "fst (declare_alias t n u s) = Inr ()"
    using declare_new by blast
  with None show ?thesis
    by (auto simp: exists_law intro: prod_eqI)
next
  case (Some v)
  then show ?thesis by (auto simp: exists_law)
qed

lemma declare_if_free_view:
  "alias_map t' (snd (if alias_exists t n s then (Inr (), s) else declare_alias t n u s)) =
     (if t' = t \<and> alias_map t s n = None then (alias_map t s)(n \<mapsto> u) else alias_map t' s)"
  using declare_new [of t s n u t'] by (auto simp: exists_law)

lemma declare_if_free_keeps:
  "alias_map t' s \<subseteq>\<^sub>m
     alias_map t' (snd (if alias_exists t n s then (Inr (), s) else declare_alias t n u s))"
  by (auto simp: declare_if_free_view map_le_def)

text \<open>The factory and the property manager resolve a name only after they asked whether it exists.\<close>

lemma resolve_if_known:
  "alias_exists t n s \<Longrightarrow> \<exists>u. resolve_alias t n s = Inr u \<and> alias_map t s n = Some u"
  by (auto simp: exists_law resolve_law)

end

fun AliasManager_resolve :: "AliasType \<Rightarrow> string \<Rightarrow> AliasContext \<Rightarrow> exn + uuid" where
  "AliasManager_resolve AliasComponent n c = AliasManager_resolveComponentAlias n c"
| "AliasManager_resolve AliasInterface n c = AliasManager_resolveInterfaceAlias n c"
| "AliasManager_resolve AliasModule n c = AliasManager_resolveModuleAlias n c"

lemmas alias_resolve_defs =
  AliasManager_resolveAlias_def AliasManager_resolveComponentAlias_def
  AliasManager_resolveInterfaceAlias_def AliasManager_resolveModuleAlias_def

text \<open>The context with the name set, the result of every declaration that is not refused.\<close>

fun alias_put :: "AliasType \<Rightarrow> string \<Rightarrow> uuid \<Rightarrow> AliasContext \<Rightarrow> AliasContext" where
  "alias_put AliasComponent n u c = c\<lparr>componentResolverMap := (componentResolverMap c)(n \<mapsto> u)\<rparr>"
| "alias_put AliasInterface n u c = c\<lparr>interfaceResolverMap := (interfaceResolverMap c)(n \<mapsto> u)\<rparr>"
| "alias_put AliasModule n u c = c\<lparr>moduleResolverMap := (moduleResolverMap c)(n \<mapsto> u)\<rparr>"

lemma addAliasFunction_run:
  "addAliasFunction t n u force c =
     (if \<not> force \<and> alias_view t c n \<noteq> None
      then (Inl (exception_of_text Exception (''Alias already exists for name = '' @ n)), c)
      else (Inr (), alias_put t n u c))"
  by (cases t) (auto simp: eff_simps addAlias_def)

lemma alias_view_put [simp]:
  "alias_view t' (alias_put t n u c) =
     (if t' = t then (alias_view t c)(n \<mapsto> u) else alias_view t' c)"
  by (cases t; cases t') auto

lemma declareExplicitAlias_run [eff_simps]:
  "AliasManager_declareExplicitAlias t n u c = (Inr (), alias_put t n u c)"
  by (simp add: AliasManager_declareExplicitAlias_def addAliasFunction_run)

lemma declareAlias_run:
  "AliasManager_declareAlias t n u c =
     (if alias_view t c n \<noteq> None
      then (Inl (exception_of_text Exception (''Alias already exists for name = '' @ n)), c)
      else (Inr (), alias_put t n u c))"
  by (simp add: AliasManager_declareAlias_def addAliasFunction_run)

lemma resolve_view:
  "AliasManager_resolve t n c =
     (case alias_view t c n of
        None \<Rightarrow> Inl (exception_of_text Exception (''Unknown alias : no alias found for name '' @ n))
      | Some u \<Rightarrow> Inr u)"
  by (cases t) (simp_all add: alias_resolve_defs)

lemma aliasExists_view: "AliasManager_aliasExists t n c \<longleftrightarrow> alias_view t c n \<noteq> None"
  by (cases t) (auto simp: aliasExistsIn_def)

interpretation aliases: alias_service AliasManager_aliasExists AliasManager_declareAlias
  AliasManager_resolve alias_view
proof
  fix t t' n s u
  show "AliasManager_aliasExists t n s \<longleftrightarrow> n \<in> dom (alias_view t s)"
    by (auto simp: aliasExists_view)
  show "fst (AliasManager_declareAlias t n u s) = Inr ()
        \<and> alias_view t' (snd (AliasManager_declareAlias t n u s)) =
            (if t' = t then (alias_view t s)(n \<mapsto> u) else alias_view t' s)"
    if "alias_view t s n = None"
    using that by (simp add: declareAlias_run)
  show "\<exists>e. is_xpcf e \<and> AliasManager_declareAlias t n u s = (Inl e, s)"
    if "n \<in> dom (alias_view t s)"
    using that by (auto simp: declareAlias_run exception_of_text_def)
  show "AliasManager_resolve t n s = Inr u" if "alias_view t s n = Some u"
    using that by (simp add: resolve_view)
qed

section \<open>Properties\<close>

text \<open>
  An alias added by the program is refused when the name is taken, with the context unchanged;
  one from a configuration file replaces it. Neither touches another name or the names of
  another kind, and a name resolves to what was stored under it last.
\<close>

theorem alias_declare_and_resolve:
  "(let (r, c') = AliasManager_declareAlias t n u c in
      if AliasManager_aliasExists t n c
      then r = Inl (exception_of_text Exception (''Alias already exists for name = '' @ n)) \<and> c' = c
      else r = Inr () \<and> AliasManager_resolve t n c' = Inr u) \<and>
   (let (r, c') = AliasManager_declareExplicitAlias t n u c in
      r = Inr () \<and>
      AliasManager_resolve t' n' c' = (if (t', n') = (t, n) then Inr u else AliasManager_resolve t' n' c))"
  by (auto simp: declareAlias_run declareExplicitAlias_run aliasExists_view resolve_view
      split: option.splits)

lemma declareAliasNode_ok:
  assumes "xml_Attribute ''name'' e = Some n" and "xml_Attribute ''uuid'' e = Some u"
    and "xml_Attribute ''type'' e = Some ty" and "aliasTypeConvertMap ty = Some t" and "gen u = Some uid"
  shows "AliasManager_declareAliasNode gen e c = (Inr (), alias_put t n uid c)"
  using assms
  by (simp add: AliasManager_declareAliasNode_def Let_def eff_simps del: aliasTypeConvertMap.simps)

text \<open>
  What an \<open><alias>\<close> element says when it is well formed: its kind, its name and its identifier.
\<close>

definition alias_of_node :: "(string \<Rightarrow> uuid option) \<Rightarrow> xml \<Rightarrow> (AliasType \<times> string \<times> uuid) option" where
  "alias_of_node gen e =
     (case (xml_Attribute ''name'' e, Option.bind (xml_Attribute ''type'' e) aliasTypeConvertMap,
            Option.bind (xml_Attribute ''uuid'' e) gen) of
        (Some n, Some t, Some u) \<Rightarrow> Some (t, n, u)
      | _ \<Rightarrow> None)"

lemma declareAliasNode_view:
  "AliasManager_declareAliasNode gen e c =
     (case alias_of_node gen e of
        Some (t, n, u) \<Rightarrow> (Inr (), alias_put t n u c)
      | None \<Rightarrow> (fst (AliasManager_declareAliasNode gen e c), c)) \<and>
   (alias_of_node gen e = None \<longrightarrow> is_instance ConfigurationException
      (case fst (AliasManager_declareAliasNode gen e c) of Inl x \<Rightarrow> x | Inr _ \<Rightarrow> Undefined_behaviour))"
proof (cases "alias_of_node gen e")
  case (Some a)
  then show ?thesis
    by (cases a) (auto simp: alias_of_node_def declareAliasNode_ok bind_eq_Some_conv
        simp del: aliasTypeConvertMap.simps split: option.splits)
next
  case None
  then show ?thesis
    by (auto simp: alias_of_node_def AliasManager_declareAliasNode_def Let_def eff_simps
        rethrow_in_text exception_of_text_def exception_of_char_text_def
        simp del: aliasTypeConvertMap.simps split: option.splits)
qed

text \<open>
  Reading an \<open><aliases>\<close> block whose nodes are all well formed never fails, and afterwards a
  name has the identifier of the last node that declares it for its kind, or what it had before
  when no node does: an explicit alias replaces an automatic one.
\<close>

theorem declareAliases_last_wins:
  assumes wf: "\<forall>e \<in> set (filter (is_element_named ''alias'') (xml_children x)). alias_of_node gen e \<noteq> None"
  shows "fst (AliasManager_declareAliases gen x c) = Inr () \<and>
    alias_view t (snd (AliasManager_declareAliases gen x c)) =
      fold (\<lambda>(t', n, u) m. if t' = t then m(n \<mapsto> u) else m)
        (List.map_filter (alias_of_node gen)
           (filter (is_element_named ''alias'') (xml_children x)))
        (alias_view t c)"
proof -
  have loop: "fst (for_eff (AliasManager_declareAliasNode gen) es c) = Inr () \<and>
    alias_view t (snd (for_eff (AliasManager_declareAliasNode gen) es c)) =
      fold (\<lambda>(t', n, u) m. if t' = t then m(n \<mapsto> u) else m)
        (List.map_filter (alias_of_node gen) es) (alias_view t c)"
    if "\<forall>e \<in> set es. alias_of_node gen e \<noteq> None" for es c
    using that
  proof (induction es arbitrary: c)
    case Nil
    then show ?case by (simp add: eff_simps List.map_filter_def)
  next
    case (Cons e es)
    then obtain t' n u where a: "alias_of_node gen e = Some (t', n, u)"
      by (cases "alias_of_node gen e") auto
    with Cons show ?case
      by (auto simp: eff_simps declareAliasNode_view [THEN conjunct1, of gen e] List.map_filter_def)
  qed
  show ?thesis
    using loop [OF wf, of c]
    by (auto simp: AliasManager_declareAliases_def eff_simps split: prod.splits sum.splits)
qed

theorem declareAliases_last_wins_witness:
  "alias_view AliasComponent
     (snd (AliasManager_declareAliases (\<lambda>s. if s = ''u1'' then Some 1 else if s = ''u2'' then Some 2 else None)
        (Element ''aliases'' []
           [Element ''alias'' [(''name'', ''c''), (''type'', ''component''), (''uuid'', ''u1'')] [],
            Element ''alias'' [(''name'', ''c''), (''type'', ''component''), (''uuid'', ''u2'')] []])
        AliasContext_init)) ''c'' = Some 2"
  by (subst declareAliases_last_wins [THEN conjunct2])
     (auto simp: alias_of_node_def List.map_filter_def AliasContext_init_def)

text \<open>
  A block with an ill formed node is refused with a \<open>ConfigurationException\<close>, and the nodes
  before the first such node stay declared: reading is not atomic.
\<close>

theorem declareAliases_partial_on_error:
  assumes children: "filter (is_element_named ''alias'') (xml_children x) = good @ bad # rest"
    and good: "\<forall>e \<in> set good. alias_of_node gen e \<noteq> None"
    and bad: "alias_of_node gen bad = None"
  shows "\<exists>e. is_instance ConfigurationException e \<and>
    AliasManager_declareAliases gen x c =
      (Inl e, snd (AliasManager_declareAliases gen (Element ''aliases'' [] good) c))"
proof -
  have "set good \<subseteq> set (filter (is_element_named ''alias'') (xml_children x))"
    by (auto simp: children)
  then have named: "filter (is_element_named ''alias'') good = good"
    by (auto intro: filter_True)
  have ok: "fst (for_eff (AliasManager_declareAliasNode gen) good c) = Inr ()"
    using good
  proof (induction good arbitrary: c)
    case Nil
    then show ?case by (simp add: eff_simps)
  next
    case (Cons e es)
    then show ?case
      by (auto simp: eff_simps declareAliasNode_view [THEN conjunct1, of gen e])
  qed
  obtain c1 where c1: "for_eff (AliasManager_declareAliasNode gen) good c = (Inr (), c1)"
    using ok by (cases "for_eff (AliasManager_declareAliasNode gen) good c") auto
  obtain b where b: "AliasManager_declareAliasNode gen bad c1 = (Inl b, c1)"
    and bc: "is_instance ConfigurationException b"
    using declareAliasNode_view [of gen bad c1] bad
    by (cases "AliasManager_declareAliasNode gen bad c1") (auto split: sum.splits)
  have xb: "is_xpcf b" using bc by (cases b) auto
  show ?thesis
    using c1 b xb named
    by (simp add: AliasManager_declareAliases_def eff_simps children for_eff_append rethrow_in_text)
qed

theorem declareAliases_partial_on_error_witness:
  "\<exists>e. is_instance ConfigurationException e \<and>
    AliasManager_declareAliases (\<lambda>s. Some 1)
      (Element ''aliases'' []
           [Element ''alias'' [(''name'', ''c''), (''type'', ''component''), (''uuid'', ''u1'')] [],
            Element ''alias'' [(''name'', ''d'')] []]) AliasContext_init =
      (Inl e, snd (AliasManager_declareAliases (\<lambda>s. Some 1) (Element ''aliases'' []
           [Element ''alias'' [(''name'', ''c''), (''type'', ''component''), (''uuid'', ''u1'')] []])
         AliasContext_init))"
  by (rule declareAliases_partial_on_error [where bad = "Element ''alias'' [(''name'', ''d'')] []" and rest = "[]"])
     (auto simp: alias_of_node_def)

end
