(* ===== verification/Xpcf_Registry.thy ===== *)
theory Xpcf_Registry
  imports Xpcf_ModuleManager Xpcf_AliasManager
begin

text \<open>
  \<^verbatim>\<open>src/Registry.cpp\<close>: what modules, components and interfaces are known, filled from module libraries or from the
  \<open><module>\<close> elements of a registry file. The state extends that of the module manager, whose metadata objects the
  registry holds pointers to; the alias manager is a part of it. The function set with \<open>setBinder\<close>, through which the
  factory binds an interface to each component found, is the argument \<open>bindFunc\<close>.
\<close>

section \<open>State\<close>

record RegistryContext =
  modulesVector :: "nat list"
  interfacesVector :: "InterfaceMetadata list"
  componentModuleUUIDMap :: "uuid \<rightharpoonup> uuid"
  interfacesMap :: "uuid \<rightharpoonup> InterfaceMetadata"
  modulesMap :: "uuid \<rightharpoonup> nat"

record RegistryState = ModuleManager +
  reg_context :: RegistryContext
  reg_aliases :: AliasContext
  reg_autoAlias :: bool
  reg_libraryLoaded :: bool

definition RegistryContext_init :: RegistryContext where
  "RegistryContext_init = \<lparr>modulesVector = [], interfacesVector = [], componentModuleUUIDMap = Map.empty,
     interfacesMap = Map.empty, modulesMap = Map.empty\<rparr>"

definition RegistryContext_clear :: "RegistryContext \<Rightarrow> RegistryContext" where
  "RegistryContext_clear c =
     c\<lparr>modulesVector := Collection_clear (modulesVector c), interfacesVector := Collection_clear (interfacesVector c),
       componentModuleUUIDMap := Map.empty, interfacesMap := Map.empty, modulesMap := Map.empty\<rparr>"

text \<open>
  The assignment the compiler generates for a context assigns the members one by one, with the assignment
  operator of \<open>Collection\<close> for the two collections.
\<close>

definition RegistryContext_assign :: "RegistryContext \<Rightarrow> RegistryContext \<Rightarrow> RegistryContext" where
  "RegistryContext_assign self other =
     \<lparr>modulesVector = fst (Collection_assign (modulesVector self) (modulesVector other)),
      interfacesVector = fst (Collection_assign (interfacesVector self) (interfacesVector other)),
      componentModuleUUIDMap = componentModuleUUIDMap other, interfacesMap = interfacesMap other,
      modulesMap = modulesMap other\<rparr>"

definition context_modify :: "(RegistryContext \<Rightarrow> RegistryContext) \<Rightarrow> ('a RegistryState_scheme, exn, unit) eff" where
  "context_modify f = modify_eff (\<lambda>s. s\<lparr>reg_context := f (reg_context s)\<rparr>)"

definition Registry_clear :: "('a RegistryState_scheme, exn, unit) eff" where
  "Registry_clear = seq_eff (context_modify RegistryContext_clear) (modify_eff (\<lambda>s. s\<lparr>reg_libraryLoaded := False\<rparr>))"

definition Registry_getContext :: "'a RegistryState_scheme \<Rightarrow> RegistryContext" where
  "Registry_getContext s = reg_context s"

definition Registry_setContext :: "RegistryContext \<Rightarrow> ('a RegistryState_scheme, exn, unit) eff" where
  "Registry_setContext c = modify_eff (\<lambda>s. s\<lparr>reg_context := c\<rparr>)"

definition Registry_enableAutoAlias :: "bool \<Rightarrow> ('a RegistryState_scheme, exn, unit) eff" where
  "Registry_enableAutoAlias b = modify_eff (\<lambda>s. s\<lparr>reg_autoAlias := b\<rparr>)"

section \<open>Looking up\<close>

definition Registry_getModuleUUID :: "'p Platform_scheme \<Rightarrow> uuid \<Rightarrow> 'a RegistryState_scheme \<Rightarrow> exn + uuid" where
  "Registry_getModuleUUID pf u s =
     (if \<not> mapContains (componentModuleUUIDMap (reg_context s)) u
      then Inl (exception_of_text ModuleNotFoundException (''No module UUID found for component '' @ pf_string_of_uuid pf u))
      else Inr (the (componentModuleUUIDMap (reg_context s) u)))"

definition findMetadata :: "uuid \<Rightarrow> (uuid \<rightharpoonup> 'm) \<Rightarrow> 'm option" where
  "findMetadata u elementMap = (case elementMap u of None \<Rightarrow> None | Some m \<Rightarrow> Some m)"

definition safeFindMetadata :: "(uuid \<Rightarrow> exn) \<Rightarrow> uuid \<Rightarrow> (uuid \<rightharpoonup> 'm) \<Rightarrow> exn + 'm" where
  "safeFindMetadata err u elementMap = (case findMetadata u elementMap of None \<Rightarrow> Inl (err u) | Some m \<Rightarrow> Inr m)"

definition Registry_findModuleMetadata :: "'p Platform_scheme \<Rightarrow> uuid \<Rightarrow> 'a RegistryState_scheme \<Rightarrow> exn + nat" where
  "Registry_findModuleMetadata pf u s =
     safeFindMetadata (ModuleNotFoundException_uuid (pf_string_of_uuid pf)) u (modulesMap (reg_context s))"

text \<open>The pointer \<open>findComponentMetadata\<close> returns may be null: \<open>None\<close>.\<close>

definition Registry_findComponentMetadata ::
  "'p Platform_scheme \<Rightarrow> uuid \<Rightarrow> 'a RegistryState_scheme \<Rightarrow> exn + nat option" where
  "Registry_findComponentMetadata pf u s =
     (case Registry_getModuleUUID pf u s of
        Inl e \<Rightarrow> Inl e
      | Inr mu \<Rightarrow>
          (case Registry_findModuleMetadata pf mu s of
             Inl e \<Rightarrow> Inl e
           | Inr a \<Rightarrow>
               (case mh_modules s a of
                  None \<Rightarrow> Inl Undefined_behaviour
                | Some m \<Rightarrow> Inr (ModuleMetadata_getComponentMetadata u m))))"

definition Registry_findInterfaceMetadata :: "uuid \<Rightarrow> 'a RegistryState_scheme \<Rightarrow> InterfaceMetadata option" where
  "Registry_findInterfaceMetadata u s = findMetadata u (interfacesMap (reg_context s))"

definition Registry_getModulesMetadata :: "'a RegistryState_scheme \<Rightarrow> nat list" where
  "Registry_getModulesMetadata s = modulesVector (reg_context s)"

definition Registry_getInterfacesMetadata :: "'a RegistryState_scheme \<Rightarrow> InterfaceMetadata list" where
  "Registry_getInterfacesMetadata s = interfacesVector (reg_context s)"

section \<open>Adding\<close>

text \<open>\<open>addMetadata\<close> adds to a vector and its map, unless the identifier is there.\<close>

definition addMetadata :: "'m option \<Rightarrow> ('m \<Rightarrow> uuid) \<Rightarrow> 'm list \<times> (uuid \<rightharpoonup> 'm) \<Rightarrow> exn + 'm list \<times> (uuid \<rightharpoonup> 'm)" where
  "addMetadata metadata uuid_of = (\<lambda>(targetContainer, elementMap).
     case metadata of
       None \<Rightarrow> Inl NullPointerException_default
     | Some m \<Rightarrow>
         Inr (case findMetadata (uuid_of m) elementMap of
                None \<Rightarrow> (Collection_add m targetContainer, elementMap(uuid_of m \<mapsto> m))
              | Some _ \<Rightarrow> (targetContainer, elementMap)))"

definition Registry_addModuleMetadata :: "nat option \<Rightarrow> ('a RegistryState_scheme, exn, unit) eff" where
  "Registry_addModuleMetadata metadata =
     bind_eff (gets_eff (\<lambda>s. (reg_context s, \<lambda>a. md_uuid (the (mh_modules s a))))) (\<lambda>(c, uuid_of).
     bind_eff (lift_eff (addMetadata metadata uuid_of (modulesVector c, modulesMap c))) (\<lambda>(v, m).
       context_modify (\<lambda>c. c\<lparr>modulesVector := v, modulesMap := m\<rparr>)))"

definition Registry_addInterfaceMetadata :: "InterfaceMetadata option \<Rightarrow> ('a RegistryState_scheme, exn, unit) eff" where
  "Registry_addInterfaceMetadata metadata =
     bind_eff (gets_eff reg_context) (\<lambda>c.
     bind_eff (lift_eff (addMetadata metadata md_uuid (interfacesVector c, interfacesMap c))) (\<lambda>(v, m).
       context_modify (\<lambda>c. c\<lparr>interfacesVector := v, interfacesMap := m\<rparr>)))"

text \<open>The code the registry repeats: with automatic aliases, name what has no name yet.\<close>

definition declare_if_free :: "AliasType \<Rightarrow> string \<Rightarrow> uuid \<Rightarrow> (AliasContext, exn, unit) eff" where
  "declare_if_free t name u = (\<lambda>c.
     if AliasManager_aliasExists t name c then (Inr (), c) else AliasManager_declareAlias t name u c)"

definition auto_alias :: "AliasType \<Rightarrow> string \<Rightarrow> uuid \<Rightarrow> ('a RegistryState_scheme, exn, unit) eff" where
  "auto_alias t name u =
     bind_eff (gets_eff reg_autoAlias) (\<lambda>enabled.
       if enabled then zoom_eff reg_aliases (\<lambda>c s. s\<lparr>reg_aliases := c\<rparr>) (declare_if_free t name u)
       else return_eff ())"

definition map_component :: "uuid \<Rightarrow> uuid \<Rightarrow> ('a RegistryState_scheme, exn, unit) eff" where
  "map_component componentUuid moduleUuid =
     context_modify (\<lambda>c. c\<lparr>componentModuleUUIDMap := (componentModuleUUIDMap c)(componentUuid \<mapsto> moduleUuid)\<rparr>)"

section \<open>Modules from libraries\<close>

definition declare_implemented ::
  "(uuid \<Rightarrow> uuid \<Rightarrow> ('a RegistryState_scheme, exn, unit) eff) \<Rightarrow> nat \<Rightarrow> uuid \<Rightarrow> ComponentBase \<Rightarrow> uuid
     \<Rightarrow> ('a RegistryState_scheme, exn, unit) eff" where
  "declare_implemented bindFunc componentInfo componentUUID rIntrospect interfaceUUID =
     seq_eff (bindFunc interfaceUUID componentUUID)
    (bind_eff (lift_eff (ComponentBase_getMetadata interfaceUUID rIntrospect)) (\<lambda>interfaceInfo.
     seq_eff (auto_alias AliasInterface (md_name interfaceInfo) (md_uuid interfaceInfo))
    (seq_eff (heap_addInterface componentInfo (md_uuid interfaceInfo))
       (Registry_addInterfaceMetadata (Some interfaceInfo)))))"

definition declare_module_component ::
  "'p Platform_scheme \<Rightarrow> (uuid \<Rightarrow> uuid \<Rightarrow> ('a RegistryState_scheme, exn, unit) eff) \<Rightarrow> nat \<Rightarrow> uuid \<Rightarrow> nat
     \<Rightarrow> ('a RegistryState_scheme, exn, unit) eff" where
  "declare_module_component pf bindFunc moduleInfos moduleUUID componentInfo =
     bind_eff (the_component componentInfo) (\<lambda>ci.
     seq_eff (bind_eff (gets_eff reg_context) (\<lambda>c.
                if \<not> mapContains (componentModuleUUIDMap c) (md_uuid ci)
                then map_component (md_uuid ci) moduleUUID else return_eff ()))
    (seq_eff (auto_alias AliasComponent (md_name ci) (md_uuid ci))
    (bind_eff (ModuleManager_createComponent pf moduleInfos (md_uuid ci)) (\<lambda>rIntrospect.
       for_eff (declare_implemented bindFunc componentInfo (md_uuid ci) rIntrospect)
         (ComponentBase_getInterfaces rIntrospect)))))"

definition Registry_declareModuleMetadata ::
  "'p Platform_scheme \<Rightarrow> (uuid \<Rightarrow> uuid \<Rightarrow> ('a RegistryState_scheme, exn, unit) eff) \<Rightarrow> nat option
     \<Rightarrow> ('a RegistryState_scheme, exn, unit) eff" where
  "Registry_declareModuleMetadata pf bindFunc moduleInfos =
     seq_eff (Registry_addModuleMetadata moduleInfos)
       (case moduleInfos of
          None \<Rightarrow> throw_eff Undefined_behaviour
        | Some a \<Rightarrow> bind_eff (the_module a) (\<lambda>m.
            for_eff (declare_module_component pf bindFunc a (md_uuid m)) (ModuleMetadata_getComponentsMetadata m)))"

definition Registry_loadModuleMetadata ::
  "'p Platform_scheme \<Rightarrow> (uuid \<Rightarrow> uuid \<Rightarrow> ('a RegistryState_scheme, exn, unit) eff) \<Rightarrow> string \<Rightarrow> string
     \<Rightarrow> ('a RegistryState_scheme, exn, XPCFErrorCode) eff" where
  "Registry_loadModuleMetadata pf bindFunc moduleName moduleFilePath =
     bind_eff (ModuleManager_introspectModule_in pf moduleName moduleFilePath) (\<lambda>moduleInfos.
     seq_eff (Registry_declareModuleMetadata pf bindFunc (Some moduleInfos)) (return_eff SUCCESS))"

text \<open>The result of a folder is that of its last library: the earlier ones are overwritten.\<close>

fun load_files ::
  "'p Platform_scheme \<Rightarrow> (uuid \<Rightarrow> uuid \<Rightarrow> ('a RegistryState_scheme, exn, unit) eff) \<Rightarrow> XPCFErrorCode \<Rightarrow> string list
     \<Rightarrow> ('a RegistryState_scheme, exn, XPCFErrorCode) eff" where
  "load_files pf bindFunc result [] = return_eff result"
| "load_files pf bindFunc result (x # xs) =
     (if PathBuilder_is_shared_library pf x
      then bind_eff (Registry_loadModuleMetadata pf bindFunc (fs_filename pf x) (fs_parent_path pf x))
             (\<lambda>r. load_files pf bindFunc r xs)
      else load_files pf bindFunc result xs)"

definition Registry_loadModules ::
  "'p Platform_scheme \<Rightarrow> (uuid \<Rightarrow> uuid \<Rightarrow> ('a RegistryState_scheme, exn, unit) eff) \<Rightarrow> string option \<Rightarrow> bool
     \<Rightarrow> ('a RegistryState_scheme, exn, XPCFErrorCode) eff" where
  "Registry_loadModules pf bindFunc folderPathStr bRecurse =
     (case folderPathStr of
        None \<Rightarrow> return_eff ERROR_NULL_POINTER
      | Some path \<Rightarrow>
          let folderPath = PathBuilder_buildModuleFolderPath pf path in
          if \<not> fs_exists pf folderPath then return_eff FAIL
          else if \<not> fs_is_directory pf folderPath then return_eff FAIL
          else load_files pf bindFunc SUCCESS
                 (if bRecurse then fs_recursive_directory pf folderPath else fs_directory pf folderPath))"

section \<open>Modules from registry files\<close>

text \<open>
  A missing \<open>name\<close> or \<open>uuid\<close> is read as the empty string; a missing \<open>description\<close> of an interface or a component
  initialises a string from a null pointer. The flag \<open>subElementError\<close> is false until the identifier of the element has been
  read and true after, so the handler is written once for each part.
\<close>

definition interface_error :: "xml \<Rightarrow> exn \<Rightarrow> ('s, exn, 'b) eff" where
  "interface_error e = rethrow_in ''interface'' False
     (nonempty_attrs [(''uuid'', attr_or_empty ''uuid'' e), (''name'', attr_or_empty ''name'' e)])"

definition Registry_declareInterfaceNode ::
  "'p Platform_scheme \<Rightarrow> (uuid \<Rightarrow> uuid \<Rightarrow> ('a RegistryState_scheme, exn, unit) eff) \<Rightarrow> nat \<Rightarrow> xml
     \<Rightarrow> ('a RegistryState_scheme, exn, unit) eff" where
  "Registry_declareInterfaceNode pf bindFunc componentInfo e =
     catch_xpcf
       (bind_eff (uuid_attribute (pf_uuid_of_string pf) (''UUID format invalid in '' @ dquote @ ''uuid'' @ dquote @ '' attribute: '')
                   (attr_or_empty ''uuid'' e) (xml_Attribute ''uuid'' e)) (\<lambda>interfaceUuid.
        seq_eff (heap_addInterface componentInfo interfaceUuid)
       (bind_eff (the_component componentInfo) (\<lambda>ci.
        seq_eff (bindFunc interfaceUuid (md_uuid ci))
       (bind_eff (gets_eff reg_context) (\<lambda>c.
          if \<not> mapContains (interfacesMap c) interfaceUuid
          then bind_eff (string_of_ptr (xml_Attribute ''description'' e)) (\<lambda>interfaceDescription.
               seq_eff (auto_alias AliasInterface (attr_or_empty ''name'' e) interfaceUuid)
              (bind_eff (lift_eff (newInterfaceMetadata (Some (attr_or_empty ''name'' e)) interfaceUuid (Some interfaceDescription)))
                 (\<lambda>interfaceInfo. Registry_addInterfaceMetadata (Some interfaceInfo))))
          else return_eff ()))))))
       (interface_error e)"

definition component_error :: "bool \<Rightarrow> xml \<Rightarrow> exn \<Rightarrow> ('s, exn, 'b) eff" where
  "component_error sub e = rethrow_in ''component'' sub
     (nonempty_attrs [(''uuid'', attr_or_empty ''uuid'' e), (''name'', attr_or_empty ''name'' e)])"

definition Registry_declareComponent ::
  "'p Platform_scheme \<Rightarrow> (uuid \<Rightarrow> uuid \<Rightarrow> ('a RegistryState_scheme, exn, unit) eff) \<Rightarrow> nat \<Rightarrow> xml
     \<Rightarrow> ('a RegistryState_scheme, exn, unit) eff" where
  "Registry_declareComponent pf bindFunc moduleInfo e =
     bind_eff
       (catch_xpcf
         (uuid_attribute (pf_uuid_of_string pf) (''UUID format invalid in '' @ dquote @ ''uuid'' @ dquote @ '': '')
            (attr_or_empty ''uuid'' e) (xml_Attribute ''uuid'' e))
         (component_error False e)) (\<lambda>componentUuid.
     catch_xpcf
       (bind_eff (gets_eff reg_context) (\<lambda>c.
          if \<not> mapContains (componentModuleUUIDMap c) componentUuid
          then bind_eff (the_module moduleInfo) (\<lambda>m.
               seq_eff (map_component componentUuid (md_uuid m))
              (bind_eff (string_of_ptr (xml_Attribute ''description'' e)) (\<lambda>description.
               bind_eff (lift_eff (newComponentMetadata (Some (attr_or_empty ''name'' e)) componentUuid (Some description))) (\<lambda>ci.
               bind_eff (new_component ci) (\<lambda>componentInfo.
               seq_eff (auto_alias AliasComponent (attr_or_empty ''name'' e) componentUuid)
              (seq_eff (heap_addComponent moduleInfo componentInfo)
                 (processXmlNode e ''interface'' (Registry_declareInterfaceNode pf bindFunc componentInfo))))))))
          else return_eff ()))
       (component_error True e))"

definition module_error :: "bool \<Rightarrow> xml \<Rightarrow> exn \<Rightarrow> ('s, exn, 'b) eff" where
  "module_error sub e = rethrow_in ''module'' sub
     (nonempty_attrs [(''uuid'', attr_or_empty ''uuid'' e), (''name'', attr_or_empty ''name'' e)])"

text \<open>
  The metadata object made for the element is put into the registry only when its identifier is new, but the
  components are added to that object in any case.
\<close>

definition Registry_declareModule ::
  "'p Platform_scheme \<Rightarrow> (uuid \<Rightarrow> uuid \<Rightarrow> ('a RegistryState_scheme, exn, unit) eff) \<Rightarrow> xml
     \<Rightarrow> ('a RegistryState_scheme, exn, unit) eff" where
  "Registry_declareModule pf bindFunc e =
     bind_eff
       (catch_xpcf
         (uuid_attribute (pf_uuid_of_string pf) (''UUID format invalid in '' @ dquote @ ''uuid'' @ dquote @ '': '')
            (attr_or_empty ''uuid'' e) (xml_Attribute ''uuid'' e))
         (module_error False e)) (\<lambda>moduleUuid.
     catch_xpcf
       (bind_eff (lift_eff (newModuleMetadata pf (Some (attr_or_empty ''name'' e)) moduleUuid
                    (Some (attr_or_empty ''description'' e)) (xml_Attribute ''path'' e))) (\<lambda>m.
        bind_eff (new_module m) (\<lambda>moduleInfo.
        seq_eff (bind_eff (gets_eff reg_context) (\<lambda>c.
                   if \<not> mapContains (modulesMap c) moduleUuid
                   then Registry_addModuleMetadata (Some moduleInfo) else return_eff ()))
          (processXmlNode e ''component'' (Registry_declareComponent pf bindFunc moduleInfo)))))
       (module_error True e))"

section \<open>Invariant\<close>

text \<open>
  What every operation keeps: the modules listed are those of the map, each once and under its own identifier; likewise
  the interfaces; every metadata object is below the next free address and every module is well formed.
\<close>

definition indexed :: "('m \<Rightarrow> uuid) \<Rightarrow> 'm list \<times> (uuid \<rightharpoonup> 'm) \<Rightarrow> bool" where
  "indexed uuid_of = (\<lambda>(v, m). distinct v \<and> set v = ran m \<and> (\<forall>u x. m u = Some x \<longrightarrow> uuid_of x = u))"

lemma indexed_addMetadata:
  "indexed uuid_of vm \<Longrightarrow> addMetadata x uuid_of vm = Inr vm' \<Longrightarrow> indexed uuid_of vm'"
proof -
  assume i: "indexed uuid_of vm" and a: "addMetadata x uuid_of vm = Inr vm'"
  obtain v m where vm: "vm = (v, m)" by (cases vm)
  from a obtain y where x: "x = Some y" by (cases x) (auto simp: addMetadata_def vm)
  show ?thesis
  proof (cases "m (uuid_of y)")
    case None
    moreover from None i have "y \<notin> ran m" by (auto simp: indexed_def vm ran_def)
    ultimately show ?thesis
      using i a by (auto simp: indexed_def vm x addMetadata_def findMetadata_def Collection_add_def split: if_splits)
  qed (use i a in \<open>simp add: vm x addMetadata_def findMetadata_def\<close>)
qed

definition registry_wf :: "'a RegistryState_scheme \<Rightarrow> bool" where
  "registry_wf s \<longleftrightarrow>
     indexed (\<lambda>a. md_uuid (the (mh_modules s a))) (modulesVector (reg_context s), modulesMap (reg_context s)) \<and>
     ran (modulesMap (reg_context s)) \<subseteq> dom (mh_modules s) \<and>
     ran (mgr_moduleMap s) \<subseteq> dom (mh_modules s) \<and>
     indexed md_uuid (interfacesVector (reg_context s), interfacesMap (reg_context s)) \<and>
     (\<forall>a m. mh_modules s a = Some m \<longrightarrow> a < mh_next s \<and> module_wf m) \<and>
     (\<forall>a m. mh_components s a = Some m \<longrightarrow> a < mh_next s)"

lemma indexed_cong:
  "(\<And>x. x \<in> ran m \<Longrightarrow> f x = g x) \<Longrightarrow> indexed f (v, m) = indexed g (v, m)"
  by (auto simp: indexed_def ranI)

lemma context_modify_run [eff_simps]: "context_modify f s = (Inr (), s\<lparr>reg_context := f (reg_context s)\<rparr>)"
  by (simp add: context_modify_def eff_simps)

lemma map_component_run [eff_simps]:
  "map_component u v s = (Inr (), s\<lparr>reg_context := (reg_context s)\<lparr>componentModuleUUIDMap :=
     (componentModuleUUIDMap (reg_context s))(u \<mapsto> v)\<rparr>\<rparr>)"
  by (simp add: map_component_def eff_simps)

text \<open>By the laws of the alias service, naming what has no name yet never throws.\<close>

lemma auto_alias_run: "\<exists>c. auto_alias t n u s = (Inr (), s\<lparr>reg_aliases := c\<rparr>)"
proof -
  have "declare_if_free t n u c = (Inr (), snd (declare_if_free t n u c))" for c
    unfolding declare_if_free_def by (rule aliases.declare_if_free_ok)
  then show ?thesis
    by (auto simp: auto_alias_def eff_simps split: prod.splits intro: exI [of _ "reg_aliases s"]) (metis Pair_inject)
qed

lemma auto_alias_keeps: "alias_view t' (reg_aliases s) \<subseteq>\<^sub>m alias_view t' (reg_aliases (snd (auto_alias t n u s)))"
  using aliases.declare_if_free_keeps [of t' "reg_aliases s" t n u]
  by (auto simp: auto_alias_def eff_simps declare_if_free_def split: prod.splits)

lemma preserves_auto_alias:
  "(\<And>s c. P s \<Longrightarrow> P (s\<lparr>reg_aliases := c\<rparr>)) \<Longrightarrow> preserves P (auto_alias t n u)"
  by (rule preservesI) (use auto_alias_run in \<open>metis snd_conv\<close>)

lemma registry_wf_simps [simp]:
  "registry_wf (s\<lparr>reg_aliases := c\<rparr>) = registry_wf s"
  "registry_wf (s\<lparr>reg_libraryLoaded := b\<rparr>) = registry_wf s"
  "registry_wf (s\<lparr>reg_autoAlias := b\<rparr>) = registry_wf s"
  "registry_wf (s\<lparr>mgr_funcMap := f\<rparr>) = registry_wf s"
  by (simp_all add: registry_wf_def)

named_theorems wf_steps \<open>operations that keep the registry well formed\<close>

lemma wf_auto_alias [wf_steps]: "preserves registry_wf (auto_alias t n u)"
  by (rule preserves_auto_alias) simp

lemma wf_map_component [wf_steps]: "preserves registry_wf (map_component u v)"
  by (rule preservesI) (simp add: eff_simps registry_wf_def)

lemma wf_new_component [wf_steps]: "preserves registry_wf (new_component m)"
  by (rule preservesI) (auto simp: eff_simps registry_wf_def less_SucI)

lemma wf_new_module [wf_steps]:
  assumes "module_wf m"
  shows "preserves registry_wf (new_module m)"
proof (rule preservesI)
  fix s :: "'a RegistryState_scheme"
  assume wf: "registry_wf s"
  have "indexed (\<lambda>a. md_uuid (the (((mh_modules s)(mh_next s \<mapsto> m)) a))) (modulesVector (reg_context s), modulesMap (reg_context s))
      = indexed (\<lambda>a. md_uuid (the (mh_modules s a))) (modulesVector (reg_context s), modulesMap (reg_context s))"
    using wf by (intro indexed_cong) (fastforce simp: registry_wf_def)
  with wf assms show "registry_wf (snd (new_module m s))"
    by (auto simp: eff_simps registry_wf_def less_SucI)
qed

lemma wf_the_module [wf_steps]: "preserves registry_wf (the_module a)"
  by (rule preservesI) (simp add: eff_simps split: option.splits)

lemma wf_the_component [wf_steps]: "preserves registry_wf (the_component a)"
  by (rule preservesI) (simp add: eff_simps split: option.splits)

lemma md_uuid_addComponent [simp]: "md_uuid (ModuleMetadata_addComponent c u m) = md_uuid m"
  by (simp add: ModuleMetadata_addComponent_def)

lemma wf_heap_addComponent [wf_steps]: "preserves registry_wf (heap_addComponent a c)"
proof (rule preservesI)
  fix s :: "'a RegistryState_scheme"
  assume wf: "registry_wf s"
  show "registry_wf (snd (heap_addComponent a c s))"
  proof (cases "mh_modules s a")
    case (Some m)
    with wf have m: "module_wf m" "a < mh_next s" by (auto simp: registry_wf_def)
    have same: "(\<lambda>b. md_uuid (the (((mh_modules s)(a \<mapsto> ModuleMetadata_addComponent c u m)) b)))
      = (\<lambda>b. md_uuid (the (mh_modules s b)))" for u
      using Some by auto
    show ?thesis
    proof (cases "mh_components s c")
      case ci: (Some ci)
      have "snd (heap_addComponent a c s) =
        s\<lparr>mh_modules := (mh_modules s)(a \<mapsto> ModuleMetadata_addComponent c (md_uuid ci) m)\<rparr>"
        using Some ci by (simp add: heap_addComponent_def eff_simps)
      with wf m same addComponent_wf [OF m(1)] show ?thesis
        by (auto simp: registry_wf_def simp del: fun_upd_apply) (auto split: if_splits)
    qed (use wf Some in \<open>simp add: heap_addComponent_def eff_simps\<close>)
  qed (use wf in \<open>simp add: heap_addComponent_def eff_simps\<close>)
qed

lemma wf_heap_addInterface [wf_steps]: "preserves registry_wf (heap_addInterface c u)"
  by (rule preservesI) (auto simp: heap_addInterface_def eff_simps registry_wf_def split: option.splits)

lemma wf_addInterfaceMetadata [wf_steps]: "preserves registry_wf (Registry_addInterfaceMetadata i)"
proof (rule preservesI)
  fix s :: "'a RegistryState_scheme"
  assume "registry_wf s"
  then show "registry_wf (snd (Registry_addInterfaceMetadata i s))"
    using indexed_addMetadata [of md_uuid "(interfacesVector (reg_context s), interfacesMap (reg_context s))" i]
    by (auto simp: Registry_addInterfaceMetadata_def eff_simps registry_wf_def split: sum.splits)
qed

lemma addModuleMetadata_wf:
  assumes "registry_wf s" and "mh_modules s a \<noteq> None"
  shows "registry_wf (snd (Registry_addModuleMetadata (Some a) s))"
  using assms indexed_addMetadata [of "\<lambda>a. md_uuid (the (mh_modules s a))"
    "(modulesVector (reg_context s), modulesMap (reg_context s))" "Some a"]
  by (auto simp: Registry_addModuleMetadata_def eff_simps registry_wf_def addMetadata_def findMetadata_def ran_def
      split: sum.splits option.splits)

text \<open>A bind whose second half needs what the first half established.\<close>

lemma preserves_bind_post:
  assumes "preserves P m" and "\<And>s x t. P s \<Longrightarrow> m s = (Inr x, t) \<Longrightarrow> P (snd (f x t))"
  shows "preserves P (bind_eff m f)"
proof (rule preservesI)
  fix s assume "P s"
  with assms(1) have "P (snd (m s))" by (rule preservesD)
  with assms(2) [OF \<open>P s\<close>] show "P (snd (bind_eff m f s))"
    by (auto simp: bind_eff_def split: prod.splits sum.splits)
qed

lemma preserves_seqD:
  "P (snd (m s)) \<Longrightarrow> preserves P n \<Longrightarrow> P (snd (seq_eff m n s))"
  by (auto simp: seq_eff_run preserves_def split: prod.splits sum.splits)

lemma wf_validateModule [wf_steps]: "preserves registry_wf (validateModule pf p)"
  by (auto simp: validateModule_def intro!: preserves_intros split: sum.splits)

lemma wf_createComponent [wf_steps]: "preserves registry_wf (ModuleManager_createComponent pf a u)"
  unfolding ModuleManager_createComponent_def validateModule_metadata_def
  by (intro preserves_intros wf_steps preserves_modify) simp_all

lemma wf_introspection_path [wf_steps]: "preserves registry_wf (introspection_path pf p)"
  unfolding introspection_path_def by (intro preserves_intros)

lemma wf_declareComponent_index [wf_steps]: "preserves registry_wf (ModuleMetadata_declareComponent pf a d)"
  unfolding ModuleMetadata_declareComponent_def by (cases d) (auto intro!: preserves_intros wf_steps)

lemma declareComponent_index_dom:
  "dom (mh_modules (snd (ModuleMetadata_declareComponent pf a d s))) = dom (mh_modules s)"
  by (auto simp: ModuleMetadata_declareComponent_def heap_addComponent_def eff_simps
      split: prod.splits option.splits sum.splits)

lemma declareComponents_index_dom:
  "dom (mh_modules (snd (for_eff (ModuleMetadata_declareComponent pf a) ds s))) = dom (mh_modules s)"
proof -
  have "preserves (\<lambda>t. dom (mh_modules t) = dom (mh_modules s)) (for_eff (ModuleMetadata_declareComponent pf a) ds)"
    by (intro preserves_for preservesI) (simp add: declareComponent_index_dom)
  from preservesD [OF this, of s] show ?thesis by simp
qed

lemma wf_moduleMap_upd:
  "registry_wf s \<Longrightarrow> mh_modules s a \<noteq> None \<Longrightarrow> registry_wf (s\<lparr>mgr_moduleMap := (mgr_moduleMap s)(u \<mapsto> a)\<rparr>)"
  by (auto simp: registry_wf_def ran_def)

lemma new_indexed_module_wf:
  fixes s :: "'a RegistryState_scheme"
  assumes "registry_wf s" and "module_wf m"
    and "bind_eff (new_module m) (\<lambda>moduleInfos.
           seq_eff (for_eff (ModuleMetadata_declareComponent pf moduleInfos) ds)
          (seq_eff (modify_eff (\<lambda>s. s\<lparr>mgr_moduleMap := (mgr_moduleMap s)(u \<mapsto> moduleInfos)\<rparr>))
             (return_eff moduleInfos))) s = (r, t)"
  shows "registry_wf t \<and> (\<forall>a. r = Inr a \<longrightarrow> mh_modules t a \<noteq> None)"
proof -
  let ?s = "s\<lparr>mh_modules := (mh_modules s)(mh_next s \<mapsto> m), mh_next := Suc (mh_next s)\<rparr>"
  let ?loop = "for_eff (ModuleMetadata_declareComponent pf (mh_next s)) ds"
  have "registry_wf ?s"
    using preservesD [OF wf_new_module [OF assms(2)] assms(1)] by (simp add: eff_simps)
  then have wf: "registry_wf (snd (?loop ?s))"
    by (rule preservesD [OF preserves_for [OF wf_declareComponent_index]])
  moreover have "mh_modules (snd (?loop ?s)) (mh_next s) \<noteq> None"
    using declareComponents_index_dom [of pf "mh_next s" ds ?s] by auto
  ultimately show ?thesis
    using assms(3) wf_moduleMap_upd [of "snd (?loop ?s)" "mh_next s" u]
    by (auto simp: eff_simps split: prod.splits sum.splits)
qed

lemma introspection_path_state: "snd (introspection_path pf p s) = s"
  by (auto simp: introspection_path_def eff_simps split: option.splits)

lemma validateModule_state: "snd (validateModule pf p s) = s"
  using validateModule_run [of pf p s] by (auto split: option.splits)

lemma introspectModule_wf:
  fixes s :: "'a RegistryState_scheme"
  assumes wf: "registry_wf s" and r: "ModuleManager_introspectModule pf p s = (r, t)"
  shows "registry_wf t \<and> (\<forall>a. r = Inr a \<longrightarrow> mh_modules t a \<noteq> None)"
proof -
  obtain q where q: "introspection_path pf p s = (q, s)"
    using introspection_path_state [of pf p s] by (metis prod.collapse)
  show ?thesis
  proof (cases q)
    case (Inr path)
    obtain v where v: "validateModule pf path s = (v, s)"
      using validateModule_state [of pf path s] by (metis prod.collapse)
    show ?thesis
    proof (cases v)
      case v': (Inr l)
      show ?thesis
      proof (cases "pf_uuid_of_string pf (dll_moduleUUID l)")
        case (Some u)
        note run = r [unfolded ModuleManager_introspectModule_def bind_eff_run q Inr v v' toUUID_def Some lift_eff_run
            gets_eff_run prod.case sum.case option.case]
        show ?thesis
        proof (cases "mgr_moduleMap s u")
          case None
          obtain m where m: "newModuleMetadata pf (Some (dll_moduleName l)) u (Some (dll_moduleDescription l))
              (Some (fs_parent_path pf path)) = Inr m"
            by (simp add: newModuleMetadata_def newInterfaceMetadata_def)
          show ?thesis
            using run unfolding None m option.case bind_eff_run lift_eff_run prod.case sum.case
            using new_indexed_module_wf [OF wf newModuleMetadata_wf [OF m], unfolded bind_eff_run] by blast
        next
          case (Some a)
          with wf have "mh_modules s a \<noteq> None" by (auto simp: registry_wf_def ran_def)
          with run wf Some show ?thesis by (auto simp: eff_simps)
        qed
      qed (use r wf q Inr v v' in \<open>auto simp: ModuleManager_introspectModule_def eff_simps toUUID_def\<close>)
    qed (use r wf q Inr v in \<open>auto simp: ModuleManager_introspectModule_def eff_simps\<close>)
  qed (use r wf q in \<open>auto simp: ModuleManager_introspectModule_def eff_simps\<close>)
qed

lemma wf_RegistryContext:
  "registry_wf s \<Longrightarrow> registry_wf (s\<lparr>reg_context := RegistryContext_clear (reg_context s)\<rparr>)"
  by (simp add: registry_wf_def RegistryContext_clear_def Collection_clear_def indexed_def)

lemma wf_clear [wf_steps]: "preserves registry_wf Registry_clear"
  unfolding Registry_clear_def
  by (intro preserves_seq preserves_modify) (auto intro!: preservesI wf_RegistryContext simp: eff_simps)

lemma wf_enableAutoAlias [wf_steps]: "preserves registry_wf (Registry_enableAutoAlias b)"
  unfolding Registry_enableAutoAlias_def by (intro preserves_modify) simp

text \<open>The readers of a registry file keep the registry well formed, when the bindFunc does.\<close>

lemma wf_declareInterfaceNode:
  assumes "\<And>u v. preserves registry_wf (bindFunc u v)"
  shows "preserves registry_wf (Registry_declareInterfaceNode pf bindFunc c e)"
  unfolding Registry_declareInterfaceNode_def interface_error_def
  by (intro preserves_intros preserves_catch_if wf_steps assms)

lemma wf_declareComponent:
  assumes "\<And>u v. preserves registry_wf (bindFunc u v)"
  shows "preserves registry_wf (Registry_declareComponent pf bindFunc a e)"
  unfolding Registry_declareComponent_def component_error_def
  by (intro preserves_intros preserves_catch_if wf_steps wf_declareInterfaceNode assms)

lemma wf_register_module:
  fixes rest :: "nat \<Rightarrow> ('a RegistryState_scheme, exn, unit) eff"
  assumes "module_wf m" and "\<And>a. preserves registry_wf (rest a)"
  shows "preserves registry_wf (bind_eff (new_module m) (\<lambda>a.
     seq_eff (bind_eff (gets_eff reg_context) (\<lambda>c.
                if \<not> mapContains (modulesMap c) u then Registry_addModuleMetadata (Some a) else return_eff ()))
       (rest a)))"
proof (rule preserves_bind_post [OF wf_new_module [OF assms(1)]])
  fix s t :: "'a RegistryState_scheme" and a
  assume s: "registry_wf s" and n: "new_module m s = (Inr a, t)"
  have "registry_wf t" and "mh_modules t a \<noteq> None"
    using preservesD [OF wf_new_module [OF assms(1)] s] n by (auto simp: eff_simps)
  then have "registry_wf (snd (bind_eff (gets_eff reg_context) (\<lambda>c.
      if \<not> mapContains (modulesMap c) u then Registry_addModuleMetadata (Some a) else return_eff ()) t))"
    using addModuleMetadata_wf by (auto simp: eff_simps)
  then show "registry_wf (snd (seq_eff (bind_eff (gets_eff reg_context) (\<lambda>c.
      if \<not> mapContains (modulesMap c) u then Registry_addModuleMetadata (Some a) else return_eff ())) (rest a) t))"
    by (rule preserves_seqD) (rule assms)
qed

lemma wf_declareModule:
  fixes bindFunc :: "uuid \<Rightarrow> uuid \<Rightarrow> ('a RegistryState_scheme, exn, unit) eff"
  assumes "\<And>u v. preserves registry_wf (bindFunc u v)"
  shows "preserves registry_wf (Registry_declareModule pf bindFunc e)"
proof -
  have "preserves registry_wf (bind_eff (new_module m) (\<lambda>a.
      seq_eff (bind_eff (gets_eff reg_context) (\<lambda>c.
                if \<not> mapContains (modulesMap c) u then Registry_addModuleMetadata (Some a) else return_eff ()))
        (processXmlNode e ''component'' (Registry_declareComponent pf bindFunc a))))"
    if "module_wf m" for m u
    using that by (intro wf_register_module preserves_processXmlNode wf_declareComponent assms)
  then have reg: "preserves registry_wf (bind_eff (lift_eff (newModuleMetadata pf n u d p)) (\<lambda>m. bind_eff (new_module m) (\<lambda>a.
      seq_eff (bind_eff (gets_eff reg_context) (\<lambda>c.
                if \<not> mapContains (modulesMap c) u then Registry_addModuleMetadata (Some a) else return_eff ()))
        (processXmlNode e ''component'' (Registry_declareComponent pf bindFunc a)))))" for n u d p
    by (intro preserves_bind_post preserves_lift) (auto simp: lift_eff_def dest: newModuleMetadata_wf preservesD)
  show ?thesis
    unfolding Registry_declareModule_def module_error_def
    by (rule preserves_bind, rule preserves_catch_if, rule preserves_uuid_attribute, rule preserves_rethrow_in,
        rule preserves_catch_if, rule reg, rule preserves_rethrow_in)
qed

text \<open>The readers of module libraries do too.\<close>

lemma wf_declare_module_component [wf_steps]:
  assumes "\<And>u v. preserves registry_wf (bindFunc u v)"
  shows "preserves registry_wf (declare_module_component pf bindFunc a u c)"
  unfolding declare_module_component_def declare_implemented_def
  by (intro preserves_intros wf_steps assms)

lemma declareModuleMetadata_wf:
  assumes "\<And>u v. preserves registry_wf (bindFunc u v)" and "registry_wf s" and "mh_modules s a \<noteq> None"
  shows "registry_wf (snd (Registry_declareModuleMetadata pf bindFunc (Some a) s))"
  unfolding Registry_declareModuleMetadata_def option.case
  by (rule preserves_seqD, rule addModuleMetadata_wf [OF assms(2,3)], intro preserves_intros wf_steps assms)

lemma wf_loadModuleMetadata:
  fixes bindFunc :: "uuid \<Rightarrow> uuid \<Rightarrow> ('a RegistryState_scheme, exn, unit) eff"
  assumes "\<And>u v. preserves registry_wf (bindFunc u v)"
  shows "preserves registry_wf (Registry_loadModuleMetadata pf bindFunc n p)"
  unfolding Registry_loadModuleMetadata_def ModuleManager_introspectModule_in_def
proof (rule preserves_bind_post)
  show "preserves registry_wf (ModuleManager_introspectModule pf q)" for q
    by (rule preservesI) (metis introspectModule_wf prod.collapse)
  fix s t :: "'a RegistryState_scheme" and x
  assume "registry_wf s" and "ModuleManager_introspectModule pf (PathBuilder_buildModuleFilePath pf n p) s = (Inr x, t)"
  from introspectModule_wf [OF this] have "registry_wf t" and "mh_modules t x \<noteq> None" by auto
  with declareModuleMetadata_wf [of bindFunc, OF assms]
  have "registry_wf (snd (Registry_declareModuleMetadata pf bindFunc (Some x) t))" by blast
  then show "registry_wf (snd (seq_eff (Registry_declareModuleMetadata pf bindFunc (Some x)) (return_eff SUCCESS) t))"
    by (rule preserves_seqD) (rule preserves_return)
qed

lemma wf_load_files:
  assumes "\<And>u v. preserves registry_wf (bindFunc u v)"
  shows "preserves registry_wf (load_files pf bindFunc r xs)"
proof (induction xs arbitrary: r)
  case Nil
  show ?case by (simp add: preserves_return)
next
  case (Cons x xs)
  then show ?case
    unfolding load_files.simps by (intro preserves_intros wf_loadModuleMetadata assms) auto
qed

lemma wf_declareModuleMetadata:
  assumes "\<And>u v. preserves registry_wf (bindFunc u v)" and "registry_wf s" and "\<And>a. info = Some a \<Longrightarrow> mh_modules s a \<noteq> None"
  shows "registry_wf (snd (Registry_declareModuleMetadata pf bindFunc info s))"
proof (cases info)
  case None
  then show ?thesis
    using assms(2) by (simp add: Registry_declareModuleMetadata_def Registry_addModuleMetadata_def addMetadata_def eff_simps)
next
  case (Some a)
  with declareModuleMetadata_wf [of bindFunc, OF assms(1,2)] assms(3) show ?thesis by blast
qed

text \<open>
  Property C8. Whatever is read - a module library, a folder of them, a \<open><module>\<close> element, the metadata of an existing module
  or a null pointer - and whether reading succeeds or throws halfway, the registry stays consistent: the modules and the
  interfaces it lists are those it finds by identifier, each listed once, and every pointer it holds is to an existing object.
  Clearing, \<open>enableAutoAlias\<close> and \<open>setContext\<close> with an empty context keep that too. \<open>setContext\<close> with another context is not in
  this: the one a cloned factory gets has the maps without the lists, and with it a registry that knows a module is not
  consistent.
\<close>

theorem registry_consistent:
  assumes "registry_wf s" and "\<And>u v. preserves registry_wf (bindFunc u v)" and "\<And>a. info = Some a \<Longrightarrow> mh_modules s a \<noteq> None"
  shows "registry_wf (snd (Registry_declareModule pf bindFunc e s)) \<and>
    registry_wf (snd (Registry_declareModuleMetadata pf bindFunc info s)) \<and>
    registry_wf (snd (Registry_loadModuleMetadata pf bindFunc n p s)) \<and>
    registry_wf (snd (Registry_loadModules pf bindFunc folder recurse s)) \<and>
    registry_wf (snd (Registry_clear s)) \<and> registry_wf (snd (Registry_enableAutoAlias b s)) \<and>
    registry_wf (snd (Registry_setContext RegistryContext_init s)) \<and>
    (modulesMap (reg_context s) \<noteq> Map.empty \<longrightarrow>
      \<not> registry_wf (snd (Registry_setContext ((reg_context s)\<lparr>modulesVector := []\<rparr>) s)))"
proof (intro conjI)
  have "preserves registry_wf (Registry_loadModules pf bindFunc folder recurse)"
    unfolding Registry_loadModules_def
    by (cases folder) (auto simp: Let_def intro!: preserves_intros wf_load_files assms)
  with assms(1) show "registry_wf (snd (Registry_loadModules pf bindFunc folder recurse s))" by (auto dest: preservesD)
  show "registry_wf (snd (Registry_setContext RegistryContext_init s))"
    using assms(1) by (simp add: Registry_setContext_def eff_simps registry_wf_def RegistryContext_init_def indexed_def)
  show "modulesMap (reg_context s) \<noteq> Map.empty \<longrightarrow>
      \<not> registry_wf (snd (Registry_setContext ((reg_context s)\<lparr>modulesVector := []\<rparr>) s))"
    by (auto simp: Registry_setContext_def eff_simps registry_wf_def indexed_def ran_def fun_eq_iff)
qed (use assms preservesD [OF wf_declareModule] preservesD [OF wf_loadModuleMetadata] preservesD [OF wf_clear]
    preservesD [OF wf_enableAutoAlias] wf_declareModuleMetadata in blast)+

definition sample_registry :: RegistryState where
  "sample_registry = ModuleManager.extend sample_manager
     (RegistryState.fields RegistryContext_init AliasContext_init True False)"

lemma sample_registry_wf: "registry_wf sample_registry"
  by (simp add: registry_wf_def indexed_def sample_registry_def sample_manager_def RegistryContext_init_def
      ModuleManager.extend_def RegistryState.fields_def)

theorem registry_consistent_witness:
  "registry_wf (snd (Registry_declareModule sample_platform (\<lambda>_ _. return_eff ())
      (Element ''module'' [(''uuid'', ''u-m''), (''name'', ''mod'')]
         [Element ''component'' [(''uuid'', ''bad'')] []]) sample_registry)) \<and>
   registry_wf (snd (Registry_loadModuleMetadata sample_platform (\<lambda>_ _. return_eff ()) ''mod'' '''' sample_registry))"
  using registry_consistent [OF sample_registry_wf, of "\<lambda>_ _. return_eff ()" None sample_platform
      "Element ''module'' [(''uuid'', ''u-m''), (''name'', ''mod'')] [Element ''component'' [(''uuid'', ''bad'')] []]"
      "''mod''" "''''"]
  by (simp add: preserves_return)

section \<open>What a registry file declares\<close>

text \<open>What an \<open><interface>\<close> and a \<open><component>\<close> element say when they are complete.\<close>

definition interface_of_node :: "'p Platform_scheme \<Rightarrow> xml \<Rightarrow> uuid option" where
  "interface_of_node pf e =
     (if xml_Attribute ''description'' e = None then None
      else Option.bind (xml_Attribute ''uuid'' e) (pf_uuid_of_string pf))"

definition component_of_node :: "'p Platform_scheme \<Rightarrow> xml \<Rightarrow> ComponentMetadata option" where
  "component_of_node pf e =
     (let interfaces = map (interface_of_node pf) (filter (is_element_named ''interface'') (xml_children e)) in
      case (Option.bind (xml_Attribute ''uuid'' e) (pf_uuid_of_string pf), xml_Attribute ''description'' e) of
        (Some u, Some d) \<Rightarrow>
          if None \<in> set interfaces then None
          else Some \<lparr>md_name = attr_or_empty ''name'' e, md_description = d, md_uuid = u,
                     cm_interfaceUUIDs = map the interfaces\<rparr>
      | _ \<Rightarrow> None)"

text \<open>A binder that only touches what lies beyond the registry, as the factory's does.\<close>

definition binds_outside :: "(uuid \<Rightarrow> uuid \<Rightarrow> ('a RegistryState_scheme, exn, unit) eff) \<Rightarrow> bool" where
  "binds_outside bindFunc \<longleftrightarrow>
     (\<forall>u v s. \<exists>x. bindFunc u v s = (Inr (), s\<lparr>RegistryState.more := x\<rparr>))"

text \<open>The part of the state that finding a component reads, apart from the component objects.\<close>

definition lookup_part :: "'a RegistryState_scheme \<Rightarrow> (nat \<rightharpoonup> ModuleMetadata) \<times> nat \<times> (uuid \<rightharpoonup> uuid) \<times> (uuid \<rightharpoonup> nat)" where
  "lookup_part s = (mh_modules s, mh_next s, componentModuleUUIDMap (reg_context s), modulesMap (reg_context s))"

lemma addInterfaceMetadata_run:
  "\<exists>v m. Registry_addInterfaceMetadata (Some i) s =
     (Inr (), s\<lparr>reg_context := (reg_context s)\<lparr>interfacesVector := v, interfacesMap := m\<rparr>\<rparr>)"
proof (cases "findMetadata (md_uuid i) (interfacesMap (reg_context s))")
  case None
  then show ?thesis
    by (auto simp: Registry_addInterfaceMetadata_def addMetadata_def eff_simps)
next
  case (Some j)
  then show ?thesis
    by (intro exI [of _ "interfacesVector (reg_context s)"] exI [of _ "interfacesMap (reg_context s)"])
       (simp add: Registry_addInterfaceMetadata_def addMetadata_def eff_simps)
qed

lemma declareInterfaceNode_ok:
  assumes bf: "binds_outside bindFunc" and i: "interface_of_node pf e = Some u" and c: "mh_components s a = Some ci"
  shows "\<exists>t. Registry_declareInterfaceNode pf bindFunc a e s = (Inr (), t) \<and> lookup_part t = lookup_part s \<and>
     mh_components t = (mh_components s)(a \<mapsto> ComponentMetadata_addInterface u ci)"
proof -
  from i obtain ut d where u: "xml_Attribute ''uuid'' e = Some ut" "pf_uuid_of_string pf ut = Some u"
    and d: "xml_Attribute ''description'' e = Some d"
    by (auto simp: interface_of_node_def bind_eq_Some_conv split: if_splits)
  let ?s1 = "s\<lparr>mh_components := (mh_components s)(a \<mapsto> ComponentMetadata_addInterface u ci)\<rparr>"
  obtain x where x: "bindFunc u (md_uuid (ComponentMetadata_addInterface u ci)) ?s1 = (Inr (), ?s1\<lparr>RegistryState.more := x\<rparr>)"
    using bf unfolding binds_outside_def by blast
  let ?s2 = "?s1\<lparr>RegistryState.more := x\<rparr>"
  obtain c2 where al: "auto_alias AliasInterface (attr_or_empty ''name'' e) u ?s2 = (Inr (), ?s2\<lparr>reg_aliases := c2\<rparr>)"
    using auto_alias_run by blast
  obtain v m where ai: "Registry_addInterfaceMetadata (Some \<lparr>md_name = attr_or_empty ''name'' e, md_description = d, md_uuid = u\<rparr>)
      (?s2\<lparr>reg_aliases := c2\<rparr>) = (Inr (), ?s2\<lparr>reg_aliases := c2, reg_context := (reg_context s)\<lparr>interfacesVector := v, interfacesMap := m\<rparr>\<rparr>)"
    using addInterfaceMetadata_run [of "\<lparr>md_name = attr_or_empty ''name'' e, md_description = d, md_uuid = u\<rparr>" "?s2\<lparr>reg_aliases := c2\<rparr>"]
    by auto
  show ?thesis
    using u d c x al ai
    by (cases "mapContains (interfacesMap (reg_context s)) u")
       (simp_all add: Registry_declareInterfaceNode_def eff_simps attr_or_empty_def [of "''uuid''"] heap_addInterface_def newInterfaceMetadata_def lookup_part_def)
qed

lemma declareInterfaceNodes_ok:
  assumes bf: "binds_outside bindFunc" and "None \<notin> set (map (interface_of_node pf) es)" and "mh_components s a = Some ci"
  shows "\<exists>t. for_eff (Registry_declareInterfaceNode pf bindFunc a) es s = (Inr (), t) \<and> lookup_part t = lookup_part s \<and>
     mh_components t = (mh_components s)(a \<mapsto> ci\<lparr>cm_interfaceUUIDs := cm_interfaceUUIDs ci @ map (the \<circ> interface_of_node pf) es\<rparr>)"
  using assms(2,3)
proof (induction es arbitrary: s ci)
  case Nil
  then show ?case by (auto simp: eff_simps)
next
  case (Cons e es)
  then obtain u where u: "interface_of_node pf e = Some u" by (cases "interface_of_node pf e") auto
  obtain t where t: "Registry_declareInterfaceNode pf bindFunc a e s = (Inr (), t)" "lookup_part t = lookup_part s"
    "mh_components t = (mh_components s)(a \<mapsto> ComponentMetadata_addInterface u ci)"
    using declareInterfaceNode_ok [OF bf u Cons.prems(2)] by blast
  then have "mh_components t a = Some (ComponentMetadata_addInterface u ci)" by simp
  with Cons.IH [of t "ComponentMetadata_addInterface u ci"] Cons.prems t show ?case
    by (auto simp: eff_simps u ComponentMetadata_addInterface_def Collection_add_def simp del: fun_upd_apply)
qed

text \<open>
  A complete component element of a module: its metadata object is made at the next address, is added to the module and
  holds the interfaces of the element, in order.
\<close>

lemma declareComponent_ok:
  assumes bf: "binds_outside bindFunc" and c: "component_of_node pf e = Some ci" and m: "mh_modules s a = Some m"
    and new: "componentModuleUUIDMap (reg_context s) (md_uuid ci) = None" and fresh: "\<forall>b \<in> dom (mh_components s). b < mh_next s"
  shows "\<exists>t. Registry_declareComponent pf bindFunc a e s = (Inr (), t) \<and>
     mh_components t = (mh_components s)(mh_next s \<mapsto> ci) \<and>
     lookup_part t = ((mh_modules s)(a \<mapsto> ModuleMetadata_addComponent (mh_next s) (md_uuid ci) m), Suc (mh_next s),
       (componentModuleUUIDMap (reg_context s))(md_uuid ci \<mapsto> md_uuid m), modulesMap (reg_context s))"
proof -
  let ?es = "filter (is_element_named ''interface'') (xml_children e)"
  from c obtain ut d where u: "xml_Attribute ''uuid'' e = Some ut" "pf_uuid_of_string pf ut = Some (md_uuid ci)"
    and d: "xml_Attribute ''description'' e = Some d" and nodes: "None \<notin> set (map (interface_of_node pf) ?es)"
    and ci: "ci = \<lparr>md_name = attr_or_empty ''name'' e, md_description = d, md_uuid = md_uuid ci,
                     cm_interfaceUUIDs = map (the \<circ> interface_of_node pf) ?es\<rparr>"
    by (auto simp: component_of_node_def Let_def bind_eq_Some_conv split: option.splits if_splits)
  let ?ci0 = "ci\<lparr>cm_interfaceUUIDs := []\<rparr>"
  have n: "newComponentMetadata (Some (attr_or_empty ''name'' e)) (md_uuid ci) (Some d) = Inr ?ci0"
    by (subst (2) ci) (simp add: newComponentMetadata_def newInterfaceMetadata_def InterfaceMetadata.extend_def
        ComponentMetadata.fields_def)
  let ?s1 = "s\<lparr>reg_context := (reg_context s)\<lparr>componentModuleUUIDMap :=
     (componentModuleUUIDMap (reg_context s))(md_uuid ci \<mapsto> md_uuid m)\<rparr>,
     mh_components := (mh_components s)(mh_next s \<mapsto> ?ci0), mh_next := Suc (mh_next s)\<rparr>"
  obtain x where x: "auto_alias AliasComponent (attr_or_empty ''name'' e) (md_uuid ci) ?s1 = (Inr (), ?s1\<lparr>reg_aliases := x\<rparr>)"
    using auto_alias_run by blast
  let ?s2 = "?s1\<lparr>reg_aliases := x, mh_modules := (mh_modules s)(a \<mapsto> ModuleMetadata_addComponent (mh_next s) (md_uuid ci) m)\<rparr>"
  have add: "heap_addComponent a (mh_next s) (?s1\<lparr>reg_aliases := x\<rparr>) = (Inr (), ?s2)"
    using m by (simp add: heap_addComponent_def eff_simps)
  obtain t where t: "for_eff (Registry_declareInterfaceNode pf bindFunc (mh_next s)) ?es ?s2 = (Inr (), t)"
    "lookup_part t = lookup_part ?s2"
    "mh_components t = (mh_components ?s2)(mh_next s \<mapsto> ?ci0\<lparr>cm_interfaceUUIDs := [] @ map (the \<circ> interface_of_node pf) ?es\<rparr>)"
    using declareInterfaceNodes_ok [OF bf nodes, of ?s2 "mh_next s" ?ci0] by auto
  have whole: "?ci0\<lparr>cm_interfaceUUIDs := [] @ map (the \<circ> interface_of_node pf) ?es\<rparr> = ci"
    by (subst (2) ci) (subst ci, simp)
  have "Registry_declareComponent pf bindFunc a e s = (Inr (), t)"
    using u d m n x add t(1) new
    by (simp add: Registry_declareComponent_def eff_simps attr_or_empty_def [of "''uuid''"] domIff)
  with t whole show ?thesis by (simp add: lookup_part_def)
qed

lemma declareComponents_ok:
  assumes bf: "binds_outside bindFunc"
    and "map (component_of_node pf) es = map Some cs" and "distinct (map md_uuid cs)"
    and "\<forall>ci \<in> set cs. componentModuleUUIDMap (reg_context s) (md_uuid ci) = None \<and> mm_moduleComponentMap m (md_uuid ci) = None"
    and "mh_modules s a = Some m" and "\<forall>b \<in> dom (mh_components s). b < mh_next s"
  shows "\<exists>t m'. for_eff (Registry_declareComponent pf bindFunc a) es s = (Inr (), t) \<and>
     modulesMap (reg_context t) = modulesMap (reg_context s) \<and>
     mh_modules t = (mh_modules s)(a \<mapsto> m') \<and> md_uuid m' = md_uuid m \<and>
     (\<forall>v b. mm_moduleComponentMap m v = Some b \<longrightarrow> mm_moduleComponentMap m' v = Some b) \<and>
     (\<forall>b \<in> dom (mh_components s). mh_components t b = mh_components s b) \<and>
     (\<forall>v. v \<notin> md_uuid ` set cs \<longrightarrow>
        componentModuleUUIDMap (reg_context t) v = componentModuleUUIDMap (reg_context s) v) \<and>
     (\<forall>ci \<in> set cs. componentModuleUUIDMap (reg_context t) (md_uuid ci) = Some (md_uuid m) \<and>
        (\<exists>b. mm_moduleComponentMap m' (md_uuid ci) = Some b \<and> mh_components t b = Some ci))"
  using assms(2-)
proof (induction es arbitrary: s m cs)
  case Nil
  then show ?case by (auto simp: eff_simps intro!: exI [of _ m])
next
  case (Cons e es)
  then obtain c cs' where cs: "cs = c # cs'" and c: "component_of_node pf e = Some c"
    and cs': "map (component_of_node pf) es = map Some cs'"
    by (cases cs) auto
  let ?n = "mh_next s" and ?m = "ModuleMetadata_addComponent (mh_next s) (md_uuid c) m"
  obtain t where t: "Registry_declareComponent pf bindFunc a e s = (Inr (), t)"
    "mh_components t = (mh_components s)(?n \<mapsto> c)"
    "mh_modules t = (mh_modules s)(a \<mapsto> ?m)" "mh_next t = Suc ?n"
    "componentModuleUUIDMap (reg_context t) = (componentModuleUUIDMap (reg_context s))(md_uuid c \<mapsto> md_uuid m)"
    "modulesMap (reg_context t) = modulesMap (reg_context s)"
    using declareComponent_ok [OF bf c Cons.prems(4), unfolded lookup_part_def] Cons.prems(3,5) cs by auto
  have m: "mm_moduleComponentMap ?m = (mm_moduleComponentMap m)(md_uuid c \<mapsto> ?n)"
    using Cons.prems(3) cs by (simp add: ModuleMetadata_addComponent_def)
  have ne: "\<forall>ci \<in> set cs'. md_uuid ci \<noteq> md_uuid c"
    using Cons.prems(2) cs by (metis distinct.simps(2) image_eqI list.set_map list.simps(9))
  have fresh: "\<forall>b \<in> dom (mh_components t). b < mh_next t"
    using t(2,4) Cons.prems(5) by (auto simp: less_SucI split: if_splits)
  have "\<exists>t' m'. for_eff (Registry_declareComponent pf bindFunc a) es t = (Inr (), t') \<and>
     modulesMap (reg_context t') = modulesMap (reg_context t) \<and>
     mh_modules t' = (mh_modules t)(a \<mapsto> m') \<and> md_uuid m' = md_uuid ?m \<and>
     (\<forall>v b. mm_moduleComponentMap ?m v = Some b \<longrightarrow> mm_moduleComponentMap m' v = Some b) \<and>
     (\<forall>b \<in> dom (mh_components t). mh_components t' b = mh_components t b) \<and>
     (\<forall>v. v \<notin> md_uuid ` set cs' \<longrightarrow>
        componentModuleUUIDMap (reg_context t') v = componentModuleUUIDMap (reg_context t) v) \<and>
     (\<forall>ci \<in> set cs'. componentModuleUUIDMap (reg_context t') (md_uuid ci) = Some (md_uuid ?m) \<and>
        (\<exists>b. mm_moduleComponentMap m' (md_uuid ci) = Some b \<and> mh_components t' b = Some ci))"
    using Cons.prems t(3,5,6) cs ne fresh by (intro Cons.IH [OF cs']) (auto simp: m)
  then obtain t' m' where t': "for_eff (Registry_declareComponent pf bindFunc a) es t = (Inr (), t')"
     "modulesMap (reg_context t') = modulesMap (reg_context t)"
     "mh_modules t' = (mh_modules t)(a \<mapsto> m')" "md_uuid m' = md_uuid ?m"
     "\<forall>v b. mm_moduleComponentMap ?m v = Some b \<longrightarrow> mm_moduleComponentMap m' v = Some b"
     "\<forall>b \<in> dom (mh_components t). mh_components t' b = mh_components t b"
     "\<forall>v. v \<notin> md_uuid ` set cs' \<longrightarrow>
        componentModuleUUIDMap (reg_context t') v = componentModuleUUIDMap (reg_context t) v"
     "\<forall>ci \<in> set cs'. componentModuleUUIDMap (reg_context t') (md_uuid ci) = Some (md_uuid ?m) \<and>
        (\<exists>b. mm_moduleComponentMap m' (md_uuid ci) = Some b \<and> mh_components t' b = Some ci)"
    by blast
  have old: "mm_moduleComponentMap m v = Some b \<longrightarrow> mm_moduleComponentMap m' v = Some b" for v b
    using t'(5) Cons.prems(3) cs by (cases "v = md_uuid c") (auto simp: m)
  have kept: "\<forall>b \<in> dom (mh_components s). mh_components t' b = mh_components s b"
    using t'(6) t(2) Cons.prems(5) by (metis domIff fun_upd_apply less_irrefl option.distinct(1))
  have head: "componentModuleUUIDMap (reg_context t') (md_uuid c) = Some (md_uuid m)"
    using t'(7) t(5) Cons.prems(2) cs by simp
  have obj: "mm_moduleComponentMap m' (md_uuid c) = Some ?n \<and> mh_components t' ?n = Some c"
    using t'(5,6) t(2) by (simp add: m)
  show ?case
    using t t' old kept head obj cs by (intro exI [of _ t'] exI [of _ m']) (auto simp: eff_simps)
qed

text \<open>A module element and its complete, new components.\<close>

definition complete_module :: "'p Platform_scheme \<Rightarrow> xml \<Rightarrow> uuid \<Rightarrow> ComponentMetadata list \<Rightarrow> 'a RegistryState_scheme \<Rightarrow> bool" where
  "complete_module pf e u cs s \<longleftrightarrow>
     Option.bind (xml_Attribute ''uuid'' e) (pf_uuid_of_string pf) = Some u \<and>
     map (component_of_node pf) (filter (is_element_named ''component'') (xml_children e)) = map Some cs \<and>
     distinct (map md_uuid cs) \<and>
     (\<forall>ci \<in> set cs. componentModuleUUIDMap (reg_context s) (md_uuid ci) = None)"

lemma declareModule_ok:
  assumes wf: "registry_wf s" and bf: "binds_outside bindFunc" and e: "complete_module pf e u cs s"
  shows "\<exists>t m'. Registry_declareModule pf bindFunc e s = (Inr (), t) \<and>
     modulesMap (reg_context t) = (if modulesMap (reg_context s) u = None
       then (modulesMap (reg_context s))(u \<mapsto> mh_next s) else modulesMap (reg_context s)) \<and>
     mh_modules t = (mh_modules s)(mh_next s \<mapsto> m') \<and>
     (\<forall>ci \<in> set cs. componentModuleUUIDMap (reg_context t) (md_uuid ci) = Some u \<and>
        (\<exists>b. mm_moduleComponentMap m' (md_uuid ci) = Some b \<and> mh_components t b = Some ci))"
proof -
  let ?a = "mh_next s"
  let ?es = "filter (is_element_named ''component'') (xml_children e)"
  from e obtain ut where u: "xml_Attribute ''uuid'' e = Some ut" "pf_uuid_of_string pf ut = Some u"
    by (auto simp: complete_module_def bind_eq_Some_conv)
  obtain m where m: "newModuleMetadata pf (Some (attr_or_empty ''name'' e)) u
      (Some (attr_or_empty ''description'' e)) (xml_Attribute ''path'' e) = Inr m"
    by (simp add: newModuleMetadata_def newInterfaceMetadata_def)
  then have m0: "md_uuid m = u" "mm_moduleComponentMap m = Map.empty"
    by (auto simp: newModuleMetadata_def newInterfaceMetadata_def ModuleMetadata_setPath_def Let_def
        InterfaceMetadata.extend_def ModuleMetadata.fields_def split: option.splits)
  let ?s1 = "s\<lparr>mh_modules := (mh_modules s)(?a \<mapsto> m), mh_next := Suc ?a\<rparr>"
  obtain s2 where s2: "(if mapContains (modulesMap (reg_context s)) u then (Inr (), ?s1)
      else Registry_addModuleMetadata (Some ?a) ?s1) = (Inr (), s2)"
    and keep: "mh_components s2 = mh_components s" "mh_next s2 = Suc ?a" "mh_modules s2 = (mh_modules s)(?a \<mapsto> m)"
      "componentModuleUUIDMap (reg_context s2) = componentModuleUUIDMap (reg_context s)"
    and mods: "modulesMap (reg_context s2) = (if modulesMap (reg_context s) u = None
       then (modulesMap (reg_context s))(u \<mapsto> ?a) else modulesMap (reg_context s))"
    using m0 by (cases "modulesMap (reg_context s) u")
      (simp_all add: Registry_addModuleMetadata_def addMetadata_def findMetadata_def eff_simps domIff)
  have "\<exists>t m'. for_eff (Registry_declareComponent pf bindFunc ?a) ?es s2 = (Inr (), t) \<and>
     modulesMap (reg_context t) = modulesMap (reg_context s2) \<and>
     mh_modules t = (mh_modules s2)(?a \<mapsto> m') \<and> md_uuid m' = md_uuid m \<and>
     (\<forall>v b. mm_moduleComponentMap m v = Some b \<longrightarrow> mm_moduleComponentMap m' v = Some b) \<and>
     (\<forall>b \<in> dom (mh_components s2). mh_components t b = mh_components s2 b) \<and>
     (\<forall>v. v \<notin> md_uuid ` set cs \<longrightarrow>
        componentModuleUUIDMap (reg_context t) v = componentModuleUUIDMap (reg_context s2) v) \<and>
     (\<forall>ci \<in> set cs. componentModuleUUIDMap (reg_context t) (md_uuid ci) = Some (md_uuid m) \<and>
        (\<exists>b. mm_moduleComponentMap m' (md_uuid ci) = Some b \<and> mh_components t b = Some ci))"
    using e wf m0 keep
    by (intro declareComponents_ok [OF bf]) (auto simp: complete_module_def registry_wf_def less_SucI)
  then show ?thesis
    using u m m0 s2 keep mods
    by (auto simp: Registry_declareModule_def eff_simps attr_or_empty_def [of "''uuid''"] split: if_splits
        simp del: fun_upd_apply)
qed

text \<open>
  Property C24. A complete \<open><module>\<close> element whose module is not known yet is read without an error, and afterwards each of its
  components is found by its identifier, with the name, the description and the interfaces of its element,
  in their order.
\<close>

theorem declareModule_finds_components:
  assumes "registry_wf s" and "binds_outside bindFunc" and "complete_module pf e u cs s"
    and "modulesMap (reg_context s) u = None"
  shows "\<exists>t. Registry_declareModule pf bindFunc e s = (Inr (), t) \<and>
     (\<forall>ci \<in> set cs. \<exists>b. Registry_findComponentMetadata pf (md_uuid ci) t = Inr (Some b) \<and> mh_components t b = Some ci)"
proof -
  obtain t m' where t: "Registry_declareModule pf bindFunc e s = (Inr (), t)"
    "modulesMap (reg_context t) = (modulesMap (reg_context s))(u \<mapsto> mh_next s)"
    "mh_modules t = (mh_modules s)(mh_next s \<mapsto> m')"
    and cs: "\<forall>ci \<in> set cs. componentModuleUUIDMap (reg_context t) (md_uuid ci) = Some u \<and>
        (\<exists>b. mm_moduleComponentMap m' (md_uuid ci) = Some b \<and> mh_components t b = Some ci)"
    using declareModule_ok [OF assms(1-3)] assms(4) by auto
  have "\<exists>b. Registry_findComponentMetadata pf (md_uuid ci) t = Inr (Some b) \<and> mh_components t b = Some ci"
    if "ci \<in> set cs" for ci
    using cs that t(2,3)
    by (auto simp: Registry_findComponentMetadata_def Registry_getModuleUUID_def Registry_findModuleMetadata_def
        safeFindMetadata_def findMetadata_def ModuleMetadata_getComponentMetadata_def domIff)
  with t(1) show ?thesis by blast
qed

text \<open>
  Property C28. A component that a second \<open><module>\<close> element adds to a module the registry knows already is recorded as one of
  that module and is not found: \<open>findComponentMetadata\<close> returns a null pointer, because the component went to the metadata
  object of the second element, which the registry drops.
\<close>

theorem second_module_element_lost:
  assumes "registry_wf s" and "binds_outside bindFunc" and "complete_module pf e u cs s"
    and "modulesMap (reg_context s) u = Some a" and "mh_modules s a = Some m"
    and "ci \<in> set cs" and "ModuleMetadata_getComponentMetadata (md_uuid ci) m = None"
  shows "\<exists>t. Registry_declareModule pf bindFunc e s = (Inr (), t) \<and>
     Registry_getModuleUUID pf (md_uuid ci) t = Inr u \<and>
     Registry_findComponentMetadata pf (md_uuid ci) t = Inr None"
proof -
  obtain t m' where t: "Registry_declareModule pf bindFunc e s = (Inr (), t)"
    "modulesMap (reg_context t) = modulesMap (reg_context s)"
    "mh_modules t = (mh_modules s)(mh_next s \<mapsto> m')"
    and c: "componentModuleUUIDMap (reg_context t) (md_uuid ci) = Some u"
    using declareModule_ok [OF assms(1-3)] assms(4,6) by auto
  have "a \<noteq> mh_next s" using assms(1,5) by (auto simp: registry_wf_def)
  with t(2,3) c assms(4,5,7) have "Registry_getModuleUUID pf (md_uuid ci) t = Inr u \<and>
      Registry_findComponentMetadata pf (md_uuid ci) t = Inr None"
    by (simp add: Registry_findComponentMetadata_def Registry_getModuleUUID_def Registry_findModuleMetadata_def
        safeFindMetadata_def findMetadata_def domIff)
  with t(1) show ?thesis by blast
qed

text \<open>The element of the witnesses: one component with one interface.\<close>

definition sample_module_element :: xml where
  "sample_module_element =
     Element ''module'' [(''uuid'', ''u-m''), (''name'', ''mod'')]
       [Element ''component'' [(''uuid'', ''u-c''), (''name'', ''comp''), (''description'', ''d'')]
         [Element ''interface'' [(''uuid'', ''u-i''), (''name'', ''I''), (''description'', '''')] []]]"

definition sample_component :: ComponentMetadata where
  "sample_component = \<lparr>md_name = ''comp'', md_description = ''d'', md_uuid = 21, cm_interfaceUUIDs = [9]\<rparr>"

lemma sample_platform_uuid: "pf_uuid_of_string sample_platform ''u-i'' = Some 9"
  by (simp add: sample_platform_def Filesystem.extend_def Platform.fields_def)

lemma sample_complete:
  "componentModuleUUIDMap (reg_context s) 21 = None \<Longrightarrow>
   complete_module sample_platform sample_module_element 20 [sample_component] s"
  by (simp add: complete_module_def sample_module_element_def component_of_node_def interface_of_node_def
      attr_or_empty_def sample_uuid sample_platform_uuid sample_component_def)

lemma sample_binds_outside: "binds_outside (\<lambda>_ _. return_eff () :: (RegistryState, exn, unit) eff)"
  by (simp add: binds_outside_def eff_simps)

lemma sample_registry_context: "reg_context sample_registry = RegistryContext_init"
  by (simp add: sample_registry_def ModuleManager.extend_def RegistryState.fields_def)

theorem declareModule_finds_components_witness:
  "\<exists>t b. Registry_declareModule sample_platform (\<lambda>_ _. return_eff ()) sample_module_element sample_registry = (Inr (), t) \<and>
     Registry_findComponentMetadata sample_platform 21 t = Inr (Some b) \<and> mh_components t b = Some sample_component"
  using declareModule_finds_components [OF sample_registry_wf sample_binds_outside sample_complete]
  by (simp add: sample_registry_context RegistryContext_init_def) (simp add: sample_component_def)

text \<open>A registry that knows the module, without components.\<close>

definition sample_module :: ModuleMetadata where
  "sample_module = \<lparr>md_name = ''mod'', md_description = '''', md_uuid = 20, mm_componentUUIDs = [], mm_components = [],
     mm_moduleComponentMap = Map.empty, mm_modulePath = '''', mm_moduleFullPath = ''''\<rparr>"

definition sample_known :: RegistryState where
  "sample_known = sample_registry\<lparr>mh_modules := [0 \<mapsto> sample_module],
     reg_context := RegistryContext_init\<lparr>modulesVector := [0], modulesMap := [20 \<mapsto> 0]\<rparr>\<rparr>"

theorem second_module_element_lost_witness:
  "\<exists>t. Registry_declareModule sample_platform (\<lambda>_ _. return_eff ()) sample_module_element sample_known = (Inr (), t) \<and>
     Registry_getModuleUUID sample_platform 21 t = Inr 20 \<and>
     Registry_findComponentMetadata sample_platform 21 t = Inr None"
proof -
  have wf: "registry_wf sample_known"
    by (simp add: registry_wf_def indexed_def sample_known_def sample_registry_def sample_manager_def RegistryContext_init_def
        ModuleManager.extend_def RegistryState.fields_def sample_module_def module_wf_def)
  have known: "modulesMap (reg_context sample_known) 20 = Some 0" "mh_modules sample_known 0 = Some sample_module"
    "componentModuleUUIDMap (reg_context sample_known) 21 = None"
    by (simp_all add: sample_known_def RegistryContext_init_def)
  show ?thesis
    using second_module_element_lost [OF wf sample_binds_outside sample_complete [OF known(3)] known(1,2), of sample_component]
    by (simp add: sample_component_def ModuleMetadata_getComponentMetadata_def sample_module_def)
qed

section \<open>The directory of modules\<close>

text \<open>
  What the property manager and the factory rely on when they ask which module a component belongs to: the answer is
  the recorded one, and without one the exception is a \<open>ModuleNotFoundException\<close>. Asking changes nothing.
\<close>

locale module_directory =
  fixes module_of :: "uuid \<Rightarrow> 's \<Rightarrow> exn + uuid"
    and modules :: "'s \<Rightarrow> (uuid \<rightharpoonup> uuid)"
  assumes known: "modules s u = Some m \<Longrightarrow> module_of u s = Inr m"
    and unknown: "modules s u = None \<Longrightarrow> \<exists>w. module_of u s = Inl (exception_of_text ModuleNotFoundException w)"
begin

text \<open>Code that handles \<open>ModuleNotFoundException\<close> runs its handler exactly for components without a module.\<close>

lemma handled:
  assumes "\<And>m e. modules s u = Some m \<Longrightarrow> fst (f m s) \<noteq> Inl e"
  shows "catch_if (is_instance ModuleNotFoundException)
      (bind_eff (gets_eff (module_of u)) (\<lambda>r. bind_eff (lift_eff r) f)) (\<lambda>_. g) s =
    (case modules s u of None \<Rightarrow> g s | Some m \<Rightarrow> f m s)"
proof (cases "modules s u")
  case None
  with unknown obtain w where "module_of u s = Inl (exception_of_text ModuleNotFoundException w)"
    by blast
  with None show ?thesis by (simp add: eff_simps exception_of_text_def)
next
  case (Some m)
  obtain r t where f: "f m s = (r, t)" by (cases "f m s")
  with Some assms [of m] obtain x where "r = Inr x" by (cases r) auto
  with f Some known [of s u m] show ?thesis by (simp add: eff_simps)
qed

lemma refused_iff: "(\<exists>e. module_of u s = Inl e) \<longleftrightarrow> modules s u = None"
proof (cases "modules s u")
  case None
  then show ?thesis using unknown by blast
next
  case (Some m)
  then show ?thesis using known [of s u m] by simp
qed

end

interpretation directory: module_directory "Registry_getModuleUUID pf" "\<lambda>s. componentModuleUUIDMap (reg_context s)" for pf
  by unfold_locales (auto simp: Registry_getModuleUUID_def)

end
