(* ===== verification/Xpcf_PropertyManager.thy ===== *)
theory Xpcf_PropertyManager
  imports Xpcf_Registry
begin

text \<open>
  \<^verbatim>\<open>src/PropertyManager.cpp\<close>, first part: which configuration file belongs to which component. The state extends that
  of the registry, which the property manager asks for the module of a component. How a file configures a
  component is in \<open>Xpcf_Configure\<close>.
\<close>

section \<open>State\<close>

record PropertyContext =
  moduleConfigMap :: "uuid \<rightharpoonup> string"
  componentConfigMap :: "uuid \<rightharpoonup> string"

record PropertyManagerState = RegistryState +
  pmgr_context :: PropertyContext

definition PropertyContext_init :: PropertyContext where
  "PropertyContext_init = \<lparr>moduleConfigMap = Map.empty, componentConfigMap = Map.empty\<rparr>"

definition PropertyContext_clear :: "PropertyContext \<Rightarrow> PropertyContext" where
  "PropertyContext_clear c = c\<lparr>moduleConfigMap := Map.empty, componentConfigMap := Map.empty\<rparr>"

definition props_modify :: "(PropertyContext \<Rightarrow> PropertyContext) \<Rightarrow> ('a PropertyManagerState_scheme, exn, unit) eff" where
  "props_modify f = modify_eff (\<lambda>s. s\<lparr>pmgr_context := f (pmgr_context s)\<rparr>)"

definition PropertyManager_clear :: "('a PropertyManagerState_scheme, exn, unit) eff" where
  "PropertyManager_clear = props_modify PropertyContext_clear"

definition PropertyManager_getContext :: "'a PropertyManagerState_scheme \<Rightarrow> PropertyContext" where
  "PropertyManager_getContext s = pmgr_context s"

definition PropertyManager_setContext :: "PropertyContext \<Rightarrow> ('a PropertyManagerState_scheme, exn, unit) eff" where
  "PropertyManager_setContext c = modify_eff (\<lambda>s. s\<lparr>pmgr_context := c\<rparr>)"

section \<open>Recording the files\<close>

text \<open>
  The code both readers share: the first file that configures a component of a module is recorded for the module; a
  different one is recorded for the component, as is every file for a component without a module.
\<close>

definition record_configuration ::
  "'p Platform_scheme \<Rightarrow> uuid \<Rightarrow> string \<Rightarrow> ('a PropertyManagerState_scheme, exn, unit) eff" where
  "record_configuration pf componentUuid configFilePath =
     catch_if (is_instance ModuleNotFoundException)
       (bind_eff (gets_eff (Registry_getModuleUUID pf componentUuid)) (\<lambda>r. bind_eff (lift_eff r) (\<lambda>moduleUuid.
        bind_eff (gets_eff pmgr_context) (\<lambda>c.
          case moduleConfigMap c moduleUuid of
            None \<Rightarrow> props_modify (\<lambda>c. c\<lparr>moduleConfigMap := (moduleConfigMap c)(moduleUuid \<mapsto> configFilePath)\<rparr>)
          | Some moduleConfigurationPath \<Rightarrow>
              if \<not> fs_path_eq pf moduleConfigurationPath configFilePath
              then props_modify (\<lambda>c. c\<lparr>componentConfigMap := (componentConfigMap c)(componentUuid \<mapsto> configFilePath)\<rparr>)
              else return_eff ()))))
       (\<lambda>_. props_modify (\<lambda>c. c\<lparr>componentConfigMap := (componentConfigMap c)(componentUuid \<mapsto> configFilePath)\<rparr>))"

definition PropertyManager_declareComponent ::
  "'p Platform_scheme \<Rightarrow> string \<Rightarrow> xml \<Rightarrow> ('a PropertyManagerState_scheme, exn, unit) eff" where
  "PropertyManager_declareComponent pf configFilePath e =
     (let componentUuidStr = attr_or_empty ''uuid'' e in
      catch_xpcf
        (bind_eff (uuid_attribute (pf_uuid_of_string pf) (''UUID format invalid in '' @ dquote @ ''uuid'' @ dquote @ '': '')
                     componentUuidStr (xml_Attribute ''uuid'' e)) (\<lambda>componentUuid.
           record_configuration pf componentUuid configFilePath))
        (rethrow_in ''component'' False [(''uuid'', componentUuidStr)]))"

text \<open>An identifier written as an alias when the alias is known, as a UUID otherwise.\<close>

definition alias_or_uuid ::
  "'p Platform_scheme \<Rightarrow> AliasType \<Rightarrow> string \<Rightarrow> string \<Rightarrow> ('a RegistryState_scheme, exn, uuid) eff" where
  "alias_or_uuid pf t msg attrValue =
     bind_eff (gets_eff reg_aliases) (\<lambda>c.
       if AliasManager_aliasExists t attrValue c then lift_eff (AliasManager_resolve t attrValue c)
       else uuid_attribute (pf_uuid_of_string pf) msg attrValue (Some attrValue))"

definition PropertyManager_declareConfigure ::
  "'p Platform_scheme \<Rightarrow> string \<Rightarrow> xml \<Rightarrow> ('a PropertyManagerState_scheme, exn, unit) eff" where
  "PropertyManager_declareConfigure pf configFilePath e =
     (let componentAttrValue = attr_or_empty ''component'' e in
      catch_xpcf
        (bind_eff (alias_or_uuid pf AliasComponent (''UUID format invalid in '' @ dquote @ ''component'' @ dquote @ '': '')
                     componentAttrValue) (\<lambda>componentUuid.
           record_configuration pf componentUuid configFilePath))
        (rethrow_in ''configure'' False [(''component'', componentAttrValue)]))"

definition PropertyManager_declareConfiguration ::
  "'p Platform_scheme \<Rightarrow> string \<Rightarrow> xml \<Rightarrow> ('a PropertyManagerState_scheme, exn, unit) eff" where
  "PropertyManager_declareConfiguration pf configFilePath e =
     catch_xpcf (processXmlNode e ''component'' (PropertyManager_declareComponent pf configFilePath))
       (rethrow_in ''configuration'' True [])"

definition PropertyManager_declareProperties ::
  "'p Platform_scheme \<Rightarrow> string \<Rightarrow> xml \<Rightarrow> ('a PropertyManagerState_scheme, exn, unit) eff" where
  "PropertyManager_declareProperties pf configFilePath e =
     catch_xpcf (processXmlNode e ''configure'' (PropertyManager_declareConfigure pf configFilePath))
       (rethrow_in ''properties'' True [])"

text \<open>The empty path is the answer when nothing is recorded.\<close>

definition PropertyManager_getConfigPath ::
  "'p Platform_scheme \<Rightarrow> uuid \<Rightarrow> 'a PropertyManagerState_scheme \<Rightarrow> string" where
  "PropertyManager_getConfigPath pf componentUUID s =
     (case componentConfigMap (pmgr_context s) componentUUID of
        Some path \<Rightarrow> path
      | None \<Rightarrow>
          (case Registry_getModuleUUID pf componentUUID s of
             Inl _ \<Rightarrow> ''''
           | Inr moduleUUID \<Rightarrow>
               (case moduleConfigMap (pmgr_context s) moduleUUID of None \<Rightarrow> '''' | Some path \<Rightarrow> path)))"

section \<open>Properties\<close>

lemma props_modify_run [eff_simps]: "props_modify f s = (Inr (), s\<lparr>pmgr_context := f (pmgr_context s)\<rparr>)"
  by (simp add: props_modify_def eff_simps)

lemma record_configuration_run:
  fixes s :: "'a PropertyManagerState_scheme"
  shows "record_configuration pf u path s = (Inr (), s\<lparr>pmgr_context :=
    (let c = pmgr_context s; special = c\<lparr>componentConfigMap := (componentConfigMap c)(u \<mapsto> path)\<rparr> in
     case componentModuleUUIDMap (reg_context s) u of
       None \<Rightarrow> special
     | Some m \<Rightarrow>
         (case moduleConfigMap c m of
            None \<Rightarrow> c\<lparr>moduleConfigMap := (moduleConfigMap c)(m \<mapsto> path)\<rparr>
          | Some p \<Rightarrow> if fs_path_eq pf p path then c else special))\<rparr>)"
  unfolding record_configuration_def Let_def
  by (subst directory.handled) (auto simp: eff_simps split: option.splits)

lemma getConfigPath_view:
  "PropertyManager_getConfigPath pf u s =
     (case componentConfigMap (pmgr_context s) u of
        Some path \<Rightarrow> path
      | None \<Rightarrow> (case Option.bind (componentModuleUUIDMap (reg_context s) u) (moduleConfigMap (pmgr_context s)) of
           None \<Rightarrow> '''' | Some path \<Rightarrow> path))"
  by (auto simp: PropertyManager_getConfigPath_def Registry_getModuleUUID_def split: option.splits)

text \<open>
  Property C29. Recording a file never throws. Afterwards the component is configured by that file, unless the file is
  the one its module already has, when what was recorded for the component stays, or it is the first of the module
  and the component had a file of its own. Components of other modules, and those that have a file, keep theirs.
\<close>

theorem configuration_recorded:
  assumes "componentModuleUUIDMap (reg_context s) u = m" and "componentModuleUUIDMap (reg_context s) v = n" and "v \<noteq> u"
  shows "let t = snd (record_configuration pf u path s); c = pmgr_context s in
    fst (record_configuration pf u path s) = Inr () \<and>
    PropertyManager_getConfigPath pf u t =
      (case Option.bind m (moduleConfigMap c) of
         Some p \<Rightarrow> if fs_path_eq pf p path then PropertyManager_getConfigPath pf u s else path
       | None \<Rightarrow> if m \<noteq> None \<and> componentConfigMap c u \<noteq> None then PropertyManager_getConfigPath pf u s else path) \<and>
    PropertyManager_getConfigPath pf v t =
      (if m \<noteq> None \<and> n = m \<and> Option.bind m (moduleConfigMap c) = None \<and> componentConfigMap c v = None
       then path else PropertyManager_getConfigPath pf v s)"
  using assms by (cases n) (auto simp: record_configuration_run getConfigPath_view Let_def split: option.splits)

definition sample_props :: PropertyManagerState where
  "sample_props = RegistryState.extend
     (sample_registry\<lparr>reg_context := RegistryContext_init\<lparr>componentModuleUUIDMap := [21 \<mapsto> 20, 22 \<mapsto> 20]\<rparr>\<rparr>)
     (PropertyManagerState.fields PropertyContext_init)"

theorem configuration_recorded_witness:
  "PropertyManager_getConfigPath sample_platform 22 (snd (record_configuration sample_platform 21 ''a.xml'' sample_props))
     = ''a.xml''"
  using configuration_recorded [of sample_props 21 "Some 20" 22 "Some 20" sample_platform "''a.xml''"]
  by (simp add: sample_props_def RegistryState.extend_def PropertyManagerState.fields_def RegistryContext_init_def
      PropertyContext_init_def Let_def)

end
