(* ===== verification/Xpcf_Bindings.thy ===== *)
theory Xpcf_Bindings
  imports Xpcf_PropertyManager
begin

text \<open>
  The bindings of \<^verbatim>\<open>src/Factory.cpp\<close>: which component stands for an interface. The operations that record
  bindings (\<open>bind\<close>, \<open>autobind\<close>, \<open>bindCore\<close>), the search for the binding that applies in a context (\<open>resolveBind\<close>), and a
  specification of that search. Resolving a binding to a component is in \<open>Xpcf_Factory\<close>.
\<close>

unbundle bit_operations_syntax

section \<open>Bindings\<close>

datatype BindingScope = Transient | Singleton

type_synonym range_mask = "8 word"

definition BindingRange_Core :: range_mask where "BindingRange_Core = 0"
definition BindingRange_Explicit :: range_mask where "BindingRange_Explicit = 1"
definition BindingRange_WithParents :: range_mask where "BindingRange_WithParents = 2"
definition BindingRange_Named :: range_mask where "BindingRange_Named = 4"
definition BindingRange_Default :: range_mask where "BindingRange_Default = 8"
definition BindingRange_All :: range_mask where "BindingRange_All = 16"

lemmas range_defs = BindingRange_Core_def BindingRange_Explicit_def BindingRange_WithParents_def
  BindingRange_Named_def BindingRange_Default_def BindingRange_All_def

record FactoryBindInfos =
  bi_componentUUID :: uuid
  bi_scope :: BindingScope
  bi_bindingRangeMask :: range_mask
  bi_properties :: string

definition in_range :: "FactoryBindInfos \<Rightarrow> range_mask \<Rightarrow> bool" where
  "in_range b rangeMask \<longleftrightarrow> bi_bindingRangeMask b AND rangeMask \<noteq> 0"

text \<open>
  Component objects and the next free address. A creation function of the application or of the framework is a
  computation on the heap that returns the address of a component.
\<close>

record ComponentHeap =
  ch_objects :: Objects
  ch_next :: nat

type_synonym factory_method = "(ComponentHeap, exn, nat) eff"

record FactoryContext =
  autoBindings :: "uuid \<rightharpoonup> FactoryBindInfos"
  defaultBindings :: "uuid \<rightharpoonup> FactoryBindInfos"
  multiBindings :: "uuid \<rightharpoonup> FactoryBindInfos list"
  bindingsProperties :: "uuid \<times> uuid \<rightharpoonup> string"
  multiBindingsProperties :: "uuid \<times> uuid \<rightharpoonup> string"
  namedBindings :: "uuid \<times> string \<rightharpoonup> FactoryBindInfos"
  namedBindingsProperties :: "uuid \<times> string \<rightharpoonup> string"
  factoryMethods :: "uuid \<rightharpoonup> factory_method"
  specificBindings :: "uuid \<rightharpoonup> (uuid \<rightharpoonup> FactoryBindInfos)"
  specificNamedBindings :: "uuid \<rightharpoonup> (uuid \<times> string \<rightharpoonup> FactoryBindInfos)"

definition FactoryContext_init :: FactoryContext where
  "FactoryContext_init = \<lparr>autoBindings = Map.empty, defaultBindings = Map.empty, multiBindings = Map.empty,
     bindingsProperties = Map.empty, multiBindingsProperties = Map.empty, namedBindings = Map.empty,
     namedBindingsProperties = Map.empty, factoryMethods = Map.empty, specificBindings = Map.empty,
     specificNamedBindings = Map.empty\<rparr>"

definition FactoryContext_clear :: "FactoryContext \<Rightarrow> FactoryContext" where
  "FactoryContext_clear c = c\<lparr>autoBindings := Map.empty, defaultBindings := Map.empty, multiBindings := Map.empty,
     namedBindings := Map.empty, namedBindingsProperties := Map.empty, bindingsProperties := Map.empty,
     multiBindingsProperties := Map.empty, factoryMethods := Map.empty, specificBindings := Map.empty,
     specificNamedBindings := Map.empty\<rparr>"

section \<open>Recording\<close>

definition Factory_autobind :: "uuid \<Rightarrow> uuid \<Rightarrow> FactoryContext \<Rightarrow> FactoryContext" where
  "Factory_autobind interfaceUUID instanceUUID c =
     (if \<not> mapContains (defaultBindings c) interfaceUUID
      then c\<lparr>autoBindings := (autoBindings c)(interfaceUUID \<mapsto>
             \<lparr>bi_componentUUID = instanceUUID, bi_scope = Transient, bi_bindingRangeMask = BindingRange_All,
              bi_properties = ''''\<rparr>)\<rparr>
      else c)"

definition Factory_bindCore ::
  "uuid \<Rightarrow> FactoryBindInfos \<Rightarrow> (uuid \<rightharpoonup> FactoryBindInfos) \<Rightarrow> (uuid \<rightharpoonup> FactoryBindInfos)" where
  "Factory_bindCore interfaceUUID bindInfos coreBindings = coreBindings(interfaceUUID \<mapsto> bindInfos)"

definition Factory_bind_infos :: "uuid \<Rightarrow> FactoryBindInfos \<Rightarrow> FactoryContext \<Rightarrow> FactoryContext" where
  "Factory_bind_infos interfaceUUID bindInfos c =
     (let c = (if mapContains (autoBindings c) interfaceUUID
               then c\<lparr>autoBindings := (autoBindings c)(interfaceUUID := None)\<rparr> else c)
      in c\<lparr>defaultBindings := (defaultBindings c)(interfaceUUID \<mapsto> bindInfos)\<rparr>)"

definition Factory_bind :: "uuid \<Rightarrow> uuid \<Rightarrow> BindingScope \<Rightarrow> range_mask \<Rightarrow> FactoryContext \<Rightarrow> FactoryContext" where
  "Factory_bind interfaceUUID instanceUUID scope rangeMask =
     Factory_bind_infos interfaceUUID \<lparr>bi_componentUUID = instanceUUID, bi_scope = scope, bi_bindingRangeMask = rangeMask, bi_properties = ''''\<rparr>"

definition Factory_bind_named_infos :: "string \<Rightarrow> uuid \<Rightarrow> FactoryBindInfos \<Rightarrow> FactoryContext \<Rightarrow> FactoryContext" where
  "Factory_bind_named_infos name interfaceUUID bindInfos c =
     c\<lparr>namedBindings := (namedBindings c)((interfaceUUID, name) \<mapsto> bindInfos)\<rparr>"

definition Factory_bind_named ::
  "string \<Rightarrow> uuid \<Rightarrow> uuid \<Rightarrow> BindingScope \<Rightarrow> range_mask \<Rightarrow> FactoryContext \<Rightarrow> FactoryContext" where
  "Factory_bind_named name interfaceUUID instanceUUID scope rangeMask =
     Factory_bind_named_infos name interfaceUUID
       \<lparr>bi_componentUUID = instanceUUID, bi_scope = scope, bi_bindingRangeMask = rangeMask, bi_properties = ''''\<rparr>"

text \<open>\<open>operator[]\<close> makes an empty inner map for a target that has none.\<close>

definition inner_map :: "('k \<rightharpoonup> ('l \<rightharpoonup> 'v)) \<Rightarrow> 'k \<Rightarrow> ('l \<rightharpoonup> 'v)" where
  "inner_map m k = (case m k of None \<Rightarrow> Map.empty | Some i \<Rightarrow> i)"

definition Factory_bind_specific_infos :: "uuid \<Rightarrow> uuid \<Rightarrow> FactoryBindInfos \<Rightarrow> FactoryContext \<Rightarrow> FactoryContext" where
  "Factory_bind_specific_infos targetComponentUUID interfaceUUID bindInfos c =
     c\<lparr>specificBindings := (specificBindings c)(targetComponentUUID \<mapsto>
         (inner_map (specificBindings c) targetComponentUUID)(interfaceUUID \<mapsto> bindInfos))\<rparr>"

definition Factory_bind_specific ::
  "uuid \<Rightarrow> uuid \<Rightarrow> uuid \<Rightarrow> BindingScope \<Rightarrow> range_mask \<Rightarrow> FactoryContext \<Rightarrow> FactoryContext" where
  "Factory_bind_specific targetComponentUUID interfaceUUID instanceUUID scope rangeMask =
     Factory_bind_specific_infos targetComponentUUID interfaceUUID
       \<lparr>bi_componentUUID = instanceUUID, bi_scope = scope, bi_bindingRangeMask = rangeMask, bi_properties = ''''\<rparr>"

definition Factory_bind_specific_named_infos ::
  "uuid \<Rightarrow> string \<Rightarrow> uuid \<Rightarrow> FactoryBindInfos \<Rightarrow> FactoryContext \<Rightarrow> FactoryContext" where
  "Factory_bind_specific_named_infos targetComponentUUID name interfaceUUID bindInfos c =
     c\<lparr>specificNamedBindings := (specificNamedBindings c)(targetComponentUUID \<mapsto>
         (inner_map (specificNamedBindings c) targetComponentUUID)((interfaceUUID, name) \<mapsto> bindInfos))\<rparr>"

definition Factory_bind_specific_named ::
  "uuid \<Rightarrow> string \<Rightarrow> uuid \<Rightarrow> uuid \<Rightarrow> BindingScope \<Rightarrow> range_mask \<Rightarrow> FactoryContext \<Rightarrow> FactoryContext" where
  "Factory_bind_specific_named targetComponentUUID name interfaceUUID instanceUUID scope rangeMask =
     Factory_bind_specific_named_infos targetComponentUUID name interfaceUUID
       \<lparr>bi_componentUUID = instanceUUID, bi_scope = scope, bi_bindingRangeMask = rangeMask, bi_properties = ''''\<rparr>"

text \<open>The variants with a creation function record it for the component.\<close>

definition record_method :: "FactoryBindInfos \<Rightarrow> factory_method \<Rightarrow> FactoryContext \<Rightarrow> FactoryContext" where
  "record_method bindInfos factoryFunc c =
     c\<lparr>factoryMethods := (factoryMethods c)(bi_componentUUID bindInfos \<mapsto> factoryFunc)\<rparr>"

definition Factory_bind_method_infos ::
  "uuid \<Rightarrow> factory_method \<Rightarrow> FactoryBindInfos \<Rightarrow> FactoryContext \<Rightarrow> FactoryContext" where
  "Factory_bind_method_infos interfaceUUID factoryFunc bindInfos c =
     record_method bindInfos factoryFunc (Factory_bind_infos interfaceUUID bindInfos c)"

definition Factory_bind_method ::
  "uuid \<Rightarrow> uuid \<Rightarrow> factory_method \<Rightarrow> BindingScope \<Rightarrow> range_mask \<Rightarrow> FactoryContext \<Rightarrow> FactoryContext" where
  "Factory_bind_method interfaceUUID instanceUUID factoryFunc scope rangeMask =
     Factory_bind_method_infos interfaceUUID factoryFunc
       \<lparr>bi_componentUUID = instanceUUID, bi_scope = scope, bi_bindingRangeMask = rangeMask, bi_properties = ''''\<rparr>"

definition Factory_bind_named_method_infos ::
  "string \<Rightarrow> uuid \<Rightarrow> factory_method \<Rightarrow> FactoryBindInfos \<Rightarrow> FactoryContext \<Rightarrow> FactoryContext" where
  "Factory_bind_named_method_infos name interfaceUUID factoryFunc bindInfos c =
     record_method bindInfos factoryFunc (Factory_bind_named_infos name interfaceUUID bindInfos c)"

definition Factory_bind_named_method ::
  "string \<Rightarrow> uuid \<Rightarrow> uuid \<Rightarrow> factory_method \<Rightarrow> BindingScope \<Rightarrow> range_mask \<Rightarrow> FactoryContext \<Rightarrow> FactoryContext" where
  "Factory_bind_named_method name interfaceUUID instanceUUID factoryFunc scope rangeMask =
     Factory_bind_named_method_infos name interfaceUUID factoryFunc
       \<lparr>bi_componentUUID = instanceUUID, bi_scope = scope, bi_bindingRangeMask = rangeMask, bi_properties = ''''\<rparr>"

definition Factory_bind_specific_method_infos ::
  "uuid \<Rightarrow> uuid \<Rightarrow> factory_method \<Rightarrow> FactoryBindInfos \<Rightarrow> FactoryContext \<Rightarrow> FactoryContext" where
  "Factory_bind_specific_method_infos targetComponentUUID interfaceUUID factoryFunc bindInfos c =
     record_method bindInfos factoryFunc (Factory_bind_specific_infos targetComponentUUID interfaceUUID bindInfos c)"

definition Factory_bind_specific_method ::
  "uuid \<Rightarrow> uuid \<Rightarrow> factory_method \<Rightarrow> uuid \<Rightarrow> BindingScope \<Rightarrow> range_mask \<Rightarrow> FactoryContext \<Rightarrow> FactoryContext" where
  "Factory_bind_specific_method targetComponentUUID interfaceUUID factoryFunc instanceUUID scope rangeMask =
     Factory_bind_specific_method_infos targetComponentUUID interfaceUUID factoryFunc
       \<lparr>bi_componentUUID = instanceUUID, bi_scope = scope, bi_bindingRangeMask = rangeMask, bi_properties = ''''\<rparr>"

definition Factory_bind_specific_named_method_infos ::
  "uuid \<Rightarrow> string \<Rightarrow> uuid \<Rightarrow> factory_method \<Rightarrow> FactoryBindInfos \<Rightarrow> FactoryContext \<Rightarrow> FactoryContext" where
  "Factory_bind_specific_named_method_infos targetComponentUUID name interfaceUUID factoryFunc bindInfos c =
     record_method bindInfos factoryFunc
       (Factory_bind_specific_named_infos targetComponentUUID name interfaceUUID bindInfos c)"

definition Factory_bind_specific_named_method ::
  "uuid \<Rightarrow> string \<Rightarrow> uuid \<Rightarrow> factory_method \<Rightarrow> uuid \<Rightarrow> BindingScope \<Rightarrow> range_mask \<Rightarrow> FactoryContext \<Rightarrow> FactoryContext" where
  "Factory_bind_specific_named_method targetComponentUUID name interfaceUUID factoryFunc instanceUUID scope rangeMask =
     Factory_bind_specific_named_method_infos targetComponentUUID name interfaceUUID factoryFunc
       \<lparr>bi_componentUUID = instanceUUID, bi_scope = scope, bi_bindingRangeMask = rangeMask, bi_properties = ''''\<rparr>"

section \<open>Searching\<close>

text \<open>
  A context is the list of the bindings through which the component that is injected was reached, the closest first; the
  factory pushes contexts of type \<open>ContextComponent\<close> only.
\<close>

datatype ContextType = ContextComponent | ContextNamed | ContextSpecific | ContextMulti

type_synonym BindContext = "ContextType \<times> FactoryBindInfos"

definition not_explicit :: "(uuid \<Rightarrow> string) \<Rightarrow> uuid \<Rightarrow> uuid \<Rightarrow> exn" where
  "not_explicit to_string interfaceUUID componentUUID =
     exception_of_text InjectableNotFoundException
       (''No explicit binding found to resolve component from interface UUID = '' @ to_string interfaceUUID
          @ '' to inject to '' @ to_string componentUUID)"

definition not_found :: "(uuid \<Rightarrow> string) \<Rightarrow> uuid \<Rightarrow> exn" where
  "not_found to_string interfaceUUID =
     exception_of_text InjectableNotFoundException
       (''No [auto|default|named] binding found to resolve component from interface UUID = '' @ to_string interfaceUUID)"

text \<open>The loop over the contexts: a binding found, nothing found so far, or an exception.\<close>

fun specific_search ::
  "(uuid \<Rightarrow> string) \<Rightarrow> FactoryContext \<Rightarrow> (uuid \<rightharpoonup> FactoryBindInfos) \<Rightarrow> uuid \<Rightarrow> BindContext list \<Rightarrow> exn + FactoryBindInfos option"
where
  "specific_search ts c core u [] = Inr None"
| "specific_search ts c core u ((contextType, contextValue) # rest) =
     (if contextType = ContextComponent
      then (case inner_map (specificBindings c) (bi_componentUUID contextValue) u of
              Some b \<Rightarrow> Inr (Some b)
            | None \<Rightarrow>
                if bi_bindingRangeMask contextValue = BindingRange_Explicit
                then (case core u of
                        Some b \<Rightarrow> Inr (Some b)
                      | None \<Rightarrow> Inl (not_explicit ts u (bi_componentUUID contextValue)))
                else if \<not> in_range contextValue BindingRange_WithParents then Inr None
                else specific_search ts c core u rest)
      else specific_search ts c core u rest)"

text \<open>What the last context, the one resolution started from, allows.\<close>

definition root_allows :: "BindContext list \<Rightarrow> range_mask \<Rightarrow> bool" where
  "root_allows contextLevels rangeMask \<longleftrightarrow> contextLevels = [] \<or> in_range (snd (last contextLevels)) rangeMask"

definition Factory_resolveBind ::
  "(uuid \<Rightarrow> string) \<Rightarrow> FactoryContext \<Rightarrow> (uuid \<rightharpoonup> FactoryBindInfos) \<Rightarrow> uuid \<Rightarrow> BindContext list \<Rightarrow> exn + FactoryBindInfos" where
  "Factory_resolveBind ts c core u contextLevels =
     (case specific_search ts c core u contextLevels of
        Inl e \<Rightarrow> Inl e
      | Inr (Some b) \<Rightarrow> Inr b
      | Inr None \<Rightarrow>
          if root_allows contextLevels (BindingRange_Default OR BindingRange_All) \<and> mapContains (defaultBindings c) u
          then Inr (the (defaultBindings c u))
          else if root_allows contextLevels BindingRange_All \<and> mapContains (autoBindings c) u
          then Inr (the (autoBindings c u))
          else case core u of Some b \<Rightarrow> Inr b | None \<Rightarrow> Inl (not_found ts u))"

definition not_explicit_named :: "(uuid \<Rightarrow> string) \<Rightarrow> uuid \<Rightarrow> string \<Rightarrow> uuid \<Rightarrow> exn" where
  "not_explicit_named to_string interfaceUUID name componentUUID =
     exception_of_text InjectableNotFoundException
       (''No explicit binding found to resolve component from interface UUID = '' @ to_string interfaceUUID
          @ '' named '' @ name @ '' to inject to '' @ to_string componentUUID)"

fun specific_named_search ::
  "(uuid \<Rightarrow> string) \<Rightarrow> FactoryContext \<Rightarrow> uuid \<Rightarrow> string \<Rightarrow> BindContext list \<Rightarrow> exn + FactoryBindInfos option" where
  "specific_named_search ts c u name [] = Inr None"
| "specific_named_search ts c u name ((contextType, contextValue) # rest) =
     (if contextType = ContextComponent
      then (case inner_map (specificNamedBindings c) (bi_componentUUID contextValue) (u, name) of
              Some b \<Rightarrow> Inr (Some b)
            | None \<Rightarrow>
                if bi_bindingRangeMask contextValue = BindingRange_Explicit
                then Inl (not_explicit_named ts u name (bi_componentUUID contextValue))
                else if \<not> in_range contextValue BindingRange_WithParents then Inr None
                else specific_named_search ts c u name rest)
      else specific_named_search ts c u name rest)"

definition Factory_resolveBind_named ::
  "(uuid \<Rightarrow> string) \<Rightarrow> FactoryContext \<Rightarrow> (uuid \<rightharpoonup> FactoryBindInfos) \<Rightarrow> uuid \<Rightarrow> string \<Rightarrow> BindContext list
     \<Rightarrow> exn + FactoryBindInfos" where
  "Factory_resolveBind_named ts c core u name contextLevels =
     (case specific_named_search ts c u name contextLevels of
        Inl e \<Rightarrow> Inl e
      | Inr (Some b) \<Rightarrow> Inr b
      | Inr None \<Rightarrow>
          if root_allows contextLevels (BindingRange_Named OR BindingRange_Default OR BindingRange_All)
               \<and> mapContains (namedBindings c) (u, name)
          then Inr (the (namedBindings c (u, name)))
          else if contextLevels \<noteq> [] \<and> \<not> in_range (snd (last contextLevels)) (BindingRange_Default OR BindingRange_All)
          then Inl (exception_of_text InjectableNotFoundException
            (''No default named binding found to resolve component from interface UUID = '' @ ts u @ '' named '' @ name))
          else Factory_resolveBind ts c core u contextLevels)"

definition Factory_getComponentUUID ::
  "(uuid \<Rightarrow> string) \<Rightarrow> FactoryContext \<Rightarrow> (uuid \<rightharpoonup> FactoryBindInfos) \<Rightarrow> uuid \<Rightarrow> exn + uuid" where
  "Factory_getComponentUUID ts c core u = map_sum id bi_componentUUID (Factory_resolveBind ts c core u [])"

definition Factory_getComponentUUID_named ::
  "(uuid \<Rightarrow> string) \<Rightarrow> FactoryContext \<Rightarrow> (uuid \<rightharpoonup> FactoryBindInfos) \<Rightarrow> uuid \<Rightarrow> string \<Rightarrow> exn + uuid" where
  "Factory_getComponentUUID_named ts c core u name =
     map_sum id bi_componentUUID (Factory_resolveBind_named ts c core u name [])"

section \<open>What the search promises\<close>

text \<open>
  The contexts the search looks at: from the closest on, as long as they let it see their parents, and the first that
  does not. Among them the first with a binding of its own for the interface decides; after them come, as far as
  the root allows, the default, the automatic and the core binding.
\<close>

definition sees_parents :: "FactoryBindInfos \<Rightarrow> bool" where
  "sees_parents b \<longleftrightarrow> in_range b BindingRange_WithParents"

definition visible :: "BindContext list \<Rightarrow> FactoryBindInfos list" where
  "visible contextLevels = takeWhile sees_parents (map snd contextLevels)
     @ take 1 (dropWhile sees_parents (map snd contextLevels))"

fun first_some :: "'a option list \<Rightarrow> 'a option" where
  "first_some [] = None"
| "first_some (None # xs) = first_some xs"
| "first_some (Some x # xs) = Some x"

definition closest :: "('k \<rightharpoonup> ('l \<rightharpoonup> FactoryBindInfos)) \<Rightarrow> (FactoryBindInfos \<Rightarrow> 'k) \<Rightarrow> 'l \<Rightarrow> FactoryBindInfos list \<Rightarrow> FactoryBindInfos option" where
  "closest m key u bs = first_some (map (\<lambda>b. inner_map m (key b) u) bs)"

definition stops_explicit :: "FactoryBindInfos list \<Rightarrow> bool" where
  "stops_explicit bs \<longleftrightarrow> bs \<noteq> [] \<and> bi_bindingRangeMask (last bs) = BindingRange_Explicit"

definition only_components :: "BindContext list \<Rightarrow> bool" where
  "only_components contextLevels \<longleftrightarrow> list_all (\<lambda>x. fst x = ContextComponent) contextLevels"

lemma in_range_or: "in_range b (m OR n) \<longleftrightarrow> in_range b m \<or> in_range b n"
  by (simp add: in_range_def bit.conj_disj_distrib or_eq_0_iff)

lemma explicit_sees_no_parents: "bi_bindingRangeMask b = BindingRange_Explicit \<Longrightarrow> \<not> sees_parents b"
  by (simp add: sees_parents_def in_range_def range_defs)

lemma visible_simps [simp]:
  "visible [] = []"
  "visible ((t, b) # rest) = (if sees_parents b then b # visible rest else [b])"
  by (simp_all add: visible_def)

lemma closest_simps [simp]:
  "closest m key u [] = None"
  "closest m key u (b # bs) = (case inner_map m (key b) u of Some x \<Rightarrow> Some x | None \<Rightarrow> closest m key u bs)"
  by (simp_all add: closest_def split: option.splits)

lemma specific_search_spec:
  assumes "only_components ctxs"
  shows "specific_search ts c core u ctxs =
    (case closest (specificBindings c) bi_componentUUID u (visible ctxs) of
       Some b \<Rightarrow> Inr (Some b)
     | None \<Rightarrow>
         if stops_explicit (visible ctxs)
         then (case core u of Some b \<Rightarrow> Inr (Some b)
               | None \<Rightarrow> Inl (not_explicit ts u (bi_componentUUID (last (visible ctxs)))))
         else Inr None)"
  using assms
proof (induction ctxs)
  case (Cons x rest)
  obtain b where x: "x = (ContextComponent, b)"
    using Cons.prems by (cases x) (auto simp: only_components_def)
  have rest: "only_components rest"
    using Cons.prems by (simp add: only_components_def)
  show ?case
  proof (cases "sees_parents b")
    case True
    then have "bi_bindingRangeMask b \<noteq> BindingRange_Explicit"
      using explicit_sees_no_parents by blast
    with True Cons.IH [OF rest] show ?thesis
      by (auto simp: x stops_explicit_def sees_parents_def split: option.splits)
  next
    case False
    then show ?thesis by (auto simp: x stops_explicit_def sees_parents_def split: option.splits)
  qed
qed (simp add: stops_explicit_def)

lemma specific_named_search_spec:
  assumes "only_components ctxs"
  shows "specific_named_search ts c u name ctxs =
    (case closest (specificNamedBindings c) bi_componentUUID (u, name) (visible ctxs) of
       Some b \<Rightarrow> Inr (Some b)
     | None \<Rightarrow>
         if stops_explicit (visible ctxs)
         then Inl (not_explicit_named ts u name (bi_componentUUID (last (visible ctxs)))) else Inr None)"
  using assms
proof (induction ctxs)
  case (Cons x rest)
  obtain b where x: "x = (ContextComponent, b)"
    using Cons.prems by (cases x) (auto simp: only_components_def)
  have rest: "only_components rest"
    using Cons.prems by (simp add: only_components_def)
  show ?case
  proof (cases "sees_parents b")
    case True
    then have "bi_bindingRangeMask b \<noteq> BindingRange_Explicit"
      using explicit_sees_no_parents by blast
    with True Cons.IH [OF rest] show ?thesis
      by (auto simp: x stops_explicit_def sees_parents_def split: option.splits)
  next
    case False
    then show ?thesis by (auto simp: x stops_explicit_def sees_parents_def split: option.splits)
  qed
qed (simp add: stops_explicit_def)

text \<open>The specification of the search for an unnamed interface.\<close>

definition bind_order ::
  "(uuid \<Rightarrow> string) \<Rightarrow> FactoryContext \<Rightarrow> (uuid \<rightharpoonup> FactoryBindInfos) \<Rightarrow> uuid \<Rightarrow> BindContext list \<Rightarrow> exn + FactoryBindInfos" where
  "bind_order ts c core u ctxs =
     (case first_some (closest (specificBindings c) bi_componentUUID u (visible ctxs)
        # (if stops_explicit (visible ctxs) then [core u]
           else [if root_allows ctxs (BindingRange_Default OR BindingRange_All) then defaultBindings c u else None,
                 if root_allows ctxs BindingRange_All then autoBindings c u else None, core u])) of
        Some b \<Rightarrow> Inr b
      | None \<Rightarrow> Inl (if stops_explicit (visible ctxs)
          then not_explicit ts u (bi_componentUUID (last (visible ctxs))) else not_found ts u))"

lemma first_some_Cons: "first_some (x # xs) = (case x of Some y \<Rightarrow> Some y | None \<Rightarrow> first_some xs)"
  by (cases x) auto

lemma resolveBind_spec:
  assumes "only_components ctxs"
  shows "Factory_resolveBind ts c core u ctxs = bind_order ts c core u ctxs"
proof (cases "closest (specificBindings c) bi_componentUUID u (visible ctxs)")
  case None
  show ?thesis
  proof (cases "stops_explicit (visible ctxs)")
    case True
    with None assms show ?thesis
      by (simp add: Factory_resolveBind_def bind_order_def specific_search_spec first_some_Cons split: option.splits)
  next
    case False
    with None assms have "Factory_resolveBind ts c core u ctxs =
        (if root_allows ctxs (BindingRange_Default OR BindingRange_All) \<and> mapContains (defaultBindings c) u
         then Inr (the (defaultBindings c u))
         else if root_allows ctxs BindingRange_All \<and> mapContains (autoBindings c) u
         then Inr (the (autoBindings c u))
         else case core u of Some b \<Rightarrow> Inr b | None \<Rightarrow> Inl (not_found ts u))"
      by (simp add: Factory_resolveBind_def specific_search_spec)
    with None False show ?thesis
      by (cases "defaultBindings c u"; cases "autoBindings c u"; cases "core u")
        (simp_all add: bind_order_def first_some_Cons domIff)
  qed
next
  case (Some b)
  with assms show ?thesis by (simp add: Factory_resolveBind_def bind_order_def specific_search_spec)
qed

text \<open>
  Property C1. The binding that stands for an interface is the first of: the specific binding of the closest visible
  context that has one; if the visible contexts end with an explicit-only one, the core binding or the
  exception; otherwise the default binding, then the automatic one, each if the root context
  allows it, then the core binding, then the exception. For a named interface the specific named bindings come first,
  an explicit-only context ends the search even where a core binding exists, then comes the named binding, and
  without any the unnamed search decides where the root allows default bindings.
\<close>

theorem resolveBind_order:
  assumes "only_components ctxs"
  shows "Factory_resolveBind ts c core u ctxs = bind_order ts c core u ctxs \<and>
    (case closest (specificNamedBindings c) bi_componentUUID (u, n) (visible ctxs) of
       Some b \<Rightarrow> Factory_resolveBind_named ts c core u n ctxs = Inr b
     | None \<Rightarrow>
         if stops_explicit (visible ctxs)
         then Factory_resolveBind_named ts c core u n ctxs =
           Inl (not_explicit_named ts u n (bi_componentUUID (last (visible ctxs))))
         else if root_allows ctxs (BindingRange_Default OR BindingRange_All)
         then Factory_resolveBind_named ts c core u n ctxs =
           (case namedBindings c (u, n) of Some b \<Rightarrow> Inr b | None \<Rightarrow> bind_order ts c core u ctxs)
         else if root_allows ctxs BindingRange_Named \<and> namedBindings c (u, n) \<noteq> None
         then Factory_resolveBind_named ts c core u n ctxs = Inr (the (namedBindings c (u, n)))
         else \<exists>w. Factory_resolveBind_named ts c core u n ctxs = Inl (exception_of_text InjectableNotFoundException w))"
proof (cases "closest (specificNamedBindings c) bi_componentUUID (u, n) (visible ctxs)")
  case None
  show ?thesis
  proof (cases "stops_explicit (visible ctxs)")
    case True
    with None assms show ?thesis
      by (simp add: Factory_resolveBind_named_def specific_named_search_spec resolveBind_spec)
  next
    case False
    with None assms have run: "Factory_resolveBind_named ts c core u n ctxs =
        (if root_allows ctxs (BindingRange_Named OR BindingRange_Default OR BindingRange_All)
              \<and> mapContains (namedBindings c) (u, n)
         then Inr (the (namedBindings c (u, n)))
         else if ctxs \<noteq> [] \<and> \<not> in_range (snd (last ctxs)) (BindingRange_Default OR BindingRange_All)
         then Inl (exception_of_text InjectableNotFoundException
            (''No default named binding found to resolve component from interface UUID = '' @ ts u @ '' named '' @ n))
         else bind_order ts c core u ctxs)"
      unfolding Factory_resolveBind_named_def specific_named_search_spec [OF assms] resolveBind_spec [OF assms] by simp
    show ?thesis
      using None False assms by (auto simp: run in_range_or resolveBind_spec root_allows_def domIff split: option.splits)
  qed
next
  case (Some b)
  with assms show ?thesis by (simp add: Factory_resolveBind_named_def specific_named_search_spec resolveBind_spec)
qed

definition sample_bind :: "uuid \<Rightarrow> range_mask \<Rightarrow> FactoryBindInfos" where
  "sample_bind u m = \<lparr>bi_componentUUID = u, bi_scope = Transient, bi_bindingRangeMask = m, bi_properties = ''''\<rparr>"

definition sample_context :: FactoryContext where
  "sample_context = Factory_bind_specific_infos 2 9 (sample_bind 5 1)
     (Factory_bind_infos 9 (sample_bind 4 BindingRange_Default) FactoryContext_init)"

lemma sample_context_fields:
  "specificBindings sample_context = [2 \<mapsto> [9 \<mapsto> sample_bind 5 1]]" "specificNamedBindings sample_context = Map.empty"
  "namedBindings sample_context = Map.empty" "defaultBindings sample_context = [9 \<mapsto> sample_bind 4 BindingRange_Default]"
  "autoBindings sample_context = Map.empty"
  by (simp_all add: sample_context_def FactoryContext_init_def Factory_bind_specific_infos_def Factory_bind_infos_def
      inner_map_def)

theorem resolveBind_order_witness:
  "Factory_resolveBind (\<lambda>_. '''') sample_context Map.empty 9
     [(ContextComponent, sample_bind 3 BindingRange_WithParents), (ContextComponent, sample_bind 2 BindingRange_Default)]
   = Inr (sample_bind 5 1)"
  using resolveBind_order [of "[(ContextComponent, sample_bind 3 BindingRange_WithParents),
      (ContextComponent, sample_bind 2 BindingRange_Default)]" "\<lambda>_. ''''" sample_context Map.empty 9]
  by (simp add: only_components_def bind_order_def sees_parents_def in_range_def range_defs sample_bind_def
      sample_context_fields inner_map_def)

section \<open>Bindings stay apart\<close>

text \<open>
  An interface has an automatic binding only as long as it has no default binding. A binding for an interface is one
  of those recorded for it.
\<close>

definition bindings_wf :: "FactoryContext \<Rightarrow> bool" where
  "bindings_wf c \<longleftrightarrow> dom (autoBindings c) \<inter> dom (defaultBindings c) = {}"

lemmas bind_defs = Factory_autobind_def Factory_bind_infos_def Factory_bind_named_infos_def
  Factory_bind_specific_infos_def Factory_bind_specific_named_infos_def record_method_def

lemma bindings_wf_steps [simp]:
  "bindings_wf c \<Longrightarrow> bindings_wf (Factory_autobind u v c)"
  "bindings_wf c \<Longrightarrow> bindings_wf (Factory_bind_infos u b c)"
  "bindings_wf c \<Longrightarrow> bindings_wf (Factory_bind_named_infos n u b c)"
  "bindings_wf c \<Longrightarrow> bindings_wf (Factory_bind_specific_infos t u b c)"
  "bindings_wf c \<Longrightarrow> bindings_wf (Factory_bind_specific_named_infos t n u b c)"
  "bindings_wf c \<Longrightarrow> bindings_wf (record_method b m c)"
  "bindings_wf FactoryContext_init" "bindings_wf (FactoryContext_clear c)"
  by (auto simp: bind_defs bindings_wf_def FactoryContext_init_def FactoryContext_clear_def Let_def)

definition recorded :: "FactoryContext \<Rightarrow> (uuid \<rightharpoonup> FactoryBindInfos) \<Rightarrow> uuid \<Rightarrow> FactoryBindInfos \<Rightarrow> bool" where
  "recorded c core u b \<longleftrightarrow> defaultBindings c u = Some b \<or> autoBindings c u = Some b \<or> core u = Some b \<or>
     (\<exists>n. namedBindings c (u, n) = Some b) \<or> (\<exists>t. inner_map (specificBindings c) t u = Some b) \<or>
     (\<exists>t n. inner_map (specificNamedBindings c) t (u, n) = Some b) \<or>
     (\<exists>bs. multiBindings c u = Some bs \<and> b \<in> set bs)"

lemma specific_search_recorded: "specific_search ts c core u ctxs = Inr (Some b) \<Longrightarrow> recorded c core u b"
  by (induction ctxs rule: specific_search.induct) (auto simp: recorded_def split: if_splits option.splits)

lemma specific_named_search_recorded: "specific_named_search ts c u n ctxs = Inr (Some b) \<Longrightarrow> recorded c core u b"
  by (induction ctxs rule: specific_named_search.induct) (auto simp: recorded_def split: if_splits option.splits)

lemma resolveBind_recorded: "Factory_resolveBind ts c core u ctxs = Inr b \<Longrightarrow> recorded c core u b"
  using specific_search_recorded [of ts c core u ctxs b]
  by (auto simp: Factory_resolveBind_def split: sum.splits option.splits if_splits) (auto simp: recorded_def)

lemma resolveBind_named_recorded: "Factory_resolveBind_named ts c core u n ctxs = Inr b \<Longrightarrow> recorded c core u b"
  using specific_named_search_recorded [of ts c u n ctxs b core] resolveBind_recorded [of ts c core u ctxs b]
  by (auto simp: Factory_resolveBind_named_def split: sum.splits option.splits if_splits) (auto simp: recorded_def)

lemma specific_search_exn: "specific_search ts c core u ctxs = Inl e \<Longrightarrow> is_instance InjectableNotFoundException e"
  by (induction ctxs rule: specific_search.induct)
    (auto simp: not_explicit_def exception_of_text_def split: if_splits option.splits)

lemma specific_named_search_exn:
  "specific_named_search ts c u n ctxs = Inl e \<Longrightarrow> is_instance InjectableNotFoundException e"
  by (induction ctxs rule: specific_named_search.induct)
    (auto simp: not_explicit_named_def exception_of_text_def split: if_splits option.splits)

lemma resolveBind_exn: "Factory_resolveBind ts c core u ctxs = Inl e \<Longrightarrow> is_instance InjectableNotFoundException e"
  using specific_search_exn [of ts c core u ctxs e]
  by (auto simp: Factory_resolveBind_def not_found_def exception_of_text_def
      split: sum.splits option.splits if_splits)

lemma resolveBind_named_exn:
  "Factory_resolveBind_named ts c core u n ctxs = Inl e \<Longrightarrow> is_instance InjectableNotFoundException e"
  using specific_named_search_exn [of ts c u n ctxs e] resolveBind_exn [of ts c core u ctxs e]
  by (auto simp: Factory_resolveBind_named_def exception_of_text_def split: sum.splits option.splits if_splits)

end
