(* ===== verification/Xpcf_Factory.thy ===== *)
theory Xpcf_Factory
  imports Xpcf_Bindings
begin

text \<open>
  \<^verbatim>\<open>src/Factory.cpp\<close>: components are made from bindings and what they declare is injected into them, the components
  injected being made the same way. The state extends that of the property manager and, through it, of the registry and the
  alias manager, which the factory owns.
\<close>

section \<open>State\<close>

text \<open>
  What components of the application do when they are called through \<open>IInjectable\<close> and \<open>IConfigurable\<close>:
  \<open>onInjected\<close> and \<open>configure\<close> with a file and, for a named instance, its name.
\<close>

record Framework = Platform +
  fw_onInjected :: "nat \<Rightarrow> (ComponentHeap, exn, unit) eff"
  fw_configure :: "nat \<Rightarrow> string \<Rightarrow> string option \<Rightarrow> (ComponentHeap, exn, XPCFErrorCode) eff"

record FactoryState = PropertyManagerState +
  f_context :: FactoryContext
  f_singletonInstances :: "uuid \<rightharpoonup> nat"
  f_namedSingletonInstances :: "uuid \<times> string \<rightharpoonup> nat"
  f_coreBindings :: "uuid \<rightharpoonup> FactoryBindInfos"
  f_coreInstances :: "uuid \<rightharpoonup> nat"
  f_coreFactoryMethods :: "uuid \<rightharpoonup> factory_method"
  f_heap :: ComponentHeap

abbreviation uuid_text :: "'p Framework_scheme \<Rightarrow> uuid \<Rightarrow> string" where
  "uuid_text fw \<equiv> pf_string_of_uuid fw"

definition binds :: "(FactoryContext \<Rightarrow> FactoryContext) \<Rightarrow> ('a FactoryState_scheme, exn, unit) eff" where
  "binds f = modify_eff (\<lambda>s. s\<lparr>f_context := f (f_context s)\<rparr>)"

definition on_heap :: "(ComponentHeap, exn, 'b) eff \<Rightarrow> ('a FactoryState_scheme, exn, 'b) eff" where
  "on_heap m = zoom_eff f_heap (\<lambda>h s. s\<lparr>f_heap := h\<rparr>) m"

definition on_objects :: "(Objects, exn, 'b) eff \<Rightarrow> ('a FactoryState_scheme, exn, 'b) eff" where
  "on_objects m = on_heap (zoom_eff ch_objects (\<lambda>os h. h\<lparr>ch_objects := os\<rparr>) m)"

definition new_object :: "ComponentBase \<Rightarrow> (ComponentHeap, exn, nat) eff" where
  "new_object c = (\<lambda>h. (Inr (ch_next h),
     h\<lparr>ch_objects := (ch_objects h)(ch_next h \<mapsto> c), ch_next := Suc (ch_next h)\<rparr>))"

definition IConfigurable_UUID :: uuid where
  "IConfigurable_UUID = 0x98DBA14F6EF9462EA38734756B4CBA80"

text \<open>Only the type and the identifier of an interface matter for binding to it.\<close>

definition IConfigurable :: InterfaceTraits where
  "IConfigurable = \<lparr>it_type = ''IConfigurable'', it_UUID = IConfigurable_UUID, it_NAME = ''XPCF::IConfigurable'',
     it_DESCRIPTION = ''Provides generic configuration ability to any component through metadata parameters''\<rparr>"

definition Factory_clear :: "('a FactoryState_scheme, exn, unit) eff" where
  "Factory_clear =
     seq_eff (binds FactoryContext_clear)
    (seq_eff (modify_eff (\<lambda>s. s\<lparr>f_singletonInstances := Map.empty\<rparr>))
    (seq_eff (modify_eff (\<lambda>s. s\<lparr>f_namedSingletonInstances := Map.empty\<rparr>))
    (seq_eff PropertyManager_clear
    (seq_eff (modify_eff (\<lambda>s. s\<lparr>reg_aliases := AliasContext_clear (reg_aliases s)\<rparr>))
       Registry_clear))))"

section \<open>Creating a component from its module\<close>

text \<open>
  \<open>create\<close> and \<open>resolveFromModule\<close> have the same code. The component the entry point of the module returns is a new
  object.
\<close>

definition Factory_resolveFromModule :: "'p Framework_scheme \<Rightarrow> uuid \<Rightarrow> ('a FactoryState_scheme, exn, nat) eff" where
  "Factory_resolveFromModule fw componentUUID =
     bind_eff (gets_eff (Registry_getModuleUUID fw componentUUID)) (\<lambda>r.
     bind_eff (lift_eff r) (\<lambda>moduleUUID.
     bind_eff (gets_eff (Registry_findModuleMetadata fw moduleUUID)) (\<lambda>r.
     bind_eff (lift_eff r) (\<lambda>moduleInfos.
     bind_eff (ModuleManager_createComponent fw moduleInfos componentUUID) (\<lambda>c.
       on_heap (new_object c))))))"

text \<open>The function that creates the component of a binding; calling an empty one throws.\<close>

definition Factory_creator :: "'p Framework_scheme \<Rightarrow> FactoryBindInfos \<Rightarrow> ('a FactoryState_scheme, exn, nat) eff" where
  "Factory_creator fw bindInfos =
     bind_eff (gets_eff (\<lambda>s. (factoryMethods (f_context s) (bi_componentUUID bindInfos),
                              f_coreFactoryMethods s (bi_componentUUID bindInfos)))) (\<lambda>(method, coreMethod).
       if bi_bindingRangeMask bindInfos = BindingRange_Core
       then (case coreMethod of None \<Rightarrow> throw_eff Bad_function_call | Some m \<Rightarrow> on_heap m)
       else (case method of None \<Rightarrow> Factory_resolveFromModule fw (bi_componentUUID bindInfos) | Some m \<Rightarrow> on_heap m))"

section \<open>Resolving\<close>

text \<open>
  \<open>resolve\<close>, \<open>inject\<close> and \<open>resolveComponent\<close> call each other. Each is written with the function that resolves
  a component as argument \<open>rc\<close>; \<open>Factory_resolveComponent\<close> closes the recursion, with the depth the stack
  leaves as argument.
\<close>

type_synonym 'a resolver = "FactoryBindInfos \<Rightarrow> BindContext list \<Rightarrow> ('a FactoryState_scheme, exn, nat) eff"

definition Factory_resolve_with ::
  "'a resolver \<Rightarrow> 'p Framework_scheme \<Rightarrow> uuid \<Rightarrow> BindContext list \<Rightarrow> ('a FactoryState_scheme, exn, nat) eff" where
  "Factory_resolve_with rc fw interfaceUUID contextLevels =
     bind_eff (gets_eff (\<lambda>s. Factory_resolveBind (uuid_text fw) (f_context s) (f_coreBindings s) interfaceUUID contextLevels)) (\<lambda>r.
     bind_eff (lift_eff r) (\<lambda>bindInfos.
     let contextLevels = (ContextComponent, bindInfos) # contextLevels; u = bi_componentUUID bindInfos in
     if bi_scope bindInfos = Singleton
     then if bi_bindingRangeMask bindInfos \<noteq> BindingRange_Core
       then bind_eff (gets_eff f_singletonInstances) (\<lambda>m. case m u of
              Some a \<Rightarrow> return_eff a
            | None \<Rightarrow> bind_eff (rc bindInfos contextLevels) (\<lambda>a.
                seq_eff (modify_eff (\<lambda>s. s\<lparr>f_singletonInstances := (f_singletonInstances s)(u \<mapsto> a)\<rparr>)) (return_eff a)))
       else bind_eff (gets_eff f_coreInstances) (\<lambda>m. case m u of
              Some a \<Rightarrow> return_eff a
            | None \<Rightarrow> bind_eff (rc bindInfos contextLevels) (\<lambda>a.
                seq_eff (modify_eff (\<lambda>s. s\<lparr>f_coreInstances := (f_coreInstances s)(u \<mapsto> a)\<rparr>)) (return_eff a)))
     else rc bindInfos contextLevels))"

definition Factory_resolve_named_with ::
  "'a resolver \<Rightarrow> 'p Framework_scheme \<Rightarrow> uuid \<Rightarrow> string \<Rightarrow> BindContext list \<Rightarrow> ('a FactoryState_scheme, exn, nat) eff" where
  "Factory_resolve_named_with rc fw interfaceUUID name contextLevels =
     bind_eff (gets_eff (\<lambda>s. Factory_resolveBind_named (uuid_text fw) (f_context s) (f_coreBindings s) interfaceUUID name contextLevels)) (\<lambda>r.
     bind_eff (lift_eff r) (\<lambda>bindInfos.
     let contextLevels = (ContextComponent, bindInfos) # contextLevels; key = (bi_componentUUID bindInfos, name) in
     if bi_scope bindInfos = Singleton
     then bind_eff (gets_eff f_namedSingletonInstances) (\<lambda>m. case m key of
            Some a \<Rightarrow> return_eff a
          | None \<Rightarrow> bind_eff (rc bindInfos contextLevels) (\<lambda>a.
              seq_eff (modify_eff (\<lambda>s. s\<lparr>f_namedSingletonInstances := (f_namedSingletonInstances s)(key \<mapsto> a)\<rparr>))
                (return_eff a)))
     else rc bindInfos contextLevels))"

definition Factory_resolve_injectable_with ::
  "'a resolver \<Rightarrow> 'p Framework_scheme \<Rightarrow> Injector \<Rightarrow> BindContext list \<Rightarrow> ('a FactoryState_scheme, exn, nat) eff" where
  "Factory_resolve_injectable_with rc fw i contextLevels =
     (if inj_named i then Factory_resolve_named_with rc fw (inj_serviceUUID i) (inj_name i) contextLevels
      else Factory_resolve_with rc fw (inj_serviceUUID i) contextLevels)"

text \<open>
  The loop over the bindings of a multiple binding. The contexts pile up from one round to the next, and a singleton is
  followed by one more component made for it.
\<close>

fun resolve_all_loop ::
  "'a resolver \<Rightarrow> FactoryBindInfos list \<Rightarrow> BindContext list \<Rightarrow> nat list \<Rightarrow> ('a FactoryState_scheme, exn, nat list) eff" where
  "resolve_all_loop rc [] contextLevels componentSet = return_eff componentSet"
| "resolve_all_loop rc (bindInfos # rest) contextLevels componentSet =
     (let contextLevels = (ContextComponent, bindInfos) # contextLevels; u = bi_componentUUID bindInfos in
      bind_eff
        (if bi_scope bindInfos = Singleton
         then bind_eff (gets_eff f_singletonInstances) (\<lambda>m. case m u of
                Some a \<Rightarrow> return_eff (Collection_add a componentSet)
              | None \<Rightarrow> bind_eff (rc bindInfos contextLevels) (\<lambda>a.
                  seq_eff (modify_eff (\<lambda>s. s\<lparr>f_singletonInstances := (f_singletonInstances s)(u \<mapsto> a)\<rparr>))
                    (return_eff (Collection_add a componentSet))))
         else return_eff componentSet) (\<lambda>componentSet.
      bind_eff (rc bindInfos contextLevels) (\<lambda>component.
        resolve_all_loop rc rest contextLevels (Collection_add component componentSet))))"

definition Factory_resolveAll_with ::
  "'a resolver \<Rightarrow> 'p Framework_scheme \<Rightarrow> uuid \<Rightarrow> BindContext list \<Rightarrow> ('a FactoryState_scheme, exn, nat list) eff" where
  "Factory_resolveAll_with rc fw interfaceUUID contextLevels =
     bind_eff (gets_eff (\<lambda>s. multiBindings (f_context s) interfaceUUID)) (\<lambda>m. case m of
        None \<Rightarrow> bind_eff (Factory_resolve_with rc fw interfaceUUID contextLevels) (\<lambda>a. return_eff (Collection_add a []))
      | Some bindInfos \<Rightarrow> resolve_all_loop rc bindInfos contextLevels [])"

text \<open>One round of the loop of \<open>inject\<close>, and the whole of it on the object at address \<open>a\<close>.\<close>

definition inject_one ::
  "'a resolver \<Rightarrow> 'p Framework_scheme \<Rightarrow> nat \<Rightarrow> BindContext list \<Rightarrow> Injector \<Rightarrow> ('a FactoryState_scheme, exn, unit) eff" where
  "inject_one rc fw a contextLevels i =
     catch_xpcf
       (if \<not> inj_isMulti i
        then bind_eff (Factory_resolve_injectable_with rc fw i contextLevels) (\<lambda>r.
               on_objects (Injector_inject (uuid_text fw) a i r))
        else bind_eff (Factory_resolveAll_with rc fw (inj_serviceUUID i) contextLevels) (\<lambda>rs.
               on_objects (Injector_inject_all (uuid_text fw) a i rs)))
       (\<lambda>e. if inj_optional i then return_eff ()
            else if is_instance InjectableNotFoundException e then throw_eff e
            else throw_eff (ConfigurationException_text (what e)))"

definition Factory_inject_with ::
  "'a resolver \<Rightarrow> 'p Framework_scheme \<Rightarrow> nat \<Rightarrow> BindContext list \<Rightarrow> ('a FactoryState_scheme, exn, unit) eff" where
  "Factory_inject_with rc fw a contextLevels =
     bind_eff (on_objects (on_component a (gets_eff ComponentBase_getInjectables))) (\<lambda>injectables.
     seq_eff (for_eff (inject_one rc fw a contextLevels) injectables)
       (on_heap (fw_onInjected fw a)))"

text \<open>
  The configuration of a new component. References held during the calls are counted when they are made; the releases of the
  temporary ones are not modelled, so that the counter counts the references made.
\<close>

definition configure_component ::
  "'p Framework_scheme \<Rightarrow> FactoryBindInfos \<Rightarrow> nat \<Rightarrow> ('a FactoryState_scheme, exn, nat) eff" where
  "configure_component fw bindInfos a =
     bind_eff (on_objects (on_component a (gets_eff (ComponentBase_implements IConfigurable_UUID)))) (\<lambda>configurable.
       if \<not> configurable then return_eff a
       else bind_eff (gets_eff (PropertyManager_getConfigPath fw (bi_componentUUID bindInfos))) (\<lambda>configFilePath.
         if configFilePath = '''' then return_eff a
         else bind_eff (on_objects (bindTo (uuid_text fw) IConfigurable a)) (\<lambda>_.
              bind_eff (on_heap (fw_configure fw a configFilePath
                (if bi_properties bindInfos = '''' then None else Some (bi_properties bindInfos)))) (\<lambda>confErrCode.
                if confErrCode \<noteq> SUCCESS
                then throw_eff (Xpcf ConfigurationException
                  (''Configuration failed for component uuid='' @ uuid_text fw (bi_componentUUID bindInfos)) confErrCode)
                else return_eff a))))"

fun Factory_resolveComponent ::
  "'p Framework_scheme \<Rightarrow> nat \<Rightarrow> FactoryBindInfos \<Rightarrow> BindContext list \<Rightarrow> ('a FactoryState_scheme, exn, nat) eff" where
  "Factory_resolveComponent fw 0 bindInfos contextLevels = throw_eff Stack_overflow"
| "Factory_resolveComponent fw (Suc depth) bindInfos contextLevels =
     bind_eff (Factory_creator fw bindInfos) (\<lambda>a.
     bind_eff (on_objects (bindTo (uuid_text fw) IInjectable a)) (\<lambda>_.
     seq_eff (Factory_inject_with (Factory_resolveComponent fw depth) fw a contextLevels)
       (configure_component fw bindInfos a)))"

definition Factory_resolve ::
  "'p Framework_scheme \<Rightarrow> nat \<Rightarrow> uuid \<Rightarrow> BindContext list \<Rightarrow> ('a FactoryState_scheme, exn, nat) eff" where
  "Factory_resolve fw depth = Factory_resolve_with (Factory_resolveComponent fw depth) fw"

definition Factory_resolve_named ::
  "'p Framework_scheme \<Rightarrow> nat \<Rightarrow> uuid \<Rightarrow> string \<Rightarrow> BindContext list \<Rightarrow> ('a FactoryState_scheme, exn, nat) eff" where
  "Factory_resolve_named fw depth = Factory_resolve_named_with (Factory_resolveComponent fw depth) fw"

definition Factory_resolveAll ::
  "'p Framework_scheme \<Rightarrow> nat \<Rightarrow> uuid \<Rightarrow> BindContext list \<Rightarrow> ('a FactoryState_scheme, exn, nat list) eff" where
  "Factory_resolveAll fw depth = Factory_resolveAll_with (Factory_resolveComponent fw depth) fw"

definition Factory_inject ::
  "'p Framework_scheme \<Rightarrow> nat \<Rightarrow> nat \<Rightarrow> BindContext list \<Rightarrow> ('a FactoryState_scheme, exn, unit) eff" where
  "Factory_inject fw depth = Factory_inject_with (Factory_resolveComponent fw depth) fw"

text \<open>\<open>createComponent\<close> ignores what \<open>configure\<close> returns.\<close>

definition Factory_createComponent ::
  "'p Framework_scheme \<Rightarrow> nat \<Rightarrow> string option \<Rightarrow> uuid \<Rightarrow> ('a FactoryState_scheme, exn, nat) eff" where
  "Factory_createComponent fw depth instanceName componentUUID =
     bind_eff (Factory_resolveFromModule fw componentUUID) (\<lambda>a.
     bind_eff (on_objects (bindTo (uuid_text fw) IInjectable a)) (\<lambda>_.
     seq_eff (Factory_inject fw depth a [])
    (bind_eff (gets_eff (PropertyManager_getConfigPath fw componentUUID)) (\<lambda>configFilePath.
     bind_eff (on_objects (on_component a (gets_eff (ComponentBase_implements IConfigurable_UUID)))) (\<lambda>configurable.
       if configurable \<and> configFilePath \<noteq> ''''
       then bind_eff (on_objects (bindTo (uuid_text fw) IConfigurable a)) (\<lambda>_.
            bind_eff (on_heap (fw_configure fw a configFilePath instanceName)) (\<lambda>_. return_eff a))
       else return_eff a)))))"

section \<open>Resolving leaves the configuration alone\<close>

definition config_part ::
  "'a FactoryState_scheme \<Rightarrow> FactoryContext \<times> (uuid \<rightharpoonup> FactoryBindInfos) \<times> (uuid \<rightharpoonup> factory_method)" where
  "config_part s = (f_context s, f_coreBindings s, f_coreFactoryMethods s)"

named_theorems config_steps \<open>operations that leave the configuration of the factory alone\<close>

lemma config_part_simps [simp]:
  "config_part (s\<lparr>f_heap := h\<rparr>) = config_part s"
  "config_part (s\<lparr>f_singletonInstances := m\<rparr>) = config_part s"
  "config_part (s\<lparr>f_namedSingletonInstances := m'\<rparr>) = config_part s"
  "config_part (s\<lparr>f_coreInstances := m\<rparr>) = config_part s"
  "config_part (s\<lparr>mgr_funcMap := k\<rparr>) = config_part s"
  by (simp_all add: config_part_def)

lemma on_heap_run [eff_simps]: "on_heap m s = (case m (f_heap s) of (r, h) \<Rightarrow> (r, s\<lparr>f_heap := h\<rparr>))"
  by (simp add: on_heap_def eff_simps)

text \<open>Properties of the factory that speak neither of the components nor of the entry points of the modules.\<close>

definition unaware :: "('a FactoryState_scheme \<Rightarrow> bool) \<Rightarrow> bool" where
  "unaware P \<longleftrightarrow> (\<forall>s h. P (s\<lparr>f_heap := h\<rparr>) = P s) \<and> (\<forall>s k. P (s\<lparr>mgr_funcMap := k\<rparr>) = P s)"

lemma unaware_config: "unaware (\<lambda>s. config_part s = x)"
  by (simp add: unaware_def)

named_theorems unaware_steps \<open>operations that change only the components and the entry points\<close>

lemma unaware_on_heap [unaware_steps]: "unaware P \<Longrightarrow> preserves P (on_heap m)"
  by (auto intro!: preservesI simp: unaware_def on_heap_run split: prod.splits)

lemma unaware_on_objects [unaware_steps]: "unaware P \<Longrightarrow> preserves P (on_objects m)"
  by (simp add: on_objects_def unaware_on_heap)

lemma unaware_createComponent [unaware_steps]:
  assumes "unaware P"
  shows "preserves P (ModuleManager_createComponent pf a u)"
proof -
  have "preserves P (validateModule pf p)" for p
    by (auto intro!: preservesI simp: validateModule_state)
  moreover have "preserves P (the_module a)"
    by (auto intro!: preservesI simp: eff_simps split: option.splits)
  ultimately show ?thesis
    unfolding ModuleManager_createComponent_def validateModule_metadata_def
    using assms by (auto simp: unaware_def intro!: preserves_intros preserves_modify)
qed

lemma unaware_resolveFromModule [unaware_steps]: "unaware P \<Longrightarrow> preserves P (Factory_resolveFromModule fw u)"
  unfolding Factory_resolveFromModule_def by (intro preserves_intros unaware_steps)

lemma unaware_creator [unaware_steps]: "unaware P \<Longrightarrow> preserves P (Factory_creator fw b)"
  unfolding Factory_creator_def by (auto intro!: preserves_intros unaware_steps)

lemma unaware_configure [unaware_steps]: "unaware P \<Longrightarrow> preserves P (configure_component fw b a)"
  unfolding configure_component_def by (intro preserves_intros unaware_steps)

lemmas config_on_heap [config_steps] = unaware_on_heap [OF unaware_config]
lemmas config_on_objects [config_steps] = unaware_on_objects [OF unaware_config]
lemmas config_creator [config_steps] = unaware_creator [OF unaware_config]
lemmas config_configure [config_steps] = unaware_configure [OF unaware_config]

lemma config_store [config_steps]:
  "preserves (\<lambda>s. config_part s = x) (modify_eff (\<lambda>s. s\<lparr>f_singletonInstances := g s\<rparr>))"
  "preserves (\<lambda>s. config_part s = x) (modify_eff (\<lambda>s. s\<lparr>f_namedSingletonInstances := g' s\<rparr>))"
  "preserves (\<lambda>s. config_part s = x) (modify_eff (\<lambda>s. s\<lparr>f_coreInstances := g s\<rparr>))"
  by (rule preserves_modify, simp)+

text \<open>What the functions that take the resolver preserve, when the resolver does.\<close>

lemma config_resolve_with:
  assumes "\<And>b ctxs. preserves (\<lambda>s. config_part s = x) (rc b ctxs)"
  shows "preserves (\<lambda>s. config_part s = x) (Factory_resolve_with rc fw u ctxs)"
    and "preserves (\<lambda>s. config_part s = x) (Factory_resolve_named_with rc fw u n ctxs)"
  unfolding Factory_resolve_with_def Factory_resolve_named_with_def Let_def
  by (intro preserves_intros config_steps assms)+

lemma config_resolve_all_loop:
  assumes "\<And>b ctxs. preserves (\<lambda>s. config_part s = x) (rc b ctxs)"
  shows "preserves (\<lambda>s. config_part s = x) (resolve_all_loop rc bs ctxs cs)"
  by (induction bs arbitrary: ctxs cs)
    (auto simp: Let_def intro!: preserves_intros config_steps assms)

lemma config_inject_with:
  assumes "\<And>b ctxs. preserves (\<lambda>s. config_part s = x) (rc b ctxs)"
  shows "preserves (\<lambda>s. config_part s = x) (Factory_inject_with rc fw a ctxs)"
  unfolding Factory_inject_with_def inject_one_def Factory_resolve_injectable_with_def Factory_resolveAll_with_def
  by (intro preserves_intros config_steps preserves_catch_if config_resolve_with config_resolve_all_loop assms)

lemma config_resolveComponent [config_steps]:
  "preserves (\<lambda>s. config_part s = x) (Factory_resolveComponent fw n b ctxs)"
proof (induction n arbitrary: b ctxs)
  case (Suc n)
  then show ?case
    unfolding Factory_resolveComponent.simps by (intro preserves_intros config_steps config_inject_with)
qed (simp add: preserves_throw)

lemma config_resolve [config_steps]:
  "preserves (\<lambda>s. config_part s = x) (Factory_resolve fw n u ctxs)"
  "preserves (\<lambda>s. config_part s = x) (Factory_resolve_named fw n u name ctxs)"
  unfolding Factory_resolve_def Factory_resolve_named_def by (intro config_resolve_with config_resolveComponent)+

section \<open>Singletons\<close>

lemma config_after: "preserves (\<lambda>s. config_part s = config_part s0) m \<Longrightarrow> m s0 = (r, t) \<Longrightarrow>
  f_context t = f_context s0 \<and> f_coreBindings t = f_coreBindings s0"
  by (auto dest!: preservesD [where s = s0] simp: config_part_def)

text \<open>The instances stored in \<open>t\<close> are still those of \<open>s\<close>, and neither the bindings nor the core bindings changed.\<close>

definition keeps_instances :: "'a FactoryState_scheme \<Rightarrow> 'a FactoryState_scheme \<Rightarrow> bool" where
  "keeps_instances t s \<longleftrightarrow> f_singletonInstances t \<subseteq>\<^sub>m f_singletonInstances s
     \<and> f_namedSingletonInstances t \<subseteq>\<^sub>m f_namedSingletonInstances s
     \<and> f_coreInstances t \<subseteq>\<^sub>m f_coreInstances s \<and> config_part s = config_part t"

lemma unaware_keeps: "unaware (keeps_instances t)"
  by (simp add: unaware_def keeps_instances_def)

lemmas keeps_steps = unaware_steps [OF unaware_keeps]

lemma map_le_store: "m \<subseteq>\<^sub>m m' \<Longrightarrow> m k = None \<Longrightarrow> m \<subseteq>\<^sub>m m'(k \<mapsto> v)"
  by (auto simp: map_le_def domIff)

text \<open>What is looked up first and made and stored only when it is missing.\<close>

lemma preserves_look:
  assumes "\<And>s. P s \<Longrightarrow> preserves P (g (f s))"
  shows "preserves P (bind_eff (gets_eff f) g)"
  using assms by (auto simp: preserves_def eff_simps)

lemma keeps_store:
  "f_singletonInstances t u = None \<Longrightarrow>
    preserves (keeps_instances t) (modify_eff (\<lambda>s. s\<lparr>f_singletonInstances := (f_singletonInstances s)(u \<mapsto> a)\<rparr>))"
  "f_namedSingletonInstances t key = None \<Longrightarrow>
    preserves (keeps_instances t) (modify_eff (\<lambda>s. s\<lparr>f_namedSingletonInstances := (f_namedSingletonInstances s)(key \<mapsto> a)\<rparr>))"
  "f_coreInstances t u = None \<Longrightarrow>
    preserves (keeps_instances t) (modify_eff (\<lambda>s. s\<lparr>f_coreInstances := (f_coreInstances s)(u \<mapsto> a)\<rparr>))"
  by (rule preserves_modify, simp add: keeps_instances_def map_le_store)+

lemma keeps_missing:
  assumes "keeps_instances t s"
  shows "f_singletonInstances s u = None \<Longrightarrow> f_singletonInstances t u = None"
    and "f_namedSingletonInstances s key = None \<Longrightarrow> f_namedSingletonInstances t key = None"
    and "f_coreInstances s u = None \<Longrightarrow> f_coreInstances t u = None"
  using assms by (auto simp: keeps_instances_def map_le_def domIff dest!: bspec)

lemma keeps_resolve_with:
  assumes "\<And>b ctxs. preserves (keeps_instances t) (rc b ctxs)"
  shows "preserves (keeps_instances t) (Factory_resolve_with rc fw u ctxs)"
    and "preserves (keeps_instances t) (Factory_resolve_named_with rc fw u n ctxs)"
    and "preserves (keeps_instances t) (resolve_all_loop rc bs ctxs cs)"
proof -
  show "preserves (keeps_instances t) (Factory_resolve_with rc fw u ctxs)"
    unfolding Factory_resolve_with_def Let_def
    by (intro preserves_bind preserves_gets preserves_lift preserves_if preserves_look preserves_case_option preserves_seq
        preserves_return keeps_store assms) (auto dest: keeps_missing)
  show "preserves (keeps_instances t) (Factory_resolve_named_with rc fw u n ctxs)"
    unfolding Factory_resolve_named_with_def Let_def
    by (intro preserves_bind preserves_gets preserves_lift preserves_if preserves_look preserves_case_option preserves_seq
        preserves_return keeps_store assms) (auto dest: keeps_missing)
  show "preserves (keeps_instances t) (resolve_all_loop rc bs ctxs cs)"
  proof (induction bs arbitrary: ctxs cs)
    case (Cons b bs)
    then show ?case
      unfolding resolve_all_loop.simps Let_def
      by (intro preserves_bind preserves_if preserves_look preserves_case_option preserves_seq
          preserves_return keeps_store assms) (auto dest: keeps_missing)
  qed (simp add: preserves_return)
qed

lemma keeps_inject_with:
  assumes "\<And>b ctxs. preserves (keeps_instances t) (rc b ctxs)"
  shows "preserves (keeps_instances t) (Factory_inject_with rc fw a ctxs)"
    and "preserves (keeps_instances t) (Factory_resolveAll_with rc fw u ctxs)"
  unfolding Factory_inject_with_def inject_one_def Factory_resolve_injectable_with_def Factory_resolveAll_with_def
  by (intro preserves_intros keeps_steps preserves_catch_if keeps_resolve_with assms)+

lemma keeps_resolveComponent: "preserves (keeps_instances t) (Factory_resolveComponent fw n b ctxs)"
proof (induction n arbitrary: b ctxs)
  case (Suc n)
  then show ?case
    unfolding Factory_resolveComponent.simps by (intro preserves_intros keeps_steps keeps_inject_with)
qed (simp add: preserves_throw)

lemma keeps_calls:
  "preserves (keeps_instances t) (Factory_resolve fw n u ctxs)"
  "preserves (keeps_instances t) (Factory_resolve_named fw n u name ctxs)"
  "preserves (keeps_instances t) (Factory_resolveAll fw n u ctxs)"
  "preserves (keeps_instances t) (Factory_inject fw n a ctxs)"
  "preserves (keeps_instances t) (Factory_createComponent fw n instanceName componentUUID)"
  unfolding Factory_resolve_def Factory_resolve_named_def Factory_resolveAll_def Factory_inject_def Factory_createComponent_def
  by (intro keeps_resolve_with keeps_inject_with keeps_resolveComponent preserves_intros keeps_steps)+

text \<open>The states that calls which make components lead to, whether they return or throw.\<close>

inductive later :: "'p Framework_scheme \<Rightarrow> 'a FactoryState_scheme \<Rightarrow> 'a FactoryState_scheme \<Rightarrow> bool" for fw t where
  now: "later fw t t"
| resolving: "later fw t s \<Longrightarrow> later fw t (snd (Factory_resolve fw n u ctxs s))"
| resolving_named: "later fw t s \<Longrightarrow> later fw t (snd (Factory_resolve_named fw n u name ctxs s))"
| resolving_all: "later fw t s \<Longrightarrow> later fw t (snd (Factory_resolveAll fw n u ctxs s))"
| injecting: "later fw t s \<Longrightarrow> later fw t (snd (Factory_inject fw n a ctxs s))"
| creating: "later fw t s \<Longrightarrow> later fw t (snd (Factory_createComponent fw n instanceName u s))"

lemma later_keeps: "later fw t s \<Longrightarrow> keeps_instances t s"
proof (induction rule: later.induct)
  case now
  show ?case by (simp add: keeps_instances_def)
qed (rule preservesD, rule keeps_calls, assumption)+

lemma keepsD:
  assumes "keeps_instances t s"
  shows "f_singletonInstances t u = Some a \<Longrightarrow> f_singletonInstances s u = Some a"
    and "f_namedSingletonInstances t key = Some a \<Longrightarrow> f_namedSingletonInstances s key = Some a"
    and "f_coreInstances t u = Some a \<Longrightarrow> f_coreInstances s u = Some a"
    and "f_context s = f_context t" and "f_coreBindings s = f_coreBindings t"
  using assms by (cases key; auto simp: keeps_instances_def map_le_def dom_def config_part_def)+

text \<open>
  Property C2. A component bound as a singleton is given to every later \<open>resolve\<close>: after an interface has been resolved to
  it, and after any number of calls of \<open>resolve\<close>, \<open>resolveAll\<close>, \<open>inject\<close> and \<open>createComponent\<close> for any interfaces, whether
  they returned or threw, resolving the interface again, at any depth of the stack, gives the same object and changes
  nothing. For a named interface there is one instance per component and name. This is for \<open>resolve\<close> in the same contexts as
  long as the bindings stay and nobody clears the factory; \<open>resolveAll\<close> itself gives a second component besides the singleton.
\<close>

theorem singleton_resolved_once:
  assumes "Factory_resolveBind (uuid_text fw) (f_context s) (f_coreBindings s) u ctxs = Inr b" and "bi_scope b = Singleton"
    and "Factory_resolve fw n u ctxs s = (Inr a, t)"
    and "Factory_resolveBind_named (uuid_text fw) (f_context s) (f_coreBindings s) v name ctxs = Inr b'"
    and "bi_scope b' = Singleton" and "Factory_resolve_named fw n v name ctxs s = (Inr a', t')"
    and "later fw t l" and "later fw t' l'"
  shows "Factory_resolve fw m u ctxs l = (Inr a, l) \<and> Factory_resolve_named fw m v name ctxs l' = (Inr a', l')"
proof
  have "f_context t = f_context s \<and> f_coreBindings t = f_coreBindings s"
    using config_resolve(1) assms(3) by (rule config_after)
  moreover have "if bi_bindingRangeMask b = BindingRange_Core then f_coreInstances t (bi_componentUUID b) = Some a
      else f_singletonInstances t (bi_componentUUID b) = Some a"
    using assms(1-3) by (auto simp: Factory_resolve_def Factory_resolve_with_def eff_simps Let_def
        split: option.splits prod.splits sum.splits if_splits)
  moreover note keepsD [OF later_keeps [OF assms(7)]]
  ultimately show "Factory_resolve fw m u ctxs l = (Inr a, l)"
    using assms(1,2) by (auto simp: Factory_resolve_def Factory_resolve_with_def eff_simps Let_def split: if_splits)
next
  have "f_context t' = f_context s \<and> f_coreBindings t' = f_coreBindings s"
    using config_resolve(2) assms(6) by (rule config_after)
  moreover have "f_namedSingletonInstances t' (bi_componentUUID b', name) = Some a'"
    using assms(4-6) by (auto simp: Factory_resolve_named_def Factory_resolve_named_with_def eff_simps Let_def
        split: option.splits prod.splits sum.splits)
  moreover note keepsD [OF later_keeps [OF assms(8)]]
  ultimately show "Factory_resolve_named fw m v name ctxs l' = (Inr a', l')"
    using assms(4,5) by (simp add: Factory_resolve_named_def Factory_resolve_named_with_def eff_simps Let_def)
qed

section \<open>The depth of the stack\<close>

text \<open>
  \<open>deeper m m'\<close>: the computation \<open>m'\<close>, run on a deeper stack, does what \<open>m\<close> does, except where \<open>m\<close> overflows its stack.
\<close>

definition deeper :: "('s, exn, 'a) eff \<Rightarrow> ('s, exn, 'a) eff \<Rightarrow> bool" where
  "deeper m m' \<longleftrightarrow> (\<forall>s. fst (m s) = Inl Stack_overflow \<or> m' s = m s)"

named_theorems deeper_intros \<open>computations that only gain from a deeper stack\<close>

lemma deeper_refl [deeper_intros]: "deeper m m"
  by (simp add: deeper_def)

lemma deeper_overflow: "deeper (throw_eff Stack_overflow) m"
  by (simp add: deeper_def eff_simps)

lemma deeper_bind [deeper_intros]:
  assumes "deeper m m'" and "\<And>x. deeper (f x) (f' x)"
  shows "deeper (bind_eff m f) (bind_eff m' f')"
  unfolding deeper_def
proof
  fix s
  obtain r t where m: "m s = (r, t)" by (cases "m s")
  show "fst (bind_eff m f s) = Inl Stack_overflow \<or> bind_eff m' f' s = bind_eff m f s"
  proof (cases r)
    case (Inl e)
    with assms(1) m show ?thesis by (cases "e = Stack_overflow") (auto simp: deeper_def eff_simps dest: spec [of _ s])
  next
    case (Inr x)
    with assms(1) m have "m' s = (Inr x, t)" by (auto simp: deeper_def dest: spec [of _ s])
    with Inr m assms(2) [of x] show ?thesis by (simp add: deeper_def eff_simps)
  qed
qed

lemma deeper_seq [deeper_intros]: "deeper m m' \<Longrightarrow> deeper n n' \<Longrightarrow> deeper (seq_eff m n) (seq_eff m' n')"
  unfolding seq_eff_def by (rule deeper_bind)

lemma deeper_for [deeper_intros]: "(\<And>x. deeper (f x) (f' x)) \<Longrightarrow> deeper (for_eff f xs) (for_eff f' xs)"
  by (induction xs) (auto intro: deeper_intros)

lemma deeper_catch [deeper_intros]:
  assumes "deeper m m'"
  shows "deeper (catch_xpcf m h) (catch_xpcf m' h)"
  unfolding deeper_def
proof
  fix s
  obtain r t where m: "m s = (r, t)" by (cases "m s")
  show "fst (catch_xpcf m h s) = Inl Stack_overflow \<or> catch_xpcf m' h s = catch_xpcf m h s"
    using assms [unfolded deeper_def, rule_format, of s] by (cases r) (auto simp: eff_simps m)
qed

lemma deeper_if [deeper_intros]: "deeper m m' \<Longrightarrow> deeper n n' \<Longrightarrow> deeper (if b then m else n) (if b then m' else n')"
  by simp

lemma deeper_case_option [deeper_intros]:
  "deeper m m' \<Longrightarrow> (\<And>x. deeper (f x) (f' x)) \<Longrightarrow>
   deeper (case y of None \<Rightarrow> m | Some x \<Rightarrow> f x) (case y of None \<Rightarrow> m' | Some x \<Rightarrow> f' x)"
  by (cases y) auto

lemma deeper_resolve_with:
  assumes "\<And>b ctxs. deeper (rc b ctxs) (rc' b ctxs)"
  shows "deeper (Factory_resolve_with rc fw u ctxs) (Factory_resolve_with rc' fw u ctxs)"
    and "deeper (Factory_resolve_named_with rc fw u n ctxs) (Factory_resolve_named_with rc' fw u n ctxs)"
  unfolding Factory_resolve_with_def Factory_resolve_named_with_def Let_def
  by (intro deeper_intros assms)+

lemma deeper_resolve_all_loop:
  assumes "\<And>b ctxs. deeper (rc b ctxs) (rc' b ctxs)"
  shows "deeper (resolve_all_loop rc bs ctxs cs) (resolve_all_loop rc' bs ctxs cs)"
  by (induction bs arbitrary: ctxs cs) (auto simp: Let_def intro!: deeper_intros assms)

lemma deeper_inject_with:
  assumes "\<And>b ctxs. deeper (rc b ctxs) (rc' b ctxs)"
  shows "deeper (Factory_inject_with rc fw a ctxs) (Factory_inject_with rc' fw a ctxs)"
  unfolding Factory_inject_with_def inject_one_def Factory_resolve_injectable_with_def Factory_resolveAll_with_def
  by (intro deeper_intros deeper_resolve_with deeper_resolve_all_loop assms)

lemma deeper_resolveComponent: "n \<le> m \<Longrightarrow> deeper (Factory_resolveComponent fw n b ctxs) (Factory_resolveComponent fw m b ctxs)"
proof (induction n arbitrary: m b ctxs)
  case (Suc n)
  then obtain k where "m = Suc k" and "n \<le> k" by (cases m) auto
  then show ?case
    unfolding \<open>m = Suc k\<close> Factory_resolveComponent.simps by (intro deeper_intros deeper_inject_with Suc.IH)
qed (simp add: deeper_overflow)

lemma deeper_resolve: "n \<le> m \<Longrightarrow> deeper (Factory_resolve fw n u ctxs) (Factory_resolve fw m u ctxs)"
  unfolding Factory_resolve_def by (intro deeper_resolve_with deeper_resolveComponent)

section \<open>Resolution ends on acyclic configurations\<close>

definition halts :: "('s \<Rightarrow> bool) \<Rightarrow> ('s, exn, 'a) eff \<Rightarrow> bool" where
  "halts P m \<longleftrightarrow> (\<forall>s. P s \<longrightarrow> fst (m s) \<noteq> Inl Stack_overflow)"

text \<open>A computation that halts and leaves the configuration alone can be followed by others.\<close>

abbreviation (input) "fixed x \<equiv> (\<lambda>s. config_part s = x)"

definition ends :: "FactoryContext \<times> (uuid \<rightharpoonup> FactoryBindInfos) \<times> (uuid \<rightharpoonup> factory_method)
    \<Rightarrow> ('a FactoryState_scheme, exn, 'b) eff \<Rightarrow> bool" where
  "ends x m \<longleftrightarrow> halts (fixed x) m \<and> preserves (fixed x) m"

lemma endsI: "preserves (fixed x) m \<Longrightarrow> (\<And>s. config_part s = x \<Longrightarrow> fst (m s) \<noteq> Inl Stack_overflow) \<Longrightarrow> ends x m"
  by (simp add: ends_def halts_def)

lemma endsD: "ends x m \<Longrightarrow> config_part s = x \<Longrightarrow> fst (m s) \<noteq> Inl Stack_overflow \<and> config_part (snd (m s)) = x"
  by (auto simp: ends_def halts_def dest: preservesD)

named_theorems ends_intros \<open>computations that do not overflow the stack\<close>

lemma ends_simple [ends_intros]:
  "ends x (return_eff v)" "ends x (gets_eff f)" "e \<noteq> Stack_overflow \<Longrightarrow> ends x (throw_eff e)"
  by (auto intro!: endsI preserves_intros simp: eff_simps)

lemma ends_bind [ends_intros]:
  assumes "ends x m" and "\<And>v s t. config_part s = x \<Longrightarrow> m s = (Inr v, t) \<Longrightarrow> ends x (f v)"
  shows "ends x (bind_eff m f)"
proof -
  have "fst (bind_eff m f s) \<noteq> Inl Stack_overflow \<and> config_part (snd (bind_eff m f s)) = x" if "config_part s = x" for s
  proof -
    obtain r t where m: "m s = (r, t)" by (cases "m s")
    with endsD [OF assms(1) that] have t: "r \<noteq> Inl Stack_overflow" "config_part t = x" by auto
    show ?thesis
    proof (cases r)
      case (Inr v)
      with endsD [OF assms(2) [OF that] t(2), of v t] m show ?thesis by (simp add: eff_simps)
    qed (use m t in \<open>simp add: eff_simps\<close>)
  qed
  then show ?thesis by (auto intro!: endsI preservesI)
qed

lemma ends_seq [ends_intros]: "ends x m \<Longrightarrow> ends x n \<Longrightarrow> ends x (seq_eff m n)"
  unfolding seq_eff_def by (rule ends_bind)

lemma ends_for: "(\<And>v. v \<in> set xs \<Longrightarrow> ends x (f v)) \<Longrightarrow> ends x (for_eff f xs)"
  by (induction xs) (auto intro: ends_intros)

lemma ends_catch [ends_intros]:
  assumes "ends x m" and "\<And>e. is_xpcf e \<Longrightarrow> ends x (h e)"
  shows "ends x (catch_xpcf m h)"
proof -
  have "fst (catch_xpcf m h s) \<noteq> Inl Stack_overflow \<and> config_part (snd (catch_xpcf m h s)) = x" if "config_part s = x" for s
  proof -
    obtain r t where m: "m s = (r, t)" by (cases "m s")
    with endsD [OF assms(1) that] have t: "r \<noteq> Inl Stack_overflow" "config_part t = x" by auto
    show ?thesis
    proof (cases r)
      case (Inl e)
      with m t endsD [OF assms(2) t(2), of e] show ?thesis by (auto simp: eff_simps)
    qed (use m t in \<open>simp add: eff_simps\<close>)
  qed
  then show ?thesis by (auto intro!: endsI preservesI)
qed

lemma ends_if [ends_intros]: "(b \<Longrightarrow> ends x m) \<Longrightarrow> (\<not> b \<Longrightarrow> ends x n) \<Longrightarrow> ends x (if b then m else n)"
  by simp

lemma ends_case_option [ends_intros]:
  "(y = None \<Longrightarrow> ends x m) \<Longrightarrow> (\<And>v. y = Some v \<Longrightarrow> ends x (f v)) \<Longrightarrow> ends x (case y of None \<Rightarrow> m | Some v \<Rightarrow> f v)"
  by (cases y) auto

lemma ends_store [ends_intros]:
  "ends x (modify_eff (\<lambda>s. s\<lparr>f_singletonInstances := g s\<rparr>))"
  "ends x (modify_eff (\<lambda>s. s\<lparr>f_namedSingletonInstances := g' s\<rparr>))"
  "ends x (modify_eff (\<lambda>s. s\<lparr>f_coreInstances := g s\<rparr>))"
  by (rule endsI, rule config_store, simp add: eff_simps)+

text \<open>Computations on components that never overflow the stack, whatever the state.\<close>

definition quiet :: "('s, exn, 'a) eff \<Rightarrow> bool" where
  "quiet m \<longleftrightarrow> (\<forall>s. fst (m s) \<noteq> Inl Stack_overflow)"

named_theorems quiet_intros \<open>computations that never overflow the stack\<close>

lemma quiet_simple [quiet_intros]:
  "quiet (return_eff v)" "quiet (gets_eff f)" "quiet (modify_eff g)" "e \<noteq> Stack_overflow \<Longrightarrow> quiet (throw_eff e)"
  "r \<noteq> Inl Stack_overflow \<Longrightarrow> quiet (lift_eff r)"
  by (simp_all add: quiet_def eff_simps)

lemma quiet_bind [quiet_intros]:
  assumes "quiet m" and "\<And>v. quiet (f v)"
  shows "quiet (bind_eff m f)"
  unfolding quiet_def
proof
  fix s
  obtain r t where "m s = (r, t)" by (cases "m s")
  with assms show "fst (bind_eff m f s) \<noteq> Inl Stack_overflow"
    by (cases r) (auto simp: quiet_def eff_simps dest: spec [of _ s])
qed

lemma quiet_seq [quiet_intros]: "quiet m \<Longrightarrow> quiet n \<Longrightarrow> quiet (seq_eff m n)"
  unfolding seq_eff_def by (rule quiet_bind)

lemma quiet_for [quiet_intros]: "(\<And>v. quiet (f v)) \<Longrightarrow> quiet (for_eff f xs)"
  by (induction xs) (auto intro: quiet_intros)

lemma quiet_if [quiet_intros]: "quiet m \<Longrightarrow> quiet n \<Longrightarrow> quiet (if b then m else n)"
  by simp

lemma quiet_case_option [quiet_intros]:
  "quiet m \<Longrightarrow> (\<And>v. quiet (f v)) \<Longrightarrow> quiet (case y of None \<Rightarrow> m | Some v \<Rightarrow> f v)"
  by (cases y) auto

lemma quiet_on_component [quiet_intros]: "quiet m \<Longrightarrow> quiet (on_component a m)"
  by (auto simp: quiet_def on_component_def split: option.splits prod.splits) (metis fst_conv)

lemma quiet_exceptions [simp]:
  "exception_of_text k w \<noteq> Stack_overflow" "InterfaceNotImplementedException_uuid ts u v \<noteq> Stack_overflow"
  "InjectionException_metadata ts k u n ec \<noteq> Stack_overflow"
  by (simp_all add: exception_of_text_def InterfaceNotImplementedException_uuid_def InjectionException_metadata_def)

lemma quiet_bindTo [quiet_intros]: "quiet (bindTo ts I a)"
  unfolding bindTo_def
  by (rule quiet_on_component) (auto simp: quiet_def bindTo_run split: option.splits)

lemma quiet_inject [quiet_intros]: "quiet (Injector_inject ts a i r)" "quiet (Injector_inject_all ts a i rs)"
  unfolding Injector_inject_def Injector_inject_all_def IInjectable_inject_def IInjectable_inject_named_def
    IInjectable_inject_all_def ComponentBase_retrieveInjectable_def ComponentBase_retrieveInjectable_named_def
    ComponentBase_retrieveMultiInjectable_def
  by (intro quiet_intros; simp)+

lemma ends_on_heap [ends_intros]: "quiet m \<Longrightarrow> ends x (on_heap m)"
  by (rule endsI, rule config_on_heap) (auto simp: quiet_def on_heap_run split: prod.splits, metis fst_conv)

lemma quiet_zoom: "quiet m \<Longrightarrow> quiet (zoom_eff get put m)"
  by (auto simp: quiet_def eff_simps split: prod.splits) (metis fst_conv)

lemma ends_on_objects [ends_intros]: "quiet m \<Longrightarrow> ends x (on_objects m)"
  unfolding on_objects_def by (intro ends_on_heap quiet_zoom)

lemma ends_lift: "r \<noteq> Inl Stack_overflow \<Longrightarrow> ends x (lift_eff r)"
  by (auto intro!: endsI preserves_intros simp: eff_simps)

lemma resolveBind_no_overflow:
  "Factory_resolveBind ts c core u ctxs \<noteq> Inl Stack_overflow"
  "Factory_resolveBind_named ts c core u n ctxs \<noteq> Inl Stack_overflow"
  using resolveBind_exn [of ts c core u ctxs Stack_overflow] resolveBind_named_exn [of ts c core u n ctxs Stack_overflow]
  by auto

text \<open>The bindings a resolution can meet, and those the resolver is known to end on.\<close>

abbreviation (input) "recorded_in x u b \<equiv> recorded (fst x) (fst (snd x)) u b"

lemma config_part_fields: "config_part s = x \<Longrightarrow> f_context s = fst x \<and> f_coreBindings s = fst (snd x)"
  by (auto simp: config_part_def)

lemma ends_search:
  assumes "\<And>s. config_part s = x \<Longrightarrow> f s \<noteq> Inl Stack_overflow" and "\<And>s b. config_part s = x \<Longrightarrow> f s = Inr b \<Longrightarrow> Q b"
    and "\<And>b. Q b \<Longrightarrow> ends x (g b)"
  shows "ends x (bind_eff (gets_eff f) (\<lambda>r. bind_eff (lift_eff r) g))"
proof (rule ends_bind [OF ends_simple(2)])
  fix r s t
  assume s: "config_part s = x" and "gets_eff f s = (Inr r, t)"
  then have r: "r = f s" by (auto simp: eff_simps)
  show "ends x (bind_eff (lift_eff r) g)"
  proof (rule ends_bind [OF ends_lift])
    show "r \<noteq> Inl Stack_overflow" using r s assms(1) by simp
    fix b s' t' assume "lift_eff r s' = (Inr b, t')"
    then show "ends x (g b)" using r s assms(2,3) by (simp add: eff_simps)
  qed
qed

lemma ends_resolve_with:
  assumes "\<And>b ctxs. recorded_in x u b \<Longrightarrow> ends x (rc b ctxs)"
  shows "ends x (Factory_resolve_with rc fw u ctxs)" and "ends x (Factory_resolve_named_with rc fw u n ctxs)"
  unfolding Factory_resolve_with_def Factory_resolve_named_with_def Let_def
proof (rule_tac [!] ends_search [where Q = "recorded_in x u"])
  fix s assume s: "config_part s = x"
  show "Factory_resolveBind (uuid_text fw) (f_context s) (f_coreBindings s) u ctxs \<noteq> Inl Stack_overflow"
    "Factory_resolveBind_named (uuid_text fw) (f_context s) (f_coreBindings s) u n ctxs \<noteq> Inl Stack_overflow"
    by (rule resolveBind_no_overflow)+
  fix b
  show "recorded_in x u b" if "Factory_resolveBind (uuid_text fw) (f_context s) (f_coreBindings s) u ctxs = Inr b"
    using resolveBind_recorded [OF that] config_part_fields [OF s] by simp
  show "recorded_in x u b" if "Factory_resolveBind_named (uuid_text fw) (f_context s) (f_coreBindings s) u n ctxs = Inr b"
    using resolveBind_named_recorded [OF that] config_part_fields [OF s] by simp
qed (intro ends_intros assms; assumption)+

lemma ends_resolve_all_loop:
  assumes "\<And>b ctxs. b \<in> set bs \<Longrightarrow> ends x (rc b ctxs)"
  shows "ends x (resolve_all_loop rc bs ctxs cs)"
  using assms
proof (induction bs arbitrary: ctxs cs)
  case (Cons b bs)
  then show ?case unfolding resolve_all_loop.simps Let_def by (intro ends_intros) auto
qed (simp add: ends_simple)

lemma ends_resolveAll_with:
  assumes "\<And>b ctxs. recorded_in x u b \<Longrightarrow> ends x (rc b ctxs)"
  shows "ends x (Factory_resolveAll_with rc fw u ctxs)"
  unfolding Factory_resolveAll_with_def
proof (rule ends_bind [OF ends_simple(2)])
  fix m s t
  assume s: "config_part s = x" and "gets_eff (\<lambda>s. multiBindings (f_context s) u) s = (Inr m, t)"
  then have m: "m = multiBindings (fst x) u" using config_part_fields [OF s] by (simp add: eff_simps)
  show "ends x (case m of
      None \<Rightarrow> bind_eff (Factory_resolve_with rc fw u ctxs) (\<lambda>a. return_eff (Collection_add a []))
    | Some bindInfos \<Rightarrow> resolve_all_loop rc bindInfos ctxs [])"
    using m by (intro ends_intros ends_resolve_with ends_resolve_all_loop assms) (auto simp: recorded_def)
qed

lemma ends_inject_one:
  assumes "\<And>b ctxs. recorded_in x (inj_serviceUUID i) b \<Longrightarrow> ends x (rc b ctxs)"
  shows "ends x (inject_one rc fw a ctxs i)"
  unfolding inject_one_def Factory_resolve_injectable_with_def
  by (intro ends_intros ends_resolve_with ends_resolveAll_with quiet_intros assms) auto

lemma ends_configure:
  assumes "\<And>a p n h. fst (fw_configure fw a p n h) \<noteq> Inl Stack_overflow"
  shows "ends x (configure_component fw b a)"
  unfolding configure_component_def
  by (intro ends_intros quiet_intros) (simp_all add: quiet_def assms)

text \<open>
  The hypotheses on a configuration: what creating the component of a recorded binding gives (it may throw, and it may
  create objects that hold fewer injectables than \<open>declares\<close> says), and that the recorded bindings of what a component
  declares are of components of a smaller rank.
\<close>

definition creates_declared ::
  "'p Framework_scheme \<Rightarrow> (uuid \<Rightarrow> Injector list) \<Rightarrow> FactoryBindInfos \<Rightarrow> 'a FactoryState_scheme \<Rightarrow> bool" where
  "creates_declared fw declares b s \<longleftrightarrow>
     (case Factory_creator fw b s of
        (Inl e, _) \<Rightarrow> e \<noteq> Stack_overflow
      | (Inr a, t) \<Rightarrow> (case ch_objects (f_heap t) a of None \<Rightarrow> False
          | Some obj \<Rightarrow> set (cb_injectablesCollection obj) \<subseteq> set (declares (bi_componentUUID b))))"

definition ranked :: "FactoryContext \<Rightarrow> (uuid \<rightharpoonup> FactoryBindInfos) \<Rightarrow> (uuid \<Rightarrow> Injector list) \<Rightarrow> (uuid \<Rightarrow> nat) \<Rightarrow> bool" where
  "ranked c core declares rank \<longleftrightarrow> (\<forall>X i b. i \<in> set (declares X) \<longrightarrow> recorded c core (inj_serviceUUID i) b \<longrightarrow>
     rank (bi_componentUUID b) < rank X)"

lemma bindTo_heap:
  assumes "ch_objects (f_heap s) a = Some obj" and "on_objects (bindTo ts I a) s = (Inr v, t)"
  shows "\<exists>obj'. ch_objects (f_heap t) a = Some obj' \<and> cb_injectablesCollection obj' = cb_injectablesCollection obj"
  using assms by (auto simp: on_objects_def eff_simps bindTo_def on_component_def bindTo_run
      split: option.splits if_splits prod.splits)

lemma inject_with_run:
  assumes "ch_objects (f_heap s) a = Some obj"
  shows "Factory_inject_with rc fw a ctxs s =
    seq_eff (for_eff (inject_one rc fw a ctxs) (cb_injectablesCollection obj)) (on_heap (fw_onInjected fw a)) s"
proof -
  have "(ch_objects (f_heap s))(a \<mapsto> obj) = ch_objects (f_heap s)"
    using assms by auto
  then have "on_objects (on_component a (gets_eff ComponentBase_getInjectables)) s = (Inr (cb_injectablesCollection obj), s)"
    using assms by (simp add: on_objects_def eff_simps on_component_def ComponentBase_getInjectables_def)
  then show ?thesis by (simp add: Factory_inject_with_def bind_eff_run)
qed

lemma resolveComponent_ends:
  fixes s :: "'a FactoryState_scheme"
  assumes created: "\<And>u b (s :: 'a FactoryState_scheme). config_part s = x \<Longrightarrow> recorded_in x u b \<Longrightarrow> creates_declared fw declares b s"
    and ranked: "ranked (fst x) (fst (snd x)) declares rank"
    and hooks: "\<And>a h. fst (fw_onInjected fw a h) \<noteq> Inl Stack_overflow"
      "\<And>a p n h. fst (fw_configure fw a p n h) \<noteq> Inl Stack_overflow"
    and "recorded_in x u b" and "rank (bi_componentUUID b) < n"
  shows "ends x (Factory_resolveComponent fw n b ctxs :: ('a FactoryState_scheme, exn, nat) eff)"
  using assms(5,6)
proof (induction n arbitrary: u b ctxs)
  case (Suc n)
  have inject: "ends x (for_eff (inject_one (Factory_resolveComponent fw n) fw a ctxs) is
      :: ('a FactoryState_scheme, exn, unit) eff)" if "set is \<subseteq> set (declares (bi_componentUUID b))" for a "is"
  proof (rule ends_for, rule ends_inject_one)
    fix i b' ctxs' assume i: "i \<in> set is" and b': "recorded_in x (inj_serviceUUID i) b'"
    with ranked that have "rank (bi_componentUUID b') < rank (bi_componentUUID b)" by (auto simp: ranked_def)
    with Suc.prems(2) show "ends x (Factory_resolveComponent fw n b' ctxs' :: ('a FactoryState_scheme, exn, nat) eff)"
      by (intro Suc.IH [OF b']) simp
  qed
  have "fst (Factory_resolveComponent fw (Suc n) b ctxs s) \<noteq> Inl Stack_overflow" if s: "config_part s = x" for s :: "'a FactoryState_scheme"
  proof -
    obtain r t where c: "Factory_creator fw b s = (r, t)" by (cases "Factory_creator fw b s")
    have t: "config_part t = x" using preservesD [OF config_creator s] c by (metis snd_conv)
    show ?thesis
    proof (cases r)
      case (Inr a)
      with c created [OF s Suc.prems(1)] obtain obj where obj: "ch_objects (f_heap t) a = Some obj"
        and decl: "set (cb_injectablesCollection obj) \<subseteq> set (declares (bi_componentUUID b))"
        by (auto simp: creates_declared_def split: option.splits)
      obtain r1 t1 where b1: "on_objects (bindTo (uuid_text fw) IInjectable a) t = (r1, t1)"
        by (cases "on_objects (bindTo (uuid_text fw) IInjectable a) t")
      have ends1: "ends x (on_objects (bindTo (uuid_text fw) IInjectable a) :: ('a FactoryState_scheme, exn, SRef) eff)"
        by (intro ends_intros quiet_intros)
      have t1: "config_part t1 = x" "r1 \<noteq> Inl Stack_overflow" using endsD [OF ends1 t] b1 by auto
      show ?thesis
      proof (cases r1)
        case (Inr v)
        with bindTo_heap [OF obj] b1 obtain obj1 where obj1: "ch_objects (f_heap t1) a = Some obj1"
          and same: "cb_injectablesCollection obj1 = cb_injectablesCollection obj" by blast
        let ?rest = "seq_eff (seq_eff (for_eff (inject_one (Factory_resolveComponent fw n) fw a ctxs) (cb_injectablesCollection obj))
            (on_heap (fw_onInjected fw a))) (configure_component fw b a) :: ('a FactoryState_scheme, exn, nat) eff"
        have "ends x ?rest"
          using inject [OF decl] hooks
          by (intro ends_seq ends_configure ends_on_heap) (auto simp: quiet_def)
        with endsD [OF this t1(1)] have "fst (?rest t1) \<noteq> Inl Stack_overflow" by blast
        moreover have "Factory_resolveComponent fw (Suc n) b ctxs s = ?rest t1"
          using c \<open>r = Inr a\<close> b1 Inr inject_with_run [OF obj1, of "Factory_resolveComponent fw n" fw ctxs] same
          by (simp add: bind_eff_run seq_eff_run)
        ultimately show ?thesis by simp
      qed (use c \<open>r = Inr a\<close> b1 t1 in \<open>simp add: bind_eff_run\<close>)
    qed (use c created [OF s Suc.prems(1)] in \<open>simp add: bind_eff_run creates_declared_def\<close>)
  qed
  then show ?case by (intro endsI config_resolveComponent)
qed simp

text \<open>
  Property C3. Resolution ends on an acyclic configuration: when the components that bindings can create declare no
  injectable with a binding to a component of the same or a higher rank, a stack deeper than the ranks of the
  bindings of an interface is enough to resolve it (to a component or to an exception of the program), and every deeper stack
  gives the same outcome.
\<close>

theorem resolution_ends:
  fixes s :: "'a FactoryState_scheme"
  assumes "\<And>v b (t :: 'a FactoryState_scheme). config_part t = config_part s \<Longrightarrow>
      recorded (f_context s) (f_coreBindings s) v b \<Longrightarrow> creates_declared fw declares b t"
    and "ranked (f_context s) (f_coreBindings s) declares rank"
    and "\<And>a h. fst (fw_onInjected fw a h) \<noteq> Inl Stack_overflow"
    and "\<And>a p n h. fst (fw_configure fw a p n h) \<noteq> Inl Stack_overflow"
    and "\<And>b. recorded (f_context s) (f_coreBindings s) u b \<Longrightarrow> rank (bi_componentUUID b) < n" and "n \<le> m"
  shows "fst (Factory_resolve fw n u ctxs s) \<noteq> Inl Stack_overflow \<and>
    Factory_resolve fw m u ctxs s = Factory_resolve fw n u ctxs s"
proof -
  have x: "fst (config_part s) = f_context s" "fst (snd (config_part s)) = f_coreBindings s"
    by (simp_all add: config_part_def)
  have rc: "ends (config_part s) (Factory_resolveComponent fw n b ctxs' :: ('a FactoryState_scheme, exn, nat) eff)"
    if "recorded_in (config_part s) u b" for b ctxs'
    by (rule resolveComponent_ends [of "config_part s" fw declares rank u])
      (use assms(1-5) that in \<open>auto simp: x\<close>)
  have "ends (config_part s) (Factory_resolve fw n u ctxs :: ('a FactoryState_scheme, exn, nat) eff)"
    unfolding Factory_resolve_def by (intro ends_resolve_with rc)
  then have "fst (Factory_resolve fw n u ctxs s) \<noteq> Inl Stack_overflow"
    using endsD by blast
  with deeper_resolve [OF assms(6), of fw u ctxs] show ?thesis
    by (auto simp: deeper_def)
qed

section \<open>Resolution does not end on cycles\<close>

lemma resolveBind_in_cycle:
  assumes "defaultBindings c u = Some b" and "in_range b (BindingRange_Default OR BindingRange_All)"
    and "inner_map (specificBindings c) (bi_componentUUID b) u = None"
  shows "Factory_resolveBind ts c core u (replicate j (ContextComponent, b)) = Inr b"
proof -
  have "bi_bindingRangeMask b \<noteq> BindingRange_Explicit"
    using assms(2) by (auto simp: in_range_def range_defs)
  with assms(3) have "specific_search ts c core u (replicate j (ContextComponent, b)) = Inr None"
    by (induction j) simp_all
  moreover have "root_allows (replicate j (ContextComponent, b)) (BindingRange_Default OR BindingRange_All)"
    using assms(2) by (cases j) (simp_all add: root_allows_def del: replicate_Suc)
  ultimately show ?thesis
    using assms(1) by (simp add: Factory_resolveBind_def domIff)
qed

text \<open>Every object the method makes is injectable and asks first for a component of the interface.\<close>

definition asks_for :: "uuid \<Rightarrow> factory_method \<Rightarrow> bool" where
  "asks_for u m \<longleftrightarrow> (\<forall>h. \<exists>a h' obj i rest d p. m h = (Inr a, h') \<and> ch_objects h' a = Some obj \<and>
     cb_injectablesCollection obj = i # rest \<and> \<not> inj_isMulti i \<and> \<not> inj_named i \<and> inj_serviceUUID i = u \<and>
     cb_interfaces obj (it_UUID IInjectable) = Some (d, \<lparr>any_type = it_type IInjectable, any_addr = p\<rparr>))"

lemma bindTo_IInjectable:
  assumes "ch_objects (f_heap s) a = Some obj"
    and "cb_interfaces obj (it_UUID IInjectable) = Some (d, \<lparr>any_type = it_type IInjectable, any_addr = p\<rparr>)"
  shows "on_objects (bindTo ts IInjectable a) s = (Inr (a, p), s\<lparr>f_heap := (f_heap s)\<lparr>ch_objects :=
    (ch_objects (f_heap s))(a \<mapsto> obj\<lparr>cb_usageRefCount := cb_usageRefCount obj + 1\<rparr>)\<rparr>\<rparr>)"
proof -
  have "bindTo ts IInjectable a (ch_objects (f_heap s)) =
      (Inr (a, p), (ch_objects (f_heap s))(a \<mapsto> obj\<lparr>cb_usageRefCount := cb_usageRefCount obj + 1\<rparr>))"
    by (simp add: bindTo_def on_component_def bindTo_run assms)
  then show ?thesis unfolding on_objects_def on_heap_run zoom_eff_run by simp
qed

lemma cycle_overflows:
  fixes s :: "'a FactoryState_scheme"
  assumes c: "f_context s = c" "f_singletonInstances s (bi_componentUUID b) = None"
    and b: "defaultBindings c u = Some b" "in_range b (BindingRange_Default OR BindingRange_All)"
      "inner_map (specificBindings c) (bi_componentUUID b) u = None"
    and m: "factoryMethods c (bi_componentUUID b) = Some m" "asks_for u m"
  shows "fst (Factory_resolveComponent fw n b (replicate j (ContextComponent, b)) s) = Inl Stack_overflow"
  using c
proof (induction n arbitrary: s j)
  case (Suc n)
  let ?ctxs = "replicate j (ContextComponent, b)"
  obtain a h' obj i rest d p where mk: "m (f_heap s) = (Inr a, h')" and obj: "ch_objects h' a = Some obj"
    and i: "cb_injectablesCollection obj = i # rest" "\<not> inj_isMulti i" "\<not> inj_named i" "inj_serviceUUID i = u"
    and inj: "cb_interfaces obj (it_UUID IInjectable) = Some (d, \<lparr>any_type = it_type IInjectable, any_addr = p\<rparr>)"
    using m(2) unfolding asks_for_def by blast
  let ?s1 = "s\<lparr>f_heap := h'\<rparr>"
  let ?obj = "obj\<lparr>cb_usageRefCount := cb_usageRefCount obj + 1\<rparr>"
  let ?s2 = "s\<lparr>f_heap := h'\<lparr>ch_objects := (ch_objects h')(a \<mapsto> ?obj)\<rparr>\<rparr>"
  have not_core: "bi_bindingRangeMask b \<noteq> BindingRange_Core"
    using b(2) by (auto simp: in_range_def range_defs)
  have create: "Factory_creator fw b s = (Inr a, ?s1)"
    using Suc.prems(1) m(1) mk not_core by (simp add: Factory_creator_def eff_simps)
  have bound: "on_objects (bindTo (uuid_text fw) IInjectable a) ?s1 = (Inr (a, p), ?s2)"
    using bindTo_IInjectable [of ?s1 a obj d p "uuid_text fw"] obj inj by simp
  have "fst (Factory_resolve_with (Factory_resolveComponent fw n) fw u ?ctxs ?s2) = Inl Stack_overflow"
  proof -
    have "Factory_resolveBind (uuid_text fw) (f_context ?s2) (f_coreBindings ?s2) u ?ctxs = Inr b"
      using resolveBind_in_cycle [OF b] Suc.prems(1) by simp
    moreover have "fst (Factory_resolveComponent fw n b ((ContextComponent, b) # ?ctxs) ?s2) = Inl Stack_overflow"
      using Suc.IH [of ?s2 "Suc j"] Suc.prems by simp
    ultimately show ?thesis
      using Suc.prems(2) not_core
      by (auto simp: Factory_resolve_with_def eff_simps Let_def split: prod.splits)
  qed
  then have "fst (inject_one (Factory_resolveComponent fw n) fw a ?ctxs i ?s2) = Inl Stack_overflow"
    using i by (auto simp: inject_one_def Factory_resolve_injectable_with_def eff_simps split: prod.splits)
  then have "fst (Factory_inject_with (Factory_resolveComponent fw n) fw a ?ctxs ?s2) = Inl Stack_overflow"
    using inject_with_run [of ?s2 a ?obj "Factory_resolveComponent fw n" fw ?ctxs] i(1)
    by (auto simp: eff_simps split: prod.splits)
  then show ?case
    using create bound by (auto simp: eff_simps split: prod.splits)
qed (simp add: eff_simps)

text \<open>
  Property C16. A component that asks for an interface bound to itself is never made: resolving the interface overflows
  a stack of any depth, whether the component is transient or a singleton (an instance is recorded only once it has been
  injected) and whether the injectable is mandatory or optional.
\<close>

theorem cyclic_binding_overflows:
  assumes "f_singletonInstances s (bi_componentUUID b) = None"
    and "defaultBindings (f_context s) u = Some b" and "in_range b (BindingRange_Default OR BindingRange_All)"
    and "inner_map (specificBindings (f_context s)) (bi_componentUUID b) u = None"
    and "factoryMethods (f_context s) (bi_componentUUID b) = Some m" and "asks_for u m"
  shows "fst (Factory_resolve fw n u [] s) = Inl Stack_overflow"
proof -
  have "bi_bindingRangeMask b \<noteq> BindingRange_Core"
    using assms(3) by (auto simp: in_range_def range_defs)
  moreover have "fst (Factory_resolveComponent fw n b [(ContextComponent, b)] s) = Inl Stack_overflow"
    using cycle_overflows [OF refl assms, of fw n 1] by simp
  moreover have "Factory_resolveBind (uuid_text fw) (f_context s) (f_coreBindings s) u [] = Inr b"
    using resolveBind_in_cycle [OF assms(2-4), of _ _ 0] by simp
  ultimately show ?thesis
    using assms(1) by (auto simp: Factory_resolve_def Factory_resolve_with_def eff_simps Let_def split: prod.splits)
qed

section \<open>Multiple bindings\<close>

lemma length_Collection_add [simp]: "length (Collection_add x xs) = Suc (length xs)"
  by (simp add: Collection_add_def)

lemma resolve_all_loop_length:
  "resolve_all_loop rc bs ctxs cs s = (Inr xs, t) \<Longrightarrow>
   length xs = length cs + length bs + length (filter (\<lambda>b. bi_scope b = Singleton) bs)"
proof (induction bs arbitrary: ctxs cs s)
  case (Cons b bs)
  let ?ctxs = "(ContextComponent, b) # ctxs"
  obtain cs' c s2 where "resolve_all_loop rc bs ?ctxs (Collection_add c cs') s2 = (Inr xs, t)"
    and "length cs' = (if bi_scope b = Singleton then Suc (length cs) else length cs)"
    using Cons.prems
    by (auto simp: Let_def eff_simps split: prod.splits sum.splits option.splits if_splits)
  with Cons.IH show ?case by fastforce
qed (simp add: eff_simps)

text \<open>
  Property C14. What \<open>resolveAll\<close> gives for a multiple binding: one component for each transient binding, and two for each
  singleton binding, the shared instance and one more that is made on top of it. Without a multiple binding it is the
  one component \<open>resolve\<close> gives.
\<close>

theorem resolveAll_count:
  assumes "Factory_resolveAll fw n u ctxs s = (Inr xs, t)"
  shows "case multiBindings (f_context s) u of
      Some bs \<Rightarrow> length xs = length bs + length (filter (\<lambda>b. bi_scope b = Singleton) bs)
    | None \<Rightarrow> \<exists>a. xs = [a] \<and> Factory_resolve fw n u ctxs s = (Inr a, t)"
  using assms resolve_all_loop_length [of "Factory_resolveComponent fw n" _ ctxs "[]" s xs t]
  by (auto simp: Factory_resolveAll_def Factory_resolveAll_with_def Factory_resolve_def eff_simps Collection_add_def
      split: option.splits prod.splits sum.splits)

section \<open>Witnesses\<close>

text \<open>A component with no injectable, and one with an injectable for the interface the first implements.\<close>

definition plain_component :: ComponentBase where
  "plain_component = snd (ComponentBase_declareInterface sample_interface 6 (snd (newComponentBase 2 True 4)))"

definition needy_component :: ComponentBase where
  "needy_component = snd (ComponentBase_declareInjectable (\<lambda>_. '''') sample_interface 7 True (snd (newComponentBase 3 True 5)))"

definition sample_bindings :: FactoryContext where
  "sample_bindings = Factory_bind_method 9 4 (new_object plain_component) Singleton (BindingRange_Default OR BindingRange_All)
     (Factory_bind_method 8 5 (new_object needy_component) Transient (BindingRange_Default OR BindingRange_All)
       FactoryContext_init)"

definition sample_factory :: "FactoryContext \<Rightarrow> FactoryState" where
  "sample_factory c = PropertyManagerState.extend sample_props
     (FactoryState.fields c Map.empty Map.empty Map.empty Map.empty Map.empty \<lparr>ch_objects = Map.empty, ch_next = 1\<rparr>)"

definition sample_framework :: Framework where
  "sample_framework = Platform.extend sample_platform (Framework.fields (\<lambda>_. return_eff ()) (\<lambda>_ _ _. return_eff SUCCESS))"

text \<open>Resolving a component that asks for nothing is creating it and counting the reference to its injectable interface.\<close>

lemma resolveComponent_leaf:
  assumes "bi_bindingRangeMask b \<noteq> BindingRange_Core"
    and "factoryMethods (f_context s) (bi_componentUUID b) = Some (new_object obj)"
    and "cb_injectablesCollection obj = []" and "cb_interfaces obj IConfigurable_UUID = None"
    and "cb_interfaces obj (it_UUID IInjectable) = Some (d, \<lparr>any_type = it_type IInjectable, any_addr = p\<rparr>)"
    and "\<And>a h. fw_onInjected fw a h = (Inr (), h)"
  shows "Factory_resolveComponent fw (Suc n) b ctxs s =
    (Inr (ch_next (f_heap s)), s\<lparr>f_heap := \<lparr>ch_objects = (ch_objects (f_heap s))(ch_next (f_heap s) \<mapsto>
       obj\<lparr>cb_usageRefCount := cb_usageRefCount obj + 1\<rparr>), ch_next = Suc (ch_next (f_heap s))\<rparr>\<rparr>)"
proof -
  let ?a = "ch_next (f_heap s)" and ?obj = "obj\<lparr>cb_usageRefCount := cb_usageRefCount obj + 1\<rparr>"
  let ?s1 = "s\<lparr>f_heap := (f_heap s)\<lparr>ch_objects := (ch_objects (f_heap s))(?a \<mapsto> obj), ch_next := Suc ?a\<rparr>\<rparr>"
  let ?s2 = "s\<lparr>f_heap := (f_heap s)\<lparr>ch_objects := (ch_objects (f_heap s))(?a \<mapsto> ?obj), ch_next := Suc ?a\<rparr>\<rparr>"
  have create: "Factory_creator fw b s = (Inr ?a, ?s1)"
    using assms(1,2) by (simp add: Factory_creator_def eff_simps new_object_def)
  have bound: "on_objects (bindTo (uuid_text fw) IInjectable ?a) ?s1 = (Inr (?a, p), ?s2)"
    using bindTo_IInjectable [of ?s1 ?a obj d p "uuid_text fw"] assms(5) by simp
  have inject: "Factory_inject_with (Factory_resolveComponent fw n) fw ?a ctxs ?s2 = (Inr (), ?s2)"
    using inject_with_run [of ?s2 ?a ?obj "Factory_resolveComponent fw n" fw ctxs] assms(3,6) by (simp add: eff_simps)
  have same: "(ch_objects (f_heap ?s2))(?a \<mapsto> ?obj) = ch_objects (f_heap ?s2)"
    by simp
  have "configure_component fw b ?a ?s2 = (Inr ?a, ?s2)"
    using assms(4) by (simp add: configure_component_def on_objects_def eff_simps on_component_def ComponentBase_implements_def domIff)
  with create bound inject have "Factory_resolveComponent fw (Suc n) b ctxs s = (Inr ?a, ?s2)"
    by (simp add: bind_eff_run seq_eff_run)
  then show ?thesis by simp
qed

lemmas component_eval = newComponentBase_def eff_simps declareInterface_run IComponentIntrospect_def IInjectable_def
  IConfigurable_UUID_def sample_interface_def ComponentBase_declareInjectable_def Let_def newInjector_def
  newInjectableMetadata_def InjectableMetadata.extend_def Injector.fields_def Collection_add_def

lemma plain_component_fields:
  "cb_injectablesCollection plain_component = []" "cb_interfaces plain_component IConfigurable_UUID = None"
  "\<exists>d. cb_interfaces plain_component (it_UUID IInjectable) = Some (d, \<lparr>any_type = it_type IInjectable, any_addr = 2\<rparr>)"
  by (simp_all add: plain_component_def component_eval)

lemma needy_component_fields:
  "cb_injectablesCollection needy_component = [newInjector sample_interface 9 True]"
  "\<exists>d. cb_interfaces needy_component (it_UUID IInjectable) = Some (d, \<lparr>any_type = it_type IInjectable, any_addr = 3\<rparr>)"
  by (simp_all add: needy_component_def component_eval)

lemma newInjector_fields [simp]:
  "inj_serviceUUID (newInjector I u b) = u" "\<not> inj_named (newInjector I u b)" "\<not> inj_isMulti (newInjector I u b)"
  by (simp_all add: newInjector_def newInjectableMetadata_def InjectableMetadata.extend_def Injector.fields_def)

abbreviation (input) "sample_range \<equiv> BindingRange_Default OR BindingRange_All"

lemma sample_bindings_fields:
  "defaultBindings sample_bindings = [8 \<mapsto> \<lparr>bi_componentUUID = 5, bi_scope = Transient, bi_bindingRangeMask = sample_range, bi_properties = ''''\<rparr>,
     9 \<mapsto> \<lparr>bi_componentUUID = 4, bi_scope = Singleton, bi_bindingRangeMask = sample_range, bi_properties = ''''\<rparr>]"
  "factoryMethods sample_bindings = [5 \<mapsto> new_object needy_component, 4 \<mapsto> new_object plain_component]"
  "autoBindings sample_bindings = Map.empty" "specificBindings sample_bindings = Map.empty"
  "namedBindings sample_bindings = Map.empty" "specificNamedBindings sample_bindings = Map.empty"
  "multiBindings sample_bindings = Map.empty"
  by (simp_all add: sample_bindings_def Factory_bind_method_def Factory_bind_method_infos_def bind_defs
      FactoryContext_init_def)

lemma sample_factory_fields [simp]:
  "f_context (sample_factory c) = c" "f_coreBindings (sample_factory c) = Map.empty"
  "f_singletonInstances (sample_factory c) = Map.empty" "f_namedSingletonInstances (sample_factory c) = Map.empty"
  "f_coreFactoryMethods (sample_factory c) = Map.empty" "f_heap (sample_factory c) = \<lparr>ch_objects = Map.empty, ch_next = 1\<rparr>"
  by (simp_all add: sample_factory_def PropertyManagerState.extend_def FactoryState.fields_def)

lemma sample_framework_hooks [simp]:
  "fw_onInjected sample_framework a h = (Inr (), h)" "fw_configure sample_framework a p n h = (Inr SUCCESS, h)"
  by (simp_all add: sample_framework_def Platform.extend_def Framework.fields_def eff_simps)

lemma sample_range_not_core [simp]: "sample_range \<noteq> BindingRange_Core"
  by (simp add: range_defs)

abbreviation (input) "plain_bind \<equiv>
  \<lparr>bi_componentUUID = 4, bi_scope = Singleton, bi_bindingRangeMask = sample_range, bi_properties = ''''\<rparr>"

lemma sample_resolve_plain:
  "\<exists>t. Factory_resolve sample_framework 1 9 [] (sample_factory sample_bindings) = (Inr 1, t)"
  "\<exists>t. Factory_resolve_named sample_framework 1 9 n [] (sample_factory sample_bindings) = (Inr 1, t)"
  "Factory_resolveBind ts sample_bindings Map.empty 9 [] = Inr plain_bind"
  "Factory_resolveBind_named ts sample_bindings Map.empty 9 n [] = Inr plain_bind"
proof -
  show search: "Factory_resolveBind ts sample_bindings Map.empty 9 [] = Inr plain_bind" for ts
    by (simp add: Factory_resolveBind_def sample_bindings_fields root_allows_def)
  then show named: "Factory_resolveBind_named ts sample_bindings Map.empty 9 n [] = Inr plain_bind" for ts
    by (simp add: Factory_resolveBind_named_def sample_bindings_fields)
  obtain d where "cb_interfaces plain_component (it_UUID IInjectable) = Some (d, \<lparr>any_type = it_type IInjectable, any_addr = 2\<rparr>)"
    using plain_component_fields(3) by blast
  then obtain t where rc: "Factory_resolveComponent sample_framework 1 plain_bind [(ContextComponent, plain_bind)]
      (sample_factory sample_bindings) = (Inr 1, t)"
    using resolveComponent_leaf [of plain_bind "sample_factory sample_bindings" plain_component d 2 sample_framework 0
        "[(ContextComponent, plain_bind)]"]
    by (simp add: sample_bindings_fields plain_component_fields del: Factory_resolveComponent.simps)
  from rc show "\<exists>t. Factory_resolve sample_framework 1 9 [] (sample_factory sample_bindings) = (Inr 1, t)"
    by (simp add: Factory_resolve_def Factory_resolve_with_def eff_simps Let_def search del: Factory_resolveComponent.simps)
  from rc show "\<exists>t. Factory_resolve_named sample_framework 1 9 n [] (sample_factory sample_bindings) = (Inr 1, t)"
    by (simp add: Factory_resolve_named_def Factory_resolve_named_with_def eff_simps Let_def named
        del: Factory_resolveComponent.simps)
qed

theorem singleton_resolved_once_witness:
  "\<exists>l :: FactoryState. Factory_resolve sample_framework 0 9 [] l = (Inr 1, l)"
proof -
  obtain t t' where "Factory_resolve sample_framework 1 9 [] (sample_factory sample_bindings) = (Inr 1, t)"
    and "Factory_resolve_named sample_framework 1 9 ''x'' [] (sample_factory sample_bindings) = (Inr 1, t')"
    using sample_resolve_plain(1,2) by blast
  moreover let ?l = "snd (Factory_resolveAll sample_framework 1 9 [] t)"
  have "later sample_framework t ?l" and "later sample_framework t' t'"
    by (auto intro: later.intros)
  ultimately have "Factory_resolve sample_framework 0 9 [] ?l = (Inr 1, ?l)"
    using singleton_resolved_once [of sample_framework "sample_factory sample_bindings" 9 "[]" plain_bind 1 1 t
        9 "''x''" plain_bind 1 t' ?l t' 0]
    by (simp add: sample_resolve_plain(3,4))
  then show ?thesis by blast
qed

abbreviation (input) "needy_bind \<equiv>
  \<lparr>bi_componentUUID = 5, bi_scope = Transient, bi_bindingRangeMask = sample_range, bi_properties = ''''\<rparr>"

lemma sample_recorded:
  "recorded sample_bindings Map.empty v b \<longleftrightarrow> v = 8 \<and> b = needy_bind \<or> v = 9 \<and> b = plain_bind"
  by (auto simp: recorded_def sample_bindings_fields inner_map_def split: if_splits)

lemma sample_creates:
  assumes "config_part t = config_part (sample_factory sample_bindings)" and "recorded sample_bindings Map.empty v b"
  shows "creates_declared sample_framework (\<lambda>X. if X = 5 then [newInjector sample_interface 9 True] else []) b t"
proof -
  have "f_context t = sample_bindings"
    using assms(1) by (simp add: config_part_def)
  then show ?thesis
    using assms(2)
    by (auto simp: sample_recorded creates_declared_def Factory_creator_def eff_simps sample_bindings_fields
        new_object_def plain_component_fields needy_component_fields)
qed

theorem resolution_ends_witness:
  "fst (Factory_resolve sample_framework 2 8 [] (sample_factory sample_bindings)) \<noteq> Inl Stack_overflow \<and>
   Factory_resolve sample_framework 7 8 [] (sample_factory sample_bindings)
     = Factory_resolve sample_framework 2 8 [] (sample_factory sample_bindings)"
proof (rule resolution_ends)
  show "ranked (f_context (sample_factory sample_bindings)) (f_coreBindings (sample_factory sample_bindings))
      (\<lambda>X. if X = 5 then [newInjector sample_interface 9 True] else []) (\<lambda>X. if X = 5 then 1 else 0)"
    by (auto simp: ranked_def sample_recorded split: if_splits)
qed (use sample_creates in \<open>auto simp: sample_recorded split: if_splits\<close>)

theorem cyclic_binding_overflows_witness:
  "fst (Factory_resolve sample_framework 100 9 [] (sample_factory
     (Factory_bind_method 9 5 (new_object needy_component) Singleton sample_range FactoryContext_init))) = Inl Stack_overflow"
proof (rule cyclic_binding_overflows [where b = "\<lparr>bi_componentUUID = 5, bi_scope = Singleton,
      bi_bindingRangeMask = sample_range, bi_properties = ''''\<rparr>" and m = "new_object needy_component"])
  obtain d where "cb_interfaces needy_component (it_UUID IInjectable) = Some (d, \<lparr>any_type = it_type IInjectable, any_addr = 3\<rparr>)"
    using needy_component_fields(2) by blast
  then show "asks_for 9 (new_object needy_component)"
    by (auto simp: asks_for_def new_object_def needy_component_fields)
qed (simp_all add: Factory_bind_method_def Factory_bind_method_infos_def bind_defs FactoryContext_init_def in_range_def
    range_defs inner_map_def)

theorem resolveAll_count_witness:
  "\<exists>xs t. Factory_resolveAll sample_framework 1 9 []
     (sample_factory (sample_bindings\<lparr>multiBindings := [9 \<mapsto> [plain_bind]]\<rparr>)) = (Inr xs, t) \<and> length xs = 2"
proof -
  let ?s = "sample_factory (sample_bindings\<lparr>multiBindings := [9 \<mapsto> [plain_bind]]\<rparr>)"
  obtain d where "cb_interfaces plain_component (it_UUID IInjectable) = Some (d, \<lparr>any_type = it_type IInjectable, any_addr = 2\<rparr>)"
    using plain_component_fields(3) by blast
  then have rc: "factoryMethods (f_context s) 4 = Some (new_object plain_component) \<Longrightarrow>
      \<exists>h. Factory_resolveComponent sample_framework 1 plain_bind ctxs s = (Inr (ch_next (f_heap s)), s\<lparr>f_heap := h\<rparr>)" for ctxs and s :: FactoryState
    using resolveComponent_leaf [of plain_bind s plain_component d 2 sample_framework 0 ctxs]
    by (simp add: plain_component_fields del: Factory_resolveComponent.simps) blast
  obtain h where first: "Factory_resolveComponent sample_framework 1 plain_bind [(ContextComponent, plain_bind)] ?s = (Inr 1, ?s\<lparr>f_heap := h\<rparr>)"
    using rc [of ?s] by (auto simp: sample_bindings_fields simp del: Factory_resolveComponent.simps)
  let ?s1 = "?s\<lparr>f_heap := h, f_singletonInstances := [4 \<mapsto> 1]\<rparr>"
  obtain h' where "Factory_resolveComponent sample_framework 1 plain_bind [(ContextComponent, plain_bind)]
      ?s1 = (Inr (ch_next h), ?s1\<lparr>f_heap := h'\<rparr>)"
    using rc [of ?s1 "[(ContextComponent, plain_bind)]"]
    by (auto simp: sample_bindings_fields simp del: Factory_resolveComponent.simps)
  with first have "\<exists>xs t. Factory_resolveAll sample_framework 1 9 [] ?s = (Inr xs, t)"
    by (simp add: Factory_resolveAll_def Factory_resolveAll_with_def eff_simps Let_def del: Factory_resolveComponent.simps)
  then obtain xs t where r: "Factory_resolveAll sample_framework 1 9 [] ?s = (Inr xs, t)" by blast
  from resolveAll_count [OF r] have "length xs = 2" by simp
  with r show ?thesis by blast
qed

end
