(* ===== verification/Xpcf_FactoryConfig.thy ===== *)
theory Xpcf_FactoryConfig
  imports Xpcf_Factory
begin

text \<open>
  \<^verbatim>\<open>src/Factory.cpp\<close>, the readers: the \<open><factory>\<close> element of a configuration, and loading a configuration file, which fills the
  registry, the aliases, the bindings and the property manager.
\<close>

section \<open>Attributes of a binding\<close>

fun scopeConvertMap :: "string \<Rightarrow> BindingScope option" where
  "scopeConvertMap t = (if t = ''Transient'' then Some Transient else if t = ''Singleton'' then Some Singleton else None)"

fun bindingRangeConvertMap :: "string \<Rightarrow> range_mask option" where
  "bindingRangeConvertMap t =
     (if t = ''all'' then Some BindingRange_All
      else if t = ''default'' then Some BindingRange_Default
      else if t = ''explicit'' then Some BindingRange_Explicit
      else if t = ''named'' then Some BindingRange_Named
      else if t = ''withparents'' then Some BindingRange_WithParents
      else None)"

text \<open>\<open>boost::split\<close> at the bar: empty pieces are kept, and an empty text is one empty piece.\<close>

fun split_bars :: "string \<Rightarrow> string list" where
  "split_bars [] = [[]]"
| "split_bars (c # cs) = (if c = CHR ''|'' then [] # split_bars cs
     else case split_bars cs of [] \<Rightarrow> [[c]] | p # ps \<Rightarrow> (c # p) # ps)"

text \<open>\<open>at\<close> of a map throws \<open>std::out_of_range\<close> for a word that is not a key.\<close>

definition map_at :: "('k \<Rightarrow> 'v option) \<Rightarrow> 'k \<Rightarrow> exn + 'v" where
  "map_at m k = (case m k of None \<Rightarrow> Inl (Out_of_range ''map::at'') | Some v \<Rightarrow> Inr v)"

fun range_of :: "range_mask \<Rightarrow> string list \<Rightarrow> exn + range_mask" where
  "range_of rangeMask [] = Inr rangeMask"
| "range_of rangeMask (r # rs) =
     (case map_at bindingRangeConvertMap r of Inl e \<Rightarrow> Inl e | Inr m \<Rightarrow> range_of (rangeMask OR m) rs)"

definition Factory_getComponentBindingInfos ::
  "'p Platform_scheme \<Rightarrow> xml \<Rightarrow> ('a RegistryState_scheme, exn, FactoryBindInfos) eff" where
  "Factory_getComponentBindingInfos pf e =
     bind_eff (string_of_ptr (xml_Attribute ''to'' e)) (\<lambda>componentAttrValue.
     bind_eff (alias_or_uuid pf AliasComponent (''UUID format invalid in '' @ dquote @ ''to'' @ dquote @ '' attribute'')
                 componentAttrValue) (\<lambda>componentUUID.
     bind_eff (lift_eff (case xml_Attribute ''scope'' e of None \<Rightarrow> Inr Transient | Some scopeType \<Rightarrow> map_at scopeConvertMap scopeType)) (\<lambda>scope.
     bind_eff (lift_eff (case xml_Attribute ''range'' e of None \<Rightarrow> Inr 0 | Some r \<Rightarrow> range_of 0 (split_bars r))) (\<lambda>rangeMask.
       return_eff \<lparr>bi_componentUUID = componentUUID, bi_scope = scope, bi_bindingRangeMask = rangeMask,
         bi_properties = attr_or_empty ''properties'' e\<rparr>))))"

abbreviation with_range :: "range_mask \<Rightarrow> FactoryBindInfos \<Rightarrow> FactoryBindInfos" where
  "with_range m b \<equiv> b\<lparr>bi_bindingRangeMask := bi_bindingRangeMask b OR m\<rparr>"

section \<open>The elements\<close>

definition Factory_declareSingleBind :: "'p Platform_scheme \<Rightarrow> uuid \<Rightarrow> xml \<Rightarrow> ('a FactoryState_scheme, exn, unit) eff" where
  "Factory_declareSingleBind pf interfaceUUID e =
     bind_eff (Factory_getComponentBindingInfos pf e) (\<lambda>infos.
       case xml_Attribute ''name'' e of
         None \<Rightarrow> binds (Factory_bind_infos interfaceUUID (with_range BindingRange_Default infos))
       | Some nameAttrValue \<Rightarrow>
           binds (Factory_bind_named_infos nameAttrValue interfaceUUID (with_range BindingRange_Named infos)))"

text \<open>The list of the interface is made before the first component is read, and grows with each.\<close>

definition add_multi :: "uuid \<Rightarrow> FactoryBindInfos list \<Rightarrow> FactoryContext \<Rightarrow> FactoryContext" where
  "add_multi u bs c = c\<lparr>multiBindings := (multiBindings c)(u \<mapsto>
     (case multiBindings c u of None \<Rightarrow> [] | Some old \<Rightarrow> old) @ bs)\<rparr>"

definition Factory_declareMultiBind :: "'p Platform_scheme \<Rightarrow> uuid \<Rightarrow> xml \<Rightarrow> ('a FactoryState_scheme, exn, unit) eff" where
  "Factory_declareMultiBind pf interfaceUUID e =
     seq_eff (binds (add_multi interfaceUUID []))
       (processXmlNode e ''component'' (\<lambda>element.
          bind_eff (Factory_getComponentBindingInfos pf element) (\<lambda>infos.
            binds (add_multi interfaceUUID [with_range BindingRange_Default infos]))))"

definition bind_error :: "bool \<Rightarrow> xml \<Rightarrow> exn \<Rightarrow> ('s, exn, 'b) eff" where
  "bind_error sub e = rethrow_in ''bind'' sub (nonempty_attrs [(''interface'', attr_or_empty ''interface'' e)])"

definition Factory_declareBind :: "'p Platform_scheme \<Rightarrow> xml \<Rightarrow> ('a FactoryState_scheme, exn, unit) eff" where
  "Factory_declareBind pf e =
     bind_eff
       (catch_xpcf
         (case xml_Attribute ''interface'' e of
            None \<Rightarrow> throw_eff (exception_of_char_text Exception ''node incomplete : attribute 'interface' is mandatory.'')
          | Some interfaceAttrValue \<Rightarrow>
              alias_or_uuid pf AliasInterface (''UUID format invalid in '' @ dquote @ ''interface'' @ dquote @ '' :'') interfaceAttrValue)
         (bind_error False e)) (\<lambda>interfaceUUID.
     catch_xpcf
       (let xmlComponentNode = FirstChildElement ''component'' e; to = xml_Attribute ''to'' e in
        if to = None \<and> xmlComponentNode = None
        then throw_eff (exception_of_char_text Exception
          ''node incomplete : attributes 'to' or 'component' inner node are mandatory.'')
        else seq_eff (if to \<noteq> None then Factory_declareSingleBind pf interfaceUUID e else return_eff ())
               (if xmlComponentNode \<noteq> None then Factory_declareMultiBind pf interfaceUUID e else return_eff ()))
       (bind_error True e))"

definition Factory_declareSpecificBind ::
  "'p Platform_scheme \<Rightarrow> uuid \<Rightarrow> xml \<Rightarrow> ('a FactoryState_scheme, exn, unit) eff" where
  "Factory_declareSpecificBind pf targetComponentUUID e =
     (let known = xml_Attribute ''interface'' e \<noteq> None \<and> xml_Attribute ''to'' e \<noteq> None;
          interfaceAttrValue = (if known then attr_or_empty ''interface'' e else '''') in
      catch_xpcf
       (if \<not> known
        then throw_eff (exception_of_char_text Exception ''node incomplete : attributes 'interface' and 'to' are mandatory.'')
        else bind_eff (alias_or_uuid pf AliasInterface (''UUID format invalid in '' @ dquote @ ''interface'' @ dquote @ '': '')
                  interfaceAttrValue) (\<lambda>interfaceUUID.
             bind_eff (Factory_getComponentBindingInfos pf e) (\<lambda>infos.
               case xml_Attribute ''name'' e of
                 None \<Rightarrow> binds (Factory_bind_specific_infos targetComponentUUID interfaceUUID (with_range BindingRange_Explicit infos))
               | Some nameAttrValue \<Rightarrow> binds (Factory_bind_specific_named_infos targetComponentUUID nameAttrValue interfaceUUID
                   (with_range BindingRange_Explicit infos)))))
       (rethrow_in ''bind'' False (nonempty_attrs [(''interface'', interfaceAttrValue)])))"

definition Factory_declareBindings :: "'p Platform_scheme \<Rightarrow> xml \<Rightarrow> ('a FactoryState_scheme, exn, unit) eff" where
  "Factory_declareBindings pf e =
     catch_xpcf (processXmlNode e ''bind'' (Factory_declareBind pf)) (rethrow_in ''bindings'' True [])"

definition inject_error :: "bool \<Rightarrow> xml \<Rightarrow> exn \<Rightarrow> ('s, exn, 'b) eff" where
  "inject_error sub e = rethrow_in ''inject'' sub (nonempty_attrs [(''to'', attr_or_empty ''to'' e)])"

definition Factory_declareInject :: "'p Platform_scheme \<Rightarrow> xml \<Rightarrow> ('a FactoryState_scheme, exn, unit) eff" where
  "Factory_declareInject pf e =
     bind_eff
       (catch_xpcf
         (case xml_Attribute ''to'' e of
            None \<Rightarrow> throw_eff (exception_of_char_text Exception ''node incomplete : attribute 'to' is mandatory.'')
          | Some componentAttrValue \<Rightarrow>
              alias_or_uuid pf AliasComponent (''UUID format invalid in '' @ dquote @ ''to'' @ dquote @ '': '') componentAttrValue)
         (inject_error False e)) (\<lambda>componentUUID.
     catch_xpcf (processXmlNode e ''bind'' (Factory_declareSpecificBind pf componentUUID)) (inject_error True e))"

definition Factory_declareInjects :: "'p Platform_scheme \<Rightarrow> xml \<Rightarrow> ('a FactoryState_scheme, exn, unit) eff" where
  "Factory_declareInjects pf e =
     catch_xpcf (processXmlNode e ''inject'' (Factory_declareInject pf)) (rethrow_in ''injects'' True [])"

definition Factory_declareFactory :: "'p Platform_scheme \<Rightarrow> xml \<Rightarrow> ('a FactoryState_scheme, exn, unit) eff" where
  "Factory_declareFactory pf e =
     catch_xpcf
       (seq_eff (processXmlNode e ''bindings'' (Factory_declareBindings pf))
          (processXmlNode e ''injects'' (Factory_declareInjects pf)))
       (rethrow_in ''factory'' True [])"

section \<open>Loading\<close>

text \<open>The function the factory gives to the registry, and the alias manager as the part of the state it is.\<close>

definition Factory_bindFunc :: "uuid \<Rightarrow> uuid \<Rightarrow> ('a FactoryState_scheme, exn, unit) eff" where
  "Factory_bindFunc interfaceUUID componentUUID = binds (Factory_autobind interfaceUUID componentUUID)"

definition on_aliases :: "(AliasContext, exn, unit) eff \<Rightarrow> ('a RegistryState_scheme, exn, unit) eff" where
  "on_aliases = zoom_eff reg_aliases (\<lambda>c s. s\<lparr>reg_aliases := c\<rparr>)"

definition load_elements ::
  "'p Platform_scheme \<Rightarrow> string \<Rightarrow> xml \<Rightarrow> ('a FactoryState_scheme, exn, unit) eff" where
  "load_elements pf configurationFilePath rootElt =
     seq_eff (Registry_enableAutoAlias (xml_Attribute ''autoAlias'' rootElt = Some ''true''))
    (seq_eff (processXmlNode rootElt ''module'' (Registry_declareModule pf Factory_bindFunc))
    (seq_eff (processXmlNode rootElt ''aliases'' (\<lambda>e. on_aliases (AliasManager_declareAliases (pf_uuid_of_string pf) e)))
    (seq_eff (processXmlNode rootElt ''factory'' (Factory_declareFactory pf))
    (seq_eff (processXmlNode rootElt ''configuration'' (PropertyManager_declareConfiguration pf configurationFilePath))
       (processXmlNode rootElt ''properties'' (PropertyManager_declareProperties pf configurationFilePath))))))"

definition Factory_loadLibrary :: "'p Platform_scheme \<Rightarrow> string \<Rightarrow> ('a FactoryState_scheme, exn, XPCFErrorCode) eff" where
  "Factory_loadLibrary pf configurationFilePath =
     (if \<not> fs_exists pf configurationFilePath then return_eff FAIL
      else if fs_extension pf configurationFilePath \<noteq> ''.xml'' then return_eff FAIL
      else case pf_load_xml pf configurationFilePath of
          None \<Rightarrow> throw_eff (Xpcf ConfigurationException ''Configuration failed, missing end tag: '' FAIL)
        | Some rootElt \<Rightarrow>
            catch_runtime
              (catch_xpcf
                (let rootName = xml_Value rootElt in
                 if rootName \<noteq> ''xpcf-registry'' \<and> rootName \<noteq> ''xpcf-configuration''
                 then throw_eff (Xpcf ConfigurationException (''missing root element '' @ dquote @ ''xpcf-registry'' @ dquote @ '' or ''
                        @ dquote @ ''xpcf-configuration'' @ dquote) ERROR_RANGE)
                 else seq_eff (load_elements pf configurationFilePath rootElt) (return_eff SUCCESS))
                (\<lambda>e. throw_eff (ConfigurationException_text (''configuration loading failed: '' @ what e))))
              (\<lambda>e. if is_xpcf e then throw_eff e else return_eff FAIL))"

definition Factory_load_file :: "'p Platform_scheme \<Rightarrow> string option \<Rightarrow> ('a FactoryState_scheme, exn, XPCFErrorCode) eff" where
  "Factory_load_file pf libraryFilePath =
     (case libraryFilePath of
        None \<Rightarrow> return_eff ERROR_NULL_POINTER
      | Some p \<Rightarrow>
          let path = PathBuilder_replaceRootEnvVars pf p in
          if fs_is_relative pf path \<and> \<not> fs_exists pf path
          then (case PathBuilder_getXPCFHomePath pf of
                  None \<Rightarrow> throw_eff Undefined_behaviour
                | Some home \<Rightarrow> Factory_loadLibrary pf (fs_append pf home path))
          else Factory_loadLibrary pf path)"

text \<open>The results of the files of a folder are dropped; an exception ends the loop.\<close>

definition load_folder :: "'p Platform_scheme \<Rightarrow> string list \<Rightarrow> ('a FactoryState_scheme, exn, XPCFErrorCode) eff" where
  "load_folder pf entries =
     seq_eff (for_eff (\<lambda>x. if fs_is_regular_file pf x \<and> fs_extension pf x = ''.xml''
        then bind_eff (Factory_loadLibrary pf x) (\<lambda>_. return_eff ()) else return_eff ()) entries)
       (return_eff SUCCESS)"

definition Factory_load_folder ::
  "'p Platform_scheme \<Rightarrow> string option \<Rightarrow> bool \<Rightarrow> ('a FactoryState_scheme, exn, XPCFErrorCode) eff" where
  "Factory_load_folder pf folderPathStr bRecurse =
     (case folderPathStr of
        None \<Rightarrow> return_eff ERROR_NULL_POINTER
      | Some p \<Rightarrow>
          let folderPath = PathBuilder_replaceRootEnvVars pf p in
          if \<not> fs_exists pf folderPath then return_eff FAIL
          else seq_eff
            (bind_eff
              (if fs_is_directory pf folderPath
               then load_folder pf (if bRecurse then fs_recursive_directory pf folderPath else fs_directory pf folderPath)
               else Factory_loadLibrary pf folderPath)
              (\<lambda>_. return_eff ()))
            (return_eff SUCCESS))"

definition Factory_load :: "'p Platform_scheme \<Rightarrow> ('a FactoryState_scheme, exn, XPCFErrorCode) eff" where
  "Factory_load pf =
     seq_eff
       (case os_getenv pf ''XPCF_REGISTRY_PATH'' of
          None \<Rightarrow> return_eff ()
        | Some registryPath \<Rightarrow> bind_eff (Factory_load_file pf (Some registryPath)) (\<lambda>_. return_eff ()))
       (case PathBuilder_getXPCFHomePath pf of
          None \<Rightarrow> throw_eff Undefined_behaviour
        | Some home \<Rightarrow> load_folder pf (fs_recursive_directory pf home))"

section \<open>Loading keeps the factory consistent\<close>

definition factory_wf :: "'a FactoryState_scheme \<Rightarrow> bool" where
  "factory_wf s \<longleftrightarrow> registry_wf s \<and> bindings_wf (f_context s)"

text \<open>The binder of the factory only touches the bindings, as the registry requires of a binder.\<close>

lemma binds_run [eff_simps]: "binds f s = (Inr (), s\<lparr>f_context := f (f_context s)\<rparr>)"
  by (simp add: binds_def eff_simps)

lemma bindFunc_outside: "binds_outside (Factory_bindFunc :: uuid \<Rightarrow> uuid \<Rightarrow> ('a FactoryState_scheme, exn, unit) eff)"
  unfolding binds_outside_def
proof (intro allI)
  fix u v and s :: "'a FactoryState_scheme"
  show "\<exists>x. Factory_bindFunc u v s = (Inr (), s\<lparr>RegistryState.more := x\<rparr>)"
    by (intro exI [where x = "RegistryState.more (s\<lparr>f_context := Factory_autobind u v (f_context s)\<rparr>)"])
      (cases s, simp add: Factory_bindFunc_def eff_simps)
qed

lemma registry_wf_factory [simp]:
  "registry_wf (s\<lparr>f_context := c\<rparr>) = registry_wf s"
  by (simp add: registry_wf_def)

lemma registry_wf_props [simp]:
  "registry_wf (s\<lparr>pmgr_context := p\<rparr>) = registry_wf s"
  by (simp add: registry_wf_def)

lemma wf_binds [wf_steps]: "preserves registry_wf (binds f)"
  by (simp add: preserves_def eff_simps)

lemma wf_props [wf_steps]: "preserves registry_wf (props_modify f)"
  by (simp add: preserves_def eff_simps)

lemma wf_on_aliases [wf_steps]: "preserves registry_wf (on_aliases m)"
  by (auto simp: on_aliases_def preserves_def eff_simps split: prod.splits)

named_theorems bind_steps \<open>operations that keep automatic and default bindings apart\<close>

abbreviation (input) "apart \<equiv> (\<lambda>s. bindings_wf (f_context s))"

lemma apart_binds: "(\<And>c. bindings_wf c \<Longrightarrow> bindings_wf (f c)) \<Longrightarrow> preserves apart (binds f)"
  by (simp add: preserves_def eff_simps)

lemma apart_auto_alias [bind_steps]: "preserves apart (auto_alias t n u)"
  by (rule preserves_auto_alias) simp

lemma apart_primitives [bind_steps]:
  "preserves apart (context_modify g)" "preserves apart (map_component u v)" "preserves apart (new_component ci)"
  "preserves apart (new_module m)" "preserves apart (the_module a)" "preserves apart (the_component a)"
  "preserves apart (props_modify p)" "preserves apart (Registry_enableAutoAlias b)"
  by (simp_all add: preserves_def eff_simps Registry_enableAutoAlias_def split: option.splits)

lemma apart_heap [bind_steps]: "preserves apart (heap_addComponent a c)" "preserves apart (heap_addInterface c u)"
  by (auto simp: preserves_def heap_addComponent_def heap_addInterface_def eff_simps split: option.splits)

lemma apart_on_aliases [bind_steps]: "preserves apart (on_aliases m)"
  by (auto simp: on_aliases_def preserves_def eff_simps split: prod.splits)

lemma apart_metadata [bind_steps]:
  "preserves apart (Registry_addModuleMetadata x)" "preserves apart (Registry_addInterfaceMetadata i)"
  unfolding Registry_addModuleMetadata_def Registry_addInterfaceMetadata_def case_prod_beta
  by (intro preserves_intros bind_steps)+

lemma apart_bindFunc [bind_steps]: "preserves apart (Factory_bindFunc u v)"
  by (simp add: Factory_bindFunc_def apart_binds)

lemma apart_declareModule [bind_steps]: "preserves apart (Registry_declareModule pf Factory_bindFunc e)"
  unfolding Registry_declareModule_def Registry_declareComponent_def Registry_declareInterfaceNode_def
    interface_error_def component_error_def module_error_def
  by (intro preserves_intros bind_steps preserves_catch_if)

text \<open>What both invariants need of the readers of bindings and of the property manager.\<close>

lemma preserves_alias_or_uuid [preserves_intros]: "preserves P (alias_or_uuid pf t msg v)"
  unfolding alias_or_uuid_def by (intro preserves_intros)

lemma preserves_getComponentBindingInfos [preserves_intros]: "preserves P (Factory_getComponentBindingInfos pf e)"
  unfolding Factory_getComponentBindingInfos_def by (intro preserves_intros)

lemma preserves_declareFactory:
  assumes "\<And>f. (\<And>c. bindings_wf c \<Longrightarrow> bindings_wf (f c)) \<Longrightarrow> preserves P (binds f)"
  shows "preserves P (Factory_declareFactory pf e)"
proof -
  have multi: "bindings_wf c \<Longrightarrow> bindings_wf (add_multi u bs c)" for u bs c
    by (simp add: add_multi_def bindings_wf_def)
  show ?thesis
    unfolding Factory_declareFactory_def Factory_declareBindings_def Factory_declareInjects_def Factory_declareBind_def
      Factory_declareInject_def Factory_declareSpecificBind_def Factory_declareSingleBind_def Factory_declareMultiBind_def
      bind_error_def inject_error_def Let_def
    by (intro preserves_intros preserves_catch_if assms bindings_wf_steps multi)
qed

lemma preserves_record_configuration:
  assumes "\<And>f. preserves P (props_modify f)"
  shows "preserves P (record_configuration pf u path)"
  unfolding record_configuration_def by (intro preserves_intros preserves_catch_if assms)

lemma preserves_declareConfiguration:
  assumes "\<And>f. preserves P (props_modify f)"
  shows "preserves P (PropertyManager_declareConfiguration pf path e)"
    and "preserves P (PropertyManager_declareProperties pf path e)"
  unfolding PropertyManager_declareConfiguration_def PropertyManager_declareProperties_def
    PropertyManager_declareComponent_def PropertyManager_declareConfigure_def Let_def
  by (intro preserves_intros preserves_catch_if preserves_record_configuration assms)+

lemma wf_bindFunc: "preserves registry_wf (Factory_bindFunc u v)"
  by (simp add: Factory_bindFunc_def wf_binds)

lemma wf_load_elements: "preserves registry_wf (load_elements pf path e)"
  unfolding load_elements_def
  by (intro preserves_intros wf_steps wf_declareModule wf_bindFunc preserves_declareFactory preserves_declareConfiguration)

lemma apart_load_elements: "preserves apart (load_elements pf path e)"
  unfolding load_elements_def
  by (intro preserves_intros bind_steps preserves_declareFactory preserves_declareConfiguration apart_binds) assumption

lemma wf_loadLibrary: "preserves factory_wf (Factory_loadLibrary pf path)"
proof -
  have "preserves P (Factory_loadLibrary pf path)" if "\<And>e. preserves P (load_elements pf path e)" for P
    unfolding Factory_loadLibrary_def Let_def by (intro preserves_intros preserves_catch_if that)
  from this [OF wf_load_elements] this [OF apart_load_elements] show ?thesis
    unfolding preserves_def factory_wf_def by blast
qed

text \<open>
  Property C4. Loading a file, a folder or the default locations keeps the factory consistent, whether it succeeds,
  reports a failure or throws halfway: what the registry lists is what it finds, its pointers are to existing
  objects, and no interface has an automatic binding beside its default binding.
\<close>

theorem load_consistent:
  assumes "factory_wf s"
  shows "factory_wf (snd (Factory_loadLibrary pf path s)) \<and> factory_wf (snd (Factory_load_file pf p s)) \<and>
    factory_wf (snd (Factory_load_folder pf p recurse s)) \<and> factory_wf (snd (Factory_load pf s))"
proof -
  have one: "preserves factory_wf (Factory_load_file pf p)" for p
    unfolding Factory_load_file_def Let_def by (intro preserves_intros wf_loadLibrary)
  have folder: "preserves factory_wf (load_folder pf xs)" for xs
    unfolding load_folder_def by (intro preserves_intros wf_loadLibrary)
  have "preserves factory_wf (Factory_load_folder pf p recurse)"
    unfolding Factory_load_folder_def Let_def by (intro preserves_intros folder wf_loadLibrary)
  moreover have "preserves factory_wf (Factory_load pf)"
    unfolding Factory_load_def by (intro preserves_intros one folder)
  ultimately show ?thesis
    using assms one wf_loadLibrary by (blast dest: preservesD)
qed

lemma sample_factory_wf: "factory_wf (sample_factory FactoryContext_init)"
proof -
  have "registry_wf sample_props"
    using sample_registry_wf
    by (simp add: registry_wf_def sample_props_def RegistryState.extend_def PropertyManagerState.fields_def
        sample_registry_def ModuleManager.extend_def RegistryState.fields_def indexed_def)
  then show ?thesis
    by (simp add: factory_wf_def registry_wf_def sample_factory_def PropertyManagerState.extend_def FactoryState.fields_def)
qed

text \<open>A platform whose every file is a registry file with a module and a binding to it.\<close>

definition sample_document :: xml where
  "sample_document = Element ''xpcf-registry'' []
     [Element ''module'' [(''uuid'', ''u-m''), (''name'', ''mod'')] [],
      Element ''factory'' [] [Element ''bindings'' [] [Element ''bind'' [(''interface'', ''u-i''), (''to'', ''u-c''), (''scope'', ''Once'')] []]]]"

definition loading_platform :: Platform where
  "loading_platform = sample_platform\<lparr>pf_load_xml := (\<lambda>_. Some sample_document)\<rparr>"

theorem load_consistent_witness:
  "factory_wf (snd (Factory_loadLibrary loading_platform ''a.xml'' (sample_factory FactoryContext_init))) \<and>
   factory_wf (snd (Factory_load_folder loading_platform (Some ''d'') True (sample_factory FactoryContext_init)))"
  using load_consistent [OF sample_factory_wf, of loading_platform "''a.xml''" "Some ''d''" True] by blast

section \<open>What a binding element declares\<close>


text \<open>So does \<open>loadLibrary\<close>: it handles the exceptions of the library and the other runtime errors only.\<close>

lemma loadLibrary_out_of_range:
  assumes "fs_exists pf path" and "fs_extension pf path = ''.xml''" and "pf_load_xml pf path = Some root"
    and "xml_Value root = ''xpcf-registry''" and "load_elements pf path root s = (Inl (Out_of_range w), t)"
  shows "Factory_loadLibrary pf path s = (Inl (Out_of_range w), t)"
  using assms by (simp add: Factory_loadLibrary_def Let_def eff_simps)

definition sample_bind_element :: xml where
  "sample_bind_element = Element ''bind'' [(''interface'', ''u-i''), (''to'', ''u-c''), (''scope'', ''Singleton''), (''range'', ''all|named'')] []"


end
