(* ===== verification/Xpcf_GrpcHelper.thy ===== *)
theory Xpcf_GrpcHelper
  imports Xpcf_FactoryConfig Xpcf_GenDescriptors
begin

text \<open>
  \<^verbatim>\<open>interfaces/xpcf/remoting/GrpcHelper.h\<close>: what the generated proxies and servers call to choose a compression. The
  lines of their configuration become a choice for the service and choices for methods; a call of a proxy deduces from
  them what to use and what to ask the server for, and the server deduces from its own lines and from what it is asked
  what to answer with. The calls of gRPC, and what they return, are arguments.
\<close>

section \<open>Credentials\<close>

datatype grpcCredentials = InsecureChannelCredentials | SslCredentials | GoogleDefaultCredentials

text \<open>The three functions of gRPC that make credentials are \<open>google\<close>, \<open>ssl\<close> and \<open>insecure\<close>; \<open>None\<close> is the null pointer.\<close>

fun getCredentials :: "'c \<Rightarrow> 'c \<Rightarrow> 'c \<Rightarrow> grpcCredentials \<Rightarrow> 'c option" where
  "getCredentials google ssl insecure GoogleDefaultCredentials = Some google"
| "getCredentials google ssl insecure SslCredentials = Some ssl"
| "getCredentials google ssl insecure InsecureChannelCredentials = Some insecure"

fun getServerCredentials :: "'c \<Rightarrow> 'c \<Rightarrow> grpcCredentials \<Rightarrow> 'c option" where
  "getServerCredentials ssl insecure GoogleDefaultCredentials = None"
| "getServerCredentials ssl insecure SslCredentials = Some ssl"
| "getServerCredentials ssl insecure InsecureChannelCredentials = Some insecure"

section \<open>Compression types\<close>

datatype grpcCompressType = unspecified | none | deflate | gzip

fun compress_value :: "grpcCompressType \<Rightarrow> 64 word" where
  "compress_value unspecified = 0x00"
| "compress_value none = 0x10"
| "compress_value deflate = 0x20"
| "compress_value gzip = 0x40"

datatype grpc_compression_algorithm = GRPC_COMPRESS_NONE | GRPC_COMPRESS_DEFLATE | GRPC_COMPRESS_GZIP

definition getCompressionType :: "64 word \<Rightarrow> grpc_compression_algorithm" where
  "getCompressionType compressMask =
     (let v = and compressMask 0xF0 in
      if v = compress_value deflate then GRPC_COMPRESS_DEFLATE
      else if v = compress_value gzip then GRPC_COMPRESS_GZIP
      else GRPC_COMPRESS_NONE)"

definition translateCompressionConfigMap :: "string \<rightharpoonup> grpcCompressType" where
  "translateCompressionConfigMap =
     map_of [(''none'', none), (''unspecified'', unspecified), (''deflate'', deflate), (''gzip'', gzip)]"

definition translateCompression :: "string \<Rightarrow> grpcCompressType" where
  "translateCompression compressionStr =
     (case translateCompressionConfigMap compressionStr of None \<Rightarrow> unspecified | Some t \<Rightarrow> t)"

lemma getCompressionType_value:
  "getCompressionType (compress_value t) =
     (case t of deflate \<Rightarrow> GRPC_COMPRESS_DEFLATE | gzip \<Rightarrow> GRPC_COMPRESS_GZIP | _ \<Rightarrow> GRPC_COMPRESS_NONE)"
  by (cases t) (simp_all add: getCompressionType_def)

section \<open>The lines of the configuration\<close>

record grpcCompressionInfos =
  ci_request :: grpcCompressType
  ci_response :: grpcCompressType

record grpcServerCompressionInfos =
  si_force :: bool
  si_type :: grpcCompressType

definition newCompressionInfos :: grpcCompressionInfos where
  "newCompressionInfos = \<lparr>ci_request = unspecified, ci_response = unspecified\<rparr>"

definition newServerCompressionInfos :: grpcServerCompressionInfos where
  "newServerCompressionInfos = \<lparr>si_force = False, si_type = unspecified\<rparr>"

text \<open>\<open>std::map::insert\<close> keeps the value of a key that is there.\<close>

definition map_insert :: "'k \<Rightarrow> 'v \<Rightarrow> ('k \<rightharpoonup> 'v) \<Rightarrow> 'k \<rightharpoonup> 'v" where
  "map_insert k v m = (case m k of None \<Rightarrow> m(k \<mapsto> v) | Some _ \<Rightarrow> m)"

definition compression_details :: "string \<Rightarrow> string list" where
  "compression_details line = split_bars (erase_all (CHR 0x0D) line)"

definition translateServerConfiguration ::
  "string \<Rightarrow> grpcServerCompressionInfos \<times> (string \<rightharpoonup> grpcServerCompressionInfos) \<Rightarrow>
     grpcServerCompressionInfos \<times> (string \<rightharpoonup> grpcServerCompressionInfos)" where
  "translateServerConfiguration line st =
     (let details = compression_details line; (service, methods) = st in
      if length details > 1 then
        (let service1 = (if details ! 0 = ''service'' then
               (let s = service\<lparr>si_type := translateCompression (details ! 1)\<rparr> in
                if length details = 3 then s\<lparr>si_force := (atol (details ! 2) \<noteq> 0)\<rparr> else s)
             else service);
             methods1 = (if details ! 0 = ''method'' \<and> length details > 2 then
               (let i = newServerCompressionInfos\<lparr>si_type := translateCompression (details ! 2)\<rparr>;
                    i' = (if length details = 4 then i\<lparr>si_force := (atol (details ! 3) \<noteq> 0)\<rparr> else i)
                in map_insert (details ! 1) i' methods)
             else methods)
         in (service1, methods1))
      else st)"

definition translateClientConfiguration ::
  "string \<Rightarrow> grpcCompressionInfos \<times> (string \<rightharpoonup> grpcCompressionInfos) \<Rightarrow>
     grpcCompressionInfos \<times> (string \<rightharpoonup> grpcCompressionInfos)" where
  "translateClientConfiguration line st =
     (let details = compression_details line; (service, methods) = st in
      if length details > 1 then
        (let service1 = (if details ! 0 = ''service'' then
               (let s = service\<lparr>ci_request := translateCompression (details ! 1)\<rparr> in
                if length details = 3 then s\<lparr>ci_response := translateCompression (details ! 2)\<rparr> else s)
             else service);
             methods1 = (if details ! 0 = ''method'' \<and> length details > 2 then
               (let i = newCompressionInfos\<lparr>ci_request := translateCompression (details ! 2)\<rparr>;
                    i' = (if length details = 4 then i\<lparr>ci_response := translateCompression (details ! 3)\<rparr> else i)
                in map_insert (details ! 1) i' methods)
             else methods)
         in (service1, methods1))
      else st)"

section \<open>The choice for a call\<close>

definition deduceClientCompressionInfo ::
  "grpcCompressionInfos \<Rightarrow> string \<Rightarrow> (string \<rightharpoonup> grpcCompressionInfos) \<Rightarrow> grpcCompressionInfos" where
  "deduceClientCompressionInfo service name methods =
     (case methods name of
        Some i \<Rightarrow>
          \<lparr>ci_request = (if ci_request i \<noteq> unspecified then ci_request i else ci_request service),
           ci_response = (if ci_response i \<noteq> unspecified then ci_response i else ci_response service)\<rparr>
      | None \<Rightarrow> \<lparr>ci_request = ci_request service, ci_response = ci_response service\<rparr>)"

definition deduceServerCompressionType ::
  "grpcCompressType \<Rightarrow> grpcServerCompressionInfos \<Rightarrow> string \<Rightarrow> (string \<rightharpoonup> grpcServerCompressionInfos) \<Rightarrow>
     grpcServerCompressionInfos" where
  "deduceServerCompressionType asked service name methods =
     (let infos = (if asked \<noteq> unspecified then newServerCompressionInfos\<lparr>si_type := asked\<rparr> else newServerCompressionInfos);
          infos1 = (if si_type service \<noteq> unspecified \<and> (si_force service \<or> asked = unspecified) then service else infos)
      in case methods name of
           None \<Rightarrow> infos1
         | Some i \<Rightarrow> if si_type i \<noteq> unspecified \<and> (si_force i \<or> asked = unspecified) then i else infos1)"

text \<open>
  The algorithm of the context of a call is part of the state: \<open>None\<close> until one is set, which leaves gRPC to use its own
  choice. The client's function also returns what to ask the server for.
\<close>

definition prepareClientCompressionContext ::
  "grpcCompressionInfos \<Rightarrow> grpc_compression_algorithm option \<Rightarrow> grpcCompressType \<times> grpc_compression_algorithm option" where
  "prepareClientCompressionContext infos context =
     (let context1 = (if ci_request infos \<noteq> unspecified
                      then Some (getCompressionType (compress_value (ci_request infos))) else context)
      in if ci_response infos \<noteq> unspecified then (ci_response infos, context1) else (unspecified, context1))"

definition prepareServerCompressionContext ::
  "grpcServerCompressionInfos \<Rightarrow> grpc_compression_algorithm option \<Rightarrow> grpc_compression_algorithm option" where
  "prepareServerCompressionContext infos context =
     (if si_type infos \<noteq> unspecified then Some (getCompressionType (compress_value (si_type infos))) else context)"

section \<open>Lines of the documented form\<close>

text \<open>A word that \<open>boost::split\<close> does not cut and from which nothing is erased.\<close>

definition plain_name :: "string \<Rightarrow> bool" where
  "plain_name t \<longleftrightarrow> CHR ''|'' \<notin> set t \<and> CHR 0x0D \<notin> set t"

fun with_bars :: "string list \<Rightarrow> string" where
  "with_bars [] = ''''"
| "with_bars [t] = t"
| "with_bars (t # ts) = t @ CHR ''|'' # with_bars ts"

lemma split_bars_bar: "CHR ''|'' \<notin> set t \<Longrightarrow> split_bars (t @ CHR ''|'' # u) = t # split_bars u"
  by (induction t) auto

lemma split_bars_last: "CHR ''|'' \<notin> set t \<Longrightarrow> split_bars t = [t]"
  by (induction t) auto

lemma split_with_bars: "ts \<noteq> [] \<Longrightarrow> list_all plain_name ts \<Longrightarrow> split_bars (with_bars ts) = ts"
  by (induction ts rule: with_bars.induct) (auto simp: plain_name_def split_bars_bar split_bars_last)

lemma erase_with_bars: "list_all plain_name ts \<Longrightarrow> erase_all (CHR 0x0D) (with_bars ts) = with_bars ts"
  by (induction ts rule: with_bars.induct) (auto simp: plain_name_def erase_all_def intro!: filter_True)

lemma compression_details_with_bars: "ts \<noteq> [] \<Longrightarrow> list_all plain_name ts \<Longrightarrow> compression_details (with_bars ts) = ts"
  by (simp add: compression_details_def erase_with_bars split_with_bars)

lemma plain_words [simp]:
  "plain_name ''service''" "plain_name ''method''" "plain_name ''none''" "plain_name ''0''"
  by (simp_all add: plain_name_def)

lemma client_service_line:
  assumes "plain_name a" and "plain_name b"
  shows "translateClientConfiguration (with_bars [''service'', a, b]) (s, m) =
    (\<lparr>ci_request = translateCompression a, ci_response = translateCompression b\<rparr>, m)"
  using assms compression_details_with_bars [of "[''service'', a, b]"]
  by (simp add: translateClientConfiguration_def Let_def del: with_bars.simps)

lemma client_method_line:
  assumes "plain_name n" and "plain_name a" and "plain_name b"
  shows "translateClientConfiguration (with_bars [''method'', n, a, b]) (s, m) =
    (s, map_insert n \<lparr>ci_request = translateCompression a, ci_response = translateCompression b\<rparr> m)"
  using assms compression_details_with_bars [of "[''method'', n, a, b]"]
  by (simp add: translateClientConfiguration_def newCompressionInfos_def Let_def del: with_bars.simps)

lemma server_service_line:
  assumes "plain_name a" and "plain_name b"
  shows "translateServerConfiguration (with_bars [''service'', a, b]) (s, m) =
    (\<lparr>si_force = (atol b \<noteq> 0), si_type = translateCompression a\<rparr>, m)"
  using assms compression_details_with_bars [of "[''service'', a, b]"]
  by (simp add: translateServerConfiguration_def Let_def del: with_bars.simps)

lemma server_method_line:
  assumes "plain_name n" and "plain_name a" and "plain_name b"
  shows "translateServerConfiguration (with_bars [''method'', n, a, b]) (s, m) =
    (s, map_insert n \<lparr>si_force = (atol b \<noteq> 0), si_type = translateCompression a\<rparr> m)"
  using assms compression_details_with_bars [of "[''method'', n, a, b]"]
  by (simp add: translateServerConfiguration_def newServerCompressionInfos_def Let_def del: with_bars.simps)

text \<open>The first line of a method is the one that counts.\<close>

lemma fold_map_insert:
  "fold (\<lambda>n. map_insert n v) ns m = (\<lambda>k. case m k of Some w \<Rightarrow> Some w | None \<Rightarrow> if k \<in> set ns then Some v else None)"
  by (induction ns arbitrary: m) (auto simp: map_insert_def fun_eq_iff split: option.splits)

section \<open>What a call is compressed with\<close>

text \<open>The first of the choices that is one.\<close>

fun first_specified :: "grpcCompressType list \<Rightarrow> grpcCompressType" where
  "first_specified [] = unspecified"
| "first_specified (t # ts) = (if t \<noteq> unspecified then t else first_specified ts)"

definition server_choice :: "(grpcServerCompressionInfos \<Rightarrow> bool) \<Rightarrow> grpcServerCompressionInfos option \<Rightarrow> grpcCompressType list" where
  "server_choice P i = (case i of Some s \<Rightarrow> if P s then [si_type s] else [] | None \<Rightarrow> [])"

definition client_choice :: "grpcCompressionInfos option \<Rightarrow> grpcCompressType list" where
  "client_choice i = (case i of Some s \<Rightarrow> [ci_response s] | None \<Rightarrow> [])"

lemma compress_asked:
  "fst (prepareClientCompressionContext (deduceClientCompressionInfo sc n mc) ctx) =
     first_specified (client_choice (mc n) @ client_choice (Some sc))"
  by (auto simp: prepareClientCompressionContext_def deduceClientCompressionInfo_def client_choice_def Let_def split: option.splits)

lemma compress_answer:
  "si_type (deduceServerCompressionType asked ss n ms) =
     first_specified (if asked \<noteq> unspecified then server_choice si_force (ms n) @ server_choice si_force (Some ss) @ [asked]
       else server_choice (\<lambda>_. True) (ms n) @ server_choice (\<lambda>_. True) (Some ss))"
  by (cases "ms n") (auto simp: deduceServerCompressionType_def server_choice_def newServerCompressionInfos_def Let_def)

text \<open>
  Property C36. What the answer to a call is compressed with: when the client asks for something, for the method or else for
  the service, the server answers with what it forces for the method, else with what it forces for the service, else with
  what it is asked; when the client asks for nothing, with what it proposes for the method, else for the service,
  forced or not. A choice that is left unspecified is passed over, and gRPC is told nothing when all are. The client's
  side, the type the request carries and the server's side together compute it.
\<close>

theorem compression_negotiated:
  "prepareServerCompressionContext
     (deduceServerCompressionType (fst (prepareClientCompressionContext (deduceClientCompressionInfo sc n mc) cctx)) ss n ms) None =
   (let asked = first_specified (client_choice (mc n) @ client_choice (Some sc));
        answer = first_specified
          (if asked \<noteq> unspecified then server_choice si_force (ms n) @ server_choice si_force (Some ss) @ [asked]
           else server_choice (\<lambda>_. True) (ms n) @ server_choice (\<lambda>_. True) (Some ss))
    in if answer = unspecified then None else Some (getCompressionType (compress_value answer)))"
  by (simp only: prepareServerCompressionContext_def compress_answer compress_asked Let_def if_not_P not_not) (simp split: if_splits)

end
