(* ===== verification/Xpcf_Property.thy ===== *)
theory Xpcf_Property
  imports Xpcf_Collections
begin

text \<open>
  Properties: \<^verbatim>\<open>properties/IProperty.h\<close>, the class that stores its values (\<^verbatim>\<open>src/Property.cpp\<close>), the two that wrap
  variables of a component (\<^verbatim>\<open>PropertyWrapper.h\<close>, \<^verbatim>\<open>PropertySequenceWrapper.h\<close>) and the map of the properties of a
  component (\<^verbatim>\<open>src/PropertyMap.cpp\<close>). Properties, maps and wrapped variables live in a memory, because they are
  shared by pointer and a wrapper writes the variable of the component.
\<close>

section \<open>Values\<close>

text \<open>Floating-point values are their bit patterns: nothing is computed with them. A wide character is 32 bits.\<close>

type_synonym wstring = "32 word list"

datatype PropertyType =
    IProperty_NONE | IProperty_INTEGER | IProperty_UINTEGER | IProperty_LONG | IProperty_ULONG
  | IProperty_CHARSTR | IProperty_UNICODESTR | IProperty_FLOAT | IProperty_DOUBLE | IProperty_STRUCTURE

datatype AccessSpecifier = IProperty_IN | IProperty_OUT | IProperty_INOUT

text \<open>A structure is a pointer to a property map, possibly null.\<close>

datatype property_value =
    V_int "32 word" | V_uint "32 word" | V_long "64 word" | V_ulong "64 word"
  | V_string string | V_wstring wstring | V_float "32 word" | V_double "64 word" | V_struct "nat option"

fun value_kind :: "property_value \<Rightarrow> PropertyType" where
  "value_kind (V_int _) = IProperty_INTEGER"
| "value_kind (V_uint _) = IProperty_UINTEGER"
| "value_kind (V_long _) = IProperty_LONG"
| "value_kind (V_ulong _) = IProperty_ULONG"
| "value_kind (V_string _) = IProperty_CHARSTR"
| "value_kind (V_wstring _) = IProperty_UNICODESTR"
| "value_kind (V_float _) = IProperty_FLOAT"
| "value_kind (V_double _) = IProperty_DOUBLE"
| "value_kind (V_struct _) = IProperty_STRUCTURE"

text \<open>The value a default-constructed variable of the type has.\<close>

fun default_value :: "PropertyType \<Rightarrow> property_value" where
  "default_value IProperty_UINTEGER = V_uint 0"
| "default_value IProperty_LONG = V_long 0"
| "default_value IProperty_ULONG = V_ulong 0"
| "default_value IProperty_CHARSTR = V_string ''''"
| "default_value IProperty_UNICODESTR = V_wstring []"
| "default_value IProperty_FLOAT = V_float 0"
| "default_value IProperty_DOUBLE = V_double 0"
| "default_value IProperty_STRUCTURE = V_struct None"
| "default_value _ = V_int 0"

text \<open>
  What a getter of the kind returns when the property has another type: zero, a null structure, or for the two
  string kinds a null pointer, which is \<open>None\<close>.
\<close>

fun no_value :: "PropertyType \<Rightarrow> property_value option" where
  "no_value IProperty_CHARSTR = None"
| "no_value IProperty_UNICODESTR = None"
| "no_value k = Some (default_value k)"

definition is_string_kind :: "PropertyType \<Rightarrow> bool" where
  "is_string_kind k \<longleftrightarrow> k = IProperty_CHARSTR \<or> k = IProperty_UNICODESTR"

lemma value_kind_default [simp]: "k \<noteq> IProperty_NONE \<Longrightarrow> value_kind (default_value k) = k"
  by (cases k) auto

text \<open>\<open>resize\<close> of a sequence: cut, or filled up with default values.\<close>

definition resize :: "nat \<Rightarrow> 'a \<Rightarrow> 'a list \<Rightarrow> 'a list" where
  "resize n d xs = take n xs @ replicate (n - length xs) d"

lemma length_resize [simp]: "length (resize n d xs) = n"
  by (auto simp: resize_def)

section \<open>Memory\<close>

text \<open>
  \<open>pd_queue\<close> is a deque of \<open>utils::any\<close>, empty until set. The wrappers refer to a variable (a cell) or a sequence of
  the component; their type is fixed by the template argument.
\<close>

record PropertyData =
  pd_name :: string
  pd_type :: PropertyType
  pd_queue :: "property_value option list"
  pd_attribute :: AccessSpecifier

record WrapperData =
  pw_name :: string
  pw_type :: PropertyType
  pw_variable :: nat
  pw_accessSpecifier :: AccessSpecifier

datatype IProperty =
    Property PropertyData
  | PropertyWrapper WrapperData
  | PropertySequenceWrapper WrapperData

record PropertyMapData =
  m_propertyMap :: "string \<rightharpoonup> nat"
  m_collectionPropertyMap :: "nat list"

record PropertyMemory =
  pm_properties :: "nat \<rightharpoonup> IProperty"
  pm_maps :: "nat \<rightharpoonup> PropertyMapData"
  pm_variables :: "nat \<Rightarrow> property_value"
  pm_sequences :: "nat \<Rightarrow> property_value list"
  pm_next :: nat

definition the_property :: "nat \<Rightarrow> ('a PropertyMemory_scheme, exn, IProperty) eff" where
  "the_property a = bind_eff (gets_eff (\<lambda>s. pm_properties s a))
     (\<lambda>x. case x of None \<Rightarrow> throw_eff Undefined_behaviour | Some p \<Rightarrow> return_eff p)"

definition put_property :: "nat \<Rightarrow> IProperty \<Rightarrow> ('a PropertyMemory_scheme, exn, unit) eff" where
  "put_property a p = modify_eff (\<lambda>s. s\<lparr>pm_properties := (pm_properties s)(a \<mapsto> p)\<rparr>)"

definition new_property :: "IProperty \<Rightarrow> ('a PropertyMemory_scheme, exn, nat) eff" where
  "new_property p = (\<lambda>s. (Inr (pm_next s),
     s\<lparr>pm_properties := (pm_properties s)(pm_next s \<mapsto> p), pm_next := Suc (pm_next s)\<rparr>))"

section \<open>Property\<close>

definition Property_init :: PropertyData where
  "Property_init = \<lparr>pd_name = ''none'', pd_type = IProperty_NONE, pd_queue = [], pd_attribute = IProperty_INOUT\<rparr>"

text \<open>\<open>clear\<close> leaves the queue alone as long as the property has no type.\<close>

definition Property_clear :: "PropertyData \<Rightarrow> PropertyData" where
  "Property_clear p =
     (if pd_type p = IProperty_NONE then p else p\<lparr>pd_queue := [], pd_type := IProperty_NONE\<rparr>)"

definition Property_checkType :: "PropertyType \<Rightarrow> PropertyData \<Rightarrow> PropertyData" where
  "Property_checkType newtype p =
     (if pd_type p \<noteq> newtype then (Property_clear p)\<lparr>pd_type := newtype\<rparr> else p)"

definition queue_put :: "nat \<Rightarrow> property_value \<Rightarrow> PropertyData \<Rightarrow> (exn + unit) \<times> PropertyData" where
  "queue_put i v p =
     (if i < length (pd_queue p) then (Inr (), p\<lparr>pd_queue := (pd_queue p)[i := Some v]\<rparr>)
      else (Inl (Out_of_range ''at''), p))"

text \<open>
  The setter template for numbers and structures does not touch the type of the property; the one for
  strings does. A null structure or string is refused first.
\<close>

definition Property_setValue :: "property_value \<Rightarrow> nat \<Rightarrow> PropertyData \<Rightarrow> (exn + unit) \<times> PropertyData" where
  "Property_setValue v i p =
     (if v = V_struct None then (Inl (Invalid_argument ''Argument 'val' is null''), p)
      else if pd_attribute p = IProperty_OUT then (Inl AccessDeniedException_default, p)
      else queue_put i v p)"

definition Property_setStringValue ::
  "PropertyType \<Rightarrow> property_value option \<Rightarrow> nat \<Rightarrow> PropertyData \<Rightarrow> (exn + unit) \<times> PropertyData" where
  "Property_setStringValue k val i p =
     (case val of
        None \<Rightarrow> (Inl (Invalid_argument ''Argument 'value' is null''), p)
      | Some v \<Rightarrow>
          if pd_attribute p = IProperty_OUT then (Inl AccessDeniedException_default, p)
          else queue_put i v (Property_checkType k p))"

text \<open>
  The types the getters ask for: the 64-bit getters ask for the 32-bit types, and the one for \<open>double\<close> for \<open>float\<close>. A
  cast of the stored value to another C++ type throws, and so does the cast of a value never set.
\<close>

fun asked_type :: "PropertyType \<Rightarrow> PropertyType" where
  "asked_type IProperty_LONG = IProperty_INTEGER"
| "asked_type IProperty_ULONG = IProperty_UINTEGER"
| "asked_type IProperty_DOUBLE = IProperty_FLOAT"
| "asked_type k = k"

definition any_cast :: "PropertyType \<Rightarrow> property_value option \<Rightarrow> exn + property_value" where
  "any_cast k a = (case a of None \<Rightarrow> Inl Bad_any_cast | Some v \<Rightarrow> if value_kind v = k then Inr v else Inl Bad_any_cast)"

definition queue_get :: "PropertyType \<Rightarrow> nat \<Rightarrow> PropertyData \<Rightarrow> exn + property_value option" where
  "queue_get k i p =
     (if i < length (pd_queue p) then map_sum id Some (any_cast k (pd_queue p ! i)) else Inl (Out_of_range ''at''))"

definition Property_getValue :: "PropertyType \<Rightarrow> nat \<Rightarrow> PropertyData \<Rightarrow> exn + property_value option" where
  "Property_getValue k i p =
     (if k = IProperty_STRUCTURE
      then (if pd_type p \<noteq> IProperty_STRUCTURE then Inr (no_value k) else queue_get k i p)
      else if is_string_kind k
      then (if pd_type p \<noteq> k \<or> pd_attribute p = IProperty_IN then Inr (no_value k) else queue_get k i p)
      else if pd_type p \<noteq> asked_type k \<or> length (pd_queue p) < i \<or> pd_attribute p = IProperty_IN
      then Inr (no_value k) else queue_get k i p)"

definition Property_setProperties ::
  "string option \<Rightarrow> nat \<Rightarrow> AccessSpecifier \<Rightarrow> PropertyData \<Rightarrow> XPCFErrorCode \<times> PropertyData" where
  "Property_setProperties name numberOfValues iotype p =
     (case name of
        None \<Rightarrow> (FAIL, p)
      | Some n \<Rightarrow>
          if n = '''' then (FAIL, p)
          else (SUCCESS, (Property_clear p)\<lparr>pd_name := n, pd_queue := resize numberOfValues None (pd_queue (Property_clear p)),
                 pd_attribute := iotype\<rparr>))"

section \<open>Wrappers\<close>

text \<open>
  A wrapper has an empty setter for every kind but its own, and getters that return nothing useful. The string
  setter of a single wrapped value ignores the index.
\<close>

definition set_variable :: "nat \<Rightarrow> property_value \<Rightarrow> ('a PropertyMemory_scheme, exn, unit) eff" where
  "set_variable c v = modify_eff (\<lambda>s. s\<lparr>pm_variables := (pm_variables s)(c := v)\<rparr>)"

definition PropertyWrapper_set ::
  "PropertyType \<Rightarrow> property_value option \<Rightarrow> nat \<Rightarrow> WrapperData \<Rightarrow> ('a PropertyMemory_scheme, exn, unit) eff" where
  "PropertyWrapper_set k val i w =
     (if pw_type w \<noteq> k then return_eff ()
      else if is_string_kind k
      then (case val of None \<Rightarrow> throw_eff Undefined_behaviour | Some v \<Rightarrow> set_variable (pw_variable w) v)
      else if i \<ge> 1 then throw_eff (Out_of_range ''itemIndex is greater than container size'')
      else (case val of None \<Rightarrow> throw_eff Undefined_behaviour | Some v \<Rightarrow> set_variable (pw_variable w) v))"

definition PropertyWrapper_get ::
  "PropertyType \<Rightarrow> nat \<Rightarrow> WrapperData \<Rightarrow> ('a PropertyMemory_scheme, exn, property_value option) eff" where
  "PropertyWrapper_get k i w =
     (if pw_type w \<noteq> k then return_eff (no_value k)
      else if k \<noteq> IProperty_STRUCTURE \<and> i \<ge> 1
      then throw_eff (Out_of_range ''itemIndex is greater than container size'')
      else gets_eff (\<lambda>s. Some (pm_variables s (pw_variable w))))"

definition PropertyWrapper_setProperties ::
  "string option \<Rightarrow> nat \<Rightarrow> AccessSpecifier \<Rightarrow> WrapperData \<Rightarrow> XPCFErrorCode \<times> WrapperData" where
  "PropertyWrapper_setProperties name numberOfValues iotype w =
     (case name of
        None \<Rightarrow> (FAIL, w)
      | Some n \<Rightarrow>
          if n = '''' then (FAIL, w) else if numberOfValues > 1 then (FAIL, w)
          else (SUCCESS, w\<lparr>pw_name := n, pw_accessSpecifier := iotype\<rparr>))"

definition PropertySequenceWrapper_set ::
  "PropertyType \<Rightarrow> property_value option \<Rightarrow> nat \<Rightarrow> WrapperData \<Rightarrow> ('a PropertyMemory_scheme, exn, unit) eff" where
  "PropertySequenceWrapper_set k val i w =
     (if pw_type w \<noteq> k then return_eff ()
      else bind_eff (gets_eff (\<lambda>s. pm_sequences s (pw_variable w))) (\<lambda>xs.
        if i \<ge> length xs then throw_eff (Out_of_range ''at'')
        else case val of
            None \<Rightarrow> throw_eff Undefined_behaviour
          | Some v \<Rightarrow> modify_eff (\<lambda>s. s\<lparr>pm_sequences := (pm_sequences s)(pw_variable w := xs[i := v])\<rparr>)))"

definition PropertySequenceWrapper_get ::
  "PropertyType \<Rightarrow> nat \<Rightarrow> WrapperData \<Rightarrow> ('a PropertyMemory_scheme, exn, property_value option) eff" where
  "PropertySequenceWrapper_get k i w =
     (if pw_type w \<noteq> k then return_eff (no_value k)
      else bind_eff (gets_eff (\<lambda>s. pm_sequences s (pw_variable w))) (\<lambda>xs.
        if i \<ge> length xs then throw_eff (Out_of_range ''at'') else return_eff (Some (xs ! i))))"

definition PropertySequenceWrapper_setProperties ::
  "string option \<Rightarrow> nat \<Rightarrow> AccessSpecifier \<Rightarrow> WrapperData \<Rightarrow> ('a PropertyMemory_scheme, exn, XPCFErrorCode \<times> WrapperData) eff" where
  "PropertySequenceWrapper_setProperties name numberOfValues iotype w =
     (case name of
        None \<Rightarrow> return_eff (FAIL, w)
      | Some n \<Rightarrow>
          if n = '''' then return_eff (FAIL, w)
          else seq_eff (modify_eff (\<lambda>s. s\<lparr>pm_sequences := (pm_sequences s)(pw_variable w :=
                  resize numberOfValues (default_value (pw_type w)) (pm_sequences s (pw_variable w)))\<rparr>))
                (return_eff (SUCCESS, w\<lparr>pw_name := n, pw_accessSpecifier := iotype\<rparr>)))"

section \<open>The interface\<close>

text \<open>A call through \<open>IProperty\<close> is dispatched on the class of the object. \<open>on_data\<close> runs an operation of a \<open>Property\<close>.\<close>

definition on_data ::
  "nat \<Rightarrow> (PropertyData \<Rightarrow> (exn + 'b) \<times> PropertyData) \<Rightarrow> PropertyData \<Rightarrow> ('a PropertyMemory_scheme, exn, 'b) eff" where
  "on_data a f d = (case f d of (r, d') \<Rightarrow> seq_eff (put_property a (Property d')) (lift_eff r))"

definition IProperty_set ::
  "PropertyType \<Rightarrow> property_value option \<Rightarrow> nat \<Rightarrow> nat \<Rightarrow> ('a PropertyMemory_scheme, exn, unit) eff" where
  "IProperty_set k val i a =
     bind_eff (the_property a) (\<lambda>p. case p of
        Property d \<Rightarrow>
          if is_string_kind k then on_data a (Property_setStringValue k val i) d
          else (case val of None \<Rightarrow> throw_eff Undefined_behaviour | Some v \<Rightarrow> on_data a (Property_setValue v i) d)
      | PropertyWrapper w \<Rightarrow> PropertyWrapper_set k val i w
      | PropertySequenceWrapper w \<Rightarrow> PropertySequenceWrapper_set k val i w)"

text \<open>The nine setters of the interface are \<open>IProperty_set\<close> at a kind and a value of it.\<close>

abbreviation setIntegerValue where "setIntegerValue v \<equiv> IProperty_set IProperty_INTEGER (Some (V_int v))"
abbreviation setUnsignedIntegerValue where "setUnsignedIntegerValue v \<equiv> IProperty_set IProperty_UINTEGER (Some (V_uint v))"
abbreviation setLongValue where "setLongValue v \<equiv> IProperty_set IProperty_LONG (Some (V_long v))"
abbreviation setUnsignedLongValue where "setUnsignedLongValue v \<equiv> IProperty_set IProperty_ULONG (Some (V_ulong v))"
abbreviation setFloatingValue where "setFloatingValue v \<equiv> IProperty_set IProperty_FLOAT (Some (V_float v))"
abbreviation setDoubleValue where "setDoubleValue v \<equiv> IProperty_set IProperty_DOUBLE (Some (V_double v))"
abbreviation setStringValue where "setStringValue v \<equiv> IProperty_set IProperty_CHARSTR (map_option V_string v)"
abbreviation setUnicodeStringValue where "setUnicodeStringValue v \<equiv> IProperty_set IProperty_UNICODESTR (map_option V_wstring v)"
abbreviation setStructureValue where "setStructureValue v \<equiv> IProperty_set IProperty_STRUCTURE (Some (V_struct v))"

definition IProperty_get ::
  "PropertyType \<Rightarrow> nat \<Rightarrow> nat \<Rightarrow> ('a PropertyMemory_scheme, exn, property_value option) eff" where
  "IProperty_get k i a =
     bind_eff (the_property a) (\<lambda>p. case p of
        Property d \<Rightarrow> lift_eff (Property_getValue k i d)
      | PropertyWrapper w \<Rightarrow> PropertyWrapper_get k i w
      | PropertySequenceWrapper w \<Rightarrow> PropertySequenceWrapper_get k i w)"

definition IProperty_setProperties ::
  "string option \<Rightarrow> nat \<Rightarrow> AccessSpecifier \<Rightarrow> nat \<Rightarrow> ('a PropertyMemory_scheme, exn, XPCFErrorCode) eff" where
  "IProperty_setProperties name n iotype a =
     bind_eff (the_property a) (\<lambda>p. case p of
        Property d \<Rightarrow> on_data a (map_prod Inr id \<circ> Property_setProperties name n iotype) d
      | PropertyWrapper w \<Rightarrow>
          (case PropertyWrapper_setProperties name n iotype w of (r, w') \<Rightarrow>
             seq_eff (put_property a (PropertyWrapper w')) (return_eff r))
      | PropertySequenceWrapper w \<Rightarrow>
          bind_eff (PropertySequenceWrapper_setProperties name n iotype w) (\<lambda>(r, w').
             seq_eff (put_property a (PropertySequenceWrapper w')) (return_eff r)))"

fun property_name :: "IProperty \<Rightarrow> string" where
  "property_name (Property d) = pd_name d"
| "property_name (PropertyWrapper w) = pw_name w"
| "property_name (PropertySequenceWrapper w) = pw_name w"

fun property_type :: "IProperty \<Rightarrow> PropertyType" where
  "property_type (Property d) = pd_type d"
| "property_type (PropertyWrapper w) = pw_type w"
| "property_type (PropertySequenceWrapper w) = pw_type w"

fun property_access :: "IProperty \<Rightarrow> AccessSpecifier" where
  "property_access (Property d) = pd_attribute d"
| "property_access (PropertyWrapper w) = pw_accessSpecifier w"
| "property_access (PropertySequenceWrapper w) = pw_accessSpecifier w"

fun property_size :: "'a PropertyMemory_scheme \<Rightarrow> IProperty \<Rightarrow> nat" where
  "property_size s (Property d) = length (pd_queue d)"
| "property_size s (PropertyWrapper w) = 1"
| "property_size s (PropertySequenceWrapper w) = length (pm_sequences s (pw_variable w))"

fun with_name :: "string \<Rightarrow> IProperty \<Rightarrow> IProperty" where
  "with_name n (Property d) = Property (d\<lparr>pd_name := n\<rparr>)"
| "with_name n (PropertyWrapper w) = PropertyWrapper (w\<lparr>pw_name := n\<rparr>)"
| "with_name n (PropertySequenceWrapper w) = PropertySequenceWrapper (w\<lparr>pw_name := n\<rparr>)"

text \<open>What the classes throw for a null pointer.\<close>

fun null_argument :: "string \<Rightarrow> IProperty \<Rightarrow> exn" where
  "null_argument argument (Property d) = Invalid_argument (''Argument '' @ [CHR 0x27] @ argument @ [CHR 0x27] @ '' is null'')"
| "null_argument argument p = Invalid_argument ''Argument is a null pointer''"

definition IProperty_setName :: "string option \<Rightarrow> nat \<Rightarrow> ('a PropertyMemory_scheme, exn, unit) eff" where
  "IProperty_setName name a =
     (case name of
        None \<Rightarrow> bind_eff (the_property a) (\<lambda>p. throw_eff (null_argument ''name'' p))
      | Some n \<Rightarrow> bind_eff (the_property a) (\<lambda>p. put_property a (with_name n p)))"

fun with_access :: "AccessSpecifier \<Rightarrow> IProperty \<Rightarrow> IProperty" where
  "with_access x (Property d) = Property (d\<lparr>pd_attribute := x\<rparr>)"
| "with_access x (PropertyWrapper w) = PropertyWrapper (w\<lparr>pw_accessSpecifier := x\<rparr>)"
| "with_access x (PropertySequenceWrapper w) = PropertySequenceWrapper (w\<lparr>pw_accessSpecifier := x\<rparr>)"

definition IProperty_setAccessSpecifier :: "AccessSpecifier \<Rightarrow> nat \<Rightarrow> ('a PropertyMemory_scheme, exn, unit) eff" where
  "IProperty_setAccessSpecifier x a = bind_eff (the_property a) (\<lambda>p. put_property a (with_access x p))"

text \<open>
  \<open>copyTo\<close> sets up the destination, then copies value by value for six of the nine types; for the others it fails after
  it set up the destination. The three classes have the same code.
\<close>

definition copied_types :: "PropertyType list" where
  "copied_types = [IProperty_INTEGER, IProperty_UINTEGER, IProperty_FLOAT, IProperty_CHARSTR, IProperty_UNICODESTR,
     IProperty_STRUCTURE]"

definition IProperty_copyTo :: "nat option \<Rightarrow> nat \<Rightarrow> ('a PropertyMemory_scheme, exn, XPCFErrorCode) eff" where
  "IProperty_copyTo dest a =
     (case dest of
        None \<Rightarrow> bind_eff (the_property a) (\<lambda>p. throw_eff (null_argument ''dest'' p))
      | Some b \<Rightarrow>
          bind_eff (the_property a) (\<lambda>p.
          bind_eff (gets_eff (\<lambda>s. property_size s p)) (\<lambda>n.
          bind_eff (IProperty_setProperties (Some (property_name p)) n (property_access p) b) (\<lambda>_.
          bind_eff (the_property a) (\<lambda>p.
          let k = property_type p in
          if k \<in> set copied_types
          then bind_eff (gets_eff (\<lambda>s. property_size s p)) (\<lambda>n.
               seq_eff (for_eff (\<lambda>i. bind_eff (IProperty_get k i a) (\<lambda>val. IProperty_set k val i b)) [0..<n])
                 (return_eff SUCCESS))
          else return_eff FAIL)))))"

definition Property_CreateInstance ::
  "string option \<Rightarrow> nat \<Rightarrow> AccessSpecifier \<Rightarrow> ('a PropertyMemory_scheme, exn, nat) eff" where
  "Property_CreateInstance name n iotype =
     bind_eff (new_property (Property Property_init)) (\<lambda>a.
     bind_eff (IProperty_setProperties name n iotype a) (\<lambda>_. return_eff a))"

section \<open>PropertyMap\<close>

definition PropertyMap_init :: PropertyMapData where
  "PropertyMap_init = \<lparr>m_propertyMap = Map.empty, m_collectionPropertyMap = []\<rparr>"

definition getPropertyMapInstance :: "('a PropertyMemory_scheme, exn, nat) eff" where
  "getPropertyMapInstance = (\<lambda>s. (Inr (pm_next s),
     s\<lparr>pm_maps := (pm_maps s)(pm_next s \<mapsto> PropertyMap_init), pm_next := Suc (pm_next s)\<rparr>))"

definition the_map :: "nat \<Rightarrow> ('a PropertyMemory_scheme, exn, PropertyMapData) eff" where
  "the_map m = bind_eff (gets_eff (\<lambda>s. pm_maps s m))
     (\<lambda>x. case x of None \<Rightarrow> throw_eff Undefined_behaviour | Some d \<Rightarrow> return_eff d)"

definition PropertyMap_addProperty :: "nat \<Rightarrow> nat \<Rightarrow> ('a PropertyMemory_scheme, exn, XPCFErrorCode) eff" where
  "PropertyMap_addProperty m a =
     bind_eff (the_map m) (\<lambda>d.
     bind_eff (the_property a) (\<lambda>p.
       if m_propertyMap d (property_name p) \<noteq> None then return_eff FAIL
       else seq_eff (modify_eff (\<lambda>s. s\<lparr>pm_maps := (pm_maps s)(m \<mapsto>
              d\<lparr>m_propertyMap := (m_propertyMap d)(property_name p \<mapsto> a),
                m_collectionPropertyMap := Collection_add a (m_collectionPropertyMap d)\<rparr>)\<rparr>))
            (return_eff SUCCESS)))"

definition PropertyMap_at :: "nat \<Rightarrow> string \<Rightarrow> ('a PropertyMemory_scheme, exn, nat option) eff" where
  "PropertyMap_at m name = bind_eff (the_map m) (\<lambda>d.
     return_eff (case m_propertyMap d name of None \<Rightarrow> None | Some a \<Rightarrow> Some a))"

definition PropertyMap_getProperties :: "nat \<Rightarrow> ('a PropertyMemory_scheme, exn, nat list) eff" where
  "PropertyMap_getProperties m = bind_eff (the_map m) (\<lambda>d. return_eff (m_collectionPropertyMap d))"

definition PropertyMap_setProperty :: "nat \<Rightarrow> nat option \<Rightarrow> ('a PropertyMemory_scheme, exn, XPCFErrorCode) eff" where
  "PropertyMap_setProperty m prop =
     (case prop of
        None \<Rightarrow> throw_eff (Invalid_argument
          ''Argument 'p' doesn't reference an IProperty. This SRef is empty.'')
      | Some a \<Rightarrow>
          bind_eff (the_property a) (\<lambda>p.
          bind_eff (the_map m) (\<lambda>d.
            case m_propertyMap d (property_name p) of
              None \<Rightarrow> throw_eff (Invalid_argument
                (''No property named '' @ property_name p @ '' exists in this IPropertyMap.''))
            | Some tmp \<Rightarrow>
                bind_eff (the_property tmp) (\<lambda>t.
                bind_eff (gets_eff (\<lambda>s. (property_size s t, property_size s p))) (\<lambda>(tn, pn).
                if property_access t = IProperty_OUT then throw_eff AccessDeniedException_default
                else if tn \<noteq> pn then throw_eff (Invalid_argument
                  ''Argument property size differs from inner property size.'')
                else if property_type t \<noteq> property_type p then throw_eff (Invalid_argument
                  ''Argument property type differs from inner property type.'')
                else seq_eff (bind_eff (IProperty_copyTo (Some tmp) a) (\<lambda>_. return_eff ()))
                       (return_eff SUCCESS))))))"

text \<open>The eighteen \<open>wrap\<close> operations are the two templates at a type.\<close>

definition PropertyMap_wrap ::
  "PropertyType \<Rightarrow> nat \<Rightarrow> string option \<Rightarrow> nat \<Rightarrow> AccessSpecifier \<Rightarrow> ('a PropertyMemory_scheme, exn, XPCFErrorCode) eff" where
  "PropertyMap_wrap k m name wrappedValue iotype =
     (case name of
        None \<Rightarrow> return_eff ERROR_INVALID_ARGUMENT
      | Some n \<Rightarrow> bind_eff (new_property (PropertyWrapper
            \<lparr>pw_name = n, pw_type = k, pw_variable = wrappedValue, pw_accessSpecifier = iotype\<rparr>))
          (PropertyMap_addProperty m))"

definition PropertyMap_wrapSequence ::
  "PropertyType \<Rightarrow> nat \<Rightarrow> string option \<Rightarrow> nat \<Rightarrow> AccessSpecifier \<Rightarrow> ('a PropertyMemory_scheme, exn, XPCFErrorCode) eff" where
  "PropertyMap_wrapSequence k m name wrappedValue iotype =
     (case name of
        None \<Rightarrow> return_eff ERROR_INVALID_ARGUMENT
      | Some n \<Rightarrow> bind_eff (new_property (PropertySequenceWrapper
            \<lparr>pw_name = n, pw_type = k, pw_variable = wrappedValue, pw_accessSpecifier = iotype\<rparr>))
          (PropertyMap_addProperty m))"

abbreviation wrapInteger where "wrapInteger \<equiv> PropertyMap_wrap IProperty_INTEGER"
abbreviation wrapUnsignedInteger where "wrapUnsignedInteger \<equiv> PropertyMap_wrap IProperty_UINTEGER"
abbreviation wrapLong where "wrapLong \<equiv> PropertyMap_wrap IProperty_LONG"
abbreviation wrapUnsignedLong where "wrapUnsignedLong \<equiv> PropertyMap_wrap IProperty_ULONG"
abbreviation wrapFloat where "wrapFloat \<equiv> PropertyMap_wrap IProperty_FLOAT"
abbreviation wrapDouble where "wrapDouble \<equiv> PropertyMap_wrap IProperty_DOUBLE"
abbreviation wrapString where "wrapString \<equiv> PropertyMap_wrap IProperty_CHARSTR"
abbreviation wrapUnicodeString where "wrapUnicodeString \<equiv> PropertyMap_wrap IProperty_UNICODESTR"
abbreviation wrapStructure where "wrapStructure \<equiv> PropertyMap_wrap IProperty_STRUCTURE"
abbreviation wrapIntegerVector where "wrapIntegerVector \<equiv> PropertyMap_wrapSequence IProperty_INTEGER"
abbreviation wrapUnsignedIntegerVector where "wrapUnsignedIntegerVector \<equiv> PropertyMap_wrapSequence IProperty_UINTEGER"
abbreviation wrapLongVector where "wrapLongVector \<equiv> PropertyMap_wrapSequence IProperty_LONG"
abbreviation wrapUnsignedLongVector where "wrapUnsignedLongVector \<equiv> PropertyMap_wrapSequence IProperty_ULONG"
abbreviation wrapFloatVector where "wrapFloatVector \<equiv> PropertyMap_wrapSequence IProperty_FLOAT"
abbreviation wrapDoubleVector where "wrapDoubleVector \<equiv> PropertyMap_wrapSequence IProperty_DOUBLE"
abbreviation wrapStringVector where "wrapStringVector \<equiv> PropertyMap_wrapSequence IProperty_CHARSTR"
abbreviation wrapUnicodeStringVector where "wrapUnicodeStringVector \<equiv> PropertyMap_wrapSequence IProperty_UNICODESTR"
abbreviation wrapStructureVector where "wrapStructureVector \<equiv> PropertyMap_wrapSequence IProperty_STRUCTURE"

section \<open>Laws of Property\<close>

text \<open>The operations that change a \<open>Property\<close>, as steps; \<open>copyTo\<close> changes its destination by these steps only.\<close>

inductive Property_step :: "PropertyData \<Rightarrow> PropertyData \<Rightarrow> bool" where
  set_number: "Property_step p (snd (Property_setValue v i p))"
| set_text: "is_string_kind k \<Longrightarrow> Property_step p (snd (Property_setStringValue k val i p))"
| set_properties: "Property_step p (snd (Property_setProperties name n iotype p))"
| set_name: "Property_step p (p\<lparr>pd_name := x\<rparr>)"
| set_access: "Property_step p (p\<lparr>pd_attribute := iotype\<rparr>)"

inductive_cases Property_stepE: "Property_step p q"

definition untyped_or_text :: "PropertyData \<Rightarrow> bool" where
  "untyped_or_text p \<longleftrightarrow> pd_type p = IProperty_NONE \<or> is_string_kind (pd_type p)"

lemma Property_clear_simps [simp]:
  "pd_type (Property_clear p) = IProperty_NONE" "pd_attribute (Property_clear p) = pd_attribute p"
  "pd_name (Property_clear p) = pd_name p"
  by (auto simp: Property_clear_def)

lemma Property_checkType_type [simp]:
  "pd_type (Property_checkType k p) = k" "pd_attribute (Property_checkType k p) = pd_attribute p"
  by (auto simp: Property_checkType_def)

lemma queue_put_type [simp]:
  "pd_type (snd (queue_put i v p)) = pd_type p" "pd_attribute (snd (queue_put i v p)) = pd_attribute p"
  by (auto simp: queue_put_def)

lemma Property_setValue_type [simp]: "pd_type (snd (Property_setValue v i p)) = pd_type p"
  by (auto simp: Property_setValue_def)

lemma untyped_or_text_step:
  assumes "Property_step p q" and "untyped_or_text p"
  shows "untyped_or_text q"
  using assms
  by (cases rule: Property_step.cases)
    (auto simp: untyped_or_text_def Property_setStringValue_def Property_setProperties_def split: option.splits)

lemma untyped_or_text_reachable: "Property_step\<^sup>*\<^sup>* Property_init p \<Longrightarrow> untyped_or_text p"
proof (induction rule: rtranclp_induct)
  case base
  show ?case by (simp add: untyped_or_text_def Property_init_def)
next
  case (step q r)
  then show ?case by (blast intro: untyped_or_text_step)
qed

lemma getValue_untyped_or_text:
  assumes "untyped_or_text p" and "k \<noteq> IProperty_NONE" and "\<not> is_string_kind k"
  shows "Property_getValue k i p = Inr (no_value k)"
proof -
  have "asked_type k \<noteq> IProperty_NONE \<and> \<not> is_string_kind (asked_type k)"
    using assms(2,3) by (cases k) (auto simp: is_string_kind_def)
  then have "pd_type p \<noteq> asked_type k"
    using assms(1) by (auto simp: untyped_or_text_def)
  moreover have "pd_type p \<noteq> IProperty_STRUCTURE"
    using assms(1) by (auto simp: untyped_or_text_def is_string_kind_def)
  ultimately show ?thesis
    using assms(3) by (auto simp: Property_getValue_def)
qed



text \<open>
  A string set at an index is read back, and the other values stay. When the property held strings of
  the other kind, setting drops all its values and throws out of range, leaving it empty: the kind of a property is
  fixed by the first string set until the property is set up again.
\<close>

theorem property_strings:
  assumes "is_string_kind k" and "value_kind v = k" and "pd_attribute p = IProperty_INOUT"
    and "pd_type p = IProperty_NONE \<or> is_string_kind (pd_type p)"
  shows "let (r, q) = Property_setStringValue k (Some v) i p in
    if pd_type p = IProperty_NONE \<or> pd_type p = k
    then (if i < length (pd_queue p)
          then r = Inr () \<and> Property_getValue k i q = Inr (Some v) \<and>
               pd_queue q = (pd_queue p)[i := Some v] \<and> pd_type q = k
          else r = Inl (Out_of_range ''at'') \<and> pd_queue q = pd_queue p)
    else r = Inl (Out_of_range ''at'') \<and> pd_queue q = [] \<and> pd_type q = k"
  using assms
  by (auto simp: Property_setStringValue_def Property_checkType_def Property_clear_def queue_put_def Let_def
      Property_getValue_def queue_get_def any_cast_def is_string_kind_def)

theorem property_strings_witness:
  "let (r, q) = Property_setStringValue IProperty_UNICODESTR (Some (V_wstring [65])) 0
     \<lparr>pd_name = ''n'', pd_type = IProperty_CHARSTR, pd_queue = [Some (V_string ''a'')], pd_attribute = IProperty_INOUT\<rparr>
   in r = Inl (Out_of_range ''at'') \<and> pd_queue q = [] \<and> pd_type q = IProperty_UNICODESTR"
  using property_strings [of IProperty_UNICODESTR "V_wstring [65]"
      "\<lparr>pd_name = ''n'', pd_type = IProperty_CHARSTR, pd_queue = [Some (V_string ''a'')], pd_attribute = IProperty_INOUT\<rparr>" 0]
  unfolding is_string_kind_def by simp

section \<open>Laws of the wrappers and of the map\<close>

lemmas interface_simps = eff_simps IProperty_set_def IProperty_get_def the_property_def set_variable_def
  PropertyWrapper_set_def PropertyWrapper_get_def PropertySequenceWrapper_set_def PropertySequenceWrapper_get_def

text \<open>
  Setting through a wrapper writes the variable of the component and the getter of the same kind reads
  it back. Setters of other kinds do nothing and their getters answer nothing useful. An index out of range throws
  and writes nothing, except that the string setters of a single value write whatever the index is.
\<close>

theorem wrapper_round_trip:
  assumes "pm_properties s a = Some (PropertyWrapper w)" and "pm_properties s b = Some (PropertySequenceWrapper u)"
  shows "seq_eff (IProperty_set k (Some v) i a) (IProperty_get k i a) s =
      (let s' = s\<lparr>pm_variables := (pm_variables s)(pw_variable w := v)\<rparr>;
           range = Inl (Out_of_range ''itemIndex is greater than container size'')
       in if pw_type w \<noteq> k then (Inr (no_value k), s)
          else if i = 0 then (Inr (Some v), s')
          else if is_string_kind k then (range, s') else (range, s)) \<and>
    seq_eff (IProperty_set k (Some v) i b) (IProperty_get k i b) s =
      (let xs = pm_sequences s (pw_variable u)
       in if pw_type u \<noteq> k then (Inr (no_value k), s)
          else if i < length xs
          then (Inr (Some v), s\<lparr>pm_sequences := (pm_sequences s)(pw_variable u := xs[i := v])\<rparr>)
          else (Inl (Out_of_range ''at''), s))"
  using assms by (auto simp: interface_simps Let_def is_string_kind_def)

definition sample_memory :: PropertyMemory where
  "sample_memory = \<lparr>
     pm_properties = [
       0 \<mapsto> PropertyWrapper \<lparr>pw_name = ''count'', pw_type = IProperty_INTEGER, pw_variable = 0, pw_accessSpecifier = IProperty_INOUT\<rparr>,
       1 \<mapsto> PropertySequenceWrapper \<lparr>pw_name = ''ids'', pw_type = IProperty_UINTEGER, pw_variable = 0, pw_accessSpecifier = IProperty_IN\<rparr>,
       2 \<mapsto> PropertySequenceWrapper \<lparr>pw_name = ''old'', pw_type = IProperty_UINTEGER, pw_variable = 1, pw_accessSpecifier = IProperty_INOUT\<rparr>,
       3 \<mapsto> PropertyWrapper \<lparr>pw_name = ''size'', pw_type = IProperty_LONG, pw_variable = 1, pw_accessSpecifier = IProperty_INOUT\<rparr>,
       4 \<mapsto> PropertyWrapper \<lparr>pw_name = ''size'', pw_type = IProperty_LONG, pw_variable = 2, pw_accessSpecifier = IProperty_INOUT\<rparr>],
     pm_maps = [9 \<mapsto> \<lparr>m_propertyMap = [''count'' \<mapsto> 0, ''size'' \<mapsto> 3], m_collectionPropertyMap = [0, 3]\<rparr>],
     pm_variables = (\<lambda>c. if c = 0 then V_int 4 else if c = 1 then V_long 1 else V_long 2),
     pm_sequences = (\<lambda>c. if c = 0 then [V_uint 1, V_uint 2] else []),
     pm_next = 10\<rparr>"

theorem wrapper_round_trip_witness:
  "fst (seq_eff (IProperty_set IProperty_INTEGER (Some (V_int 5)) 0 0) (IProperty_get IProperty_INTEGER 0 0) sample_memory)
    = Inr (Some (V_int 5)) \<and>
   fst (seq_eff (IProperty_set IProperty_INTEGER (Some (V_int 5)) 0 1) (IProperty_get IProperty_INTEGER 0 1) sample_memory)
    = Inr (Some (V_int 0))"
  using wrapper_round_trip [of sample_memory 0
      "\<lparr>pw_name = ''count'', pw_type = IProperty_INTEGER, pw_variable = 0, pw_accessSpecifier = IProperty_INOUT\<rparr>" 1
      "\<lparr>pw_name = ''ids'', pw_type = IProperty_UINTEGER, pw_variable = 0, pw_accessSpecifier = IProperty_IN\<rparr>"
      IProperty_INTEGER "V_int 5" 0]
  by (simp add: sample_memory_def)

text \<open>The copying loop between two sequences has copied the first \<open>n\<close> values after \<open>n\<close> rounds.\<close>

lemma sequence_copy_loop:
  assumes "pm_properties s a = Some (PropertySequenceWrapper w)" and "pm_properties s b = Some (PropertySequenceWrapper u)"
    and "pw_type w = k" and "pw_type u = k" and "pw_variable w \<noteq> pw_variable u"
    and "length (pm_sequences s (pw_variable u)) = length (pm_sequences s (pw_variable w))"
    and "n \<le> length (pm_sequences s (pw_variable w))"
  shows "for_eff (\<lambda>i. bind_eff (IProperty_get k i a) (\<lambda>val. IProperty_set k val i b)) [0..<n] s =
    (Inr (), s\<lparr>pm_sequences := (pm_sequences s)(pw_variable u :=
       take n (pm_sequences s (pw_variable w)) @ drop n (pm_sequences s (pw_variable u)))\<rparr>)"
  using assms(7)
proof (induction n)
  case 0
  show ?case by (simp add: eff_simps)
next
  case (Suc n)
  let ?xs = "pm_sequences s (pw_variable w)" and ?ys = "pm_sequences s (pw_variable u)"
  have "(take n ?xs @ drop n ?ys)[n := ?xs ! n] = take (Suc n) ?xs @ drop (Suc n) ?ys"
    using Suc.prems assms(6)
    by (simp add: list_update_append take_Suc_conv_app_nth Cons_nth_drop_Suc [symmetric])
  then show ?case
    using Suc assms(1-6) by (simp add: for_eff_append interface_simps fun_upd_def cong: if_cong)
qed

text \<open>
  Copying a wrapped sequence to another of the same type makes the other equal to it, whatever its
  length was, and gives it the name and the access of the source; for 64-bit integers and doubles, it fails and
  leaves the destination with the size of the source, filled up with zeros.
\<close>

theorem copyTo_sequence:
  assumes "pm_properties s a = Some (PropertySequenceWrapper w)" and "pm_properties s b = Some (PropertySequenceWrapper u)"
    and "pw_type w = pw_type u" and "pw_variable w \<noteq> pw_variable u" and "pw_name w \<noteq> ''''"
    and "pw_type w \<noteq> IProperty_NONE"
  shows "let (r, s') = IProperty_copyTo (Some b) a s;
           xs = pm_sequences s (pw_variable w); ys = pm_sequences s (pw_variable u)
    in pm_properties s' b = Some (PropertySequenceWrapper
         (u\<lparr>pw_name := pw_name w, pw_accessSpecifier := pw_accessSpecifier w\<rparr>)) \<and>
       pm_sequences s' (pw_variable w) = xs \<and>
       (if pw_type w \<in> {IProperty_LONG, IProperty_ULONG, IProperty_DOUBLE}
        then r = Inr FAIL \<and> pm_sequences s' (pw_variable u) = resize (length xs) (default_value (pw_type u)) ys
        else r = Inr SUCCESS \<and> pm_sequences s' (pw_variable u) = xs)"
proof -
  let ?xs = "pm_sequences s (pw_variable w)" and ?ys = "pm_sequences s (pw_variable u)"
  let ?t = "s\<lparr>pm_sequences := (pm_sequences s)(pw_variable u := resize (length ?xs) (default_value (pw_type u)) ?ys),
    pm_properties := (pm_properties s)(b \<mapsto> PropertySequenceWrapper
         (u\<lparr>pw_name := pw_name w, pw_accessSpecifier := pw_accessSpecifier w\<rparr>))\<rparr>"
  have "a \<noteq> b"
    using assms(1,2,4) by auto
  have prepared: "IProperty_setProperties (Some (pw_name w)) (length ?xs) (pw_accessSpecifier w) b s = (Inr SUCCESS, ?t)"
    using assms(2,5)
    by (simp add: IProperty_setProperties_def PropertySequenceWrapper_setProperties_def interface_simps put_property_def)
  have loop: "for_eff (\<lambda>i. bind_eff (IProperty_get (pw_type w) i a) (\<lambda>val. IProperty_set (pw_type w) val i b))
      [0..<length ?xs] ?t = (Inr (), ?t\<lparr>pm_sequences := (pm_sequences s)(pw_variable u := ?xs)\<rparr>)"
    using assms(1,3,4) \<open>a \<noteq> b\<close> by (simp add: sequence_copy_loop)
  have "pw_type w \<in> set copied_types \<longleftrightarrow> pw_type w \<notin> {IProperty_LONG, IProperty_ULONG, IProperty_DOUBLE}"
    using assms(6) by (cases "pw_type w") (auto simp: copied_types_def)
  then show ?thesis
    using assms(1,4) \<open>a \<noteq> b\<close> prepared loop by (simp add: IProperty_copyTo_def eff_simps the_property_def Let_def)
qed

theorem copyTo_sequence_witness:
  "pm_sequences (snd (IProperty_copyTo (Some 2) 1 sample_memory)) 1 = [V_uint 1, V_uint 2]"
  using copyTo_sequence [of sample_memory 1
      "\<lparr>pw_name = ''ids'', pw_type = IProperty_UINTEGER, pw_variable = 0, pw_accessSpecifier = IProperty_IN\<rparr>" 2
      "\<lparr>pw_name = ''old'', pw_type = IProperty_UINTEGER, pw_variable = 1, pw_accessSpecifier = IProperty_INOUT\<rparr>"]
  by (auto simp: sample_memory_def Let_def split: prod.splits)



text \<open>Wrapping a variable under a new name lists it and makes it readable under the name; a used name keeps its property.\<close>

lemma wrap_then_at:
  assumes "pm_maps s m = Some d"
  shows "let (r, s') = PropertyMap_wrap k m (Some n) c iotype s in
    if n \<in> dom (m_propertyMap d) then r = Inr FAIL \<and> pm_maps s' = pm_maps s
    else r = Inr SUCCESS \<and> fst (PropertyMap_at m n s') = Inr (Some (pm_next s)) \<and>
      fst (PropertyMap_getProperties m s') = Inr (m_collectionPropertyMap d @ [pm_next s]) \<and>
      fst (IProperty_get k 0 (pm_next s) s') = Inr (Some (pm_variables s c))"
  using assms
  by (auto simp: PropertyMap_wrap_def PropertyMap_addProperty_def new_property_def the_map_def interface_simps
      PropertyMap_at_def PropertyMap_getProperties_def Collection_add_def Let_def)

end
