(* ===== verification/Xpcf_Configure.thy ===== *)
theory Xpcf_Configure
  imports Xpcf_NumberText Xpcf_Property Xpcf_PropertyManager
begin

text \<open>
  \<^verbatim>\<open>src/PropertyManager.cpp\<close>, second part, and \<^verbatim>\<open>src/ConfigurableBase.cpp\<close>: how the elements of a configuration file set the
  properties of a component, and how the properties are written to a file. The state is the memory of the properties; the
  aliases are only read and are an argument.
\<close>

section \<open>Values\<close>

text \<open>
  What the C++ library makes of a decimal floating-point text and of a floating-point value, up to the width of the
  result and the number of characters read.
\<close>

record FloatConversions =
  fc_stof :: "string \<Rightarrow> exn + 32 word \<times> nat"
  fc_stod :: "string \<Rightarrow> exn + 64 word \<times> nat"
  fc_float_text :: "32 word \<Rightarrow> string"
  fc_double_text :: "64 word \<Rightarrow> string"

fun propertyTypeToStrMap :: "PropertyType \<Rightarrow> string" where
  "propertyTypeToStrMap IProperty_NONE = ''''"
| "propertyTypeToStrMap IProperty_INTEGER = ''int''"
| "propertyTypeToStrMap IProperty_UINTEGER = ''uint''"
| "propertyTypeToStrMap IProperty_LONG = ''long''"
| "propertyTypeToStrMap IProperty_ULONG = ''ulong''"
| "propertyTypeToStrMap IProperty_CHARSTR = ''string''"
| "propertyTypeToStrMap IProperty_UNICODESTR = ''wstring''"
| "propertyTypeToStrMap IProperty_FLOAT = ''float''"
| "propertyTypeToStrMap IProperty_DOUBLE = ''double''"
| "propertyTypeToStrMap IProperty_STRUCTURE = ''structure''"

fun propertyAccessToStrMap :: "AccessSpecifier \<Rightarrow> string" where
  "propertyAccessToStrMap IProperty_IN = ''w''"
| "propertyAccessToStrMap IProperty_OUT = ''r''"
| "propertyAccessToStrMap IProperty_INOUT = ''rw''"

fun is_invalid_argument :: "exn \<Rightarrow> bool" where
  "is_invalid_argument (Invalid_argument _) = True"
| "is_invalid_argument _ = False"

definition unexpected_value :: "string \<Rightarrow> PropertyType \<Rightarrow> exn" where
  "unexpected_value valueStr t = ConfigurationException_text
     (''Unexpected value type for '' @ dquote @ valueStr @ dquote @ '', '' @ dquote @ propertyTypeToStrMap t @ dquote @ '' expected'')"

text \<open>The switch on the type: the value is set, the answer is how many characters were read; none for other types.\<close>

definition set_converted ::
  "exn + 'w \<times> nat \<Rightarrow> ('w \<Rightarrow> ('a PropertyMemory_scheme, exn, unit) eff) \<Rightarrow> ('a PropertyMemory_scheme, exn, nat option) eff" where
  "set_converted converted setter =
     bind_eff (lift_eff converted) (\<lambda>(v, processed). seq_eff (setter v) (return_eff (Some processed)))"

fun set_from_text ::
  "'f FloatConversions_scheme \<Rightarrow> string \<Rightarrow> nat \<Rightarrow> nat \<Rightarrow> PropertyType \<Rightarrow> ('a PropertyMemory_scheme, exn, nat option) eff" where
  "set_from_text fc valueStr a i IProperty_INTEGER =
     set_converted (signed_number ''stol'' valueStr) (\<lambda>v. setIntegerValue (ucast v) i a)"
| "set_from_text fc valueStr a i IProperty_UINTEGER =
     set_converted (unsigned_number ''stoul'' valueStr) (\<lambda>v. setUnsignedIntegerValue (ucast v) i a)"
| "set_from_text fc valueStr a i IProperty_LONG = set_converted (signed_number ''stoll'' valueStr) (\<lambda>v. setLongValue v i a)"
| "set_from_text fc valueStr a i IProperty_ULONG = set_converted (unsigned_number ''stoull'' valueStr) (\<lambda>v. setUnsignedLongValue v i a)"
| "set_from_text fc valueStr a i IProperty_FLOAT = set_converted (fc_stof fc valueStr) (\<lambda>v. setFloatingValue v i a)"
| "set_from_text fc valueStr a i IProperty_DOUBLE = set_converted (fc_stod fc valueStr) (\<lambda>v. setDoubleValue v i a)"
| "set_from_text fc valueStr a i IProperty_CHARSTR = seq_eff (setStringValue (Some valueStr) i a) (return_eff (Some 0))"
| "set_from_text fc valueStr a i IProperty_UNICODESTR = return_eff (Some 0)"
| "set_from_text fc valueStr a i _ = return_eff None"

definition type_of :: "nat \<Rightarrow> ('a PropertyMemory_scheme, exn, PropertyType) eff" where
  "type_of a = bind_eff (the_property a) (\<lambda>p. return_eff (property_type p))"

definition configureValue ::
  "'f FloatConversions_scheme \<Rightarrow> string \<Rightarrow> nat \<Rightarrow> nat \<Rightarrow> ('a PropertyMemory_scheme, exn, XPCFErrorCode) eff" where
  "configureValue fc valueStr a i =
     (if valueStr = '''' then throw_eff (ConfigurationException_text ''No value defined'')
      else catch_if is_invalid_argument
        (bind_eff (bind_eff (type_of a) (set_from_text fc valueStr a i)) (\<lambda>r. case r of
            None \<Rightarrow> return_eff ERROR_TYPE
          | Some processedValue \<Rightarrow>
              bind_eff (type_of a) (\<lambda>t.
                if length valueStr \<noteq> processedValue \<and> t \<noteq> IProperty_CHARSTR then throw_eff (unexpected_value valueStr t)
                else return_eff SUCCESS)))
        (\<lambda>_. bind_eff (type_of a) (\<lambda>t. throw_eff (unexpected_value valueStr t))))"

section \<open>Elements\<close>

text \<open>The loops over elements run as long as the result is \<open>_SUCCESS\<close>.\<close>

fun while_success :: "('x \<Rightarrow> ('s, exn, XPCFErrorCode) eff) \<Rightarrow> 'x list \<Rightarrow> ('s, exn, XPCFErrorCode) eff" where
  "while_success f [] = return_eff SUCCESS"
| "while_success f (x # xs) = bind_eff (f x) (\<lambda>result. if result = SUCCESS then while_success f xs else return_eff result)"

lemma while_success_cong [fundef_cong]:
  assumes "xs = ys" and "\<And>x. x \<in> set ys \<Longrightarrow> f x = g x"
  shows "while_success f xs = while_success g ys"
  using assms(2) unfolding assms(1)
proof (induction ys)
  case (Cons y ys)
  then have "f y = g y" and "while_success f ys = while_success g ys"
    by simp_all
  then show ?case
    by (simp cong: if_cong)
qed simp

definition elements_named :: "string \<Rightarrow> xml \<Rightarrow> xml list" where
  "elements_named name e = filter (is_element_named name) (xml_children e)"

definition configureValues ::
  "'f FloatConversions_scheme \<Rightarrow> nat \<Rightarrow> xml list \<Rightarrow> ('a PropertyMemory_scheme, exn, XPCFErrorCode) eff" where
  "configureValues fc a valueElts =
     while_success (\<lambda>(index, valueElt). bind_eff (string_of_ptr (xml_GetText valueElt)) (\<lambda>propertyValue.
       configureValue fc propertyValue a index)) (enumerate 0 valueElts)"

fun struct_ptr :: "property_value option \<Rightarrow> nat option" where
  "struct_ptr (Some (V_struct m)) = m"
| "struct_ptr _ = None"

lemma size_elements_named: "x \<in> set (elements_named name e) \<Longrightarrow> size x < size e"
  by (cases e) (auto simp: elements_named_def dest!: size_list_estimation' [OF _ order_refl, of _ _ size])

function configureProperty :: "'f FloatConversions_scheme \<Rightarrow> xml \<Rightarrow> nat \<Rightarrow> ('a PropertyMemory_scheme, exn, XPCFErrorCode) eff"
  and configureElement :: "'f FloatConversions_scheme \<Rightarrow> xml \<Rightarrow> nat option \<Rightarrow> ('a PropertyMemory_scheme, exn, XPCFErrorCode) eff" where
  "configureProperty fc propertyElt nodeElement =
     (let propertyName = attr_or_empty ''name'' propertyElt in
      if propertyName = '''' then return_eff ERROR_INVALID_ARGUMENT
      else catch_xpcf
        (bind_eff (PropertyMap_at nodeElement propertyName) (\<lambda>found. case found of
           None \<Rightarrow> throw_eff (ConfigurationException_text (''Property unknown: '' @ propertyName))
         | Some currentProperty \<Rightarrow>
             bind_eff (string_of_ptr (xml_Attribute ''type'' propertyElt)) (\<lambda>propertyType.
               if propertyType = '''' then throw_eff (ConfigurationException_text (''Unknown type '' @ dquote @ propertyType @ dquote))
               else if propertyType = ''structure''
               then bind_eff (type_of currentProperty) (\<lambda>t.
                      if t \<noteq> IProperty_STRUCTURE then throw_eff (ConfigurationException_text (dquote @ ''structure'' @ dquote @ '' expected.''))
                      else bind_eff (IProperty_get IProperty_STRUCTURE 0 currentProperty) (\<lambda>v.
                             configureElement fc propertyElt (struct_ptr v)))
               else case xml_Attribute ''value'' propertyElt of
                   Some propertyValue \<Rightarrow> configureValue fc propertyValue currentProperty 0
                 | None \<Rightarrow> configureValues fc currentProperty (elements_named ''value'' propertyElt))))
        (rethrow_in ''property'' False [(''name'', propertyName)]))"
| "configureElement fc element nodeElement =
     (case nodeElement of
        None \<Rightarrow> return_eff ERROR_NULL_POINTER
      | Some node \<Rightarrow> while_success (\<lambda>propertyElt. configureProperty fc propertyElt node) (elements_named ''property'' element))"
  by pat_completeness auto
termination
  by (relation "measure (\<lambda>c. case c of Inl (fc, e, n) \<Rightarrow> 2 * size e + 1 | Inr (fc, e, n) \<Rightarrow> 2 * size e)")
    (auto dest: size_elements_named)

declare configureProperty.simps [simp del] configureElement.simps [simp del]

section \<open>Files\<close>

text \<open>A file that cannot be read configures nothing and is no error. \<open>root\<close> is the property map of the component.\<close>

definition configure_component_element ::
  "'p Platform_scheme \<Rightarrow> 'f FloatConversions_scheme \<Rightarrow> (xml \<Rightarrow> bool) \<Rightarrow> uuid \<Rightarrow> nat option \<Rightarrow> xml \<Rightarrow>
     ('a PropertyMemory_scheme, exn, XPCFErrorCode) eff" where
  "configure_component_element pf fc xmlNodePredicate componentUUID root e =
     catch_eff
       (bind_eff (string_of_ptr (xml_Attribute ''uuid'' e)) (\<lambda>uuid.
          if xmlNodePredicate e
          then bind_eff (lift_eff (toUUID (pf_uuid_of_string pf) uuid)) (\<lambda>u.
                 if u = componentUUID then configureElement fc e root else return_eff SUCCESS)
          else return_eff SUCCESS))
       (\<lambda>ex. if is_xpcf ex
          then rethrow_in ''component'' True
            ((case xml_Attribute ''uuid'' e of None \<Rightarrow> [] | Some v \<Rightarrow> [(''uuid'', v)])
             @ (case xml_Attribute ''name'' e of None \<Rightarrow> [] | Some v \<Rightarrow> [(''name'', v)])) ex
          else if is_runtime_error ex
          then bind_eff (string_of_ptr (xml_Attribute ''uuid'' e)) (\<lambda>uuid.
               bind_eff (string_of_ptr (xml_Attribute ''name'' e)) (\<lambda>name.
                 rethrow_in ''component'' False [(''name'', name)]
                   (Runtime_error (''UUID format invalid in '' @ dquote @ ''uuid'' @ dquote @ '': '' @ uuid))))
          else throw_eff ex)"

definition configure_configure_element ::
  "'p Platform_scheme \<Rightarrow> 'f FloatConversions_scheme \<Rightarrow> AliasContext \<Rightarrow> (xml \<Rightarrow> bool) \<Rightarrow> uuid \<Rightarrow> nat option \<Rightarrow> xml \<Rightarrow>
     ('a PropertyMemory_scheme, exn, XPCFErrorCode) eff" where
  "configure_configure_element pf fc aliases xmlNodePredicate componentUUID root e =
     catch_eff
       (bind_eff (string_of_ptr (xml_Attribute ''component'' e)) (\<lambda>componentAttrValue.
        bind_eff (lift_eff (if AliasManager_aliasExists AliasComponent componentAttrValue aliases
                            then AliasManager_resolveComponentAlias componentAttrValue aliases
                            else toUUID (pf_uuid_of_string pf) componentAttrValue)) (\<lambda>uuid.
          if xmlNodePredicate e \<and> uuid = componentUUID then configureElement fc e root else return_eff SUCCESS)))
       (\<lambda>ex. if is_xpcf ex
          then bind_eff (string_of_ptr (xml_Attribute ''component'' e)) (\<lambda>c. rethrow_in ''configure'' True [(''component'', c)] ex)
          else if is_runtime_error ex
          then bind_eff (string_of_ptr (xml_Attribute ''component'' e)) (\<lambda>c.
                 rethrow_in ''configure'' False []
                   (Runtime_error (''UUID format invalid in '' @ dquote @ ''component'' @ dquote @ '':'' @ c)))
          else throw_eff ex)"

definition PropertyManager_configure_if ::
  "'p Platform_scheme \<Rightarrow> 'f FloatConversions_scheme \<Rightarrow> AliasContext \<Rightarrow> (xml \<Rightarrow> bool) \<Rightarrow> uuid \<Rightarrow> nat option \<Rightarrow> string \<Rightarrow>
     ('a PropertyMemory_scheme, exn, XPCFErrorCode) eff" where
  "PropertyManager_configure_if pf fc aliases xmlNodePredicate componentUUID root filepath =
     (case pf_load_xml pf filepath of
        None \<Rightarrow> return_eff SUCCESS
      | Some rootElt \<Rightarrow>
          bind_eff (case FirstChildElement ''configuration'' rootElt of
               None \<Rightarrow> return_eff SUCCESS
             | Some xmlConfigElt \<Rightarrow>
                 catch_xpcf (while_success (configure_component_element pf fc xmlNodePredicate componentUUID root)
                     (elements_named ''component'' xmlConfigElt))
                   (rethrow_in ''configuration'' True [])) (\<lambda>result.
          case FirstChildElement ''properties'' rootElt of
            None \<Rightarrow> return_eff result
          | Some xmlPropsElt \<Rightarrow>
              if result \<noteq> SUCCESS then return_eff result
              else catch_runtime (while_success (configure_configure_element pf fc aliases xmlNodePredicate componentUUID root)
                     (elements_named ''configure'' xmlPropsElt))
                   (rethrow_in ''properties'' True [])))"

definition unnamedPredicate :: "xml \<Rightarrow> bool" where
  "unnamedPredicate element \<longleftrightarrow> xml_Attribute ''name'' element = None"

definition namedPredicate :: "string \<Rightarrow> xml \<Rightarrow> bool" where
  "namedPredicate instanceName element \<longleftrightarrow> xml_Attribute ''name'' element = Some instanceName"

definition PropertyManager_configure ::
  "'p Platform_scheme \<Rightarrow> 'f FloatConversions_scheme \<Rightarrow> AliasContext \<Rightarrow> uuid \<Rightarrow> nat option \<Rightarrow> string \<Rightarrow>
     ('a PropertyMemory_scheme, exn, XPCFErrorCode) eff" where
  "PropertyManager_configure pf fc aliases = PropertyManager_configure_if pf fc aliases unnamedPredicate"

definition PropertyManager_configure_named ::
  "'p Platform_scheme \<Rightarrow> 'f FloatConversions_scheme \<Rightarrow> AliasContext \<Rightarrow> string option \<Rightarrow> uuid \<Rightarrow> nat option \<Rightarrow> string \<Rightarrow>
     ('a PropertyMemory_scheme, exn, XPCFErrorCode) eff" where
  "PropertyManager_configure_named pf fc aliases instanceName componentUUID root filepath =
     (case instanceName of
        None \<Rightarrow> return_eff ERROR_INVALID_ARGUMENT
      | Some name \<Rightarrow> PropertyManager_configure_if pf fc aliases (namedPredicate name) componentUUID root filepath)"

section \<open>Writing the properties\<close>

fun fold_eff :: "('a \<Rightarrow> 'b \<Rightarrow> ('s, 'e, 'b) eff) \<Rightarrow> 'a list \<Rightarrow> 'b \<Rightarrow> ('s, 'e, 'b) eff" where
  "fold_eff f [] y = return_eff y"
| "fold_eff f (x # xs) y = bind_eff (f x y) (fold_eff f xs)"

fun value_text :: "'f FloatConversions_scheme \<Rightarrow> property_value option \<Rightarrow> ('s, exn, string) eff" where
  "value_text fc (Some (V_int v)) = return_eff (to_string (sint v))"
| "value_text fc (Some (V_uint v)) = return_eff (to_string (uint v))"
| "value_text fc (Some (V_long v)) = return_eff (to_string (sint v))"
| "value_text fc (Some (V_ulong v)) = return_eff (to_string (uint v))"
| "value_text fc (Some (V_string v)) = return_eff v"
| "value_text fc (Some (V_float v)) = return_eff (fc_float_text fc v)"
| "value_text fc (Some (V_double v)) = return_eff (fc_double_text fc v)"
| "value_text fc (Some _) = return_eff ''''"
| "value_text fc None = throw_eff Undefined_behaviour"

text \<open>The value at an index as text: the getter of the kind, none of them for the kinds without a text.\<close>

definition serialized_value ::
  "'f FloatConversions_scheme \<Rightarrow> PropertyType \<Rightarrow> nat \<Rightarrow> nat \<Rightarrow> ('a PropertyMemory_scheme, exn, string) eff" where
  "serialized_value fc t i a =
     (if t = IProperty_NONE \<or> t = IProperty_UNICODESTR then return_eff ''''
      else bind_eff (IProperty_get t i a) (value_text fc))"

text \<open>
  The recursion follows the structures, which may contain themselves; \<open>depth\<close> is the number of calls the stack
  has room for.
\<close>

primrec serializeParameter ::
  "nat \<Rightarrow> 'f FloatConversions_scheme \<Rightarrow> nat \<Rightarrow> xml \<Rightarrow> ('a PropertyMemory_scheme, exn, xml) eff" where
  "serializeParameter 0 fc a nodeElement = throw_eff Stack_overflow"
| "serializeParameter (Suc depth) fc a nodeElement =
     bind_eff (the_property a) (\<lambda>p.
     bind_eff (gets_eff (\<lambda>s. property_size s p)) (\<lambda>n.
     bind_eff (fold_eff (\<lambda>i xmlPropertyElt.
         if property_type p = IProperty_STRUCTURE
         then bind_eff (IProperty_get IProperty_STRUCTURE i a) (\<lambda>v. case struct_ptr v of
                None \<Rightarrow> throw_eff Undefined_behaviour
              | Some m \<Rightarrow> bind_eff (PropertyMap_getProperties m) (\<lambda>properties.
                  fold_eff (serializeParameter depth fc) properties xmlPropertyElt))
         else bind_eff (serialized_value fc (property_type p) i a) (\<lambda>v.
                return_eff (if n = 1 then xml_SetAttribute ''value'' v xmlPropertyElt
                  else xml_InsertEndChild xmlPropertyElt (xml_SetText v (newElement ''value'')))))
       [0..<n]
       (xml_SetAttribute ''type'' (propertyTypeToStrMap (property_type p))
         (xml_SetAttribute ''access'' (propertyAccessToStrMap (property_access p))
           (xml_SetAttribute ''name'' (property_name p) (newElement ''property''))))) (\<lambda>xmlPropertyElt.
       return_eff (xml_InsertEndChild nodeElement xmlPropertyElt))))"

text \<open>
  \<open>save\<close> tells whether \<open>XMLDocument::SaveFile\<close> succeeds. The answer is the code returned and the document that is saved, if
  it comes to that.
\<close>

definition PropertyManager_serialize ::
  "nat \<Rightarrow> 'p Platform_scheme \<Rightarrow> 'f FloatConversions_scheme \<Rightarrow> (string \<Rightarrow> xml \<Rightarrow> bool) \<Rightarrow> uuid \<Rightarrow> nat \<Rightarrow> string \<Rightarrow>
     ('a PropertyMemory_scheme, exn, XPCFErrorCode \<times> xml option) eff" where
  "PropertyManager_serialize depth pf fc save componentUUID root filepath =
     (let xmlRoot = (case pf_load_xml pf filepath of Some rootElt \<Rightarrow> rootElt | None \<Rightarrow> newElement ''xpcf-configuration'') in
      catch_runtime
        (bind_eff (PropertyMap_getProperties root) (\<lambda>properties.
         bind_eff (fold_eff (serializeParameter depth fc) properties
             (xml_SetAttribute ''component'' (pf_string_of_uuid pf componentUUID) (newElement ''configure''))) (\<lambda>xmlComponentElt.
         let doc = xml_InsertEndChild xmlRoot (xml_InsertEndChild (newElement ''properties'') xmlComponentElt) in
           return_eff (if save filepath doc then SUCCESS else FAIL, Some doc))))
        (\<lambda>e. return_eff (if is_xpcf e then getErrorCode e else FAIL, None)))"

section \<open>Which elements configure a component\<close>

definition component_of_attribute :: "'p Platform_scheme \<Rightarrow> AliasContext \<Rightarrow> string \<Rightarrow> uuid option" where
  "component_of_attribute pf aliases t =
     (if AliasManager_aliasExists AliasComponent t aliases then componentResolverMap aliases t else pf_uuid_of_string pf t)"

text \<open>
  The elements for a component, in the order they apply: those of \<open><configuration>\<close>, then those of \<open><properties>\<close>.
\<close>

definition selected_components :: "'p Platform_scheme \<Rightarrow> (xml \<Rightarrow> bool) \<Rightarrow> uuid \<Rightarrow> xml \<Rightarrow> xml list" where
  "selected_components pf select u e =
     filter (\<lambda>x. select x \<and> Option.bind (xml_Attribute ''uuid'' x) (pf_uuid_of_string pf) = Some u) (elements_named ''component'' e)"

definition selected_configures :: "'p Platform_scheme \<Rightarrow> AliasContext \<Rightarrow> (xml \<Rightarrow> bool) \<Rightarrow> uuid \<Rightarrow> xml \<Rightarrow> xml list" where
  "selected_configures pf aliases select u e =
     filter (\<lambda>x. select x \<and> Option.bind (xml_Attribute ''component'' x) (component_of_attribute pf aliases) = Some u)
       (elements_named ''configure'' e)"

text \<open>
  How an outcome of the elements reaches the caller: an exception of the library becomes a \<open>ConfigurationException\<close> whose text
  quotes it, every other result is passed on. The elements throw no plain \<open>std::runtime_error\<close>.
\<close>

definition reported :: "(exn + 'r) \<times> 's \<Rightarrow> (exn + 'r) \<times> 's \<Rightarrow> bool" where
  "reported inner outer \<longleftrightarrow> snd outer = snd inner \<and>
     (case fst inner of
        Inr r \<Rightarrow> fst outer = Inr r
      | Inl e \<Rightarrow> \<exists>e'. fst outer = Inl e' \<and> (if is_xpcf e then \<exists>w. e' = Xpcf ConfigurationException w FAIL
                 else is_runtime_error e \<or> e' = e))"

lemma reported_bind:
  assumes "reported (m s) (m' s)" and "\<And>x t. reported (k x t) (k' x t)"
  shows "reported (bind_eff m k s) (bind_eff m' k' s)"
proof -
  obtain r t where m: "m s = (r, t)" by fastforce
  obtain r' where m': "m' s = (r', t)"
    using assms(1) m by (cases "m' s") (simp add: reported_def)
  show ?thesis
  proof (cases r)
    case (Inr x)
    with m m' assms show ?thesis by (simp add: reported_def eff_simps)
  next
    case (Inl e)
    with m m' assms(1) show ?thesis
      by (cases r') (auto simp: reported_def eff_simps split: if_splits)
  qed
qed

lemma reported_refl_return [simp]: "reported (return_eff x s) (return_eff x s)"
  by (simp add: reported_def eff_simps)

text \<open>A handler that wraps the exceptions of the library and passes on those that are no \<open>std::runtime_error\<close>.\<close>

definition followed :: "(exn + 'r) \<times> 's \<Rightarrow> (exn + 'r) \<times> 's \<Rightarrow> bool" where
  "followed inner outer \<longleftrightarrow> snd outer = snd inner \<and>
     (case fst inner of
        Inr r \<Rightarrow> fst outer = Inr r
      | Inl e \<Rightarrow> \<exists>e'. fst outer = Inl e' \<and> (if is_xpcf e then is_xpcf e' else is_runtime_error e \<or> e' = e))"

lemma followed_refl [simp]: "followed r r"
  by (cases "fst r") (auto simp: followed_def)

lemma reported_followed: "reported r q \<Longrightarrow> followed r q"
  by (auto simp: followed_def reported_def split: sum.splits if_splits)

lemma catch_reported:
  assumes "followed r (m s)" and "\<And>e t. is_xpcf e \<Longrightarrow> \<exists>w. h e t = (Inl (Xpcf ConfigurationException w FAIL), t)"
    and "\<And>e t. \<not> is_runtime_error e \<Longrightarrow> h e t = (Inl e, t)" and "\<And>e t. snd (h e t) = t \<and> (\<exists>e'. fst (h e t) = Inl e')"
  shows "reported r (catch_eff m h s)"
proof -
  obtain q t where m: "m s = (q, t)" by fastforce
  have state: "snd (catch_eff m h s) = t"
    using m assms(4) by (cases q) (simp_all add: eff_simps)
  show ?thesis
  proof (cases "fst r")
    case (Inr x)
    with assms(1) m state show ?thesis
      by (simp add: reported_def followed_def eff_simps)
  next
    case (Inl e)
    with assms(1) m obtain e' where q: "q = Inl e'" and t: "snd r = t"
        and e': "if is_xpcf e then is_xpcf e' else is_runtime_error e \<or> e' = e"
      by (auto simp: followed_def)
    have "fst (catch_eff m h s) = fst (h e' t)"
      using m q by (simp add: eff_simps)
    then show ?thesis
      using Inl t e' state assms(2) [of e' t] assms(3) [of e' t] assms(4) [of e' t]
      by (cases "is_xpcf e"; cases "is_runtime_error e") (auto simp: reported_def)
  qed
qed

lemma rethrow_in_form: "rethrow_in tag sub attrs e t =
    (Inl (Xpcf ConfigurationException (XmlErrorMessage_write (fold (\<lambda>(n, v). XmlErrorMessage_addAttribute n v) attrs
       (newXmlErrorMessage tag (what e) sub))) FAIL), t)"
  by (simp add: rethrow_in_def eff_simps exception_of_text_def)

lemma block_reported:
  assumes "reported r (m s)" and "\<And>e. is_xpcf e \<Longrightarrow> p e" and "\<And>e. p e \<Longrightarrow> is_runtime_error e"
  shows "reported r (catch_if p m (rethrow_in tag sub attrs) s)"
  unfolding catch_if_def using assms(2,3)
  by (intro catch_reported reported_followed [OF assms(1)]) (auto simp: rethrow_in_form throw_eff_run)

lemma while_success_append:
  "while_success f (xs @ ys) s =
     bind_eff (while_success f xs) (\<lambda>result. if result = SUCCESS then while_success f ys else return_eff result) s"
  by (induction xs arbitrary: s) (auto simp: eff_simps split: prod.splits sum.splits)

lemma while_success_reported:
  assumes "\<And>x s. x \<in> set xs \<Longrightarrow> if select x then reported (f x s) (g x s) else g x s = (Inr SUCCESS, s)"
  shows "reported (while_success f (filter select xs) s) (while_success g xs s)"
  using assms
proof (induction xs arbitrary: s)
  case (Cons x xs)
  then have IH: "reported (while_success f (filter select xs) t) (while_success g xs t)" for t
    by simp
  show ?case
  proof (cases "select x")
    case True
    with Cons.prems [of x s] IH show ?thesis
      by (auto intro: reported_bind)
  next
    case False
    with Cons.prems [of x s] IH [of s] show ?thesis
      by (simp add: eff_simps)
  qed
qed simp

lemma component_element_reported:
  assumes "Option.bind (xml_Attribute ''uuid'' e) (pf_uuid_of_string pf) \<noteq> None"
  shows "if select e \<and> Option.bind (xml_Attribute ''uuid'' e) (pf_uuid_of_string pf) = Some u
    then reported (configureElement fc e root s) (configure_component_element pf fc select u root e s)
    else configure_component_element pf fc select u root e s = (Inr SUCCESS, s)"
proof -
  from assms obtain t v where t: "xml_Attribute ''uuid'' e = Some t" "pf_uuid_of_string pf t = Some v"
    by (auto simp: bind_eq_Some_conv)
  show ?thesis
  proof (cases "select e \<and> v = u")
    case True
    with t have "reported (configureElement fc e root s) (configure_component_element pf fc select u root e s)"
      unfolding configure_component_element_def
      by (intro catch_reported) (auto simp: eff_simps toUUID_def rethrow_in_form split: option.splits)
    with True t show ?thesis by simp
  next
    case False
    with t show ?thesis
      by (simp add: configure_component_element_def eff_simps toUUID_def)
  qed
qed

lemma configure_element_reported:
  assumes "Option.bind (xml_Attribute ''component'' e) (component_of_attribute pf aliases) \<noteq> None"
  shows "if select e \<and> Option.bind (xml_Attribute ''component'' e) (component_of_attribute pf aliases) = Some u
    then reported (configureElement fc e root s) (configure_configure_element pf fc aliases select u root e s)
    else configure_configure_element pf fc aliases select u root e s = (Inr SUCCESS, s)"
proof -
  from assms obtain t v where t: "xml_Attribute ''component'' e = Some t" "component_of_attribute pf aliases t = Some v"
    by (auto simp: bind_eq_Some_conv)
  then have found: "(if AliasManager_aliasExists AliasComponent t aliases then AliasManager_resolveComponentAlias t aliases
      else toUUID (pf_uuid_of_string pf) t) = Inr v"
    by (auto simp: component_of_attribute_def toUUID_def AliasManager_resolveComponentAlias_def AliasManager_resolveAlias_def
        split: if_splits)
  show ?thesis
  proof (cases "select e \<and> v = u")
    case True
    with t have "reported (configureElement fc e root s) (configure_configure_element pf fc aliases select u root e s)"
      unfolding configure_configure_element_def
      by (intro catch_reported) (auto simp: eff_simps found rethrow_in_form simp del: AliasManager_aliasExists.simps)
    with True t show ?thesis by simp
  next
    case False
    with t show ?thesis
      by (auto simp: configure_configure_element_def eff_simps found simp del: AliasManager_aliasExists.simps)
  qed
qed

lemma selected_reported:
  assumes "\<And>x. x \<in> set (elements_named ''component'' e) \<Longrightarrow> Option.bind (xml_Attribute ''uuid'' x) (pf_uuid_of_string pf) \<noteq> None"
  shows "reported (while_success (\<lambda>x. configureElement fc x root) (selected_components pf select u e) s)
    (while_success (configure_component_element pf fc select u root) (elements_named ''component'' e) s)"
  unfolding selected_components_def using component_element_reported assms by (intro while_success_reported) blast

lemma selected_configures_reported:
  assumes "\<And>x. x \<in> set (elements_named ''configure'' e) \<Longrightarrow>
    Option.bind (xml_Attribute ''component'' x) (component_of_attribute pf aliases) \<noteq> None"
  shows "reported (while_success (\<lambda>x. configureElement fc x root) (selected_configures pf aliases select u e) s)
    (while_success (configure_configure_element pf fc aliases select u root) (elements_named ''configure'' e) s)"
  unfolding selected_configures_def using configure_element_reported assms by (intro while_success_reported) blast

section \<open>What is written is read back\<close>

text \<open>The kinds whose text is exact.\<close>

definition exact_kinds :: "PropertyType set" where
  "exact_kinds = {IProperty_INTEGER, IProperty_UINTEGER, IProperty_LONG, IProperty_ULONG, IProperty_CHARSTR}"

fun plain_text :: "property_value \<Rightarrow> string" where
  "plain_text (V_int v) = to_string (sint v)"
| "plain_text (V_uint v) = to_string (uint v)"
| "plain_text (V_long v) = to_string (sint v)"
| "plain_text (V_ulong v) = to_string (uint v)"
| "plain_text (V_string v) = v"
| "plain_text v = ''''"

text \<open>The values behind a wrapper, and what it takes for them to be read back: an empty string is refused.\<close>

fun wrapped_values :: "'a PropertyMemory_scheme \<Rightarrow> IProperty \<Rightarrow> property_value list" where
  "wrapped_values s (PropertyWrapper w) = [pm_variables s (pw_variable w)]"
| "wrapped_values s (PropertySequenceWrapper w) = pm_sequences s (pw_variable w)"
| "wrapped_values s (Property d) = []"

fun is_wrapper :: "IProperty \<Rightarrow> bool" where
  "is_wrapper (Property d) = False"
| "is_wrapper _ = True"

definition restorable :: "'a PropertyMemory_scheme \<Rightarrow> PropertyMapData \<Rightarrow> nat \<Rightarrow> bool" where
  "restorable s d a \<longleftrightarrow> (\<exists>p. pm_properties s a = Some p \<and> is_wrapper p \<and> property_name p \<noteq> '''' \<and>
     m_propertyMap d (property_name p) = Some a \<and> property_type p \<in> exact_kinds \<and>
     (\<forall>v \<in> set (wrapped_values s p). value_kind v = property_type p \<and> v \<noteq> V_string ''''))"

text \<open>The variables and sequences of the listed properties as in \<open>s\<close>, all else as in \<open>t\<close>.\<close>

definition variables_of :: "'a PropertyMemory_scheme \<Rightarrow> nat list \<Rightarrow> nat set" where
  "variables_of s as = {pw_variable w | w a. a \<in> set as \<and> pm_properties s a = Some (PropertyWrapper w)}"

definition sequences_of :: "'a PropertyMemory_scheme \<Rightarrow> nat list \<Rightarrow> nat set" where
  "sequences_of s as = {pw_variable w | w a. a \<in> set as \<and> pm_properties s a = Some (PropertySequenceWrapper w)}"

definition restored :: "'a PropertyMemory_scheme \<Rightarrow> nat list \<Rightarrow> 'b PropertyMemory_scheme \<Rightarrow> 'b PropertyMemory_scheme" where
  "restored s as t = t\<lparr>
     pm_variables := (\<lambda>c. if c \<in> variables_of s as then pm_variables s c else pm_variables t c),
     pm_sequences := (\<lambda>c. if c \<in> sequences_of s as then pm_sequences s c else pm_sequences t c)\<rparr>"

definition property_element :: "'a PropertyMemory_scheme \<Rightarrow> IProperty \<Rightarrow> xml" where
  "property_element s p =
     (let vs = wrapped_values s p;
          attrs = [(''name'', property_name p), (''access'', propertyAccessToStrMap (property_access p)),
                   (''type'', propertyTypeToStrMap (property_type p))]
      in if length vs = 1 then Element ''property'' (attrs @ [(''value'', plain_text (hd vs))]) []
         else Element ''property'' attrs (map (\<lambda>v. Element ''value'' [] [Text (plain_text v)]) vs))"

lemma fold_eff_pure: "(\<And>x y. x \<in> set xs \<Longrightarrow> f x y s = (Inr (g x y), s)) \<Longrightarrow> fold_eff f xs y s = (Inr (fold g xs y), s)"
  by (induction xs arbitrary: y) (auto simp: eff_simps)

lemma fold_insert_children:
  "fold (\<lambda>x e. xml_InsertEndChild e (h x)) xs (Element n attrs cs) = Element n attrs (cs @ map h xs)"
  by (induction xs arbitrary: cs) auto

lemma value_text_exact: "value_kind v \<in> exact_kinds \<Longrightarrow> value_text fc (Some v) s = (Inr (plain_text v), s)"
  by (cases v) (auto simp: exact_kinds_def eff_simps)

lemma serialized_value_wrapper:
  assumes "pm_properties s a = Some p" and "is_wrapper p" and "property_type p \<in> exact_kinds"
    and "i < length (wrapped_values s p)" and "value_kind (wrapped_values s p ! i) = property_type p"
  shows "serialized_value fc (property_type p) i a s = (Inr (plain_text (wrapped_values s p ! i)), s)"
proof -
  have "IProperty_get (property_type p) i a s = (Inr (Some (wrapped_values s p ! i)), s)"
    using assms by (cases p) (auto simp: interface_simps)
  then show ?thesis
    using assms(3,5) value_text_exact [of "wrapped_values s p ! i" fc s]
    by (auto simp: serialized_value_def eff_simps exact_kinds_def)
qed

lemma length_wrapped_values: "is_wrapper p \<Longrightarrow> property_size s p = length (wrapped_values s p)"
  by (cases p) auto

lemma serializeParameter_wrapper:
  assumes "restorable s d a" and "pm_properties s a = Some p"
  shows "serializeParameter (Suc depth) fc a node s = (Inr (xml_InsertEndChild node (property_element s p)), s)"
proof -
  let ?vs = "wrapped_values s p"
  have p: "is_wrapper p" "property_type p \<in> exact_kinds" "\<And>v. v \<in> set ?vs \<Longrightarrow> value_kind v = property_type p"
    using assms by (auto simp: restorable_def)
  then have vs: "serialized_value fc (property_type p) i a s = (Inr (plain_text (?vs ! i)), s)" if "i < length ?vs" for i
    using that assms(2) by (intro serialized_value_wrapper) auto
  have kind: "property_type p \<noteq> IProperty_STRUCTURE"
    using p(2) by (auto simp: exact_kinds_def)
  let ?put = "\<lambda>i e. if length ?vs = 1 then xml_SetAttribute ''value'' (plain_text (?vs ! i)) e
    else xml_InsertEndChild e (xml_SetText (plain_text (?vs ! i)) (newElement ''value''))"
  let ?start = "xml_SetAttribute ''type'' (propertyTypeToStrMap (property_type p))
         (xml_SetAttribute ''access'' (propertyAccessToStrMap (property_access p))
           (xml_SetAttribute ''name'' (property_name p) (newElement ''property'')))"
  have "map (\<lambda>i. Element ''value'' [] [Text (plain_text (?vs ! i))]) [0..<length ?vs]
      = map (\<lambda>v. Element ''value'' [] [Text (plain_text v)]) ?vs"
    by (rule nth_equalityI) auto
  then have "fold ?put [0..<length ?vs] ?start = property_element s p"
    by (cases "length ?vs = 1") (auto simp: property_element_def newElement_def fold_insert_children hd_conv_nth Let_def)
  moreover have "fold_eff (\<lambda>i e. bind_eff (serialized_value fc (property_type p) i a) (\<lambda>v.
      return_eff (if length ?vs = 1 then xml_SetAttribute ''value'' v e
        else xml_InsertEndChild e (xml_SetText v (newElement ''value''))))) [0..<length ?vs] ?start s
      = (Inr (fold ?put [0..<length ?vs] ?start), s)"
    by (rule fold_eff_pure) (simp add: eff_simps vs)
  ultimately show ?thesis
    using assms(2) p(1) kind by (simp add: eff_simps the_property_def length_wrapped_values)
qed

lemma serialize_all:
  assumes "\<And>a. a \<in> set as \<Longrightarrow> restorable s d a"
  shows "fold_eff (serializeParameter (Suc depth) fc) as (Element n attrs cs) s =
    (Inr (Element n attrs (cs @ map (\<lambda>a. property_element s (the (pm_properties s a))) as)), s)"
  using assms
proof (induction as arbitrary: cs)
  case (Cons a as)
  have "restorable s d a"
    using Cons.prems by simp
  then obtain p where p: "pm_properties s a = Some p"
    by (auto simp: restorable_def)
  with Cons serializeParameter_wrapper [of s d a p depth fc] show ?case
    by (simp add: eff_simps del: serializeParameter.simps)
qed (simp add: eff_simps)
lemma narrow_scast [simp]: "ucast (scast (w :: 32 word) :: 64 word) = w"
  by (rule bit_word_eqI) (auto simp: bit_simps)

lemma narrow_ucast [simp]: "ucast (ucast (w :: 32 word) :: 64 word) = w"
  by (rule bit_word_eqI) (auto simp: bit_simps)

lemma set_exact:
  assumes "pm_properties t a = Some p" and "is_wrapper p" and "property_type p \<in> exact_kinds" and "value_kind v = property_type p"
    and "v \<noteq> V_string ''''" and "IProperty_set (property_type p) (Some v) i a t = (Inr (), t')" and "pm_properties t' = pm_properties t"
  shows "configureValue fc (plain_text v) a i t = (Inr SUCCESS, t')"
proof -
  have ty: "type_of a u = (Inr (property_type p), u)" if "pm_properties u = pm_properties t" for u
    using that assms(1) by (simp add: type_of_def interface_simps)
  note set = assms(6)
  show ?thesis
    using assms(2-5) set ty [of t] ty [OF assms(7)]
    by (cases v) (auto simp: configureValue_def eff_simps set_converted_def exact_kinds_def signed_to_string signed_to_string_32
        unsigned_to_string unsigned_to_string_32)
qed

lemma configure_variable:
  assumes "pm_properties t a = Some (PropertyWrapper w)" and "pw_type w \<in> exact_kinds" and "value_kind v = pw_type w"
    and "v \<noteq> V_string ''''"
  shows "configureValue fc (plain_text v) a 0 t = (Inr SUCCESS, t\<lparr>pm_variables := (pm_variables t)(pw_variable w := v)\<rparr>)"
  using assms by (intro set_exact [where p = "PropertyWrapper w"]) (simp_all add: interface_simps)

lemma configure_item:
  assumes "pm_properties t a = Some (PropertySequenceWrapper w)" and "pw_type w \<in> exact_kinds" and "value_kind v = pw_type w"
    and "v \<noteq> V_string ''''" and "i < length (pm_sequences t (pw_variable w))"
  shows "configureValue fc (plain_text v) a i t =
    (Inr SUCCESS, t\<lparr>pm_sequences := (pm_sequences t)(pw_variable w := (pm_sequences t (pw_variable w))[i := v])\<rparr>)"
  using assms by (intro set_exact [where p = "PropertySequenceWrapper w"]) (simp_all add: interface_simps)

lemma configure_items:
  assumes "pm_properties t a = Some (PropertySequenceWrapper w)" and "pw_type w \<in> exact_kinds"
    and "\<And>v. v \<in> set vs \<Longrightarrow> value_kind v = pw_type w \<and> v \<noteq> V_string ''''"
    and "i + length vs = length (pm_sequences t (pw_variable w))"
  shows "while_success (\<lambda>(index, e). bind_eff (string_of_ptr (xml_GetText e)) (\<lambda>text. configureValue fc text a index))
      (enumerate i (map (\<lambda>v. Element ''value'' [] [Text (plain_text v)]) vs)) t =
    (Inr SUCCESS, t\<lparr>pm_sequences := (pm_sequences t)(pw_variable w := take i (pm_sequences t (pw_variable w)) @ vs)\<rparr>)"
  using assms
proof (induction vs arbitrary: i t)
  case Nil
  then show ?case by (simp add: eff_simps)
next
  case (Cons v vs)
  let ?xs = "pm_sequences t (pw_variable w)"
  let ?t = "t\<lparr>pm_sequences := (pm_sequences t)(pw_variable w := ?xs[i := v])\<rparr>"
  have "configureValue fc (plain_text v) a i t = (Inr SUCCESS, ?t)"
    using Cons.prems by (intro configure_item) auto
  moreover have "take (Suc i) (?xs[i := v]) = take i ?xs @ [v]"
    using Cons.prems(4) by (simp add: take_Suc_conv_app_nth)
  ultimately show ?case
    using Cons.IH [of ?t "Suc i"] Cons.prems by (simp add: eff_simps xml_GetText_def fun_upd_def cong: if_cong)
qed

text \<open>A property element written for a wrapper sets what is behind it again.\<close>

lemma configureProperty_wrapper:
  assumes "restorable s d a" and "pm_properties s a = Some p" and "pm_maps t root = Some d"
    and "pm_properties t = pm_properties s" and "\<And>c. length (pm_sequences t c) = length (pm_sequences s c)"
  shows "configureProperty fc (property_element s p) root t = (Inr SUCCESS, restored s [a] t)"
proof -
  have p: "is_wrapper p" "property_name p \<noteq> ''''" "m_propertyMap d (property_name p) = Some a" "property_type p \<in> exact_kinds"
    "\<And>v. v \<in> set (wrapped_values s p) \<Longrightarrow> value_kind v = property_type p \<and> v \<noteq> V_string ''''"
    using assms(1,2) by (auto simp: restorable_def)
  have ty: "propertyTypeToStrMap (property_type p) \<noteq> ''''" "propertyTypeToStrMap (property_type p) \<noteq> ''structure''"
    using p(4) by (auto simp: exact_kinds_def)
  have at: "PropertyMap_at root (property_name p) t = (Inr (Some a), t)"
    using assms(3) p(3) by (simp add: PropertyMap_at_def the_map_def eff_simps)
  let ?vs = "wrapped_values s p"
  have "(if length ?vs = 1 then configureValue fc (plain_text (hd ?vs)) a 0
      else configureValues fc a (map (\<lambda>v. Element ''value'' [] [Text (plain_text v)]) ?vs)) t = (Inr SUCCESS, restored s [a] t)"
  proof (cases p)
    case (PropertyWrapper w)
    with p assms(2,4) have "configureValue fc (plain_text (pm_variables s (pw_variable w))) a 0 t =
        (Inr SUCCESS, t\<lparr>pm_variables := (pm_variables t)(pw_variable w := pm_variables s (pw_variable w))\<rparr>)"
      by (intro configure_variable) auto
    with PropertyWrapper assms(2) show ?thesis
      by (simp add: restored_def variables_of_def sequences_of_def fun_upd_def cong: if_cong)
  next
    case (PropertySequenceWrapper w)
    have items: "configureValues fc a (map (\<lambda>v. Element ''value'' [] [Text (plain_text v)]) ?vs) t =
        (Inr SUCCESS, t\<lparr>pm_sequences := (pm_sequences t)(pw_variable w := ?vs)\<rparr>)"
      using PropertySequenceWrapper p assms(2,4,5) configure_items [of t a w ?vs 0 fc]
      by (simp add: configureValues_def)
    have one: "configureValue fc (plain_text (hd ?vs)) a 0 t =
        (Inr SUCCESS, t\<lparr>pm_sequences := (pm_sequences t)(pw_variable w := ?vs)\<rparr>)" if "length ?vs = 1"
    proof -
      from that obtain v where "?vs = [v]"
        by (cases ?vs) auto
      moreover from that PropertySequenceWrapper assms(5) [of "pw_variable w"]
      obtain y where "pm_sequences t (pw_variable w) = [y]"
        by (cases "pm_sequences t (pw_variable w)") auto
      ultimately show ?thesis
        using PropertySequenceWrapper p assms(2,4) configure_item [of t a w v 0 fc] by simp
    qed
    have "restored s [a] t = t\<lparr>pm_sequences := (pm_sequences t)(pw_variable w := ?vs)\<rparr>"
      using PropertySequenceWrapper assms(2) by (simp add: restored_def variables_of_def sequences_of_def fun_upd_def cong: if_cong)
    with items one show ?thesis by simp
  qed (use p in simp)
  then show ?thesis
    using p(2) ty at
    by (auto simp: configureProperty.simps property_element_def attr_or_empty_def Let_def eff_simps elements_named_def
        filter_True split: if_splits)
qed

lemma restored_split: "restored s as (restored s [a] t) = restored s (a # as) t"
proof -
  have "variables_of s (a # as) = variables_of s as \<union> variables_of s [a]" "sequences_of s (a # as) = sequences_of s as \<union> sequences_of s [a]"
    by (auto simp: variables_of_def sequences_of_def)
  then show ?thesis
    by (simp add: restored_def disj_imp cong: if_cong) (auto intro!: arg_cong2 [where f = "\<lambda>v q. t\<lparr>pm_variables := v, pm_sequences := q\<rparr>"])
qed

lemma restored_fields:
  assumes "\<And>c. length (pm_sequences t c) = length (pm_sequences s c)"
  shows "pm_properties (restored s as t) = pm_properties t" and "pm_maps (restored s as t) = pm_maps t"
    and "length (pm_sequences (restored s as t) c) = length (pm_sequences s c)"
  using assms by (auto simp: restored_def)

lemma configure_all:
  assumes "\<And>a. a \<in> set as \<Longrightarrow> restorable s d a" and "pm_maps t root = Some d" and "pm_properties t = pm_properties s"
    and "\<And>c. length (pm_sequences t c) = length (pm_sequences s c)"
  shows "while_success (\<lambda>e. configureProperty fc e root) (map (\<lambda>a. property_element s (the (pm_properties s a))) as) t
    = (Inr SUCCESS, restored s as t)"
  using assms
proof (induction as arbitrary: t)
  case Nil
  then show ?case by (simp add: eff_simps restored_def variables_of_def sequences_of_def)
next
  case (Cons a as)
  have "restorable s d a"
    using Cons.prems(1) by simp
  moreover from this obtain p where "pm_properties s a = Some p"
    by (auto simp: restorable_def)
  ultimately have "configureProperty fc (property_element s (the (pm_properties s a))) root t = (Inr SUCCESS, restored s [a] t)"
    using configureProperty_wrapper [of s d a p t root fc] Cons.prems by simp
  moreover have "while_success (\<lambda>e. configureProperty fc e root) (map (\<lambda>a. property_element s (the (pm_properties s a))) as)
      (restored s [a] t) = (Inr SUCCESS, restored s (a # as) t)"
    using Cons.IH [of "restored s [a] t"] Cons.prems restored_fields [OF Cons.prems(4)] by (simp add: restored_split)
  ultimately show ?case
    by (simp add: eff_simps)
qed

lemma property_element_named: "is_element_named ''property'' (property_element s p)"
  by (simp add: property_element_def Let_def)

text \<open>The document written for the properties at the addresses \<open>as\<close>, when the file is new.\<close>

definition component_document :: "'p Platform_scheme \<Rightarrow> uuid \<Rightarrow> 'a PropertyMemory_scheme \<Rightarrow> nat list \<Rightarrow> xml" where
  "component_document pf u s as = Element ''xpcf-configuration'' [] [Element ''properties'' []
     [Element ''configure'' [(''component'', pf_string_of_uuid pf u)] (map (\<lambda>a. property_element s (the (pm_properties s a))) as)]]"

lemma serialize_document:
  assumes "pm_maps s root = Some d" and "\<And>a. a \<in> set (m_collectionPropertyMap d) \<Longrightarrow> restorable s d a"
    and "pf_load_xml pf path = None"
  shows "PropertyManager_serialize (Suc depth) pf fc save u root path s =
    (Inr (if save path (component_document pf u s (m_collectionPropertyMap d)) then SUCCESS else FAIL,
       Some (component_document pf u s (m_collectionPropertyMap d))), s)"
  using assms(1,3) serialize_all [where as = "m_collectionPropertyMap d" and fc = fc, OF assms(2)]
  by (simp add: PropertyManager_serialize_def PropertyMap_getProperties_def the_map_def eff_simps newElement_def component_document_def
      del: serializeParameter.simps)

lemma configure_document:
  assumes "pm_maps s root = Some d" and "\<And>a. a \<in> set (m_collectionPropertyMap d) \<Longrightarrow> restorable s d a"
    and "pm_maps t = pm_maps s" and "pm_properties t = pm_properties s"
    and "\<And>c. length (pm_sequences t c) = length (pm_sequences s c)"
    and "pf_load_xml pf path = Some (component_document pf' u s (m_collectionPropertyMap d))"
    and "pf_uuid_of_string pf (pf_string_of_uuid pf' u) = Some u" and "componentResolverMap aliases (pf_string_of_uuid pf' u) = None"
  shows "PropertyManager_configure pf fc aliases u (Some root) path t = (Inr SUCCESS, restored s (m_collectionPropertyMap d) t)"
proof -
  let ?elements = "map (\<lambda>a. property_element s (the (pm_properties s a))) (m_collectionPropertyMap d)"
  let ?configure = "Element ''configure'' [(''component'', pf_string_of_uuid pf' u)] ?elements"
  have "elements_named ''property'' ?configure = ?elements"
    by (auto simp: elements_named_def property_element_named intro!: filter_True)
  then have "configureElement fc ?configure (Some root) t = (Inr SUCCESS, restored s (m_collectionPropertyMap d) t)"
    using configure_all [where as = "m_collectionPropertyMap d" and fc = fc and t = t, OF assms(2)] assms(1,3,4,5) by (simp add: configureElement.simps)
  then have "configure_configure_element pf fc aliases unnamedPredicate u (Some root) ?configure t =
      (Inr SUCCESS, restored s (m_collectionPropertyMap d) t)"
    using assms(7,8) by (simp add: configure_configure_element_def eff_simps unnamedPredicate_def toUUID_def aliasExistsIn_def)
  then show ?thesis
    using assms(6)
    by (simp add: component_document_def PropertyManager_configure_def PropertyManager_configure_if_def FirstChildElement_def elements_named_def
        eff_simps)
qed

section \<open>Witnesses\<close>

definition sample_floats :: FloatConversions where
  "sample_floats = \<lparr>fc_stof = (\<lambda>_. Inl (Invalid_argument ''stof'')), fc_stod = (\<lambda>_. Inl (Invalid_argument ''stod'')),
     fc_float_text = (\<lambda>_. ''0.000000''), fc_double_text = (\<lambda>_. ''0.000000'')\<rparr>"

definition sample_configuration :: xml where
  "sample_configuration = Element ''xpcf-configuration'' [] [Element ''properties'' []
     [Element ''configure'' [(''component'', ''u-m'')] [Element ''property'' [] []],
      Element ''configure'' [(''component'', ''u-c'')]
        [Element ''property'' [(''name'', ''count''), (''type'', ''int''), (''value'', ''0x10'')] []]]]"


end
