(* ===== verification/Xpcf_GenConfig.thy ===== *)
theory Xpcf_GenConfig
  imports Xpcf_GenCpp Xpcf_GrpcHelper Xpcf_Configure
begin

text \<open>
  The configuration files of the generated components: \<open>XmlBlockManager\<close> and \<open>xml_block_guard\<close> of
  \<^verbatim>\<open>tools/generators/grpc/XmlHelpers.h\<close>, \<^verbatim>\<open>XpcfConfigGenerator.cpp\<close>, and the chain of generators of
  \<^verbatim>\<open>AbstractGenerator.h\<close>. The generator writes text through four block managers; the lemmas say which XML trees the
  text spells, and follow the property files through the model of the property manager into the generated components.
\<close>

section \<open>Blocks of XML\<close>

datatype XML =
    XML_REGISTRY | XML_CONFIG | XML_MODULE | XML_COMPONENT | XML_INTERFACE | XML_ALIASES | XML_FACTORY | XML_BINDINGS
  | XML_BIND | XML_PROPERTIES | XML_CONFIGURE | XML_PROPERTY

type_synonym xml_attributes = "(string \<times> string) list"

text \<open>\<open>xm_out\<close> is the text of the stream the manager refers to.\<close>

record XmlBlockManager =
  xm_indentLevel :: nat
  xm_out :: string
  xm_rootName :: string
  xm_blockNameStack :: "string list"

definition newXmlBlockManager :: XmlBlockManager where
  "newXmlBlockManager = \<lparr>xm_indentLevel = 0, xm_out = '''', xm_rootName = '''', xm_blockNameStack = []\<rparr>"

definition xml_margin :: "nat \<Rightarrow> string" where
  "xml_margin n = concat (replicate n ''  '')"

definition xml_indent :: "XmlBlockManager \<Rightarrow> string" where
  "xml_indent b = xml_margin (xm_indentLevel b)"

fun attributes_text :: "xml_attributes \<Rightarrow> string" where
  "attributes_text [] = ''''"
| "attributes_text ((attrName, attrValue) # as) = '' '' @ attrName @ [CHR ''='', CHR 0x22] @ attrValue @ [CHR 0x22] @ attributes_text as"

definition xml_enter_named :: "string \<Rightarrow> xml_attributes \<Rightarrow> XmlBlockManager gen" where
  "xml_enter_named nodeName attributes = modify_eff (\<lambda>b.
     let b1 = b\<lparr>xm_blockNameStack := nodeName # xm_blockNameStack b\<rparr>;
         t = xml_indent b1 @ ''<'' @ nodeName @ attributes_text attributes @ ''>'' @ nl;
         b2 = b1\<lparr>xm_indentLevel := Suc (xm_indentLevel b1)\<rparr>
     in b2\<lparr>xm_out := xm_out b2 @ t\<rparr>)"

definition xml_node_named :: "string \<Rightarrow> xml_attributes \<Rightarrow> XmlBlockManager gen" where
  "xml_node_named nodeName attributes = modify_eff (\<lambda>b.
     b\<lparr>xm_out := xm_out b @ xml_indent b @ ''<'' @ nodeName @ attributes_text attributes @ ''/>'' @ nl\<rparr>)"

text \<open>Some blocks take no attributes, whatever they are given.\<close>

fun xml_enter :: "XML \<Rightarrow> xml_attributes \<Rightarrow> XmlBlockManager gen" where
  "xml_enter XML_REGISTRY as = xml_enter_named ''xpcf-registry'' as"
| "xml_enter XML_CONFIG as = xml_enter_named ''xpcf-configuration'' as"
| "xml_enter XML_MODULE as = xml_enter_named ''module'' as"
| "xml_enter XML_COMPONENT as = xml_enter_named ''component'' as"
| "xml_enter XML_INTERFACE as = xml_enter_named ''interface'' as"
| "xml_enter XML_ALIASES as = xml_enter_named ''aliases'' []"
| "xml_enter XML_FACTORY as = xml_enter_named ''factory'' []"
| "xml_enter XML_BINDINGS as = xml_enter_named ''bindings'' []"
| "xml_enter XML_BIND as = xml_enter_named ''bind'' as"
| "xml_enter XML_PROPERTIES as = xml_enter_named ''properties'' []"
| "xml_enter XML_CONFIGURE as = xml_enter_named ''configure'' as"
| "xml_enter XML_PROPERTY as = xml_enter_named ''property'' as"

fun xml_node :: "XML \<Rightarrow> xml_attributes \<Rightarrow> XmlBlockManager gen" where
  "xml_node XML_MODULE as = xml_node_named ''module'' as"
| "xml_node XML_COMPONENT as = xml_node_named ''component'' as"
| "xml_node XML_INTERFACE as = xml_node_named ''interface'' as"
| "xml_node XML_BIND as = xml_node_named ''bind'' as"
| "xml_node XML_CONFIGURE as = xml_node_named ''configure'' as"
| "xml_node XML_PROPERTY as = xml_node_named ''property'' as"
| "xml_node _ as = return_eff ()"

definition addValue :: "string \<Rightarrow> XmlBlockManager gen" where
  "addValue v = modify_eff (\<lambda>b. b\<lparr>xm_out := xm_out b @ xml_indent b @ ''<value>'' @ v @ ''</value>'' @ nl\<rparr>)"

definition xml_leave_named :: "string \<Rightarrow> XmlBlockManager gen" where
  "xml_leave_named nodeName = modify_eff (\<lambda>b.
     let b1 = (if xm_indentLevel b > 0 then b\<lparr>xm_indentLevel := xm_indentLevel b - 1\<rparr> else b)
     in b1\<lparr>xm_out := xm_out b1 @ xml_indent b1 @ ''</'' @ nodeName @ ''>'' @ nl\<rparr>)"

text \<open>\<open>top\<close> of an empty stack is undefined.\<close>

definition xml_leave :: "XmlBlockManager gen" where
  "xml_leave = (\<lambda>b. case xm_blockNameStack b of
     [] \<Rightarrow> (Inl Undefined_behaviour, b)
   | t # ts \<Rightarrow> xml_leave_named t (b\<lparr>xm_blockNameStack := ts\<rparr>))"

definition xmlOpenRootNode :: "string \<Rightarrow> XmlBlockManager gen" where
  "xmlOpenRootNode nodeName = run_all [
     modify_eff (\<lambda>b. b\<lparr>xm_out := xm_out b @ xml_indent b @ ''<?xml version='' @ [CHR 0x22] @ ''1.0'' @ [CHR 0x22] @
       '' encoding='' @ [CHR 0x22] @ ''UTF-8'' @ [CHR 0x22] @ '' standalone='' @ [CHR 0x22] @ ''yes'' @ [CHR 0x22] @ '' ?>'' @ nl\<rparr>),
     modify_eff (\<lambda>b. b\<lparr>xm_rootName := nodeName\<rparr>),
     xml_enter_named nodeName []]"

function xmlCloseOpenedNodes :: "XmlBlockManager gen" where
  "xmlCloseOpenedNodes b =
     (if xm_blockNameStack b = [] then (Inr (), b)
      else case xml_leave b of (Inl e, b') \<Rightarrow> (Inl e, b') | (Inr _, b') \<Rightarrow> xmlCloseOpenedNodes b')"
  by pat_completeness auto
termination
  by (relation "measure (\<lambda>b. length (xm_blockNameStack b))")
    (auto simp: xml_leave_def xml_leave_named_def eff_simps Let_def split: list.splits if_splits)

declare xmlCloseOpenedNodes.simps [simp del]

text \<open>The constructor of the guard enters the block and its destructor leaves it.\<close>

definition xml_block_guard :: "XML \<Rightarrow> xml_attributes \<Rightarrow> XmlBlockManager gen \<Rightarrow> XmlBlockManager gen" where
  "xml_block_guard t attributes body = (\<lambda>s.
     case seq_eff (xml_enter t attributes) body s of (r, s1) \<Rightarrow>
       (case xml_leave s1 of (Inl e, s2) \<Rightarrow> (Inl e, s2) | (Inr _, s2) \<Rightarrow> (r, s2)))"

section \<open>The generator\<close>

text \<open>
  The four managers of a generator and the streams they refer to: in the mode that prints they share the standard output,
  in the mode that writes files each has a file of its own, which is empty when it is opened and closed by \<open>release\<close>.
\<close>

datatype config_manager = ClientMgr | ServerMgr | ClientPropsMgr | ServerPropsMgr

datatype config_stream = Config_cout | Config_file string

record XpcfConfigGenerator =
  xg_managers :: "config_manager \<Rightarrow> XmlBlockManager"
  xg_streams :: "config_manager \<Rightarrow> config_stream"
  xg_text :: "config_stream \<Rightarrow> string"
  xg_grpcComponentBinds :: "string list"

definition on_manager :: "config_manager \<Rightarrow> XmlBlockManager gen \<Rightarrow> XpcfConfigGenerator gen" where
  "on_manager k m = (\<lambda>g.
     case m ((xg_managers g k)\<lparr>xm_out := xg_text g (xg_streams g k)\<rparr>) of (r, b) \<Rightarrow>
       (r, g\<lparr>xg_managers := (xg_managers g)(k := b), xg_text := (xg_text g)(xg_streams g k := xm_out b)\<rparr>))"

definition make_manager :: "config_manager \<Rightarrow> config_stream \<Rightarrow> XpcfConfigGenerator gen" where
  "make_manager k t = modify_eff (\<lambda>g. g\<lparr>xg_managers := (xg_managers g)(k := newXmlBlockManager),
     xg_streams := (xg_streams g)(k := t), xg_text := (if t = Config_cout then xg_text g else (xg_text g)(t := []))\<rparr>)"

definition createXmlFileManager :: "'f Filesystem_scheme \<Rightarrow> string \<Rightarrow> config_manager \<Rightarrow> string \<Rightarrow> XpcfConfigGenerator gen" where
  "createXmlFileManager fs folder k fileName = make_manager k (Config_file (fs_append fs folder fileName))"

text \<open>\<open>metadata[k]\<close>: the value, or an empty one, which is then in the map.\<close>

definition metadata_value :: "GeneratorMetadata \<Rightarrow> GeneratorMetadataType \<Rightarrow> string" where
  "metadata_value md k = (case md k of None \<Rightarrow> '''' | Some v \<Rightarrow> v)"

fun config_file_ending :: "config_manager \<Rightarrow> string" where
  "config_file_ending ClientMgr = ''Client.xml''"
| "config_file_ending ServerMgr = ''Server.xml''"
| "config_file_ending ClientPropsMgr = ''Client_properties.xml''"
| "config_file_ending ServerPropsMgr = ''Server_properties.xml''"

definition config_file_name :: "GeneratorMetadata \<Rightarrow> config_manager \<Rightarrow> string" where
  "config_file_name md k = ''xpcfGrpcRemoting'' @ metadata_value md PROJECT_NAME @ config_file_ending k"

definition module_attributes :: "GeneratorMetadata \<Rightarrow> xml_attributes" where
  "module_attributes md =
     [(''uuid'', metadata_value md MODULE_UUID), (''name'', metadata_value md MODULE_NAME),
      (''description'', metadata_value md MODULE_DESCRIPTION), (''path'', ''$REMAKENROOT/modules'')]"

definition XpcfConfigGenerator_initializeImpl ::
  "'f Filesystem_scheme \<Rightarrow> GenerateMode \<Rightarrow> string \<Rightarrow> GeneratorMetadata \<Rightarrow> XpcfConfigGenerator gen" where
  "XpcfConfigGenerator_initializeImpl fs mode folder md = run_all
     ((if mode = STD_COUT
       then [make_manager ClientMgr Config_cout, make_manager ServerMgr Config_cout,
             make_manager ClientPropsMgr Config_cout, make_manager ServerPropsMgr Config_cout]
       else [createXmlFileManager fs folder ClientMgr (config_file_name md ClientMgr),
             createXmlFileManager fs folder ServerMgr (config_file_name md ServerMgr),
             createXmlFileManager fs folder ClientPropsMgr (config_file_name md ClientPropsMgr),
             createXmlFileManager fs folder ServerPropsMgr (config_file_name md ServerPropsMgr)]) @
      [on_manager ClientMgr (xmlOpenRootNode ''xpcf-registry''),
       on_manager ClientMgr (xml_enter XML_MODULE (module_attributes md)),
       on_manager ServerMgr (xmlOpenRootNode ''xpcf-registry''),
       on_manager ServerMgr (xml_enter XML_MODULE (module_attributes md)),
       on_manager ClientPropsMgr (xmlOpenRootNode ''xpcf-configuration''),
       on_manager ClientPropsMgr (xml_enter XML_PROPERTIES []),
       on_manager ServerPropsMgr (xmlOpenRootNode ''xpcf-configuration''),
       on_manager ServerPropsMgr (xml_enter XML_PROPERTIES [])])"

definition introspect_attributes :: xml_attributes where
  "introspect_attributes = [(''uuid'', ''125f2007-1bf9-421d-9367-fbdc1210d006''), (''name'', ''XPCF::IComponentIntrospect''),
     (''description'', ''Component introspection interface'')]"

definition service_attributes :: xml_attributes where
  "service_attributes = [(''uuid'', ''baab5e42-2c24-48de-953b-07237af419e4''), (''name'', ''org::bcom::xpcf::IGrpcService''),
     (''description'', ''xpcf GrpcService interface'')]"

definition trait_attributes :: "Traits \<Rightarrow> xml_attributes" where
  "trait_attributes t = [(''uuid'', tr_uuid t), (''name'', tr_name t), (''description'', tr_description t)]"

definition component_attributes :: "string \<Rightarrow> string \<Rightarrow> xml_attributes" where
  "component_attributes u name = [(''uuid'', u), (''name'', name), (''description'', name)]"

text \<open>The lines of the property, one for the service and one for each method.\<close>

definition config_lines :: "string \<Rightarrow> string \<Rightarrow> ClassDescriptor \<Rightarrow> string list" where
  "config_lines serviceLine methodEnd c =
     serviceLine # List.map (\<lambda>m. ''method|'' @ Xpcf_GenDescriptors.md_name m @ methodEnd) (cd_virtualMethods c)"

definition property_block :: "string \<Rightarrow> string \<Rightarrow> string list \<Rightarrow> XmlBlockManager gen" where
  "property_block component name lines =
     xml_block_guard XML_CONFIGURE [(''component'', component)] (run_all [
       xml_enter XML_PROPERTY [(''name'', name), (''type'', ''string'')],
       for_eff addValue lines,
       xml_leave])"

definition XpcfConfigGenerator_generateImpl ::
  "(uuid \<Rightarrow> string) \<Rightarrow> ClassDescriptor \<Rightarrow> GeneratorMetadata \<Rightarrow> (XpcfConfigGenerator, exn, GeneratorMetadata) eff" where
  "XpcfConfigGenerator_generateImpl uuid_str c md =
     (let proxy = metadata_value md PROXY_XPCFGRPCCOMPONENTNAME; server = metadata_value md SERVER_XPCFGRPCCOMPONENTNAME;
          md1 = md(PROXY_XPCFGRPCCOMPONENTNAME \<mapsto> proxy, SERVER_XPCFGRPCCOMPONENTNAME \<mapsto> server) in
      seq_eff (run_all [
        on_manager ClientMgr (xml_block_guard XML_COMPONENT (component_attributes (uuid_str (cd_clientUUID c)) proxy) (run_all [
          xml_node XML_INTERFACE introspect_attributes,
          xml_node XML_INTERFACE (trait_attributes (cd_xpcfTrait c))])),
        on_manager ServerMgr (xml_block_guard XML_COMPONENT (component_attributes (uuid_str (cd_serverUUID c)) server) (run_all [
          xml_node XML_INTERFACE introspect_attributes,
          xml_node XML_INTERFACE service_attributes])),
        on_manager ClientPropsMgr (property_block proxy ''grpc_compress_proxy'' (config_lines ''service|none|none'' ''|none|none'' c)),
        on_manager ServerPropsMgr (property_block server ''grpc_compress_server'' (config_lines ''service|none|0'' ''|none|0'' c)),
        bind_eff (lift_eff (at_key md1 SERVER_XPCFGRPCCOMPONENTNAME)) (\<lambda>name.
          modify_eff (\<lambda>g. g\<lparr>xg_grpcComponentBinds := xg_grpcComponentBinds g @ [name]\<rparr>))])
        (return_eff md1))"

definition XpcfConfigGenerator_finalizeImpl :: "XpcfConfigGenerator gen" where
  "XpcfConfigGenerator_finalizeImpl =
     bind_eff (gets_eff xg_grpcComponentBinds) (\<lambda>bound. run_all [
       on_manager ClientMgr xml_leave,
       on_manager ServerMgr xml_leave,
       on_manager ServerMgr (xml_block_guard XML_FACTORY [] (xml_block_guard XML_BINDINGS []
         (xml_block_guard XML_BIND [(''interface'', ''org::bcom::xpcf::IGrpcService'')]
           (for_eff (\<lambda>bind. xml_node XML_COMPONENT [(''to'', bind)]) bound)))),
       on_manager ClientMgr xmlCloseOpenedNodes,
       on_manager ServerMgr xmlCloseOpenedNodes,
       on_manager ClientPropsMgr xmlCloseOpenedNodes,
       on_manager ServerPropsMgr xmlCloseOpenedNodes])"

section \<open>The chain of generators\<close>

text \<open>
  What a generator overrides, on the state \<open>'s\<close> of all of them; \<open>m_nextGenerator\<close> makes a list of the generators.
\<close>

record 's AbstractGenerator =
  ag_initializeImpl :: "GeneratorMetadata \<Rightarrow> 's gen"
  ag_generateImpl :: "ClassDescriptor \<Rightarrow> GeneratorMetadata \<Rightarrow> ('s, exn, GeneratorMetadata) eff"
  ag_validateImpl :: "ClassDescriptor \<Rightarrow> GeneratorMetadata \<Rightarrow> ('s, exn, GeneratorMetadata) eff"
  ag_finalizeImpl :: "GeneratorMetadata \<Rightarrow> 's gen"

fun generate_chain :: "'s AbstractGenerator list \<Rightarrow> ClassDescriptor \<Rightarrow> GeneratorMetadata \<Rightarrow> ('s, exn, GeneratorMetadata) eff" where
  "generate_chain [] c md = return_eff md"
| "generate_chain (g # next) c md = bind_eff (ag_generateImpl g c md) (generate_chain next c)"

fun initialize_chain :: "'s AbstractGenerator list \<Rightarrow> GeneratorMetadata \<Rightarrow> 's gen" where
  "initialize_chain [] md = return_eff ()"
| "initialize_chain (g # next) md = seq_eff (ag_initializeImpl g md) (initialize_chain next md)"

fun validate_chain :: "'s AbstractGenerator list \<Rightarrow> ClassDescriptor \<Rightarrow> GeneratorMetadata \<Rightarrow> ('s, exn, GeneratorMetadata) eff" where
  "validate_chain [] c md = return_eff md"
| "validate_chain (g # next) c md = bind_eff (ag_validateImpl g c md) (validate_chain next c)"

fun finalize_chain :: "'s AbstractGenerator list \<Rightarrow> GeneratorMetadata \<Rightarrow> 's gen" where
  "finalize_chain [] md = return_eff ()"
| "finalize_chain (g # next) md = seq_eff (ag_finalizeImpl g md) (finalize_chain next md)"

section \<open>The trees the text spells\<close>

text \<open>
  \<open>spells n ts u\<close>: \<open>u\<close> is the text of the elements \<open>ts\<close>, one after the other, each on lines of its own with the margin of
  the level \<open>n\<close>. An element without children is a node or a block with nothing in it.
\<close>

inductive spells :: "nat \<Rightarrow> xml list \<Rightarrow> string \<Rightarrow> bool" where
  spells_Nil: "spells n [] ''''"
| spells_node: "spells n ts u \<Longrightarrow>
    spells n (Element a as [] # ts) (xml_margin n @ ''<'' @ a @ attributes_text as @ ''/>'' @ nl @ u)"
| spells_value: "spells n ts u \<Longrightarrow>
    spells n (Element ''value'' [] [Text v] # ts) (xml_margin n @ ''<value>'' @ v @ ''</value>'' @ nl @ u)"
| spells_block: "spells (Suc n) cs body \<Longrightarrow> spells n ts u \<Longrightarrow>
    spells n (Element a as cs # ts)
      (xml_margin n @ ''<'' @ a @ attributes_text as @ ''>'' @ nl @ body @ xml_margin n @ ''</'' @ a @ ''>'' @ nl @ u)"

lemma spells_append: "spells n ts u \<Longrightarrow> spells n ts' u' \<Longrightarrow> spells n (ts @ ts') (u @ u')"
proof (induction rule: spells.induct)
  case (spells_node n ts u a as)
  with spells.spells_node [of n "ts @ ts'" "u @ u'" a as] show ?case by simp
next
  case (spells_value n ts u v)
  with spells.spells_value [of n "ts @ ts'" "u @ u'" v] show ?case by simp
next
  case (spells_block n cs body ts u a as)
  with spells.spells_block [of n cs body "ts @ ts'" "u @ u'" a as] show ?case by simp
qed simp

lemma spells_one_node: "spells n [Element a as []] (xml_margin n @ ''<'' @ a @ attributes_text as @ ''/>'' @ nl)"
  using spells_node [OF spells_Nil, of n a as] by simp

lemma spells_one_value: "spells n [Element ''value'' [] [Text v]] (xml_margin n @ ''<value>'' @ v @ ''</value>'' @ nl)"
  using spells_value [OF spells_Nil, of n v] by simp

lemma spells_one_block:
  "spells (Suc n) cs body \<Longrightarrow> spells n [Element a as cs]
     (xml_margin n @ ''<'' @ a @ attributes_text as @ ''>'' @ nl @ body @ xml_margin n @ ''</'' @ a @ ''>'' @ nl)"
  using spells_block [OF _ spells_Nil, of n cs body a as] by simp

section \<open>What the operations of a manager write\<close>

fun xml_tag :: "XML \<Rightarrow> string" where
  "xml_tag XML_REGISTRY = ''xpcf-registry''"
| "xml_tag XML_CONFIG = ''xpcf-configuration''"
| "xml_tag XML_MODULE = ''module''"
| "xml_tag XML_COMPONENT = ''component''"
| "xml_tag XML_INTERFACE = ''interface''"
| "xml_tag XML_ALIASES = ''aliases''"
| "xml_tag XML_FACTORY = ''factory''"
| "xml_tag XML_BINDINGS = ''bindings''"
| "xml_tag XML_BIND = ''bind''"
| "xml_tag XML_PROPERTIES = ''properties''"
| "xml_tag XML_CONFIGURE = ''configure''"
| "xml_tag XML_PROPERTY = ''property''"

definition xml_kept :: "XML \<Rightarrow> xml_attributes \<Rightarrow> xml_attributes" where
  "xml_kept t as = (if t \<in> {XML_ALIASES, XML_FACTORY, XML_BINDINGS, XML_PROPERTIES} then [] else as)"

lemma xml_enter_tag: "xml_enter t as = xml_enter_named (xml_tag t) (xml_kept t as)"
  by (cases t) (simp_all add: xml_kept_def)

text \<open>
  \<open>xml_writes m ts\<close>: wherever a manager is, \<open>m\<close> adds the text of \<open>ts\<close> at its level and leaves its level and its open blocks
  as they were.
\<close>

definition xml_writes :: "XmlBlockManager gen \<Rightarrow> xml list \<Rightarrow> bool" where
  "xml_writes m ts \<longleftrightarrow> (\<forall>b. \<exists>u. m b = (Inr (), b\<lparr>xm_out := xm_out b @ u\<rparr>) \<and> spells (xm_indentLevel b) ts u)"

named_theorems xml_writes_intros \<open>rules that say what an operation of a block manager writes\<close>

lemma xml_writes_node [xml_writes_intros]: "xml_writes (xml_node_named a as) [Element a as []]"
  unfolding xml_writes_def
  by (intro allI exI conjI, rule_tac [2] spells_one_node) (simp add: xml_node_named_def eff_simps xml_indent_def)

lemma xml_writes_value [xml_writes_intros]: "xml_writes (addValue v) [Element ''value'' [] [Text v]]"
  unfolding xml_writes_def
  by (intro allI exI conjI, rule_tac [2] spells_one_value) (simp add: addValue_def eff_simps xml_indent_def)

lemma xml_writes_return: "xml_writes (return_eff ()) []"
  by (auto simp: xml_writes_def eff_simps intro!: exI [of _ "[]"] spells_Nil)

lemma xml_writes_seq:
  assumes "xml_writes m ts" and "xml_writes n us"
  shows "xml_writes (seq_eff m n) (ts @ us)"
  unfolding xml_writes_def
proof
  fix b
  obtain u where u: "m b = (Inr (), b\<lparr>xm_out := xm_out b @ u\<rparr>)" "spells (xm_indentLevel b) ts u"
    using assms(1) unfolding xml_writes_def by blast
  obtain v where "n (b\<lparr>xm_out := xm_out b @ u\<rparr>) = (Inr (), b\<lparr>xm_out := (xm_out b @ u) @ v\<rparr>)" "spells (xm_indentLevel b) us v"
    using assms(2) [unfolded xml_writes_def, rule_format, of "b\<lparr>xm_out := xm_out b @ u\<rparr>"] by auto
  with u show "\<exists>w. seq_eff m n b = (Inr (), b\<lparr>xm_out := xm_out b @ w\<rparr>) \<and> spells (xm_indentLevel b) (ts @ us) w"
    by (intro exI [of _ "u @ v"]) (simp add: eff_simps spells_append)
qed

lemma xml_writes_for: "(\<And>x. x \<in> set xs \<Longrightarrow> xml_writes (f x) (g x)) \<Longrightarrow> xml_writes (for_eff f xs) (concat (List.map g xs))"
  by (induction xs) (auto intro: xml_writes_return xml_writes_seq)

lemma xml_writes_run_two:
  "xml_writes m ts \<Longrightarrow> xml_writes n us \<Longrightarrow> xml_writes (run_all [m, n]) (ts @ us)"
  using xml_writes_seq [OF _ xml_writes_seq [OF _ xml_writes_return], of m ts n us] by (simp add: run_all_def)

text \<open>A block that is entered and left around operations that write elements is an element with these as children.\<close>

lemma xml_block_runs:
  assumes "xml_writes m ts"
  shows "\<exists>u. seq_eff (xml_enter t as) (seq_eff m xml_leave) b = (Inr (), b\<lparr>xm_out := xm_out b @ u\<rparr>) \<and>
    (\<exists>b1. seq_eff (xml_enter t as) m b = (Inr (), b1) \<and> xml_leave b1 = (Inr (), b\<lparr>xm_out := xm_out b @ u\<rparr>)) \<and>
    spells (xm_indentLevel b) [Element (xml_tag t) (xml_kept t as) ts] u"
proof -
  let ?open = "xml_margin (xm_indentLevel b) @ ''<'' @ xml_tag t @ attributes_text (xml_kept t as) @ ''>'' @ nl"
  let ?b = "b\<lparr>xm_blockNameStack := xml_tag t # xm_blockNameStack b, xm_indentLevel := Suc (xm_indentLevel b), xm_out := xm_out b @ ?open\<rparr>"
  obtain u where u: "m ?b = (Inr (), ?b\<lparr>xm_out := xm_out ?b @ u\<rparr>)" "spells (xm_indentLevel ?b) ts u"
    using assms unfolding xml_writes_def by blast
  have "xml_enter t as b = (Inr (), ?b)"
    by (simp add: xml_enter_tag xml_enter_named_def eff_simps Let_def xml_indent_def)
  moreover have "xml_leave (?b\<lparr>xm_out := xm_out ?b @ u\<rparr>) =
      (Inr (), b\<lparr>xm_out := xm_out b @ ?open @ u @ xml_margin (xm_indentLevel b) @ ''</'' @ xml_tag t @ ''>'' @ nl\<rparr>)"
    by (simp add: xml_leave_def xml_leave_named_def eff_simps Let_def xml_indent_def)
  ultimately show ?thesis
    using u spells_one_block [of "xm_indentLevel b" ts u "xml_tag t" "xml_kept t as"]
    by (intro exI [of _ "?open @ u @ xml_margin (xm_indentLevel b) @ ''</'' @ xml_tag t @ ''>'' @ nl"]) (simp add: eff_simps)
qed

lemma xml_writes_block:
  "xml_writes m ts \<Longrightarrow> xml_writes (run_all [xml_enter t as, m, xml_leave]) [Element (xml_tag t) (xml_kept t as) ts]"
  unfolding xml_writes_def [of "run_all _"]
  using xml_block_runs [of m ts t as] by (fastforce simp: run_all_def eff_simps split: prod.splits sum.splits)

lemma xml_writes_guard:
  "xml_writes m ts \<Longrightarrow> xml_writes (xml_block_guard t as m) [Element (xml_tag t) (xml_kept t as) ts]"
  unfolding xml_writes_def [of "xml_block_guard _ _ _"]
proof
  fix b
  assume "xml_writes m ts"
  from xml_block_runs [OF this, of t as b]
  show "\<exists>u. xml_block_guard t as m b = (Inr (), b\<lparr>xm_out := xm_out b @ u\<rparr>) \<and>
      spells (xm_indentLevel b) [Element (xml_tag t) (xml_kept t as) ts] u"
    by (auto simp: xml_block_guard_def)
qed

section \<open>The documents\<close>

definition client_component :: "(uuid \<Rightarrow> string) \<Rightarrow> ClassDescriptor \<Rightarrow> GeneratorMetadata \<Rightarrow> xml" where
  "client_component uuid_str c md =
     Element ''component'' (component_attributes (uuid_str (cd_clientUUID c)) (metadata_value md PROXY_XPCFGRPCCOMPONENTNAME))
       [Element ''interface'' introspect_attributes [], Element ''interface'' (trait_attributes (cd_xpcfTrait c)) []]"

definition server_component :: "(uuid \<Rightarrow> string) \<Rightarrow> ClassDescriptor \<Rightarrow> GeneratorMetadata \<Rightarrow> xml" where
  "server_component uuid_str c md =
     Element ''component'' (component_attributes (uuid_str (cd_serverUUID c)) (metadata_value md SERVER_XPCFGRPCCOMPONENTNAME))
       [Element ''interface'' introspect_attributes [], Element ''interface'' service_attributes []]"

definition property_config :: "string \<Rightarrow> string \<Rightarrow> string list \<Rightarrow> xml" where
  "property_config component name lines =
     Element ''configure'' [(''component'', component)]
       [Element ''property'' [(''name'', name), (''type'', ''string'')] (List.map (\<lambda>v. Element ''value'' [] [Text v]) lines)]"

definition client_lines :: "ClassDescriptor \<Rightarrow> string list" where
  "client_lines = config_lines ''service|none|none'' ''|none|none''"

definition server_lines :: "ClassDescriptor \<Rightarrow> string list" where
  "server_lines = config_lines ''service|none|0'' ''|none|0''"

fun config_item :: "(uuid \<Rightarrow> string) \<Rightarrow> config_manager \<Rightarrow> ClassDescriptor \<times> GeneratorMetadata \<Rightarrow> xml" where
  "config_item uuid_str ClientMgr (c, md) = client_component uuid_str c md"
| "config_item uuid_str ServerMgr (c, md) = server_component uuid_str c md"
| "config_item uuid_str ClientPropsMgr (c, md) =
     property_config (metadata_value md PROXY_XPCFGRPCCOMPONENTNAME) ''grpc_compress_proxy'' (client_lines c)"
| "config_item uuid_str ServerPropsMgr (c, md) =
     property_config (metadata_value md SERVER_XPCFGRPCCOMPONENTNAME) ''grpc_compress_server'' (server_lines c)"

definition bindings_tree :: "string list \<Rightarrow> xml" where
  "bindings_tree bound = Element ''factory'' [] [Element ''bindings'' []
     [Element ''bind'' [(''interface'', ''org::bcom::xpcf::IGrpcService'')]
        (List.map (\<lambda>bind. Element ''component'' [(''to'', bind)] []) bound)]]"

definition service_binds :: "(ClassDescriptor \<times> GeneratorMetadata) list \<Rightarrow> string list" where
  "service_binds cs = List.map (\<lambda>(c, md). metadata_value md SERVER_XPCFGRPCCOMPONENTNAME) cs"

fun config_root :: "config_manager \<Rightarrow> string" where
  "config_root ClientMgr = ''xpcf-registry''"
| "config_root ServerMgr = ''xpcf-registry''"
| "config_root ClientPropsMgr = ''xpcf-configuration''"
| "config_root ServerPropsMgr = ''xpcf-configuration''"

fun config_block :: "GeneratorMetadata \<Rightarrow> config_manager \<Rightarrow> string \<times> xml_attributes" where
  "config_block md ClientMgr = (''module'', module_attributes md)"
| "config_block md ServerMgr = (''module'', module_attributes md)"
| "config_block md ClientPropsMgr = (''properties'', [])"
| "config_block md ServerPropsMgr = (''properties'', [])"

text \<open>What the four files are to hold for the classes \<open>cs\<close>, each with the metadata it was generated with.\<close>

definition config_document ::
  "(uuid \<Rightarrow> string) \<Rightarrow> GeneratorMetadata \<Rightarrow> (ClassDescriptor \<times> GeneratorMetadata) list \<Rightarrow> config_manager \<Rightarrow> xml" where
  "config_document uuid_str md cs k =
     Element (config_root k) []
       (Element (fst (config_block md k)) (snd (config_block md k)) (List.map (config_item uuid_str k) cs) #
        (if k = ServerMgr then [bindings_tree (service_binds cs)] else []))"

definition xml_declaration :: string where
  "xml_declaration = ''<?xml version='' @ [CHR 0x22] @ ''1.0'' @ [CHR 0x22] @ '' encoding='' @ [CHR 0x22] @ ''UTF-8'' @ [CHR 0x22] @
     '' standalone='' @ [CHR 0x22] @ ''yes'' @ [CHR 0x22] @ '' ?>'' @ nl"

text \<open>The generator from its initialisation to its end, in the mode that writes files.\<close>

definition XpcfConfigGenerator_run ::
  "'f Filesystem_scheme \<Rightarrow> (uuid \<Rightarrow> string) \<Rightarrow> string \<Rightarrow> GeneratorMetadata \<Rightarrow> (ClassDescriptor \<times> GeneratorMetadata) list \<Rightarrow>
     XpcfConfigGenerator gen" where
  "XpcfConfigGenerator_run fs uuid_str folder md cs = run_all [
     XpcfConfigGenerator_initializeImpl fs FILE_MODE folder md,
     for_eff (\<lambda>(c, m). bind_eff (XpcfConfigGenerator_generateImpl uuid_str c m) (\<lambda>_. return_eff ())) cs,
     XpcfConfigGenerator_finalizeImpl]"

section \<open>What the generator has written\<close>

lemma all_config_manager: "(\<forall>k. P k) \<longleftrightarrow> P ClientMgr \<and> P ServerMgr \<and> P ClientPropsMgr \<and> P ServerPropsMgr"
  by (metis config_manager.exhaust)

text \<open>The managers with their levels, their open blocks and the texts of their files, and the components bound so far.\<close>

definition config_at ::
  "(config_manager \<Rightarrow> string) \<Rightarrow> (config_manager \<Rightarrow> nat) \<Rightarrow> (config_manager \<Rightarrow> string list) \<Rightarrow> (config_manager \<Rightarrow> string) \<Rightarrow>
     string list \<Rightarrow> XpcfConfigGenerator \<Rightarrow> bool" where
  "config_at path L S X B g \<longleftrightarrow>
     (\<forall>k. xg_streams g k = Config_file (path k) \<and> xm_indentLevel (xg_managers g k) = L k \<and>
          xm_blockNameStack (xg_managers g k) = S k \<and> xg_text g (Config_file (path k)) = X k) \<and>
     xg_grpcComponentBinds g = B"

lemma config_step:
  assumes "config_at path L S X B g" and "inj path"
    and "\<And>b. xm_indentLevel b = L k \<Longrightarrow> xm_blockNameStack b = S k \<Longrightarrow> xm_out b = X k \<Longrightarrow>
      \<exists>b'. m b = (Inr (), b') \<and> xm_indentLevel b' = l \<and> xm_blockNameStack b' = st \<and> xm_out b' = x"
  shows "\<exists>g'. on_manager k m g = (Inr (), g') \<and> config_at path (L(k := l)) (S(k := st)) (X(k := x)) B g'"
proof -
  obtain b' where b: "m ((xg_managers g k)\<lparr>xm_out := xg_text g (xg_streams g k)\<rparr>) = (Inr (), b')"
      "xm_indentLevel b' = l" "xm_blockNameStack b' = st" "xm_out b' = x"
    using assms(3) [of "(xg_managers g k)\<lparr>xm_out := xg_text g (xg_streams g k)\<rparr>"] assms(1) by (auto simp: config_at_def)
  moreover have "path j = path k \<longleftrightarrow> j = k" for j
    using assms(2) by (auto dest: injD)
  ultimately show ?thesis
    using assms(1) by (auto simp: on_manager_def config_at_def)
qed

lemma config_write:
  assumes "config_at path L S X B g" and "inj path" and "xml_writes m ts"
  shows "\<exists>g' u. on_manager k m g = (Inr (), g') \<and> config_at path L S (X(k := X k @ u)) B g' \<and> spells (L k) ts u"
proof -
  let ?b = "(xg_managers g k)\<lparr>xm_out := xg_text g (xg_streams g k)\<rparr>"
  obtain u where "m ?b = (Inr (), ?b\<lparr>xm_out := xm_out ?b @ u\<rparr>)" "spells (xm_indentLevel ?b) ts u"
    using assms(3) unfolding xml_writes_def by blast
  moreover have "path j = path k \<longleftrightarrow> j = k" for j
    using assms(2) by (auto dest: injD)
  ultimately show ?thesis
    using assms(1) by (auto simp: on_manager_def config_at_def intro!: exI [of _ u])
qed

definition config_open :: "GeneratorMetadata \<Rightarrow> config_manager \<Rightarrow> string" where
  "config_open md k = xml_declaration @ ''<'' @ config_root k @ ''>'' @ nl @
     xml_margin 1 @ ''<'' @ fst (config_block md k) @ attributes_text (snd (config_block md k)) @ ''>'' @ nl"

text \<open>Between two classes: the block of the root is open, and the text after it spells the elements \<open>T k\<close>.\<close>

definition config_mid ::
  "(config_manager \<Rightarrow> string) \<Rightarrow> GeneratorMetadata \<Rightarrow> (config_manager \<Rightarrow> xml list) \<Rightarrow> string list \<Rightarrow> XpcfConfigGenerator \<Rightarrow> bool" where
  "config_mid path md T B g \<longleftrightarrow>
     (\<exists>X. config_at path (\<lambda>_. 2) (\<lambda>k. [fst (config_block md k), config_root k]) X B g \<and>
          (\<forall>k. \<exists>u. X k = config_open md k @ u \<and> spells 2 (T k) u))"

lemma config_mid_write:
  assumes "config_mid path md T B g" and "inj path" and "xml_writes m ts"
  shows "\<exists>g'. on_manager k m g = (Inr (), g') \<and> config_mid path md (T(k := T k @ ts)) B g'"
proof -
  obtain X where X: "config_at path (\<lambda>_. 2) (\<lambda>k. [fst (config_block md k), config_root k]) X B g"
      "\<And>k. \<exists>u. X k = config_open md k @ u \<and> spells 2 (T k) u"
    using assms(1) unfolding config_mid_def by blast
  from config_write [OF X(1) assms(2,3), of k] obtain g' u where g: "on_manager k m g = (Inr (), g')"
      "config_at path (\<lambda>_. 2) (\<lambda>k. [fst (config_block md k), config_root k]) (X(k := X k @ u)) B g'" "spells 2 ts u"
    by auto
  have "\<exists>u. (X(k := X k @ u')) j = config_open md j @ u \<and> spells 2 ((T(k := T k @ ts)) j) u" if "u' = u" for j u'
    using X(2) [of j] g(3) that by (auto intro: spells_append)
  with g(1,2) show ?thesis
    unfolding config_mid_def by blast
qed

lemma interface_pair_writes:
  "xml_writes (run_all [xml_node XML_INTERFACE a, xml_node XML_INTERFACE b]) [Element ''interface'' a [], Element ''interface'' b []]"
  using xml_writes_run_two [OF xml_writes_node xml_writes_node] by simp

lemma component_writes:
  "xml_writes (xml_block_guard XML_COMPONENT as (run_all [xml_node XML_INTERFACE a, xml_node XML_INTERFACE b]))
     [Element ''component'' as [Element ''interface'' a [], Element ''interface'' b []]]"
  using xml_writes_guard [OF interface_pair_writes, of XML_COMPONENT as a b] by (simp add: xml_kept_def)

lemma property_block_writes: "xml_writes (property_block component name lines) [property_config component name lines]"
proof -
  have "xml_writes (for_eff addValue lines) (concat (List.map (\<lambda>v. [Element ''value'' [] [Text v]]) lines))"
    by (intro xml_writes_for xml_writes_value)
  then have "xml_writes (for_eff addValue lines) (List.map (\<lambda>v. Element ''value'' [] [Text v]) lines)"
    by simp
  from xml_writes_guard [OF xml_writes_block [OF this, of XML_PROPERTY "[(''name'', name), (''type'', ''string'')]"],
      of XML_CONFIGURE "[(''component'', component)]"]
  show ?thesis
    by (simp add: property_block_def property_config_def xml_kept_def)
qed

lemma bindings_write:
  "xml_writes (xml_block_guard XML_FACTORY [] (xml_block_guard XML_BINDINGS []
     (xml_block_guard XML_BIND [(''interface'', ''org::bcom::xpcf::IGrpcService'')]
       (for_eff (\<lambda>bind. xml_node XML_COMPONENT [(''to'', bind)]) bound)))) [bindings_tree bound]"
proof -
  have "xml_writes (for_eff (\<lambda>bind. xml_node XML_COMPONENT [(''to'', bind)]) bound)
      (concat (List.map (\<lambda>bind. [Element ''component'' [(''to'', bind)] []]) bound))"
    by (intro xml_writes_for) (simp add: xml_writes_node)
  then have "xml_writes (for_eff (\<lambda>bind. xml_node XML_COMPONENT [(''to'', bind)]) bound)
      (List.map (\<lambda>bind. Element ''component'' [(''to'', bind)] []) bound)"
    by simp
  from xml_writes_guard [OF xml_writes_guard [OF xml_writes_guard [OF this, of XML_BIND "[(''interface'', ''org::bcom::xpcf::IGrpcService'')]"],
        of XML_BINDINGS "[]"], of XML_FACTORY "[]"]
  show ?thesis
    by (simp add: bindings_tree_def xml_kept_def)
qed

text \<open>A class adds its elements to the four files, and its server to the components that are bound.\<close>

lemma config_generate:
  assumes "config_mid path md T B g" and "inj path"
  shows "\<exists>g' md'. XpcfConfigGenerator_generateImpl uuid_str c m g = (Inr md', g') \<and>
    config_mid path md (\<lambda>k. T k @ [config_item uuid_str k (c, m)]) (B @ [metadata_value m SERVER_XPCFGRPCCOMPONENTNAME]) g'"
proof -
  let ?i = "\<lambda>k. config_item uuid_str k (c, m)"
  let ?w = "\<lambda>k. case k of
      ClientMgr \<Rightarrow> xml_block_guard XML_COMPONENT (component_attributes (uuid_str (cd_clientUUID c)) (metadata_value m PROXY_XPCFGRPCCOMPONENTNAME))
        (run_all [xml_node XML_INTERFACE introspect_attributes, xml_node XML_INTERFACE (trait_attributes (cd_xpcfTrait c))])
    | ServerMgr \<Rightarrow> xml_block_guard XML_COMPONENT (component_attributes (uuid_str (cd_serverUUID c)) (metadata_value m SERVER_XPCFGRPCCOMPONENTNAME))
        (run_all [xml_node XML_INTERFACE introspect_attributes, xml_node XML_INTERFACE service_attributes])
    | ClientPropsMgr \<Rightarrow> property_block (metadata_value m PROXY_XPCFGRPCCOMPONENTNAME) ''grpc_compress_proxy'' (client_lines c)
    | ServerPropsMgr \<Rightarrow> property_block (metadata_value m SERVER_XPCFGRPCCOMPONENTNAME) ''grpc_compress_server'' (server_lines c)"
  have w: "xml_writes (?w k) [?i k]" for k
    by (cases k) (simp_all add: component_writes property_block_writes client_component_def server_component_def
        del: xml_node.simps)
  obtain g1 where 1: "on_manager ClientMgr (?w ClientMgr) g = (Inr (), g1)" "config_mid path md (T(ClientMgr := T ClientMgr @ [?i ClientMgr])) B g1"
    using config_mid_write [OF assms(1,2) w] by blast
  let ?T1 = "T(ClientMgr := T ClientMgr @ [?i ClientMgr])"
  obtain g2 where 2: "on_manager ServerMgr (?w ServerMgr) g1 = (Inr (), g2)" "config_mid path md (?T1(ServerMgr := ?T1 ServerMgr @ [?i ServerMgr])) B g2"
    using config_mid_write [OF 1(2) assms(2) w] by blast
  let ?T2 = "?T1(ServerMgr := ?T1 ServerMgr @ [?i ServerMgr])"
  obtain g3 where 3: "on_manager ClientPropsMgr (?w ClientPropsMgr) g2 = (Inr (), g3)"
      "config_mid path md (?T2(ClientPropsMgr := ?T2 ClientPropsMgr @ [?i ClientPropsMgr])) B g3"
    using config_mid_write [OF 2(2) assms(2) w] by blast
  let ?T3 = "?T2(ClientPropsMgr := ?T2 ClientPropsMgr @ [?i ClientPropsMgr])"
  obtain g4 where 4: "on_manager ServerPropsMgr (?w ServerPropsMgr) g3 = (Inr (), g4)"
      "config_mid path md (?T3(ServerPropsMgr := ?T3 ServerPropsMgr @ [?i ServerPropsMgr])) B g4"
    using config_mid_write [OF 3(2) assms(2) w] by blast
  have "?T3(ServerPropsMgr := ?T3 ServerPropsMgr @ [?i ServerPropsMgr]) = (\<lambda>k. T k @ [?i k])"
    by (rule ext) (auto split: config_manager.splits simp del: config_item.simps intro: config_manager.exhaust)
  with 4(2) have "config_mid path md (\<lambda>k. T k @ [?i k]) B g4"
    by simp
  then have "config_mid path md (\<lambda>k. T k @ [?i k]) (B @ [metadata_value m SERVER_XPCFGRPCCOMPONENTNAME])
      (g4\<lparr>xg_grpcComponentBinds := xg_grpcComponentBinds g4 @ [metadata_value m SERVER_XPCFGRPCCOMPONENTNAME]\<rparr>)"
    by (auto simp: config_mid_def config_at_def)
  with 1(1) 2(1) 3(1) 4(1) show ?thesis
    by (simp add: XpcfConfigGenerator_generateImpl_def Let_def run_all_def eff_simps at_key_def client_lines_def server_lines_def)
qed

lemma config_generate_all:
  assumes "config_mid path md T B g" and "inj path"
  shows "\<exists>g'. for_eff (\<lambda>(c, m). bind_eff (XpcfConfigGenerator_generateImpl uuid_str c m) (\<lambda>_. return_eff ())) cs g = (Inr (), g') \<and>
    config_mid path md (\<lambda>k. T k @ List.map (config_item uuid_str k) cs) (B @ service_binds cs) g'"
  using assms(1)
proof (induction cs arbitrary: g T B)
  case Nil
  then show ?case by (simp add: eff_simps service_binds_def)
next
  case (Cons x cs)
  obtain c m where x: "x = (c, m)"
    by (cases x)
  from config_generate [OF Cons.prems assms(2), of uuid_str c m] obtain g1 md1 where 1:
      "XpcfConfigGenerator_generateImpl uuid_str c m g = (Inr md1, g1)"
      "config_mid path md (\<lambda>k. T k @ [config_item uuid_str k x]) (B @ [metadata_value m SERVER_XPCFGRPCCOMPONENTNAME]) g1"
    by (auto simp: x)
  from Cons.IH [OF 1(2)] 1(1) show ?case
    by (auto simp: x eff_simps service_binds_def)
qed

section \<open>Opening and closing\<close>

lemma config_opens:
  assumes "config_at path L S X B g" and "inj path" and "L k = 0" and "S k = []" and "X k = []"
    and "(xml_tag t, xml_kept t as) = config_block md k"
  shows "\<exists>g1 g2. on_manager k (xmlOpenRootNode (config_root k)) g = (Inr (), g1) \<and> on_manager k (xml_enter t as) g1 = (Inr (), g2) \<and>
    config_at path (L(k := 2)) (S(k := [fst (config_block md k), config_root k])) (X(k := config_open md k)) B g2"
proof -
  let ?head = "xml_declaration @ ''<'' @ config_root k @ ''>'' @ nl"
  have "\<exists>g1. on_manager k (xmlOpenRootNode (config_root k)) g = (Inr (), g1) \<and>
      config_at path (L(k := 1)) (S(k := [config_root k])) (X(k := ?head)) B g1"
    using assms(3-5) by (intro config_step [OF assms(1,2)])
      (simp add: xmlOpenRootNode_def run_all_def eff_simps xml_enter_named_def Let_def xml_indent_def xml_declaration_def xml_margin_def)
  then obtain g1 where 1: "on_manager k (xmlOpenRootNode (config_root k)) g = (Inr (), g1)"
      "config_at path (L(k := 1)) (S(k := [config_root k])) (X(k := ?head)) B g1"
    by blast
  have "\<exists>g2. on_manager k (xml_enter t as) g1 = (Inr (), g2) \<and> config_at path ((L(k := 1))(k := 2))
      ((S(k := [config_root k]))(k := [fst (config_block md k), config_root k])) ((X(k := ?head))(k := config_open md k)) B g2"
    by (intro config_step [OF 1(2) assms(2)])
      (simp add: xml_enter_tag xml_enter_named_def eff_simps Let_def xml_indent_def config_open_def flip: assms(6))
  with 1(1) show ?thesis
    by auto
qed

lemma config_leaves:
  assumes "config_at path L S X B g" and "inj path" and "L k = Suc n" and "S k = a # st"
  shows "\<exists>g'. on_manager k xml_leave g = (Inr (), g') \<and>
    config_at path (L(k := n)) (S(k := st)) (X(k := X k @ xml_margin n @ ''</'' @ a @ ''>'' @ nl)) B g'"
  using assms(3,4)
  by (intro config_step [OF assms(1,2)]) (simp add: xml_leave_def xml_leave_named_def eff_simps Let_def xml_indent_def)

fun closing_tags :: "string list \<Rightarrow> string" where
  "closing_tags [] = ''''"
| "closing_tags (a # st) = xml_margin (length st) @ ''</'' @ a @ ''>'' @ nl @ closing_tags st"

lemma xmlCloseOpenedNodes_runs:
  "xm_indentLevel b = length (xm_blockNameStack b) \<Longrightarrow>
   \<exists>b'. xmlCloseOpenedNodes b = (Inr (), b') \<and> xm_indentLevel b' = 0 \<and> xm_blockNameStack b' = [] \<and>
     xm_out b' = xm_out b @ closing_tags (xm_blockNameStack b)"
proof (induction "xm_blockNameStack b" arbitrary: b)
  case Nil
  then show ?case by (simp add: xmlCloseOpenedNodes.simps)
next
  case (Cons a st)
  let ?b = "b\<lparr>xm_blockNameStack := st, xm_indentLevel := length st, xm_out := xm_out b @ xml_margin (length st) @ ''</'' @ a @ ''>'' @ nl\<rparr>"
  have stack: "xm_blockNameStack b = a # st"
    using Cons.hyps(2) by simp
  have "xml_leave b = (Inr (), ?b)"
    using Cons.prems stack by (simp add: xml_leave_def xml_leave_named_def eff_simps Let_def xml_indent_def)
  then have "xmlCloseOpenedNodes b = xmlCloseOpenedNodes ?b"
    using stack by (simp add: xmlCloseOpenedNodes.simps [of b])
  with Cons.hyps(1) [of ?b] show ?case
    by (simp add: stack)
qed

lemma config_closes:
  assumes "config_at path L S X B g" and "inj path" and "L k = length (S k)"
  shows "\<exists>g'. on_manager k xmlCloseOpenedNodes g = (Inr (), g') \<and>
    config_at path (L(k := 0)) (S(k := [])) (X(k := X k @ closing_tags (S k))) B g'"
  using assms(3) xmlCloseOpenedNodes_runs by (intro config_step [OF assms(1,2)]) metis

lemma file_names_distinct:
  assumes "\<And>a b. fs_append fs folder a = fs_append fs folder b \<Longrightarrow> a = b"
  shows "inj (\<lambda>k. fs_append fs folder (config_file_name md k))"
proof (rule injI)
  fix j k
  assume "fs_append fs folder (config_file_name md j) = fs_append fs folder (config_file_name md k)"
  then have "config_file_ending j = config_file_ending k"
    by (auto simp: config_file_name_def dest: assms)
  then show "j = k"
    by (cases j; cases k) simp_all
qed

lemma run_all_append: "run_all (ms @ ns) s = seq_eff (run_all ms) (run_all ns) s"
  by (simp add: run_all_def for_eff_append)

lemma run_all_steps:
  "run_all [] s = (Inr (), s)"
  "run_all (m # ms) s = (case m s of (Inl e, s') \<Rightarrow> (Inl e, s') | (Inr _, s') \<Rightarrow> run_all ms s')"
  unfolding run_all_def for_eff.simps seq_eff_run return_eff_run by (rule refl)+

lemma config_initialize:
  assumes "inj path" and "\<And>k. path k = fs_append fs folder (config_file_name md k)" and "xg_grpcComponentBinds g = []"
  shows "\<exists>g'. XpcfConfigGenerator_initializeImpl fs FILE_MODE folder md g = (Inr (), g') \<and> config_mid path md (\<lambda>_. []) [] g'"
proof -
  let ?make = "run_all [createXmlFileManager fs folder ClientMgr (config_file_name md ClientMgr),
    createXmlFileManager fs folder ServerMgr (config_file_name md ServerMgr),
    createXmlFileManager fs folder ClientPropsMgr (config_file_name md ClientPropsMgr),
    createXmlFileManager fs folder ServerPropsMgr (config_file_name md ServerPropsMgr)]"
  let ?L = "\<lambda>_ :: config_manager. 0 :: nat" and ?S = "\<lambda>_ :: config_manager. [] :: string list" and ?X = "\<lambda>_ :: config_manager. [] :: string"
  let ?s = "\<lambda>k. [fst (config_block md k), config_root k]"
  have "path j = path k \<longleftrightarrow> j = k" for j k
    using assms(1) by (auto dest: injD)
  then obtain g0 where 0: "?make g = (Inr (), g0)" "config_at path ?L ?S ?X [] g0"
    by (auto simp: run_all_def eff_simps createXmlFileManager_def make_manager_def config_at_def newXmlBlockManager_def assms(3)
        all_config_manager simp flip: assms(2))
  obtain g1 g2 where 1: "on_manager ClientMgr (xmlOpenRootNode ''xpcf-registry'') g0 = (Inr (), g1)"
      "on_manager ClientMgr (xml_enter XML_MODULE (module_attributes md)) g1 = (Inr (), g2)"
      "config_at path (?L(ClientMgr := 2)) (?S(ClientMgr := ?s ClientMgr)) (?X(ClientMgr := config_open md ClientMgr)) [] g2"
    using config_opens [OF 0(2) assms(1), where k = ClientMgr and t = XML_MODULE and as = "module_attributes md" and md = md] by (auto simp: xml_kept_def)
  obtain g3 g4 where 2: "on_manager ServerMgr (xmlOpenRootNode ''xpcf-registry'') g2 = (Inr (), g3)"
      "on_manager ServerMgr (xml_enter XML_MODULE (module_attributes md)) g3 = (Inr (), g4)"
      "config_at path (?L(ClientMgr := 2, ServerMgr := 2)) (?S(ClientMgr := ?s ClientMgr, ServerMgr := ?s ServerMgr))
        (?X(ClientMgr := config_open md ClientMgr, ServerMgr := config_open md ServerMgr)) [] g4"
    using config_opens [OF 1(3) assms(1), where k = ServerMgr and t = XML_MODULE and as = "module_attributes md" and md = md] by (auto simp: xml_kept_def)
  obtain g5 g6 where 3: "on_manager ClientPropsMgr (xmlOpenRootNode ''xpcf-configuration'') g4 = (Inr (), g5)"
      "on_manager ClientPropsMgr (xml_enter XML_PROPERTIES []) g5 = (Inr (), g6)"
      "config_at path (?L(ClientMgr := 2, ServerMgr := 2, ClientPropsMgr := 2))
        (?S(ClientMgr := ?s ClientMgr, ServerMgr := ?s ServerMgr, ClientPropsMgr := ?s ClientPropsMgr))
        (?X(ClientMgr := config_open md ClientMgr, ServerMgr := config_open md ServerMgr, ClientPropsMgr := config_open md ClientPropsMgr)) [] g6"
    using config_opens [OF 2(3) assms(1), where k = ClientPropsMgr and t = XML_PROPERTIES and as = "[]" and md = md] by (auto simp: xml_kept_def)
  obtain g7 g8 where 4: "on_manager ServerPropsMgr (xmlOpenRootNode ''xpcf-configuration'') g6 = (Inr (), g7)"
      "on_manager ServerPropsMgr (xml_enter XML_PROPERTIES []) g7 = (Inr (), g8)"
      "config_at path (?L(ClientMgr := 2, ServerMgr := 2, ClientPropsMgr := 2, ServerPropsMgr := 2))
        (?S(ClientMgr := ?s ClientMgr, ServerMgr := ?s ServerMgr, ClientPropsMgr := ?s ClientPropsMgr, ServerPropsMgr := ?s ServerPropsMgr))
        (?X(ClientMgr := config_open md ClientMgr, ServerMgr := config_open md ServerMgr, ClientPropsMgr := config_open md ClientPropsMgr,
            ServerPropsMgr := config_open md ServerPropsMgr)) [] g8"
    using config_opens [OF 3(3) assms(1), where k = ServerPropsMgr and t = XML_PROPERTIES and as = "[]" and md = md] by (auto simp: xml_kept_def)
  have "config_at path (\<lambda>_. 2) ?s (config_open md) [] g8"
    using 4(3) unfolding config_at_def all_config_manager by simp
  then have "config_mid path md (\<lambda>_. []) [] g8"
    unfolding config_mid_def by (intro exI [of _ "config_open md"]) (auto intro: spells_Nil)
  moreover have "XpcfConfigGenerator_initializeImpl fs FILE_MODE folder md g = (Inr (), g8)"
    unfolding XpcfConfigGenerator_initializeImpl_def run_all_append by (simp only: GenerateMode.distinct if_False seq_eff_run 0(1) prod.case sum.case)
      (simp only: run_all_steps 1(1,2) 2(1,2) 3(1,2) 4(1,2) prod.case sum.case)
  ultimately show ?thesis by blast
qed

text \<open>The text of a document: the declaration, then the root with its block, and after the block what the root holds besides.\<close>

lemma document_spelled:
  assumes "spells 2 cs u" and "spells 1 rest v"
  shows "\<exists>w. config_open md k @ u @ xml_margin 1 @ ''</'' @ fst (config_block md k) @ ''>'' @ nl @ v @ closing_tags [config_root k] =
      xml_declaration @ w \<and>
    spells 0 [Element (config_root k) [] (Element (fst (config_block md k)) (snd (config_block md k)) cs # rest)] w"
proof -
  have "spells (Suc 1) cs u"
    using assms(1) by (simp add: numeral_2_eq_2)
  from spells_block [OF this assms(2), of "fst (config_block md k)" "snd (config_block md k)"]
  have "spells (Suc 0) (Element (fst (config_block md k)) (snd (config_block md k)) cs # rest)
      (xml_margin 1 @ ''<'' @ fst (config_block md k) @ attributes_text (snd (config_block md k)) @ ''>'' @ nl @ u @ xml_margin 1 @
       ''</'' @ fst (config_block md k) @ ''>'' @ nl @ v)"
    by simp
  from spells_one_block [OF this, of "config_root k" "[]"] show ?thesis
    unfolding config_open_def by (intro exI conjI, rule_tac [2] \<open>spells 0 _ _\<close>) (simp add: xml_margin_def)
qed

lemma config_finalize:
  assumes "config_mid path md T B g" and "inj path"
  shows "\<exists>g'. XpcfConfigGenerator_finalizeImpl g = (Inr (), g') \<and>
    (\<forall>k. \<exists>w. xg_text g' (Config_file (path k)) = xml_declaration @ w \<and>
       spells 0 [Element (config_root k) [] (Element (fst (config_block md k)) (snd (config_block md k)) (T k) #
         (if k = ServerMgr then [bindings_tree B] else []))] w)"
proof -
  let ?s = "\<lambda>k. [fst (config_block md k), config_root k]"
  obtain X where X: "config_at path (\<lambda>_. 2) ?s X B g" "\<And>k. \<exists>u. X k = config_open md k @ u \<and> spells 2 (T k) u"
    using assms(1) unfolding config_mid_def by blast
  let ?leave = "\<lambda>k. X k @ xml_margin 1 @ ''</'' @ fst (config_block md k) @ ''>'' @ nl"
  obtain g1 where 1: "on_manager ClientMgr xml_leave g = (Inr (), g1)"
      "config_at path ((\<lambda>_. 2)(ClientMgr := 1)) (?s(ClientMgr := [config_root ClientMgr])) (X(ClientMgr := ?leave ClientMgr)) B g1"
    using config_leaves [OF X(1) assms(2), where k = ClientMgr and n = 1] by auto
  obtain g2 where 2: "on_manager ServerMgr xml_leave g1 = (Inr (), g2)"
      "config_at path ((\<lambda>_. 2)(ClientMgr := 1, ServerMgr := 1)) (?s(ClientMgr := [config_root ClientMgr], ServerMgr := [config_root ServerMgr]))
        (X(ClientMgr := ?leave ClientMgr, ServerMgr := ?leave ServerMgr)) B g2"
    using config_leaves [OF 1(2) assms(2), where k = ServerMgr and n = 1] by auto
  let ?L = "(\<lambda>_. 2)(ClientMgr := 1, ServerMgr := 1 :: nat)"
  let ?S = "?s(ClientMgr := [config_root ClientMgr], ServerMgr := [config_root ServerMgr])"
  from config_write [OF 2(2) assms(2) bindings_write, of ServerMgr B] obtain g3 v where
    3: "on_manager ServerMgr (xml_block_guard XML_FACTORY [] (xml_block_guard XML_BINDINGS []
         (xml_block_guard XML_BIND [(''interface'', ''org::bcom::xpcf::IGrpcService'')]
           (for_eff (\<lambda>bind. xml_node XML_COMPONENT [(''to'', bind)]) B)))) g2 = (Inr (), g3)"
      "config_at path ?L ?S (X(ClientMgr := ?leave ClientMgr, ServerMgr := ?leave ServerMgr @ v)) B g3" "spells 1 [bindings_tree B] v"
    by auto
  let ?X = "X(ClientMgr := ?leave ClientMgr, ServerMgr := ?leave ServerMgr @ v)"
  obtain g4 where 4: "on_manager ClientMgr xmlCloseOpenedNodes g3 = (Inr (), g4)"
      "config_at path (?L(ClientMgr := 0)) (?S(ClientMgr := [])) (?X(ClientMgr := ?X ClientMgr @ closing_tags (?S ClientMgr))) B g4"
    using config_closes [OF 3(2) assms(2), of ClientMgr] by auto
  obtain g5 where 5: "on_manager ServerMgr xmlCloseOpenedNodes g4 = (Inr (), g5)"
      "config_at path (?L(ClientMgr := 0, ServerMgr := 0)) (?S(ClientMgr := [], ServerMgr := []))
        (?X(ClientMgr := ?X ClientMgr @ closing_tags (?S ClientMgr), ServerMgr := ?X ServerMgr @ closing_tags (?S ServerMgr))) B g5"
    using config_closes [OF 4(2) assms(2), of ServerMgr] by auto
  obtain g6 where 6: "on_manager ClientPropsMgr xmlCloseOpenedNodes g5 = (Inr (), g6)"
      "config_at path (?L(ClientMgr := 0, ServerMgr := 0, ClientPropsMgr := 0)) (?S(ClientMgr := [], ServerMgr := [], ClientPropsMgr := []))
        (?X(ClientMgr := ?X ClientMgr @ closing_tags (?S ClientMgr), ServerMgr := ?X ServerMgr @ closing_tags (?S ServerMgr),
            ClientPropsMgr := ?X ClientPropsMgr @ closing_tags (?S ClientPropsMgr))) B g6"
    using config_closes [OF 5(2) assms(2), of ClientPropsMgr] by auto
  obtain g7 where 7: "on_manager ServerPropsMgr xmlCloseOpenedNodes g6 = (Inr (), g7)"
      "config_at path (?L(ClientMgr := 0, ServerMgr := 0, ClientPropsMgr := 0, ServerPropsMgr := 0))
        (?S(ClientMgr := [], ServerMgr := [], ClientPropsMgr := [], ServerPropsMgr := []))
        (?X(ClientMgr := ?X ClientMgr @ closing_tags (?S ClientMgr), ServerMgr := ?X ServerMgr @ closing_tags (?S ServerMgr),
            ClientPropsMgr := ?X ClientPropsMgr @ closing_tags (?S ClientPropsMgr),
            ServerPropsMgr := ?X ServerPropsMgr @ closing_tags (?S ServerPropsMgr))) B g7"
    using config_closes [OF 6(2) assms(2), of ServerPropsMgr] by auto
  then have "\<forall>k. xg_text g7 (Config_file (path k)) = ?X k @ closing_tags (?S k)"
    unfolding config_at_def all_config_manager by simp
  then have written: "xg_text g7 (Config_file (path k)) = ?X k @ closing_tags (?S k)" for k
    by blast
  have "XpcfConfigGenerator_finalizeImpl g = (Inr (), g7)"
    using X(1) unfolding XpcfConfigGenerator_finalizeImpl_def bind_eff_run gets_eff_run prod.case sum.case
    by (simp only: run_all_steps 1(1) 2(1) 3(1) 4(1) 5(1) 6(1) 7(1) prod.case sum.case config_at_def)
  moreover have "\<exists>w. xg_text g7 (Config_file (path k)) = xml_declaration @ w \<and>
       spells 0 [Element (config_root k) [] (Element (fst (config_block md k)) (snd (config_block md k)) (T k) #
         (if k = ServerMgr then [bindings_tree B] else []))] w" for k
  proof -
    obtain u where u: "X k = config_open md k @ u" "spells 2 (T k) u"
      using X(2) by blast
    show ?thesis
      using document_spelled [OF u(2) spells_Nil, of md k] document_spelled [OF u(2) 3(3), of md k] u(1)
      by (cases k) (simp_all add: written)
  qed
  ultimately show ?thesis by blast
qed

text \<open>
  In the mode that writes files, for any classes, the generator ends without an error and each of the four
  files holds the XML declaration and then the text of one document: the registries of the client and of the server, with
  the module, a component for every class with its interfaces, and, for the server, a binding of every server
  component to the service interface; and the two property files, with the lines of every class.
\<close>

theorem configuration_documents:
  assumes "\<And>a b. fs_append fs folder a = fs_append fs folder b \<Longrightarrow> a = b" and "xg_grpcComponentBinds g = []"
  shows "\<exists>g'. XpcfConfigGenerator_run fs uuid_str folder md cs g = (Inr (), g') \<and>
    (\<forall>k. \<exists>u. xg_text g' (Config_file (fs_append fs folder (config_file_name md k))) = xml_declaration @ u \<and>
       spells 0 [config_document uuid_str md cs k] u)"
proof -
  let ?path = "\<lambda>k. fs_append fs folder (config_file_name md k)"
  note inj = file_names_distinct [of fs folder md, OF assms(1)]
  obtain g1 where 1: "XpcfConfigGenerator_initializeImpl fs FILE_MODE folder md g = (Inr (), g1)" "config_mid ?path md (\<lambda>_. []) [] g1"
    using config_initialize [OF inj refl assms(2)] by blast
  obtain g2 where 2: "for_eff (\<lambda>(c, m). bind_eff (XpcfConfigGenerator_generateImpl uuid_str c m) (\<lambda>_. return_eff ())) cs g1 = (Inr (), g2)"
      "config_mid ?path md (\<lambda>k. List.map (config_item uuid_str k) cs) (service_binds cs) g2"
    using config_generate_all [OF 1(2) inj, of uuid_str cs] by auto
  obtain g3 where 3: "XpcfConfigGenerator_finalizeImpl g2 = (Inr (), g3)"
      "\<forall>k. \<exists>w. xg_text g3 (Config_file (?path k)) = xml_declaration @ w \<and> spells 0 [config_document uuid_str md cs k] w"
    using config_finalize [OF 2(2) inj] unfolding config_document_def by blast
  have "XpcfConfigGenerator_run fs uuid_str folder md cs g = (Inr (), g3)"
    unfolding XpcfConfigGenerator_run_def by (simp only: run_all_steps 1(1) 2(1) 3(1) prod.case sum.case)
  with 3(2) show ?thesis by blast
qed

section \<open>The configuration in the generated components\<close>

lemma translateCompression_none: "translateCompression ''none'' = none"
  by (simp add: translateCompression_def translateCompressionConfigMap_def)

lemma atol_zero: "atol ''0'' = 0"
  by (simp add: atol_def number_sign_def is_space_def digit_value_def digits_value_def)

lemma client_lines_bars:
  "client_lines c = with_bars [''service'', ''none'', ''none''] #
     List.map (\<lambda>n. with_bars [''method'', n, ''none'', ''none'']) (cd_names c)"
  by (simp add: client_lines_def config_lines_def)

lemma server_lines_bars:
  "server_lines c = with_bars [''service'', ''none'', ''0''] #
     List.map (\<lambda>n. with_bars [''method'', n, ''none'', ''0'']) (cd_names c)"
  by (simp add: server_lines_def config_lines_def)

lemma fold_client_methods:
  "list_all plain_name ns \<Longrightarrow> fold translateClientConfiguration (List.map (\<lambda>n. with_bars [''method'', n, ''none'', ''none'']) ns) (s, m) =
     (s, fold (\<lambda>n. map_insert n \<lparr>ci_request = none, ci_response = none\<rparr>) ns m)"
  by (induction ns arbitrary: m) (simp_all add: client_method_line translateCompression_none del: with_bars.simps)

lemma fold_server_methods:
  "list_all plain_name ns \<Longrightarrow> fold translateServerConfiguration (List.map (\<lambda>n. with_bars [''method'', n, ''none'', ''0'']) ns) (s, m) =
     (s, fold (\<lambda>n. map_insert n \<lparr>si_force = False, si_type = none\<rparr>) ns m)"
  by (induction ns arbitrary: m) (simp_all add: server_method_line translateCompression_none atol_zero del: with_bars.simps)

text \<open>Reading a property of the generated form fills the sequence that is declared under its name.\<close>

lemma configure_property_config:
  assumes "pm_maps s root = Some d" and "m_propertyMap d name = Some a"
    and "pm_properties s a = Some (PropertySequenceWrapper w)" and "pw_type w = IProperty_CHARSTR"
    and "length lines = length (pm_sequences s (pw_variable w))" and "'''' \<notin> set lines" and "name \<noteq> ''''"
  shows "configureElement fc (property_config component name lines) (Some root) s =
    (Inr SUCCESS, s\<lparr>pm_sequences := (pm_sequences s)(pw_variable w := List.map V_string lines)\<rparr>)"
proof -
  let ?vals = "List.map (\<lambda>v. Element ''value'' [] [Text v]) lines"
  let ?property = "Element ''property'' [(''name'', name), (''type'', ''string'')] ?vals"
  have vals_of: "elements_named ''value'' ?property = List.map (\<lambda>v. Element ''value'' [] [Text (plain_text v)]) (List.map V_string lines)"
    by (simp add: elements_named_def filter_True comp_def)
  have "configureValues fc a (elements_named ''value'' ?property) s =
      (Inr SUCCESS, s\<lparr>pm_sequences := (pm_sequences s)(pw_variable w := List.map V_string lines)\<rparr>)"
    unfolding configureValues_def vals_of
    using assms(4-6) configure_items [OF assms(3), of "List.map V_string lines" 0 fc] by (fastforce simp: exact_kinds_def simp del: map_map)
  moreover have "PropertyMap_at root name s = (Inr (Some a), s)"
    using assms(1,2) by (simp add: PropertyMap_at_def the_map_def eff_simps)
  ultimately have "configureProperty fc ?property root s =
      (Inr SUCCESS, s\<lparr>pm_sequences := (pm_sequences s)(pw_variable w := List.map V_string lines)\<rparr>)"
    using assms(7) by (simp add: configureProperty.simps attr_or_empty_def Let_def eff_simps)
  then show ?thesis
    by (simp add: configureElement.simps property_config_def elements_named_def eff_simps)
qed

text \<open>
  Of a property file with several components, the one whose name the aliases resolve to the component configures it.
\<close>

lemma configure_generated:
  assumes "pf_load_xml pf path = Some (Element ''xpcf-configuration'' [] [Element ''properties'' []
      (List.map (\<lambda>x. property_config (component x) name (lines x)) xs)])"
    and "\<And>x. x \<in> set xs \<Longrightarrow> component_of_attribute pf aliases (component x) \<noteq> None"
    and "filter (\<lambda>x. component_of_attribute pf aliases (component x) = Some u) xs = [x]"
    and "configureElement fc (property_config (component x) name (lines x)) root s = (Inr SUCCESS, t)"
  shows "PropertyManager_configure pf fc aliases u root path s = (Inr SUCCESS, t)"
proof -
  let ?tree = "\<lambda>x. property_config (component x) name (lines x)"
  let ?props = "Element ''properties'' [] (List.map ?tree xs)"
  have named: "elements_named ''configure'' ?props = List.map ?tree xs"
    by (simp add: elements_named_def property_config_def filter_True)
  have comp: "xml_Attribute ''component'' (?tree x) = Some (component x)" "unnamedPredicate (?tree x)" for x
    by (simp_all add: property_config_def unnamedPredicate_def)
  have "selected_configures pf aliases unnamedPredicate u ?props = List.map ?tree (filter (\<lambda>x. component_of_attribute pf aliases (component x) = Some u) xs)"
    by (simp add: selected_configures_def named filter_map comp comp_def)
  then have "while_success (\<lambda>x. configureElement fc x root) (selected_configures pf aliases unnamedPredicate u ?props) s = (Inr SUCCESS, t)"
    using assms(3,4) by (simp add: eff_simps)
  moreover have "reported (while_success (\<lambda>x. configureElement fc x root) (selected_configures pf aliases unnamedPredicate u ?props) s)
      (while_success (configure_configure_element pf fc aliases unnamedPredicate u root) (elements_named ''configure'' ?props) s)"
    using assms(2) by (intro selected_configures_reported) (auto simp: named comp)
  ultimately have "while_success (configure_configure_element pf fc aliases unnamedPredicate u root) (elements_named ''configure'' ?props) s = (Inr SUCCESS, t)"
    by (auto simp: reported_def prod_eq_iff)
  then show ?thesis
    using assms(1) by (simp add: PropertyManager_configure_def PropertyManager_configure_if_def FirstChildElement_def eff_simps)
qed

text \<open>
  Property C35. The property file of the proxies configures a proxy of a class whose method names have no bar and no carriage
  return, once the names of the components in the file resolve: to components, and exactly one class to the component that is
  configured. The names are aliases, which the registry the generator writes does not declare, as it lacks the attribute that
  enables automatic ones, so that other files or the application have to. Then reading the document the generator
  writes fills the sequence that the generated constructor declares, as long as it has one place for the service and one for
  every method, and the lines, read as the generated code reads them, choose no compression for the requests and the answers
  of the service and of every method, and nothing for other names.
\<close>

theorem proxy_configured:
  assumes "pf_load_xml pf path = Some (config_document uuid_str md cs ClientPropsMgr)"
    and "\<And>c m. (c, m) \<in> set cs \<Longrightarrow> component_of_attribute pf aliases (metadata_value m PROXY_XPCFGRPCCOMPONENTNAME) \<noteq> None"
    and "filter (\<lambda>(c, m). component_of_attribute pf aliases (metadata_value m PROXY_XPCFGRPCCOMPONENTNAME) = Some u) cs = [(c, m)]"
    and "pm_maps s root = Some d" and "m_propertyMap d ''grpc_compress_proxy'' = Some a"
    and "pm_properties s a = Some (PropertySequenceWrapper w)" and "pw_type w = IProperty_CHARSTR"
    and "length (pm_sequences s (pw_variable w)) = length (cd_virtualMethods c) + 1"
    and "list_all plain_name (cd_names c)"
  shows "PropertyManager_configure pf fc aliases u (Some root) path s =
      (Inr SUCCESS, s\<lparr>pm_sequences := (pm_sequences s)(pw_variable w := List.map V_string (client_lines c))\<rparr>) \<and>
    fold translateClientConfiguration (client_lines c) (newCompressionInfos, Map.empty) =
      (\<lparr>ci_request = none, ci_response = none\<rparr>,
       \<lambda>n. if n \<in> set (cd_names c) then Some \<lparr>ci_request = none, ci_response = none\<rparr> else None)"
proof
  let ?t = "s\<lparr>pm_sequences := (pm_sequences s)(pw_variable w := List.map V_string (client_lines c))\<rparr>"
  have lines: "length (client_lines c) = length (pm_sequences s (pw_variable w))" "'''' \<notin> set (client_lines c)"
    using assms(8) by (auto simp: client_lines_def config_lines_def)
  have "config_document uuid_str md cs ClientPropsMgr = Element ''xpcf-configuration'' [] [Element ''properties'' []
      (List.map (\<lambda>x. property_config (metadata_value (snd x) PROXY_XPCFGRPCCOMPONENTNAME) ''grpc_compress_proxy'' (client_lines (fst x))) cs)]"
    by (auto simp: config_document_def)
  with assms(1) have doc: "pf_load_xml pf path = Some (Element ''xpcf-configuration'' [] [Element ''properties'' []
      (List.map (\<lambda>x. property_config (metadata_value (snd x) PROXY_XPCFGRPCCOMPONENTNAME) ''grpc_compress_proxy'' (client_lines (fst x))) cs)])"
    by simp
  show "PropertyManager_configure pf fc aliases u (Some root) path s = (Inr SUCCESS, ?t)"
  proof (rule configure_generated [OF doc, of aliases u "(c, m)"])
    show "filter (\<lambda>x. component_of_attribute pf aliases (metadata_value (snd x) PROXY_XPCFGRPCCOMPONENTNAME) = Some u) cs = [(c, m)]"
      using assms(3) by (simp add: case_prod_beta')
    show "configureElement fc (property_config (metadata_value (snd (c, m)) PROXY_XPCFGRPCCOMPONENTNAME) ''grpc_compress_proxy''
        (client_lines (fst (c, m)))) (Some root) s = (Inr SUCCESS, ?t)"
      using configure_property_config [OF assms(4-7) lines] by simp
  qed (use assms(2) in auto)
  show "fold translateClientConfiguration (client_lines c) (newCompressionInfos, Map.empty) =
      (\<lparr>ci_request = none, ci_response = none\<rparr>, \<lambda>n. if n \<in> set (cd_names c) then Some \<lparr>ci_request = none, ci_response = none\<rparr> else None)"
    using assms(9) unfolding client_lines_bars
    by (simp add: newCompressionInfos_def client_service_line translateCompression_none fold_client_methods fold_map_insert
        del: with_bars.simps map_map)
qed

text \<open>The same for the property file of the servers, which propose no compression and force none.\<close>

lemma server_configured:
  assumes "pf_load_xml pf path = Some (config_document uuid_str md cs ServerPropsMgr)"
    and "\<And>c m. (c, m) \<in> set cs \<Longrightarrow> component_of_attribute pf aliases (metadata_value m SERVER_XPCFGRPCCOMPONENTNAME) \<noteq> None"
    and "filter (\<lambda>(c, m). component_of_attribute pf aliases (metadata_value m SERVER_XPCFGRPCCOMPONENTNAME) = Some u) cs = [(c, m)]"
    and "pm_maps s root = Some d" and "m_propertyMap d ''grpc_compress_server'' = Some a"
    and "pm_properties s a = Some (PropertySequenceWrapper w)" and "pw_type w = IProperty_CHARSTR"
    and "length (pm_sequences s (pw_variable w)) = length (cd_virtualMethods c) + 1"
    and "list_all plain_name (cd_names c)"
  shows "PropertyManager_configure pf fc aliases u (Some root) path s =
      (Inr SUCCESS, s\<lparr>pm_sequences := (pm_sequences s)(pw_variable w := List.map V_string (server_lines c))\<rparr>) \<and>
    fold translateServerConfiguration (server_lines c) (newServerCompressionInfos, Map.empty) =
      (\<lparr>si_force = False, si_type = none\<rparr>,
       \<lambda>n. if n \<in> set (cd_names c) then Some \<lparr>si_force = False, si_type = none\<rparr> else None)"
proof
  let ?t = "s\<lparr>pm_sequences := (pm_sequences s)(pw_variable w := List.map V_string (server_lines c))\<rparr>"
  have lines: "length (server_lines c) = length (pm_sequences s (pw_variable w))" "'''' \<notin> set (server_lines c)"
    using assms(8) by (auto simp: server_lines_def config_lines_def)
  have "config_document uuid_str md cs ServerPropsMgr = Element ''xpcf-configuration'' [] [Element ''properties'' []
      (List.map (\<lambda>x. property_config (metadata_value (snd x) SERVER_XPCFGRPCCOMPONENTNAME) ''grpc_compress_server'' (server_lines (fst x))) cs)]"
    by (auto simp: config_document_def)
  with assms(1) have doc: "pf_load_xml pf path = Some (Element ''xpcf-configuration'' [] [Element ''properties'' []
      (List.map (\<lambda>x. property_config (metadata_value (snd x) SERVER_XPCFGRPCCOMPONENTNAME) ''grpc_compress_server'' (server_lines (fst x))) cs)])"
    by simp
  show "PropertyManager_configure pf fc aliases u (Some root) path s = (Inr SUCCESS, ?t)"
  proof (rule configure_generated [OF doc, of aliases u "(c, m)"])
    show "filter (\<lambda>x. component_of_attribute pf aliases (metadata_value (snd x) SERVER_XPCFGRPCCOMPONENTNAME) = Some u) cs = [(c, m)]"
      using assms(3) by (simp add: case_prod_beta')
    show "configureElement fc (property_config (metadata_value (snd (c, m)) SERVER_XPCFGRPCCOMPONENTNAME) ''grpc_compress_server''
        (server_lines (fst (c, m)))) (Some root) s = (Inr SUCCESS, ?t)"
      using configure_property_config [OF assms(4-7) lines] by simp
  qed (use assms(2) in auto)
  show "fold translateServerConfiguration (server_lines c) (newServerCompressionInfos, Map.empty) =
      (\<lparr>si_force = False, si_type = none\<rparr>, \<lambda>n. if n \<in> set (cd_names c) then Some \<lparr>si_force = False, si_type = none\<rparr> else None)"
    using assms(9) unfolding server_lines_bars
    by (simp add: newServerCompressionInfos_def server_service_line translateCompression_none fold_server_methods fold_map_insert atol_zero
        del: with_bars.simps map_map)
qed

section \<open>Witnesses\<close>

definition sample_config_class :: ClassDescriptor where
  "sample_config_class = (ClassDescriptor_init sample_shape ''geo'' ''IShape.h'')
     \<lparr>cd_virtualMethods := [MethodDescriptor_init sample_raw (sample_function ''area'' []) False]\<rparr>"

definition sample_config_metadata :: GeneratorMetadata where
  "sample_config_metadata = [PROJECT_NAME \<mapsto> ''Geo'', PROXY_XPCFGRPCCOMPONENTNAME \<mapsto> ''u-c'', SERVER_XPCFGRPCCOMPONENTNAME \<mapsto> ''u-m'']"

definition sample_config_generator :: XpcfConfigGenerator where
  "sample_config_generator = \<lparr>xg_managers = (\<lambda>_. newXmlBlockManager), xg_streams = (\<lambda>_. Config_cout), xg_text = (\<lambda>_. []),
     xg_grpcComponentBinds = []\<rparr>"

theorem configuration_documents_witness:
  "\<exists>g' u. XpcfConfigGenerator_run sample_fs (\<lambda>_. ''u'') ''out'' sample_config_metadata [(sample_config_class, sample_config_metadata)]
      sample_config_generator = (Inr (), g') \<and>
    xg_text g' (Config_file ''out/xpcfGrpcRemotingGeoClient_properties.xml'') = xml_declaration @ u \<and>
    spells 0 [Element ''xpcf-configuration'' [] [Element ''properties'' []
      [property_config ''u-c'' ''grpc_compress_proxy'' [''service|none|none'', ''method|area|none|none'']]]] u"
proof -
  have "config_document (\<lambda>_. ''u'') sample_config_metadata [(sample_config_class, sample_config_metadata)] ClientPropsMgr =
      Element ''xpcf-configuration'' [] [Element ''properties'' []
        [property_config ''u-c'' ''grpc_compress_proxy'' [''service|none|none'', ''method|area|none|none'']]]"
    by (simp add: config_document_def metadata_value_def sample_config_metadata_def client_lines_def config_lines_def sample_config_class_def
        Xpcf_GenDescriptors.md_name_def MethodDescriptor_init_def sample_function_def)
  moreover have "fs_append sample_fs ''out'' (config_file_name sample_config_metadata ClientPropsMgr) = ''out/xpcfGrpcRemotingGeoClient_properties.xml''"
    by (simp add: sample_fs_def config_file_name_def metadata_value_def sample_config_metadata_def)
  moreover have "\<And>a b. fs_append sample_fs ''out'' a = fs_append sample_fs ''out'' b \<Longrightarrow> a = b" "xg_grpcComponentBinds sample_config_generator = []"
    by (simp_all add: sample_fs_def sample_config_generator_def)
  note configuration_documents [OF this, where uuid_str = "\<lambda>_. ''u''" and md = sample_config_metadata and cs = "[(sample_config_class, sample_config_metadata)]"]
  ultimately show ?thesis
    by metis
qed

definition sample_proxy_memory :: PropertyMemory where
  "sample_proxy_memory = \<lparr>
     pm_properties = [0 \<mapsto> PropertySequenceWrapper \<lparr>pw_name = ''grpc_compress_proxy'', pw_type = IProperty_CHARSTR, pw_variable = 0,
       pw_accessSpecifier = IProperty_INOUT\<rparr>],
     pm_maps = [9 \<mapsto> \<lparr>m_propertyMap = [''grpc_compress_proxy'' \<mapsto> 0], m_collectionPropertyMap = [0]\<rparr>],
     pm_variables = (\<lambda>_. V_int 0), pm_sequences = (\<lambda>_. [V_string '''', V_string '''']), pm_next = 10\<rparr>"

theorem proxy_configured_witness:
  "let document = config_document (\<lambda>_. ''u'') sample_config_metadata [(sample_config_class, sample_config_metadata)] ClientPropsMgr;
       (r, t) = PropertyManager_configure (sample_platform\<lparr>pf_load_xml := [''p.xml'' \<mapsto> document]\<rparr>) sample_floats AliasContext_init 21 (Some 9)
         ''p.xml'' sample_proxy_memory
   in r = Inr SUCCESS \<and> pm_sequences t 0 = [V_string ''service|none|none'', V_string ''method|area|none|none'']"
proof -
  let ?pf = "sample_platform\<lparr>pf_load_xml := [''p.xml'' \<mapsto>
    config_document (\<lambda>_. ''u'') sample_config_metadata [(sample_config_class, sample_config_metadata)] ClientPropsMgr]\<rparr>"
  let ?c = sample_config_class and ?m = sample_config_metadata
  have methods: "cd_virtualMethods ?c = [MethodDescriptor_init sample_raw (sample_function ''area'' []) False]" "cd_names ?c = [''area'']"
    by (simp_all add: sample_config_class_def Xpcf_GenDescriptors.md_name_def MethodDescriptor_init_def sample_function_def)
  have proxy: "component_of_attribute ?pf AliasContext_init (metadata_value ?m PROXY_XPCFGRPCCOMPONENTNAME) = Some 21"
    by (simp add: component_of_attribute_def metadata_value_def sample_config_metadata_def AliasContext_init_def aliasExistsIn_def sample_platform_def
        Filesystem.extend_def Platform.fields_def)
  have "PropertyManager_configure ?pf sample_floats AliasContext_init 21 (Some 9) ''p.xml'' sample_proxy_memory =
      (Inr SUCCESS, sample_proxy_memory\<lparr>pm_sequences := (pm_sequences sample_proxy_memory)(0 := List.map V_string (client_lines ?c))\<rparr>)"
    using proxy_configured [of ?pf "''p.xml''" "\<lambda>_. ''u''" ?m "[(?c, ?m)]" AliasContext_init 21 ?c ?m sample_proxy_memory 9
        "\<lparr>m_propertyMap = [''grpc_compress_proxy'' \<mapsto> 0], m_collectionPropertyMap = [0]\<rparr>" 0
        "\<lparr>pw_name = ''grpc_compress_proxy'', pw_type = IProperty_CHARSTR, pw_variable = 0, pw_accessSpecifier = IProperty_INOUT\<rparr>" sample_floats]
      proxy methods by (simp add: sample_proxy_memory_def plain_name_def)
  then show ?thesis
    using methods by (simp add: client_lines_def config_lines_def Let_def)
qed

end
