(* ===== verification/Xpcf_GenAst.thy ===== *)
theory Xpcf_GenAst
  imports Xpcf_GenConfig
begin

text \<open>
  The parser that feeds the code generators, \<^verbatim>\<open>tools/generators/grpc/ASTParser.cpp\<close>: what it records of the syntax trees
  \<^verbatim>\<open>cppast\<close> visits. The visit is an argument, the list of the calls of the callback, each with the entity, the event
  and whether the entity is the last child. What is printed on the way is not modelled; the prefix of the printed lines is, because it is
  shortened without a test. At the end \<open>RemoteServiceGenerator\<close>, which passes what was parsed to the generators.
\<close>

section \<open>What the visit provides\<close>

datatype entity_kind = file_t | namespace_t | class_t | class_template_specialization_t | other_entity_t

datatype visitor_event = container_entity_enter | container_entity_exit | leaf_entity

text \<open>
  A variable of a specialisation with the text of its default value, if it has one that is a literal or an unexposed expression: the
  texts of other expressions stay empty.
\<close>

record ast_variable =
  av_name :: string
  av_default_value :: "string option"

record ast_entity =
  ae_kind :: entity_kind
  ae_name :: string
  ae_is_templated :: bool
  ae_is_friended :: bool
  ae_class :: "cpp_class option"
  ae_unexposed_arguments :: string
  ae_variables :: "ast_variable list"

type_synonym visit_call = "ast_entity \<times> visitor_event \<times> bool"

text \<open>What the parsing of classes rests on, and the folder of the interfaces.\<close>

record AstSetting =
  as_cppast :: Cppast
  as_raw :: "cpp_type \<Rightarrow> RawMembers"
  as_string_generator :: "string \<Rightarrow> uuid option"
  as_interfacesAbsolutePath :: string

section \<open>The state\<close>

record ASTParser =
  ap_interfaces :: "string \<rightharpoonup> ClassDescriptor"
  ap_classes :: "string \<rightharpoonup> ClassDescriptor"
  ap_xpcfTraits :: "string \<rightharpoonup> Traits"
  ap_currentNamespace :: "string list"
  ap_prefix :: string

definition newASTParser :: ASTParser where
  "newASTParser = \<lparr>ap_interfaces = Map.empty, ap_classes = Map.empty, ap_xpcfTraits = Map.empty, ap_currentNamespace = [], ap_prefix = ''''\<rparr>"

text \<open>The loop over the names: a separator comes before each but the first.\<close>

fun namespace_text :: "nat \<Rightarrow> string list \<Rightarrow> string" where
  "namespace_text nspaceIdx [] = ''''"
| "namespace_text nspaceIdx (n # ns) = (if nspaceIdx > 0 then ''::'' else '''') @ n @ namespace_text (Suc nspaceIdx) ns"

definition computeNamespace :: "string list \<Rightarrow> string" where
  "computeNamespace ns = namespace_text 0 ns"

definition isXpcfTrait :: "ast_entity \<Rightarrow> bool" where
  "isXpcfTrait e \<longleftrightarrow> ae_name e = ''InterfaceTraits'' \<or> ae_name e = ''ComponentTraits''"

text \<open>\<open>m_xpcfTraits[name].member = value\<close> makes an empty entry when there is none.\<close>

definition set_trait :: "string \<Rightarrow> (Traits \<Rightarrow> Traits) \<Rightarrow> (string \<rightharpoonup> Traits) \<Rightarrow> string \<rightharpoonup> Traits" where
  "set_trait name f m =
     m(name \<mapsto> f (case m name of None \<Rightarrow> \<lparr>tr_uuid = '''', tr_name = '''', tr_description = ''''\<rparr> | Some t \<Rightarrow> t))"

definition trait_variable :: "string \<Rightarrow> ast_variable \<Rightarrow> (string \<rightharpoonup> Traits) \<Rightarrow> string \<rightharpoonup> Traits" where
  "trait_variable name v m =
     (case av_default_value v of
        None \<Rightarrow> m
      | Some t \<Rightarrow>
          (let exprValue = erase_all double_quote t;
               m1 = (if av_name v = ''UUID'' then set_trait name (\<lambda>x. x\<lparr>tr_uuid := exprValue\<rparr>) m else m);
               m2 = (if av_name v = ''NAME'' then set_trait name (\<lambda>x. x\<lparr>tr_name := exprValue\<rparr>) m1 else m1)
           in if av_name v = ''DESCRIPTION'' then set_trait name (\<lambda>x. x\<lparr>tr_description := exprValue\<rparr>) m2 else m2))"

definition parseXpcfTrait :: "ast_entity \<Rightarrow> ASTParser \<Rightarrow> ASTParser" where
  "parseXpcfTrait e s =
     (let t = ae_unexposed_arguments e;
          name = (if take 2 t = ''::'' then drop 2 t else t)
      in s\<lparr>ap_xpcfTraits := fold (trait_variable name) (ae_variables e) (ap_xpcfTraits s)\<rparr>)"

definition include_path :: "string \<Rightarrow> string \<Rightarrow> string" where
  "include_path folder filePath = (if take (length folder) filePath = folder then drop (length folder) filePath else filePath)"

text \<open>A class of the namespace \<open>ns\<close>: an interface that is not ignored, or else a class, under its full name.\<close>

definition parse_class :: "AstSetting \<Rightarrow> string \<Rightarrow> string list \<Rightarrow> cpp_class \<Rightarrow> ASTParser gen" where
  "parse_class env filePath ns cls =
     bind_eff (lift_eff (ClassDescriptor_parse (as_string_generator env) (as_cppast env) (as_raw env)
        (ClassDescriptor_init cls (computeNamespace ns) (include_path (as_interfacesAbsolutePath env) filePath)))) (\<lambda>(_, c).
       if cd_isInterface c \<and> \<not> cd_ignored c
       then bind_eff (lift_eff (ClassDescriptor_getFullName c)) (\<lambda>name.
              modify_eff (\<lambda>s. s\<lparr>ap_interfaces := map_insert name c (ap_interfaces s)\<rparr>))
       else bind_eff (gets_eff ap_classes) (\<lambda>classes.
              if \<not> mapContains classes (cd_name c)
              then bind_eff (lift_eff (ClassDescriptor_getFullName c)) (\<lambda>name.
                     modify_eff (\<lambda>s. s\<lparr>ap_classes := map_insert name c (ap_classes s)\<rparr>))
              else return_eff ()))"

definition parse_entity_in :: "AstSetting \<Rightarrow> string \<Rightarrow> string list \<Rightarrow> ast_entity \<Rightarrow> ASTParser gen" where
  "parse_entity_in env filePath ns e =
     seq_eff (if ae_kind e = class_t
              then (case ae_class e of None \<Rightarrow> throw_eff Undefined_behaviour | Some cls \<Rightarrow> parse_class env filePath ns cls)
              else return_eff ())
       (if ae_kind e = class_template_specialization_t \<and> isXpcfTrait e then modify_eff (parseXpcfTrait e) else return_eff ())"

definition parseEntity :: "AstSetting \<Rightarrow> string \<Rightarrow> ast_entity \<Rightarrow> ASTParser gen" where
  "parseEntity env filePath e = bind_eff (gets_eff ap_currentNamespace) (\<lambda>ns. parse_entity_in env filePath ns e)"

section \<open>The visit\<close>

text \<open>\<open>pop_back\<close> of an empty string or vector is undefined.\<close>

definition pop_back :: "'a list \<Rightarrow> exn + 'a list" where
  "pop_back xs = (if xs = [] then Inl Undefined_behaviour else Inr (butlast xs))"

definition pop_prefix :: "ASTParser gen" where
  "pop_prefix = bind_eff (gets_eff ap_prefix) (\<lambda>p. bind_eff (lift_eff (pop_back p)) (\<lambda>p'. modify_eff (\<lambda>s. s\<lparr>ap_prefix := p'\<rparr>)))"

definition pop_namespace :: "ASTParser gen" where
  "pop_namespace = bind_eff (gets_eff ap_currentNamespace) (\<lambda>ns. bind_eff (lift_eff (pop_back ns)) (\<lambda>ns'.
     modify_eff (\<lambda>s. s\<lparr>ap_currentNamespace := ns'\<rparr>)))"

definition ast_skipped :: "ast_entity \<Rightarrow> bool" where
  "ast_skipped e \<longleftrightarrow> ae_kind e = file_t \<or> ae_is_templated e \<or> ae_is_friended e"

definition visit_callback :: "AstSetting \<Rightarrow> string \<Rightarrow> visit_call \<Rightarrow> ASTParser gen" where
  "visit_callback env fileName = (\<lambda>(e, event, last_child).
     if ast_skipped e then return_eff ()
     else if event = container_entity_exit
     then seq_eff pop_prefix (seq_eff pop_prefix (if ae_kind e = namespace_t then pop_namespace else return_eff ()))
     else seq_eff (if event = container_entity_enter
                   then modify_eff (\<lambda>s. s\<lparr>ap_prefix := ap_prefix s @ (if last_child then ''  '' else ''| '')\<rparr>) else return_eff ())
         (seq_eff (if ae_kind e = namespace_t
                   then modify_eff (\<lambda>s. s\<lparr>ap_currentNamespace := ap_currentNamespace s @ [ae_name e]\<rparr>) else return_eff ())
            (parseEntity env fileName e)))"

text \<open>The prefix is a local variable: it is empty at the beginning of every file.\<close>

definition parseAst :: "AstSetting \<Rightarrow> string \<Rightarrow> visit_call list \<Rightarrow> ASTParser gen" where
  "parseAst env fileName calls =
     seq_eff (modify_eff (\<lambda>s. s\<lparr>ap_prefix := ''''\<rparr>)) (for_eff (visit_callback env fileName) calls)"

definition processPostAstParsingActions :: "ASTParser \<Rightarrow> ASTParser" where
  "processPostAstParsingActions s =
     s\<lparr>ap_interfaces := (\<lambda>name. case ap_interfaces s name of
         None \<Rightarrow> None
       | Some c \<Rightarrow> Some (case ap_xpcfTraits s name of None \<Rightarrow> c | Some t \<Rightarrow> setXpcfTrait t c))\<rparr>"

text \<open>What \<open>libclang\<close> gives for a file: its own error, or the visit of the file if there is one, and whether it reported errors.\<close>

datatype parse_outcome = Libclang_error | Parsed "(string \<times> visit_call list) option" bool

definition ASTParser_parse_file :: "AstSetting \<Rightarrow> parse_outcome \<Rightarrow> bool \<Rightarrow> (ASTParser, exn, nat) eff" where
  "ASTParser_parse_file env outcome fatal_error =
     (case outcome of
        Libclang_error \<Rightarrow> return_eff 1
      | Parsed parsed error \<Rightarrow>
          if fatal_error \<and> error then return_eff 1
          else case parsed of
              None \<Rightarrow> return_eff 2
            | Some (fileName, calls) \<Rightarrow>
                seq_eff (parseAst env fileName calls) (seq_eff (modify_eff processPostAstParsingActions) (return_eff 0)))"

text \<open>
  The same for the files of a compilation database; \<open>None\<close> is an error of \<open>libclang\<close>. Any other exception is caught.
\<close>

definition ASTParser_parse_database ::
  "AstSetting \<Rightarrow> ((string \<times> visit_call list) list \<times> bool) option \<Rightarrow> (ASTParser, exn, nat) eff" where
  "ASTParser_parse_database env outcome = catch_std
     (case outcome of
        None \<Rightarrow> return_eff 1
      | Some (files, error) \<Rightarrow>
          if error then return_eff 1
          else seq_eff (for_eff (\<lambda>(fileName, calls). parseAst env fileName calls) files)
                (seq_eff (modify_eff processPostAstParsingActions) (return_eff 0)))
     (\<lambda>_. return_eff 1)"

section \<open>The remote service generator\<close>

text \<open>
  The generators the remote service generator passes a class to, in their order, with the names of their steps; one that was not injected is
  \<open>None\<close>. Each gets the metadata the one before it returned. \<open>print_error\<close> writes to the error stream of the process.
\<close>

fun remote_generate ::
  "(string \<Rightarrow> 's gen) \<Rightarrow> (string \<times> 's AbstractGenerator list option) list \<Rightarrow> ClassDescriptor \<Rightarrow> GeneratorMetadata \<Rightarrow>
     ('s, exn, GeneratorMetadata) eff" where
  "remote_generate print_error [] c md = return_eff md"
| "remote_generate print_error ((generationStep, None) # rest) c md = remote_generate print_error rest c md"
| "remote_generate print_error ((generationStep, Some g) # rest) c md = (\<lambda>s.
     case generate_chain g c md s of
       (Inr md', s') \<Rightarrow> remote_generate print_error rest c md' s'
     | (Inl e, s') \<Rightarrow>
         if is_instance GenerationException e
         then seq_eff (print_error (''Error generating '' @ generationStep @ '' '' @ what e)) (return_eff md) s'
         else (Inl e, s'))"

definition RemoteServiceGenerator_steps ::
  "'s AbstractGenerator list option \<Rightarrow> 's AbstractGenerator list option \<Rightarrow> 's AbstractGenerator list option \<Rightarrow>
     's AbstractGenerator list option \<Rightarrow> (string \<times> 's AbstractGenerator list option) list" where
  "RemoteServiceGenerator_steps grpc proxy server project =
     [(''GRPC proto files'', grpc), (''GRPC C++ client proxy files'', proxy), (''GRPC C++ server files'', server),
      (''GRPC C++ project files'', project)]"

definition RemoteServiceGenerator_generateImpl ::
  "(string \<Rightarrow> 's gen) \<Rightarrow> 's AbstractGenerator list option \<Rightarrow> 's AbstractGenerator list option \<Rightarrow> 's AbstractGenerator list option \<Rightarrow>
     's AbstractGenerator list option \<Rightarrow> ClassDescriptor \<Rightarrow> GeneratorMetadata \<Rightarrow> ('s, exn, GeneratorMetadata) eff" where
  "RemoteServiceGenerator_generateImpl print_error grpc proxy server project =
     remote_generate print_error (RemoteServiceGenerator_steps grpc proxy server project)"

fun RemoteServiceGenerator_validateImpl ::
  "'s AbstractGenerator list option list \<Rightarrow> ClassDescriptor \<Rightarrow> GeneratorMetadata \<Rightarrow> ('s, exn, GeneratorMetadata) eff" where
  "RemoteServiceGenerator_validateImpl [] c md = return_eff md"
| "RemoteServiceGenerator_validateImpl (None # gs) c md = RemoteServiceGenerator_validateImpl gs c md"
| "RemoteServiceGenerator_validateImpl (Some g # gs) c md = bind_eff (validate_chain g c md) (RemoteServiceGenerator_validateImpl gs c)"

definition RemoteServiceGenerator_finalizeImpl :: "'s AbstractGenerator list option list \<Rightarrow> GeneratorMetadata \<Rightarrow> 's gen" where
  "RemoteServiceGenerator_finalizeImpl gs md =
     for_eff (\<lambda>g. case g of None \<Rightarrow> return_eff () | Some chain \<Rightarrow> finalize_chain chain md) gs"

section \<open>The documented visit\<close>

text \<open>
  \<open>cppast::visit\<close> calls the callback for every entity in the order of the file: once for a leaf, and before and after the
  children for a container. A namespace is a container, a class has its description.
\<close>

datatype ast_tree = Container ast_entity "ast_tree list" | Leaf ast_entity

fun calls_of :: "bool \<Rightarrow> ast_tree \<Rightarrow> visit_call list" and calls_of_all :: "ast_tree list \<Rightarrow> visit_call list" where
  "calls_of l (Leaf e) = [(e, leaf_entity, l)]"
| "calls_of l (Container e ts) = (e, container_entity_enter, l) # calls_of_all ts @ [(e, container_entity_exit, l)]"
| "calls_of_all [] = []"
| "calls_of_all (t # ts) = calls_of (ts = []) t @ calls_of_all ts"

fun documented :: "ast_tree \<Rightarrow> bool" where
  "documented (Leaf e) \<longleftrightarrow> ae_kind e \<noteq> namespace_t"
| "documented (Container e ts) \<longleftrightarrow> list_all documented ts"

definition inner_namespace :: "ast_entity \<Rightarrow> string list \<Rightarrow> string list" where
  "inner_namespace e ns = (if ae_kind e = namespace_t then ns @ [ae_name e] else ns)"

text \<open>The entities that are looked at, in the order of the file, each with the names of the namespaces around it.\<close>

fun entities_in :: "string list \<Rightarrow> ast_tree \<Rightarrow> (string list \<times> ast_entity) list"
  and entities_in_all :: "string list \<Rightarrow> ast_tree list \<Rightarrow> (string list \<times> ast_entity) list" where
  "entities_in ns (Leaf e) = (if ast_skipped e then [] else [(ns, e)])"
| "entities_in ns (Container e ts) =
     (if ast_skipped e then entities_in_all ns ts
      else (inner_namespace e ns, e) # entities_in_all (inner_namespace e ns) ts)"
| "entities_in_all ns [] = []"
| "entities_in_all ns (t # ts) = entities_in ns t @ entities_in_all ns ts"

section \<open>Every entity is parsed in its namespace\<close>

definition scoped :: "string list \<Rightarrow> string \<Rightarrow> ASTParser \<Rightarrow> ASTParser" where
  "scoped a b s = s\<lparr>ap_currentNamespace := a, ap_prefix := b\<rparr>"

lemma scoped_simps [simp]:
  "scoped a b (scoped a' b' s) = scoped a b s" "ap_currentNamespace (scoped a b s) = a" "ap_prefix (scoped a b s) = b"
  "(scoped a b s)\<lparr>ap_currentNamespace := a'\<rparr> = scoped a' b s" "(scoped a b s)\<lparr>ap_prefix := b'\<rparr> = scoped a b' s"
  "scoped (ap_currentNamespace s) (ap_prefix s) s = s" "ap_classes (scoped a b s) = ap_classes s"
  by (simp_all add: scoped_def)

text \<open>Parsing an entity in a given namespace neither reads nor changes where the visit is.\<close>

lemma parse_class_scoped:
  "parse_class env f ns cls (scoped a b s) = apsnd (scoped a b) (parse_class env f ns cls s)"
  by (auto simp: parse_class_def eff_simps scoped_def split: sum.splits prod.splits)

lemma parse_entity_scoped:
  "parse_entity_in env f ns e (scoped a b s) = apsnd (scoped a b) (parse_entity_in env f ns e s)"
proof -
  have "parseXpcfTrait e (scoped a b t) = scoped a b (parseXpcfTrait e t)" for t
    by (simp add: parseXpcfTrait_def scoped_def Let_def)
  then show ?thesis
    by (auto simp: parse_entity_in_def eff_simps parse_class_scoped apsnd_def map_prod_def split: option.splits sum.splits prod.splits)
qed

text \<open>
  \<open>in_scope a b m n s\<close>: from the state \<open>s\<close> at the namespace \<open>a\<close> and the prefix \<open>b\<close> the visit \<open>m\<close> does what \<open>n\<close> does and comes
  back there, unless an exception ends both.
\<close>

definition in_scope :: "string list \<Rightarrow> string \<Rightarrow> ASTParser gen \<Rightarrow> ASTParser gen \<Rightarrow> ASTParser \<Rightarrow> bool" where
  "in_scope a b m n s \<longleftrightarrow>
     (case n s of (Inr _, t) \<Rightarrow> m (scoped a b s) = (Inr (), scoped a b t)
      | (Inl e, t) \<Rightarrow> \<exists>a' b'. m (scoped a b s) = (Inl e, scoped a' b' t))"

lemma in_scope_seq:
  assumes "in_scope a b m n s" and "\<And>t. n s = (Inr (), t) \<Longrightarrow> in_scope a b m' n' t"
  shows "in_scope a b (seq_eff m m') (seq_eff n n') s"
  using assms by (fastforce simp: in_scope_def eff_simps split: prod.splits sum.splits)

abbreviation declare_entity :: "AstSetting \<Rightarrow> string \<Rightarrow> string list \<times> ast_entity \<Rightarrow> ASTParser gen" where
  "declare_entity env f \<equiv> (\<lambda>(ns, e). parse_entity_in env f ns e)"

lemma for_eff_appended: "for_eff h (us @ vs) = seq_eff (for_eff h us) (for_eff h vs)"
  by (rule ext) (rule for_eff_append)

lemma in_scope_append:
  assumes "in_scope a b (for_eff f xs) (for_eff g ys) s"
    and "\<And>t. for_eff g ys s = (Inr (), t) \<Longrightarrow> in_scope a b (for_eff f xs') (for_eff g ys') t"
  shows "in_scope a b (for_eff f (xs @ xs')) (for_eff g (ys @ ys')) s"
  using in_scope_seq [OF assms] by (simp add: for_eff_appended)

lemma for_eff_one: "for_eff f [x] = f x"
  by (rule ext) (auto simp: eff_simps split: prod.splits sum.splits)

lemma skipped_call: "ast_skipped e \<Longrightarrow> visit_callback env f (e, ev, l) s = (Inr (), s)"
  by (simp add: visit_callback_def eff_simps)

lemma leaf_call:
  assumes "\<not> ast_skipped e" and "ae_kind e \<noteq> namespace_t"
  shows "in_scope a b (visit_callback env f (e, leaf_entity, l)) (parse_entity_in env f a e) s"
  using assms by (auto simp: in_scope_def visit_callback_def parseEntity_def eff_simps parse_entity_scoped apsnd_def map_prod_def
      split: prod.splits sum.splits)

lemma enter_call:
  assumes "\<not> ast_skipped e"
  shows "visit_callback env f (e, container_entity_enter, l) (scoped a b s) =
    apsnd (scoped (inner_namespace e a) (b @ (if l then ''  '' else ''| ''))) (parse_entity_in env f (inner_namespace e a) e s)"
  using assms by (auto simp: visit_callback_def parseEntity_def eff_simps inner_namespace_def parse_entity_scoped)

lemma exit_call:
  assumes "\<not> ast_skipped e" and "length x = 2"
  shows "visit_callback env f (e, container_entity_exit, l) (scoped (inner_namespace e a) (b @ x) s) = (Inr (), scoped a b s)"
proof -
  from assms(2) obtain c d where "x = [c, d]"
    by (auto simp: numeral_2_eq_2 length_Suc_conv)
  with assms(1) show ?thesis
    by (auto simp: visit_callback_def pop_prefix_def pop_namespace_def pop_back_def eff_simps inner_namespace_def butlast_append)
qed

lemma visit_in_scope:
  "documented t \<Longrightarrow> in_scope a b (for_eff (visit_callback env f) (calls_of l t)) (for_eff (declare_entity env f) (entities_in a t)) s"
  "list_all documented ts \<Longrightarrow>
     in_scope a b (for_eff (visit_callback env f) (calls_of_all ts)) (for_eff (declare_entity env f) (entities_in_all a ts)) s"
proof (induction l t and ts arbitrary: a b s and a b s rule: calls_of_calls_of_all.induct)
  case (1 l e)
  show ?case
  proof (cases "ast_skipped e")
    case False
    with 1 show ?thesis
      by (simp add: for_eff_one leaf_call del: for_eff.simps)
  qed (simp add: in_scope_def eff_simps skipped_call)
next
  case (2 l e ts a b s)
  then have inner: "in_scope a b (for_eff (visit_callback env f) (calls_of_all ts))
      (for_eff (declare_entity env f) (entities_in_all a ts)) s" for a b s
    by simp
  show ?case
  proof (cases "ast_skipped e")
    case True
    with inner [of a b s] show ?thesis
      by (fastforce simp: in_scope_def eff_simps skipped_call for_eff_append split: prod.splits sum.splits)
  next
    case False
    let ?a = "inner_namespace e a" and ?x = "if l then ''  '' else ''| ''"
    have x: "length ?x = 2" by simp
    note enter = enter_call [OF False, of env f l a b s] and leave = exit_call [OF False x, of env f l a b]
    show ?thesis
    proof (cases "parse_entity_in env f ?a e s")
      case (Pair r t)
      obtain q u where n: "for_eff (declare_entity env f) (entities_in_all ?a ts) t = (q, u)"
        by (cases "for_eff (declare_entity env f) (entities_in_all ?a ts) t")
      have m: "for_eff (visit_callback env f) (calls_of l (Container e ts)) =
          seq_eff (visit_callback env f (e, container_entity_enter, l))
            (seq_eff (for_eff (visit_callback env f) (calls_of_all ts)) (visit_callback env f (e, container_entity_exit, l)))"
        by (simp only: calls_of.simps for_eff.simps(2) [of _ "(e, container_entity_enter, l)"] for_eff_appended for_eff_one)
      have d: "for_eff (declare_entity env f) (entities_in a (Container e ts)) =
          seq_eff (parse_entity_in env f ?a e) (for_eff (declare_entity env f) (entities_in_all ?a ts))"
        using False by simp
      show ?thesis
      proof (cases r)
        case (Inl x)
        with Pair enter show ?thesis
          unfolding m d by (auto simp: in_scope_def seq_eff_run)
      next
        case (Inr x)
        with Pair enter inner [of ?a "b @ ?x" t] leave [of u] n show ?thesis
          unfolding m d by (cases q) (fastforce simp: in_scope_def seq_eff_run)+
      qed
    qed
  qed
next
  case 3
  then show ?case by (simp add: in_scope_def eff_simps)
next
  case (4 t ts)
  then show ?case by (auto intro: in_scope_append)
qed

lemma for_declare_scoped:
  "for_eff (declare_entity env f) es (scoped a b s) = apsnd (scoped a b) (for_eff (declare_entity env f) es s)"
  by (induction es arbitrary: s)
    (auto simp: eff_simps parse_entity_scoped apsnd_def map_prod_def split: prod.splits sum.splits)

text \<open>
  Property C33. Parsing a file, visited as documented, records what parsing its entities one after the other does, each in the namespaces
  around it: the classes and interfaces are named by these, entities that are templated or friends are passed over but not what is in them, and
  the result, an exception included, is the same. At the end the visit is back in the namespace it started from, and it never
  shortens an empty prefix or an empty list of namespaces.
\<close>

theorem entities_in_their_namespace:
  assumes "list_all documented ts" and "parseAst env f (calls_of_all ts) s = (r, t)"
  shows "for_eff (declare_entity env f) (entities_in_all (ap_currentNamespace s) ts) (s\<lparr>ap_prefix := ''''\<rparr>) =
      (r, scoped (ap_currentNamespace s) '''' t) \<and>
    (r = Inr () \<longrightarrow> ap_currentNamespace t = ap_currentNamespace s \<and> ap_prefix t = '''')"
proof -
  let ?a = "ap_currentNamespace s" and ?n = "for_eff (declare_entity env f) (entities_in_all (ap_currentNamespace s) ts)"
  have start: "s\<lparr>ap_prefix := ''''\<rparr> = scoped ?a '''' s"
    by (simp add: scoped_def)
  have run: "for_eff (visit_callback env f) (calls_of_all ts) (scoped ?a '''' s) = (r, t)"
    using assms(2) by (simp add: parseAst_def eff_simps start)
  obtain q u where n: "?n s = (q, u)"
    by (cases "?n s")
  with visit_in_scope(2) [OF assms(1), of ?a "''''" env f s] run
  have "r = q \<and> scoped ?a '''' t = scoped ?a '''' u \<and> (r = Inr () \<longrightarrow> t = scoped ?a '''' u)"
    by (cases q) (auto simp: in_scope_def)
  then show ?thesis
    using n by (auto simp: start for_declare_scoped)
qed

definition sample_entity :: "entity_kind \<Rightarrow> string \<Rightarrow> cpp_class option \<Rightarrow> ast_entity" where
  "sample_entity k n c = \<lparr>ae_kind = k, ae_name = n, ae_is_templated = False, ae_is_friended = False, ae_class = c,
     ae_unexposed_arguments = '''', ae_variables = []\<rparr>"

definition sample_file :: ast_tree where
  "sample_file = Container (sample_entity file_t ''/i/IShape.h'' None)
     [Container (sample_entity namespace_t ''geo'' None) [Container (sample_entity class_t ''IShape'' (Some sample_shape)) []]]"

definition sample_setting :: AstSetting where
  "sample_setting = \<lparr>as_cppast = sample_cppast, as_raw = sample_raw, as_string_generator = (\<lambda>_. None), as_interfacesAbsolutePath = ''/i/''\<rparr>"

theorem entities_in_their_namespace_witness:
  "\<exists>t. parseAst sample_setting ''/i/IShape.h'' (calls_of_all [sample_file]) newASTParser = (Inr (), t) \<and>
     ap_currentNamespace t = [] \<and> ap_interfaces t ''geo::IShape'' \<noteq> None"
proof -
  obtain r t where run: "parseAst sample_setting ''/i/IShape.h'' (calls_of_all [sample_file]) newASTParser = (r, t)"
    by (cases "parseAst sample_setting ''/i/IShape.h'' (calls_of_all [sample_file]) newASTParser")
  have "case for_eff (declare_entity sample_setting ''/i/IShape.h'') (entities_in_all [] [sample_file]) newASTParser of
      (r, t) \<Rightarrow> r = Inr () \<and> ap_interfaces t ''geo::IShape'' \<noteq> None"
    by code_simp
  moreover have "list_all documented [sample_file]"
    by (simp add: sample_file_def sample_entity_def)
  note entities_in_their_namespace [OF this run]
  moreover have "newASTParser\<lparr>ap_prefix := ''''\<rparr> = newASTParser" "ap_currentNamespace newASTParser = []"
    by (simp_all add: newASTParser_def)
  moreover have "ap_interfaces (scoped [] '''' t) = ap_interfaces t"
    by (simp add: scoped_def)
  ultimately show ?thesis
    using run by (auto split: prod.splits)
qed

end
