(* ===== verification/Xpcf_GenFlatBuffer.thy ===== *)
theory Xpcf_GenFlatBuffer
  imports Xpcf_GenCpp
begin

text \<open>
  The generator of FlatBuffers files, \<^verbatim>\<open>tools/generators/grpc/GRPCFlatBufferGenerator.cpp\<close>: the text it writes for the messages
  and the service of a class. Its function \<open>getTypeName\<close>, which nothing calls, is not modelled.
\<close>

section \<open>Types\<close>

text \<open>The table has every type, and an empty name for each.\<close>

definition builtinType2flatbufferTypeMap :: "cpp_builtin_type \<rightharpoonup> string" where
  "builtinType2flatbufferTypeMap t = Some ''''"

definition GRPCFlatBufferGenerator_tryConvertType :: "cpp_builtin_type \<Rightarrow> string" where
  "GRPCFlatBufferGenerator_tryConvertType t = (case builtinType2flatbufferTypeMap t of Some n \<Rightarrow> n | None \<Rightarrow> '''')"

section \<open>Messages\<close>

definition flat_prepareMessage :: "MethodDescriptor \<Rightarrow> MethodDescriptor" where
  "flat_prepareMessage m =
     (let m1 = (if md_inParams m \<noteq> [] \<or> md_inoutParams m \<noteq> [] then m\<lparr>md_requestName := md_rpcName m @ ''Request''\<rparr> else m)
      in if md_outParams m1 \<noteq> [] \<or> md_inoutParams m1 \<noteq> [] \<or> \<not> td_isVoid (md_returnDescriptor m1)
         then m1\<lparr>md_responseName := md_rpcName m1 @ ''Response''\<rparr> else m1)"

definition GRPCFlatBufferGenerator_prepareMessages :: "ClassDescriptor \<Rightarrow> ClassDescriptor" where
  "GRPCFlatBufferGenerator_prepareMessages c = c\<lparr>cd_virtualMethods := List.map flat_prepareMessage (cd_virtualMethods c)\<rparr>"

text \<open>\<open>typeName\<close> is declared before the loops, and a parameter of an enumeration type does not assign it.\<close>

definition flat_typeName :: "string \<Rightarrow> ParameterDescriptor \<Rightarrow> string" where
  "flat_typeName typeName p =
     (if td_kind (pd_type p) \<noteq> enum_t
      then (if td_kind (pd_type p) \<noteq> builtin_t then ti_typename (td_info (pd_type p))
            else GRPCFlatBufferGenerator_tryConvertType (ti_builtinType (td_info (pd_type p))))
      else typeName)"

fun flat_fields :: "string \<Rightarrow> nat \<Rightarrow> ParameterDescriptor list \<Rightarrow> string" where
  "flat_fields typeName fieldIndex [] = ''''"
| "flat_fields typeName fieldIndex (p # ps) =
     (let t = flat_typeName typeName p in
      t @ '' '' @ pd_name p @ '' = '' @ to_string (int fieldIndex) @ '';'' @ nl @ flat_fields t (Suc fieldIndex) ps)"

definition flat_message :: "string \<Rightarrow> ParameterDescriptor list \<Rightarrow> string" where
  "flat_message name ps =
     (if name \<noteq> ''Empty''
      then ''Message '' @ name @ nl @ ''{'' @ nl @ flat_fields ''int64'' 0 ps @ ''}'' @ nl @ nl
      else '''')"

definition GRPCFlatBufferGenerator_generateMessages :: "MethodDescriptor \<Rightarrow> string" where
  "GRPCFlatBufferGenerator_generateMessages m =
     flat_message (md_requestName m) (List.map (\<lambda>i. md_params m ! i) (md_inParams m) @ List.map (\<lambda>i. md_params m ! i) (md_inoutParams m)) @
     flat_message (md_responseName m) (List.map (\<lambda>i. md_params m ! i) (md_inoutParams m) @ List.map (\<lambda>i. md_params m ! i) (md_outParams m))"

section \<open>The service\<close>

definition flat_streaming :: "MethodDescriptor \<Rightarrow> string" where
  "flat_streaming m =
     (if md_rpcStreamingType m = client_streaming \<and> md_requestName m \<noteq> ''Empty'' then ''(streaming: client)'' else '''') @
     (if md_rpcStreamingType m = server_streaming \<and> md_responseName m \<noteq> ''Empty'' then ''(streaming: server)'' else '''') @
     (if md_rpcStreamingType m = bidir_streaming \<and> md_responseName m \<noteq> ''Empty'' \<and> md_requestName m \<noteq> ''Empty''
      then ''(streaming: bidi)'' else '''')"

definition GRPCFlatBufferGenerator_generateService :: "string \<Rightarrow> ClassDescriptor \<Rightarrow> string" where
  "GRPCFlatBufferGenerator_generateService serviceName c =
     ''rpc_service '' @ serviceName @ '' {'' @ nl @
     concat (List.map (\<lambda>m. md_rpcName m @ ''('' @ md_requestName m @ ''):'' @ md_responseName m @ '' '' @ flat_streaming m @ '';'' @ nl)
       (cd_virtualMethods c)) @
     ''}'' @ nl"

definition GRPCFlatBufferGenerator_text :: "string \<Rightarrow> ClassDescriptor \<Rightarrow> string" where
  "GRPCFlatBufferGenerator_text serviceName c =
     concat (List.map GRPCFlatBufferGenerator_generateMessages (cd_virtualMethods c)) @
     GRPCFlatBufferGenerator_generateService serviceName c"

definition GRPCFlatBufferGenerator_generateImpl :: "'f Filesystem_scheme \<Rightarrow> GenerateMode \<Rightarrow> string \<Rightarrow> ComponentGenerator gen" where
  "GRPCFlatBufferGenerator_generateImpl fs mode folder = modify_eff (\<lambda>g.
     let serviceName = ''grpc'' @ cd_name (gr_class g) @ ''Service''; path = serviceName @ ''.proto'';
         c = GRPCFlatBufferGenerator_prepareMessages (cd_setMetadata GRPCPROTOFILENAME path (cd_setMetadata GRPCSERVICENAME serviceName (gr_class g)));
         written = GRPCFlatBufferGenerator_text serviceName c
     in if mode = STD_COUT then g\<lparr>gr_class := c, gr_cout := gr_cout g @ written\<rparr>
        else g\<lparr>gr_class := c, gr_files := gr_files g @ [(fs_append fs folder path, written)]\<rparr>)"

section \<open>What is written for the types\<close>

text \<open>
  The type of a parameter of an enumeration type is the type of the nearest parameter before it that has another kind, and
  \<open>int64\<close> when there is none; the type of a parameter of a builtin type is empty.
\<close>

definition nearest_type :: "ParameterDescriptor list \<Rightarrow> string" where
  "nearest_type ps = fold (\<lambda>p t. flat_typeName t p) ps ''int64''"

lemma flat_fields_types:
  "flat_fields t k ps = concat (List.map (\<lambda>i. fold (\<lambda>p t. flat_typeName t p) (take (Suc i) ps) t @ '' '' @ pd_name (ps ! i) @ '' = '' @
     to_string (int (k + i)) @ '';'' @ nl) [0..<length ps])"
  by (induction ps arbitrary: t k) (simp_all add: Let_def upt_conv_Cons map_Suc_upt [symmetric] comp_def ac_simps del: upt_Suc)

lemma nearest_type_enum:
  "td_kind (pd_type p) = enum_t \<Longrightarrow> nearest_type (ps @ [p]) = nearest_type ps"
  "td_kind (pd_type p) = builtin_t \<Longrightarrow> nearest_type (ps @ [p]) = ''''"
  "td_kind (pd_type p) \<noteq> enum_t \<Longrightarrow> td_kind (pd_type p) \<noteq> builtin_t \<Longrightarrow> nearest_type (ps @ [p]) = ti_typename (td_info (pd_type p))"
  by (simp_all add: nearest_type_def flat_typeName_def GRPCFlatBufferGenerator_tryConvertType_def builtinType2flatbufferTypeMap_def)

end
