(* ===== verification/Xpcf_ComponentManager.thy ===== *)
theory Xpcf_ComponentManager
  imports Xpcf_FactoryConfig
begin

text \<open>
  \<^verbatim>\<open>src/ComponentManager.cpp\<close>: the single component manager of a process and what it passes on to the factory, the
  registry and the property manager; and the construction of the factory (\<^verbatim>\<open>src/Factory.cpp\<close>), which binds the three
  core components and resolves them. The instance is made by double-checked locking: the threads that ask for it are a
  step relation, with a step for every access to the atomic pointer and to the mutex.
\<close>

section \<open>The instance\<close>

text \<open>
  Where a thread is in \<open>instance\<close>: it read a null pointer and waits for the mutex; it holds the mutex and is to read again;
  it is to make the manager; it made it and is to store it; it is to release the mutex with the answer, which is the
  exception when the constructor threw. \<open>Outside\<close> is a thread that is not in a call.
\<close>

datatype instance_at = Outside_call | Waiting_lock | Reading_again | Making_instance | Storing_instance nat | Leaving_call "exn + nat"

text \<open>
  The atomic pointer, the owner of the mutex, the threads, the managers made so far and the answers in the order they were
  given. The accesses to one atomic variable have one order, so the second read, which comes after the mutex was
  taken, sees the store of a thread that held it before.
\<close>

record InstanceCell =
  ic_instance :: "nat option"
  ic_mutex :: "nat option"
  ic_threads :: "nat \<Rightarrow> instance_at"
  ic_made :: "nat list"
  ic_answers :: "(exn + nat) list"

definition InstanceCell_init :: InstanceCell where
  "InstanceCell_init = \<lparr>ic_instance = None, ic_mutex = None, ic_threads = (\<lambda>_. Outside_call), ic_made = [], ic_answers = []\<rparr>"

definition moved :: "nat \<Rightarrow> instance_at \<Rightarrow> InstanceCell \<Rightarrow> InstanceCell" where
  "moved t th s = s\<lparr>ic_threads := (ic_threads s)(t := th)\<rparr>"

definition answered :: "exn + nat \<Rightarrow> InstanceCell \<Rightarrow> InstanceCell" where
  "answered r s = s\<lparr>ic_answers := ic_answers s @ [r]\<rparr>"

inductive instance_step :: "nat \<Rightarrow> InstanceCell \<Rightarrow> InstanceCell \<Rightarrow> bool" for t where
  found: "ic_threads s t = Outside_call \<Longrightarrow> ic_instance s = Some p \<Longrightarrow> instance_step t s (answered (Inr p) s)"
| missing: "ic_threads s t = Outside_call \<Longrightarrow> ic_instance s = None \<Longrightarrow> instance_step t s (moved t Waiting_lock s)"
| lock: "ic_threads s t = Waiting_lock \<Longrightarrow> ic_mutex s = None \<Longrightarrow> instance_step t s (moved t Reading_again (s\<lparr>ic_mutex := Some t\<rparr>))"
| found_again: "ic_threads s t = Reading_again \<Longrightarrow> ic_instance s = Some p \<Longrightarrow> instance_step t s (moved t (Leaving_call (Inr p)) s)"
| missing_again: "ic_threads s t = Reading_again \<Longrightarrow> ic_instance s = None \<Longrightarrow> instance_step t s (moved t Making_instance s)"
| make: "ic_threads s t = Making_instance \<Longrightarrow> p = length (ic_made s) \<Longrightarrow>
    instance_step t s (moved t (Storing_instance p) (s\<lparr>ic_made := ic_made s @ [p]\<rparr>))"
| constructor_throws: "ic_threads s t = Making_instance \<Longrightarrow> instance_step t s (moved t (Leaving_call (Inl e)) s)"
| store: "ic_threads s t = Storing_instance p \<Longrightarrow>
    instance_step t s (moved t (Leaving_call (Inr p)) (s\<lparr>ic_instance := Some p\<rparr>))"
| unlock: "ic_threads s t = Leaving_call r \<Longrightarrow> instance_step t s (answered r (moved t Outside_call (s\<lparr>ic_mutex := None\<rparr>)))"

inductive instance_reach :: "InstanceCell \<Rightarrow> bool" where
  created: "instance_reach InstanceCell_init"
| stepped: "instance_reach s \<Longrightarrow> instance_step t s s' \<Longrightarrow> instance_reach s'"

fun holds_instance_mutex :: "instance_at \<Rightarrow> bool" where
  "holds_instance_mutex Outside_call = False"
| "holds_instance_mutex Waiting_lock = False"
| "holds_instance_mutex _ = True"

text \<open>What the pointer and the managers made so far are when a thread is at a point.\<close>

fun knows_instance :: "nat option \<Rightarrow> nat list \<Rightarrow> instance_at \<Rightarrow> bool" where
  "knows_instance i m Making_instance = (i = None \<and> m = [])"
| "knows_instance i m (Storing_instance p) = (i = None \<and> m = [p])"
| "knows_instance i m (Leaving_call (Inr p)) = (i = Some p)"
| "knows_instance i m _ = True"

definition instance_ok :: "InstanceCell \<Rightarrow> bool" where
  "instance_ok s \<longleftrightarrow>
     (\<forall>t. holds_instance_mutex (ic_threads s t) \<longleftrightarrow> ic_mutex s = Some t) \<and>
     (\<forall>t. knows_instance (ic_instance s) (ic_made s) (ic_threads s t)) \<and>
     (\<forall>p. ic_instance s = Some p \<longrightarrow> ic_made s = [p]) \<and>
     (ic_instance s = None \<longrightarrow> ic_made s = [] \<or> (\<exists>t p. ic_threads s t = Storing_instance p)) \<and>
     (\<forall>p. Inr p \<in> set (ic_answers s) \<longrightarrow> ic_instance s = Some p)"

lemma knows_without_mutex: "\<not> holds_instance_mutex th \<Longrightarrow> knows_instance i m th"
  by (cases th) auto

lemma mutex_alone: "instance_ok s \<Longrightarrow> holds_instance_mutex (ic_threads s t) \<Longrightarrow> u \<noteq> t \<Longrightarrow> \<not> holds_instance_mutex (ic_threads s u)"
  by (auto simp: instance_ok_def)

lemma alone_not_storing:
  assumes "instance_ok s" and "holds_instance_mutex (ic_threads s t)" and "\<And>q. ic_threads s t \<noteq> Storing_instance q"
  shows "ic_threads s u \<noteq> Storing_instance p"
  using mutex_alone [OF assms(1,2), of u] assms(3) by (cases "u = t") auto

lemma instance_ok_outside:
  assumes "instance_ok s" and "ic_threads s t = Outside_call"
  shows "instance_ok (moved t Waiting_lock s)"
proof -
  have "ic_threads s t \<noteq> Storing_instance p" for p
    using assms(2) by simp
  moreover have "ic_mutex s \<noteq> Some t"
    using assms by (auto simp: instance_ok_def dest!: spec [of _ t])
  ultimately show ?thesis
    using assms(1) unfolding instance_ok_def by (auto simp: moved_def) metis
qed

lemma instance_ok_lock:
  assumes "instance_ok s" and "ic_mutex s = None"
  shows "instance_ok (moved t Reading_again (s\<lparr>ic_mutex := Some t\<rparr>))"
proof -
  have free: "\<not> holds_instance_mutex (ic_threads s u)" for u
    using assms by (simp add: instance_ok_def)
  then have "ic_threads s u \<noteq> Storing_instance p" for u p
    by (metis holds_instance_mutex.simps(5))
  with free assms(1) show ?thesis
    by (auto simp: instance_ok_def moved_def)
qed

text \<open>A step of the thread that holds the mutex: the others are outside the critical section and know nothing.\<close>

lemma instance_ok_inside:
  assumes "instance_ok s" and "holds_instance_mutex (ic_threads s t)" and "\<And>u. u \<noteq> t \<Longrightarrow> ic_threads s' u = ic_threads s u"
    and "holds_instance_mutex (ic_threads s' t) \<longleftrightarrow> ic_mutex s' = Some t" and "ic_mutex s' = Some t \<or> ic_mutex s' = None"
    and "knows_instance (ic_instance s') (ic_made s') (ic_threads s' t)"
    and "\<And>p. ic_instance s' = Some p \<Longrightarrow> ic_made s' = [p]"
    and "ic_instance s' = None \<Longrightarrow> ic_made s' = [] \<or> (\<exists>p. ic_threads s' t = Storing_instance p)"
    and "\<And>p. Inr p \<in> set (ic_answers s') \<Longrightarrow> ic_instance s' = Some p"
  shows "instance_ok s'"
  unfolding instance_ok_def
proof (intro conjI allI impI)
  fix u
  show "holds_instance_mutex (ic_threads s' u) \<longleftrightarrow> ic_mutex s' = Some u"
    using assms(3-5) mutex_alone [OF assms(1,2), of u] by (cases "u = t") auto
  show "knows_instance (ic_instance s') (ic_made s') (ic_threads s' u)"
    using assms(3,6) mutex_alone [OF assms(1,2), of u] by (cases "u = t") (auto intro: knows_without_mutex)
qed (use assms(7-9) in auto)

lemma instance_ok_step:
  assumes "instance_ok s" and "instance_step t s s'"
  shows "instance_ok s'"
proof -
  have inside: "knows_instance (ic_instance s) (ic_made s) (ic_threads s t)"
      "\<And>p. ic_instance s = Some p \<Longrightarrow> ic_made s = [p]" "\<And>p. Inr p \<in> set (ic_answers s) \<Longrightarrow> ic_instance s = Some p"
      "holds_instance_mutex (ic_threads s t) \<longleftrightarrow> ic_mutex s = Some t"
    using assms(1) by (auto simp: instance_ok_def)
  have none: "ic_made s = []" if "ic_instance s = None" "holds_instance_mutex (ic_threads s t)" "\<And>q. ic_threads s t \<noteq> Storing_instance q"
    using that assms(1) alone_not_storing [OF assms(1) that(2)] by (auto simp: instance_ok_def)
  from assms(2) show ?thesis
  proof cases
    case (found p)
    with assms(1) show ?thesis by (auto simp: instance_ok_def answered_def)
  next
    case missing
    with assms(1) show ?thesis by (simp add: instance_ok_outside)
  next
    case lock
    with assms(1) show ?thesis by (simp add: instance_ok_lock)
  next
    case (found_again p)
    with inside none show ?thesis
      by (intro instance_ok_inside [OF assms(1), of t]) (auto simp: moved_def answered_def)
  next
    case missing_again
    with inside none show ?thesis
      by (intro instance_ok_inside [OF assms(1), of t]) (auto simp: moved_def answered_def)
  next
    case (make p)
    with inside none show ?thesis
      by (intro instance_ok_inside [OF assms(1), of t]) (auto simp: moved_def answered_def)
  next
    case (constructor_throws e)
    with inside none show ?thesis
      by (intro instance_ok_inside [OF assms(1), of t]) (auto simp: moved_def answered_def)
  next
    case (store p)
    with inside none show ?thesis
      by (intro instance_ok_inside [OF assms(1), of t]) (auto simp: moved_def answered_def)
  next
    case (unlock r)
    with inside none show ?thesis
      by (intro instance_ok_inside [OF assms(1), of t]) (auto simp: moved_def answered_def)
  qed
qed

lemma instance_ok_reach: "instance_reach s \<Longrightarrow> instance_ok s"
proof (induction rule: instance_reach.induct)
  case created
  then show ?case by (simp add: instance_ok_def InstanceCell_init_def)
qed (rule instance_ok_step)

text \<open>The thread that holds the mutex can always make its next step.\<close>

lemma inside_steps: "holds_instance_mutex (ic_threads s t) \<Longrightarrow> \<exists>s'. instance_step t s s'"
  by (cases "ic_threads s t"; cases "ic_instance s") (auto intro: instance_step.intros)

text \<open>
  Property C21. However the threads that ask for the component manager are interleaved, and whatever constructors throw: at most one manager is
  made, every call that is answered with a manager is answered with that one, and as long as a thread is in a call, a thread that
  is in a call can make a step.
\<close>

theorem one_component_manager:
  assumes "instance_reach s"
  shows "length (ic_made s) \<le> 1 \<and> (\<forall>p. Inr p \<in> set (ic_answers s) \<longrightarrow> ic_made s = [p]) \<and>
    (\<forall>t. ic_threads s t \<noteq> Outside_call \<longrightarrow> (\<exists>u s'. ic_threads s u \<noteq> Outside_call \<and> instance_step u s s'))"
proof (intro conjI allI impI)
  note ok = instance_ok_reach [OF assms]
  show "length (ic_made s) \<le> 1"
  proof (cases "ic_instance s")
    case None
    with ok have "ic_made s = [] \<or> (\<exists>t p. ic_threads s t = Storing_instance p \<and> ic_made s = [p])"
      unfolding instance_ok_def by (metis knows_instance.simps(2))
    then show ?thesis by auto
  qed (use ok in \<open>simp add: instance_ok_def\<close>)
  show "ic_made s = [p]" if "Inr p \<in> set (ic_answers s)" for p
    using that ok by (auto simp: instance_ok_def)
  show "\<exists>u s'. ic_threads s u \<noteq> Outside_call \<and> instance_step u s s'" if "ic_threads s t \<noteq> Outside_call" for t
  proof (cases "ic_mutex s")
    case (Some u)
    with ok have "holds_instance_mutex (ic_threads s u)" by (simp add: instance_ok_def)
    with inside_steps [OF this] show ?thesis by (metis holds_instance_mutex.simps(1))
  next
    case None
    with ok have "\<not> holds_instance_mutex (ic_threads s t)" by (simp add: instance_ok_def)
    with that have "ic_threads s t = Waiting_lock" by (cases "ic_threads s t") auto
    with None show ?thesis by (metis instance_step.lock that)
  qed
qed

text \<open>Two threads read the null pointer; the constructor of the first throws, and the second makes the manager.\<close>

theorem one_component_manager_witness:
  "\<exists>s. instance_reach s \<and> ic_answers s = [Inl Bad_function_call, Inr 0] \<and> ic_made s = [0]"
proof -
  let ?i = InstanceCell_init
  let ?a = "moved 1 Waiting_lock (moved 0 Waiting_lock ?i)"
  let ?b = "moved 0 Reading_again (?a\<lparr>ic_mutex := Some 0\<rparr>)"
  let ?c = "moved 0 (Leaving_call (Inl Bad_function_call)) (moved 0 Making_instance ?b)"
  let ?d = "answered (Inl Bad_function_call) (moved 0 Outside_call (?c\<lparr>ic_mutex := None\<rparr>))"
  let ?e = "moved 1 Making_instance (moved 1 Reading_again (?d\<lparr>ic_mutex := Some 1\<rparr>))"
  let ?f = "moved 1 (Storing_instance 0) (?e\<lparr>ic_made := ic_made ?e @ [0]\<rparr>)"
  let ?g = "moved 1 (Leaving_call (Inr 0)) (?f\<lparr>ic_instance := Some 0\<rparr>)"
  let ?h = "answered (Inr 0) (moved 1 Outside_call (?g\<lparr>ic_mutex := None\<rparr>))"
  note fields = moved_def answered_def InstanceCell_init_def
  have "instance_reach (moved 0 Waiting_lock ?i)"
    by (rule stepped [OF created]) (rule missing, simp_all add: fields)
  then have "instance_reach ?a"
    by (rule stepped) (rule missing, simp_all add: fields)
  then have "instance_reach ?b"
    by (rule stepped) (rule instance_step.lock, simp_all add: fields)
  then have "instance_reach (moved 0 Making_instance ?b)"
    by (rule stepped) (rule missing_again, simp_all add: fields)
  then have "instance_reach ?c"
    by (rule stepped) (rule constructor_throws, simp_all add: fields)
  then have "instance_reach ?d"
    by (rule stepped) (rule unlock, simp_all add: fields)
  then have "instance_reach (moved 1 Reading_again (?d\<lparr>ic_mutex := Some 1\<rparr>))"
    by (rule stepped) (rule instance_step.lock, simp_all add: fields)
  then have "instance_reach ?e"
    by (rule stepped) (rule missing_again, simp_all add: fields)
  then have "instance_reach ?f"
    by (rule stepped) (rule make, simp_all add: fields)
  then have "instance_reach ?g"
    by (rule stepped) (rule store, simp_all add: fields)
  then have reach: "instance_reach ?h"
    by (rule stepped) (rule unlock, simp_all add: fields)
  have answers: "ic_answers ?h = [Inl Bad_function_call, Inr 0]"
    by (simp add: fields)
  then have "ic_made ?h = [0]"
    using one_component_manager [OF reach] by simp
  with reach answers show ?thesis by blast
qed

section \<open>The factory\<close>

definition IAliasManager_UUID :: uuid where "IAliasManager_UUID = 0x2855F87952AA42F6A84AD9D3FD37D28F"
definition IRegistryManager_UUID :: uuid where "IRegistryManager_UUID = 0x3AE3A5D2F200407889EF5AE1F5EF1A17"
definition IPropertyManager_UUID :: uuid where "IPropertyManager_UUID = 0xC939A7FBB0C247BA945848F4AB228D92"
definition AliasManager_UUID :: uuid where "AliasManager_UUID = 0x007AF927A5854D2CB6049CF25B4B191A"
definition Registry_UUID :: uuid where "Registry_UUID = 0xC79C683D64F44F7FB43AEF8F368F9940"
definition PropertyManager_UUID :: uuid where "PropertyManager_UUID = 0xFF18E0388D1741FFAFEB5927DF713DD2"

text \<open>\<open>bindCore<I, C, scope>\<close>; \<open>create\<close> is \<open>ComponentFactory::create<C>\<close>.\<close>

definition Factory_bindCore_component ::
  "uuid \<Rightarrow> uuid \<Rightarrow> BindingScope \<Rightarrow> factory_method \<Rightarrow> ('a FactoryState_scheme, exn, unit) eff" where
  "Factory_bindCore_component interfaceUUID componentUUID scope create = modify_eff (\<lambda>s.
     s\<lparr>f_coreBindings := Factory_bindCore interfaceUUID
         \<lparr>bi_componentUUID = componentUUID, bi_scope = scope, bi_bindingRangeMask = BindingRange_Core, bi_properties = ''''\<rparr> (f_coreBindings s),
       f_coreFactoryMethods := (f_coreFactoryMethods s)(componentUUID \<mapsto> create)\<rparr>)"

text \<open>
  The constructor of the factory, on a state without bindings: it makes the context, binds the core components and resolves
  them; \<open>creates\<close> are the functions that make them. The interfaces the code asks the resolved components for are
  interfaces of the core components themselves. The binder of the registry is an argument of the operations
  of the registry that call it.
\<close>

definition Factory_new :: "'p Framework_scheme \<Rightarrow> nat \<Rightarrow> (uuid \<Rightarrow> factory_method) \<Rightarrow> ('a FactoryState_scheme, exn, unit) eff" where
  "Factory_new fw depth creates =
     seq_eff (modify_eff (\<lambda>s. s\<lparr>f_context := FactoryContext_init\<rparr>))
    (seq_eff (Factory_bindCore_component IAliasManager_UUID AliasManager_UUID Singleton (creates AliasManager_UUID))
    (seq_eff (Factory_bindCore_component IRegistryManager_UUID Registry_UUID Singleton (creates Registry_UUID))
    (seq_eff (Factory_bindCore_component IPropertyManager_UUID PropertyManager_UUID Singleton (creates PropertyManager_UUID))
       (for_eff (\<lambda>u. bind_eff (Factory_resolve fw depth u []) (\<lambda>_. return_eff ()))
          [IPropertyManager_UUID, IAliasManager_UUID, IRegistryManager_UUID]))))"

section \<open>What the component manager passes on\<close>

text \<open>The state of the factory and of the core components, with the flag of the manager itself.\<close>

record ComponentManagerState = FactoryState +
  cm_libraryLoaded :: bool

definition ComponentManager_load :: "'p Platform_scheme \<Rightarrow> ('a ComponentManagerState_scheme, exn, XPCFErrorCode) eff" where
  "ComponentManager_load pf = Factory_load pf"

definition ComponentManager_load_file ::
  "'p Platform_scheme \<Rightarrow> string option \<Rightarrow> ('a ComponentManagerState_scheme, exn, XPCFErrorCode) eff" where
  "ComponentManager_load_file pf libraryFilePath = Factory_load_file pf libraryFilePath"

definition ComponentManager_load_folder ::
  "'p Platform_scheme \<Rightarrow> string option \<Rightarrow> bool \<Rightarrow> ('a ComponentManagerState_scheme, exn, XPCFErrorCode) eff" where
  "ComponentManager_load_folder pf folderPathStr bRecurse = Factory_load_folder pf folderPathStr bRecurse"

definition ComponentManager_clear :: "('a ComponentManagerState_scheme, exn, unit) eff" where
  "ComponentManager_clear =
     seq_eff PropertyManager_clear (seq_eff Factory_clear (modify_eff (\<lambda>s. s\<lparr>cm_libraryLoaded := False\<rparr>)))"

definition ComponentManager_createComponent ::
  "'p Framework_scheme \<Rightarrow> nat \<Rightarrow> string option \<Rightarrow> uuid \<Rightarrow> ('a ComponentManagerState_scheme, exn, nat) eff" where
  "ComponentManager_createComponent fw depth instanceName componentUUID = Factory_createComponent fw depth instanceName componentUUID"

definition ComponentManager_getModuleUUID :: "'p Platform_scheme \<Rightarrow> uuid \<Rightarrow> 'a ComponentManagerState_scheme \<Rightarrow> exn + uuid" where
  "ComponentManager_getModuleUUID pf componentUUID s = Registry_getModuleUUID pf componentUUID s"

definition ComponentManager_findModuleMetadata :: "'p Platform_scheme \<Rightarrow> uuid \<Rightarrow> 'a ComponentManagerState_scheme \<Rightarrow> exn + nat" where
  "ComponentManager_findModuleMetadata pf moduleUUID s = Registry_findModuleMetadata pf moduleUUID s"

definition ComponentManager_findComponentMetadata ::
  "'p Platform_scheme \<Rightarrow> uuid \<Rightarrow> 'a ComponentManagerState_scheme \<Rightarrow> exn + nat option" where
  "ComponentManager_findComponentMetadata pf componentUUID s = Registry_findComponentMetadata pf componentUUID s"

definition ComponentManager_findInterfaceMetadata :: "uuid \<Rightarrow> 'a ComponentManagerState_scheme \<Rightarrow> InterfaceMetadata option" where
  "ComponentManager_findInterfaceMetadata interfaceUUID s = Registry_findInterfaceMetadata interfaceUUID s"

definition ComponentManager_getModulesMetadata :: "'a ComponentManagerState_scheme \<Rightarrow> nat list" where
  "ComponentManager_getModulesMetadata s = Registry_getModulesMetadata s"

definition ComponentManager_getInterfacesMetadata :: "'a ComponentManagerState_scheme \<Rightarrow> InterfaceMetadata list" where
  "ComponentManager_getInterfacesMetadata s = Registry_getInterfacesMetadata s"

section \<open>The new factory, and clearing\<close>

definition core_bind :: "uuid \<Rightarrow> FactoryBindInfos" where
  "core_bind u = \<lparr>bi_componentUUID = u, bi_scope = Singleton, bi_bindingRangeMask = BindingRange_Core, bi_properties = ''''\<rparr>"

text \<open>However its construction ends, a new factory has no bindings but those of the three core components.\<close>

lemma Factory_new_config:
  assumes "Factory_new fw depth creates s = (r, t)" and "f_coreBindings s = Map.empty" and "f_coreFactoryMethods s = Map.empty"
  shows "config_part t = (FactoryContext_init,
    [IAliasManager_UUID \<mapsto> core_bind AliasManager_UUID, IRegistryManager_UUID \<mapsto> core_bind Registry_UUID,
     IPropertyManager_UUID \<mapsto> core_bind PropertyManager_UUID],
    [AliasManager_UUID \<mapsto> creates AliasManager_UUID, Registry_UUID \<mapsto> creates Registry_UUID,
     PropertyManager_UUID \<mapsto> creates PropertyManager_UUID])" (is "_ = ?x")
proof -
  let ?resolves = "for_eff (\<lambda>u. bind_eff (Factory_resolve fw depth u []) (\<lambda>_. return_eff ()))
    [IPropertyManager_UUID, IAliasManager_UUID, IRegistryManager_UUID] :: ('a FactoryState_scheme, exn, unit) eff"
  let ?s = "s\<lparr>f_context := FactoryContext_init, f_coreBindings := fst (snd ?x), f_coreFactoryMethods := snd (snd ?x)\<rparr>"
  have run: "?resolves ?s = (r, t)"
    using assms by (simp add: Factory_new_def Factory_bindCore_component_def Factory_bindCore_def core_bind_def eff_simps del: for_eff.simps)
  have "preserves (\<lambda>s. config_part s = ?x) ?resolves"
    by (intro preserves_for preserves_bind config_resolve preserves_return)
  from preservesD [OF this, of ?s] have "config_part (snd (?resolves ?s)) = ?x"
    by (simp only: config_part_def) simp
  then show ?thesis
    unfolding run by simp
qed

lemma contexts_cleared:
  "FactoryContext_clear c = FactoryContext_init" "PropertyContext_clear p = PropertyContext_init"
  "RegistryContext_clear x = RegistryContext_init" "AliasContext_clear l = AliasContext_init"
  by (cases c, simp add: FactoryContext_clear_def FactoryContext_init_def) (cases p, simp add: PropertyContext_clear_def PropertyContext_init_def,
    cases x, simp add: RegistryContext_clear_def RegistryContext_init_def Collection_clear_def,
    cases l, simp add: AliasContext_clear_def AliasContext_init_def)

text \<open>
  After \<open>clear\<close> no binding, no singleton, no alias, no metadata and no configuration file is known; the core components
  and their bindings stay, and so does what the module manager has loaded.
\<close>

lemma ComponentManager_clear_run:
  "\<exists>t. ComponentManager_clear s = (Inr (), t) \<and> f_context t = FactoryContext_init \<and>
     f_singletonInstances t = Map.empty \<and> f_namedSingletonInstances t = Map.empty \<and> pmgr_context t = PropertyContext_init \<and>
     reg_context t = RegistryContext_init \<and> reg_aliases t = AliasContext_init \<and>
     f_coreBindings t = f_coreBindings s \<and> f_coreInstances t = f_coreInstances s \<and> mgr_funcMap t = mgr_funcMap s"
  by (simp add: ComponentManager_clear_def PropertyManager_clear_def Factory_clear_def Registry_clear_def props_modify_def
      context_modify_def binds_def eff_simps contexts_cleared)

lemma cleared_lookups:
  assumes "ComponentManager_clear s = (Inr (), t)"
  shows "ComponentManager_getModuleUUID pf u t = Inl (exception_of_text ModuleNotFoundException
      (''No module UUID found for component '' @ pf_string_of_uuid pf u))"
    and "ComponentManager_findModuleMetadata pf u t = Inl (ModuleNotFoundException_uuid (pf_string_of_uuid pf) u)"
    and "ComponentManager_findInterfaceMetadata u t = None"
    and "ComponentManager_getModulesMetadata t = []" and "ComponentManager_getInterfacesMetadata t = []"
  using ComponentManager_clear_run [of s] assms
  by (auto simp: ComponentManager_getModuleUUID_def ComponentManager_findModuleMetadata_def ComponentManager_findInterfaceMetadata_def
      ComponentManager_getModulesMetadata_def ComponentManager_getInterfacesMetadata_def Registry_getModuleUUID_def
      Registry_findModuleMetadata_def Registry_findInterfaceMetadata_def Registry_getModulesMetadata_def
      Registry_getInterfacesMetadata_def safeFindMetadata_def findMetadata_def RegistryContext_init_def)

end
