(* ===== verification/Xpcf_NewContext.thy ===== *)
theory Xpcf_NewContext
  imports Xpcf_FactoryConfig
begin

text \<open>
  \<^verbatim>\<open>src/Factory.cpp\<close>, \<open>createNewFactoryContext\<close>: a second factory whose contexts are its own, copies of those of the
  first, or the very objects of the first. A factory and its core components hold shared pointers to their contexts, and here
  whether two factories share one is what matters: the contexts are in a store, and a factory has an address in it for each
  of the four. The operations of the factory theory run on a factory of the store by \<open>on_factory\<close>.
\<close>

section \<open>Contexts in a store\<close>

datatype ContextMode = Context_Empty | Context_Cloned | Context_Shared

record ContextStore =
  cx_aliases :: "nat \<Rightarrow> AliasContext"
  cx_registries :: "nat \<Rightarrow> RegistryContext"
  cx_properties :: "nat \<Rightarrow> PropertyContext"
  cx_bindings :: "nat \<Rightarrow> FactoryContext"
  cx_next :: nat

record FactoryPointers =
  fp_aliases :: nat
  fp_registry :: nat
  fp_properties :: nat
  fp_bindings :: nat

text \<open>The constructors of the components, each of which makes the context of the component.\<close>

definition AliasManager_newContext :: "ContextStore \<Rightarrow> nat \<times> ContextStore" where
  "AliasManager_newContext st =
     (cx_next st, st\<lparr>cx_aliases := (cx_aliases st)(cx_next st := AliasContext_init), cx_next := Suc (cx_next st)\<rparr>)"

definition Registry_newContext :: "ContextStore \<Rightarrow> nat \<times> ContextStore" where
  "Registry_newContext st =
     (cx_next st, st\<lparr>cx_registries := (cx_registries st)(cx_next st := RegistryContext_init), cx_next := Suc (cx_next st)\<rparr>)"

definition PropertyManager_newContext :: "ContextStore \<Rightarrow> nat \<times> ContextStore" where
  "PropertyManager_newContext st =
     (cx_next st, st\<lparr>cx_properties := (cx_properties st)(cx_next st := PropertyContext_init), cx_next := Suc (cx_next st)\<rparr>)"

definition Factory_newContext :: "ContextStore \<Rightarrow> nat \<times> ContextStore" where
  "Factory_newContext st =
     (cx_next st, st\<lparr>cx_bindings := (cx_bindings st)(cx_next st := FactoryContext_init), cx_next := Suc (cx_next st)\<rparr>)"

text \<open>
  The constructor of the factory as far as contexts go: its own first, then those of the core components in the order in
  which it resolves them.
\<close>

definition Factory_newContexts :: "ContextStore \<Rightarrow> FactoryPointers \<times> ContextStore" where
  "Factory_newContexts st =
     (let (b, st) = Factory_newContext st;
          (p, st) = PropertyManager_newContext st;
          (a, st) = AliasManager_newContext st;
          (r, st) = Registry_newContext st
      in (\<lparr>fp_aliases = a, fp_registry = r, fp_properties = p, fp_bindings = b\<rparr>, st))"

definition Factory_createNewFactoryContext :: "ContextMode \<Rightarrow> FactoryPointers \<Rightarrow> ContextStore \<Rightarrow> FactoryPointers \<times> ContextStore" where
  "Factory_createNewFactoryContext ctxMode self st =
     (let (f, st) = Factory_newContexts st;
          st = (if ctxMode = Context_Cloned
                then st\<lparr>cx_properties := (cx_properties st)(fp_properties f := cx_properties st (fp_properties self)),
                        cx_aliases := (cx_aliases st)(fp_aliases f := cx_aliases st (fp_aliases self)),
                        cx_registries := (cx_registries st)(fp_registry f :=
                          RegistryContext_assign (cx_registries st (fp_registry f)) (cx_registries st (fp_registry self))),
                        cx_bindings := (cx_bindings st)(fp_bindings f := cx_bindings st (fp_bindings self))\<rparr>
                else st);
          f = (if ctxMode = Context_Shared
               then f\<lparr>fp_properties := fp_properties self, fp_aliases := fp_aliases self, fp_registry := fp_registry self,
                      fp_bindings := fp_bindings self\<rparr>
               else f)
      in (f, st))"

section \<open>Running a factory of the store\<close>

text \<open>
  A factory reads its contexts through its pointers and writes to the objects they point to; the rest of its state, such as
  the singletons and the loaded modules, is its own.
\<close>

definition contexts_of :: "FactoryPointers \<Rightarrow> ContextStore \<Rightarrow> AliasContext \<times> RegistryContext \<times> PropertyContext \<times> FactoryContext" where
  "contexts_of f st = (cx_aliases st (fp_aliases f), cx_registries st (fp_registry f), cx_properties st (fp_properties f),
     cx_bindings st (fp_bindings f))"

definition factory_at :: "FactoryPointers \<Rightarrow> ContextStore \<Rightarrow> 'a FactoryState_scheme \<Rightarrow> 'a FactoryState_scheme" where
  "factory_at f st s = s\<lparr>reg_context := cx_registries st (fp_registry f), reg_aliases := cx_aliases st (fp_aliases f),
     pmgr_context := cx_properties st (fp_properties f), f_context := cx_bindings st (fp_bindings f)\<rparr>"

definition stored_at :: "FactoryPointers \<Rightarrow> 'a FactoryState_scheme \<Rightarrow> ContextStore \<Rightarrow> ContextStore" where
  "stored_at f s st = st\<lparr>cx_aliases := (cx_aliases st)(fp_aliases f := reg_aliases s),
     cx_registries := (cx_registries st)(fp_registry f := reg_context s),
     cx_properties := (cx_properties st)(fp_properties f := pmgr_context s),
     cx_bindings := (cx_bindings st)(fp_bindings f := f_context s)\<rparr>"

definition on_factory ::
  "FactoryPointers \<Rightarrow> ('a FactoryState_scheme, exn, 'b) eff \<Rightarrow> (ContextStore \<times> 'a FactoryState_scheme, exn, 'b) eff" where
  "on_factory f m = (\<lambda>(st, s). let (r, t) = m (factory_at f st s) in (r, (stored_at f t st, t)))"

text \<open>The addresses of a factory are taken.\<close>

definition pointers_below :: "nat \<Rightarrow> FactoryPointers \<Rightarrow> bool" where
  "pointers_below n f \<longleftrightarrow> fp_aliases f < n \<and> fp_registry f < n \<and> fp_properties f < n \<and> fp_bindings f < n"

definition disjoint_pointers :: "FactoryPointers \<Rightarrow> FactoryPointers \<Rightarrow> bool" where
  "disjoint_pointers f g \<longleftrightarrow> fp_aliases f \<noteq> fp_aliases g \<and> fp_registry f \<noteq> fp_registry g \<and>
     fp_properties f \<noteq> fp_properties g \<and> fp_bindings f \<noteq> fp_bindings g"

section \<open>Separation\<close>

lemma disjoint_pointers_sym: "disjoint_pointers f g \<Longrightarrow> disjoint_pointers g f"
  by (auto simp: disjoint_pointers_def)

lemma below_disjoint:
  assumes "pointers_below n f" and "\<not> fp_aliases g < n" and "\<not> fp_registry g < n" and "\<not> fp_properties g < n" and "\<not> fp_bindings g < n"
  shows "disjoint_pointers g f"
  using assms by (auto simp: disjoint_pointers_def pointers_below_def)

text \<open>What runs on one factory leaves the contexts of a factory at other addresses.\<close>

lemma on_factory_apart:
  assumes "disjoint_pointers f g"
  shows "contexts_of g (fst (snd (on_factory f m (st, s)))) = contexts_of g st"
  using assms by (auto simp: on_factory_def stored_at_def contexts_of_def disjoint_pointers_def split: prod.splits)

text \<open>What runs on a factory is what the other sees when the two have the same addresses.\<close>

lemma on_factory_own:
  "contexts_of f (fst (snd (on_factory f m (st, s)))) =
     (let t = snd (m (factory_at f st s)) in (reg_aliases t, reg_context t, pmgr_context t, f_context t))"
  by (simp add: on_factory_def stored_at_def contexts_of_def Let_def split: prod.splits)

lemma factory_at_same: "contexts_of f st = contexts_of g st' \<Longrightarrow> factory_at f st s = factory_at g st' s"
  by (simp add: factory_at_def contexts_of_def)

lemma Factory_newContexts_run:
  assumes "Factory_newContexts st = (f, t)"
  shows "contexts_of f t = (AliasContext_init, RegistryContext_init, PropertyContext_init, FactoryContext_init)"
    and "pointers_below (cx_next st) g \<Longrightarrow> contexts_of g t = contexts_of g st"
    and "pointers_below (cx_next st) g \<Longrightarrow> disjoint_pointers f g"
  using assms
  by (auto simp: Factory_newContexts_def Factory_newContext_def PropertyManager_newContext_def AliasManager_newContext_def
      Registry_newContext_def contexts_of_def pointers_below_def disjoint_pointers_def)

lemma shared_context_run:
  assumes "Factory_createNewFactoryContext Context_Shared f st = (g, t)" and "pointers_below (cx_next st) f"
  shows "g = f" and "contexts_of f t = contexts_of f st"
proof -
  obtain h u where new: "Factory_newContexts st = (h, u)"
    by fastforce
  with assms(1) show "g = f"
    by (auto simp: Factory_createNewFactoryContext_def)
  from new assms(1) have "t = u"
    by (auto simp: Factory_createNewFactoryContext_def)
  with Factory_newContexts_run(2) [OF new assms(2)] show "contexts_of f t = contexts_of f st"
    by simp
qed

definition cloned_contexts ::
  "AliasContext \<times> RegistryContext \<times> PropertyContext \<times> FactoryContext \<Rightarrow> AliasContext \<times> RegistryContext \<times> PropertyContext \<times> FactoryContext" where
  "cloned_contexts = (\<lambda>(a, r, p, b). (a, r\<lparr>modulesVector := [], interfacesVector := []\<rparr>, p, b))"

lemma RegistryContext_assign_init: "RegistryContext_assign RegistryContext_init r = r\<lparr>modulesVector := [], interfacesVector := []\<rparr>"
  by (simp add: RegistryContext_assign_def RegistryContext_init_def Collection_assign_def)

lemma cloned_context_run:
  assumes "Factory_createNewFactoryContext Context_Cloned f st = (g, t)" and "pointers_below (cx_next st) f"
  shows "disjoint_pointers g f" and "contexts_of f t = contexts_of f st" and "contexts_of g t = cloned_contexts (contexts_of f st)"
proof -
  obtain h u where new: "Factory_newContexts st = (h, u)"
    by fastforce
  note apart = Factory_newContexts_run(3) [OF new assms(2)] and same = Factory_newContexts_run(2) [OF new assms(2)]
    and fresh = Factory_newContexts_run(1) [OF new]
  from new assms(1) have gh: "g = h" and t: "t = u\<lparr>cx_properties := (cx_properties u)(fp_properties h := cx_properties u (fp_properties f)),
      cx_aliases := (cx_aliases u)(fp_aliases h := cx_aliases u (fp_aliases f)),
      cx_registries := (cx_registries u)(fp_registry h :=
        RegistryContext_assign (cx_registries u (fp_registry h)) (cx_registries u (fp_registry f))),
      cx_bindings := (cx_bindings u)(fp_bindings h := cx_bindings u (fp_bindings f))\<rparr>"
    by (auto simp: Factory_createNewFactoryContext_def)
  show "disjoint_pointers g f"
    using apart gh by simp
  show "contexts_of f t = contexts_of f st"
    using apart same by (auto simp: t contexts_of_def disjoint_pointers_def)
  show "contexts_of g t = cloned_contexts (contexts_of f st)"
    using apart same fresh by (auto simp: t gh contexts_of_def disjoint_pointers_def cloned_contexts_def RegistryContext_assign_init)
qed

lemma empty_context_run:
  assumes "Factory_createNewFactoryContext Context_Empty f st = (g, t)" and "pointers_below (cx_next st) f"
  shows "disjoint_pointers g f" and "contexts_of f t = contexts_of f st"
    and "contexts_of g t = (AliasContext_init, RegistryContext_init, PropertyContext_init, FactoryContext_init)"
  using assms Factory_newContexts_run [of st g t]
  by (auto simp: Factory_createNewFactoryContext_def Let_def split: prod.splits)

text \<open>
  A clone finds every binding, module, interface and configuration file the first factory finds, and can list none of the
  modules and interfaces it finds.
\<close>

lemma cloned_lookups:
  assumes "contexts_of g t = cloned_contexts (contexts_of f st)"
  shows "Registry_getModuleUUID pf u (factory_at g t s) = Registry_getModuleUUID pf u (factory_at f st s)"
    and "Registry_findModuleMetadata pf u (factory_at g t s) = Registry_findModuleMetadata pf u (factory_at f st s)"
    and "Registry_findInterfaceMetadata u (factory_at g t s) = Registry_findInterfaceMetadata u (factory_at f st s)"
    and "f_context (factory_at g t s) = f_context (factory_at f st s)"
    and "PropertyManager_getContext (factory_at g t s) = PropertyManager_getContext (factory_at f st s)"
    and "Registry_getModulesMetadata (factory_at g t s) = []"
    and "Registry_getInterfacesMetadata (factory_at g t s) = []"
  using assms
  by (simp_all add: contexts_of_def cloned_contexts_def factory_at_def Registry_getModuleUUID_def Registry_findModuleMetadata_def
      Registry_findInterfaceMetadata_def PropertyManager_getContext_def Registry_getModulesMetadata_def Registry_getInterfacesMetadata_def)

text \<open>
  Property C22. What \<open>createNewFactoryContext\<close> gives. An empty factory starts with nothing, a shared one with the contexts of
  the first and a cloned one with copies of them, without the vectors of modules and interfaces, which the assignment of
  \<open>Collection\<close> does not copy. Whatever operation then runs on either factory, the other sees all of it when the contexts are
  shared and nothing of it in the other two modes.
\<close>

theorem new_factory_contexts:
  assumes "Factory_createNewFactoryContext mode f st = (g, t)" and "pointers_below (cx_next st) f"
  shows "contexts_of g t =
      (case mode of
         Context_Empty \<Rightarrow> (AliasContext_init, RegistryContext_init, PropertyContext_init, FactoryContext_init)
       | Context_Cloned \<Rightarrow> cloned_contexts (contexts_of f st)
       | Context_Shared \<Rightarrow> contexts_of f st) \<and>
    contexts_of f (fst (snd (on_factory g m (t, s)))) =
      (if mode = Context_Shared then contexts_of g (fst (snd (on_factory g m (t, s)))) else contexts_of f st) \<and>
    contexts_of g (fst (snd (on_factory f m (t, s)))) =
      (if mode = Context_Shared then contexts_of f (fst (snd (on_factory f m (t, s)))) else contexts_of g t)"
proof (cases mode)
  case Context_Empty
  from empty_context_run [OF assms(1) [unfolded Context_Empty] assms(2)] Context_Empty show ?thesis
    by (simp add: on_factory_apart disjoint_pointers_sym)
next
  case Context_Cloned
  from cloned_context_run [OF assms(1) [unfolded Context_Cloned] assms(2)] Context_Cloned show ?thesis
    by (simp add: on_factory_apart disjoint_pointers_sym)
next
  case Context_Shared
  from shared_context_run [OF assms(1) [unfolded Context_Shared] assms(2)] Context_Shared show ?thesis
    by simp
qed

definition sample_pointers :: FactoryPointers where
  "sample_pointers = \<lparr>fp_aliases = 2, fp_registry = 3, fp_properties = 1, fp_bindings = 0\<rparr>"

definition sample_store :: ContextStore where
  "sample_store = \<lparr>cx_aliases = (\<lambda>_. AliasContext_init), cx_registries = (\<lambda>_. RegistryContext_init\<lparr>modulesVector := [7]\<rparr>),
     cx_properties = (\<lambda>_. PropertyContext_init), cx_bindings = (\<lambda>_. FactoryContext_init), cx_next = 4\<rparr>"

definition sample_binding :: "(FactoryState, exn, unit) eff" where
  "sample_binding = binds (\<lambda>c. c\<lparr>factoryMethods := Map.empty(5 := Some (\<lambda>h. (Inl Stack_overflow, h)))\<rparr>)"

theorem new_factory_contexts_witness:
  "contexts_of \<lparr>fp_aliases = 6, fp_registry = 7, fp_properties = 5, fp_bindings = 4\<rparr>
     (snd (Factory_createNewFactoryContext Context_Cloned sample_pointers sample_store)) =
     (AliasContext_init, RegistryContext_init, PropertyContext_init, FactoryContext_init) \<and>
   contexts_of sample_pointers (fst (snd (on_factory \<lparr>fp_aliases = 6, fp_registry = 7, fp_properties = 5, fp_bindings = 4\<rparr> sample_binding
     (snd (Factory_createNewFactoryContext Context_Cloned sample_pointers sample_store), sample_factory sample_bindings)))) =
     contexts_of sample_pointers sample_store"
proof -
  have g: "Factory_createNewFactoryContext Context_Cloned sample_pointers sample_store =
      (\<lparr>fp_aliases = 6, fp_registry = 7, fp_properties = 5, fp_bindings = 4\<rparr>,
       snd (Factory_createNewFactoryContext Context_Cloned sample_pointers sample_store))"
    by (simp add: Factory_createNewFactoryContext_def Factory_newContexts_def Factory_newContext_def PropertyManager_newContext_def
        AliasManager_newContext_def Registry_newContext_def sample_pointers_def sample_store_def Let_def)
  have "pointers_below (cx_next sample_store) sample_pointers"
    by (simp add: pointers_below_def sample_pointers_def sample_store_def)
  from new_factory_contexts [OF g this, of sample_binding "sample_factory sample_bindings"] show ?thesis
    by (simp add: cloned_contexts_def contexts_of_def sample_store_def RegistryContext_init_def)
qed

end
