(* ===== verification/Xpcf_ConfigurableBase.thy ===== *)
theory Xpcf_ConfigurableBase
  imports Xpcf_Factory Xpcf_Configure
begin

text \<open>
  \<^verbatim>\<open>src/ConfigurableBase.cpp\<close>: the base class of components with properties. Its operations run on the memory of the
  properties; the two methods \<open>configure\<close> ask the property manager to set them from a file and then call the \<open>onConfigured\<close> of
  the component, which is an argument.
\<close>

text \<open>
  \<open>cfb_parameters\<close> is the property map made with the component, \<open>cfb_propsMgr\<close> tells whether the property manager was
  injected.
\<close>

record ConfigurableBase =
  cfb_UUID :: uuid
  cfb_parameters :: nat
  cfb_propsMgr :: bool

definition IPropertyManager :: InterfaceTraits where
  "IPropertyManager = \<lparr>it_type = ''IPropertyManager'', it_UUID = 0xC939A7FBB0C247BA945848F4AB228D92,
     it_NAME = ''XPCF::IPropertyManager'', it_DESCRIPTION = ''Configuration and serialization functionality for component properties''\<rparr>"

text \<open>
  The constructor: the component with its interface and the declaration of the injectable, and the state of the
  properties with a new map. \<open>m_propsMgr\<close> is the address of the field.
\<close>

definition newConfigurableBase ::
  "(uuid \<Rightarrow> string) \<Rightarrow> nat \<Rightarrow> bool \<Rightarrow> uuid \<Rightarrow> nat \<Rightarrow> ((exn + unit) \<times> ComponentBase)" where
  "newConfigurableBase uuid_string this live u m_propsMgr =
     (case newComponentBase this live u of
        (Inl e, c) \<Rightarrow> (Inl e, c)
      | (Inr _, c) \<Rightarrow> seq_eff (ComponentBase_declareInterface IConfigurable this)
          (ComponentBase_declareInjectable uuid_string IPropertyManager m_propsMgr False) c)"

definition newConfigurableBase_properties :: "uuid \<Rightarrow> ('a PropertyMemory_scheme, exn, ConfigurableBase) eff" where
  "newConfigurableBase_properties u =
     bind_eff getPropertyMapInstance (\<lambda>m. return_eff \<lparr>cfb_UUID = u, cfb_parameters = m, cfb_propsMgr = False\<rparr>)"

definition ConfigurableBase_getPropertyRootNode :: "ConfigurableBase \<Rightarrow> nat" where
  "ConfigurableBase_getPropertyRootNode c = cfb_parameters c"

text \<open>Without a property manager of its own, \<open>serialize\<close> uses a temporary one; \<open>configure\<close> dereferences the null pointer.\<close>

definition ConfigurableBase_serialize ::
  "nat \<Rightarrow> 'p Platform_scheme \<Rightarrow> 'f FloatConversions_scheme \<Rightarrow> (string \<Rightarrow> xml \<Rightarrow> bool) \<Rightarrow> ConfigurableBase \<Rightarrow> string \<Rightarrow>
     ('a PropertyMemory_scheme, exn, XPCFErrorCode \<times> xml option) eff" where
  "ConfigurableBase_serialize depth pf fc save c filepath =
     PropertyManager_serialize depth pf fc save (cfb_UUID c) (ConfigurableBase_getPropertyRootNode c) filepath"

definition after_configure ::
  "('s, exn, XPCFErrorCode) eff \<Rightarrow> ('s, exn, XPCFErrorCode) eff \<Rightarrow> ('s, exn, XPCFErrorCode) eff" where
  "after_configure configured onConfigured =
     bind_eff configured (\<lambda>result. if result \<noteq> SUCCESS then return_eff result else onConfigured)"

definition ConfigurableBase_configure ::
  "'p Platform_scheme \<Rightarrow> 'f FloatConversions_scheme \<Rightarrow> AliasContext \<Rightarrow> ('a PropertyMemory_scheme, exn, XPCFErrorCode) eff \<Rightarrow>
     ConfigurableBase \<Rightarrow> string \<Rightarrow> ('a PropertyMemory_scheme, exn, XPCFErrorCode) eff" where
  "ConfigurableBase_configure pf fc aliases onConfigured c filepath =
     (if \<not> cfb_propsMgr c then throw_eff Undefined_behaviour
      else after_configure (PropertyManager_configure pf fc aliases (cfb_UUID c) (Some (ConfigurableBase_getPropertyRootNode c)) filepath)
             onConfigured)"

definition ConfigurableBase_configure_named ::
  "'p Platform_scheme \<Rightarrow> 'f FloatConversions_scheme \<Rightarrow> AliasContext \<Rightarrow> ('a PropertyMemory_scheme, exn, XPCFErrorCode) eff \<Rightarrow>
     ConfigurableBase \<Rightarrow> string \<Rightarrow> string option \<Rightarrow> ('a PropertyMemory_scheme, exn, XPCFErrorCode) eff" where
  "ConfigurableBase_configure_named pf fc aliases onConfigured c filepath xpath =
     (if \<not> cfb_propsMgr c then throw_eff Undefined_behaviour
      else after_configure (PropertyManager_configure_named pf fc aliases xpath (cfb_UUID c)
             (Some (ConfigurableBase_getPropertyRootNode c)) filepath) onConfigured)"

definition ConfigurableBase_getProperty :: "ConfigurableBase \<Rightarrow> string \<Rightarrow> ('a PropertyMemory_scheme, exn, nat option) eff" where
  "ConfigurableBase_getProperty c name = PropertyMap_at (ConfigurableBase_getPropertyRootNode c) name"

definition ConfigurableBase_getProperties :: "ConfigurableBase \<Rightarrow> ('a PropertyMemory_scheme, exn, nat list) eff" where
  "ConfigurableBase_getProperties c = PropertyMap_getProperties (ConfigurableBase_getPropertyRootNode c)"

definition ConfigurableBase_hasProperties :: "ConfigurableBase \<Rightarrow> ('a PropertyMemory_scheme, exn, bool) eff" where
  "ConfigurableBase_hasProperties c = bind_eff (ConfigurableBase_getProperties c) (\<lambda>ps. return_eff (Collection_size ps \<noteq> 0))"

definition ConfigurableBase_addProperty :: "ConfigurableBase \<Rightarrow> nat \<Rightarrow> ('a PropertyMemory_scheme, exn, XPCFErrorCode) eff" where
  "ConfigurableBase_addProperty c property = PropertyMap_addProperty (cfb_parameters c) property"

text \<open>\<open>k\<close> is the kind of the wrapped variable, the template argument; the overloads with a node add to another map.\<close>

definition declareProperty_in ::
  "(nat \<Rightarrow> ('a PropertyMemory_scheme, exn, XPCFErrorCode) eff) \<Rightarrow> (WrapperData \<Rightarrow> IProperty) \<Rightarrow> PropertyType \<Rightarrow> string option \<Rightarrow> nat \<Rightarrow>
     AccessSpecifier \<Rightarrow> ('a PropertyMemory_scheme, exn, XPCFErrorCode) eff" where
  "declareProperty_in add wrapper k name wrappedValue iotype =
     (case name of
        None \<Rightarrow> return_eff ERROR_INVALID_ARGUMENT
      | Some n \<Rightarrow> bind_eff (new_property (wrapper
            \<lparr>pw_name = n, pw_type = k, pw_variable = wrappedValue, pw_accessSpecifier = iotype\<rparr>)) add)"

definition ConfigurableBase_declareProperty ::
  "ConfigurableBase \<Rightarrow> PropertyType \<Rightarrow> string option \<Rightarrow> nat \<Rightarrow> AccessSpecifier \<Rightarrow> ('a PropertyMemory_scheme, exn, XPCFErrorCode) eff" where
  "ConfigurableBase_declareProperty c = declareProperty_in (ConfigurableBase_addProperty c) PropertyWrapper"

definition ConfigurableBase_declarePropertySequence ::
  "ConfigurableBase \<Rightarrow> PropertyType \<Rightarrow> string option \<Rightarrow> nat \<Rightarrow> AccessSpecifier \<Rightarrow> ('a PropertyMemory_scheme, exn, XPCFErrorCode) eff" where
  "ConfigurableBase_declarePropertySequence c = declareProperty_in (ConfigurableBase_addProperty c) PropertySequenceWrapper"

definition ConfigurableBase_declareProperty_node ::
  "nat \<Rightarrow> PropertyType \<Rightarrow> string option \<Rightarrow> nat \<Rightarrow> AccessSpecifier \<Rightarrow> ('a PropertyMemory_scheme, exn, XPCFErrorCode) eff" where
  "ConfigurableBase_declareProperty_node node = declareProperty_in (PropertyMap_addProperty node) PropertyWrapper"

definition ConfigurableBase_declarePropertySequence_node ::
  "nat \<Rightarrow> PropertyType \<Rightarrow> string option \<Rightarrow> nat \<Rightarrow> AccessSpecifier \<Rightarrow> ('a PropertyMemory_scheme, exn, XPCFErrorCode) eff" where
  "ConfigurableBase_declarePropertySequence_node node = declareProperty_in (PropertyMap_addProperty node) PropertySequenceWrapper"

text \<open>A structure: a new map is stored in the variable, and wrapped under the name.\<close>

definition ConfigurableBase_declarePropertyNode ::
  "ConfigurableBase \<Rightarrow> string option \<Rightarrow> nat \<Rightarrow> AccessSpecifier \<Rightarrow> ('a PropertyMemory_scheme, exn, unit) eff" where
  "ConfigurableBase_declarePropertyNode c name wrappedValue iotype =
     bind_eff getPropertyMapInstance (\<lambda>m.
     seq_eff (set_variable wrappedValue (V_struct (Some m)))
      (bind_eff (wrapStructure (cfb_parameters c) name wrappedValue iotype) (\<lambda>_. return_eff ())))"

section \<open>Declared properties are restorable\<close>

definition all_restorable :: "nat \<Rightarrow> 'a PropertyMemory_scheme \<Rightarrow> bool" where
  "all_restorable m s \<longleftrightarrow> (\<exists>d. pm_maps s m = Some d \<and> (\<forall>a \<in> set (m_collectionPropertyMap d). restorable s d a))"

text \<open>
  Wrapping one more variable or sequence of an exact kind under a new name succeeds, adds the property at the end of the list and
  leaves all of them restorable, so that what the component declares this way can be written to a file and read back.
\<close>

lemma declare_restorable:
  assumes "pm_maps s m = Some d" and "\<forall>a \<in> set (m_collectionPropertyMap d). restorable s d a" and "m_propertyMap d n = None" and "n \<noteq> ''''"
    and "k \<in> exact_kinds" and "pm_properties s (pm_next s) = None" and "is_wrapper (wrapper w)"
    and "w = \<lparr>pw_name = n, pw_type = k, pw_variable = v, pw_accessSpecifier = iotype\<rparr>"
    and "\<forall>x \<in> set (wrapped_values s (wrapper w)). value_kind x = k \<and> x \<noteq> V_string ''''"
    and "property_name (wrapper w) = n" and "property_type (wrapper w) = k"
  shows "\<exists>s' d'. declareProperty_in (PropertyMap_addProperty m) wrapper k (Some n) v iotype s = (Inr SUCCESS, s') \<and>
    pm_maps s' m = Some d' \<and> m_collectionPropertyMap d' = m_collectionPropertyMap d @ [pm_next s] \<and> all_restorable m s'"
proof -
  let ?a = "pm_next s"
  let ?d = "d\<lparr>m_propertyMap := (m_propertyMap d)(n \<mapsto> ?a), m_collectionPropertyMap := m_collectionPropertyMap d @ [?a]\<rparr>"
  let ?s = "s\<lparr>pm_properties := (pm_properties s)(?a \<mapsto> wrapper w), pm_next := Suc ?a, pm_maps := (pm_maps s)(m \<mapsto> ?d)\<rparr>"
  have same: "wrapped_values ?s p = wrapped_values s p" for p
    by (cases p) auto
  have "declareProperty_in (PropertyMap_addProperty m) wrapper k (Some n) v iotype s = (Inr SUCCESS, ?s)"
    using assms(1,3,8,10)
    by (simp add: declareProperty_in_def PropertyMap_addProperty_def new_property_def the_map_def interface_simps Collection_add_def)
  moreover have "restorable ?s ?d ?a"
    using assms(4,5,7) assms(9-) by (simp add: restorable_def same)
  moreover have "restorable ?s ?d b" if "b \<in> set (m_collectionPropertyMap d)" for b
  proof -
    from assms(2) that obtain p where p: "pm_properties s b = Some p" "is_wrapper p" "property_name p \<noteq> ''''"
        "m_propertyMap d (property_name p) = Some b" "property_type p \<in> exact_kinds"
        "\<forall>x \<in> set (wrapped_values s p). value_kind x = property_type p \<and> x \<noteq> V_string ''''"
      unfolding restorable_def by blast
    with assms(3,6) have "b \<noteq> ?a" "property_name p \<noteq> n"
      by auto
    with p show ?thesis
      unfolding restorable_def same by (intro exI [where x = p]) simp
  qed
  ultimately show ?thesis
    by (intro exI [where x = ?s] exI [where x = ?d]) (auto simp: all_restorable_def)
qed

end
