(* ===== verification/Xpcf_Queues.thy ===== *)
theory Xpcf_Queues
  imports Xpcf_Exceptions
begin

text \<open>
  The queues of \<^verbatim>\<open>interfaces/xpcf/threading\<close> (\<open>SharedFifo\<close>, \<open>SharedLifo\<close>, \<open>DropBuffer\<close>, \<open>SharedBuffer\<close>,
  \<open>SharedCircularBuffer\<close>) as the data they keep and the code their methods run while they hold the mutex, what
  each queue is for its callers, and the threads that call them: a step relation in which a thread waits for the
  mutex, tests the condition of its loop, waits on a condition variable and is woken.
\<close>

section \<open>The data of the queues\<close>

text \<open>The head of \<open>m_data\<close> is the front of the deque. Counters and sizes are bounded by the memory, far below \<open>2 ^ 64\<close>.\<close>

record 'a SharedFifo =
  m_nbNotified :: nat
  m_data :: "'a list"
  m_bReleased :: bool

record 'a SharedBuffer = "'a SharedFifo" +
  m_maxSize :: nat
  m_bufferedStartOffset :: nat
  m_started :: bool

record 'a SharedCircularBuffer = "'a SharedFifo" +
  m_pushCursor :: nat
  m_popCursor :: nat

definition SharedFifo_init :: "'a SharedFifo" where
  "SharedFifo_init = \<lparr>m_nbNotified = 0, m_data = [], m_bReleased = False\<rparr>"

definition SharedFifo_copy :: "'a SharedFifo \<Rightarrow> 'a SharedFifo" where
  "SharedFifo_copy q = \<lparr>m_nbNotified = m_nbNotified q, m_data = m_data q, m_bReleased = m_bReleased q\<rparr>"

definition SharedBuffer_init :: "nat \<Rightarrow> nat \<Rightarrow> 'a SharedBuffer" where
  "SharedBuffer_init maximum startAt = \<lparr>m_nbNotified = 0, m_data = [], m_bReleased = False, m_maxSize = maximum,
     m_bufferedStartOffset = (if maximum < startAt then maximum else startAt),
     m_started = (if startAt = 0 then True else False)\<rparr>"

definition SharedBuffer_copy :: "'a SharedBuffer \<Rightarrow> 'a SharedBuffer" where
  "SharedBuffer_copy q = \<lparr>m_nbNotified = m_nbNotified q, m_data = m_data q, m_bReleased = m_bReleased q,
     m_maxSize = m_maxSize q, m_bufferedStartOffset = m_bufferedStartOffset q, m_started = m_started q\<rparr>"

text \<open>The deque starts with \<open>size\<close> elements made by the default constructor of the type.\<close>

definition SharedCircularBuffer_init :: "'a \<Rightarrow> nat \<Rightarrow> 'a SharedCircularBuffer" where
  "SharedCircularBuffer_init fill n = \<lparr>m_nbNotified = 0, m_data = replicate n fill, m_bReleased = False,
     m_pushCursor = 0, m_popCursor = 0\<rparr>"

section \<open>Under the mutex\<close>

text \<open>
  \<open>push\<close> after its waiting loop, with whether \<open>m_condQueueNotEmpty\<close> is notified, and \<open>doPop\<close>, with whether
  \<open>m_condQueueNotFull\<close> is notified. Reading the front or the back of an empty deque, or past its end, is undefined.
\<close>

definition SharedFifo_push :: "'a \<Rightarrow> ('a, 'z) SharedFifo_scheme \<Rightarrow> exn + bool \<times> ('a, 'z) SharedFifo_scheme" where
  "SharedFifo_push value q = Inr (True, q\<lparr>m_data := value # m_data q, m_nbNotified := m_nbNotified q + 1\<rparr>)"

definition SharedFifo_doPop :: "('a, 'z) SharedFifo_scheme \<Rightarrow> exn + 'a \<times> bool \<times> ('a, 'z) SharedFifo_scheme" where
  "SharedFifo_doPop q =
     (if m_data q = [] then Inl Undefined_behaviour
      else Inr (last (m_data q), False, q\<lparr>m_data := butlast (m_data q), m_nbNotified := m_nbNotified q - 1\<rparr>))"

definition SharedLifo_doPop :: "('a, 'z) SharedFifo_scheme \<Rightarrow> exn + 'a \<times> bool \<times> ('a, 'z) SharedFifo_scheme" where
  "SharedLifo_doPop q =
     (if m_data q = [] then Inl Undefined_behaviour
      else Inr (hd (m_data q), False, q\<lparr>m_data := tl (m_data q), m_nbNotified := m_nbNotified q - 1\<rparr>))"

definition DropBuffer_push :: "'a \<Rightarrow> ('a, 'z) SharedFifo_scheme \<Rightarrow> exn + bool \<times> ('a, 'z) SharedFifo_scheme" where
  "DropBuffer_push value q =
     (let q = (if m_nbNotified q > 0 then q\<lparr>m_data := [], m_nbNotified := 0\<rparr> else q)
      in Inr (True, q\<lparr>m_data := value # m_data q, m_nbNotified := m_nbNotified q + 1\<rparr>))"

definition DropBuffer_doPop :: "('a, 'z) SharedFifo_scheme \<Rightarrow> exn + 'a \<times> bool \<times> ('a, 'z) SharedFifo_scheme" where
  "DropBuffer_doPop q =
     (if m_data q = [] then Inl Undefined_behaviour
      else Inr (hd (m_data q), False, q\<lparr>m_data := tl (m_data q), m_nbNotified := m_nbNotified q - 1\<rparr>))"

definition SharedBuffer_push_waits :: "('a, 'z) SharedBuffer_scheme \<Rightarrow> bool" where
  "SharedBuffer_push_waits q \<longleftrightarrow> \<not> m_bReleased q \<and> m_nbNotified q \<ge> m_maxSize q"

definition SharedBuffer_push :: "'a \<Rightarrow> ('a, 'z) SharedBuffer_scheme \<Rightarrow> exn + bool \<times> ('a, 'z) SharedBuffer_scheme" where
  "SharedBuffer_push value q =
     (if m_bReleased q \<and> m_nbNotified q \<ge> m_maxSize q then Inl (exception_of_char_text Exception ''IFifo::push aborted'')
      else let q = q\<lparr>m_data := value # m_data q, m_nbNotified := m_nbNotified q + 1\<rparr> in
        if m_started q then Inr (True, q)
        else Inr (False, if m_nbNotified q \<ge> m_bufferedStartOffset q then q\<lparr>m_started := True\<rparr> else q))"

definition SharedBuffer_doPop :: "('a, 'z) SharedBuffer_scheme \<Rightarrow> exn + 'a \<times> bool \<times> ('a, 'z) SharedBuffer_scheme" where
  "SharedBuffer_doPop q = (case SharedFifo_doPop q of Inl e \<Rightarrow> Inl e | Inr (value, _, q) \<Rightarrow> Inr (value, True, q))"

definition SharedBuffer_isFull :: "('a, 'z) SharedBuffer_scheme \<Rightarrow> bool" where
  "SharedBuffer_isFull q \<longleftrightarrow> m_nbNotified q \<ge> m_maxSize q"

definition increaseCursor :: "('a, 'z) SharedFifo_scheme \<Rightarrow> nat \<Rightarrow> nat" where
  "increaseCursor q cursor = (if cursor + 1 = length (m_data q) then 0 else cursor + 1)"

definition SharedCircularBuffer_push ::
  "'a \<Rightarrow> ('a, 'z) SharedCircularBuffer_scheme \<Rightarrow> exn + bool \<times> ('a, 'z) SharedCircularBuffer_scheme" where
  "SharedCircularBuffer_push value q =
     (if m_pushCursor q \<ge> length (m_data q) then Inl Undefined_behaviour
      else let q = q\<lparr>m_data := (m_data q)[m_pushCursor q := value]\<rparr>;
               q = q\<lparr>m_pushCursor := increaseCursor q (m_pushCursor q), m_nbNotified := m_nbNotified q + 1\<rparr>;
               q = (if m_nbNotified q > length (m_data q)
                    then q\<lparr>m_popCursor := increaseCursor q (m_popCursor q), m_nbNotified := m_nbNotified q - 1\<rparr> else q)
           in Inr (True, q))"

definition SharedCircularBuffer_doPop ::
  "('a, 'z) SharedCircularBuffer_scheme \<Rightarrow> exn + 'a \<times> bool \<times> ('a, 'z) SharedCircularBuffer_scheme" where
  "SharedCircularBuffer_doPop q =
     (if m_popCursor q \<ge> length (m_data q) then Inl Undefined_behaviour
      else Inr (m_data q ! m_popCursor q, False,
        q\<lparr>m_popCursor := increaseCursor q (m_popCursor q), m_nbNotified := m_nbNotified q - 1\<rparr>))"

text \<open>These take no lock. Deleting the elements of a queue of pointers is not modelled.\<close>

definition SharedFifo_size :: "('a, 'z) SharedFifo_scheme \<Rightarrow> nat" where
  "SharedFifo_size q = length (m_data q)"

definition SharedFifo_empty :: "('a, 'z) SharedFifo_scheme \<Rightarrow> bool" where
  "SharedFifo_empty q \<longleftrightarrow> m_data q = []"

definition SharedFifo_clear :: "('a, 'z) SharedFifo_scheme \<Rightarrow> ('a, 'z) SharedFifo_scheme" where
  "SharedFifo_clear q = q\<lparr>m_nbNotified := 0, m_data := []\<rparr>"

text \<open>The methods a class overrides: its virtual table.\<close>

record ('a, 'z) FifoClass =
  fc_push_waits :: "('a, 'z) SharedFifo_scheme \<Rightarrow> bool"
  fc_push :: "'a \<Rightarrow> ('a, 'z) SharedFifo_scheme \<Rightarrow> exn + bool \<times> ('a, 'z) SharedFifo_scheme"
  fc_doPop :: "('a, 'z) SharedFifo_scheme \<Rightarrow> exn + 'a \<times> bool \<times> ('a, 'z) SharedFifo_scheme"

definition SharedFifo_class :: "('a, 'z) FifoClass" where
  "SharedFifo_class = \<lparr>fc_push_waits = (\<lambda>_. False), fc_push = SharedFifo_push, fc_doPop = SharedFifo_doPop\<rparr>"

definition SharedLifo_class :: "('a, 'z) FifoClass" where
  "SharedLifo_class = \<lparr>fc_push_waits = (\<lambda>_. False), fc_push = SharedFifo_push, fc_doPop = SharedLifo_doPop\<rparr>"

definition DropBuffer_class :: "('a, 'z) FifoClass" where
  "DropBuffer_class = \<lparr>fc_push_waits = (\<lambda>_. False), fc_push = DropBuffer_push, fc_doPop = DropBuffer_doPop\<rparr>"

definition SharedBuffer_class :: "('a, 'z SharedBuffer_ext) FifoClass" where
  "SharedBuffer_class = \<lparr>fc_push_waits = SharedBuffer_push_waits, fc_push = SharedBuffer_push, fc_doPop = SharedBuffer_doPop\<rparr>"

definition SharedCircularBuffer_class :: "('a, 'z SharedCircularBuffer_ext) FifoClass" where
  "SharedCircularBuffer_class = \<lparr>fc_push_waits = (\<lambda>_. False), fc_push = SharedCircularBuffer_push,
     fc_doPop = SharedCircularBuffer_doPop\<rparr>"

section \<open>What a queue is for its callers\<close>

text \<open>
  A class seen through the list of its elements, the next one to be popped first: \<open>put\<close> is what \<open>push\<close> does to that
  list, \<open>doPop\<close> takes its head.
\<close>

locale fifo_class =
  fixes C :: "('a, 'z) FifoClass"
    and elems :: "('a, 'z) SharedFifo_scheme \<Rightarrow> 'a list"
    and wf :: "('a, 'z) SharedFifo_scheme \<Rightarrow> bool"
    and put :: "'a \<Rightarrow> 'a list \<Rightarrow> 'a list"
  assumes count: "wf q \<Longrightarrow> m_nbNotified q = length (elems q)"
    and push: "wf q \<Longrightarrow> \<not> fc_push_waits C q \<Longrightarrow> fc_push C x q = Inr (b, q') \<Longrightarrow>
      wf q' \<and> elems q' = put x (elems q) \<and> m_bReleased q' = m_bReleased q"
    and push_defined: "wf q \<Longrightarrow> \<not> fc_push_waits C q \<Longrightarrow> fc_push C x q \<noteq> Inl Undefined_behaviour"
    and pop: "wf q \<Longrightarrow> elems q = v # vs \<Longrightarrow>
      \<exists>b q'. fc_doPop C q = Inr (v, b, q') \<and> wf q' \<and> elems q' = vs \<and> m_bReleased q' = m_bReleased q"
    and release: "wf q \<Longrightarrow> wf (q\<lparr>m_bReleased := True\<rparr>) \<and> elems (q\<lparr>m_bReleased := True\<rparr>) = elems q"

text \<open>
  A class that can go on after the \<open>clear\<close> it inherits: all of them except \<open>SharedCircularBuffer\<close>, whose deque has to keep
  its length.
\<close>

locale clearing_class = fifo_class +
  assumes clear: "wf q \<Longrightarrow> wf (SharedFifo_clear q) \<and> elems (SharedFifo_clear q) = []"

text \<open>A class whose every \<open>push\<close> notifies the waiting consumers and adds one element at most.\<close>

locale waking_class = fifo_class +
  assumes push_notifies: "wf q \<Longrightarrow> fc_push C x q = Inr (b, q') \<Longrightarrow> b"
    and put_length: "length (put x l) \<le> length l + 1"

definition append_last :: "'a \<Rightarrow> 'a list \<Rightarrow> 'a list" where
  "append_last x l = l @ [x]"

definition keep_last :: "nat \<Rightarrow> 'a \<Rightarrow> 'a list \<Rightarrow> 'a list" where
  "keep_last n x l = drop (length (l @ [x]) - n) (l @ [x])"

definition counted :: "('a, 'z) SharedFifo_scheme \<Rightarrow> bool" where
  "counted q \<longleftrightarrow> m_nbNotified q = length (m_data q)"

definition fifo_elems :: "('a, 'z) SharedFifo_scheme \<Rightarrow> 'a list" where
  "fifo_elems q = rev (m_data q)"

definition at_most_one :: "('a, 'z) SharedFifo_scheme \<Rightarrow> bool" where
  "at_most_one q \<longleftrightarrow> counted q \<and> length (m_data q) \<le> 1"

definition buffer_wf :: "nat \<Rightarrow> ('a, 'z) SharedBuffer_scheme \<Rightarrow> bool" where
  "buffer_wf n q \<longleftrightarrow> counted q \<and> m_nbNotified q \<le> n \<and> m_maxSize q = n"

definition started_wf :: "nat \<Rightarrow> ('a, 'z) SharedBuffer_scheme \<Rightarrow> bool" where
  "started_wf n q \<longleftrightarrow> buffer_wf n q \<and> m_started q"

definition ring_wf :: "nat \<Rightarrow> ('a, 'z) SharedCircularBuffer_scheme \<Rightarrow> bool" where
  "ring_wf n q \<longleftrightarrow> length (m_data q) = n \<and> m_popCursor q < n \<and> m_nbNotified q \<le> n
     \<and> m_pushCursor q = (m_popCursor q + m_nbNotified q) mod n"

definition ring_elems :: "('a, 'z) SharedCircularBuffer_scheme \<Rightarrow> 'a list" where
  "ring_elems q = map (\<lambda>i. m_data q ! ((m_popCursor q + i) mod length (m_data q))) [0..<m_nbNotified q]"

interpretation fifos: waking_class SharedFifo_class fifo_elems counted append_last
proof
  fix q :: "('a, 'z) SharedFifo_scheme" and v vs
  assume "counted q" and "fifo_elems q = v # vs"
  then have "m_data q = rev vs @ [v]" and "m_nbNotified q = Suc (length vs)"
    by (auto simp: fifo_elems_def counted_def rev_swap)
  then show "\<exists>b q'. fc_doPop SharedFifo_class q = Inr (v, b, q') \<and> counted q' \<and> fifo_elems q' = vs \<and> m_bReleased q' = m_bReleased q"
    by (simp add: SharedFifo_class_def SharedFifo_doPop_def counted_def fifo_elems_def ex_bool_eq)
qed (auto simp: SharedFifo_class_def SharedFifo_push_def counted_def fifo_elems_def append_last_def)

interpretation lifos: waking_class SharedLifo_class m_data counted Cons
  by unfold_locales (auto simp: SharedLifo_class_def SharedFifo_push_def SharedLifo_doPop_def counted_def)

interpretation drops: waking_class DropBuffer_class m_data at_most_one "\<lambda>x l. [x]"
  by unfold_locales (auto simp: DropBuffer_class_def DropBuffer_push_def DropBuffer_doPop_def at_most_one_def counted_def Let_def
      split: if_splits)

lemma buffer_pop:
  assumes "buffer_wf n q" and "fifo_elems q = v # vs"
  shows "\<exists>q'. SharedBuffer_doPop q = Inr (v, True, q') \<and> buffer_wf n q' \<and> fifo_elems q' = vs
    \<and> m_bReleased q' = m_bReleased q \<and> m_started q' = m_started q"
proof -
  from assms have "m_data q = rev vs @ [v]" and "m_nbNotified q = Suc (length vs)"
    by (auto simp: fifo_elems_def counted_def buffer_wf_def rev_swap)
  with assms(1) show ?thesis
    by (simp add: SharedBuffer_doPop_def SharedFifo_doPop_def counted_def fifo_elems_def buffer_wf_def)
qed

interpretation buffers: fifo_class SharedBuffer_class fifo_elems "buffer_wf n" append_last for n
proof
  fix q :: "('a, 'z) SharedBuffer_scheme" and v vs
  assume "buffer_wf n q" and "fifo_elems q = v # vs"
  then show "\<exists>b q'. fc_doPop SharedBuffer_class q = Inr (v, b, q') \<and> buffer_wf n q' \<and> fifo_elems q' = vs \<and> m_bReleased q' = m_bReleased q"
    using buffer_pop [of n q v vs] by (auto simp: SharedBuffer_class_def)
qed (auto simp: SharedBuffer_class_def SharedBuffer_push_def SharedBuffer_push_waits_def buffer_wf_def counted_def fifo_elems_def
    append_last_def exception_of_char_text_def Let_def split: if_splits)

text \<open>A buffer without a start offset is started from the beginning and wakes its consumers like the others.\<close>

interpretation started_buffers: waking_class SharedBuffer_class fifo_elems "started_wf n" append_last for n
proof
  fix q :: "('a, 'z) SharedBuffer_scheme" and v vs
  assume "started_wf n q" and "fifo_elems q = v # vs"
  then show "\<exists>b q'. fc_doPop SharedBuffer_class q = Inr (v, b, q') \<and> started_wf n q' \<and> fifo_elems q' = vs \<and> m_bReleased q' = m_bReleased q"
    using buffer_pop [of n q v vs] by (auto simp: SharedBuffer_class_def started_wf_def)
qed (auto simp: SharedBuffer_class_def SharedBuffer_push_def SharedBuffer_push_waits_def buffer_wf_def started_wf_def counted_def
    fifo_elems_def append_last_def exception_of_char_text_def Let_def split: if_splits)

interpretation cleared_fifos: clearing_class SharedFifo_class fifo_elems counted append_last
  by unfold_locales (simp add: SharedFifo_clear_def counted_def fifo_elems_def)

interpretation cleared_lifos: clearing_class SharedLifo_class m_data counted Cons
  by unfold_locales (simp add: SharedFifo_clear_def counted_def)

interpretation cleared_drops: clearing_class DropBuffer_class m_data at_most_one "\<lambda>x l. [x]"
  by unfold_locales (simp add: SharedFifo_clear_def counted_def at_most_one_def)

interpretation cleared_buffers: clearing_class SharedBuffer_class fifo_elems "buffer_wf n" append_last for n
  by unfold_locales (simp add: SharedFifo_clear_def counted_def fifo_elems_def buffer_wf_def)

interpretation cleared_started: clearing_class SharedBuffer_class fifo_elems "started_wf n" append_last for n
  by unfold_locales (simp add: SharedFifo_clear_def counted_def fifo_elems_def buffer_wf_def started_wf_def)

subsection \<open>The ring\<close>

lemma shift_mod_inj:
  fixes a i j n :: nat
  assumes "(a + i) mod n = (a + j) mod n" and "i < n" and "j < n"
  shows "i = j"
proof (rule ccontr)
  have no: False if "(a + i) mod n = (a + j) mod n" "j < n" "i < j" for i j
  proof -
    from that have "n dvd j - i"
      using mod_eq_dvd_iff_nat [of "a + i" "a + j" n] by simp
    with that show False
      using dvd_imp_le [of n "j - i"] by simp
  qed
  assume "i \<noteq> j"
  with assms no [of i j] no [of j i] show False
    by (metis linorder_neqE_nat)
qed

lemma increaseCursor_mod: "length (m_data q) = n \<Longrightarrow> c < n \<Longrightarrow> increaseCursor q c = (c + 1) mod n"
  by (simp add: increaseCursor_def)

lemma ring_elems_nth: "i < m_nbNotified q \<Longrightarrow> ring_elems q ! i = m_data q ! ((m_popCursor q + i) mod length (m_data q))"
  by (simp add: ring_elems_def)

lemma length_ring_elems [simp]: "length (ring_elems q) = m_nbNotified q"
  by (simp add: ring_elems_def)

lemma keep_last_short: "length l < n \<Longrightarrow> keep_last n x l = l @ [x]"
  by (simp add: keep_last_def)

lemma keep_last_full: "length l = n \<Longrightarrow> keep_last n x l = tl (l @ [x])"
  by (simp add: keep_last_def drop_Suc del: drop_append)

lemma ring_push:
  assumes "ring_wf n q"
  shows "\<exists>q'. SharedCircularBuffer_push x q = Inr (True, q') \<and> ring_wf n q' \<and> ring_elems q' = keep_last n x (ring_elems q)
    \<and> m_bReleased q' = m_bReleased q"
proof -
  let ?k = "m_nbNotified q" and ?p = "m_popCursor q"
  let ?at = "(?p + ?k) mod n"
  from assms have n: "length (m_data q) = n" "?p < n" "?k \<le> n" "m_pushCursor q = ?at" "?at < n"
    by (auto simp: ring_wf_def)
  let ?q = "q\<lparr>m_data := (m_data q)[?at := x], m_pushCursor := (?at + 1) mod n\<rparr>"
  show ?thesis
  proof (cases "?k < n")
    case True
    let ?q' = "?q\<lparr>m_nbNotified := ?k + 1\<rparr>"
    have "SharedCircularBuffer_push x q = Inr (True, ?q')"
      using n True by (simp add: SharedCircularBuffer_push_def Let_def increaseCursor_mod [where n = n] not_le)
    moreover have "ring_wf n ?q'"
      using n True by (simp add: ring_wf_def mod_simps)
    moreover have "ring_elems ?q' = ring_elems q @ [x]"
    proof (rule nth_equalityI)
      fix i assume "i < length (ring_elems ?q')"
      then show "ring_elems ?q' ! i = (ring_elems q @ [x]) ! i"
        using n True shift_mod_inj [of ?p i n ?k]
        by (cases "i = ?k") (auto simp: ring_elems_nth nth_append nth_list_update)
    qed simp
    ultimately show ?thesis
      using True by (simp add: keep_last_short)
  next
    case False
    with n have full: "?k = n" "?at = ?p" by auto
    let ?q' = "?q\<lparr>m_nbNotified := n, m_popCursor := (?p + 1) mod n\<rparr>"
    have "SharedCircularBuffer_push x q = Inr (True, ?q')"
      using n full by (simp add: SharedCircularBuffer_push_def Let_def increaseCursor_mod [where n = n])
    moreover have "ring_wf n ?q'"
      using n full by (simp add: ring_wf_def mod_simps)
    moreover have "ring_elems ?q' = tl (ring_elems q @ [x])"
    proof (rule nth_equalityI)
      fix i assume "i < length (ring_elems ?q')"
      then have i: "i < n" by simp
      have shift: "((?p + 1) mod n + i) mod n = (?p + (i + 1)) mod n"
        by (simp add: mod_simps)
      show "ring_elems ?q' ! i = tl (ring_elems q @ [x]) ! i"
      proof (cases "i + 1 = n")
        case True
        then have "((?p + 1) mod n + i) mod n = ?p"
          using n shift by simp
        moreover have "(m_data q)[?p := x] ! ?p = x"
          using n by simp
        ultimately show ?thesis
          using True n(1,2) full i by (simp add: ring_elems_nth nth_tl nth_append del: mod_eq_self_iff_div_eq_0)
      next
        case False
        then have "(?p + (i + 1)) mod n \<noteq> ?p"
          using i n shift_mod_inj [of ?p "i + 1" n 0] by auto
        then show ?thesis
          using shift False n full i by (simp add: ring_elems_nth nth_tl nth_append nth_list_update)
      qed
    qed (simp add: full)
    ultimately show ?thesis
      using full by (simp add: keep_last_full)
  qed
qed

lemma ring_pop:
  assumes "ring_wf n q" and "ring_elems q = v # vs"
  shows "\<exists>q'. SharedCircularBuffer_doPop q = Inr (v, False, q') \<and> ring_wf n q' \<and> ring_elems q' = vs
    \<and> m_bReleased q' = m_bReleased q"
proof -
  let ?k = "m_nbNotified q" and ?p = "m_popCursor q"
  let ?q' = "q\<lparr>m_popCursor := (?p + 1) mod n, m_nbNotified := ?k - 1\<rparr>"
  from assms have n: "length (m_data q) = n" "?p < n" "?k \<le> n" "m_pushCursor q = (?p + ?k) mod n" "0 < n"
    by (auto simp: ring_wf_def)
  from assms(2) have k: "?k = Suc (length vs)"
    by (metis length_ring_elems length_Cons)
  have "m_data q ! ?p = v"
    using assms(2) ring_elems_nth [of 0 q] n k by simp
  then have "SharedCircularBuffer_doPop q = Inr (v, False, ?q')"
    using n by (simp add: SharedCircularBuffer_doPop_def increaseCursor_mod [where n = n])
  moreover have "ring_wf n ?q'"
    using n k by (simp add: ring_wf_def mod_simps)
  moreover have "ring_elems ?q' = tl (ring_elems q)"
    using n k by (intro nth_equalityI) (simp_all add: ring_elems_nth nth_tl mod_simps)
  ultimately show ?thesis
    using assms(2) by simp
qed

lemma ring_release: "ring_wf n (q\<lparr>m_bReleased := True\<rparr>) = ring_wf n q" "ring_elems (q\<lparr>m_bReleased := True\<rparr>) = ring_elems q"
  by (simp_all add: ring_wf_def ring_elems_def)

interpretation rings: waking_class SharedCircularBuffer_class ring_elems "ring_wf n" "keep_last n" for n
proof
  fix q :: "('a, 'z) SharedCircularBuffer_scheme" and v vs
  assume "ring_wf n q" and "ring_elems q = v # vs"
  then show "\<exists>b q'. fc_doPop SharedCircularBuffer_class q = Inr (v, b, q') \<and> ring_wf n q' \<and> ring_elems q' = vs \<and> m_bReleased q' = m_bReleased q"
    using ring_pop [of n q v vs] by (auto simp: SharedCircularBuffer_class_def)
next
  fix q q' :: "('a, 'z) SharedCircularBuffer_scheme" and x b
  assume "ring_wf n q"
  then obtain q'' where "SharedCircularBuffer_push x q = Inr (True, q'')" and "ring_wf n q''"
      and "ring_elems q'' = keep_last n x (ring_elems q)" and "m_bReleased q'' = m_bReleased q"
    using ring_push [of n q x] by blast
  moreover assume "fc_push SharedCircularBuffer_class x q = Inr (b, q')"
  moreover from calculation this have "b \<and> q' = q''"
    by (simp add: SharedCircularBuffer_class_def)
  ultimately show "ring_wf n q' \<and> ring_elems q' = keep_last n x (ring_elems q) \<and> m_bReleased q' = m_bReleased q" and b
    by simp_all
next
  fix q :: "('a, 'z) SharedCircularBuffer_scheme" and x
  assume "ring_wf n q"
  then show "fc_push SharedCircularBuffer_class x q \<noteq> Inl Undefined_behaviour"
    using ring_push [of n q x] by (auto simp: SharedCircularBuffer_class_def)
qed (simp_all add: ring_release, simp add: keep_last_def)

end
