(* ===== verification/Xpcf_Threads.thy ===== *)
theory Xpcf_Threads
  imports Xpcf_Queues
begin

text \<open>
  Threads that share one queue of \<^verbatim>\<open>interfaces/xpcf/threading\<close>. A thread that calls a method waits for the mutex, tests the
  condition of the loop of the method, waits on a condition variable, which gives the mutex back, or ends the method and
  wakes who it notifies. \<open>release\<close> and \<open>clear\<close> take no lock: the one sets the flag and then notifies, the other empties the
  queue and notifies nobody. Waiting threads may also wake up on their own and waits with a duration may time out. The steps
  of the threads interleave in every order, up to a data race: a state in which a thread runs \<open>clear\<close> while another one holds
  the mutex or runs \<open>clear\<close> too. What follows a data race is undefined and no run goes on from it. \<open>size\<close>, \<open>empty\<close> and
  \<open>for_each\<close> change nothing and are no steps.
\<close>

section \<open>The methods\<close>

text \<open>
  The variants of \<open>pop\<close> and \<open>back\<close> that write to a reference argument and those that return the value. All of them except
  \<open>clear\<close> take the mutex.
\<close>

datatype 'a fifo_call = Push 'a | Back | BackInto | Pop | PopInto | TryPop | PopFor | Clear

text \<open>What a call returns: nothing, a value, or a boolean with what was written to the argument.\<close>

datatype 'a outcome = Done | Value 'a | Answer bool "'a option" | Thrown exn

datatype ConditionVariable = QueueNotEmpty | QueueNotFull

definition nothing_to_pop :: "('a, 'z) SharedFifo_scheme \<Rightarrow> bool" where
  "nothing_to_pop q \<longleftrightarrow> \<not> m_bReleased q \<and> m_nbNotified q = 0"

text \<open>The condition of the waiting loop; \<open>timed_out\<close> is the status of the last wait.\<close>

fun must_wait :: "('a, 'z) FifoClass \<Rightarrow> 'a fifo_call \<Rightarrow> bool \<Rightarrow> ('a, 'z) SharedFifo_scheme \<Rightarrow> bool" where
  "must_wait C (Push value) timed_out q = fc_push_waits C q"
| "must_wait C TryPop timed_out q = False"
| "must_wait C Clear timed_out q = False"
| "must_wait C PopFor timed_out q = (nothing_to_pop q \<and> \<not> timed_out)"
| "must_wait C call timed_out q = nothing_to_pop q"

fun waits_on :: "'a fifo_call \<Rightarrow> ConditionVariable" where
  "waits_on (Push value) = QueueNotFull"
| "waits_on call = QueueNotEmpty"

text \<open>What follows the loop: the outcome, whether each condition variable is notified, and the queue.\<close>

type_synonym ('a, 'z) finished = "'a outcome \<times> bool \<times> bool \<times> ('a, 'z) SharedFifo_scheme"

definition finish_push :: "('a, 'z) FifoClass \<Rightarrow> 'a \<Rightarrow> ('a, 'z) SharedFifo_scheme \<Rightarrow> ('a, 'z) finished" where
  "finish_push C value q = (case fc_push C value q of Inl e \<Rightarrow> (Thrown e, False, False, q)
     | Inr (notified, q') \<Rightarrow> (Done, notified, False, q'))"

definition finish_pop :: "('a, 'z) FifoClass \<Rightarrow> ('a \<Rightarrow> 'a outcome) \<Rightarrow> ('a, 'z) SharedFifo_scheme \<Rightarrow> ('a, 'z) finished" where
  "finish_pop C returned q = (case fc_doPop C q of Inl e \<Rightarrow> (Thrown e, False, False, q)
     | Inr (value, notified, q') \<Rightarrow> (returned value, False, notified, q'))"

text \<open>No class overrides \<open>back\<close>: it reads the back of the deque in all of them.\<close>

definition SharedFifo_back :: "('a, 'z) SharedFifo_scheme \<Rightarrow> 'a outcome" where
  "SharedFifo_back q =
     (if m_bReleased q \<and> m_nbNotified q = 0 then Thrown (exception_of_char_text Exception ''IFifo::back aborted'')
      else if m_data q = [] then Thrown Undefined_behaviour else Value (last (m_data q)))"

definition SharedFifo_back_into :: "('a, 'z) SharedFifo_scheme \<Rightarrow> 'a outcome" where
  "SharedFifo_back_into q =
     (if m_nbNotified q = 0 then Answer (m_bReleased q) None
      else if m_data q = [] then Thrown Undefined_behaviour else Answer (m_bReleased q) (Some (last (m_data q))))"

definition SharedFifo_pop :: "('a, 'z) FifoClass \<Rightarrow> ('a, 'z) SharedFifo_scheme \<Rightarrow> ('a, 'z) finished" where
  "SharedFifo_pop C q =
     (if m_bReleased q \<and> m_nbNotified q = 0
      then (Thrown (exception_of_char_text Exception ''IFifo::pop aborted''), False, False, q)
      else finish_pop C Value q)"

definition SharedFifo_pop_into :: "('a, 'z) FifoClass \<Rightarrow> ('a, 'z) SharedFifo_scheme \<Rightarrow> ('a, 'z) finished" where
  "SharedFifo_pop_into C q =
     (if m_bReleased q \<and> m_nbNotified q = 0 then (Answer False None, False, False, q)
      else finish_pop C (\<lambda>v. Answer True (Some v)) q)"

definition SharedFifo_tryPop :: "('a, 'z) FifoClass \<Rightarrow> ('a, 'z) SharedFifo_scheme \<Rightarrow> ('a, 'z) finished" where
  "SharedFifo_tryPop C q =
     (if m_nbNotified q > 0 then finish_pop C (\<lambda>v. Answer True (Some v)) q else (Answer False None, False, False, q))"

definition SharedFifo_pop_for :: "('a, 'z) FifoClass \<Rightarrow> bool \<Rightarrow> ('a, 'z) SharedFifo_scheme \<Rightarrow> ('a, 'z) finished" where
  "SharedFifo_pop_for C timed_out q =
     (if (timed_out \<or> m_bReleased q) \<and> m_nbNotified q = 0 then (Answer False None, False, False, q)
      else finish_pop C (\<lambda>v. Answer True (Some v)) q)"

fun finish :: "('a, 'z) FifoClass \<Rightarrow> 'a fifo_call \<Rightarrow> bool \<Rightarrow> ('a, 'z) SharedFifo_scheme \<Rightarrow> ('a, 'z) finished" where
  "finish C (Push value) timed_out q = finish_push C value q"
| "finish C Back timed_out q = (SharedFifo_back q, False, False, q)"
| "finish C BackInto timed_out q = (SharedFifo_back_into q, False, False, q)"
| "finish C Pop timed_out q = SharedFifo_pop C q"
| "finish C PopInto timed_out q = SharedFifo_pop_into C q"
| "finish C TryPop timed_out q = SharedFifo_tryPop C q"
| "finish C PopFor timed_out q = SharedFifo_pop_for C timed_out q"
| "finish C Clear timed_out q = (Done, False, False, SharedFifo_clear q)"

section \<open>Threads\<close>

text \<open>
  \<open>Locking\<close>: waiting for the mutex; \<open>Owning\<close>: holding it, about to test the condition of the loop; \<open>Parking\<close>: the test said to
  wait; \<open>Parked\<close>: waiting on the condition variable; \<open>Releasing\<close>: in \<open>release\<close>, after the flag is set; \<open>Clearing\<close>: in \<open>clear\<close>.
\<close>

datatype 'a thread =
    Idle | Locking "'a fifo_call" bool | Owning "'a fifo_call" bool | Parking "'a fifo_call" | Parked "'a fifo_call" | Releasing
  | Clearing

text \<open>The log lists the calls that ended, with what they returned, in the order they held the mutex or cleared the queue.\<close>

record ('a, 'z) Monitor =
  mon_queue :: "('a, 'z) SharedFifo_scheme"
  mon_owner :: "nat option"
  mon_threads :: "nat \<Rightarrow> 'a thread"
  mon_log :: "('a fifo_call \<times> 'a outcome) list"

definition Monitor_init :: "('a, 'z) SharedFifo_scheme \<Rightarrow> ('a, 'z) Monitor" where
  "Monitor_init q = \<lparr>mon_queue = q, mon_owner = None, mon_threads = (\<lambda>_. Idle), mon_log = []\<rparr>"

fun parked_on :: "ConditionVariable \<Rightarrow> 'a thread \<Rightarrow> bool" where
  "parked_on cv (Parked call) = (waits_on call = cv)"
| "parked_on cv _ = False"

fun woken :: "'a thread \<Rightarrow> 'a thread" where
  "woken (Parked call) = Locking call False"
| "woken th = th"

text \<open>\<open>notify_one\<close> wakes one of the threads that wait, if there is one.\<close>

inductive notify_one :: "ConditionVariable \<Rightarrow> bool \<Rightarrow> (nat \<Rightarrow> 'a thread) \<Rightarrow> (nat \<Rightarrow> 'a thread) \<Rightarrow> bool" where
  silent: "notify_one cv False ths ths"
| nobody: "(\<And>u. \<not> parked_on cv (ths u)) \<Longrightarrow> notify_one cv True ths ths"
| somebody: "parked_on cv (ths u) \<Longrightarrow> notify_one cv True ths (ths(u := woken (ths u)))"

definition notify_all :: "ConditionVariable \<Rightarrow> (nat \<Rightarrow> 'a thread) \<Rightarrow> (nat \<Rightarrow> 'a thread)" where
  "notify_all cv ths = (\<lambda>u. if parked_on cv (ths u) then woken (ths u) else ths u)"

definition at_thread :: "nat \<Rightarrow> 'a thread \<Rightarrow> ('a, 'z) Monitor \<Rightarrow> ('a, 'z) Monitor" where
  "at_thread t th s = s\<lparr>mon_threads := (mon_threads s)(t := th)\<rparr>"

text \<open>The calls threads may make are those of \<open>A\<close>.\<close>

inductive thread_step ::
  "('a, 'z) FifoClass \<Rightarrow> ('a fifo_call \<Rightarrow> bool) \<Rightarrow> ('a, 'z) Monitor \<Rightarrow> ('a, 'z) Monitor \<Rightarrow> bool" for C A where
  start: "mon_threads s t = Idle \<Longrightarrow> A call \<Longrightarrow> call \<noteq> Clear \<Longrightarrow> thread_step C A s (at_thread t (Locking call False) s)"
| lock: "mon_threads s t = Locking call timed_out \<Longrightarrow> mon_owner s = None \<Longrightarrow>
    thread_step C A s (at_thread t (Owning call timed_out) (s\<lparr>mon_owner := Some t\<rparr>))"
| try_lock_fails: "mon_threads s t = Locking TryPop timed_out \<Longrightarrow> mon_owner s \<noteq> None \<Longrightarrow>
    thread_step C A s (at_thread t Idle (s\<lparr>mon_log := mon_log s @ [(TryPop, Answer False None)]\<rparr>))"
| test: "mon_threads s t = Owning call timed_out \<Longrightarrow> must_wait C call timed_out (mon_queue s) \<Longrightarrow>
    thread_step C A s (at_thread t (Parking call) s)"
| park: "mon_threads s t = Parking call \<Longrightarrow> thread_step C A s (at_thread t (Parked call) (s\<lparr>mon_owner := None\<rparr>))"
| end_call: "mon_threads s t = Owning call timed_out \<Longrightarrow> \<not> must_wait C call timed_out (mon_queue s) \<Longrightarrow>
    finish C call timed_out (mon_queue s) = (out, not_empty, not_full, q) \<Longrightarrow>
    notify_one QueueNotEmpty not_empty ((mon_threads s)(t := Idle)) ths \<Longrightarrow> notify_one QueueNotFull not_full ths ths' \<Longrightarrow>
    thread_step C A s \<lparr>mon_queue = q, mon_owner = None, mon_threads = ths', mon_log = mon_log s @ [(call, out)]\<rparr>"
| spurious: "mon_threads s t = Parked call \<Longrightarrow> thread_step C A s (at_thread t (Locking call False) s)"
| time_out: "mon_threads s t = Parked PopFor \<Longrightarrow> thread_step C A s (at_thread t (Locking PopFor True) s)"
| release_flag: "mon_threads s t = Idle \<Longrightarrow>
    thread_step C A s (at_thread t Releasing (s\<lparr>mon_queue := (mon_queue s)\<lparr>m_bReleased := True\<rparr>\<rparr>))"
| release_notify: "mon_threads s t = Releasing \<Longrightarrow>
    thread_step C A s (s\<lparr>mon_threads := (notify_all QueueNotEmpty (mon_threads s))(t := Idle)\<rparr>)"
| clear_starts: "mon_threads s t = Idle \<Longrightarrow> A Clear \<Longrightarrow> thread_step C A s (at_thread t Clearing s)"
| clear_ends: "mon_threads s t = Clearing \<Longrightarrow> finish C Clear False (mon_queue s) = (out, False, False, q) \<Longrightarrow>
    thread_step C A s (at_thread t Idle (s\<lparr>mon_queue := q, mon_log := mon_log s @ [(Clear, out)]\<rparr>))"

definition data_race :: "('a, 'z) Monitor \<Rightarrow> bool" where
  "data_race s \<longleftrightarrow> (\<exists>t. mon_threads s t = Clearing \<and>
     (mon_owner s \<noteq> None \<or> (\<exists>u. u \<noteq> t \<and> mon_threads s u = Clearing)))"

lemma no_data_race: "(\<And>t. mon_threads s t \<noteq> Clearing) \<Longrightarrow> \<not> data_race s"
  by (simp add: data_race_def)

inductive reachable ::
  "('a, 'z) FifoClass \<Rightarrow> ('a fifo_call \<Rightarrow> bool) \<Rightarrow> ('a, 'z) SharedFifo_scheme \<Rightarrow> ('a, 'z) Monitor \<Rightarrow> bool" for C A q where
  initially: "reachable C A q (Monitor_init q)"
| stepping: "reachable C A q s \<Longrightarrow> \<not> data_race s \<Longrightarrow> thread_step C A s s' \<Longrightarrow> reachable C A q s'"

text \<open>No thread takes the mutex to clear, and one clears only where \<open>clear\<close> is among the calls threads may make.\<close>

fun allowed :: "('a fifo_call \<Rightarrow> bool) \<Rightarrow> 'a thread \<Rightarrow> bool" where
  "allowed A (Locking call timed_out) = (call \<noteq> Clear)"
| "allowed A (Owning call timed_out) = (call \<noteq> Clear)"
| "allowed A (Parking call) = (call \<noteq> Clear)"
| "allowed A (Parked call) = (call \<noteq> Clear)"
| "allowed A Clearing = A Clear"
| "allowed A _ = True"

lemma allowed_woken: "allowed A th \<Longrightarrow> allowed A (woken th)"
  by (cases th) auto

lemma allowed_notify_one:
  assumes "notify_one cv b ths ths'" and "\<And>t. allowed A (ths t)"
  shows "allowed A (ths' t)"
  using assms allowed_woken by (cases rule: notify_one.cases) auto

lemma allowed_step:
  assumes "thread_step C A s s'" and "\<And>t. allowed A (mon_threads s t)"
  shows "allowed A (mon_threads s' u)"
  using assms
proof (induction rule: thread_step.induct)
  case (end_call s t call timed_out out not_empty not_full q ths ths')
  have "allowed A (((mon_threads s)(t := Idle)) v)" for v
    using end_call(6) by simp
  then have "allowed A (ths v)" for v
    using allowed_notify_one [OF end_call(4)] by blast
  then show ?case
    using allowed_notify_one [OF end_call(5)] by simp
next
  case (release_notify s t)
  then show ?case by (simp add: notify_all_def allowed_woken)
next
  case (lock s t call timed_out)
  then show ?case using lock(3) [of t] by (auto simp: at_thread_def)
next
  case (test s t call timed_out)
  then show ?case using test(3) [of t] by (auto simp: at_thread_def)
next
  case (park s t call)
  then show ?case using park(2) [of t] by (auto simp: at_thread_def)
next
  case (spurious s t call)
  then show ?case using spurious(2) [of t] by (auto simp: at_thread_def)
qed (auto simp: at_thread_def)

lemma reachable_allowed: "reachable C A q s \<Longrightarrow> allowed A (mon_threads s t)"
proof (induction arbitrary: t rule: reachable.induct)
  case (stepping s s')
  then show ?case by (blast intro: allowed_step)
qed (simp add: Monitor_init_def)

text \<open>Where no thread clears there is no data race, and more calls allow more.\<close>

lemma stepping_locked: "reachable C A q s \<Longrightarrow> \<not> A Clear \<Longrightarrow> thread_step C A s s' \<Longrightarrow> reachable C A q s'"
  by (metis stepping no_data_race reachable_allowed allowed.simps(5))

lemma thread_step_mono:
  assumes "thread_step C A s s'" and "\<And>call. A call \<Longrightarrow> A' call"
  shows "thread_step C A' s s'"
  using assms by (induction rule: thread_step.induct) (auto intro: thread_step.intros)

lemma reachable_mono:
  assumes "reachable C A q s" and "\<And>call. A call \<Longrightarrow> A' call"
  shows "reachable C A' q s"
  using assms(1)
proof (induction rule: reachable.induct)
  case (stepping s s')
  then show ?case
    using reachable.stepping thread_step_mono [of C A s s' A', OF stepping(3) assms(2)] by blast
qed (rule initially)

abbreviation locked :: "'a fifo_call \<Rightarrow> bool" where
  "locked call \<equiv> call \<noteq> Clear"

lemma reachable_locked: "reachable C locked q s \<Longrightarrow> reachable C (\<lambda>_. True) q s"
  by (erule reachable_mono) simp

section \<open>Every interleaving is a sequence of calls\<close>

text \<open>
  What a call that returned \<open>out\<close> did to the elements of an abstract queue; no answer when a queue could not have returned
  that: a value popped is the next element, and a \<open>pop\<close> that waits ends without a value on an empty queue only.
\<close>

fun effect :: "('a \<Rightarrow> 'a list \<Rightarrow> 'a list) \<Rightarrow> 'a fifo_call \<Rightarrow> 'a outcome \<Rightarrow> 'a list \<Rightarrow> 'a list option" where
  "effect put (Push x) Done l = Some (put x l)"
| "effect put (Push x) (Thrown e) l = (if e \<noteq> Undefined_behaviour then Some l else None)"
| "effect put Pop (Value v) l = (if l \<noteq> [] \<and> hd l = v then Some (tl l) else None)"
| "effect put Pop (Thrown e) l = (if l = [] \<and> e \<noteq> Undefined_behaviour then Some l else None)"
| "effect put PopInto (Answer True (Some v)) l = (if l \<noteq> [] \<and> hd l = v then Some (tl l) else None)"
| "effect put PopInto (Answer False None) l = (if l = [] then Some l else None)"
| "effect put PopFor (Answer True (Some v)) l = (if l \<noteq> [] \<and> hd l = v then Some (tl l) else None)"
| "effect put PopFor (Answer False None) l = (if l = [] then Some l else None)"
| "effect put TryPop (Answer True (Some v)) l = (if l \<noteq> [] \<and> hd l = v then Some (tl l) else None)"
| "effect put TryPop (Answer False None) l = Some l"
| "effect put Back out l = Some l"
| "effect put BackInto out l = Some l"
| "effect put Clear out l = Some []"
| "effect put call out l = None"

fun replay :: "('a \<Rightarrow> 'a list \<Rightarrow> 'a list) \<Rightarrow> ('a fifo_call \<times> 'a outcome) list \<Rightarrow> 'a list \<Rightarrow> 'a list option" where
  "replay put [] l = Some l"
| "replay put ((call, out) # log) l = Option.bind (effect put call out l) (replay put log)"

lemma replay_append: "replay put (xs @ ys) l = Option.bind (replay put xs l) (replay put ys)"
  by (induction xs arbitrary: l) (auto split: bind_split)

context fifo_class
begin

lemma finish_pop_effect:
  assumes "wf q" and "m_nbNotified q \<noteq> 0" and "finish_pop C r q = (out, e, f, q')"
  shows "wf q' \<and> (\<exists>v. out = r v \<and> elems q = v # elems q')"
proof -
  from assms(1,2) obtain v vs where "elems q = v # vs"
    using count [of q] by (cases "elems q") auto
  with pop [OF assms(1) this] assms(3) show ?thesis
    by (auto simp: finish_pop_def)
qed

lemma finish_effect:
  assumes q: "wf q" and go: "\<not> must_wait C call timed_out q" and end_call: "finish C call timed_out q = (out, e, f, q')"
    and locks: "call \<noteq> Clear"
  shows "wf q' \<and> effect put call out (elems q) = Some (elems q')"
proof -
  have empty: "m_nbNotified q = 0 \<longleftrightarrow> elems q = []"
    using count [OF q] by simp
  have popped: "finish_pop C r q = (out, e, f, q') \<Longrightarrow> m_nbNotified q \<noteq> 0 \<Longrightarrow>
      wf q' \<and> (\<exists>v. out = r v \<and> elems q \<noteq> [] \<and> hd (elems q) = v \<and> tl (elems q) = elems q')" for r
    using finish_pop_effect [OF q] by fastforce
  show ?thesis
  proof (cases call)
    case (Push x)
    then show ?thesis
      using go end_call push [OF q, of x] push_defined [OF q, of x] q
      by (auto simp: finish_push_def split: sum.splits prod.splits)
  next
    case Pop
    then show ?thesis
      using go end_call q empty popped
      by (auto simp: SharedFifo_pop_def nothing_to_pop_def exception_of_char_text_def dest!: popped split: if_splits)
  next
    case PopInto
    then show ?thesis
      using go end_call q empty popped by (auto simp: SharedFifo_pop_into_def nothing_to_pop_def dest!: popped split: if_splits)
  next
    case TryPop
    then show ?thesis
      using end_call q empty popped by (auto simp: SharedFifo_tryPop_def dest!: popped split: if_splits)
  next
    case PopFor
    then show ?thesis
      using go end_call q empty popped by (auto simp: SharedFifo_pop_for_def nothing_to_pop_def dest!: popped split: if_splits)
  qed (use end_call q locks in auto)
qed

lemma step_effect:
  assumes "thread_step C A s s'" and "\<And>t. allowed A (mon_threads s t)"
    and clear: "\<And>q. A Clear \<Longrightarrow> wf q \<Longrightarrow> wf (SharedFifo_clear q) \<and> elems (SharedFifo_clear q) = []"
    and "wf (mon_queue s)" and "replay put (mon_log s) [] = Some (elems (mon_queue s))"
  shows "wf (mon_queue s') \<and> replay put (mon_log s') [] = Some (elems (mon_queue s'))"
  using assms(1,2,4,5)
proof (induction rule: thread_step.induct)
  case (end_call s t call timed_out out not_empty not_full q ths ths')
  then have "call \<noteq> Clear"
    by (metis allowed.simps(2))
  with end_call show ?case
    using finish_effect [of "mon_queue s" call timed_out out not_empty not_full q] by (simp add: replay_append)
next
  case (clear_ends s t out q)
  then have "A Clear"
    by (metis allowed.simps(5))
  with clear_ends clear show ?case
    by (auto simp: at_thread_def replay_append)
qed (auto simp: at_thread_def replay_append release)

lemma linearizable:
  assumes "reachable C A q s" and "wf q" and "elems q = []"
    and clear: "\<And>q. A Clear \<Longrightarrow> wf q \<Longrightarrow> wf (SharedFifo_clear q) \<and> elems (SharedFifo_clear q) = []"
  shows "wf (mon_queue s) \<and> replay put (mon_log s) [] = Some (elems (mon_queue s))"
  using assms(1)
proof (induction rule: reachable.induct)
  case initially
  with assms show ?case by (simp add: Monitor_init_def)
next
  case (stepping s s')
  then show ?case
    using step_effect [OF stepping(3) reachable_allowed [OF stepping(1)] clear] by blast
qed

end

context clearing_class
begin

lemma linearizable_clearing:
  assumes "reachable C A q s" and "wf q" and "elems q = []"
  shows "wf (mon_queue s) \<and> replay put (mon_log s) [] = Some (elems (mon_queue s))"
  using linearizable [OF assms] clear by blast

end

text \<open>The elements pushed and those popped, in the order of the calls.\<close>

fun given :: "'a fifo_call \<times> 'a outcome \<Rightarrow> 'a list" where
  "given (Push x, Done) = [x]"
| "given _ = []"

fun taken :: "'a fifo_call \<times> 'a outcome \<Rightarrow> 'a list" where
  "taken (Push x, out) = []"
| "taken (Back, out) = []"
| "taken (BackInto, out) = []"
| "taken (Clear, out) = []"
| "taken (call, Value v) = [v]"
| "taken (call, Answer b (Some v)) = [v]"
| "taken _ = []"

text \<open>The calls after the last \<open>clear\<close>: all of them where nobody cleared the queue.\<close>

definition since_clear :: "('a fifo_call \<times> 'a outcome) list \<Rightarrow> ('a fifo_call \<times> 'a outcome) list" where
  "since_clear log = rev (takeWhile (\<lambda>c. fst c \<noteq> Clear) (rev log))"

lemma since_clear_snoc: "since_clear (log @ [c]) = (if fst c = Clear then [] else since_clear log @ [c])"
  by (simp add: since_clear_def)

lemma since_clear_all: "Clear \<notin> fst ` set log \<Longrightarrow> since_clear log = log"
  by (induction log rule: rev_induct) (auto simp: since_clear_snoc, simp add: since_clear_def)

lemma effect_append_last:
  "effect append_last call out l = Some l' \<Longrightarrow> call \<noteq> Clear \<Longrightarrow> l @ given (call, out) = taken (call, out) @ l'"
  by (erule effect.elims) (auto simp: append_last_def split: if_splits)

lemma replay_append_last:
  "replay append_last log [] = Some l \<Longrightarrow>
    concat (map given (since_clear log)) = concat (map taken (since_clear log)) @ l"
proof (induction log arbitrary: l rule: rev_induct)
  case (snoc a log)
  obtain call out where a: "a = (call, out)" by fastforce
  with snoc.prems obtain m where m: "replay append_last log [] = Some m" and "effect append_last call out m = Some l"
    by (auto simp: replay_append bind_eq_Some_conv)
  moreover from this have "call \<noteq> Clear \<Longrightarrow> m @ given a = taken a @ l"
    by (simp add: a effect_append_last)
  ultimately show ?case
    using snoc.IH [OF m] by (cases "call = Clear") (auto simp: since_clear_snoc a)
qed (simp add: since_clear_def)

section \<open>Nobody is forgotten\<close>

text \<open>Threads in a call that takes an element, and those of them that do not wait on the condition variable.\<close>

fun consuming :: "'a fifo_call \<Rightarrow> bool" where
  "consuming Pop = True"
| "consuming PopInto = True"
| "consuming PopFor = True"
| "consuming _ = False"

fun awake :: "'a thread \<Rightarrow> bool" where
  "awake (Locking call timed_out) = consuming call"
| "awake (Owning call timed_out) = consuming call"
| "awake _ = False"

fun holds_mutex :: "'a thread \<Rightarrow> bool" where
  "holds_mutex (Owning call timed_out) = True"
| "holds_mutex (Parking call) = True"
| "holds_mutex _ = False"

fun reads_only :: "'a fifo_call \<Rightarrow> bool" where
  "reads_only Back = True"
| "reads_only BackInto = True"
| "reads_only _ = False"

text \<open>Calls that only read are excluded, \<open>clear\<close> takes no lock, and \<open>tryPop\<close> never waits.\<close>

fun fits :: "'a thread \<Rightarrow> bool" where
  "fits (Locking call timed_out) = (\<not> reads_only call \<and> call \<noteq> Clear)"
| "fits (Owning call timed_out) = (\<not> reads_only call \<and> call \<noteq> Clear)"
| "fits (Parking call) = (\<not> reads_only call \<and> call \<noteq> Clear \<and> call \<noteq> TryPop)"
| "fits (Parked call) = (\<not> reads_only call \<and> call \<noteq> Clear \<and> call \<noteq> TryPop)"
| "fits _ = True"

definition awake_count :: "(nat \<Rightarrow> 'a thread) \<Rightarrow> nat" where
  "awake_count ths = card {t. awake (ths t)}"

abbreviation somebody_parked :: "(nat \<Rightarrow> 'a thread) \<Rightarrow> bool" where
  "somebody_parked ths \<equiv> \<exists>t. parked_on QueueNotEmpty (ths t)"

definition threads_ok :: "(nat \<Rightarrow> 'a thread) \<Rightarrow> nat option \<Rightarrow> bool" where
  "threads_ok ths owner \<longleftrightarrow> finite {t. ths t \<noteq> Idle} \<and> (\<forall>t. holds_mutex (ths t) \<longrightarrow> owner = Some t)
     \<and> (\<forall>t. fits (ths t))"

definition nobody_forgotten :: "('a, 'z) Monitor \<Rightarrow> bool" where
  "nobody_forgotten s \<longleftrightarrow> threads_ok (mon_threads s) (mon_owner s)
     \<and> (\<forall>t call. mon_threads s t = Parking call \<longrightarrow> consuming call \<longrightarrow> m_nbNotified (mon_queue s) = 0)
     \<and> (somebody_parked (mon_threads s) \<longrightarrow> m_nbNotified (mon_queue s) \<le> awake_count (mon_threads s))"

lemma waits_on_consuming: "\<not> reads_only call \<Longrightarrow> call \<noteq> Clear \<Longrightarrow> call \<noteq> TryPop \<Longrightarrow> waits_on call = QueueNotEmpty \<longleftrightarrow> consuming call"
  by (cases call) auto

lemma finite_awake: "finite {t. ths t \<noteq> Idle} \<Longrightarrow> finite {t. awake (ths t)}"
  by (erule rev_finite_subset) auto

lemma awake_count_upd:
  assumes "finite {t. ths t \<noteq> Idle}"
  shows "awake_count (ths(t := th)) + of_bool (awake (ths t)) = awake_count ths + of_bool (awake th)"
proof -
  let ?S = "{u. awake (ths u)} - {t}"
  have split: "finite S \<Longrightarrow> t \<notin> S \<Longrightarrow> card (if c then insert t S else S) = card S + of_bool c" for S c
    by simp
  have S: "finite ?S" "t \<notin> ?S"
    using finite_awake [OF assms] by auto
  have "card {u. awake (ths u)} = card (if awake (ths t) then insert t ?S else ?S)"
    and "card {u. awake ((ths(t := th)) u)} = card (if awake th then insert t ?S else ?S)"
    by (rule arg_cong [where f = card], auto)+
  then show ?thesis
    unfolding awake_count_def split [OF S] by simp
qed

lemma threads_ok_upd:
  assumes "threads_ok ths owner" and "\<And>u. u \<noteq> t \<Longrightarrow> holds_mutex (ths u) \<Longrightarrow> owner' = owner"
    and "holds_mutex th \<Longrightarrow> owner' = Some t" and "fits th"
  shows "threads_ok (ths(t := th)) owner'"
proof -
  have "{u. (ths(t := th)) u \<noteq> Idle} \<subseteq> insert t {u. ths u \<noteq> Idle}"
    by auto
  then show ?thesis
    using assms by (auto simp: threads_ok_def finite_subset)
qed

lemma parked_onE:
  assumes "parked_on cv th" and "fits th"
  obtains call where "th = Parked call" and "waits_on call = cv" and "\<not> reads_only call" and "call \<noteq> Clear"
    and "consuming call \<longleftrightarrow> cv = QueueNotEmpty"
  using assms waits_on_consuming by (cases th) auto

lemma threads_ok_fits: "threads_ok ths owner \<Longrightarrow> fits (ths u)"
  by (simp add: threads_ok_def)

lemma notify_one_ok:
  assumes "notify_one cv b ths ths'" and "threads_ok ths None"
  shows "threads_ok ths' None"
  using assms(1)
proof (cases rule: notify_one.cases)
  case (somebody u)
  obtain call where "ths u = Parked call" and "\<not> reads_only call" and "call \<noteq> Clear"
    using parked_onE [OF somebody(3) threads_ok_fits [OF assms(2)]] by metis
  then show ?thesis
    unfolding somebody(2) by (intro threads_ok_upd [OF assms(2)]) auto
qed (use assms(2) in simp_all)

lemma notify_not_empty:
  assumes "notify_one QueueNotEmpty b ths ths'" and "threads_ok ths None" and "somebody_parked ths'"
  shows "somebody_parked ths \<and> awake_count ths' = awake_count ths + of_bool b"
  using assms(1)
proof (cases rule: notify_one.cases)
  case (somebody u)
  obtain call where "ths u = Parked call" and "consuming call"
    using parked_onE [OF somebody(3) threads_ok_fits [OF assms(2)]] by metis
  moreover have "somebody_parked ths"
    using somebody(3) by blast
  ultimately show ?thesis
    using somebody assms(2) awake_count_upd [of ths u "woken (ths u)"] by (auto simp: threads_ok_def)
qed (use assms(3) in auto)

lemma notify_not_full:
  assumes "notify_one QueueNotFull b ths ths'" and "threads_ok ths None"
  shows "somebody_parked ths' = somebody_parked ths \<and> awake_count ths' = awake_count ths"
  using assms(1)
proof (cases rule: notify_one.cases)
  case (somebody u)
  obtain call where call: "ths u = Parked call" "waits_on call = QueueNotFull" "\<not> consuming call"
    using parked_onE [OF somebody(3) threads_ok_fits [OF assms(2)]] by (metis ConditionVariable.distinct(1))
  then have "parked_on QueueNotEmpty (ths' t) = parked_on QueueNotEmpty (ths t)" for t
    using somebody(2) by simp
  then show ?thesis
    using call somebody assms(2) awake_count_upd [of ths u "woken (ths u)"] by (auto simp: threads_ok_def)
qed auto

lemma nobody_forgottenD:
  assumes "nobody_forgotten s"
  shows "fits (mon_threads s t)" and "holds_mutex (mon_threads s t) \<Longrightarrow> mon_owner s = Some t"
  using assms by (simp_all add: nobody_forgotten_def threads_ok_def)

lemma parked_not_awake: "parked_on cv th \<Longrightarrow> \<not> awake th"
  by (cases th) auto

lemma notify_all_at:
  "notify_all cv ths u = Idle \<longleftrightarrow> ths u = Idle" "holds_mutex (notify_all cv ths u) = holds_mutex (ths u)"
  "fits (ths u) \<Longrightarrow> fits (notify_all cv ths u)" "\<not> parked_on cv (notify_all cv ths u)"
  "notify_all cv ths u = Parking call \<longleftrightarrow> ths u = Parking call"
  by (cases "ths u"; simp add: notify_all_def)+

text \<open>A step that changes one thread, and perhaps the owner of the mutex, the flag or the log.\<close>

lemma nobody_forgotten_at:
  assumes s: "nobody_forgotten s" and "fits th"
    and same: "mon_threads s' = (mon_threads s)(t := th)" "m_nbNotified (mon_queue s') = m_nbNotified (mon_queue s)"
    and owner: "mon_owner s' = mon_owner s \<or> mon_owner s = None \<or> mon_owner s = Some t \<and> holds_mutex (mon_threads s t)"
    and holds: "holds_mutex th \<Longrightarrow> mon_owner s' = Some t"
    and empty: "\<not> awake th \<and> (awake (mon_threads s t) \<or> (\<exists>call. th = Parking call \<and> consuming call) \<or> parked_on QueueNotEmpty th)
      \<Longrightarrow> m_nbNotified (mon_queue s) = 0"
  shows "nobody_forgotten s'"
proof -
  have ok: "threads_ok (mon_threads s) (mon_owner s)"
    using s by (simp add: nobody_forgotten_def)
  have "threads_ok (mon_threads s') (mon_owner s')"
    unfolding same using ok \<open>fits th\<close> holds owner by (intro threads_ok_upd [OF ok]) (auto simp: threads_ok_def)
  moreover have "m_nbNotified (mon_queue s) = 0" if "mon_threads s' u = Parking call" and "consuming call" for u call
    using that s empty by (auto simp: same nobody_forgotten_def split: if_splits)
  moreover have "m_nbNotified (mon_queue s) \<le> awake_count (mon_threads s')" if "somebody_parked (mon_threads s')"
  proof (cases "m_nbNotified (mon_queue s) = 0")
    case False
    then have "somebody_parked (mon_threads s)" and "awake (mon_threads s t) \<longrightarrow> awake th"
      using that empty parked_not_awake by (auto simp: same split: if_splits)
    moreover from this have "awake_count (mon_threads s) \<le> awake_count (mon_threads s')"
      using ok awake_count_upd [of "mon_threads s" t th]
      by (cases "awake th"; cases "awake (mon_threads s t)") (auto simp: same threads_ok_def)
    ultimately show ?thesis
      using s by (auto simp: nobody_forgotten_def)
  qed simp
  ultimately show ?thesis
    by (auto simp: nobody_forgotten_def same)
qed

context waking_class
begin

lemma finish_count:
  assumes "wf q" and "\<not> must_wait C call timed_out q" and "finish C call timed_out q = (out, e, f, q')" and "call \<noteq> Clear"
    and "\<not> reads_only call"
  shows "if consuming call then \<not> e \<and> (m_nbNotified q' = m_nbNotified q - 1)
    else m_nbNotified q' \<le> m_nbNotified q + of_bool e"
proof -
  from finish_effect [OF assms(1-4)] have l: "m_nbNotified q = length (elems q)" "m_nbNotified q' = length (elems q')"
      and effect: "effect put call out (elems q) = Some (elems q')"
    using assms(1) count by auto
  have tl: "tl (elems q) = elems q' \<Longrightarrow> length (elems q') = length (elems q) - 1"
    by (metis length_tl)
  show ?thesis
  proof (cases call)
    case (Push x)
    then show ?thesis
      using assms(3) l effect push_notifies [OF assms(1), of x] put_length [of x "elems q"]
      by (auto simp: finish_push_def split: sum.splits prod.splits if_splits)
  next
    case TryPop
    then show ?thesis
      using assms(3) l effect
      by (auto simp: SharedFifo_tryPop_def finish_pop_def dest!: tl split: sum.splits prod.splits if_splits)
  next
    case Pop
    then show ?thesis
      using assms(3) l effect
      by (auto simp: SharedFifo_pop_def finish_pop_def dest!: tl split: sum.splits prod.splits if_splits)
  next
    case PopInto
    then show ?thesis
      using assms(3) l effect
      by (auto simp: SharedFifo_pop_into_def finish_pop_def dest!: tl split: sum.splits prod.splits if_splits)
  next
    case PopFor
    then show ?thesis
      using assms(3) l effect
      by (auto simp: SharedFifo_pop_for_def finish_pop_def dest!: tl split: sum.splits prod.splits if_splits)
  qed (use assms(4,5) in auto)
qed

lemma nobody_forgotten_step:
  assumes "thread_step C A s s'" and "wf (mon_queue s)" and "\<And>call. A call \<Longrightarrow> \<not> reads_only call" and "nobody_forgotten s"
  shows "nobody_forgotten s'"
  using assms(1,2,4)
proof (induction rule: thread_step.induct)
  case (start s t call)
  then have "\<not> reads_only call"
    using assms(3) by blast
  with start show ?case
    by - (rule nobody_forgotten_at [of s "Locking call False" _ t], simp_all add: at_thread_def)
next
  case (lock s t call timed_out)
  with nobody_forgottenD [of s t] show ?case
    by - (rule nobody_forgotten_at [of s "Owning call timed_out" _ t], auto simp: at_thread_def)
next
  case (try_lock_fails s t timed_out)
  then show ?case
    by - (rule nobody_forgotten_at [of s Idle _ t], auto simp: at_thread_def)
next
  case (test s t call timed_out)
  with nobody_forgottenD [of s t] have "fits (mon_threads s t)" and "mon_owner s = Some t"
    by simp_all
  moreover from test have "call \<noteq> TryPop" and "consuming call \<Longrightarrow> m_nbNotified (mon_queue s) = 0"
    by (cases call; simp add: nothing_to_pop_def)+
  ultimately show ?case
    using test by - (rule nobody_forgotten_at [of s "Parking call" _ t], auto simp: at_thread_def)
next
  case (park s t call)
  with nobody_forgottenD [of s t] have fits: "fits (mon_threads s t)" and "mon_owner s = Some t"
      and "consuming call \<Longrightarrow> m_nbNotified (mon_queue s) = 0"
    by (auto simp: nobody_forgotten_def)
  moreover have "waits_on call = QueueNotEmpty \<Longrightarrow> consuming call"
    using fits park(1) waits_on_consuming [of call] by simp
  ultimately show ?case
    using park by - (rule nobody_forgotten_at [of s "Parked call" _ t], auto simp: at_thread_def)
next
  case (spurious s t call)
  with nobody_forgottenD [of s t] show ?case
    by - (rule nobody_forgotten_at [of s "Locking call False" _ t], auto simp: at_thread_def)
next
  case (time_out s t)
  then show ?case
    by - (rule nobody_forgotten_at [of s "Locking PopFor True" _ t], auto simp: at_thread_def)
next
  case (release_flag s t)
  then show ?case
    by - (rule nobody_forgotten_at [of s Releasing _ t], auto simp: at_thread_def)
next
  case (clear_starts s t)
  then show ?case
    by - (rule nobody_forgotten_at [of s Clearing _ t], auto simp: at_thread_def)
next
  case (clear_ends s t out q)
  then have "nobody_forgotten (at_thread t Idle s)"
    by - (rule nobody_forgotten_at [of s Idle _ t], auto simp: at_thread_def)
  with clear_ends show ?case
    by (auto simp: nobody_forgotten_def at_thread_def SharedFifo_clear_def)
next
  case (end_call s t call timed_out out not_empty not_full q ths ths')
  let ?ths = "(mon_threads s)(t := Idle)"
  from end_call nobody_forgottenD [of s t] have old: "threads_ok (mon_threads s) (mon_owner s)"
      and owner: "mon_owner s = Some t" and legal: "call \<noteq> Clear" "\<not> reads_only call"
    by (simp_all add: nobody_forgotten_def)
  have idle: "threads_ok ?ths None"
    using old owner by (intro threads_ok_upd [OF old]) (auto simp: threads_ok_def)
  then have mid: "threads_ok ths None" using notify_one_ok end_call(4) by blast
  then have new: "threads_ok ths' None" using notify_one_ok end_call(5) by blast
  have "m_nbNotified q \<le> awake_count ths'" if parked: "somebody_parked ths'"
  proof -
    from parked notify_not_full [OF end_call(5) mid] have "somebody_parked ths" and "awake_count ths' = awake_count ths"
      by auto
    with notify_not_empty [OF end_call(4) idle] have "somebody_parked ?ths" and woken: "awake_count ths' = awake_count ?ths + of_bool not_empty"
      by auto
    then have "somebody_parked (mon_threads s)"
      by (auto split: if_splits)
    with end_call have "m_nbNotified (mon_queue s) \<le> awake_count (mon_threads s)"
      by (simp add: nobody_forgotten_def)
    moreover have "awake_count ?ths + of_bool (consuming call) = awake_count (mon_threads s)"
      using awake_count_upd [of "mon_threads s" t Idle] old end_call(1) by (simp add: threads_ok_def)
    ultimately show ?thesis
      using finish_count [OF end_call(6,2,3) legal] woken by (auto split: if_splits)
  qed
  moreover have "\<not> holds_mutex (ths' u)" for u
    using new by (auto simp: threads_ok_def)
  ultimately show ?case
    using new by (auto simp: nobody_forgotten_def) (metis holds_mutex.simps(2))
next
  case (release_notify s t)
  then have old: "threads_ok (mon_threads s) (mon_owner s)"
    by (simp add: nobody_forgotten_def)
  then have "threads_ok (notify_all QueueNotEmpty (mon_threads s)) (mon_owner s)"
    by (simp add: threads_ok_def notify_all_at)
  then have "threads_ok ((notify_all QueueNotEmpty (mon_threads s))(t := Idle)) (mon_owner s)"
    by (rule threads_ok_upd) auto
  then show ?case
    using release_notify by (auto simp: nobody_forgotten_def notify_all_at)
qed

lemma no_consumer_forgotten:
  assumes "reachable C A q s" and "wf q" and "elems q = []" and "\<And>call. A call \<Longrightarrow> \<not> reads_only call"
    and clear: "\<And>q. A Clear \<Longrightarrow> wf q \<Longrightarrow> wf (SharedFifo_clear q) \<and> elems (SharedFifo_clear q) = []"
  shows "nobody_forgotten s"
  using assms(1)
proof (induction rule: reachable.induct)
  case initially
  show ?case
    by (simp add: Monitor_init_def nobody_forgotten_def threads_ok_def)
next
  case (stepping s s')
  then show ?case
    using nobody_forgotten_step [OF stepping(3)] linearizable [OF stepping(1) assms(2,3) clear] assms(4) by blast
qed

end

section \<open>What the callers of a queue see\<close>

text \<open>
  Property C6. Whatever the threads that call a \<open>SharedFifo\<close> or a \<open>SharedBuffer\<close> do, \<open>release\<close> and \<open>clear\<close> included, the
  elements popped are those pushed, in the order they were pushed, none lost and none twice: what was pushed since the last
  \<open>clear\<close> is what was popped since then followed by what is still there. Without a \<open>clear\<close> these are all the calls. A
  \<open>SharedBuffer\<close> never holds more than its maximum. This is for runs without a data race, that is a \<open>clear\<close> while another
  thread holds the mutex or clears.
\<close>

theorem fifo_order:
  assumes "reachable SharedFifo_class A SharedFifo_init s" and "reachable SharedBuffer_class B (SharedBuffer_init n startAt) t"
  shows "concat (map given (since_clear (mon_log s))) = concat (map taken (since_clear (mon_log s))) @ rev (m_data (mon_queue s)) \<and>
    concat (map given (since_clear (mon_log t))) = concat (map taken (since_clear (mon_log t))) @ rev (m_data (mon_queue t)) \<and>
    (Clear \<notin> fst ` set (mon_log s) \<longrightarrow> since_clear (mon_log s) = mon_log s) \<and>
    (Clear \<notin> fst ` set (mon_log t) \<longrightarrow> since_clear (mon_log t) = mon_log t) \<and>
    length (m_data (mon_queue t)) \<le> n"
proof -
  have "replay append_last (mon_log s) [] = Some (rev (m_data (mon_queue s)))"
    using cleared_fifos.linearizable_clearing [OF assms(1)] by (simp add: counted_def fifo_elems_def SharedFifo_init_def)
  moreover have "buffer_wf n (mon_queue t) \<and> replay append_last (mon_log t) [] = Some (rev (m_data (mon_queue t)))"
    using cleared_buffers.linearizable_clearing [OF assms(2)]
    by (simp add: buffer_wf_def counted_def fifo_elems_def SharedBuffer_init_def)
  ultimately show ?thesis
    by (auto simp: buffer_wf_def counted_def dest!: replay_append_last intro: since_clear_all)
qed

text \<open>
  Property C5. Each of the five classes of queue is a sequential queue, whatever the interleaving: a \<open>SharedFifo\<close> and a
  \<open>SharedBuffer\<close> a list that grows at its end, a \<open>SharedLifo\<close> a stack, a \<open>DropBuffer\<close> the last element pushed, a
  \<open>SharedCircularBuffer\<close> of size \<open>n\<close>, not 0, the last \<open>n\<close> elements pushed, oldest first. The log of the calls and of what they
  returned is explained by the list of the elements, step by step; a \<open>clear\<close> empties it. A \<open>SharedCircularBuffer\<close> must not be
  cleared, and runs end at a data race of \<open>clear\<close>.
\<close>

theorem queues_refine_lists:
  assumes "reachable SharedLifo_class A SharedFifo_init s" and "reachable DropBuffer_class B SharedFifo_init t"
    and "reachable SharedCircularBuffer_class D (SharedCircularBuffer_init fill n) u" and "n \<noteq> 0" and "\<not> D Clear"
    and "reachable SharedFifo_class E SharedFifo_init v" and "reachable SharedBuffer_class F (SharedBuffer_init m startAt) w"
  shows "replay Cons (mon_log s) [] = Some (m_data (mon_queue s)) \<and>
    replay (\<lambda>x l. [x]) (mon_log t) [] = Some (m_data (mon_queue t)) \<and>
    replay (keep_last n) (mon_log u) [] = Some (ring_elems (mon_queue u)) \<and>
    replay append_last (mon_log v) [] = Some (rev (m_data (mon_queue v))) \<and>
    replay append_last (mon_log w) [] = Some (rev (m_data (mon_queue w)))"
proof (intro conjI)
  show "replay Cons (mon_log s) [] = Some (m_data (mon_queue s))"
    using cleared_lifos.linearizable_clearing [OF assms(1)] by (simp add: counted_def SharedFifo_init_def)
  show "replay (\<lambda>x l. [x]) (mon_log t) [] = Some (m_data (mon_queue t))"
    using cleared_drops.linearizable_clearing [OF assms(2)] by (simp add: at_most_one_def counted_def SharedFifo_init_def)
  have "ring_wf n (SharedCircularBuffer_init fill n)" and "ring_elems (SharedCircularBuffer_init fill n) = []"
    using assms(4) by (simp_all add: ring_wf_def ring_elems_def SharedCircularBuffer_init_def)
  with rings.linearizable [OF assms(3), of n] assms(5)
  show "replay (keep_last n) (mon_log u) [] = Some (ring_elems (mon_queue u))"
    by blast
  show "replay append_last (mon_log v) [] = Some (rev (m_data (mon_queue v)))"
    using cleared_fifos.linearizable_clearing [OF assms(6)] by (simp add: counted_def fifo_elems_def SharedFifo_init_def)
  show "replay append_last (mon_log w) [] = Some (rev (m_data (mon_queue w)))"
    using cleared_buffers.linearizable_clearing [OF assms(7), of m]
    by (simp add: buffer_wf_def counted_def fifo_elems_def SharedBuffer_init_def)
qed

definition no_sleeper :: "('a, 'z) Monitor \<Rightarrow> bool" where
  "no_sleeper s \<longleftrightarrow> (somebody_parked (mon_threads s) \<longrightarrow> m_nbNotified (mon_queue s) \<le> awake_count (mon_threads s))"

text \<open>
  Property C9. As long as no thread calls \<open>back\<close>, no consumer sleeps beside an element meant for it: while one waits on the
  condition variable, at least as many other consumers are on their way to the queue as it has elements. This holds for
  every class, for a \<open>SharedBuffer\<close> with a start offset of 0 only, whatever the interleaving with \<open>release\<close> and \<open>clear\<close>; a
  \<open>SharedCircularBuffer\<close> has at least one slot and is not cleared, and runs end at a data race of \<open>clear\<close>.
\<close>

theorem no_sleeping_consumer:
  assumes A: "\<And>call. A call \<Longrightarrow> \<not> reads_only call" and D: "\<And>call. D call \<Longrightarrow> \<not> reads_only call \<and> call \<noteq> Clear"
    and fifo: "reachable SharedFifo_class A SharedFifo_init s1" and lifo: "reachable SharedLifo_class A SharedFifo_init s2"
    and drop: "reachable DropBuffer_class A SharedFifo_init s3" and buffer: "reachable SharedBuffer_class A (SharedBuffer_init n 0) s4"
    and ring: "reachable SharedCircularBuffer_class D (SharedCircularBuffer_init fill (Suc n)) s5"
  shows "no_sleeper s1 \<and> no_sleeper s2 \<and> no_sleeper s3 \<and> no_sleeper s4 \<and> no_sleeper s5"
proof -
  note start = counted_def at_most_one_def fifo_elems_def SharedFifo_init_def SharedBuffer_init_def started_wf_def buffer_wf_def
    ring_wf_def ring_elems_def SharedCircularBuffer_init_def
  have "nobody_forgotten s1"
    by (rule fifos.no_consumer_forgotten [OF fifo _ _ A cleared_fifos.clear]) (simp_all add: start)
  moreover have "nobody_forgotten s2"
    by (rule lifos.no_consumer_forgotten [OF lifo _ _ A cleared_lifos.clear]) (simp_all add: start)
  moreover have "nobody_forgotten s3"
    by (rule drops.no_consumer_forgotten [OF drop _ _ A cleared_drops.clear]) (simp_all add: start)
  moreover have "nobody_forgotten s4"
    by (rule started_buffers.no_consumer_forgotten [OF buffer _ _ A cleared_started.clear, of n]) (simp_all add: start)
  moreover have "nobody_forgotten s5"
    using D by (intro rings.no_consumer_forgotten [OF ring, of "Suc n"]) (auto simp: start)
  ultimately show ?thesis
    by (simp add: no_sleeper_def nobody_forgotten_def)
qed

section \<open>Runs of single calls\<close>

text \<open>Calls of one thread while the others rest, from one state with a free mutex to the next.\<close>

lemma call_takes_mutex:
  assumes "reachable C A q0 s" and "mon_owner s = None" and "mon_threads s t = Idle" and "A call" and "\<not> A Clear"
  shows "reachable C A q0 (at_thread t (Owning call False) (s\<lparr>mon_owner := Some t\<rparr>))"
proof -
  have "reachable C A q0 (at_thread t (Locking call False) s)"
    using assms by (metis stepping_locked thread_step.start)
  from stepping_locked [OF this assms(5), OF thread_step.lock [of _ t call False]] assms(2) show ?thesis
    by (simp add: at_thread_def)
qed

lemma call_parks:
  assumes "reachable C A q0 s" and "mon_owner s = None" and "mon_threads s t = Idle" and "A call" and "\<not> A Clear"
    and "must_wait C call False (mon_queue s)"
  shows "reachable C A q0 (at_thread t (Parked call) s)"
proof -
  let ?s = "at_thread t (Owning call False) (s\<lparr>mon_owner := Some t\<rparr>)"
  have "reachable C A q0 (at_thread t (Parking call) ?s)"
    using stepping_locked [OF call_takes_mutex [OF assms(1-5)] assms(5), OF thread_step.test [of _ t call False]] assms(6)
    by (simp add: at_thread_def)
  from stepping_locked [OF this assms(5), OF thread_step.park [of _ t call]] assms(2) show ?thesis
    by (cases s) (simp add: at_thread_def)
qed

lemma call_ends:
  assumes "reachable C A q0 s" and "mon_owner s = None" and "mon_threads s t = Locking call b \<or> mon_threads s t = Idle \<and> A call \<and> \<not> b"
    and "\<not> A Clear" and "\<not> must_wait C call b (mon_queue s)" and "finish C call b (mon_queue s) = (out, e, f, q)"
    and "notify_one QueueNotEmpty e ((mon_threads s)(t := Idle)) ths" and "notify_one QueueNotFull f ths ths'"
  shows "reachable C A q0 \<lparr>mon_queue = q, mon_owner = None, mon_threads = ths', mon_log = mon_log s @ [(call, out)]\<rparr>"
proof -
  let ?s = "at_thread t (Owning call b) (s\<lparr>mon_owner := Some t\<rparr>)"
  have "reachable C A q0 ?s"
    using assms(3)
  proof
    assume "mon_threads s t = Locking call b"
    then show ?thesis
      using stepping_locked [OF assms(1,4) thread_step.lock [of s t call b]] assms(2) by simp
  qed (use call_takes_mutex [OF assms(1,2)] assms(4) in simp)
  from stepping_locked [OF this assms(4), OF thread_step.end_call [of _ t call b C out e f q ths ths']] assms(5-8) show ?thesis
    by (simp add: at_thread_def)
qed

section \<open>Sleeping for ever\<close>

text \<open>Only these threads are in a call, all of them waiting on a condition variable: without a new call nothing wakes them.\<close>

definition asleep :: "(nat \<Rightarrow> 'a thread) \<Rightarrow> ('a, 'z) Monitor \<Rightarrow> bool" where
  "asleep ths s \<longleftrightarrow> mon_threads s = ths \<and> mon_owner s = None \<and> (\<forall>t. ths t = Idle \<or> (\<exists>call. ths t = Parked call))"

lemma release_forgets:
  fixes s0 :: "('a, 'z) Monitor" and q :: "('a, 'z) SharedFifo_scheme"
  assumes "nothing_to_pop q"
  shows "\<exists>s. reachable C locked q s \<and> asleep ((\<lambda>_. Idle)(0 := Parked Pop)) s \<and> m_bReleased (mon_queue s)"
proof -
  let ?A = "locked :: 'a fifo_call \<Rightarrow> bool"
  have nc: "\<not> ?A Clear" by simp
  let ?at = "\<lambda>q owner ths. \<lparr>mon_queue = q, mon_owner = owner, mon_threads = ths, mon_log = []\<rparr> :: ('a, 'z) Monitor"
  let ?r = "q\<lparr>m_bReleased := True\<rparr>"
  have "reachable C ?A q (?at q (Some 0) ((\<lambda>_. Idle)(0 := Owning Pop False)))"
    using call_takes_mutex [OF initially, of q 0 ?A Pop C] by (simp add: Monitor_init_def at_thread_def)
  from stepping_locked [OF this nc thread_step.test [of _ 0 Pop False]] assms
  have "reachable C ?A q (?at q (Some 0) ((\<lambda>_. Idle)(0 := Parking Pop)))"
    by (simp add: at_thread_def)
  from stepping_locked [OF this nc thread_step.release_flag [of _ 1]]
  have "reachable C ?A q (?at ?r (Some 0) ((\<lambda>_. Idle)(0 := Parking Pop, 1 := Releasing)))"
    by (simp add: at_thread_def)
  from stepping_locked [OF this nc thread_step.release_notify [of _ 1]]
  have "reachable C ?A q (?at ?r (Some 0) ((notify_all QueueNotEmpty ((\<lambda>_. Idle)(0 := Parking Pop, 1 := Releasing)))(1 := Idle)))"
    by simp
  moreover have "(notify_all QueueNotEmpty ((\<lambda>_. Idle)(0 := Parking Pop, 1 := Releasing)))(1 := Idle)
      = (\<lambda>_. Idle)(0 := Parking (Pop :: 'a fifo_call))"
    by (auto simp: notify_all_def fun_eq_iff)
  ultimately have "reachable C ?A q (?at ?r (Some 0) ((\<lambda>_. Idle)(0 := Parking Pop)))"
    by simp
  from stepping_locked [OF this nc thread_step.park [of _ 0 Pop]]
  have "reachable C ?A q (?at ?r None ((\<lambda>_. Idle)(0 := Parked Pop)))"
    by (simp add: at_thread_def)
  then show ?thesis
    by (intro exI [where x = "?at ?r None ((\<lambda>_. Idle)(0 := Parked Pop))"]) (simp add: asleep_def)
qed

lemma back_takes_wakeup:
  "\<exists>s. reachable SharedFifo_class locked SharedFifo_init s \<and> asleep ((\<lambda>_. Idle)(0 := Parked Pop)) s
     \<and> m_data (mon_queue s) = [x :: 'a] \<and> mon_log s = [(Push x, Done), (Back, Value x)]"
proof -
  let ?A = "locked :: 'a fifo_call \<Rightarrow> bool" and ?C = "SharedFifo_class :: ('a, unit) FifoClass"
  let ?at = "\<lambda>q ths log. \<lparr>mon_queue = q, mon_owner = None, mon_threads = ths, mon_log = log\<rparr> :: ('a, unit) Monitor"
  let ?q = "\<lparr>m_nbNotified = 1, m_data = [x], m_bReleased = False\<rparr>"
  note defs = Monitor_init_def at_thread_def nothing_to_pop_def SharedFifo_init_def SharedFifo_class_def SharedFifo_push_def
    finish_push_def SharedFifo_back_def
  have "reachable ?C ?A SharedFifo_init (?at SharedFifo_init ((\<lambda>_. Idle)(0 := Parked Pop)) [])"
    using call_parks [OF initially, of SharedFifo_init 0 ?A Pop ?C] by (simp add: defs)
  from call_parks [OF this, of 1 Back]
  have "reachable ?C ?A SharedFifo_init (?at SharedFifo_init ((\<lambda>_. Idle)(0 := Parked Pop, 1 := Parked Back)) [])"
    by (simp add: defs)
  moreover have "notify_one QueueNotEmpty True ((\<lambda>_. Idle)(0 := Parked Pop, 1 := Parked Back))
      ((\<lambda>_. Idle)(0 := Parked Pop, 1 := Locking (Back :: 'a fifo_call) False))"
    using notify_one.somebody [of QueueNotEmpty "(\<lambda>_. Idle)(0 := Parked Pop, 1 := Parked (Back :: 'a fifo_call))" 1] by simp
  ultimately have "reachable ?C ?A SharedFifo_init (?at ?q ((\<lambda>_. Idle)(0 := Parked Pop, 1 := Locking Back False)) [(Push x, Done)])"
    using call_ends [of ?C ?A SharedFifo_init _ 2 "Push x" False Done True False ?q]
    by (fastforce simp: defs fun_upd_idem intro: notify_one.silent)
  from call_ends [OF this, of 1 Back False "Value x" False False ?q, OF _ _ _ _ _ notify_one.silent notify_one.silent]
  have "reachable ?C ?A SharedFifo_init (?at ?q ((\<lambda>_. Idle)(0 := Parked Pop, 1 := Idle)) [(Push x, Done), (Back, Value x)])"
    by (simp add: defs)
  moreover have "(\<lambda>_ :: nat. Idle)(0 := Parked Pop, 1 := Idle) = (\<lambda>_. Idle)(0 := Parked (Pop :: 'a fifo_call))"
    by (auto simp: fun_eq_iff)
  ultimately have "reachable ?C ?A SharedFifo_init (?at ?q ((\<lambda>_. Idle)(0 := Parked Pop)) [(Push x, Done), (Back, Value x)])"
    by simp
  then show ?thesis
    by (intro exI [where x = "?at ?q ((\<lambda>_. Idle)(0 := Parked Pop)) [(Push x, Done), (Back, Value x)]"]) (simp add: asleep_def)
qed

text \<open>
  Property C17. Wake-ups that are lost. \<open>release\<close> takes no lock, so it can set its flag and notify between the test of a
  consumer and its wait: the consumer then sleeps on a released queue. A thread that waits in \<open>back\<close> can take the wake-up
  of a new element and leave the element, and its consumer sleeps beside it.
\<close>

theorem lost_wakeups:
  "(\<exists>s. reachable SharedFifo_class (\<lambda>_. True) SharedFifo_init s \<and> asleep ((\<lambda>_. Idle)(0 := Parked Pop)) s
      \<and> m_bReleased (mon_queue s)) \<and>
   (\<exists>s. reachable SharedFifo_class (\<lambda>_. True) SharedFifo_init s \<and> asleep ((\<lambda>_. Idle)(0 := Parked Pop)) s
      \<and> m_data (mon_queue s) = [x] \<and> mon_log s = [(Push x, Done), (Back, Value x)])"
proof
  show "\<exists>s. reachable SharedFifo_class (\<lambda>_. True) SharedFifo_init s \<and> asleep ((\<lambda>_. Idle)(0 := Parked Pop)) s
      \<and> m_bReleased (mon_queue s)"
    using release_forgets [of SharedFifo_init SharedFifo_class] reachable_locked
    by (fastforce simp: nothing_to_pop_def SharedFifo_init_def)
qed (use back_takes_wakeup [of x] reachable_locked in blast)

text \<open>A thread fills a buffer whose consumers do not hear of it: there are none, or the start offset is the maximum.\<close>

lemma fill_buffer:
  fixes s :: "('a, 'z SharedBuffer_ext) Monitor"
  assumes "reachable SharedBuffer_class locked q0 s" and "mon_owner s = None" and "mon_threads s 1 = Idle"
    and "buffer_wf m (mon_queue s)" and "\<not> m_bReleased (mon_queue s)"
    and "(\<forall>u. \<not> parked_on QueueNotEmpty (mon_threads s u)) \<or>
      (length (m_data (mon_queue s)) < m \<longrightarrow> \<not> m_started (mon_queue s)) \<and> m_bufferedStartOffset (mon_queue s) = m"
  shows "\<exists>s'. reachable SharedBuffer_class locked q0 s' \<and> mon_owner s' = None \<and> mon_threads s' = mon_threads s
    \<and> buffer_wf m (mon_queue s') \<and> \<not> m_bReleased (mon_queue s') \<and> length (m_data (mon_queue s')) = m"
  using assms
proof (induction "m - length (m_data (mon_queue s))" arbitrary: s)
  case 0
  then show ?case
    by (intro exI [where x = s]) (simp add: buffer_wf_def counted_def)
next
  case (Suc d)
  fix x :: 'a
  let ?q = "mon_queue s"
  from Suc have room: "m_nbNotified ?q < m" "m_maxSize ?q = m" "m_nbNotified ?q = length (m_data ?q)"
    by (auto simp: buffer_wf_def counted_def)
  define q' where "q' = (let q = ?q\<lparr>m_data := x # m_data ?q, m_nbNotified := m_nbNotified ?q + 1\<rparr> in
    if m_started ?q \<or> m_nbNotified q < m_bufferedStartOffset q then q else q\<lparr>m_started := True\<rparr>)"
  have "finish SharedBuffer_class (Push x) False ?q = (Done, m_started ?q, False, q')"
    using Suc.prems(5) room
    by (auto simp: finish_push_def SharedBuffer_class_def SharedBuffer_push_def q'_def Let_def not_le)
  moreover have "\<not> must_wait SharedBuffer_class (Push x) False ?q"
    using room by (simp add: SharedBuffer_class_def SharedBuffer_push_waits_def)
  moreover have "(mon_threads s)(1 := Idle) = mon_threads s"
    using Suc.prems(3) by (simp add: fun_upd_idem)
  moreover have "notify_one QueueNotEmpty (m_started ?q) (mon_threads s) (mon_threads s)"
    using Suc.prems(6) room by (cases "m_started ?q") (auto intro: notify_one.intros)
  ultimately have step: "reachable SharedBuffer_class locked q0
      \<lparr>mon_queue = q', mon_owner = None, mon_threads = mon_threads s, mon_log = mon_log s @ [(Push x, Done)]\<rparr>"
    using call_ends [OF Suc.prems(1,2), of 1 "Push x" False Done "m_started ?q" False q'] Suc.prems(3)
    by (simp add: notify_one.silent)
  have fields: "m_data q' = x # m_data ?q" "m_nbNotified q' = m_nbNotified ?q + 1" "m_maxSize q' = m"
      "m_bReleased q' = m_bReleased ?q" "m_bufferedStartOffset q' = m_bufferedStartOffset ?q"
      "m_started q' \<longleftrightarrow> m_started ?q \<or> m_bufferedStartOffset ?q \<le> m_nbNotified ?q + 1"
    using room by (auto simp: q'_def Let_def)
  from Suc.hyps(1) [OF _ step] Suc.hyps(2) Suc.prems room show ?case
    by (auto simp: fields buffer_wf_def counted_def)
qed

lemma full_buffer_parks:
  fixes s :: "('a, 'z SharedBuffer_ext) Monitor"
  assumes "reachable SharedBuffer_class locked q0 s" and "mon_owner s = None" and "mon_threads s 1 = Idle"
    and "buffer_wf m (mon_queue s)" and "\<not> m_bReleased (mon_queue s)" and "length (m_data (mon_queue s)) = m"
  shows "reachable SharedBuffer_class locked q0 (at_thread 1 (Parked (Push x)) s)"
  using assms
  by (intro call_parks) (auto simp: SharedBuffer_class_def SharedBuffer_push_waits_def buffer_wf_def counted_def)

lemma offset_deadlock:
  assumes "0 < m" and "m \<le> startAt"
  shows "\<exists>s. reachable SharedBuffer_class locked (SharedBuffer_init m startAt) s
    \<and> asleep ((\<lambda>_. Idle)(0 := Parked Pop, 1 := Parked (Push x))) s \<and> length (m_data (mon_queue s)) = m"
proof -
  let ?reach = "\<lambda>k. reachable SharedBuffer_class locked (SharedBuffer_init m k :: 'a SharedBuffer)"
  note init = Monitor_init_def SharedBuffer_init_def buffer_wf_def counted_def
  let ?s = "at_thread 0 (Parked Pop) (Monitor_init (SharedBuffer_init m startAt)) :: ('a, unit SharedBuffer_ext) Monitor"
  have offset: "(if m < startAt then m else startAt) = m"
    using assms(2) by simp
  have "?reach startAt ?s"
    by (rule call_parks [OF initially]) (simp_all add: init nothing_to_pop_def)
  then have "\<exists>s. ?reach startAt s \<and> mon_owner s = None \<and> mon_threads s = mon_threads ?s
      \<and> buffer_wf m (mon_queue s) \<and> \<not> m_bReleased (mon_queue s) \<and> length (m_data (mon_queue s)) = m"
    using assms by - (rule fill_buffer, simp_all add: at_thread_def init offset)
  then obtain s where s: "?reach startAt s" "mon_owner s = None"
      "mon_threads s = (\<lambda>_. Idle)(0 := Parked Pop)" "buffer_wf m (mon_queue s)" "\<not> m_bReleased (mon_queue s)"
      "length (m_data (mon_queue s)) = m"
    by (auto simp: at_thread_def Monitor_init_def)
  with full_buffer_parks [OF s(1,2), of m x]
  show ?thesis
    by (intro exI [where x = "at_thread 1 (Parked (Push x)) s"]) (simp add: asleep_def at_thread_def)
qed

lemma producer_forgotten:
  fixes x :: 'a
  shows "\<exists>s. reachable SharedBuffer_class locked (SharedBuffer_init m k) s
    \<and> asleep ((\<lambda>_. Idle)(1 := Parked (Push x))) s \<and> m_bReleased (mon_queue s)"
proof -
  have nc: "\<not> locked (Clear :: 'a fifo_call)" by simp
  let ?reach = "reachable SharedBuffer_class locked (SharedBuffer_init m k :: 'a SharedBuffer)"
  note init = Monitor_init_def SharedBuffer_init_def buffer_wf_def counted_def
  have "\<exists>s. ?reach s \<and> mon_owner s = None \<and> mon_threads s = mon_threads (Monitor_init (SharedBuffer_init m k :: 'a SharedBuffer))
      \<and> buffer_wf m (mon_queue s) \<and> \<not> m_bReleased (mon_queue s) \<and> length (m_data (mon_queue s)) = m"
    by (rule fill_buffer [OF initially]) (simp_all add: init)
  then obtain s where s: "?reach s" "mon_owner s = None"
      "mon_threads s = (\<lambda>_. Idle)" "buffer_wf m (mon_queue s)" "\<not> m_bReleased (mon_queue s)"
      "length (m_data (mon_queue s)) = m"
    by (auto simp: Monitor_init_def)
  let ?s = "at_thread 1 (Parked (Push x)) s"
  from s full_buffer_parks [OF s(1,2), of m x] have "?reach ?s"
    by simp
  from stepping_locked [OF this nc thread_step.release_flag [of _ 2]] s(3)
  have "?reach (at_thread 2 Releasing (?s\<lparr>mon_queue := (mon_queue s)\<lparr>m_bReleased := True\<rparr>\<rparr>))"
    by (simp add: at_thread_def)
  from stepping_locked [OF this nc thread_step.release_notify [of _ 2]]
  have "?reach (?s\<lparr>mon_queue := (mon_queue s)\<lparr>m_bReleased := True\<rparr>,
      mon_threads := (notify_all QueueNotEmpty ((\<lambda>_. Idle)(1 := Parked (Push x), 2 := Releasing)))(2 := Idle)\<rparr>)"
    using s(3) by (simp add: at_thread_def)
  moreover have "(notify_all QueueNotEmpty ((\<lambda>_. Idle)(1 := Parked (Push x), 2 := Releasing)))(2 := Idle)
      = (\<lambda>_. Idle)(1 := Parked (Push x))"
    by (auto simp: notify_all_def fun_eq_iff)
  ultimately have "?reach (?s\<lparr>mon_queue := (mon_queue s)\<lparr>m_bReleased := True\<rparr>, mon_threads := (\<lambda>_. Idle)(1 := Parked (Push x))\<rparr>)"
    by simp
  then show ?thesis
    using s(2) by (auto simp: asleep_def at_thread_def)
qed

text \<open>
  Property C18. Two more ways to sleep for ever, of a \<open>SharedBuffer\<close> of any size. With a start offset of at least the maximum no
  \<open>push\<close> notifies before the buffer is full, and the next one waits: a consumer that came first and the producer wait for
  each other at a full buffer. And \<open>release\<close> does not wake a producer that waits for room.
\<close>

theorem buffer_deadlocks:
  assumes "0 < m" and "m \<le> startAt"
  shows "(\<exists>s. reachable SharedBuffer_class (\<lambda>_. True) (SharedBuffer_init m startAt) s
      \<and> asleep ((\<lambda>_. Idle)(0 := Parked Pop, 1 := Parked (Push x))) s \<and> length (m_data (mon_queue s)) = m) \<and>
    (\<exists>s. reachable SharedBuffer_class (\<lambda>_. True) (SharedBuffer_init m k) s
      \<and> asleep ((\<lambda>_. Idle)(1 := Parked (Push x))) s \<and> m_bReleased (mon_queue s))"
  using offset_deadlock [OF assms, of x] producer_forgotten [of m k x] reachable_locked by blast

section \<open>Witnesses\<close>

lemma one_push:
  assumes "A (Push x)" and "\<not> fc_push_waits C q" and "finish C (Push x) False q = (Done, b, False, q')"
  shows "reachable C A q \<lparr>mon_queue = q', mon_owner = None, mon_threads = (\<lambda>_. Idle), mon_log = [(Push x, Done)]\<rparr>"
proof -
  let ?A = "\<lambda>call. A call \<and> call \<noteq> Clear"
  have "notify_one QueueNotEmpty b (\<lambda>_. Idle) (\<lambda>_. Idle)"
    by (cases b) (auto intro: notify_one.intros)
  with call_ends [OF initially, of q 0 "Push x" False ?A C Done b False q' "\<lambda>_. Idle" "\<lambda>_. Idle"] assms
  have "reachable C ?A q \<lparr>mon_queue = q', mon_owner = None, mon_threads = (\<lambda>_. Idle), mon_log = [(Push x, Done)]\<rparr>"
    by (simp add: Monitor_init_def fun_upd_idem notify_one.silent)
  then show ?thesis
    by (rule reachable_mono) simp
qed

lemma one_clear:
  assumes "reachable C A q0 s" and "mon_threads s = (\<lambda>_. Idle)" and "mon_owner s = None" and "A Clear"
  shows "reachable C A q0 (s\<lparr>mon_queue := SharedFifo_clear (mon_queue s), mon_log := mon_log s @ [(Clear, Done)]\<rparr>)"
proof -
  let ?s = "at_thread 0 Clearing s"
  have "reachable C A q0 ?s"
    using assms by (intro stepping [OF assms(1)] no_data_race thread_step.clear_starts) simp_all
  moreover have "\<not> data_race ?s"
    using assms(2,3) by (simp add: data_race_def at_thread_def)
  moreover have "thread_step C A ?s (at_thread 0 Idle (?s\<lparr>mon_queue := SharedFifo_clear (mon_queue ?s),
      mon_log := mon_log ?s @ [(Clear, Done)]\<rparr>))"
    by (rule thread_step.clear_ends) (simp_all add: at_thread_def)
  ultimately have "reachable C A q0 (at_thread 0 Idle (?s\<lparr>mon_queue := SharedFifo_clear (mon_queue ?s),
      mon_log := mon_log ?s @ [(Clear, Done)]\<rparr>))"
    by (rule stepping)
  then show ?thesis
    using assms(2) by (cases s) (simp add: at_thread_def fun_upd_idem)
qed

lemmas push_eval = finish_push_def SharedFifo_class_def SharedFifo_push_def SharedFifo_init_def SharedLifo_class_def
  DropBuffer_class_def DropBuffer_push_def SharedBuffer_class_def SharedBuffer_push_def SharedBuffer_init_def
  SharedBuffer_push_waits_def SharedCircularBuffer_class_def SharedCircularBuffer_push_def SharedCircularBuffer_init_def
  increaseCursor_def

theorem fifo_order_witness:
  "\<exists>s t. reachable SharedFifo_class (\<lambda>_. True) SharedFifo_init s \<and> mon_log s = [(Push (5 :: int), Done), (Clear, Done)] \<and>
     reachable SharedBuffer_class (\<lambda>_. True) (SharedBuffer_init 2 0) t \<and> mon_log t = [(Push (7 :: int), Done)] \<and>
     m_data (mon_queue s) = [] \<and> m_data (mon_queue t) = [7]"
proof -
  have "\<exists>q. reachable SharedFifo_class (\<lambda>_. True) SharedFifo_init
      \<lparr>mon_queue = q, mon_owner = None, mon_threads = (\<lambda>_. Idle), mon_log = [(Push (5 :: int), Done)]\<rparr>"
    by (rule exI, rule one_push) (simp_all add: push_eval)
  then obtain q where "reachable SharedFifo_class (\<lambda>_. True) SharedFifo_init
      \<lparr>mon_queue = q, mon_owner = None, mon_threads = (\<lambda>_. Idle), mon_log = [(Push (5 :: int), Done)]\<rparr>"
    by blast
  from one_clear [OF this] obtain s where s: "reachable SharedFifo_class (\<lambda>_. True) SharedFifo_init s"
      and log: "mon_log s = [(Push (5 :: int), Done), (Clear, Done)]"
    by fastforce
  have "\<exists>q. reachable SharedBuffer_class (\<lambda>_. True) (SharedBuffer_init 2 0)
      \<lparr>mon_queue = q, mon_owner = None, mon_threads = (\<lambda>_. Idle), mon_log = [(Push (7 :: int), Done)]\<rparr>"
    by (rule exI, rule one_push) (simp_all add: push_eval)
  then obtain t where t: "reachable SharedBuffer_class (\<lambda>_. True) (SharedBuffer_init 2 0) t"
      and log': "mon_log t = [(Push (7 :: int), Done)]"
    by force
  from fifo_order [OF s t] have "m_data (mon_queue s) = []" and "m_data (mon_queue t) = [7]"
    by (simp_all add: log log' since_clear_def)
  with s t log log' show ?thesis by blast
qed

theorem queues_refine_lists_witness:
  "\<exists>q. reachable SharedCircularBuffer_class (\<lambda>call. call \<noteq> Clear) (SharedCircularBuffer_init 0 3)
      \<lparr>mon_queue = q, mon_owner = None, mon_threads = (\<lambda>_. Idle), mon_log = [(Push (5 :: int), Done)]\<rparr> \<and> ring_elems q = [5]"
proof -
  obtain q where q: "reachable SharedCircularBuffer_class locked (SharedCircularBuffer_init 0 3)
      \<lparr>mon_queue = q, mon_owner = None, mon_threads = (\<lambda>_. Idle), mon_log = [(Push (5 :: int), Done)]\<rparr>"
    using one_push [of locked 5 SharedCircularBuffer_class "SharedCircularBuffer_init 0 3"] by (simp add: push_eval Let_def) blast
  from queues_refine_lists [OF initially initially this _ _ initially initially [where q = "SharedBuffer_init 0 0"]] have "ring_elems q = [5]"
    by (auto simp: keep_last_def)
  with q show ?thesis by blast
qed

theorem no_sleeping_consumer_witness:
  "\<exists>s. reachable SharedFifo_class (\<lambda>call :: int fifo_call. \<not> reads_only call \<and> call \<noteq> Clear) SharedFifo_init s \<and> somebody_parked (mon_threads s)
     \<and> m_nbNotified (mon_queue s) = 1 \<and> awake_count (mon_threads s) \<ge> 1"
proof -
  let ?A = "\<lambda>call :: int fifo_call. \<not> reads_only call \<and> call \<noteq> Clear" and ?C = "SharedFifo_class :: (int, unit) FifoClass"
  let ?at = "\<lambda>q ths log. \<lparr>mon_queue = q, mon_owner = None, mon_threads = ths, mon_log = log\<rparr> :: (int, unit) Monitor"
  let ?q = "\<lparr>m_nbNotified = 1, m_data = [5], m_bReleased = False\<rparr>"
  let ?ths = "(\<lambda>_ :: nat. Idle :: int thread)(0 := Parked Pop, 1 := Parked Pop)"
  note defs = Monitor_init_def at_thread_def nothing_to_pop_def SharedFifo_init_def SharedFifo_class_def SharedFifo_push_def
    finish_push_def
  have "reachable ?C ?A SharedFifo_init (?at SharedFifo_init ((\<lambda>_. Idle)(0 := Parked Pop)) [])"
    using call_parks [OF initially, of SharedFifo_init 0 ?A Pop ?C] by (simp add: defs)
  from call_parks [OF this, of 1 Pop] have "reachable ?C ?A SharedFifo_init (?at SharedFifo_init ?ths [])"
    by (simp add: defs)
  moreover have "notify_one QueueNotEmpty True ?ths (?ths(1 := Locking Pop False))"
    using notify_one.somebody [of QueueNotEmpty ?ths 1] by simp
  ultimately have r: "reachable ?C ?A SharedFifo_init (?at ?q (?ths(1 := Locking Pop False)) [(Push 5, Done)])"
    using call_ends [of ?C ?A SharedFifo_init _ 2 "Push 5" False Done True False ?q]
    by (fastforce simp: defs fun_upd_idem intro: notify_one.silent)
  have "no_sleeper (?at ?q (?ths(1 := Locking Pop False)) [(Push 5, Done)])"
    using no_sleeping_consumer [OF _ _ r initially initially initially initially, where n = 0 and fill = 0 and D = ?A] by simp
  then have "awake_count (?ths(1 := Locking Pop False)) \<ge> 1"
    by (auto simp: no_sleeper_def)
  with r show ?thesis
    by (intro exI [where x = "?at ?q (?ths(1 := Locking Pop False)) [(Push 5, Done)]"]) auto
qed

theorem buffer_deadlocks_witness:
  "\<exists>s. reachable SharedBuffer_class (\<lambda>_. True) (SharedBuffer_init 10 10) s
     \<and> asleep ((\<lambda>_. Idle)(0 := Parked Pop, 1 := Parked (Push (1 :: int)))) s \<and> length (m_data (mon_queue s)) = 10"
  using buffer_deadlocks [where m = 10 and startAt = 10 and x = "1 :: int" and k = 0] by simp

section \<open>Methods that were not overridden\<close>

text \<open>
  The methods a class inherits from \<open>SharedFifo\<close> do not always fit it. A \<open>SharedCircularBuffer\<close> that is cleared has no
  slots left and its next \<open>push\<close> writes past the end of the deque; it is never empty and always as long as its capacity. A
  \<open>back\<close> on a \<open>SharedLifo\<close> gives the oldest element, not the one the next \<open>pop\<close> takes.
\<close>

theorem inherited_methods:
  assumes "ring_wf n q"
  shows "SharedCircularBuffer_push x (SharedFifo_clear q) = Inl Undefined_behaviour \<and>
    \<not> SharedFifo_empty q \<and> SharedFifo_size q = n \<and>
    (let stack = \<lparr>m_nbNotified = 2, m_data = [y, x], m_bReleased = False\<rparr> in
       snd (projr (SharedFifo_push y (snd (projr (SharedFifo_push x SharedFifo_init))))) = stack \<and>
       SharedFifo_back stack = Value x \<and> (\<exists>b q'. SharedLifo_doPop stack = Inr (y, b, q')))"
  using assms
  by (auto simp: ring_wf_def SharedCircularBuffer_push_def SharedFifo_clear_def SharedFifo_empty_def SharedFifo_size_def
      SharedFifo_push_def SharedFifo_init_def SharedFifo_back_def SharedLifo_doPop_def)

theorem inherited_methods_witness:
  "SharedCircularBuffer_push (1 :: int) (SharedFifo_clear (SharedCircularBuffer_init 0 4)) = Inl Undefined_behaviour"
  using inherited_methods [of 4 "SharedCircularBuffer_init 0 4" "1 :: int" 2]
  by (simp add: ring_wf_def SharedCircularBuffer_init_def)

end
