(* ===== verification/Xpcf_MultiConsumer.thy ===== *)
theory Xpcf_MultiConsumer
  imports Xpcf_Queues
begin

text \<open>
  \<^verbatim>\<open>interfaces/xpcf/threading/MultiConsumer.h\<close>: several consumers read one queue, each through a buffer of its own. A step relation
  for the consumers, each a thread with an identifier, and the producer that fills the queue.
\<close>

section \<open>State\<close>

text \<open>
  Where a consumer is in \<open>pop\<close>: at its start, waiting in \<open>init\<close> for the first element, reading its buffer, about to count
  the element it read, waiting in \<open>init\<close> for the next element. In the two waiting states it holds the mutex.
\<close>

datatype 'a consumer = Outside | Entered | FirstInit | Reading | Counting 'a | Refilling 'a

text \<open>
  The source is the list of its elements and whether it was released. \<open>mc_produced\<close>, \<open>mc_delivered\<close>, \<open>mc_read\<close> and \<open>mc_returned\<close>
  record what was pushed to it, what \<open>init\<close> took from it, what each consumer took from its buffer and what its calls returned.
\<close>

record 'a MultiConsumer =
  mc_nbConsumers :: nat
  mc_currentSubscriberID :: nat
  mc_source :: "'a list"
  mc_source_released :: bool
  mc_consumersBuffers :: "'a SharedFifo list"
  mc_nbConsumed :: nat
  mc_bFirstInit :: bool
  mc_owner :: "nat option"
  mc_at :: "nat \<Rightarrow> 'a consumer"
  mc_produced :: "'a list"
  mc_delivered :: "'a list"
  mc_read :: "nat \<Rightarrow> 'a list"
  mc_returned :: "nat \<Rightarrow> 'a list"

definition newMultiConsumer :: "nat \<Rightarrow> 'a MultiConsumer" where
  "newMultiConsumer nbConsumers = \<lparr>mc_nbConsumers = nbConsumers, mc_currentSubscriberID = 0, mc_source = [],
     mc_source_released = False, mc_consumersBuffers = replicate nbConsumers SharedFifo_init, mc_nbConsumed = 0,
     mc_bFirstInit = True, mc_owner = None, mc_at = (\<lambda>_. Outside), mc_produced = [], mc_delivered = [], mc_read = (\<lambda>_. []),
     mc_returned = (\<lambda>_. [])\<rparr>"

definition MultiConsumer_subscribe :: "('a MultiConsumer, exn, nat) eff" where
  "MultiConsumer_subscribe =
     bind_eff (gets_eff (\<lambda>s. (mc_currentSubscriberID s, mc_nbConsumers s))) (\<lambda>(i, n).
       if i < n then seq_eff (modify_eff (\<lambda>s. s\<lparr>mc_currentSubscriberID := i + 1\<rparr>)) (return_eff i)
       else throw_eff (exception_of_char_text Exception ''all consumers already subscribed !!!''))"

definition MultiConsumer_release :: "'a MultiConsumer \<Rightarrow> 'a MultiConsumer" where
  "MultiConsumer_release s = s\<lparr>mc_consumersBuffers := map (\<lambda>b. b\<lparr>m_bReleased := True\<rparr>) (mc_consumersBuffers s)\<rparr>"

section \<open>Steps\<close>

text \<open>
  \<open>init\<close>: the counter is reset, then the source is popped, then every buffer gets the element. The \<open>pop\<close> of a released and
  empty source leaves the variable as its default constructor made it, \<open>fill\<close>, and its answer is ignored. Pushing to the
  buffers is one step: a consumer that reads early waits for the mutex anyway.
\<close>

definition begin_init :: "'a MultiConsumer \<Rightarrow> 'a MultiConsumer" where
  "begin_init s = s\<lparr>mc_nbConsumed := 0\<rparr>"

fun pop_source :: "'a \<Rightarrow> 'a MultiConsumer \<Rightarrow> ('a \<times> 'a MultiConsumer) option" where
  "pop_source fill s = (case mc_source s of
     v # rest \<Rightarrow> Some (v, s\<lparr>mc_source := rest\<rparr>)
   | [] \<Rightarrow> if mc_source_released s then Some (fill, s) else None)"

definition end_init :: "'a \<Rightarrow> 'a MultiConsumer \<Rightarrow> 'a MultiConsumer" where
  "end_init value s = s\<lparr>mc_consumersBuffers := map (\<lambda>b. snd (projr (SharedFifo_push value b))) (mc_consumersBuffers s),
     mc_delivered := mc_delivered s @ [value]\<rparr>"

definition consumer_at :: "nat \<Rightarrow> 'a consumer \<Rightarrow> 'a MultiConsumer \<Rightarrow> 'a MultiConsumer" where
  "consumer_at c p s = s\<lparr>mc_at := (mc_at s)(c := p)\<rparr>"

definition return_value :: "nat \<Rightarrow> 'a \<Rightarrow> 'a MultiConsumer \<Rightarrow> 'a MultiConsumer" where
  "return_value c v s = consumer_at c Outside (s\<lparr>mc_returned := (mc_returned s)(c := mc_returned s c @ [v])\<rparr>)"

text \<open>A consumer with an invalid identifier throws before it touches anything.\<close>

definition MultiConsumer_check :: "'a MultiConsumer \<Rightarrow> nat \<Rightarrow> exn + unit" where
  "MultiConsumer_check s consumerID =
     (if consumerID \<ge> mc_nbConsumers s then Inl (exception_of_char_text Exception ''Invalid consumer ID'') else Inr ())"

inductive consumer_step :: "'a \<Rightarrow> 'a MultiConsumer \<Rightarrow> 'a MultiConsumer \<Rightarrow> bool" for fill where
  produce: "consumer_step fill s (s\<lparr>mc_source := mc_source s @ [x], mc_produced := mc_produced s @ [x]\<rparr>)"
| release_source: "consumer_step fill s (s\<lparr>mc_source_released := True\<rparr>)"
| release: "consumer_step fill s (MultiConsumer_release s)"
| enter: "mc_at s c = Outside \<Longrightarrow> MultiConsumer_check s c = Inr () \<Longrightarrow> consumer_step fill s (consumer_at c Entered s)"
| not_first: "mc_at s c = Entered \<Longrightarrow> mc_owner s = None \<Longrightarrow> \<not> mc_bFirstInit s \<Longrightarrow>
    consumer_step fill s (consumer_at c Reading s)"
| first: "mc_at s c = Entered \<Longrightarrow> mc_owner s = None \<Longrightarrow> mc_bFirstInit s \<Longrightarrow>
    consumer_step fill s (consumer_at c FirstInit (begin_init s\<lparr>mc_owner := Some c\<rparr>))"
| first_done: "mc_at s c = FirstInit \<Longrightarrow> pop_source fill s = Some (v, s') \<Longrightarrow>
    consumer_step fill s (consumer_at c Reading (end_init v s'\<lparr>mc_bFirstInit := False, mc_owner := None\<rparr>))"
| read: "mc_at s c = Reading \<Longrightarrow> m_nbNotified (mc_consumersBuffers s ! c) \<noteq> 0 \<Longrightarrow>
    SharedFifo_doPop (mc_consumersBuffers s ! c) = Inr (v, b, q) \<Longrightarrow>
    consumer_step fill s (consumer_at c (Counting v) (s\<lparr>mc_consumersBuffers := (mc_consumersBuffers s)[c := q],
      mc_read := (mc_read s)(c := mc_read s c @ [v])\<rparr>))"
| aborted: "mc_at s c = Reading \<Longrightarrow> m_nbNotified (mc_consumersBuffers s ! c) = 0 \<Longrightarrow> m_bReleased (mc_consumersBuffers s ! c) \<Longrightarrow>
    consumer_step fill s (consumer_at c Outside s)"
| count: "mc_at s c = Counting v \<Longrightarrow> mc_owner s = None \<Longrightarrow> mc_nbConsumed s + 1 \<noteq> mc_nbConsumers s \<Longrightarrow>
    consumer_step fill s (return_value c v (s\<lparr>mc_nbConsumed := mc_nbConsumed s + 1\<rparr>))"
| last: "mc_at s c = Counting v \<Longrightarrow> mc_owner s = None \<Longrightarrow> mc_nbConsumed s + 1 = mc_nbConsumers s \<Longrightarrow>
    consumer_step fill s (consumer_at c (Refilling v) (begin_init s\<lparr>mc_owner := Some c\<rparr>))"
| refilled: "mc_at s c = Refilling v \<Longrightarrow> pop_source fill s = Some (w, s') \<Longrightarrow>
    consumer_step fill s (return_value c v (end_init w s'\<lparr>mc_owner := None\<rparr>))"

inductive consumers_reach :: "'a \<Rightarrow> nat \<Rightarrow> 'a MultiConsumer \<Rightarrow> bool" for fill n where
  created: "consumers_reach fill n (newMultiConsumer n)"
| stepped: "consumers_reach fill n s \<Longrightarrow> consumer_step fill s s' \<Longrightarrow> consumers_reach fill n s'"

section \<open>Everybody reads everything, once and in order\<close>

fun pending :: "'a consumer \<Rightarrow> 'a list" where
  "pending (Counting v) = [v]"
| "pending (Refilling v) = [v]"
| "pending _ = []"

fun in_init :: "'a consumer \<Rightarrow> bool" where
  "in_init FirstInit = True"
| "in_init (Refilling v) = True"
| "in_init _ = False"

fun is_counting :: "'a consumer \<Rightarrow> bool" where
  "is_counting (Counting v) = True"
| "is_counting _ = False"

fun before_reading :: "'a consumer \<Rightarrow> bool" where
  "before_reading Outside = True"
| "before_reading Entered = True"
| "before_reading FirstInit = True"
| "before_reading _ = False"

definition unread :: "'a MultiConsumer \<Rightarrow> nat \<Rightarrow> 'a list" where
  "unread s c = m_data (mc_consumersBuffers s ! c)"

text \<open>The consumers that are through with the current element.\<close>

definition through :: "'a MultiConsumer \<Rightarrow> nat set" where
  "through s = {c. c < mc_nbConsumers s \<and> unread s c = [] \<and> \<not> is_counting (mc_at s c)}"

definition streams_ok :: "'a MultiConsumer \<Rightarrow> bool" where
  "streams_ok s \<longleftrightarrow> length (mc_consumersBuffers s) = mc_nbConsumers s \<and>
     (\<forall>c < mc_nbConsumers s. counted (mc_consumersBuffers s ! c) \<and> mc_read s c @ unread s c = mc_delivered s
        \<and> length (unread s c) \<le> 1 \<and> mc_read s c = mc_returned s c @ pending (mc_at s c))"

definition turns_ok :: "'a MultiConsumer \<Rightarrow> bool" where
  "turns_ok s \<longleftrightarrow> (\<forall>c. in_init (mc_at s c) \<longleftrightarrow> mc_owner s = Some c) \<and> (\<forall>c. mc_nbConsumers s \<le> c \<longrightarrow> mc_at s c = Outside) \<and>
     (\<forall>c < mc_nbConsumers s. is_counting (mc_at s c) \<longrightarrow> unread s c = []) \<and>
     (if mc_bFirstInit s then mc_delivered s = [] \<and> mc_nbConsumed s = 0 \<and> (\<forall>c. before_reading (mc_at s c))
      else mc_delivered s \<noteq> [] \<and>
        (if mc_owner s = None then mc_nbConsumed s = card (through s) \<and> card (through s) < mc_nbConsumers s
         else mc_nbConsumed s = 0 \<and> through s = {..< mc_nbConsumers s}))"

lemma through_bound: "through s \<subseteq> {..< mc_nbConsumers s}" "finite (through s)"
  by (auto simp: through_def intro: finite_subset [of _ "{..< mc_nbConsumers s}"])

lemma pop_source_fields:
  assumes "pop_source fill s = Some (v, s')"
  shows "\<exists>rest. s' = s\<lparr>mc_source := rest\<rparr>"
  using assms by (cases s) (auto split: list.splits if_splits)

lemma unread_end_init: "c < length (mc_consumersBuffers s) \<Longrightarrow> unread (end_init v s) c = v # unread s c"
  by (simp add: unread_def end_init_def SharedFifo_push_def)

lemma streams_end_init:
  assumes "streams_ok s" and "\<And>c. c < mc_nbConsumers s \<Longrightarrow> unread s c = []"
  shows "streams_ok (end_init v s)"
  using assms unread_end_init [of _ s v]
  by (auto simp: streams_ok_def end_init_def SharedFifo_push_def counted_def)

lemma no_step_outside: "turns_ok s \<Longrightarrow> mc_at s c \<noteq> Outside \<Longrightarrow> c < mc_nbConsumers s"
  by (auto simp: turns_ok_def not_le [symmetric])

lemma init_all_read:
  assumes "streams_ok s" and "turns_ok s" and "in_init (mc_at s c)" and "d < mc_nbConsumers s"
  shows "unread s d = []"
proof (cases "mc_bFirstInit s")
  case True
  with assms show ?thesis by (auto simp: turns_ok_def streams_ok_def)
next
  case False
  with assms(2,3) have "through s = {..< mc_nbConsumers s}"
    by (auto simp: turns_ok_def split: if_splits)
  with assms(4) show ?thesis by (auto simp: through_def)
qed

lemma streams_step:
  assumes "consumer_step fill s s'" and "streams_ok s" and "turns_ok s"
  shows "streams_ok s'"
  using assms
proof (induction rule: consumer_step.induct)
  case (release s)
  then show ?case
    by (auto simp: streams_ok_def MultiConsumer_release_def unread_def counted_def)
next
  case (read s c v b q)
  then have c: "c < mc_nbConsumers s"
    using no_step_outside [of s c] by simp
  with read obtain x where x: "m_data (mc_consumersBuffers s ! c) = [x]"
    by (cases "m_data (mc_consumersBuffers s ! c)") (auto simp: streams_ok_def unread_def counted_def)
  with read have "v = x" "q = (mc_consumersBuffers s ! c)\<lparr>m_data := [], m_nbNotified := 0\<rparr>"
    by (auto simp: SharedFifo_doPop_def streams_ok_def counted_def c)
  with read x c show ?case
    by (auto simp: streams_ok_def consumer_at_def unread_def counted_def nth_list_update)
next
  case (first_done s c v s')
  from pop_source_fields [OF first_done(2)] obtain rest where s': "s' = s\<lparr>mc_source := rest\<rparr>"
    by (elim exE)
  have "streams_ok (end_init v s)"
    using first_done init_all_read [of s c] by (intro streams_end_init) simp_all
  then show ?case
    using first_done(1) by (auto simp: s' streams_ok_def consumer_at_def unread_def end_init_def)
next
  case (refilled s c v w s')
  from pop_source_fields [OF refilled(2)] obtain rest where s': "s' = s\<lparr>mc_source := rest\<rparr>"
    by (elim exE)
  have "streams_ok (end_init w s)"
    using refilled init_all_read [of s c] by (intro streams_end_init) simp_all
  then show ?case
    using refilled(1) by (auto simp: s' streams_ok_def return_value_def consumer_at_def unread_def end_init_def)
qed (auto simp: streams_ok_def consumer_at_def begin_init_def return_value_def unread_def)

lemma turns_owner: "turns_ok s \<Longrightarrow> in_init (mc_at s c) \<longleftrightarrow> mc_owner s = Some c"
  by (simp add: turns_ok_def)

lemma in_initD: "turns_ok s \<Longrightarrow> in_init (mc_at s c) \<Longrightarrow> c < mc_nbConsumers s \<and> mc_owner s = Some c"
  using no_step_outside [of s c] turns_owner [of s c] by (cases "mc_at s c") auto

lemma nobody_counts:
  assumes "turns_ok s" and "mc_owner s = Some c"
  shows "\<not> is_counting (mc_at s d)"
proof (cases "d < mc_nbConsumers s")
  case True
  show ?thesis
  proof (cases "mc_bFirstInit s")
    case True
    with assms have "before_reading (mc_at s d)"
      by (simp add: turns_ok_def)
    then show ?thesis by (cases "mc_at s d") auto
  next
    case False
    with assms \<open>d < mc_nbConsumers s\<close> have "d \<in> through s"
      by (simp add: turns_ok_def)
    then show ?thesis by (simp add: through_def)
  qed
qed (use assms in \<open>simp add: turns_ok_def\<close>)

text \<open>Steps that leave the buffers alone, and who counts.\<close>

lemma turns_frame:
  assumes "turns_ok s" and "\<not> in_init (mc_at s c)" and "\<not> is_counting (mc_at s c)" and "c < mc_nbConsumers s"
    and "\<not> in_init p" and "\<not> is_counting p" and "mc_bFirstInit s \<longrightarrow> before_reading p"
  shows "turns_ok (consumer_at c p s)"
proof -
  have "through (consumer_at c p s) = through s" and "unread (consumer_at c p s) = unread s"
    using assms(3,6) by (auto simp: through_def unread_def consumer_at_def fun_eq_iff)
  then show ?thesis
    using assms by (auto simp: turns_ok_def consumer_at_def split: if_splits)
qed

lemma through_count:
  assumes "turns_ok s" and "mc_at s c = Counting v"
  shows "unread s c = []" and "c \<notin> through s" and "c < mc_nbConsumers s" and "\<not> mc_bFirstInit s"
proof -
  show "c < mc_nbConsumers s"
    using assms no_step_outside [of s c] by simp
  with assms show "unread s c = []" "\<not> mc_bFirstInit s"
    by (auto simp: turns_ok_def dest!: spec [of _ c] split: if_splits)
qed (use assms(2) in \<open>simp add: through_def\<close>)

lemma source_frame [simp]:
  "through (s\<lparr>mc_source := xs\<rparr>) = through s" "unread (s\<lparr>mc_source := xs\<rparr>) = unread s"
  "through (s\<lparr>mc_produced := xs\<rparr>) = through s" "unread (s\<lparr>mc_produced := xs\<rparr>) = unread s"
  "through (s\<lparr>mc_source_released := r\<rparr>) = through s" "unread (s\<lparr>mc_source_released := r\<rparr>) = unread s"
  by (simp_all add: through_def unread_def fun_eq_iff)

text \<open>After \<open>init\<close> nobody is through.\<close>

lemma turns_end_init:
  assumes "streams_ok s" and "turns_ok s" and "in_init (mc_at s c)" and "\<not> in_init p" and "\<not> is_counting p"
    and t: "t = consumer_at c p (end_init v (s\<lparr>mc_source := rest\<rparr>)\<lparr>mc_bFirstInit := False, mc_owner := None\<rparr>)"
  shows "turns_ok t"
proof -
  have c: "c < mc_nbConsumers s" and owner: "mc_owner s = Some c"
    using assms(2,3) in_initD by blast+
  have silent: "\<not> is_counting (mc_at s d)" for d
    using assms(2) owner by (rule nobody_counts)
  have "unread t d \<noteq> []" if "d < mc_nbConsumers s" for d
    using that assms(1) unread_end_init [of d s v] by (simp add: t streams_ok_def unread_def consumer_at_def end_init_def)
  then have "through t = {}"
    by (auto simp: through_def t consumer_at_def end_init_def)
  moreover have "mc_nbConsumed s = 0"
    using assms(2) owner by (auto simp: turns_ok_def split: if_splits)
  ultimately show ?thesis
    using assms(2,4,5) c owner silent
    by (auto simp: turns_ok_def t consumer_at_def end_init_def)
qed

lemma turns_step:
  assumes "consumer_step fill s s'" and "streams_ok s" and "turns_ok s"
  shows "turns_ok s'"
  using assms
proof (induction rule: consumer_step.induct)
  case (produce s x)
  then show ?case by (simp add: turns_ok_def)
next
  case (release_source s)
  then show ?case by (simp add: turns_ok_def)
next
  case (release s)
  then have "unread (MultiConsumer_release s) c = unread s c" if "c < mc_nbConsumers s" for c
    using that by (simp add: unread_def MultiConsumer_release_def streams_ok_def)
  moreover from this have "through (MultiConsumer_release s) = through s"
    by (auto simp: through_def MultiConsumer_release_def)
  ultimately show ?case
    using release by (auto simp: turns_ok_def MultiConsumer_release_def)
next
  case (enter s c)
  then show ?case
    by (intro turns_frame) (auto simp: MultiConsumer_check_def split: if_splits)
next
  case (not_first s c)
  then show ?case
    using no_step_outside [of s c] by (intro turns_frame) auto
next
  case (aborted s c)
  then show ?case
    using no_step_outside [of s c] by (intro turns_frame) auto
next
  case (first s c)
  then show ?case
    by (auto simp: turns_ok_def consumer_at_def begin_init_def unread_def)
next
  case (first_done s c v s')
  from pop_source_fields [OF first_done(2)] obtain rest where "s' = s\<lparr>mc_source := rest\<rparr>"
    by (elim exE)
  with first_done show ?case
    by - (rule turns_end_init [of s c Reading _ v rest], simp_all)
next
  case (read s c v b q)
  let ?t = "consumer_at c (Counting v) (s\<lparr>mc_consumersBuffers := (mc_consumersBuffers s)[c := q], mc_read := (mc_read s)(c := mc_read s c @ [v])\<rparr>)"
  from read have c: "c < mc_nbConsumers s" "length (unread s c) = 1" "length (mc_consumersBuffers s) = mc_nbConsumers s"
    using no_step_outside [of s c] by (auto simp: streams_ok_def counted_def unread_def le_Suc_eq)
  then have "unread ?t c = []"
    using read(3) by (auto simp: unread_def consumer_at_def SharedFifo_doPop_def length_Suc_conv split: if_splits)
  moreover have same: "unread ?t d = unread s d" if "d \<noteq> c" for d
    using that by (simp add: unread_def consumer_at_def)
  moreover have "c \<notin> through s"
    using c(2) by (auto simp: through_def)
  then have "through ?t = through s"
    using same by (auto simp: through_def consumer_at_def)
  moreover have "mc_owner s = None" "\<not> mc_bFirstInit s"
    using read(1,5) c \<open>c \<notin> through s\<close> by (auto simp: turns_ok_def dest!: spec [of _ c] split: if_splits)
  ultimately show ?case
    using read(5) c(1) by (auto simp: turns_ok_def) (auto simp: consumer_at_def split: if_splits)
next
  case (count s c v)
  let ?t = "return_value c v (s\<lparr>mc_nbConsumed := mc_nbConsumed s + 1\<rparr>)"
  note c = through_count [OF count(5,1)]
  have through: "through ?t = insert c (through s)"
    using c(1,3) by (auto simp: through_def unread_def return_value_def consumer_at_def)
  moreover have "card (insert c (through s)) = card (through s) + 1"
    using c(2) through_bound [of s] by simp
  moreover have "card (insert c (through s)) \<le> mc_nbConsumers s"
    using card_mono [of "{..< mc_nbConsumers s}" "insert c (through s)"] c(3) through_bound [of s] by auto
  ultimately show ?case
    using count c by (auto simp: turns_ok_def return_value_def consumer_at_def unread_def)
next
  case (last s c v)
  let ?t = "consumer_at c (Refilling v) (begin_init s\<lparr>mc_owner := Some c\<rparr>)"
  note c = through_count [OF last(5,1)]
  have "card (insert c (through s)) = mc_nbConsumers s"
    using c last through_bound [of s] by (simp add: turns_ok_def)
  then have "insert c (through s) = {..< mc_nbConsumers s}"
    using c(3) through_bound(1) [of s] by (intro card_subset_eq) auto
  moreover have "through ?t = insert c (through s)"
    using c(1,3) by (auto simp: through_def unread_def begin_init_def consumer_at_def)
  ultimately show ?case
    using last c by (auto simp: turns_ok_def consumer_at_def begin_init_def unread_def)
next
  case (refilled s c v w s')
  from pop_source_fields [OF refilled(2)] obtain rest where s': "s' = s\<lparr>mc_source := rest\<rparr>"
    by (elim exE)
  have "\<not> mc_bFirstInit s"
    using refilled(1,4) by (auto simp: turns_ok_def dest!: spec [of _ c])
  moreover have "turns_ok (consumer_at c Outside (end_init w s'\<lparr>mc_bFirstInit := False, mc_owner := None\<rparr>))"
    using refilled s' by - (rule turns_end_init [of s c Outside _ w rest], simp_all)
  ultimately show ?case
    using s' by (simp add: return_value_def consumer_at_def turns_ok_def through_def unread_def end_init_def)
qed
lemma produced_step:
  assumes "consumer_step fill s s'" and "\<not> mc_source_released s \<longrightarrow> mc_delivered s @ mc_source s = mc_produced s"
  shows "\<not> mc_source_released s' \<longrightarrow> mc_delivered s' @ mc_source s' = mc_produced s'"
  using assms
  by (induction rule: consumer_step.induct)
    (auto simp: MultiConsumer_release_def consumer_at_def begin_init_def end_init_def return_value_def split: list.splits if_splits)

lemma first_step:
  assumes "consumer_step fill s s'" and "turns_ok s" and "mc_bFirstInit s \<or> (\<forall>c. mc_at s c \<noteq> FirstInit)"
  shows "mc_bFirstInit s' \<or> (\<forall>c. mc_at s' c \<noteq> FirstInit)"
  using assms
proof (induction rule: consumer_step.induct)
  case (first_done s c v s')
  have "mc_at s d \<noteq> FirstInit" if "d \<noteq> c" for d
    using that first_done(1,3) turns_owner [of s d] turns_owner [of s c] by auto
  then show ?case
    using pop_source_fields [OF first_done(2)] by (auto simp: consumer_at_def end_init_def)
next
  case (refilled s c v w s')
  then show ?case
    using pop_source_fields [OF refilled(2)] by (auto simp: return_value_def consumer_at_def end_init_def)
qed (auto simp: MultiConsumer_release_def consumer_at_def begin_init_def return_value_def)

lemma consumers_invariant:
  assumes "consumers_reach fill n s"
  shows "streams_ok s \<and> turns_ok s \<and> mc_nbConsumers s = n \<and> (mc_bFirstInit s \<or> (\<forall>c. mc_at s c \<noteq> FirstInit)) \<and>
    (\<not> mc_source_released s \<longrightarrow> mc_delivered s @ mc_source s = mc_produced s)"
  using assms
proof (induction rule: consumers_reach.induct)
  case created
  show ?case
    by (simp add: newMultiConsumer_def streams_ok_def turns_ok_def unread_def counted_def SharedFifo_init_def)
next
  case (stepped s s')
  have "mc_nbConsumers s' = mc_nbConsumers s"
    using stepped(2) by (induction rule: consumer_step.induct)
      (auto simp: MultiConsumer_release_def consumer_at_def begin_init_def end_init_def return_value_def split: list.splits if_splits)
  then show ?case
    using stepped streams_step turns_step produced_step first_step by metis
qed

lemma turns_first: "turns_ok s \<Longrightarrow> mc_bFirstInit s \<Longrightarrow> mc_delivered s = []"
  by (simp add: turns_ok_def)

text \<open>
  Property C10. Every consumer reads the same sequence: what one read, with the at most one element that waits in its buffer, is
  what was delivered, which is what was produced as long as the source is not released; its calls returned all it
  read but at most the last. But the last element delivered is never returned to all of them before the next one is
  there: the consumer that reads it last waits for the next element before its call returns.
\<close>

theorem consumers_read_everything:
  assumes "consumers_reach fill n s" and "c < n"
  shows "(\<exists>waiting. length waiting \<le> 1 \<and> mc_read s c @ waiting = mc_delivered s) \<and>
    (\<exists>held. length held \<le> 1 \<and> mc_returned s c @ held = mc_read s c) \<and>
    (mc_source_released s \<or> mc_delivered s @ mc_source s = mc_produced s) \<and>
    (mc_delivered s = [] \<or> (\<exists>d < n. length (mc_returned s d) < length (mc_delivered s)))"
proof -
  note inv = consumers_invariant [OF assms(1)]
  have turns: "turns_ok s" and n: "mc_nbConsumers s = n" and first: "mc_bFirstInit s \<or> (\<forall>c. mc_at s c \<noteq> FirstInit)"
    using inv by (blast, blast, blast)
  have all: "counted (mc_consumersBuffers s ! d) \<and> mc_read s d @ unread s d = mc_delivered s \<and> length (unread s d) \<le> 1
      \<and> mc_read s d = mc_returned s d @ pending (mc_at s d)" if "d < n" for d
    using inv that unfolding streams_ok_def by blast
  have "length (pending (mc_at s c)) \<le> 1"
    by (cases "mc_at s c") auto
  then have "\<exists>held. length held \<le> 1 \<and> mc_returned s c @ held = mc_read s c"
    using all [OF assms(2)] by (intro exI [where x = "pending (mc_at s c)"]) simp
  moreover have "\<exists>waiting. length waiting \<le> 1 \<and> mc_read s c @ waiting = mc_delivered s"
    using all [OF assms(2)] by (intro exI [where x = "unread s c"]) blast
  moreover from inv have "\<not> mc_source_released s \<longrightarrow> mc_delivered s @ mc_source s = mc_produced s"
    by (elim conjE)
  then have "mc_source_released s \<or> mc_delivered s @ mc_source s = mc_produced s"
    by blast
  moreover have "mc_delivered s = [] \<or> (\<exists>d < n. length (mc_returned s d) < length (mc_delivered s))"
  proof (cases "mc_delivered s = []")
    case that: False
    have "\<exists>d < n. unread s d \<noteq> [] \<or> pending (mc_at s d) \<noteq> []"
    proof (cases "mc_owner s")
      case None
      with turns that n have "card (through s) < card {..< n}"
        by (auto simp: turns_ok_def split: if_splits)
      then have "\<not> {..< n} \<subseteq> through s"
        using card_mono [OF through_bound(2) [of s], of "{..< n}"] by linarith
      then obtain d where d: "d < n" "d \<notin> through s"
        by blast
      then have "unread s d \<noteq> [] \<or> is_counting (mc_at s d)"
        using n by (simp add: through_def)
      then have "unread s d \<noteq> [] \<or> pending (mc_at s d) \<noteq> []"
        by (cases "mc_at s d") simp_all
      with d show ?thesis by blast
    next
      case (Some d)
      then have at: "in_init (mc_at s d)" and "d < n"
        using turns_owner [OF turns, of d] in_initD [OF turns, of d] n by simp_all
      moreover have "mc_at s d \<noteq> FirstInit"
        using first that turns_first [OF turns] by blast
      then have "pending (mc_at s d) \<noteq> []"
        using at by (cases "mc_at s d") simp_all
      ultimately show ?thesis by blast
    qed
    then obtain d where d: "d < n" and left: "unread s d \<noteq> [] \<or> pending (mc_at s d) \<noteq> []"
      by blast
    from all [OF d] have "mc_delivered s = (mc_returned s d @ pending (mc_at s d)) @ unread s d"
      by metis
    then have "length (mc_delivered s) = length (mc_returned s d) + length (pending (mc_at s d)) + length (unread s d)"
      by simp
    with d left have "\<exists>d < n. length (mc_returned s d) < length (mc_delivered s)"
      by (intro exI [where x = d]) auto
    then show ?thesis by blast
  qed simp
  ultimately show ?thesis
    by (intro conjI)
qed

text \<open>A consumer alone reads the element that was there; its call only returns when the next element is.\<close>

lemma sample_reach:
  "\<exists>s. consumers_reach (0 :: int) 1 s \<and> mc_delivered s = [4] \<and> mc_read s 0 = [4] \<and> mc_at s 0 = Refilling 4"
proof -
  let ?s = "newMultiConsumer 1 :: int MultiConsumer"
  define s1 where "s1 = ?s\<lparr>mc_source := [4], mc_produced := [4]\<rparr>"
  have "consumers_reach (0 :: int) 1 s1"
    using stepped [OF created [of 0 1] produce [of 0 ?s 4]] by (simp add: s1_def newMultiConsumer_def)
  from stepped [OF this enter [of _ 0]] have "consumers_reach 0 1 (consumer_at 0 Entered s1)"
    by (simp add: s1_def newMultiConsumer_def MultiConsumer_check_def)
  from stepped [OF this first [of _ 0]] have "consumers_reach 0 1 (consumer_at 0 FirstInit (begin_init s1\<lparr>mc_owner := Some 0\<rparr>))"
    by (simp add: s1_def newMultiConsumer_def consumer_at_def begin_init_def)
  from stepped [OF this first_done [of _ 0]]
  have "consumers_reach 0 1 (consumer_at 0 Reading (end_init 4 s1\<lparr>mc_source := [], mc_bFirstInit := False\<rparr>))"
    by (simp add: s1_def newMultiConsumer_def consumer_at_def begin_init_def end_init_def)
  from stepped [OF this read [of _ 0 4 False]]
  have "consumers_reach 0 1 (consumer_at 0 (Counting 4) (s1\<lparr>mc_source := [], mc_bFirstInit := False, mc_delivered := [4],
      mc_read := (\<lambda>_. [])(0 := [4])\<rparr>))"
    by (simp add: s1_def newMultiConsumer_def consumer_at_def end_init_def SharedFifo_push_def SharedFifo_doPop_def SharedFifo_init_def)
  from stepped [OF this last [of _ 0]] show ?thesis
    by (intro exI) (auto simp: s1_def newMultiConsumer_def consumer_at_def begin_init_def)
qed

theorem consumers_read_everything_witness:
  "\<exists>s. consumers_reach (0 :: int) 1 s \<and> mc_delivered s = [4] \<and> mc_read s 0 = [4] \<and> mc_returned s 0 = []"
proof -
  obtain s where s: "consumers_reach (0 :: int) 1 s" "mc_delivered s = [4]" "mc_read s 0 = [4]"
    using sample_reach by blast
  with consumers_read_everything [OF s(1), of 0] have "length (mc_returned s 0) < 1"
    by auto
  with s show ?thesis by auto
qed

end
