(* ===== verification/Xpcf_Tasks.thy ===== *)
theory Xpcf_Tasks
  imports Xpcf_Queues
begin

text \<open>
  \<^verbatim>\<open>src/BaseTask.cpp\<close> and \<^verbatim>\<open>interfaces/xpcf/threading/BaseTask.h\<close>: a \<open>DelegateTask\<close>, its worker threads and the thread that
  controls it, as a step relation. The function a task runs is the application's: it returns at some time or throws.
\<close>

section \<open>State\<close>

text \<open>A worker: about to run \<open>signalRunning\<close>, about to test \<open>stopped()\<close>, in the function of the task, at its end.\<close>

datatype worker = Unborn | Signalling | Testing | Processing | Ended

text \<open>Where the controlling thread is: in no call, inside \<open>start\<close>, inside \<open>stop\<close>, or inside \<open>awaitRunning\<close>.\<close>

datatype controller = Outside | StartPromise | StartThread | StopCleanup | StopJoin | AwaitRunning

text \<open>
  \<open>dt_thread\<close> is the worker \<open>m_thread\<close> refers to, none when it is not joinable. Promises are numbered: \<open>dt_promise\<close> is the current
  one, \<open>dt_satisfied\<close> are those set; \<open>dt_future\<close> is the promise whose future \<open>m_startedFuture\<close> is. The finalizers are fifos and
  other objects; the released ones are recorded. \<open>dt_dead\<close>: the program was terminated or did something undefined.
\<close>

record DelegateTask =
  dt_stop :: bool
  dt_joinable :: bool
  dt_predicate :: bool
  dt_finalizers :: "nat list"
  dt_released :: "nat list"
  dt_promise :: nat
  dt_satisfied :: "nat set"
  dt_future :: "nat option"
  dt_thread :: "nat option"
  dt_workers :: "nat \<Rightarrow> worker"
  dt_next :: nat
  dt_at :: controller
  dt_dead :: bool

text \<open>The two constructors; \<open>predicate\<close> tells whether a stop predicate was given.\<close>

definition newDelegateTask :: "bool \<Rightarrow> bool \<Rightarrow> DelegateTask" where
  "newDelegateTask predicate joinable = \<lparr>dt_stop = False, dt_joinable = joinable, dt_predicate = predicate, dt_finalizers = [],
     dt_released = [], dt_promise = 0, dt_satisfied = {}, dt_future = None, dt_thread = None, dt_workers = (\<lambda>_. Unborn), dt_next = 0,
     dt_at = Outside, dt_dead = False\<rparr>"

definition AbstractTask_started :: "DelegateTask \<Rightarrow> bool" where
  "AbstractTask_started s \<longleftrightarrow> \<not> dt_stop s"

definition AbstractTask_declareFinalizer :: "nat \<Rightarrow> DelegateTask \<Rightarrow> DelegateTask" where
  "AbstractTask_declareFinalizer fifo s = s\<lparr>dt_finalizers := dt_finalizers s @ [fifo]\<rparr>"

definition AbstractTask_cleanup :: "DelegateTask \<Rightarrow> DelegateTask" where
  "AbstractTask_cleanup s = s\<lparr>dt_released := dt_released s @ dt_finalizers s\<rparr>"

section \<open>Steps\<close>

text \<open>Setting a promise twice throws out of the worker, which terminates the program.\<close>

definition DelegateTask_signalRunning :: "DelegateTask \<Rightarrow> DelegateTask" where
  "DelegateTask_signalRunning s =
     (if dt_promise s \<in> dt_satisfied s then s\<lparr>dt_dead := True\<rparr> else s\<lparr>dt_satisfied := insert (dt_promise s) (dt_satisfied s)\<rparr>)"

definition worker_at :: "nat \<Rightarrow> worker \<Rightarrow> DelegateTask \<Rightarrow> DelegateTask" where
  "worker_at w x s = s\<lparr>dt_workers := (dt_workers s)(w := x)\<rparr>"

text \<open>
  \<open>process\<close>, run by a worker. A given stop predicate is kept by reference to the argument of the constructor, which is gone when
  it is called.
\<close>

definition stop_test :: "nat \<Rightarrow> DelegateTask \<Rightarrow> DelegateTask" where
  "stop_test w s = (if dt_predicate s then s\<lparr>dt_dead := True\<rparr> else worker_at w (if dt_stop s then Ended else Processing) s)"

inductive worker_step :: "nat \<Rightarrow> DelegateTask \<Rightarrow> DelegateTask \<Rightarrow> bool" for w where
  signal: "dt_workers s w = Signalling \<Longrightarrow> worker_step w s (worker_at w Testing (DelegateTask_signalRunning s))"
| test: "dt_workers s w = Testing \<Longrightarrow> worker_step w s (stop_test w s)"
| returns: "dt_workers s w = Processing \<Longrightarrow> worker_step w s (worker_at w Testing s)"
| throws: "dt_workers s w = Processing \<Longrightarrow> worker_step w s (s\<lparr>dt_dead := True\<rparr>)"

text \<open>\<open>start\<close>: assigning to a thread object that still refers to a thread terminates the program.\<close>

definition start_thread :: "DelegateTask \<Rightarrow> DelegateTask" where
  "start_thread s =
     (if dt_thread s \<noteq> None then s\<lparr>dt_dead := True\<rparr>
      else worker_at (dt_next s) Signalling s\<lparr>dt_next := Suc (dt_next s), dt_at := Outside,
             dt_thread := (if dt_joinable s then Some (dt_next s) else None)\<rparr>)"

text \<open>Waiting on a future that has no promise is undefined.\<close>

inductive controller_step :: "DelegateTask \<Rightarrow> DelegateTask \<Rightarrow> bool" where
  declare_finalizer: "dt_at s = Outside \<Longrightarrow> controller_step s (AbstractTask_declareFinalizer f s)"
| start: "dt_at s = Outside \<Longrightarrow> controller_step s (s\<lparr>dt_stop := False, dt_at := StartPromise\<rparr>)"
| promise: "dt_at s = StartPromise \<Longrightarrow> p \<notin> dt_satisfied s \<Longrightarrow>
    controller_step s (s\<lparr>dt_promise := p, dt_future := Some p, dt_at := StartThread\<rparr>)"
| thread: "dt_at s = StartThread \<Longrightarrow> controller_step s (start_thread s)"
| stop: "dt_at s = Outside \<Longrightarrow> controller_step s (s\<lparr>dt_stop := True, dt_at := StopCleanup\<rparr>)"
| clean: "dt_at s = StopCleanup \<Longrightarrow>
    controller_step s (AbstractTask_cleanup s\<lparr>dt_at := (if dt_joinable s \<and> dt_thread s \<noteq> None then StopJoin else Outside)\<rparr>)"
| join: "dt_at s = StopJoin \<Longrightarrow> dt_thread s = Some w \<Longrightarrow> dt_workers s w = Ended \<Longrightarrow>
    controller_step s (s\<lparr>dt_thread := None, dt_at := Outside\<rparr>)"
| await: "dt_at s = Outside \<Longrightarrow> \<not> dt_stop s \<Longrightarrow>
    controller_step s (if dt_future s = None then s\<lparr>dt_dead := True\<rparr> else s\<lparr>dt_at := AwaitRunning\<rparr>)"
| running: "dt_at s = AwaitRunning \<Longrightarrow> dt_future s = Some p \<Longrightarrow> p \<in> dt_satisfied s \<Longrightarrow> controller_step s (s\<lparr>dt_at := Outside\<rparr>)"

inductive task_reach :: "bool \<Rightarrow> bool \<Rightarrow> DelegateTask \<Rightarrow> bool" for predicate joinable where
  created: "task_reach predicate joinable (newDelegateTask predicate joinable)"
| controlled: "task_reach predicate joinable s \<Longrightarrow> \<not> dt_dead s \<Longrightarrow> controller_step s s' \<Longrightarrow> task_reach predicate joinable s'"
| worked: "task_reach predicate joinable s \<Longrightarrow> \<not> dt_dead s \<Longrightarrow> worker_step w s s' \<Longrightarrow> task_reach predicate joinable s'"

section \<open>Stopping\<close>

text \<open>How many steps a worker has left once the task is stopped.\<close>

fun left_to_do :: "worker \<Rightarrow> nat" where
  "left_to_do Signalling = 2"
| "left_to_do Testing = 1"
| "left_to_do Processing = 2"
| "left_to_do _ = 0"

text \<open>
  The workers of a joinable task: only the one the thread object refers to can be running, and the flag is raised while \<open>stop\<close>
  waits for it.
\<close>

definition task_ok :: "DelegateTask \<Rightarrow> bool" where
  "task_ok s \<longleftrightarrow>
     (\<forall>w. dt_next s \<le> w \<longrightarrow> dt_workers s w = Unborn) \<and> (\<forall>w. dt_thread s = Some w \<longrightarrow> w < dt_next s \<and> dt_workers s w \<noteq> Unborn) \<and>
     (\<forall>w. dt_workers s w \<in> {Unborn, Ended} \<or> dt_thread s = Some w) \<and>
     (dt_at s = StopCleanup \<or> dt_at s = StopJoin \<longrightarrow> dt_stop s) \<and> (dt_at s = StartPromise \<or> dt_at s = StartThread \<longrightarrow> \<not> dt_stop s) \<and> (dt_at s = StopJoin \<longrightarrow> dt_thread s \<noteq> None) \<and>
     (dt_at s \<noteq> StopCleanup \<and> dt_at s \<noteq> StopJoin \<and> dt_stop s \<longrightarrow> dt_thread s = None)"

lemma worker_step_fields:
  assumes "worker_step w s s'" and "\<not> dt_dead s'"
  shows "dt_workers s w \<notin> {Unborn, Ended} \<and> (\<exists>x. x \<noteq> Unborn \<and> dt_workers s' = (dt_workers s)(w := x)) \<and> dt_next s' = dt_next s
    \<and> dt_thread s' = dt_thread s \<and> dt_at s' = dt_at s \<and> dt_stop s' = dt_stop s \<and> dt_joinable s' = dt_joinable s
    \<and> dt_finalizers s' = dt_finalizers s \<and> dt_released s' = dt_released s"
  using assms
  by (induction rule: worker_step.induct) (auto simp: worker_at_def DelegateTask_signalRunning_def stop_test_def split: if_splits)

lemma one_worker: "task_ok s \<Longrightarrow> dt_thread s = Some w \<Longrightarrow> v \<noteq> w \<Longrightarrow> dt_workers s v \<in> {Unborn, Ended}"
  unfolding task_ok_def by (elim conjE) (metis option.inject)

lemma worker_task_ok:
  assumes step: "worker_step w s s'" and ok: "task_ok s" and alive: "\<not> dt_dead s'"
  shows "task_ok s'"
proof -
  from worker_step_fields [OF step alive] obtain x where x: "x \<noteq> Unborn" "dt_workers s' = (dt_workers s)(w := x)"
      and w: "dt_workers s w \<noteq> Unborn" "dt_workers s w \<noteq> Ended"
    by auto
  moreover from ok w have "dt_thread s = Some w"
    by (auto simp: task_ok_def)
  ultimately show ?thesis
    using ok worker_step_fields [OF step alive] by (auto simp: task_ok_def)
qed

lemma controller_task_ok:
  "controller_step s s' \<Longrightarrow> task_ok s \<Longrightarrow> dt_joinable s \<Longrightarrow> \<not> dt_dead s' \<Longrightarrow> task_ok s' \<and> dt_joinable s'"
  by (induction rule: controller_step.induct)
    (auto simp: task_ok_def worker_at_def start_thread_def AbstractTask_declareFinalizer_def AbstractTask_cleanup_def split: if_splits)

lemma task_invariant:
  assumes "task_reach predicate True s" and "\<not> dt_dead s"
  shows "task_ok s \<and> dt_joinable s"
  using assms
proof (induction rule: task_reach.induct)
  case created
  show ?case by (simp add: task_ok_def newDelegateTask_def)
next
  case (controlled s s')
  then show ?case using controller_task_ok by blast
next
  case (worked s w s')
  then show ?case using worker_task_ok worker_step_fields by metis
qed

text \<open>
  Each start makes a promise of its own: the worker about to set it finds it unset. And while \<open>stop\<close> waits the finalizers are released.
\<close>

definition promise_ok :: "DelegateTask \<Rightarrow> bool" where
  "promise_ok s \<longleftrightarrow> (\<forall>w. dt_workers s w = Signalling \<longrightarrow> dt_promise s \<notin> dt_satisfied s) \<and>
     (dt_at s = StartThread \<and> dt_thread s = None \<longrightarrow> dt_promise s \<notin> dt_satisfied s) \<and>
     (dt_at s = StopJoin \<longrightarrow> set (dt_finalizers s) \<subseteq> set (dt_released s))"

lemma controller_promise_ok:
  "controller_step s s' \<Longrightarrow> task_ok s \<Longrightarrow> promise_ok s \<Longrightarrow> \<not> dt_dead s' \<Longrightarrow> promise_ok s'"
  by (induction rule: controller_step.induct)
    (auto simp: task_ok_def promise_ok_def worker_at_def start_thread_def AbstractTask_declareFinalizer_def AbstractTask_cleanup_def split: if_splits)

lemma worker_promise_ok:
  assumes step: "worker_step w s s'" and ok: "task_ok s" and promise: "promise_ok s" and alive: "\<not> dt_dead s'"
  shows "promise_ok s'"
proof -
  note fields = worker_step_fields [OF step alive]
  have "dt_thread s = Some w"
    using fields ok by (auto simp: task_ok_def)
  moreover have "dt_workers s' v \<noteq> Signalling" for v
  proof (cases "v = w")
    case True
    with step alive show ?thesis
      by (cases rule: worker_step.cases) (auto simp: worker_at_def stop_test_def split: if_splits)
  next
    case False
    with one_worker [OF ok \<open>dt_thread s = Some w\<close> False] fields show ?thesis
      by auto
  qed
  ultimately show ?thesis
    using fields promise by (simp add: promise_ok_def)
qed

lemma promise_invariant:
  assumes "task_reach predicate True s" and "\<not> dt_dead s"
  shows "promise_ok s"
  using assms
proof (induction rule: task_reach.induct)
  case created
  show ?case by (simp add: promise_ok_def newDelegateTask_def)
next
  case (controlled s s')
  then show ?case using task_invariant controller_promise_ok by blast
next
  case (worked s w s')
  then show ?case using task_invariant worker_promise_ok by blast
qed

inductive_simps worker_step_iff: "worker_step w s s'"

lemma worker_steps:
  "dt_workers s w = Signalling \<Longrightarrow> worker_step w s s' \<longleftrightarrow> s' = worker_at w Testing (DelegateTask_signalRunning s)"
  "dt_workers s w = Testing \<Longrightarrow> worker_step w s s' \<longleftrightarrow> s' = stop_test w s"
  "dt_workers s w = Processing \<Longrightarrow> worker_step w s s' \<longleftrightarrow> s' = worker_at w Testing s \<or> s' = s\<lparr>dt_dead := True\<rparr>"
  by (simp_all add: worker_step_iff)

lemma task_predicate: "task_reach predicate joinable s \<Longrightarrow> dt_predicate s = predicate"
proof (induction rule: task_reach.induct)
  case (controlled s s')
  then show ?case
    by (auto elim!: controller_step.cases simp: worker_at_def start_thread_def AbstractTask_declareFinalizer_def AbstractTask_cleanup_def
        split: if_splits)
next
  case (worked s w s')
  then show ?case
    by (auto elim!: worker_step.cases simp: worker_at_def DelegateTask_signalRunning_def stop_test_def split: if_splits)
qed (simp add: newDelegateTask_def)

text \<open>
  Property C11. A joinable task without a stop predicate never sets a promise twice. Once \<open>stop\<close> has returned, no worker runs, in its
  function or elsewhere. While \<open>stop\<close> waits, all finalizers are released, and it returns: the worker has at most two steps left as long as
  the function of the task returns, each brings its end closer, and at its end \<open>join\<close> is possible.
\<close>

theorem stop_returns:
  assumes "task_reach False True s" and "\<not> dt_dead s"
  shows "(dt_stop s \<and> dt_at s \<noteq> StopCleanup \<and> dt_at s \<noteq> StopJoin \<longrightarrow> (\<forall>w. dt_workers s w \<in> {Unborn, Ended})) \<and>
    (\<forall>w s'. worker_step w s s' \<and> dt_workers s w = Signalling \<longrightarrow> \<not> dt_dead s') \<and>
    (dt_at s = StopJoin \<longrightarrow> set (dt_finalizers s) \<subseteq> set (dt_released s) \<and>
      (\<exists>w. dt_thread s = Some w \<and>
        (if dt_workers s w = Ended then \<exists>s'. controller_step s s' \<and> dt_at s' = Outside
         else left_to_do (dt_workers s w) \<le> 2 \<and> (\<exists>s'. worker_step w s s' \<and> \<not> dt_dead s') \<and>
           (\<forall>s'. worker_step w s s' \<and> \<not> dt_dead s' \<longrightarrow>
              dt_at s' = StopJoin \<and> left_to_do (dt_workers s' w) < left_to_do (dt_workers s w)))))"
proof (intro conjI impI)
  note ok = task_invariant [OF assms] and promise = promise_invariant [OF assms]
  have predicate: "\<not> dt_predicate s"
    using assms(1) task_predicate by blast
  show "\<forall>w. dt_workers s w \<in> {Unborn, Ended}" if "dt_stop s \<and> dt_at s \<noteq> StopCleanup \<and> dt_at s \<noteq> StopJoin"
    using ok that unfolding task_ok_def by (elim conjE) (metis option.distinct(1))
  have fresh: "dt_promise s \<notin> dt_satisfied s" if "dt_workers s w = Signalling" for w
    using promise that by (auto simp: promise_ok_def)
  show "\<forall>w s'. worker_step w s s' \<and> dt_workers s w = Signalling \<longrightarrow> \<not> dt_dead s'"
    using assms(2) fresh by (auto simp: worker_steps worker_at_def DelegateTask_signalRunning_def)
  show "set (dt_finalizers s) \<subseteq> set (dt_released s)" if "dt_at s = StopJoin"
    using promise that by (simp add: promise_ok_def)
  assume at: "dt_at s = StopJoin"
  with ok obtain w where w: "dt_thread s = Some w" "dt_stop s" "dt_workers s w \<noteq> Unborn"
    by (auto simp: task_ok_def)
  show "\<exists>w. dt_thread s = Some w \<and>
        (if dt_workers s w = Ended then \<exists>s'. controller_step s s' \<and> dt_at s' = Outside
         else left_to_do (dt_workers s w) \<le> 2 \<and> (\<exists>s'. worker_step w s s' \<and> \<not> dt_dead s') \<and>
           (\<forall>s'. worker_step w s s' \<and> \<not> dt_dead s' \<longrightarrow>
              dt_at s' = StopJoin \<and> left_to_do (dt_workers s' w) < left_to_do (dt_workers s w)))"
  proof (cases "dt_workers s w")
    case Ended
    with join [OF at w(1)] w(1) show ?thesis
      by (intro exI [where x = w]) (auto intro!: exI [where x = "s\<lparr>dt_thread := None, dt_at := Outside\<rparr>"])
  next
    case Signalling
    with w(1) at assms(2) fresh [of w] show ?thesis
      by (simp add: worker_steps worker_at_def DelegateTask_signalRunning_def)
  next
    case Testing
    with w(1,2) at assms(2) predicate show ?thesis
      by (simp add: worker_steps worker_at_def stop_test_def)
  next
    case Processing
    with w(1) at assms(2) show ?thesis
      by (auto simp: worker_steps worker_at_def)
  qed (use w in simp)
qed

text \<open>A task that runs its function while \<open>stop\<close> waits: the state is reachable.\<close>

definition waiting_task :: DelegateTask where
  "waiting_task = (newDelegateTask False True)\<lparr>dt_stop := True, dt_future := Some 0, dt_satisfied := {0}, dt_thread := Some 0,
     dt_workers := (\<lambda>_. Unborn)(0 := Processing), dt_next := 1, dt_at := StopJoin\<rparr>"

lemma waiting_reachable: "task_reach False True waiting_task"
proof -
  let ?s = "newDelegateTask False True"
  note task = newDelegateTask_def worker_at_def start_thread_def DelegateTask_signalRunning_def stop_test_def AbstractTask_cleanup_def
  from controlled [OF created _ start [of ?s]] have "task_reach False True (?s\<lparr>dt_at := StartPromise\<rparr>)"
    by (simp add: task)
  from controlled [OF this _ promise [of _ 0]] have "task_reach False True (?s\<lparr>dt_future := Some 0, dt_at := StartThread\<rparr>)"
    by (simp add: task)
  from controlled [OF this _ thread]
  have "task_reach False True (?s\<lparr>dt_future := Some 0, dt_thread := Some 0, dt_workers := (\<lambda>_. Unborn)(0 := Signalling), dt_next := 1\<rparr>)"
    by (simp add: task)
  from worked [OF this _ signal [of _ 0]]
  have "task_reach False True (?s\<lparr>dt_future := Some 0, dt_satisfied := {0}, dt_thread := Some 0, dt_workers := (\<lambda>_. Unborn)(0 := Testing), dt_next := 1\<rparr>)"
    by (simp add: task)
  from worked [OF this _ test [of _ 0]]
  have "task_reach False True (?s\<lparr>dt_future := Some 0, dt_satisfied := {0}, dt_thread := Some 0, dt_workers := (\<lambda>_. Unborn)(0 := Processing), dt_next := 1\<rparr>)"
    by (simp add: task)
  from controlled [OF this _ stop] have "task_reach False True (?s\<lparr>dt_stop := True, dt_future := Some 0, dt_satisfied := {0}, dt_thread := Some 0,
      dt_workers := (\<lambda>_. Unborn)(0 := Processing), dt_next := 1, dt_at := StopCleanup\<rparr>)"
    by (simp add: task)
  from controlled [OF this _ clean] show ?thesis
    by (simp add: task waiting_task_def)
qed

theorem stop_returns_witness:
  "\<exists>s'. worker_step 0 waiting_task s' \<and> \<not> dt_dead s' \<and> dt_at s' = StopJoin \<and> left_to_do (dt_workers s' 0) < 2"
  using stop_returns [OF waiting_reachable] by (auto simp: waiting_task_def newDelegateTask_def)

text \<open>
  Calls the class does not guard against: starting a joinable task that was started and not stopped terminates the program, waiting for a
  task that was never started is undefined, and \<open>stop\<close> of a task that is not joinable returns while its worker runs.
\<close>

lemma start_twice: "dt_at s = StartThread \<Longrightarrow> dt_thread s = Some w \<Longrightarrow> controller_step s s' \<Longrightarrow> dt_dead s'"
  by (auto elim!: controller_step.cases simp: start_thread_def)

lemma await_before_start: "controller_step (newDelegateTask predicate joinable) ((newDelegateTask predicate joinable)\<lparr>dt_dead := True\<rparr>)"
  using await [of "newDelegateTask predicate joinable"] by (simp add: newDelegateTask_def)

lemma detached_runs_on:
  "dt_at s = StopCleanup \<Longrightarrow> \<not> dt_joinable s \<Longrightarrow> controller_step s s' \<Longrightarrow> dt_at s' = Outside \<and> dt_workers s' = dt_workers s"
  by (auto elim!: controller_step.cases simp: AbstractTask_cleanup_def)

end
