(* ===== verification/Xpcf_GenProto.thy ===== *)
theory Xpcf_GenProto
  imports Xpcf_GenCpp
begin

text \<open>
  The generator of the protocol buffer files, \<^verbatim>\<open>tools/generators/grpc/GRPCProtoGenerator.cpp\<close>: the messages and the
  service of an interface. It also settles the names of the messages and renames parameters, which the generators that come
  after it rely on. The compilation of the files with \<^verbatim>\<open>protoc\<close> (\<open>finalizeImpl\<close>) only calls other programs.
\<close>

section \<open>Types\<close>

definition builtinType2protobufTypeMap :: "cpp_builtin_type \<rightharpoonup> string \<times> bool" where
  "builtinType2protobufTypeMap = map_of [
     (cpp_void, (''Empty'', False)), (cpp_bool, (''bool'', False)), (cpp_uchar, (''uint32'', True)),
     (cpp_ushort, (''uint32'', True)), (cpp_uint, (''uint32'', False)), (cpp_ulong, (''uint64'', False)),
     (cpp_ulonglong, (''uint64'', False)), (cpp_uint128, (''bytes'', False)), (cpp_schar, (''sint32'', True)),
     (cpp_short, (''sint32'', True)), (cpp_int, (''sint32'', False)), (cpp_long, (''sint64'', False)),
     (cpp_longlong, (''sint64'', False)), (cpp_int128, (''bytes'', False)), (cpp_float, (''float'', False)),
     (cpp_double, (''double'', False)), (cpp_longdouble, (''bytes'', False)), (cpp_float128, (''bytes'', False)),
     (cpp_char, (''sint32'', True)), (cpp_wchar, (''sint32'', True)), (cpp_char16, (''sint32'', True)),
     (cpp_char32, (''sint32'', True)), (cpp_int8_t, (''sint32'', True)), (cpp_int16_t, (''sint32'', False)),
     (cpp_int32_t, (''sint32'', True)), (cpp_int64_t, (''sint64'', False)), (cpp_uint8_t, (''uint32'', True)),
     (cpp_uint16_t, (''uint32'', True)), (cpp_uint32_t, (''uint32'', False)), (cpp_uint64_t, (''uint64'', False)),
     (cpp_int_least8_t, (''sint32'', True)), (cpp_int_least16_t, (''sint32'', True)),
     (cpp_int_least32_t, (''sint32'', False)), (cpp_int_least64_t, (''sint64'', False)),
     (cpp_uint_least8_t, (''uint32'', True)), (cpp_uint_least16_t, (''uint32'', True)),
     (cpp_uint_least32_t, (''uint32'', False)), (cpp_uint_least64_t, (''uint64'', False)),
     (cpp_int_fast8_t, (''sint32'', True)), (cpp_int_fast16_t, (''sint32'', True)),
     (cpp_int_fast32_t, (''sint32'', False)), (cpp_int_fast64_t, (''sint64'', False)),
     (cpp_uint_fast8_t, (''uint32'', True)), (cpp_uint_fast16_t, (''uint32'', True)),
     (cpp_uint_fast32_t, (''uint32'', False)), (cpp_uint_fast64_t, (''uint64'', False))]"

definition proto2cppTypeMap :: "string \<rightharpoonup> string" where
  "proto2cppTypeMap = map_of [(''uint32'', ''uint32_t''), (''sint32'', ''int32_t''), (''uint64'', ''uint64_t''),
     (''sint64'', ''int64_t''), (''bytes'', ''std::string'')]"

definition protoReservedKeywordsTranscription :: "string \<rightharpoonup> string" where
  "protoReservedKeywordsTranscription = map_of [(''descriptor'', ''descriptorParam''),
     (''grpcServerCompressionFormat'', ''grpcServerCompressionFormatParam'')]"

definition GRPCProtoGenerator_tryConvertType :: "cpp_builtin_type \<Rightarrow> string \<times> bool" where
  "GRPCProtoGenerator_tryConvertType t = (case builtinType2protobufTypeMap t of Some c \<Rightarrow> c | None \<Rightarrow> ('''', False))"

definition GRPCProtoGenerator_tryTranscribeName :: "ParameterDescriptor \<Rightarrow> ParameterDescriptor" where
  "GRPCProtoGenerator_tryTranscribeName p =
     (case protoReservedKeywordsTranscription (pd_name p) of Some n \<Rightarrow> p\<lparr>pd_name := n\<rparr> | None \<Rightarrow> p)"

text \<open>The type of a field, with the description, in which a conversion may have been enabled.\<close>

definition GRPCProtoGenerator_getTypeName :: "TypeDescriptor \<Rightarrow> exn + string \<times> TypeDescriptor" where
  "GRPCProtoGenerator_getTypeName p =
     (if td_kind p = std_string_t then Inr (''string'', p)
      else if td_kind p = c_string_t then Inr (''string'', p)
      else if td_kind p = enum_t
      then bind_sum (at_key proto2cppTypeMap ''sint32'') (\<lambda>c. Inr (''sint32'', enableStaticCast c p))
      else if td_isVoid p \<and> td_isReference p
      then Inl (exception_of_char_text GenerationException ''GRPCProtoGenerator: void * serialization is not defined !'')
      else if td_kind p = builtin_t
      then (let (typeName, conv) = GRPCProtoGenerator_tryConvertType (ti_builtinType (td_info p)) in
            if conv then bind_sum (at_key proto2cppTypeMap typeName) (\<lambda>c. Inr (typeName, enableStaticCast c p))
            else Inr (typeName, p))
      else Inr (''bytes'', p))"

section \<open>Messages\<close>

definition proto_Empty :: string where
  "proto_Empty = ''google.protobuf.Empty''"

text \<open>The names the messages get when the interface does not give any.\<close>

definition prepare_message :: "MethodDescriptor \<Rightarrow> MethodDescriptor" where
  "prepare_message m =
     (let m1 = (if md_requestName m \<noteq> protobuf_Empty
                then (if md_requestName m = '''' then m\<lparr>md_requestName := md_rpcName m @ ''Request''\<rparr> else m)
                else m\<lparr>md_requestName := proto_Empty\<rparr>)
      in if hasOutputs m1
         then (if md_responseName m1 = '''' then m1\<lparr>md_responseName := md_rpcName m1 @ ''Response''\<rparr> else m1)
         else m1\<lparr>md_responseName := proto_Empty\<rparr>)"

definition GRPCProtoGenerator_prepareMessages :: "ClassDescriptor \<Rightarrow> ClassDescriptor" where
  "GRPCProtoGenerator_prepareMessages c = c\<lparr>cd_virtualMethods := List.map prepare_message (cd_virtualMethods c)\<rparr>"

text \<open>Writing a message: the method, whose parameters are renamed, the number of the next field, and the text.\<close>

record MessageWriter =
  mw_method :: MethodDescriptor
  mw_fieldIndex :: nat
  mw_out :: string

definition mw_write :: "string list \<Rightarrow> MessageWriter gen" where
  "mw_write ts = modify_eff (\<lambda>w. w\<lparr>mw_out := mw_out w @ concat ts\<rparr>)"

definition mw_number :: "(string \<Rightarrow> MessageWriter gen) \<Rightarrow> MessageWriter gen" where
  "mw_number f = bind_eff (\<lambda>w. (Inr (to_string (int (mw_fieldIndex w))), w\<lparr>mw_fieldIndex := Suc (mw_fieldIndex w)\<rparr>)) f"

definition parameter_field :: "nat \<Rightarrow> MessageWriter gen" where
  "parameter_field i =
     bind_eff (gets_eff (\<lambda>w. md_params (mw_method w) ! i)) (\<lambda>p.
     bind_eff (lift_eff (GRPCProtoGenerator_getTypeName (pd_type p))) (\<lambda>(typeName, d).
       let p' = GRPCProtoGenerator_tryTranscribeName (p\<lparr>pd_type := d\<rparr>) in
       seq_eff (modify_eff (\<lambda>w. w\<lparr>mw_method := (mw_method w)\<lparr>md_params := (md_params (mw_method w))[i := p']\<rparr>\<rparr>))
         (mw_number (\<lambda>n. mw_write [typeName, '' '', pd_name p', '' = '', n, '';'', nl]))))"

definition return_field :: "MessageWriter gen" where
  "return_field =
     bind_eff (gets_eff (\<lambda>w. md_returnDescriptor (mw_method w))) (\<lambda>r.
     bind_eff (lift_eff (GRPCProtoGenerator_getTypeName r)) (\<lambda>(typeName, d).
       seq_eff (modify_eff (\<lambda>w. w\<lparr>mw_method := (mw_method w)\<lparr>md_returnDescriptor := d\<rparr>\<rparr>))
         (mw_number (\<lambda>n. mw_write [typeName, '' xpcfGrpcReturnValue = '', n, '';'', nl]))))"

definition request_message :: "MessageWriter gen" where
  "request_message =
     bind_eff (gets_eff mw_method) (\<lambda>m.
       if_then (md_requestName m \<noteq> proto_Empty) [
         mw_write [''message '', md_requestName m, nl],
         mw_write [''{'', nl],
         modify_eff (\<lambda>w. w\<lparr>mw_fieldIndex := 1\<rparr>),
         if_then (md_responseName m \<noteq> proto_Empty \<and> \<not> md_compressionDisabled m) [
           mw_number (\<lambda>n. mw_write [''int32 grpcServerCompressionFormat  = '', n, '';'', nl])],
         for_eff parameter_field (md_inParams m),
         for_eff parameter_field (md_inoutParams m),
         mw_write [''}'', nl, nl]])"

definition response_message :: "MessageWriter gen" where
  "response_message =
     bind_eff (gets_eff mw_method) (\<lambda>m.
       if_then (md_responseName m \<noteq> proto_Empty) [
         mw_write [''message '', md_responseName m, nl],
         mw_write [''{'', nl],
         modify_eff (\<lambda>w. w\<lparr>mw_fieldIndex := 1\<rparr>),
         for_eff parameter_field (md_inoutParams m),
         for_eff parameter_field (md_outParams m),
         if_then (\<not> td_isVoid (md_returnDescriptor m)) [return_field],
         mw_write [''}'', nl, nl]])"

definition GRPCProtoGenerator_generateMessages :: "MessageWriter gen" where
  "GRPCProtoGenerator_generateMessages = seq_eff request_message response_message"

section \<open>The service\<close>

definition streams_from_client :: "streaming_type \<Rightarrow> bool" where
  "streams_from_client t \<longleftrightarrow> t = client_streaming \<or> t = bidir_streaming"

definition streams_from_server :: "streaming_type \<Rightarrow> bool" where
  "streams_from_server t \<longleftrightarrow> t = server_streaming \<or> t = bidir_streaming"

text \<open>A message of the package gets its qualified C++ name, the empty message its name in C++.\<close>

definition qualify_message :: "ClassDescriptor \<Rightarrow> string \<Rightarrow> exn + string" where
  "qualify_message c n =
     (if n \<noteq> proto_Empty then bind_sum (at_key (cd_metadata c) REMOTINGNSPACE) (\<lambda>ns. Inr (''::'' @ ns @ ''::'' @ n))
      else Inr protobuf_Empty)"

record ServiceWriter =
  sw_class :: ClassDescriptor
  sw_out :: string

definition sw_write :: "string list \<Rightarrow> ServiceWriter gen" where
  "sw_write ts = modify_eff (\<lambda>w. w\<lparr>sw_out := sw_out w @ concat ts\<rparr>)"

definition sw_update :: "nat \<Rightarrow> (MethodDescriptor \<Rightarrow> MethodDescriptor) \<Rightarrow> ServiceWriter gen" where
  "sw_update i f = modify_eff (\<lambda>w.
     w\<lparr>sw_class := (sw_class w)\<lparr>cd_virtualMethods := (cd_virtualMethods (sw_class w))[i := f (cd_virtualMethods (sw_class w) ! i)]\<rparr>\<rparr>)"

definition service_method :: "nat \<Rightarrow> ServiceWriter gen" where
  "service_method i =
     bind_eff (gets_eff (\<lambda>w. cd_virtualMethods (sw_class w) ! i)) (\<lambda>m. run_all [
       sw_write [''rpc '', md_rpcName m, ''('',
         (if streams_from_client (md_rpcStreamingType m) \<and> md_requestName m \<noteq> proto_Empty then ''stream '' else ''''),
         md_requestName m, '') returns('',
         (if streams_from_server (md_rpcStreamingType m) \<and> md_responseName m \<noteq> proto_Empty then ''stream '' else ''''),
         md_responseName m, '') {}'', nl],
       bind_eff (gets_eff sw_class) (\<lambda>c. bind_eff (lift_eff (qualify_message c (md_requestName m))) (\<lambda>n.
         sw_update i (\<lambda>m. m\<lparr>md_requestName := n\<rparr>))),
       bind_eff (gets_eff sw_class) (\<lambda>c. bind_eff (lift_eff (qualify_message c (md_responseName m))) (\<lambda>n.
         sw_update i (\<lambda>m. m\<lparr>md_responseName := n\<rparr>)))])"

definition GRPCProtoGenerator_generateService :: "string \<Rightarrow> ServiceWriter gen" where
  "GRPCProtoGenerator_generateService serviceName =
     bind_eff (gets_eff (\<lambda>w. length (cd_virtualMethods (sw_class w)))) (\<lambda>n. run_all [
       sw_write [''service '', serviceName, '' {'', nl],
       for_eff service_method [0..<n],
       sw_write [''}'', nl, nl]])"

section \<open>Generating the file of an interface\<close>

definition service_messages :: "nat \<Rightarrow> ServiceWriter gen" where
  "service_messages i = (\<lambda>w.
     case GRPCProtoGenerator_generateMessages
            \<lparr>mw_method = cd_virtualMethods (sw_class w) ! i, mw_fieldIndex = 1, mw_out = sw_out w\<rparr> of
       (r, mw) \<Rightarrow> (r, w\<lparr>sw_class := (sw_class w)\<lparr>cd_virtualMethods := (cd_virtualMethods (sw_class w))[i := mw_method mw]\<rparr>,
                       sw_out := mw_out mw\<rparr>))"

definition write_service :: "string \<Rightarrow> ServiceWriter gen" where
  "write_service serviceName =
     bind_eff (gets_eff (\<lambda>w. length (cd_virtualMethods (sw_class w)))) (\<lambda>n.
       seq_eff (for_eff service_messages [0..<n]) (GRPCProtoGenerator_generateService serviceName))"

text \<open>The class, the text on the standard output, the files with their contents, the files removed and the files to compile.\<close>

record ProtoGenerator =
  pr_class :: ClassDescriptor
  pr_cout :: string
  pr_files :: "(string \<times> string) list"
  pr_removed :: "string list"
  pr_protoFilesPath :: "string list"
  pr_protoNameFilesPathMap :: "(string \<times> string) list"

definition proto_serviceName :: "ClassDescriptor \<Rightarrow> string" where
  "proto_serviceName c = ''grpc'' @ cd_name c @ ''Service''"

definition proto_to_cout :: "ProtoGenerator gen" where
  "proto_to_cout = (\<lambda>g.
     case write_service (proto_serviceName (pr_class g)) \<lparr>sw_class = pr_class g, sw_out = pr_cout g\<rparr> of
       (r, w) \<Rightarrow> (r, g\<lparr>pr_class := sw_class w, pr_cout := sw_out w\<rparr>))"

definition proto_header :: "string \<Rightarrow> string" where
  \<open>proto_header package = concat [''syntax = "proto3";'', nl, nl, ''import "google/protobuf/empty.proto";'', nl, nl,
     ''package '', package, '';'', nl, nl]\<close>

text \<open>The file exists with what was written to it even when the generation throws.\<close>

definition proto_to_file :: "string \<Rightarrow> ProtoGenerator gen" where
  "proto_to_file path = (\<lambda>g.
     let package = ''grpc'' @ cd_name (pr_class g);
         c = cd_setMetadata REMOTINGNSPACE package (pr_class g) in
     case write_service (proto_serviceName c) \<lparr>sw_class = c, sw_out = proto_header package\<rparr> of
       (Inl e, w) \<Rightarrow> (Inl e, g\<lparr>pr_class := sw_class w, pr_files := pr_files g @ [(path, sw_out w)]\<rparr>)
     | (Inr _, w) \<Rightarrow> (Inr (), g\<lparr>pr_class := sw_class w, pr_files := pr_files g @ [(path, sw_out w)],
                        pr_protoFilesPath := pr_protoFilesPath g @ [path],
                        pr_protoNameFilesPathMap := std_map_set (proto_serviceName c) path (pr_protoNameFilesPathMap g)\<rparr>))"

definition GRPCProtoGenerator_generateImpl :: "'f Filesystem_scheme \<Rightarrow> GenerateMode \<Rightarrow> string \<Rightarrow> ProtoGenerator gen" where
  "GRPCProtoGenerator_generateImpl fs mode folder =
     bind_eff (gets_eff (\<lambda>g. proto_serviceName (pr_class g))) (\<lambda>serviceName.
       let path = serviceName @ ''.proto'' in
       seq_eff (modify_eff (\<lambda>g. g\<lparr>pr_class := GRPCProtoGenerator_prepareMessages
           (cd_setMetadata GRPCPROTOFILENAME path (cd_setMetadata GRPCSERVICENAME serviceName (pr_class g)))\<rparr>))
         (catch_if (is_instance GenerationException)
           (if mode = STD_COUT then proto_to_cout else proto_to_file (fs_append fs folder path))
           (\<lambda>e. seq_eff (modify_eff (\<lambda>g. g\<lparr>pr_removed := pr_removed g @ [path]\<rparr>)) (throw_eff e))))"

section \<open>Fields are numbered from one\<close>

definition field_of :: "ParameterDescriptor \<Rightarrow> exn + string \<times> string" where
  "field_of p = bind_sum (GRPCProtoGenerator_getTypeName (pd_type p)) (\<lambda>(t, _).
     Inr (t, pd_name (GRPCProtoGenerator_tryTranscribeName p)))"

definition field_text :: "nat \<Rightarrow> string \<times> string \<Rightarrow> string" where
  "field_text k = (\<lambda>(t, n). t @ '' '' @ n @ '' = '' @ to_string (int k) @ '';'' @ nl)"

fun fields_text :: "nat \<Rightarrow> (string \<times> string) list \<Rightarrow> string" where
  "fields_text k [] = ''''"
| "fields_text k (f # fs) = field_text k f @ fields_text (Suc k) fs"

definition message_text :: "string \<Rightarrow> (string \<times> string) list \<Rightarrow> string" where
  "message_text name fs = ''message '' @ name @ nl @ ''{'' @ nl @ fields_text 1 fs @ ''}'' @ nl @ nl"

lemma fields_text_append: "fields_text k (fs @ gs) = fields_text k fs @ fields_text (k + length fs) gs"
  by (induction fs arbitrary: k) auto

lemma getTypeName_again:
  assumes "GRPCProtoGenerator_getTypeName d = Inr (t, d')"
  shows "\<exists>d''. GRPCProtoGenerator_getTypeName d' = Inr (t, d'')"
proof -
  have same: "td_kind (enableStaticCast c d) = td_kind d" "ti_builtinType (td_info (enableStaticCast c d)) = ti_builtinType (td_info d)"
    "td_isVoid (enableStaticCast c d) = td_isVoid d" "td_isReference (enableStaticCast c d) = td_isReference d" for c
    by (simp_all add: enableStaticCast_def td_kind_def td_isVoid_def td_isReference_def)
  show ?thesis
    using assms
    by (auto simp: GRPCProtoGenerator_getTypeName_def bind_sum_Inr_iff same Let_def split: if_splits prod.splits)
qed

lemma transcribe_type [simp]: "pd_type (GRPCProtoGenerator_tryTranscribeName p) = pd_type p"
  by (simp add: GRPCProtoGenerator_tryTranscribeName_def split: option.splits)

lemma transcribe_name_only:
  "pd_name (GRPCProtoGenerator_tryTranscribeName (p\<lparr>pd_type := d\<rparr>)) = pd_name (GRPCProtoGenerator_tryTranscribeName p)"
  by (simp add: GRPCProtoGenerator_tryTranscribeName_def split: option.splits)

lemma transcribe_twice [simp]:
  "pd_name (GRPCProtoGenerator_tryTranscribeName (GRPCProtoGenerator_tryTranscribeName p)) = pd_name (GRPCProtoGenerator_tryTranscribeName p)"
  by (auto simp: GRPCProtoGenerator_tryTranscribeName_def protoReservedKeywordsTranscription_def split: option.splits if_splits)

text \<open>What writing fields does to the writer.\<close>

definition wrote_fields :: "nat list \<Rightarrow> (string \<times> string) list \<Rightarrow> MessageWriter \<Rightarrow> MessageWriter \<Rightarrow> bool" where
  "wrote_fields is fs w w' \<longleftrightarrow>
     mw_out w' = mw_out w @ fields_text (mw_fieldIndex w) fs \<and> mw_fieldIndex w' = mw_fieldIndex w + length fs \<and>
     mw_method w' = (mw_method w)\<lparr>md_params := md_params (mw_method w')\<rparr> \<and>
     length (md_params (mw_method w')) = length (md_params (mw_method w)) \<and>
     List.map (\<lambda>i. pd_name (md_params (mw_method w') ! i)) is = List.map snd fs \<and>
     (\<forall>j < length (md_params (mw_method w)).
        (field_of (md_params (mw_method w) ! j) = field_of (md_params (mw_method w') ! j)) \<and>
        (\<forall>f. field_of (md_params (mw_method w) ! j) = Inr f \<longrightarrow> pd_name (md_params (mw_method w) ! j) = snd f \<longrightarrow>
           pd_name (md_params (mw_method w') ! j) = snd f))"

lemma parameter_field_wrote:
  assumes "parameter_field i w = (Inr (), w')" and "i < length (md_params (mw_method w))"
  shows "\<exists>f. field_of (md_params (mw_method w) ! i) = Inr f \<and> wrote_fields [i] [f] w w'"
proof -
  let ?p = "md_params (mw_method w) ! i"
  obtain t d where t: "GRPCProtoGenerator_getTypeName (pd_type ?p) = Inr (t, d)"
    using assms(1) by (auto simp: parameter_field_def eff_simps split: sum.splits)
  let ?p' = "GRPCProtoGenerator_tryTranscribeName (?p\<lparr>pd_type := d\<rparr>)"
  have w': "w' = w\<lparr>mw_method := (mw_method w)\<lparr>md_params := (md_params (mw_method w))[i := ?p']\<rparr>,
      mw_fieldIndex := Suc (mw_fieldIndex w), mw_out := mw_out w @ field_text (mw_fieldIndex w) (t, pd_name ?p')\<rparr>"
    using assms(1) t by (auto simp: parameter_field_def mw_number_def mw_write_def field_text_def eff_simps Let_def)
  have f: "field_of ?p = Inr (t, pd_name ?p')"
    by (simp add: field_of_def t bind_sum_def transcribe_name_only)
  have f': "field_of ?p' = Inr (t, pd_name ?p')"
    using getTypeName_again [OF t] by (auto simp: field_of_def bind_sum_def)
  show ?thesis
    by (intro exI [of _ "(t, pd_name ?p')"] conjI f)
      (use assms(2) f f' in \<open>auto simp: wrote_fields_def w' nth_list_update\<close>)
qed

definition wrote :: "nat list \<Rightarrow> (string \<times> string) list \<Rightarrow> MessageWriter \<Rightarrow> MessageWriter \<Rightarrow> bool" where
  "wrote is fs w w' \<longleftrightarrow>
     wrote_fields is fs w w' \<and> List.map (\<lambda>i. field_of (md_params (mw_method w) ! i)) is = List.map Inr fs"

lemma replace_params: "m1 = m\<lparr>md_params := x\<rparr> \<Longrightarrow> m2 = m1\<lparr>md_params := y\<rparr> \<Longrightarrow> m2 = m\<lparr>md_params := y\<rparr>"
  by simp

lemma wrote_append:
  assumes w1: "wrote is fs w w1" and w2: "wrote js gs w1 w2"
    and "\<forall>i \<in> set is. i < length (md_params (mw_method w))" and "\<forall>j \<in> set js. j < length (md_params (mw_method w))"
  shows "wrote (is @ js) (fs @ gs) w w2"
proof -
  have names: "pd_name (md_params (mw_method w2) ! i) = pd_name (md_params (mw_method w1) ! i)" if i: "i \<in> set is" for i
  proof -
    obtain k where k: "k < length is" "is ! k = i" using i by (auto simp: in_set_conv_nth)
    have len: "length is = length fs" using w1 unfolding wrote_def by (metis length_map)
    have "List.map (\<lambda>i. field_of (md_params (mw_method w) ! i)) is ! k = List.map Inr fs ! k"
      "List.map (\<lambda>i. pd_name (md_params (mw_method w1) ! i)) is ! k = List.map snd fs ! k"
      using w1 unfolding wrote_def wrote_fields_def by simp_all
    then have f: "field_of (md_params (mw_method w) ! i) = Inr (fs ! k)" "pd_name (md_params (mw_method w1) ! i) = snd (fs ! k)"
      using k len by simp_all
    have i': "i < length (md_params (mw_method w))" using assms(3) i by simp
    then have "field_of (md_params (mw_method w1) ! i) = Inr (fs ! k)"
      using w1 f(1) unfolding wrote_def wrote_fields_def by simp
    moreover have "i < length (md_params (mw_method w1))" using w1 i' unfolding wrote_def wrote_fields_def by simp
    ultimately show ?thesis
      using w2 f(2) unfolding wrote_def wrote_fields_def by metis
  qed
  have same: "List.map (\<lambda>i. pd_name (md_params (mw_method w2) ! i)) is = List.map (\<lambda>i. pd_name (md_params (mw_method w1) ! i)) is"
    using names by simp
  have gs: "List.map (\<lambda>i. field_of (md_params (mw_method w) ! i)) js = List.map (\<lambda>i. field_of (md_params (mw_method w1) ! i)) js"
    using w1 assms(4) unfolding wrote_def wrote_fields_def by simp
  have m: "mw_method w2 = (mw_method w)\<lparr>md_params := md_params (mw_method w2)\<rparr>"
  proof -
    have "mw_method w1 = (mw_method w)\<lparr>md_params := md_params (mw_method w1)\<rparr>"
      "mw_method w2 = (mw_method w1)\<lparr>md_params := md_params (mw_method w2)\<rparr>"
      using w1 w2 unfolding wrote_def wrote_fields_def by blast+
    then show ?thesis by (rule replace_params)
  qed
  show ?thesis
    using w1 w2 m same gs unfolding wrote_def wrote_fields_def
    by (auto simp: fields_text_append)
qed

lemma wrote_Nil: "wrote [] [] w w"
  by (simp add: wrote_def wrote_fields_def)

lemma parameter_fields_wrote:
  assumes "for_eff parameter_field is w = (Inr (), w')" and "\<forall>i \<in> set is. i < length (md_params (mw_method w))"
  shows "\<exists>fs. wrote is fs w w'"
  using assms
proof (induction "is" arbitrary: w)
  case Nil
  then show ?case using wrote_Nil [of w] by (auto simp: eff_simps)
next
  case (Cons i "is")
  then obtain w1 where i: "parameter_field i w = (Inr (), w1)" and rest: "for_eff parameter_field is w1 = (Inr (), w')"
    by (auto simp: eff_simps split: sum.splits prod.splits)
  obtain f where f: "wrote [i] [f] w w1"
    using parameter_field_wrote [OF i] Cons.prems(2) by (auto simp: wrote_def)
  have len: "length (md_params (mw_method w1)) = length (md_params (mw_method w))"
    using f unfolding wrote_def wrote_fields_def by simp
  obtain fs where "wrote is fs w1 w'" using Cons.IH [OF rest] Cons.prems(2) len by auto
  from wrote_append [OF f this] Cons.prems(2) have "wrote ([i] @ is) ([f] @ fs) w w'" by simp
  then show ?case by auto
qed

definition compression_fields :: "MethodDescriptor \<Rightarrow> (string \<times> string) list" where
  "compression_fields m =
     (if md_responseName m \<noteq> proto_Empty \<and> \<not> md_compressionDisabled m then [(''int32'', ''grpcServerCompressionFormat '')] else [])"

definition params_in_range :: "MethodDescriptor \<Rightarrow> bool" where
  "params_in_range m \<longleftrightarrow>
     (\<forall>i \<in> set (md_inParams m) \<union> set (md_outParams m) \<union> set (md_inoutParams m). i < length (md_params m))"

lemma two_parameter_lists:
  assumes "for_eff parameter_field is w = (Inr (), w1)" and "for_eff parameter_field js w1 = (Inr (), w2)"
    and "\<forall>i \<in> set is \<union> set js. i < length (md_params (mw_method w))"
  shows "\<exists>fs. wrote (is @ js) fs w w2"
proof -
  have "for_eff parameter_field (is @ js) w = (Inr (), w2)"
    using assms(1,2) by (simp add: for_eff_append eff_simps)
  then show ?thesis using parameter_fields_wrote assms(3) by auto
qed

lemma mw_update_order: "w\<lparr>mw_out := a, mw_fieldIndex := b\<rparr> = w\<lparr>mw_fieldIndex := b, mw_out := a\<rparr>"
  by simp

lemma request_message_wrote:
  assumes "request_message w = (Inr (), w')" and "params_in_range (mw_method w)" and "md_requestName (mw_method w) \<noteq> proto_Empty"
  shows "\<exists>fs w1 w2. wrote (md_inParams (mw_method w) @ md_inoutParams (mw_method w)) fs w1 w2 \<and> mw_method w1 = mw_method w \<and>
    mw_method w' = mw_method w2 \<and>
    mw_out w' = mw_out w @ message_text (md_requestName (mw_method w)) (compression_fields (mw_method w) @ fs)"
proof -
  let ?m = "mw_method w"
  let ?c = "compression_fields ?m"
  define w1 where "w1 = w\<lparr>mw_out := mw_out w @ ''message '' @ md_requestName ?m @ nl @ ''{'' @ nl @ fields_text 1 ?c,
      mw_fieldIndex := Suc (length ?c)\<rparr>"
  obtain w2 w3 where w2: "for_eff parameter_field (md_inParams ?m) w1 = (Inr (), w2)"
    and w3: "for_eff parameter_field (md_inoutParams ?m) w2 = (Inr (), w3)"
    and w': "w' = w3\<lparr>mw_out := mw_out w3 @ ''}'' @ nl @ nl\<rparr>"
    using assms(1,3)
    by (auto simp: request_message_def if_then_def run_all_def mw_write_def mw_number_def w1_def compression_fields_def
        field_text_def eff_simps mw_update_order split: sum.splits prod.splits if_splits)
  have "\<forall>i \<in> set (md_inParams ?m) \<union> set (md_inoutParams ?m). i < length (md_params (mw_method w1))"
    using assms(2) by (auto simp: w1_def params_in_range_def)
  then obtain fs where fs: "wrote (md_inParams ?m @ md_inoutParams ?m) fs w1 w3"
    using two_parameter_lists [OF w2 w3] by auto
  then have "mw_out w3 = mw_out w1 @ fields_text (Suc (length ?c)) fs"
    unfolding wrote_def wrote_fields_def by (simp add: w1_def)
  then have "mw_out w' = mw_out w @ message_text (md_requestName ?m) (?c @ fs)"
    by (simp add: w' w1_def message_text_def fields_text_append)
  moreover have "mw_method w1 = ?m" "mw_method w' = mw_method w3" by (simp_all add: w1_def w')
  ultimately show ?thesis using fs by blast
qed

definition return_fields :: "MethodDescriptor \<Rightarrow> string list" where
  "return_fields m = (if td_isVoid (md_returnDescriptor m) then [] else [''xpcfGrpcReturnValue''])"

lemma return_field_run:
  assumes "return_field w = (Inr (), w')"
  shows "\<exists>t. mw_out w' = mw_out w @ field_text (mw_fieldIndex w) (t, ''xpcfGrpcReturnValue'') \<and>
    md_params (mw_method w') = md_params (mw_method w)"
  using assms
  by (auto simp: return_field_def mw_number_def mw_write_def field_text_def eff_simps Let_def split: sum.splits prod.splits)

lemma response_message_wrote:
  assumes "response_message w = (Inr (), w')" and "params_in_range (mw_method w)" and "md_responseName (mw_method w) \<noteq> proto_Empty"
  shows "\<exists>fs rs w1 w2. wrote (md_inoutParams (mw_method w) @ md_outParams (mw_method w)) fs w1 w2 \<and> mw_method w1 = mw_method w \<and>
    md_params (mw_method w') = md_params (mw_method w2) \<and> List.map snd rs = return_fields (mw_method w) \<and>
    mw_out w' = mw_out w @ message_text (md_responseName (mw_method w)) (fs @ rs)"
proof -
  let ?m = "mw_method w"
  define w1 where "w1 = w\<lparr>mw_out := mw_out w @ ''message '' @ md_responseName ?m @ nl @ ''{'' @ nl, mw_fieldIndex := 1\<rparr>"
  obtain w2 w3 w4 where w2: "for_eff parameter_field (md_inoutParams ?m) w1 = (Inr (), w2)"
    and w3: "for_eff parameter_field (md_outParams ?m) w2 = (Inr (), w3)"
    and w4: "if_then (\<not> td_isVoid (md_returnDescriptor ?m)) [return_field] w3 = (Inr (), w4)"
    and w': "w' = w4\<lparr>mw_out := mw_out w4 @ ''}'' @ nl @ nl\<rparr>"
    using assms(1,3)
    by (auto simp: response_message_def if_then_def run_all_def mw_write_def w1_def eff_simps split: sum.splits prod.splits if_splits)
  have "\<forall>i \<in> set (md_inoutParams ?m) \<union> set (md_outParams ?m). i < length (md_params (mw_method w1))"
    using assms(2) by (auto simp: w1_def params_in_range_def)
  then obtain fs where fs: "wrote (md_inoutParams ?m @ md_outParams ?m) fs w1 w3"
    using two_parameter_lists [OF w2 w3] by auto
  have out3: "mw_out w3 = mw_out w1 @ fields_text 1 fs" "mw_fieldIndex w3 = Suc (length fs)"
    using fs unfolding wrote_def wrote_fields_def by (simp_all add: w1_def)
  obtain rs where rs: "List.map snd rs = return_fields ?m" "mw_out w4 = mw_out w3 @ fields_text (Suc (length fs)) rs"
    "md_params (mw_method w4) = md_params (mw_method w3)"
  proof (cases "td_isVoid (md_returnDescriptor ?m)")
    case True
    then have "w4 = w3" using w4 by (simp add: if_then_def eff_simps)
    then show ?thesis using that [of "[]"] True by (simp add: return_fields_def)
  next
    case False
    then have "return_field w3 = (Inr (), w4)"
      using w4 by (auto simp: if_then_def run_all_def eff_simps split: sum.splits prod.splits)
    from return_field_run [OF this] obtain t where
      "mw_out w4 = mw_out w3 @ field_text (Suc (length fs)) (t, ''xpcfGrpcReturnValue'')"
      "md_params (mw_method w4) = md_params (mw_method w3)" using out3(2) by auto
    then show ?thesis using that [of "[(t, ''xpcfGrpcReturnValue'')]"] False by (simp add: return_fields_def)
  qed
  have "mw_out w' = mw_out w @ message_text (md_responseName ?m) (fs @ rs)"
    by (simp add: w' rs out3 w1_def message_text_def fields_text_append)
  moreover have "mw_method w1 = ?m" "md_params (mw_method w') = md_params (mw_method w3)" by (simp_all add: w1_def w' rs)
  ultimately show ?thesis using fs rs(1) by blast
qed

text \<open>A parameter that was written has the name of its field, and keeps it.\<close>

definition settled :: "ParameterDescriptor \<Rightarrow> bool" where
  "settled p \<longleftrightarrow> (\<exists>f. field_of p = Inr f \<and> pd_name p = snd f)"

lemma wrote_settles:
  assumes "wrote is fs w w'" and "i \<in> set is" and "i < length (md_params (mw_method w))"
  shows "settled (md_params (mw_method w') ! i)"
proof -
  obtain k where k: "k < length is" "is ! k = i" using assms(2) by (auto simp: in_set_conv_nth)
  have len: "length is = length fs" using assms(1) unfolding wrote_def by (metis length_map)
  have "List.map (\<lambda>i. field_of (md_params (mw_method w) ! i)) is ! k = List.map Inr fs ! k"
    "List.map (\<lambda>i. pd_name (md_params (mw_method w') ! i)) is ! k = List.map snd fs ! k"
    using assms(1) unfolding wrote_def wrote_fields_def by simp_all
  then have "field_of (md_params (mw_method w) ! i) = Inr (fs ! k)" "pd_name (md_params (mw_method w') ! i) = snd (fs ! k)"
    using k len by simp_all
  moreover have "field_of (md_params (mw_method w') ! i) = field_of (md_params (mw_method w) ! i)"
    using assms(1,3) unfolding wrote_def wrote_fields_def by simp
  ultimately show ?thesis unfolding settled_def by auto
qed

lemma wrote_keeps_settled:
  assumes "wrote is fs w w'" and "i < length (md_params (mw_method w))" and "settled (md_params (mw_method w) ! i)"
  shows "pd_name (md_params (mw_method w') ! i) = pd_name (md_params (mw_method w) ! i)"
  using assms unfolding wrote_def wrote_fields_def settled_def by metis

text \<open>What is left of the request when the response is written.\<close>

lemma request_part:
  assumes req: "request_message w = (Inr (), w1)" and "params_in_range (mw_method w)"
  obtains rq where "mw_method w1 = (mw_method w)\<lparr>md_params := md_params (mw_method w1)\<rparr>"
    and "length (md_params (mw_method w1)) = length (md_params (mw_method w))"
    and "mw_out w1 = mw_out w @
      (if md_requestName (mw_method w) = proto_Empty then '''' else message_text (md_requestName (mw_method w)) rq)"
    and "md_requestName (mw_method w) \<noteq> proto_Empty \<longrightarrow> List.map snd rq = List.map snd (compression_fields (mw_method w)) @
        List.map (\<lambda>i. pd_name (md_params (mw_method w1) ! i)) (md_inParams (mw_method w) @ md_inoutParams (mw_method w))"
    and "md_requestName (mw_method w) \<noteq> proto_Empty \<longrightarrow>
        (\<forall>i \<in> set (md_inParams (mw_method w) @ md_inoutParams (mw_method w)). settled (md_params (mw_method w1) ! i))"
proof (cases "md_requestName (mw_method w) = proto_Empty")
  case True
  then have "w1 = w" using req by (simp add: request_message_def if_then_def eff_simps)
  then show ?thesis using that True by simp
next
  case False
  let ?m = "mw_method w"
  from request_message_wrote [OF req assms(2) False] obtain fs u v where
    uv: "wrote (md_inParams ?m @ md_inoutParams ?m) fs u v" "mw_method u = ?m" "mw_method w1 = mw_method v"
    "mw_out w1 = mw_out w @ message_text (md_requestName ?m) (compression_fields ?m @ fs)" by blast
  have "settled (md_params (mw_method w1) ! i)" if "i \<in> set (md_inParams ?m @ md_inoutParams ?m)" for i
    using wrote_settles [OF uv(1) that] assms(2) that uv(2,3) unfolding params_in_range_def by auto
  moreover have "List.map snd fs = List.map (\<lambda>i. pd_name (md_params (mw_method w1) ! i)) (md_inParams ?m @ md_inoutParams ?m)"
    "mw_method w1 = ?m\<lparr>md_params := md_params (mw_method w1)\<rparr>" "length (md_params (mw_method w1)) = length (md_params ?m)"
    using uv(1) unfolding wrote_def wrote_fields_def uv(2,3) by simp_all
  ultimately show ?thesis using that [of "compression_fields ?m @ fs"] False uv(4) by simp
qed

text \<open>
  Property C37. The messages of a method in the \<open>.proto\<close> file: the request has the number of the compression format when
  there is a response and compression is not disabled, then the inputs, then the input-outputs; the response has the
  input-outputs, then the outputs, then the result when there is one. The fields of each are numbered from one without
  gap, and each is named as the parameter is named from then on, which is what the other generators use to reach it.
\<close>

theorem proto_messages_numbered:
  assumes "GRPCProtoGenerator_generateMessages w = (Inr (), w')" and "params_in_range (mw_method w)"
  shows "let m = mw_method w; name = (\<lambda>i. pd_name (md_params (mw_method w') ! i)) in
    \<exists>req resp.
      mw_out w' = mw_out w @ (if md_requestName m = proto_Empty then '''' else message_text (md_requestName m) req) @
        (if md_responseName m = proto_Empty then '''' else message_text (md_responseName m) resp) \<and>
      (md_requestName m \<noteq> proto_Empty \<longrightarrow>
        List.map snd req = List.map snd (compression_fields m) @ List.map name (md_inParams m @ md_inoutParams m)) \<and>
      (md_responseName m \<noteq> proto_Empty \<longrightarrow>
        List.map snd resp = List.map name (md_inoutParams m @ md_outParams m) @ return_fields m)"
proof -
  let ?m = "mw_method w"
  obtain w1 where req: "request_message w = (Inr (), w1)" and resp: "response_message w1 = (Inr (), w')"
    using assms(1) by (auto simp: GRPCProtoGenerator_generateMessages_def eff_simps split: sum.splits prod.splits)
  from request_part [OF req assms(2)] obtain rq where w1: "mw_method w1 = ?m\<lparr>md_params := md_params (mw_method w1)\<rparr>"
      "length (md_params (mw_method w1)) = length (md_params ?m)"
      "mw_out w1 = mw_out w @ (if md_requestName ?m = proto_Empty then '''' else message_text (md_requestName ?m) rq)"
    and rq: "md_requestName ?m \<noteq> proto_Empty \<longrightarrow> List.map snd rq = List.map snd (compression_fields ?m) @
        List.map (\<lambda>i. pd_name (md_params (mw_method w1) ! i)) (md_inParams ?m @ md_inoutParams ?m)"
      "md_requestName ?m \<noteq> proto_Empty \<longrightarrow>
        (\<forall>i \<in> set (md_inParams ?m @ md_inoutParams ?m). settled (md_params (mw_method w1) ! i))" .
  have fields: "md_inParams (mw_method w1) = md_inParams ?m" "md_inoutParams (mw_method w1) = md_inoutParams ?m"
    "md_outParams (mw_method w1) = md_outParams ?m" "md_responseName (mw_method w1) = md_responseName ?m"
    "return_fields (mw_method w1) = return_fields ?m"
    by (subst w1(1), simp add: return_fields_def)+
  have range: "params_in_range (mw_method w1)" using assms(2) w1(2) by (simp add: params_in_range_def fields)
  show ?thesis
  proof (cases "md_responseName ?m = proto_Empty")
    case True
    then have "w' = w1" using resp fields(4) by (simp add: response_message_def if_then_def eff_simps)
    then show ?thesis using True w1(3) rq(1) by (auto simp: Let_def)
  next
    case False
    then have "md_responseName (mw_method w1) \<noteq> proto_Empty" using fields by simp
    from response_message_wrote [OF resp range this] obtain fs rs u v where
      uv: "wrote (md_inoutParams ?m @ md_outParams ?m) fs u v" "mw_method u = mw_method w1"
      "md_params (mw_method w') = md_params (mw_method v)" and rs: "List.map snd rs = return_fields ?m"
      "mw_out w' = mw_out w1 @ message_text (md_responseName ?m) (fs @ rs)"
      unfolding fields by blast
    have keep: "pd_name (md_params (mw_method w') ! i) = pd_name (md_params (mw_method w1) ! i)"
      if "md_requestName ?m \<noteq> proto_Empty" "i \<in> set (md_inParams ?m @ md_inoutParams ?m)" for i
    proof -
      have "i < length (md_params (mw_method u))" using that(2) assms(2) w1(2) uv(2) unfolding params_in_range_def by auto
      moreover have "settled (md_params (mw_method u) ! i)" using rq(2) that uv(2) by simp
      ultimately show ?thesis using wrote_keeps_settled [OF uv(1)] uv(2,3) by simp
    qed
    have "List.map (\<lambda>i. pd_name (md_params (mw_method w1) ! i)) (md_inParams ?m @ md_inoutParams ?m) =
        List.map (\<lambda>i. pd_name (md_params (mw_method w') ! i)) (md_inParams ?m @ md_inoutParams ?m)"
      if "md_requestName ?m \<noteq> proto_Empty"
      using keep [OF that] by (intro map_cong) auto
    moreover have "List.map snd fs = List.map (\<lambda>i. pd_name (md_params (mw_method w') ! i)) (md_inoutParams ?m @ md_outParams ?m)"
      using uv(1) unfolding wrote_def wrote_fields_def uv(3) by simp
    ultimately show ?thesis
      unfolding Let_def using False w1(3) rq(1) rs by (intro exI [of _ rq] exI [of _ "fs @ rs"]) simp
  qed
qed

text \<open>A method with a parameter whose name is reserved.\<close>

definition sample_copy :: MethodDescriptor where
  "sample_copy = prepare_message ((case MethodDescriptor_parse sample_cppast sample_raw (MethodDescriptor_init sample_raw
     (sample_function ''copy'' [sample_parameter ''from'' (cpp_user_defined ''Image'' False),
        sample_parameter ''descriptor'' (cpp_reference_to cpp_ref_lvalue (cpp_builtin cpp_int))]) False) of
       Inr (_, m) \<Rightarrow> m | Inl _ \<Rightarrow> MethodDescriptor_init sample_raw (sample_function '''' []) False)\<lparr>md_rpcName := ''copy''\<rparr>)"

definition sample_writer :: MessageWriter where
  "sample_writer = \<lparr>mw_method = sample_copy, mw_fieldIndex = 1, mw_out = ''''\<rparr>"

theorem proto_messages_numbered_witness:
  "\<exists>w' req resp. GRPCProtoGenerator_generateMessages sample_writer = (Inr (), w') \<and>
     mw_out w' = message_text ''copyRequest'' req @ message_text ''copyResponse'' resp \<and>
     List.map snd req = [''grpcServerCompressionFormat '', ''from'', ''descriptorParam''] \<and>
     List.map snd resp = [''descriptorParam'', ''xpcfGrpcReturnValue'']"
proof -
  have "case GRPCProtoGenerator_generateMessages sample_writer of (r, w) \<Rightarrow> r = Inr () \<and>
      List.map pd_name (md_params (mw_method w)) = [''from'', ''descriptorParam'']"
    by code_simp
  then obtain w' where w': "GRPCProtoGenerator_generateMessages sample_writer = (Inr (), w')"
    and names: "List.map pd_name (md_params (mw_method w')) = [''from'', ''descriptorParam'']"
    by (auto split: prod.splits)
  have "case Some sample_copy of Some m \<Rightarrow> md_requestName m = ''copyRequest'' \<and> md_responseName m = ''copyResponse'' \<and>
      md_inParams m = [0] \<and> md_inoutParams m = [1] \<and> md_outParams m = [] \<and> length (md_params m) = 2 \<and>
      return_fields m = [''xpcfGrpcReturnValue''] \<and>
      List.map snd (compression_fields m) = [''grpcServerCompressionFormat '']"
    by code_simp
  note m = this [unfolded option.case]
  obtain p q where "md_params (mw_method w') = [p, q]" "pd_name p = ''from''" "pd_name q = ''descriptorParam''"
    using names by auto
  then have "pd_name (md_params (mw_method w') ! 0) = ''from''" "pd_name (md_params (mw_method w') ! 1) = ''descriptorParam''"
    by simp_all
  moreover have "params_in_range (mw_method sample_writer)" by (simp add: params_in_range_def m sample_writer_def)
  ultimately show ?thesis
    using proto_messages_numbered [OF w'] w' by (simp add: sample_writer_def Let_def m proto_Empty_def)
qed

section \<open>Printing instead of writing a file\<close>

lemma for_eff_invariant:
  assumes "for_eff f xs s = (Inr (), t)" and "I [] s"
    and "\<And>ys x s t. I ys s \<Longrightarrow> x \<in> set xs \<Longrightarrow> f x s = (Inr (), t) \<Longrightarrow> I (ys @ [x]) t"
  shows "I xs t"
proof -
  have "I (ys @ zs) t" if "for_eff f zs u = (Inr (), t)" and "I ys u" and "set zs \<subseteq> set xs" for ys zs u
    using that
  proof (induction zs arbitrary: ys u)
    case (Cons z zs)
    then obtain w where "f z u = (Inr (), w)" and "for_eff f zs w = (Inr (), t)"
      by (auto simp: eff_simps split: sum.splits prod.splits)
    with Cons.IH [of w "ys @ [z]"] Cons.prems assms(3) show ?case by simp
  qed (simp add: eff_simps)
  from this [of xs s "[]"] assms(1,2) show ?thesis by simp
qed

definition no_messages :: "MethodDescriptor \<Rightarrow> bool" where
  "no_messages m \<longleftrightarrow> md_requestName m = protobuf_Empty \<and> md_responseName m = protobuf_Empty"

lemma qualify_message_without_package:
  "cd_metadata c REMOTINGNSPACE = None \<Longrightarrow> qualify_message c n = Inr n' \<Longrightarrow> n' = protobuf_Empty"
  by (auto simp: qualify_message_def at_key_def bind_sum_def split: if_splits)

lemma qualify_message_methods [simp]: "qualify_message (c\<lparr>cd_virtualMethods := ms\<rparr>) n = qualify_message c n"
  by (simp add: qualify_message_def)

lemma service_method_run:
  assumes "service_method i w = (Inr (), w')" and "i < length (cd_virtualMethods (sw_class w))"
  shows "\<exists>req resp. qualify_message (sw_class w) (md_requestName (cd_virtualMethods (sw_class w) ! i)) = Inr req \<and>
    qualify_message (sw_class w) (md_responseName (cd_virtualMethods (sw_class w) ! i)) = Inr resp \<and>
    sw_class w' = (sw_class w)\<lparr>cd_virtualMethods := (cd_virtualMethods (sw_class w))
      [i := (cd_virtualMethods (sw_class w) ! i)\<lparr>md_requestName := req, md_responseName := resp\<rparr>]\<rparr>"
  using assms
  by (auto simp: service_method_def run_all_def sw_write_def sw_update_def eff_simps split: sum.splits)

lemma generateService_run:
  assumes "GRPCProtoGenerator_generateService n w = (Inr (), w')"
  shows "\<exists>v v'. sw_class v = sw_class w \<and> sw_class w' = sw_class v' \<and>
    for_eff service_method [0..<length (cd_virtualMethods (sw_class w))] v = (Inr (), v')"
proof -
  define v where "v = w\<lparr>sw_out := sw_out w @ ''service '' @ n @ '' {'' @ nl\<rparr>"
  obtain v' where v': "for_eff service_method [0..<length (cd_virtualMethods (sw_class w))] v = (Inr (), v')"
    and w': "w' = v'\<lparr>sw_out := sw_out v' @ ''}'' @ nl @ nl\<rparr>"
    using assms
    by (auto simp: GRPCProtoGenerator_generateService_def run_all_def sw_write_def eff_simps v_def split: sum.splits prod.splits)
  have "sw_class v = sw_class w" "sw_class w' = sw_class v'" by (simp_all add: v_def w')
  with v' show ?thesis by blast
qed

lemma generateService_without_package:
  assumes "GRPCProtoGenerator_generateService n w = (Inr (), w')" and "cd_metadata (sw_class w) REMOTINGNSPACE = None"
  shows "\<forall>m \<in> set (cd_virtualMethods (sw_class w')). no_messages m"
proof -
  let ?n = "length (cd_virtualMethods (sw_class w))"
  define I where "I = (\<lambda>is (v :: ServiceWriter). cd_metadata (sw_class v) = cd_metadata (sw_class w) \<and>
    length (cd_virtualMethods (sw_class v)) = ?n \<and> (\<forall>i \<in> set is. i < ?n \<longrightarrow> no_messages (cd_virtualMethods (sw_class v) ! i)))"
  obtain v v' where v: "sw_class v = sw_class w" "for_eff service_method [0..<?n] v = (Inr (), v')" "sw_class w' = sw_class v'"
    using generateService_run [OF assms(1)] by auto
  have "I [0..<?n] v'"
  proof (rule for_eff_invariant [OF v(2)])
    fix ys i s t assume I: "I ys s" and i: "i \<in> set [0..<?n]" and step: "service_method i s = (Inr (), t)"
    then have none: "cd_metadata (sw_class s) REMOTINGNSPACE = None" and lt: "i < length (cd_virtualMethods (sw_class s))"
      using assms(2) by (auto simp: I_def)
    show "I (ys @ [i]) t"
      using service_method_run [OF step lt] qualify_message_without_package [OF none] I lt
      by (auto simp: I_def no_messages_def nth_list_update)
  qed (simp add: I_def v(1))
  then show ?thesis by (auto simp: I_def v(3) in_set_conv_nth)
qed

lemma service_messages_metadata:
  "for_eff service_messages is w = (r, w') \<Longrightarrow> cd_metadata (sw_class w') = cd_metadata (sw_class w)"
proof (induction "is" arbitrary: w)
  case (Cons i "is")
  obtain r1 w1 where w1: "service_messages i w = (r1, w1)" by (cases "service_messages i w")
  then have "cd_metadata (sw_class w1) = cd_metadata (sw_class w)" by (auto simp: service_messages_def split: prod.splits)
  with Cons w1 show ?case by (cases r1) (auto simp: eff_simps)
qed (simp add: eff_simps)

text \<open>
  Printing the \<open>.proto\<close> text instead of writing a file, which is the mode of a generator until another one is
  set, never works for an interface with a message: the package of the messages is set only when a file is written, and the
  service looks it up. Whenever the printing ends without an exception, every method has empty messages only.
\<close>

theorem printing_needs_empty_messages:
  assumes "GRPCProtoGenerator_generateImpl fs STD_COUT folder g = (Inr (), g')"
    and "cd_metadata (pr_class g) REMOTINGNSPACE = None"
  shows "\<forall>m \<in> set (cd_virtualMethods (pr_class g')). no_messages m"
proof -
  let ?c = "GRPCProtoGenerator_prepareMessages (cd_setMetadata GRPCPROTOFILENAME (proto_serviceName (pr_class g) @ ''.proto'')
    (cd_setMetadata GRPCSERVICENAME (proto_serviceName (pr_class g)) (pr_class g)))"
  have none: "cd_metadata ?c REMOTINGNSPACE = None"
    using assms(2) by (simp add: GRPCProtoGenerator_prepareMessages_def cd_setMetadata_def)
  obtain w where w: "write_service (proto_serviceName ?c) \<lparr>sw_class = ?c, sw_out = pr_cout g\<rparr> = (Inr (), w)"
    and g': "pr_class g' = sw_class w"
    using assms(1)
    by (auto simp: GRPCProtoGenerator_generateImpl_def proto_to_cout_def eff_simps Let_def split: prod.splits sum.splits if_splits)
  obtain v where v: "for_eff service_messages [0..<length (cd_virtualMethods ?c)] \<lparr>sw_class = ?c, sw_out = pr_cout g\<rparr> = (Inr (), v)"
    and w': "GRPCProtoGenerator_generateService (proto_serviceName ?c) v = (Inr (), w)"
    using w by (auto simp: write_service_def eff_simps split: prod.splits sum.splits)
  have "cd_metadata (sw_class v) REMOTINGNSPACE = None"
    using service_messages_metadata [OF v] none by simp
  then show ?thesis using generateService_without_package [OF w'] g' by simp
qed


text \<open>An interface with one method without parameter and result.\<close>

definition sample_void_interface :: cpp_class where
  "sample_void_interface = cpp_class \<lparr>cc_name = ''IStart'', cc_attributes = [], cc_templated = False\<rparr>
     [(''org::bcom::xpcf::IComponentIntrospect'', None)]
     [(sample_function ''start'' [])\<lparr>cmf_return_type := cpp_builtin cpp_void\<rparr>]"

definition sample_generator :: ProtoGenerator where
  "sample_generator = \<lparr>pr_class = (case ClassDescriptor_parse (\<lambda>_. None) sample_cppast sample_raw
       (ClassDescriptor_init sample_void_interface ''run'' ''IStart.h'') of
       Inr (_, c) \<Rightarrow> c | Inl _ \<Rightarrow> ClassDescriptor_init sample_void_interface '''' ''''),
     pr_cout = '''', pr_files = [], pr_removed = [], pr_protoFilesPath = [], pr_protoNameFilesPathMap = []\<rparr>"

theorem printing_needs_empty_messages_witness:
  "\<exists>g' m. GRPCProtoGenerator_generateImpl sample_fs STD_COUT ''out'' sample_generator = (Inr (), g') \<and>
     cd_virtualMethods (pr_class g') = [m] \<and> md_rpcName m = ''start'' \<and> no_messages m"
proof -
  have "case GRPCProtoGenerator_generateImpl sample_fs STD_COUT ''out'' sample_generator of (r, g) \<Rightarrow>
      r = Inr () \<and> List.map md_rpcName (cd_virtualMethods (pr_class g)) = [''start'']"
    by code_simp
  then obtain g' where g': "GRPCProtoGenerator_generateImpl sample_fs STD_COUT ''out'' sample_generator = (Inr (), g')"
    and names: "List.map md_rpcName (cd_virtualMethods (pr_class g')) = [''start'']"
    by (auto split: prod.splits)
  obtain m where m: "cd_virtualMethods (pr_class g') = [m]" "md_rpcName m = ''start''" using names by auto
  have "cd_metadata (pr_class sample_generator) REMOTINGNSPACE = None" by code_simp
  from printing_needs_empty_messages [OF g' this] m g' show ?thesis by simp
qed

end
