(* ===== verification/Xpcf_GenProxy.thy ===== *)
theory Xpcf_GenProxy
  imports Xpcf_GenCpp
begin

text \<open>
  The generator of the client side, \<^verbatim>\<open>tools/generators/grpc/ProxyGenerator.cpp\<close>: a component that has the interface and
  passes every call on to the remote service. The identifier that is made for a component without one and its text are
  parameters.
\<close>

section \<open>The header\<close>

definition ProxyGenerator_header_method :: "Cppast \<Rightarrow> MethodDescriptor \<Rightarrow> CodeGenerator gen" where
  \<open>ProxyGenerator_header_method cp m =
   run_all [
     out [MethodDescriptor_getFullDeclaration cp m],
     if_then (md_const m) [
       out ['' const'']],
     out ['' override;'', nl],
     (if td_kind (md_returnDescriptor m) = c_string_t
      then note_member m ''std::string'' False
      else if_then (td_isConst (md_returnDescriptor m) \<and> td_isReference (md_returnDescriptor m)) [
       note_member m (getFullTypeDescription (md_returnDescriptor m)) (md_const m)])]\<close>

definition ProxyGenerator_processHeaderMethods :: "Cppast \<Rightarrow> ClassDescriptor \<Rightarrow> CodeGenerator gen" where
  \<open>ProxyGenerator_processHeaderMethods cp c =
   run_all [for_eff (ProxyGenerator_header_method cp) (cd_virtualMethods c), newline]\<close>

definition ProxyGenerator_header_text :: "Cppast \<Rightarrow> GeneratorNames \<Rightarrow> (uuid \<Rightarrow> string) \<Rightarrow> uuid \<Rightarrow> ClassDescriptor \<Rightarrow> CodeGenerator gen" where
  \<open>ProxyGenerator_header_text cp n uuid_text u c =
   run_all [
     out [''// GRPC Proxy Class Header generated with xpcf_grpc_gen'', nl, nl],
     newline,
     includeGuardsStart (gn_className n),
     metadata_at INTERFACEFILEPATH (\<lambda>v. include_header v True),
     include_header ''xpcf/component/ConfigurableBase.h'' False,
     include_header ''memory'' False,
     include_header ''string'' False,
     include_header ''map'' False,
     with_entry GRPCSERVICENAME (\<lambda>v. include_header (v @ ''.grpc.pb.h'') True),
     include_header ''grpc/grpc.h'' False,
     include_header ''grpc++/channel.h'' False,
     include_header ''xpcf/remoting/GrpcHelper.h'' False,
     newline,
     out [''namespace '', gn_nameSpace n, '' ''],
     block_guard NSPACE (run_all [
       base_interface (\<lambda>b. run_all [
         newline,
         out [''class '', gn_className n, '':  public org::bcom::xpcf::ConfigurableBase, virtual public '', b, '' ''],
         block_guard CLASS (run_all [
           block_guard PUBLIC (run_all [
             out [gn_className n, ''();'', nl],
             out [''~'', gn_className n, ''() override = default;'', nl],
             out [''void unloadComponent () override final;'', nl],
             out [''org::bcom::xpcf::XPCFErrorCode onConfigured() override;'', nl],
             newline,
             ProxyGenerator_processHeaderMethods cp c]),
           block_guard PRIVATE (run_all [
             out [''std::string m_channelUrl;'', nl],
             out [''uint32_t m_channelCredentials;'', nl],
             out [''std::shared_ptr<::grpc::Channel> m_channel;'', nl],
             if_then (\<not> cd_compressionDisabled c) [
               out [''xpcf::grpcCompressionInfos m_serviceCompressionInfos;'', nl],
               out [''std::map<std::string, xpcf::grpcCompressionInfos> m_methodCompressionInfosMap;'', nl],
               out [''std::vector<std::string> m_grpcProxyCompressionConfig;'', nl]],
             out_with REMOTINGNSPACE (\<lambda>v. [''std::unique_ptr<::'', v, ''::'', gn_grpcClassName n,
                 ''::Stub> m_grpcStub;'', nl]),
             declare_members])])])]),
     newline,
     clear_members,
     out [''template <> struct org::bcom::xpcf::ComponentTraits<'', gn_nameSpace n, ''::'', gn_className n, ''>'',
         nl],
     block_guard CLASS (run_all [
       out [''static constexpr const char * UUID = "'', uuid_text u, ''";'', nl],
       out [''static constexpr const char * NAME = "'', gn_className n, ''";'', nl],
       out [''static constexpr const char * DESCRIPTION = "'', gn_className n, '' grpc client proxy component";'',
           nl]]),
     newline,
     includeGuardsEnd]\<close>

definition ProxyGenerator_generateHeader :: "Cppast \<Rightarrow> GeneratorNames \<Rightarrow> uuid \<Rightarrow> (uuid \<Rightarrow> string) \<Rightarrow> CodeGenerator gen" where
  \<open>ProxyGenerator_generateHeader cp n fresh uuid_text =
   bind_eff (class_uuid cd_clientUUID setClientUUID fresh uuid_text (gn_className n)) (\<lambda>u.
   bind_eff (gets_eff cg_class) (ProxyGenerator_header_text cp n uuid_text u))\<close>

section \<open>The body\<close>

definition ProxyGenerator_bindInput :: "ParameterDescriptor \<Rightarrow> CodeGenerator gen" where
  \<open>ProxyGenerator_bindInput p =
    (if td_kind (pd_type p) = builtin_t \<or> td_kind (pd_type p) = enum_t \<or> td_kind (pd_type p) = std_string_t \<or> td_kind (pd_type p) = c_string_t
     then (if needsStaticCast (pd_type p)
       then out [''reqIn.set_'', to_lower (pd_name p), ''(static_cast<'', td_rpcType (pd_type p), ''>('', pd_name p,
           ''));'', nl]
       else out [''reqIn.set_'', to_lower (pd_name p), ''('', pd_name p, '');'', nl])
     else if_then ((td_kind (pd_type p) = user_defined_t) \<or> (td_kind (pd_type p) = template_t)) [
      out [''reqIn.set_'', to_lower (pd_name p), ''(xpcf::serialize<'', getFullTypeDescription (pd_type p), ''>('',
          pd_name p, ''));'', nl]])\<close>

definition ProxyGenerator_bindOutput :: "ParameterDescriptor \<Rightarrow> CodeGenerator gen" where
  \<open>ProxyGenerator_bindOutput p =
    (if td_kind (pd_type p) = builtin_t \<or> td_kind (pd_type p) = enum_t \<or> td_kind (pd_type p) = std_string_t
     then (if needsStaticCast (pd_type p)
       then out [pd_name p, '' = static_cast<'', getFullTypeDescription (pd_type p), ''>(respOut.'',
           to_lower (pd_name p), ''());'', nl]
       else out [pd_name p, '' = respOut.'', to_lower (pd_name p), ''();'', nl])
     else if_then ((td_kind (pd_type p) = user_defined_t) \<or> (td_kind (pd_type p) = template_t)) [
      out [pd_name p, '' = xpcf::deserialize<'', getFullTypeDescription (pd_type p), ''>(respOut.'',
          to_lower (pd_name p), ''());'', nl]])\<close>

definition ProxyGenerator_compression :: "MethodDescriptor \<Rightarrow> CodeGenerator gen" where
  \<open>ProxyGenerator_compression m =
   if_then (hasOutputs m \<and> \<not> md_compressionDisabled m) [
     out [''#ifndef DISABLE_GRPC_COMPRESSION'', nl],
     out [''xpcf::grpcCompressionInfos proxyCompressionInfo = xpcf::deduceClientCompressionInfo(m_serviceCompressionInfos, "'', md_name m, ''", m_methodCompressionInfosMap);'', nl],
     out [''xpcf::grpcCompressType serverCompressionType = xpcf::prepareClientCompressionContext(context, proxyCompressionInfo);'', nl],
     out [''reqIn.set_grpcservercompressionformat (static_cast<int32_t>(serverCompressionType));'', nl],
     out [''#endif'', nl]]\<close>

definition ProxyGenerator_inputs :: "MethodDescriptor \<Rightarrow> CodeGenerator gen" where
  \<open>ProxyGenerator_inputs m =
   if_then (hasInputs m) [
     for_eff ProxyGenerator_bindInput (in_params m),
     for_eff ProxyGenerator_bindInput (inout_params m)]\<close>

definition ProxyGenerator_call :: "GeneratorNames \<Rightarrow> MethodDescriptor \<Rightarrow> CodeGenerator gen" where
  \<open>ProxyGenerator_call n m =
   run_all [
     out [''#ifdef ENABLE_PROXY_TIMERS'', nl],
     out [''boost::posix_time::ptime start = boost::posix_time::microsec_clock::universal_time();'', nl],
     out [''std::cout << "====> '', gn_className n, ''::'', md_name m,
         '' request sent at " << to_simple_string(start) << std::endl;'', nl],
     out [''#endif'', nl],
     out [''::grpc::Status grpcRemoteStatus = m_grpcStub->'', md_rpcName m, ''(&context, reqIn, &respOut);'', nl],
     out [''#ifdef ENABLE_PROXY_TIMERS'', nl],
     out [''boost::posix_time::ptime end = boost::posix_time::microsec_clock::universal_time();'', nl],
     out [''std::cout << "====> '', gn_className n, ''::'', md_name m,
         '' response received at " << to_simple_string(end) << std::endl;'', nl],
     out [''std::cout << "   => elapsed time = " << ((end - start).total_microseconds() / 1000.00) << " ms" << std::endl;'', nl],
     out [''#endif'', nl],
     out [''if (!grpcRemoteStatus.ok())''],
     block_guard STD (run_all [
       out [''std::cout << "'', md_rpcName m, '' rpc failed." << std::endl;'', nl],
       out [''throw xpcf::RemotingException("'', gn_grpcClassName n, ''","'', md_rpcName m,
           ''",static_cast<uint32_t>(grpcRemoteStatus.error_code()));'', nl]])]\<close>

definition ProxyGenerator_outputs :: "MethodDescriptor \<Rightarrow> CodeGenerator gen" where
  \<open>ProxyGenerator_outputs m =
   if_then (hasOutputs m) [
     for_eff ProxyGenerator_bindOutput (inout_params m),
     for_eff ProxyGenerator_bindOutput (out_params m)]\<close>

definition ProxyGenerator_result :: "MethodDescriptor \<Rightarrow> CodeGenerator gen" where
  \<open>ProxyGenerator_result m =
   if_then (\<not> td_isVoid (md_returnDescriptor m)) [
     (if td_kind (md_returnDescriptor m) = builtin_t
      then (if needsStaticCast (md_returnDescriptor m)
        then out [''return static_cast<'', getFullTypeDescription (md_returnDescriptor m),
            ''>(respOut.xpcfgrpcreturnvalue());'', nl]
        else out [''return respOut.xpcfgrpcreturnvalue();'', nl])
      else (if (td_kind (md_returnDescriptor m) = user_defined_t) \<or> (td_kind (md_returnDescriptor m) = template_t)
      then (if td_isConst (md_returnDescriptor m) \<and> td_isReference (md_returnDescriptor m)
        then run_all [
         out [''m_'', md_name m, '' = xpcf::deserialize<'', getFullTypeDescription (md_returnDescriptor m),
             ''>(respOut.xpcfgrpcreturnvalue());'', nl],
         out [''return m_'', md_name m, '';'', nl]]
        else out [''return xpcf::deserialize<'', getFullTypeDescription (md_returnDescriptor m),
            ''>(respOut.xpcfgrpcreturnvalue());'', nl])
      else (if td_kind (md_returnDescriptor m) = enum_t
      then (if needsStaticCast (md_returnDescriptor m)
        then out [''return static_cast<'', getFullTypeDescription (md_returnDescriptor m),
            ''>(respOut.xpcfgrpcreturnvalue());'', nl]
        else out [''return respOut.xpcfgrpcreturnvalue();'', nl])
      else if_then (td_kind (md_returnDescriptor m) = c_string_t) [
       out [''m_'', md_name m, '' = respOut.xpcfgrpcreturnvalue();'', nl],
       out [''return m_'', md_name m, ''.c_str();'', nl]])))]\<close>

definition ProxyGenerator_body_method :: "Cppast \<Rightarrow> GeneratorNames \<Rightarrow> MethodDescriptor \<Rightarrow> CodeGenerator gen" where
  \<open>ProxyGenerator_body_method cp n m =
   run_all [
     out [MethodDescriptor_getReturnType m, ''  '', gn_className n, ''::'', MethodDescriptor_getDeclaration cp m],
     if_then (md_const m) [
       out ['' const'']],
     out [nl],
     block_guard STD (run_all [
       out [''::grpc::ClientContext context;'', nl],
       out [md_requestName m, '' reqIn;'', nl],
       out [md_responseName m, '' respOut;'', nl],
       ProxyGenerator_compression m,
       ProxyGenerator_inputs m,
       ProxyGenerator_call n m,
       ProxyGenerator_outputs m,
       ProxyGenerator_result m]),
     newline]\<close>

definition ProxyGenerator_processBodyMethods :: "Cppast \<Rightarrow> GeneratorNames \<Rightarrow> ClassDescriptor \<Rightarrow> CodeGenerator gen" where
  \<open>ProxyGenerator_processBodyMethods cp n c =
   for_eff (ProxyGenerator_body_method cp n) (cd_virtualMethods c)\<close>

definition ProxyGenerator_translate :: "ClassDescriptor \<Rightarrow> CodeGenerator gen" where
  \<open>ProxyGenerator_translate c =
   if_then (\<not> cd_compressionDisabled c) [
     out [''for (auto & compressionLine : m_grpcProxyCompressionConfig) {'', nl],
     out [''    translateClientConfiguration(compressionLine, m_serviceCompressionInfos, m_methodCompressionInfosMap);'', nl],
     out [''}'', nl]]\<close>

definition ProxyGenerator_body_text :: "Cppast \<Rightarrow> GeneratorNames \<Rightarrow> ClassDescriptor \<Rightarrow> CodeGenerator gen" where
  \<open>ProxyGenerator_body_text cp n c =
   run_all [
     out [''// GRPC Proxy Class implementation generated with xpcf_grpc_gen'', nl],
     include_header (gn_headerFileName n) True,
     include_header ''cstddef'' False,
     include_header ''boost/date_time.hpp'' False,
     include_header ''xpcf/core/Exception.h'' False,
     include_header ''xpcf/remoting/ISerializable.h'' False,
     include_header ''grpcpp/client_context.h'' False,
     include_header ''grpcpp/create_channel.h'' False,
     include_header ''grpcpp/security/credentials.h'' False,
     include_header ''boost/algorithm/string.hpp'' False,
     out [''namespace xpcf = org::bcom::xpcf;'', nl],
     newline,
     out [''template<> '', gn_nameSpace n, ''::'', gn_className n, ''* xpcf::ComponentFactory::createInstance<'',
         gn_nameSpace n, ''::'', gn_className n, ''>();'', nl],
     newline,
     out [''namespace '', gn_nameSpace n, '' ''],
     block_guard NSPACE (run_all [
       newline,
       out [gn_className n, ''::'', gn_className n, ''():xpcf::ConfigurableBase(xpcf::toMap<'', gn_className n,
           ''>())'', nl],
       block_guard STD (run_all [
         base_interface (\<lambda>b. run_all [
           out [''declareInterface<'', b, ''>(this);'', nl],
           out [''declareProperty("channelUrl",m_channelUrl);'', nl],
           out [''declareProperty("channelCredentials",m_channelCredentials);'', nl],
           if_then (\<not> cd_compressionDisabled c) [
             out [''m_grpcProxyCompressionConfig.resize('', to_string (int (Suc (length (cd_virtualMethods c)))),
                 '');'', nl],
             out [''declarePropertySequence("grpc_compress_proxy", m_grpcProxyCompressionConfig);'', nl]]])]),
       newline,
       out [''void '', gn_className n, ''::unloadComponent ()'', nl],
       block_guard STD (run_all [
         out [''delete this;'', nl],
         out [''return;'', nl]]),
       newline,
       out [''XPCFErrorCode '', gn_className n, ''::onConfigured()'', nl],
       block_guard STD (run_all [
         (if cd_clientReceiveSize c \<noteq> None \<or> cd_clientSendSize c \<noteq> None
          then run_all [
           out [''::grpc::ChannelArguments ch_args;'', nl],
           if_then (cd_clientReceiveSize c \<noteq> None) [
             out [''ch_args.SetMaxReceiveMessageSize('', to_string (the (cd_clientReceiveSize c)), '');'', nl]],
           if_then (cd_clientSendSize c \<noteq> None) [
             out [''ch_args.SetMaxSendMessageSize('', to_string (the (cd_clientSendSize c)), '');'', nl]],
           out [''m_channel = ::grpc::CreateCustomChannel(m_channelUrl,'', nl],
           out [''xpcf::GrpcHelper::getCredentials(static_cast<xpcf::grpcCredentials>(m_channelCredentials)),'', nl],
           out [''ch_args);'', nl]]
          else out [''m_channel = ::grpc::CreateChannel(m_channelUrl, xpcf::GrpcHelper::getCredentials(static_cast<xpcf::grpcCredentials>(m_channelCredentials)));'', nl]),
         out_with REMOTINGNSPACE (\<lambda>v. [''m_grpcStub = ::'', v, ''::'', gn_grpcClassName n,
             ''::NewStub(m_channel);'', nl]),
         ProxyGenerator_translate c,
         out [''return xpcf::XPCFErrorCode::_SUCCESS;'', nl]]),
       newline,
       ProxyGenerator_processBodyMethods cp n c])]\<close>

definition ProxyGenerator_generateBody :: "Cppast \<Rightarrow> GeneratorNames \<Rightarrow> CodeGenerator gen" where
  "ProxyGenerator_generateBody cp n = bind_eff (gets_eff cg_class) (ProxyGenerator_body_text cp n)"

section \<open>The files\<close>

definition ProxyGenerator_names :: "string \<Rightarrow> string \<Rightarrow> GeneratorNames" where
  "ProxyGenerator_names g name = component_names ''org::bcom::xpcf::grpc::proxy'' ''_grpcProxy'' g name"

definition ProxyGenerator_generateImpl ::
  "Cppast \<Rightarrow> uuid \<Rightarrow> (uuid \<Rightarrow> string) \<Rightarrow> 'f Filesystem_scheme \<Rightarrow> GenerateMode \<Rightarrow> string \<Rightarrow> GeneratorMetadata \<Rightarrow>
   (ComponentGenerator, exn, GeneratorMetadata) eff" where
  "ProxyGenerator_generateImpl cp fresh uuid_text fs mode folder metadata =
     bind_eff service_name (\<lambda>g. bind_eff (gets_eff (\<lambda>s. cd_name (gr_class s))) (\<lambda>name.
       let n = ProxyGenerator_names g name in
       seq_eff (generate_component fs mode folder n (ProxyGenerator_generateHeader cp n fresh uuid_text) (ProxyGenerator_generateBody cp n))
         (return_eff (metadata(PROXY_XPCFGRPCCOMPONENTNAME \<mapsto> gn_className n, PROXY_XPCFGRPCNAMESPACE \<mapsto> gn_nameSpace n,
            PROXY_HEADERFILENAME \<mapsto> gn_headerFileName n, PROXY_CPPFILENAME \<mapsto> gn_cppFileName n)))))"

definition ProxyGenerator_finalizeImpl :: "ComponentGenerator gen" where
  "ProxyGenerator_finalizeImpl = print_uuids ''clientUUID''"

end
