(* ===== verification/Xpcf_GenServer.thy ===== *)
theory Xpcf_GenServer
  imports Xpcf_GenCpp
begin

text \<open>
  The generator of the server side, \<^verbatim>\<open>tools/generators/grpc/ServerGenerator.cpp\<close>: a component with the remote service, which
  passes every request on to the component with the interface.
\<close>

section \<open>The header\<close>

definition ServerGenerator_header_method :: "MethodDescriptor \<Rightarrow> CodeGenerator gen" where
  \<open>ServerGenerator_header_method m =
   out [''::grpc::Status '', md_rpcName m, ''(::grpc::ServerContext* context, const '', md_requestName m,
    ''* request, '', md_responseName m, ''* response) override;'', nl]\<close>

definition ServerGenerator_processHeaderMethods :: "ClassDescriptor \<Rightarrow> CodeGenerator gen" where
  \<open>ServerGenerator_processHeaderMethods c =
   run_all [for_eff ServerGenerator_header_method (cd_virtualMethods c), newline]\<close>

definition ServerGenerator_header_text :: "GeneratorNames \<Rightarrow> (uuid \<Rightarrow> string) \<Rightarrow> uuid \<Rightarrow> ClassDescriptor \<Rightarrow> CodeGenerator gen" where
  \<open>ServerGenerator_header_text n uuid_text u c =
   run_all [
     out [''// GRPC Server Class Header generated with xpcf_grpc_gen'', nl],
     newline,
     includeGuardsStart (gn_className n),
     metadata_at INTERFACEFILEPATH (\<lambda>v. include_header v True),
     include_header ''xpcf/component/ConfigurableBase.h'' False,
     include_header ''xpcf/remoting/IGrpcService.h'' False,
     include_header ''xpcf/remoting/GrpcHelper.h'' False,
     with_entry GRPCSERVICENAME (\<lambda>v. include_header (v @ ''.grpc.pb.h'') True),
     include_header ''grpc/grpc.h'' False,
     newline,
     out [''namespace '', gn_nameSpace n],
     out ['' ''],
     block_guard NSPACE (run_all [
       newline,
       out [''class '', gn_className n,
           '':  public org::bcom::xpcf::ConfigurableBase, virtual public org::bcom::xpcf::IGrpcService'', nl],
       block_guard CLASS (run_all [
         block_guard PUBLIC (run_all [
           out [gn_className n, ''();'', nl],
           out [''~'', gn_className n, ''() override = default;'', nl],
           out [''::grpc::Service * getService() override;'', nl],
           out [''const char * getServiceName() override { return "'', cd_name c, ''"; }'', nl],
           out [''void unloadComponent () override final;'', nl],
           out [''org::bcom::xpcf::XPCFErrorCode onConfigured() override;'', nl],
           newline,
           out_with REMOTINGNSPACE (\<lambda>v. [''class '', gn_grpcClassName n, ''Impl:  public ::'', v, ''::'',
               gn_grpcClassName n, ''::Service'', nl]),
           block_guard CLASS (run_all [
             block_guard PUBLIC (run_all [
               out [gn_grpcClassName n, ''Impl() = default;'', nl],
               ServerGenerator_processHeaderMethods c,
               base_interface (\<lambda>b. run_all [
                 out [''SRef<'', b, ''> m_xpcfComponent;'', nl],
                 if_then (\<not> cd_compressionDisabled c) [
                   out [''xpcf::grpcServerCompressionInfos m_serviceCompressionInfos;'', nl],
                   out [''std::map<std::string, xpcf::grpcServerCompressionInfos> m_methodCompressionInfosMap;'',
                       nl]]])])])]),
         block_guard PRIVATE (run_all [
           out [gn_grpcClassName n, ''Impl m_grpcService;'', nl],
           if_then (\<not> cd_compressionDisabled c) [
             out [''std::vector<std::string> m_grpcServerCompressionConfig;'', nl]]])])]),
     newline,
     out [''template <> struct org::bcom::xpcf::ComponentTraits<'', gn_nameSpace n, ''::'', gn_className n, ''>'',
         nl],
     block_guard CLASS (run_all [
       out [''static constexpr const char * UUID = "'', uuid_text u, ''";'', nl],
       out [''static constexpr const char * NAME = "'', gn_className n, ''";'', nl],
       out [''static constexpr const char * DESCRIPTION = "'', gn_className n, '' grpc server component";'', nl]]),
     includeGuardsEnd]\<close>

definition ServerGenerator_generateHeader :: "GeneratorNames \<Rightarrow> uuid \<Rightarrow> (uuid \<Rightarrow> string) \<Rightarrow> CodeGenerator gen" where
  \<open>ServerGenerator_generateHeader n fresh uuid_text =
   bind_eff (class_uuid cd_serverUUID setServerUUID fresh uuid_text (gn_className n)) (\<lambda>u.
   bind_eff (gets_eff cg_class) (ServerGenerator_header_text n uuid_text u))\<close>

section \<open>The body\<close>

text \<open>The text after the name of the variable a parameter becomes.\<close>

definition request_transcription :: "ParameterDescriptor \<Rightarrow> string list" where
  \<open>request_transcription p =
     (if pd_ioType p = io_in \<or> pd_ioType p = io_inout
      then (if td_kind (pd_type p) = builtin_t \<or> td_kind (pd_type p) = enum_t \<or> td_kind (pd_type p) = std_string_t
            then (if needsStaticCast (pd_type p)
                  then ['' = static_cast<'', getFullTypeDescription (pd_type p), ''>(request->'', to_lower (pd_name p), ''());'', nl]
                  else ['' = request->'', to_lower (pd_name p), ''();'', nl])
            else ['' = xpcf::deserialize<'', getFullTypeDescription (pd_type p), ''>(request->'', to_lower (pd_name p), ''());'', nl])
      else ['';'', nl])\<close>

definition ServerGenerator_bindInput :: "ParameterDescriptor \<Rightarrow> CodeGenerator gen" where
  "ServerGenerator_bindInput p =
     out ([getFullTypeDescription (pd_type p), '' '', pd_name p] @ request_transcription p)"

definition ServerGenerator_bindOutput :: "ParameterDescriptor \<Rightarrow> CodeGenerator gen" where
  \<open>ServerGenerator_bindOutput p =
   if_then (pd_ioType p = io_inout \<or> pd_ioType p = io_out) [
     (if td_kind (pd_type p) = builtin_t \<or> td_kind (pd_type p) = enum_t \<or> td_kind (pd_type p) = std_string_t
      then (if needsStaticCast (pd_type p)
        then out [''response->set_'', to_lower (pd_name p), ''(static_cast<'', td_rpcType (pd_type p), ''>('',
            pd_name p, ''));'', nl]
        else out [''response->set_'', to_lower (pd_name p), ''('', pd_name p, '');'', nl])
      else if_then (td_kind (pd_type p) = user_defined_t \<or> td_kind (pd_type p) = template_t) [
       out [''response->set_'', to_lower (pd_name p), ''(xpcf::serialize<'', getFullTypeDescription (pd_type p),
           ''>('', pd_name p, ''));'', nl]])]\<close>

text \<open>\<open>methodCall\<close>: the declaration of the result, if any, and the call with the names of the parameters.\<close>

definition method_call :: "MethodDescriptor \<Rightarrow> string list" where
  "method_call m =
     (if \<not> td_isVoid (md_returnDescriptor m)
      then (if td_kind (md_returnDescriptor m) = c_string_t then [''std::string returnValue = '']
            else [getFullTypeDescription (md_returnDescriptor m), '' returnValue = ''])
      else []) @
     [''m_xpcfComponent->'', md_name m, ''(''] @
     concat (List.map (\<lambda>i. (if i \<noteq> 0 then ['', ''] else []) @ [pd_name (md_params m ! i)]) [0..<length (md_params m)])"

definition ServerGenerator_compression :: "MethodDescriptor \<Rightarrow> CodeGenerator gen" where
  \<open>ServerGenerator_compression m =
   if_then (hasOutputs m \<and> \<not> md_compressionDisabled m) [
     out [''#ifndef DISABLE_GRPC_COMPRESSION'', nl],
     out [''xpcf::grpcCompressType askedCompressionType = static_cast<xpcf::grpcCompressType>(request->grpcservercompressionformat());'', nl],
     out [''xpcf::grpcServerCompressionInfos serverCompressInfo = xpcf::deduceServerCompressionType(askedCompressionType, m_serviceCompressionInfos, "'', md_name m, ''", m_methodCompressionInfosMap);'', nl],
     out [''xpcf::prepareServerCompressionContext(context, serverCompressInfo);'', nl],
     out [''#endif'', nl]]\<close>

definition ServerGenerator_result :: "MethodDescriptor \<Rightarrow> CodeGenerator gen" where
  \<open>ServerGenerator_result m =
   if_then (\<not> td_isVoid (md_returnDescriptor m)) [
     (if td_kind (md_returnDescriptor m) = builtin_t
      then (if needsStaticCast (md_returnDescriptor m)
        then out [''response->set_xpcfgrpcreturnvalue(static_cast<'', td_rpcType (md_returnDescriptor m),
            ''>(returnValue));'', nl]
        else out [''response->set_xpcfgrpcreturnvalue(returnValue);'', nl])
      else (if (td_kind (md_returnDescriptor m) = user_defined_t) \<or> (td_kind (md_returnDescriptor m) = template_t)
      then out [''response->set_xpcfgrpcreturnvalue(xpcf::serialize<'',
          getFullTypeDescription (md_returnDescriptor m), ''>(returnValue));'', nl]
      else (if td_kind (md_returnDescriptor m) = enum_t
      then (if needsStaticCast (md_returnDescriptor m)
        then out [''response->set_xpcfgrpcreturnvalue(static_cast<'', td_rpcType (md_returnDescriptor m),
            ''>(returnValue));'', nl]
        else out [''response->set_xpcfgrpcreturnvalue(returnValue);'', nl])
      else if_then (td_kind (md_returnDescriptor m) = c_string_t) [
       out [''response->set_xpcfgrpcreturnvalue(returnValue);'', nl]])))]\<close>

definition ServerGenerator_body_method :: "GeneratorNames \<Rightarrow> MethodDescriptor \<Rightarrow> CodeGenerator gen" where
  \<open>ServerGenerator_body_method n m =
   run_all [
     out [''::grpc::Status '', gn_className n, ''::'', gn_grpcClassName n, ''Impl::'', md_rpcName m,
    ''(::grpc::ServerContext* context, const '', md_requestName m, ''* request, '', md_responseName m,
    ''* response)'', nl],
     block_guard STD (run_all [
       ServerGenerator_compression m,
       out [''#ifdef ENABLE_SERVER_TIMERS'', nl],
       out [''boost::posix_time::ptime start = boost::posix_time::microsec_clock::universal_time();'', nl],
       out [''std::cout << "====> '', gn_className n, ''::'', md_name m,
           '' request received at " << to_simple_string(start) << std::endl;'', nl],
       out [''#endif'', nl],
       for_eff ServerGenerator_bindInput (md_params m),
       out (method_call m @ ['');'', nl]),
       for_eff ServerGenerator_bindOutput (md_params m),
       ServerGenerator_result m,
       out [''#ifdef ENABLE_SERVER_TIMERS'', nl],
       out [''boost::posix_time::ptime end = boost::posix_time::microsec_clock::universal_time();'', nl],
       out [''std::cout << "====> '', gn_className n, ''::'', md_name m,
           '' response sent at " << to_simple_string(end) << std::endl;'', nl],
       out [''std::cout << "   => elapsed time = " << ((end - start).total_microseconds() / 1000.00) << " ms" << std::endl;'', nl],
       out [''#endif'', nl],
       out [''return ::grpc::Status::OK;'', nl]]),
     newline]\<close>

definition ServerGenerator_processBodyMethods :: "GeneratorNames \<Rightarrow> ClassDescriptor \<Rightarrow> CodeGenerator gen" where
  \<open>ServerGenerator_processBodyMethods n c =
   for_eff (ServerGenerator_body_method n) (cd_virtualMethods c)\<close>

definition ServerGenerator_translate :: "ClassDescriptor \<Rightarrow> CodeGenerator gen" where
  \<open>ServerGenerator_translate c =
   if_then (\<not> cd_compressionDisabled c) [
     out [''for (auto & grpcCompressionLine : m_grpcServerCompressionConfig) {'', nl, '';''],
     out [''      translateServerConfiguration(grpcCompressionLine, m_grpcService.m_serviceCompressionInfos, m_grpcService.m_methodCompressionInfosMap);'', nl],
     out [''}'', nl]]\<close>

definition ServerGenerator_body_text :: "GeneratorNames \<Rightarrow> ClassDescriptor \<Rightarrow> CodeGenerator gen" where
  \<open>ServerGenerator_body_text n c =
   run_all [
     bm_write (concat [''// GRPC Server Class implementation generated with xpcf_grpc_gen'', nl]),
     bm_write (concat [''#include "'', gn_headerFileName n, ''"'', nl]),
     include_header ''cstddef'' False,
     include_header ''boost/date_time.hpp'' False,
     include_header ''xpcf/remoting/ISerializable.h'' False,
     include_header ''xpcf/remoting/GrpcHelper.h'' False,
     out [''namespace xpcf = org::bcom::xpcf;'', nl],
     newline,
     out [''template<> '', gn_nameSpace n, ''::'', gn_className n, ''* xpcf::ComponentFactory::createInstance<'',
         gn_nameSpace n, ''::'', gn_className n, ''>();'', nl],
     newline,
     out [''namespace '', gn_nameSpace n],
     out ['' ''],
     block_guard NSPACE (run_all [
       newline,
       out [gn_className n, ''::'', gn_className n, ''():xpcf::ConfigurableBase(xpcf::toMap<'', gn_className n,
           ''>())'', nl],
       block_guard STD (run_all [
         out [''declareInterface<xpcf::IGrpcService>(this);'', nl],
         base_interface (\<lambda>b. run_all [
           out [''declareInjectable<'', b, ''>(m_grpcService.m_xpcfComponent);'', nl],
           if_then (\<not> cd_compressionDisabled c) [
             out [''m_grpcServerCompressionConfig.resize('', to_string (int (Suc (length (cd_virtualMethods c)))),
                 '');'', nl],
             out [''declarePropertySequence("grpc_compress_server", m_grpcServerCompressionConfig);'', nl]]])]),
       newline,
       out [''void '', gn_className n, ''::unloadComponent ()'', nl],
       block_guard STD (run_all [
         out [''delete this;'', nl],
         out [''return;'', nl]]),
       newline,
       out [''XPCFErrorCode '', gn_className n, ''::onConfigured()'', nl],
       block_guard STD (run_all [
         ServerGenerator_translate c,
         out [''return xpcf::XPCFErrorCode::_SUCCESS;'', nl]]),
       newline,
       out [''::grpc::Service * '', gn_className n, ''::getService()'', nl],
       block_guard STD (run_all [
         out [''return &m_grpcService;'', nl]]),
       ServerGenerator_processBodyMethods n c])]\<close>

definition ServerGenerator_generateBody :: "GeneratorNames \<Rightarrow> CodeGenerator gen" where
  "ServerGenerator_generateBody n = bind_eff (gets_eff cg_class) (ServerGenerator_body_text n)"

section \<open>The files\<close>

definition ServerGenerator_names :: "string \<Rightarrow> string \<Rightarrow> GeneratorNames" where
  "ServerGenerator_names g name = component_names ''org::bcom::xpcf::grpc::server'' ''_grpcServer'' g name"

definition ServerGenerator_generateImpl ::
  "uuid \<Rightarrow> (uuid \<Rightarrow> string) \<Rightarrow> 'f Filesystem_scheme \<Rightarrow> GenerateMode \<Rightarrow> string \<Rightarrow> GeneratorMetadata \<Rightarrow>
   (ComponentGenerator, exn, GeneratorMetadata) eff" where
  "ServerGenerator_generateImpl fresh uuid_text fs mode folder metadata =
     bind_eff service_name (\<lambda>g. bind_eff (gets_eff (\<lambda>s. cd_name (gr_class s))) (\<lambda>name.
       let n = ServerGenerator_names g name in
       seq_eff (generate_component fs mode folder n (ServerGenerator_generateHeader n fresh uuid_text) (ServerGenerator_generateBody n))
         (return_eff (metadata(SERVER_XPCFGRPCCOMPONENTNAME \<mapsto> gn_className n, SERVER_XPCFGRPCNAMESPACE \<mapsto> gn_nameSpace n,
            SERVER_HEADERFILENAME \<mapsto> gn_headerFileName n, SERVER_CPPFILENAME \<mapsto> gn_cppFileName n)))))"

definition ServerGenerator_finalizeImpl :: "ComponentGenerator gen" where
  "ServerGenerator_finalizeImpl = print_uuids ''serverUUID''"

end
