(* ===== verification/Xpcf_GenMock.thy ===== *)
theory Xpcf_GenMock
  imports Xpcf_GenCpp
begin

text \<open>
  The generator of mock components, \<^verbatim>\<open>tools/generators/grpc/MockGenerator.cpp\<close>, made from the generator of proxies.
\<close>

section \<open>The header\<close>

definition MockGenerator_header_method :: "Cppast \<Rightarrow> MethodDescriptor \<Rightarrow> CodeGenerator gen" where
  \<open>MockGenerator_header_method cp m =
   run_all [
     out [MethodDescriptor_getFullDeclaration cp m],
     if_then (md_const m) [
       out ['' const'']],
     out ['' override;'', nl],
     (if td_kind (md_returnDescriptor m) = c_string_t
      then note_member m ''std::string'' False
      else if_then (td_isConst (md_returnDescriptor m) \<and> td_isReference (md_returnDescriptor m)) [
       note_member m (getFullTypeDescription (md_returnDescriptor m)) (md_const m)])]\<close>

definition MockGenerator_processHeaderMethods :: "Cppast \<Rightarrow> ClassDescriptor \<Rightarrow> CodeGenerator gen" where
  \<open>MockGenerator_processHeaderMethods cp c =
   run_all [for_eff (MockGenerator_header_method cp) (cd_virtualMethods c), newline]\<close>

definition MockGenerator_header_text :: "Cppast \<Rightarrow> GeneratorNames \<Rightarrow> (uuid \<Rightarrow> string) \<Rightarrow> uuid \<Rightarrow> ClassDescriptor \<Rightarrow> CodeGenerator gen" where
  \<open>MockGenerator_header_text cp n uuid_text u c =
   run_all [
     out [''// Mock xpcf component Class Header generated with xpcf_grpc_gen'', nl, nl],
     newline,
     includeGuardsStart (gn_className n),
     metadata_at INTERFACEFILEPATH (\<lambda>v. include_header v True),
     include_header ''xpcf/component/ConfigurableBase.h'' False,
     include_header ''memory'' False,
     include_header ''string'' False,
     newline,
     out [''namespace '', gn_nameSpace n, '' ''],
     block_guard NSPACE (run_all [
       base_interface (\<lambda>b. run_all [
         newline,
         out [''class '', gn_className n, '':  public org::bcom::xpcf::ConfigurableBase, virtual public '', b, '' ''],
         block_guard CLASS (run_all [
           block_guard PUBLIC (run_all [
             out [gn_className n, ''();'', nl],
             out [''~'', gn_className n, ''() override = default;'', nl],
             out [''void unloadComponent () override final;'', nl],
             out [''org::bcom::xpcf::XPCFErrorCode onConfigured() override;'', nl],
             newline,
             MockGenerator_processHeaderMethods cp c]),
           block_guard PRIVATE (run_all [
             declare_members])])])]),
     newline,
     clear_members,
     out [''template <> struct org::bcom::xpcf::ComponentTraits<'', gn_nameSpace n, ''::'', gn_className n, ''>'',
         nl],
     block_guard CLASS (run_all [
       out [''static constexpr const char * UUID = "'', uuid_text u, ''";'', nl],
       out [''static constexpr const char * NAME = "'', gn_className n, ''";'', nl],
       out [''static constexpr const char * DESCRIPTION = "'', gn_className n, '' grpc client proxy component";'',
           nl]]),
     newline,
     includeGuardsEnd]\<close>

definition MockGenerator_generateHeader :: "Cppast \<Rightarrow> GeneratorNames \<Rightarrow> uuid \<Rightarrow> (uuid \<Rightarrow> string) \<Rightarrow> CodeGenerator gen" where
  \<open>MockGenerator_generateHeader cp n fresh uuid_text =
   bind_eff (class_uuid cd_clientUUID setClientUUID fresh uuid_text (gn_className n)) (\<lambda>u.
   bind_eff (gets_eff cg_class) (MockGenerator_header_text cp n uuid_text u))\<close>

section \<open>The body\<close>

definition MockGenerator_bindInput :: "ParameterDescriptor \<Rightarrow> CodeGenerator gen" where
  \<open>MockGenerator_bindInput p =
    (if td_kind (pd_type p) = builtin_t \<or> td_kind (pd_type p) = enum_t \<or> td_kind (pd_type p) = std_string_t \<or> td_kind (pd_type p) = c_string_t
     then (if needsStaticCast (pd_type p)
       then out [''reqIn.set_'', to_lower (pd_name p), ''(static_cast<'', td_rpcType (pd_type p), ''>('', pd_name p,
           ''));'', nl]
       else out [''reqIn.set_'', to_lower (pd_name p), ''('', pd_name p, '');'', nl])
     else if_then ((td_kind (pd_type p) = user_defined_t) \<or> (td_kind (pd_type p) = template_t)) [
      out [''reqIn.set_'', to_lower (pd_name p), ''(xpcf::serialize<'', getFullTypeDescription (pd_type p), ''>('',
          pd_name p, ''));'', nl]])\<close>

definition MockGenerator_bindOutput :: "ParameterDescriptor \<Rightarrow> CodeGenerator gen" where
  \<open>MockGenerator_bindOutput p =
    (if td_kind (pd_type p) = builtin_t \<or> td_kind (pd_type p) = enum_t \<or> td_kind (pd_type p) = std_string_t
     then (if needsStaticCast (pd_type p)
       then out [pd_name p, '' = static_cast<'', getFullTypeDescription (pd_type p), ''>(respOut.'',
           to_lower (pd_name p), ''());'', nl]
       else out [pd_name p, '' = respOut.'', to_lower (pd_name p), ''();'', nl])
     else if_then ((td_kind (pd_type p) = user_defined_t)\<or> (td_kind (pd_type p) = template_t)) [
      out [pd_name p, '' = xpcf::deserialize<'', getFullTypeDescription (pd_type p), ''>(respOut.'',
          to_lower (pd_name p), ''());'', nl]])\<close>

definition MockGenerator_inputs :: "MethodDescriptor \<Rightarrow> CodeGenerator gen" where
  \<open>MockGenerator_inputs m =
   if_then (hasInputs m) [
     for_eff MockGenerator_bindInput (in_params m),
     for_eff MockGenerator_bindInput (inout_params m)]\<close>

definition MockGenerator_outputs :: "MethodDescriptor \<Rightarrow> CodeGenerator gen" where
  \<open>MockGenerator_outputs m =
   if_then (hasOutputs m) [
     for_eff MockGenerator_bindOutput (inout_params m),
     for_eff MockGenerator_bindOutput (out_params m)]\<close>

definition MockGenerator_result :: "MethodDescriptor \<Rightarrow> CodeGenerator gen" where
  \<open>MockGenerator_result m =
   if_then (\<not> td_isVoid (md_returnDescriptor m)) [
     (if td_kind (md_returnDescriptor m) = builtin_t
      then run_all [
       out [getFullTypeDescription (md_returnDescriptor m), ''xpcfMockReturnValue;'', nl],
       out [''return xpcfMockReturnValue;'', nl]]
      else (if td_kind (md_returnDescriptor m) = user_defined_t
      then (if td_isConst (md_returnDescriptor m) \<and> td_isReference (md_returnDescriptor m)
        then out [''return m_'', md_name m, '';'', nl]
        else run_all [
         out [getFullTypeDescription (md_returnDescriptor m), ''xpcfMockReturnValue;'', nl],
         out [''return xpcfMockReturnValue;'', nl]])
      else (if td_kind (md_returnDescriptor m) = enum_t
      then run_all [
       out [getFullTypeDescription (md_returnDescriptor m), ''xpcfMockReturnValue;'', nl],
       out [''return xpcfMockReturnValue;'', nl]]
      else if_then (td_kind (md_returnDescriptor m) = c_string_t) [
       out [''return m_'', md_name m, ''.c_str();'', nl]])))]\<close>

definition MockGenerator_body_method :: "Cppast \<Rightarrow> GeneratorNames \<Rightarrow> MethodDescriptor \<Rightarrow> CodeGenerator gen" where
  \<open>MockGenerator_body_method cp n m =
   run_all [
     out [MethodDescriptor_getReturnType m, ''  '', gn_className n, ''::'', MethodDescriptor_getDeclaration cp m],
     if_then (md_const m) [
       out ['' const'']],
     out [nl],
     block_guard STD (run_all [
       MockGenerator_inputs m,
       out [''// put your mock code here'', nl],
       MockGenerator_outputs m,
       MockGenerator_result m]),
     newline]\<close>

definition MockGenerator_processBodyMethods :: "Cppast \<Rightarrow> GeneratorNames \<Rightarrow> ClassDescriptor \<Rightarrow> CodeGenerator gen" where
  \<open>MockGenerator_processBodyMethods cp n c =
   for_eff (MockGenerator_body_method cp n) (cd_virtualMethods c)\<close>

definition MockGenerator_body_text :: "Cppast \<Rightarrow> GeneratorNames \<Rightarrow> ClassDescriptor \<Rightarrow> CodeGenerator gen" where
  \<open>MockGenerator_body_text cp n c =
   run_all [
     out [''// XPCF Mock Class implementation generated with xpcf_grpc_gen'', nl],
     include_header (gn_headerFileName n) True,
     include_header ''cstddef'' False,
     include_header ''xpcf/core/Exception.h'' False,
     out [''namespace xpcf = org::bcom::xpcf;'', nl],
     newline,
     out [''template<> '', gn_nameSpace n, ''::'', gn_className n, ''* xpcf::ComponentFactory::createInstance<'',
         gn_nameSpace n, ''::'', gn_className n, ''>();'', nl],
     newline,
     out [''namespace '', gn_nameSpace n, '' ''],
     block_guard NSPACE (run_all [
       newline,
       out [gn_className n, ''::'', gn_className n, ''():xpcf::ConfigurableBase(xpcf::toMap<'', gn_className n,
           ''>())'', nl],
       block_guard STD (run_all [
         base_interface (\<lambda>b. run_all [
           out [''declareInterface<'', b, ''>(this);'', nl],
           out [''declareProperty("channelUrl",m_channelUrl);'', nl],
           out [''declareProperty("channelCredentials",m_channelCredentials);'', nl]])]),
       newline,
       out [''void '', gn_className n, ''::unloadComponent ()'', nl],
       block_guard STD (run_all [
         out [''delete this;'', nl],
         out [''return;'', nl]]),
       newline,
       out [''XPCFErrorCode '', gn_className n, ''::onConfigured()'', nl],
       block_guard STD (run_all [
         out [''return xpcf::XPCFErrorCode::_SUCCESS;'', nl]]),
       newline,
       MockGenerator_processBodyMethods cp n c])]\<close>

definition MockGenerator_generateBody :: "Cppast \<Rightarrow> GeneratorNames \<Rightarrow> CodeGenerator gen" where
  "MockGenerator_generateBody cp n = bind_eff (gets_eff cg_class) (MockGenerator_body_text cp n)"

section \<open>The files\<close>

definition MockGenerator_names :: "string \<Rightarrow> string \<Rightarrow> GeneratorNames" where
  "MockGenerator_names g name = component_names ''org::bcom::xpcf::mock'' ''_mockComponent'' g name"

definition MockGenerator_generateImpl ::
  "Cppast \<Rightarrow> uuid \<Rightarrow> (uuid \<Rightarrow> string) \<Rightarrow> 'f Filesystem_scheme \<Rightarrow> GenerateMode \<Rightarrow> string \<Rightarrow> GeneratorMetadata \<Rightarrow>
   (ComponentGenerator, exn, GeneratorMetadata) eff" where
  "MockGenerator_generateImpl cp fresh uuid_text fs mode folder metadata =
     bind_eff (gets_eff (\<lambda>s. cd_name (gr_class s))) (\<lambda>name.
       let n = MockGenerator_names '''' name in
       seq_eff (generate_component fs mode folder n (MockGenerator_generateHeader cp n fresh uuid_text) (MockGenerator_generateBody cp n))
         (return_eff (metadata(PROXY_XPCFGRPCCOMPONENTNAME \<mapsto> gn_className n, PROXY_XPCFGRPCNAMESPACE \<mapsto> gn_nameSpace n,
            PROXY_HEADERFILENAME \<mapsto> gn_headerFileName n, PROXY_CPPFILENAME \<mapsto> gn_cppFileName n))))"

definition MockGenerator_finalizeImpl :: "ComponentGenerator gen" where
  "MockGenerator_finalizeImpl = print_uuids ''clientUUID''"

end
