(* ===== verification/Xpcf_GenLayout.thy ===== *)
theory Xpcf_GenLayout
  imports Xpcf_GenProto Xpcf_GenProxy Xpcf_GenServer Xpcf_GenMock
begin

text \<open>
  The layout of the C++ text: the generators of the proxy, the server and the mock component leave the indentation and
  the stack of blocks as they found them and open as many braces as they close, on every path.
\<close>

section \<open>Braces\<close>

definition braces :: "string \<Rightarrow> int" where
  "braces t = int (count_list t (CHR 0x7B)) - int (count_list t (CHR 0x7D))"

lemma braces_append [simp]: "braces (a @ b) = braces a + braces b"
  by (simp add: braces_def)

lemma braces_Nil [simp]: "braces [] = 0"
  by (simp add: braces_def)

lemma braces_Cons [simp]:
  "braces (c # t) = (if c = CHR 0x7B then 1 + braces t else if c = CHR 0x7D then braces t - 1 else braces t)"
  by (simp add: braces_def)

lemma braces_concat: "(\<And>t. t \<in> set ts \<Longrightarrow> braces t = 0) \<Longrightarrow> braces (concat ts) = 0"
  by (induction ts) auto

lemma braces_nl [simp]: "braces nl = 0"
  by (simp add: braces_def nl_def)

lemma count_list_map_other: "(\<And>x. f x = c \<longleftrightarrow> x = c) \<Longrightarrow> count_list (List.map f t) c = count_list t c"
  by (induction t) auto

lemma upper_brace: "(let n = of_char c :: nat in if 97 \<le> n \<and> n \<le> 122 then char_of (n - 32) else c) = d \<longleftrightarrow> c = d"
  if "d = CHR 0x7B \<or> d = CHR 0x7D"
  using that by (auto simp: Let_def char_of_eq_iff take_bit_eq_mod)


lemma lower_brace: "(let n = of_char c :: nat in if 65 \<le> n \<and> n \<le> 90 then char_of (n + 32) else c) = d \<longleftrightarrow> c = d"
  if "d = CHR 0x7B \<or> d = CHR 0x7D"
  using that by (auto simp: Let_def char_of_eq_iff take_bit_eq_mod)

lemma braces_upper [simp]: "braces (to_upper t) = braces t"
  unfolding braces_def to_upper_def using upper_brace by (subst (1 2) count_list_map_other) auto

lemma braces_lower [simp]: "braces (to_lower t) = braces t"
  unfolding braces_def to_lower_def using lower_brace by (subst (1 2) count_list_map_other) auto

lemma braces_text: "CHR 0x7B \<notin> set t \<Longrightarrow> CHR 0x7D \<notin> set t \<Longrightarrow> braces t = 0"
  by (simp add: braces_def)

lemma braces_indent [simp]: "braces (bm_indent b) = 0"
  by (auto simp: bm_indent_def intro!: braces_concat)

lemma braces_to_string [simp]: "braces (to_string i) = 0"
proof -
  have "digit_char d \<noteq> CHR 0x7B \<and> digit_char d \<noteq> CHR 0x7D" if "d < 10" for d
    using digit_char_eq [OF that, of "CHR 0x7B"] digit_char_eq [OF that, of "CHR 0x7D"] that by auto
  then have "CHR 0x7B \<notin> set (nat_text n) \<and> CHR 0x7D \<notin> set (nat_text n)" for n
    using nat_text_digits by metis
  then show ?thesis by (auto simp: to_string_def intro!: braces_text)
qed

section \<open>Interfaces without stray braces\<close>

text \<open>
  No name and no type of the interface has more braces of one kind than of the other, which holds of the names and types
  of C++ that these interfaces use.
\<close>

definition tidy_type :: "TypeDescriptor \<Rightarrow> bool" where
  "tidy_type d \<longleftrightarrow> braces (getFullTypeDescription d) = 0 \<and> braces (td_rpcType d) = 0"

definition tidy_parameter :: "ParameterDescriptor \<Rightarrow> bool" where
  "tidy_parameter p \<longleftrightarrow> braces (pd_name p) = 0 \<and> tidy_type (pd_type p)"

definition tidy_method :: "Cppast \<Rightarrow> MethodDescriptor \<Rightarrow> bool" where
  "tidy_method cp m \<longleftrightarrow>
     braces (MethodDescriptor_getDeclaration cp m) = 0 \<and> braces (MethodDescriptor_getReturnType m) = 0 \<and>
     braces (md_name m) = 0 \<and> braces (md_rpcName m) = 0 \<and> braces (md_requestName m) = 0 \<and>
     braces (md_responseName m) = 0 \<and> tidy_type (md_returnDescriptor m) \<and>
     list_all tidy_parameter (md_params m @ in_params m @ inout_params m @ out_params m)"

definition tidy_class :: "Cppast \<Rightarrow> ClassDescriptor \<Rightarrow> bool" where
  "tidy_class cp c \<longleftrightarrow>
     braces (cd_name c) = 0 \<and> list_all (tidy_method cp) (cd_virtualMethods c) \<and>
     list_all (\<lambda>k. case cd_metadata c k of None \<Rightarrow> True | Some v \<Rightarrow> braces v = 0)
       [INTERFACENAMESPACE, INTERFACEFILEPATH, REMOTINGNSPACE, GRPCSERVICENAME, GRPCPROTOFILENAME]"

definition tidy_names :: "GeneratorNames \<Rightarrow> bool" where
  "tidy_names n \<longleftrightarrow> braces (gn_nameSpace n) = 0 \<and> braces (gn_className n) = 0 \<and> braces (gn_headerFileName n) = 0 \<and>
     braces (gn_grpcClassName n) = 0"

definition tidy_members :: "(string \<times> (string \<times> bool)) list \<Rightarrow> bool" where
  "tidy_members ms \<longleftrightarrow> list_all (\<lambda>(k, t, b). braces k = 0 \<and> braces t = 0) ms"

section \<open>Programs that keep the layout\<close>

text \<open>The level of indentation, the stack of blocks and the braces still open, for tidy classes.\<close>

definition layout :: "Cppast \<Rightarrow> nat \<Rightarrow> CPP list \<Rightarrow> int \<Rightarrow> CodeGenerator \<Rightarrow> bool" where
  "layout cp level stack open_braces s \<longleftrightarrow>
     bm_indentLevel s = level \<and> bm_blockStack s = stack \<and> braces (bm_out s) = open_braces \<and>
     tidy_class cp (cg_class s) \<and> tidy_members (cg_proxyMembersVariables s)"

definition keeps_layout :: "Cppast \<Rightarrow> (CodeGenerator, exn, 'a) eff \<Rightarrow> bool" where
  "keeps_layout cp m \<longleftrightarrow> (\<forall>level stack n. preserves (layout cp level stack n) m)"

named_theorems layout_intros \<open>programs that keep the layout\<close>

lemma keeps_layoutI: "(\<And>s. case m s of (r, t) \<Rightarrow>
    bm_indentLevel t = bm_indentLevel s \<and> bm_blockStack t = bm_blockStack s \<and> braces (bm_out t) = braces (bm_out s) \<and>
    (tidy_class cp (cg_class s) \<longrightarrow> tidy_class cp (cg_class t)) \<and>
    (tidy_members (cg_proxyMembersVariables s) \<longrightarrow> tidy_members (cg_proxyMembersVariables t))) \<Longrightarrow> keeps_layout cp m"
  unfolding keeps_layout_def layout_def preserves_def by (fastforce split: prod.splits)

lemma keeps_write [layout_intros]: "braces t = 0 \<Longrightarrow> keeps_layout cp (bm_write t)"
  by (rule keeps_layoutI) (simp add: bm_write_def eff_simps)

lemma keeps_newline [layout_intros]: "keeps_layout cp newline"
  unfolding newline_def by (rule keeps_write) simp

lemma keeps_out [layout_intros]: "braces (concat ts) = 0 \<Longrightarrow> keeps_layout cp (out ts)"
  by (rule keeps_layoutI) (simp add: out_def bm_write_def eff_simps)

lemma keeps_return [layout_intros]: "keeps_layout cp (return_eff x)"
  by (rule keeps_layoutI) (simp add: eff_simps)

lemma keeps_seq [layout_intros]: "keeps_layout cp m \<Longrightarrow> keeps_layout cp k \<Longrightarrow> keeps_layout cp (seq_eff m k)"
  unfolding keeps_layout_def by (simp add: preserves_intros)

lemma keeps_bind: "keeps_layout cp m \<Longrightarrow> (\<And>x. keeps_layout cp (f x)) \<Longrightarrow> keeps_layout cp (bind_eff m f)"
  unfolding keeps_layout_def by (simp add: preserves_intros)

lemma keeps_for [layout_intros]: "(\<And>x. x \<in> set xs \<Longrightarrow> keeps_layout cp (f x)) \<Longrightarrow> keeps_layout cp (for_eff f xs)"
  by (induction xs) (auto intro: layout_intros)

lemma keeps_run_all [layout_intros]: "keeps_layout cp (run_all [])"
  "keeps_layout cp m \<Longrightarrow> keeps_layout cp (run_all ms) \<Longrightarrow> keeps_layout cp (run_all (m # ms))"
  by (auto simp: run_all_def intro: layout_intros)

lemma keeps_if [layout_intros]: "(b \<Longrightarrow> keeps_layout cp m) \<Longrightarrow> (\<not> b \<Longrightarrow> keeps_layout cp k) \<Longrightarrow> keeps_layout cp (if b then m else k)"
  by simp

lemma keeps_if_then [layout_intros]: "(b \<Longrightarrow> keeps_layout cp (run_all ms)) \<Longrightarrow> keeps_layout cp (if_then b ms)"
  unfolding if_then_def by (simp add: layout_intros)

lemma keeps_gets [layout_intros]:
  assumes "\<And>s. tidy_class cp (cg_class s) \<Longrightarrow> tidy_members (cg_proxyMembersVariables s) \<Longrightarrow> keeps_layout cp (f (g s))"
  shows "keeps_layout cp (bind_eff (gets_eff g) f)"
proof -
  have "preserves (layout cp level stack n) (bind_eff (gets_eff g) f)" for level stack n
  proof (rule preservesI)
    fix s assume s: "layout cp level stack n s"
    then have "keeps_layout cp (f (g s))" using assms unfolding layout_def by blast
    then have "preserves (layout cp level stack n) (f (g s))" unfolding keeps_layout_def by blast
    then show "layout cp level stack n (snd (bind_eff (gets_eff g) f s))"
      using preservesD [where P = "layout cp level stack n", OF _ s] by (simp add: eff_simps)
  qed
  then show ?thesis unfolding keeps_layout_def by blast
qed

lemma keeps_lift [layout_intros]:
  "(\<And>x. r = Inr x \<Longrightarrow> keeps_layout cp (f x)) \<Longrightarrow> keeps_layout cp (bind_eff (lift_eff r) f)"
  by (cases r) (auto simp: keeps_layout_def preserves_def eff_simps)

text \<open>A block is closed whatever happens in it: the guard finds on the stack what it pushed.\<close>

lemma braces_block: "braces cppBeginBlock = 1" "braces cppEndBlock = - 1" "braces classEndBlock = - 1"
  by (simp_all add: cppBeginBlock_def cppEndBlock_def classEndBlock_def)

lemma keeps_block [layout_intros]:
  assumes body: "keeps_layout cp m"
  shows "keeps_layout cp (block_guard t m)"
proof -
  have "preserves (layout cp level stack n) (block_guard t m)" for level stack n
  proof (rule preservesI)
    fix s assume s: "layout cp level stack n s"
    define s1 where "s1 = snd (enter t s)"
    define level1 where "level1 = (if t = NSPACE then level else Suc level)"
    define n1 where "n1 = (if t = PUBLIC \<or> t = PROTECTED \<or> t = PRIVATE then n else n + 1)"
    have s1: "enter t s = (Inr (), s1)" by (simp add: s1_def enter_def eff_simps)
    have "layout cp level1 (t # stack) n1 s1"
      using s by (cases t) (auto simp: s1_def enter_def eff_simps layout_def level1_def n1_def braces_block Let_def)
    moreover obtain r s2 where s2: "m s1 = (r, s2)" by (cases "m s1")
    ultimately have "layout cp level1 (t # stack) n1 s2"
      using body unfolding keeps_layout_def preserves_def by (metis snd_conv)
    then have "layout cp level stack n (snd (leave s2)) \<and> fst (leave s2) = Inr ()"
      by (cases t) (auto simp: leave_def layout_def level1_def n1_def braces_block Let_def)
    then show "layout cp level stack n (snd (block_guard t m s))"
      by (auto simp: block_guard_def eff_simps s1 s2 split: prod.splits sum.splits)
  qed
  then show ?thesis unfolding keeps_layout_def by blast
qed


section \<open>The state of the generators\<close>

lemma tidy_class_metadata: "tidy_class cp c \<Longrightarrow> cd_metadata c k = Some v \<Longrightarrow> braces v = 0"
  by (cases k) (auto simp: tidy_class_def)

lemma keeps_metadata_at [layout_intros]:
  assumes "\<And>v. braces v = 0 \<Longrightarrow> keeps_layout cp (f v)"
  shows "keeps_layout cp (metadata_at k f)"
  unfolding metadata_at_def
  by (intro layout_intros assms) (auto simp: at_key_def dest: tidy_class_metadata split: option.splits)

lemma keeps_out_with [layout_intros]:
  "(\<And>v. braces v = 0 \<Longrightarrow> braces (concat (f v)) = 0) \<Longrightarrow> keeps_layout cp (out_with k f)"
  unfolding out_with_def by (intro layout_intros) simp_all

lemma tidy_class_setMetadata: "tidy_class cp c \<Longrightarrow> braces v = 0 \<Longrightarrow> tidy_class cp (cd_setMetadata k v c)"
  by (auto simp: tidy_class_def cd_setMetadata_def cd_name_def)

lemma keeps_with_entry [layout_intros]:
  assumes "\<And>v. braces v = 0 \<Longrightarrow> keeps_layout cp (f v)"
  shows "keeps_layout cp (with_entry k f)"
proof -
  have "preserves (layout cp level stack n) (with_entry k f)" for level stack n
  proof (rule preservesI)
    fix s assume s: "layout cp level stack n s"
    obtain v c where vc: "metadata_entry k (cg_class s) = (v, c)" by (cases "metadata_entry k (cg_class s)")
    then have "braces v = 0 \<and> tidy_class cp c"
      using s tidy_class_metadata [of cp "cg_class s" k] tidy_class_setMetadata [of cp "cg_class s" "[]" k]
      by (auto simp: layout_def metadata_entry_def split: option.splits)
    with s assms [of v] show "layout cp level stack n (snd (with_entry k f s))"
      by (auto simp: with_entry_def eff_simps vc keeps_layout_def preserves_def layout_def)
  qed
  then show ?thesis unfolding keeps_layout_def by blast
qed

lemma keeps_base_interface [layout_intros]:
  "(\<And>b. braces b = 0 \<Longrightarrow> keeps_layout cp (f b)) \<Longrightarrow> keeps_layout cp (base_interface f)"
  unfolding base_interface_def by (intro layout_intros) (simp add: tidy_class_def)

lemma keeps_modify:
  assumes "\<And>s. bm_indentLevel (f s) = bm_indentLevel s \<and> bm_blockStack (f s) = bm_blockStack s \<and> bm_out (f s) = bm_out s"
    and "\<And>s. tidy_class cp (cg_class s) \<Longrightarrow> tidy_class cp (cg_class (f s))"
    and "\<And>s. tidy_members (cg_proxyMembersVariables s) \<Longrightarrow> tidy_members (cg_proxyMembersVariables (f s))"
  shows "keeps_layout cp (modify_eff f)"
  by (rule keeps_layoutI) (simp add: eff_simps assms)

lemma tidy_std_map_set:
  "tidy_members ms \<Longrightarrow> braces k = 0 \<Longrightarrow> braces t = 0 \<Longrightarrow> tidy_members (std_map_set k (t, b) ms)"
  by (induction k "(t, b)" ms rule: std_map_set.induct) (auto simp: tidy_members_def)

lemma keeps_note_member [layout_intros]: "braces (md_name m) = 0 \<Longrightarrow> braces t = 0 \<Longrightarrow> keeps_layout cp (note_member m t b)"
  unfolding note_member_def by (rule keeps_modify) (simp_all add: tidy_std_map_set)

lemma keeps_clear_members [layout_intros]: "keeps_layout cp clear_members"
  unfolding clear_members_def by (rule keeps_modify) (simp_all add: tidy_members_def)

lemma keeps_declare_members [layout_intros]: "keeps_layout cp declare_members"
  unfolding declare_members_def
  by (intro layout_intros) (auto simp: declare_member_def tidy_members_def list_all_iff intro!: layout_intros)

lemma keeps_class_uuid:
  assumes "setu = setClientUUID \<or> setu = setServerUUID" and "\<And>u. keeps_layout cp (f u)"
  shows "keeps_layout cp (bind_eff (class_uuid getu setu fresh uuid_text name) f)"
proof -
  have "tidy_class cp (setu u c) = tidy_class cp c" for u c
    using assms(1) by (auto simp: tidy_class_def setClientUUID_def setServerUUID_def cd_name_def)
  then show ?thesis
    unfolding class_uuid_def by (intro keeps_bind layout_intros keeps_modify assms(2)) simp_all
qed

lemma keeps_headers [layout_intros]:
  "braces name = 0 \<Longrightarrow> keeps_layout cp (includeGuardsStart name)"
  "keeps_layout cp includeGuardsEnd"
  "braces name = 0 \<Longrightarrow> keeps_layout cp (include_header name q)"
  unfolding includeGuardsStart_def includeGuardsEnd_def include_header_def by (intro layout_intros; simp)+

lemma tidy_parameters: "tidy_method cp m \<Longrightarrow>
    p \<in> set (md_params m) \<union> set (in_params m) \<union> set (inout_params m) \<union> set (out_params m) \<Longrightarrow> tidy_parameter p"
  by (auto simp: tidy_method_def list_all_iff)

lemma tidy_methods: "tidy_class cp c \<Longrightarrow> m \<in> set (cd_virtualMethods c) \<Longrightarrow> tidy_method cp m"
  by (auto simp: tidy_class_def list_all_iff)

lemmas tidy_simps = tidy_method_def tidy_parameter_def tidy_type_def tidy_names_def

section \<open>The proxy\<close>

lemma proxy_header_layout [layout_intros]:
  assumes "tidy_method cp m"
  shows "keeps_layout cp (ProxyGenerator_header_method cp m)"
  using assms unfolding ProxyGenerator_header_method_def
  by (intro layout_intros) (simp_all add: tidy_simps MethodDescriptor_getFullDeclaration_def)

lemma proxy_header_text_layout:
  assumes "tidy_names n" and "tidy_class cp c" and "\<And>u. braces (uuid_text u) = 0"
  shows "keeps_layout cp (ProxyGenerator_header_text cp n uuid_text u c)"
  using assms(1,3) unfolding ProxyGenerator_header_text_def ProxyGenerator_processHeaderMethods_def
  by (intro layout_intros tidy_methods [OF assms(2)]) (simp_all add: tidy_simps)


lemma proxy_bind_layout [layout_intros]:
  "tidy_parameter p \<Longrightarrow> keeps_layout cp (ProxyGenerator_bindInput p)"
  "tidy_parameter p \<Longrightarrow> keeps_layout cp (ProxyGenerator_bindOutput p)"
  unfolding ProxyGenerator_bindInput_def ProxyGenerator_bindOutput_def
  by (intro layout_intros; simp add: tidy_simps)+

lemma proxy_body_method_layout [layout_intros]:
  assumes "tidy_method cp m" and "tidy_names n"
  shows "keeps_layout cp (ProxyGenerator_body_method cp n m)"
  using assms(2) assms(1) unfolding ProxyGenerator_body_method_def ProxyGenerator_compression_def ProxyGenerator_inputs_def
    ProxyGenerator_call_def ProxyGenerator_outputs_def ProxyGenerator_result_def
  by (intro layout_intros tidy_parameters [OF assms(1)]) (simp_all add: tidy_simps)

lemma three_outs_layout: "braces (concat (a @ b @ c)) = 0 \<Longrightarrow> keeps_layout cp (if_then d [out a, out b, out c])"
  by (rule keeps_layoutI) (simp add: if_then_def run_all_def out_def bm_write_def eff_simps)

lemma translate_layout [layout_intros]:
  "keeps_layout cp (ProxyGenerator_translate c)" "keeps_layout cp (ServerGenerator_translate c)"
  unfolding ProxyGenerator_translate_def ServerGenerator_translate_def by (rule three_outs_layout; simp)+

lemma proxy_body_text_layout:
  assumes "tidy_names n" and "tidy_class cp c"
  shows "keeps_layout cp (ProxyGenerator_body_text cp n c)"
  using assms(1) unfolding ProxyGenerator_body_text_def ProxyGenerator_processBodyMethods_def
  by (intro layout_intros tidy_methods [OF assms(2)]) (simp_all add: tidy_simps)

section \<open>The server\<close>

lemma server_header_layout [layout_intros]:
  "tidy_method cp m \<Longrightarrow> keeps_layout cp (ServerGenerator_header_method m)"
  unfolding ServerGenerator_header_method_def by (intro layout_intros) (simp add: tidy_simps)

lemma server_header_text_layout:
  assumes "tidy_names n" and "tidy_class cp c" and "\<And>u. braces (uuid_text u) = 0"
  shows "keeps_layout cp (ServerGenerator_header_text n uuid_text u c)"
proof -
  have "braces (cd_name c) = 0" using assms(2) by (simp add: tidy_class_def)
  with assms(1,3) show ?thesis
    unfolding ServerGenerator_header_text_def ServerGenerator_processHeaderMethods_def
    by (intro layout_intros tidy_methods [OF assms(2)]) (simp_all add: tidy_simps)
qed

lemma method_call_braces: "tidy_method cp m \<Longrightarrow> braces (concat (method_call m)) = 0"
  by (auto simp: method_call_def tidy_simps list_all_iff split_def intro!: braces_concat)

lemma server_bind_layout [layout_intros]:
  "tidy_parameter p \<Longrightarrow> keeps_layout cp (ServerGenerator_bindInput p)"
  "tidy_parameter p \<Longrightarrow> keeps_layout cp (ServerGenerator_bindOutput p)"
  unfolding ServerGenerator_bindInput_def ServerGenerator_bindOutput_def
  by (intro layout_intros; simp add: tidy_simps request_transcription_def)+

lemma server_body_method_layout [layout_intros]:
  assumes "tidy_method cp m" and "tidy_names n"
  shows "keeps_layout cp (ServerGenerator_body_method n m)"
  using assms(2) assms(1) method_call_braces [OF assms(1)]
  unfolding ServerGenerator_body_method_def ServerGenerator_compression_def ServerGenerator_result_def
  by (intro layout_intros tidy_parameters [OF assms(1)]) (simp_all add: tidy_simps)

lemma server_body_text_layout:
  assumes "tidy_names n" and "tidy_class cp c"
  shows "keeps_layout cp (ServerGenerator_body_text n c)"
proof -
  have "braces (cd_name c) = 0" using assms(2) by (simp add: tidy_class_def)
  with assms(1) show ?thesis
    unfolding ServerGenerator_body_text_def ServerGenerator_processBodyMethods_def
    by (intro layout_intros tidy_methods [OF assms(2)]) (simp_all add: tidy_simps)
qed

section \<open>The mock component\<close>

lemma mock_header_layout [layout_intros]:
  assumes "tidy_method cp m"
  shows "keeps_layout cp (MockGenerator_header_method cp m)"
  using assms unfolding MockGenerator_header_method_def
  by (intro layout_intros) (simp_all add: tidy_simps MethodDescriptor_getFullDeclaration_def)

lemma mock_header_text_layout:
  assumes "tidy_names n" and "tidy_class cp c" and "\<And>u. braces (uuid_text u) = 0"
  shows "keeps_layout cp (MockGenerator_header_text cp n uuid_text u c)"
  using assms(1,3) unfolding MockGenerator_header_text_def MockGenerator_processHeaderMethods_def
  by (intro layout_intros tidy_methods [OF assms(2)]) (simp_all add: tidy_simps)

lemma mock_bind_layout [layout_intros]:
  "tidy_parameter p \<Longrightarrow> keeps_layout cp (MockGenerator_bindInput p)"
  "tidy_parameter p \<Longrightarrow> keeps_layout cp (MockGenerator_bindOutput p)"
  unfolding MockGenerator_bindInput_def MockGenerator_bindOutput_def
  by (intro layout_intros; simp add: tidy_simps)+

lemma mock_body_method_layout [layout_intros]:
  assumes "tidy_method cp m" and "tidy_names n"
  shows "keeps_layout cp (MockGenerator_body_method cp n m)"
  using assms(2) assms(1) unfolding MockGenerator_body_method_def MockGenerator_inputs_def
    MockGenerator_outputs_def MockGenerator_result_def
  by (intro layout_intros tidy_parameters [OF assms(1)]) (simp_all add: tidy_simps)

lemma mock_body_text_layout:
  assumes "tidy_names n" and "tidy_class cp c"
  shows "keeps_layout cp (MockGenerator_body_text cp n c)"
  using assms(1) unfolding MockGenerator_body_text_def MockGenerator_processBodyMethods_def
  by (intro layout_intros tidy_methods [OF assms(2)]) (simp_all add: tidy_simps)


section \<open>Every generator\<close>

text \<open>
  Property C38. The generators of the proxy, the server and the mock component write properly nested C++ text, on every
  path, the throwing ones included: the header and the body of each leave the level of indentation and the stack of
  blocks as they found them, and have opened as many braces as they have closed, for an interface whose names and types
  have no stray brace.
\<close>

theorem generators_keep_layout:
  assumes "tidy_class cp (cg_class s)" and "tidy_members (cg_proxyMembersVariables s)" and "tidy_names n"
    and "\<And>u. braces (uuid_text u) = 0"
  shows "list_all (\<lambda>m. case m s of (r, t) \<Rightarrow> bm_indentLevel t = bm_indentLevel s \<and> bm_blockStack t = bm_blockStack s \<and>
      braces (bm_out t) = braces (bm_out s))
    [ProxyGenerator_generateHeader cp n fresh uuid_text, ProxyGenerator_generateBody cp n,
     ServerGenerator_generateHeader n fresh uuid_text, ServerGenerator_generateBody n,
     MockGenerator_generateHeader cp n fresh uuid_text, MockGenerator_generateBody cp n]"
proof -
  have kept: "case m s of (r, t) \<Rightarrow> bm_indentLevel t = bm_indentLevel s \<and> bm_blockStack t = bm_blockStack s \<and>
      braces (bm_out t) = braces (bm_out s)" if "keeps_layout cp m" for m :: "CodeGenerator gen"
  proof -
    have "layout cp (bm_indentLevel s) (bm_blockStack s) (braces (bm_out s)) s" using assms(1,2) by (simp add: layout_def)
    then have "layout cp (bm_indentLevel s) (bm_blockStack s) (braces (bm_out s)) (snd (m s))"
      using that unfolding keeps_layout_def preserves_def by blast
    then show ?thesis by (auto simp: layout_def split: prod.splits)
  qed
  note texts = proxy_header_text_layout proxy_body_text_layout server_header_text_layout server_body_text_layout
    mock_header_text_layout mock_body_text_layout
  show ?thesis
    unfolding list.pred_inject ProxyGenerator_generateHeader_def ProxyGenerator_generateBody_def
      ServerGenerator_generateHeader_def ServerGenerator_generateBody_def MockGenerator_generateHeader_def
      MockGenerator_generateBody_def
    by (intro conjI TrueI kept keeps_class_uuid layout_intros texts assms(3,4)) simp_all
qed

text \<open>The interface with two methods of one name, with the names the \<open>.proto\<close> generator gives.\<close>

definition sample_described :: ClassDescriptor where
  "sample_described = cd_setMetadata REMOTINGNSPACE ''grpcIShape'' (cd_setMetadata GRPCSERVICENAME ''grpcIShapeService''
     (GRPCProtoGenerator_prepareMessages (case sample_parsed of Inr (_, c) \<Rightarrow> c | Inl _ \<Rightarrow> ClassDescriptor_init sample_shape '''' '''')))"

definition sample_text_state :: CodeGenerator where
  "sample_text_state = \<lparr>bm_indentLevel = 0, bm_out = '''', bm_blockStack = [], cg_class = sample_described,
     cg_serviceUuidMap = [], cg_proxyMembersVariables = []\<rparr>"

definition sample_names :: GeneratorNames where
  "sample_names = ProxyGenerator_names ''grpcIShapeService'' ''IShape''"

theorem generators_keep_layout_witness:
  "bm_indentLevel (snd (ProxyGenerator_generateBody sample_cppast sample_names sample_text_state)) = 0 \<and>
   braces (bm_out (snd (ProxyGenerator_generateBody sample_cppast sample_names sample_text_state))) = 0"
proof -
  have "case Some sample_described of Some c \<Rightarrow> tidy_class sample_cppast c" by code_simp
  then have tidy: "tidy_class sample_cppast sample_described" by simp
  have names: "tidy_names sample_names" by code_simp
  have start: "cg_class sample_text_state = sample_described" "cg_proxyMembersVariables sample_text_state = []"
    "bm_indentLevel sample_text_state = 0" "bm_out sample_text_state = ''''"
    by (simp_all add: sample_text_state_def)
  have "tidy_class sample_cppast (cg_class sample_text_state)" using tidy start(1) by simp
  moreover have "tidy_members (cg_proxyMembersVariables sample_text_state)" using start(2) by (simp add: tidy_members_def)
  ultimately show ?thesis
    using generators_keep_layout [of sample_cppast sample_text_state sample_names "\<lambda>_. ''uuid''" 1] names start(3,4)
    by (auto split: prod.splits)
qed

end
