(* ===== verification/Xpcf_GenAgreement.thy ===== *)
theory Xpcf_GenAgreement
  imports Xpcf_GenLayout "HOL-Library.Sublist"
begin

text \<open>
  The two sides of a remote call agree: the text generated for a method of the proxy fills in the fields of the request
  that the text generated for the server reads, and reads the fields of the response the server fills in.
\<close>

section \<open>The fields a text accesses\<close>

definition identifier_char :: "char \<Rightarrow> bool" where
  "identifier_char c \<longleftrightarrow> (let n = of_char c :: nat in 48 \<le> n \<and> n \<le> 57 \<or> 65 \<le> n \<and> n \<le> 90 \<or> n = 95 \<or> 97 \<le> n \<and> n \<le> 122)"

fun strip_prefix :: "string \<Rightarrow> string \<Rightarrow> string option" where
  "strip_prefix [] t = Some t"
| "strip_prefix (p # ps) [] = None"
| "strip_prefix (p # ps) (c # cs) = (if c = p then strip_prefix ps cs else None)"

text \<open>The identifiers that come right after an occurrence of \<open>pat\<close>.\<close>

fun accessed :: "string \<Rightarrow> string \<Rightarrow> string list" where
  "accessed pat [] = []"
| "accessed pat (c # cs) =
     (case strip_prefix pat (c # cs) of Some r \<Rightarrow> [takeWhile identifier_char r] | None \<Rightarrow> []) @ accessed pat cs"

text \<open>The ways the generated text reaches a field, and the texts that cannot hide one: names and types.\<close>

definition access_char :: "char \<Rightarrow> bool" where
  "access_char c \<longleftrightarrow> c = CHR ''.'' \<or> c = CHR ''-''"

definition access_pattern :: "string \<Rightarrow> bool" where
  "access_pattern pat \<longleftrightarrow> (\<exists>k d r. pat = k @ d # r \<and> k \<noteq> [] \<and> list_all identifier_char k \<and> access_char d)"

definition plain :: "string \<Rightarrow> bool" where
  "plain t \<longleftrightarrow> list_all (\<lambda>c. \<not> access_char c) t"

definition opens :: "string \<Rightarrow> bool" where
  "opens t \<longleftrightarrow> (case t of [] \<Rightarrow> True | c # _ \<Rightarrow> \<not> identifier_char c \<and> \<not> access_char c)"

text \<open>Evaluation of \<open>accessed\<close> on a text goes from left to right and leaves the rest of the text alone.\<close>

lemma text_cong:
  "accessed pat t = accessed pat t" "strip_prefix pat t = strip_prefix pat t"
  "takeWhile identifier_char t = takeWhile identifier_char t"
  by (rule refl)+

lemma plain_simps [simp]:
  "plain []" "plain (c # t) \<longleftrightarrow> \<not> access_char c \<and> plain t" "plain (a @ b) \<longleftrightarrow> plain a \<and> plain b"
  by (auto simp: plain_def)

lemma opens_simps [simp]: "opens []" "opens (c # t) \<longleftrightarrow> \<not> identifier_char c \<and> \<not> access_char c"
  by (simp_all add: opens_def)

lemma strip_pattern_None:
  assumes "list_all identifier_char k" and "access_char d" and "plain x" and "opens rest" and "k = [] \<longrightarrow> x \<noteq> [] \<or> True"
  shows "strip_prefix (k @ d # r) (x @ rest) = None"
  using assms
proof (induction k arbitrary: x)
  case Nil
  then show ?case by (cases x; cases rest) auto
next
  case (Cons p k)
  then show ?case by (cases x; cases rest) auto
qed

lemma accessed_skip [simp]:
  assumes "access_pattern pat" and "plain x" and "opens rest"
  shows "accessed pat (x @ rest) = accessed pat rest"
proof -
  obtain k d r where pat: "pat = k @ d # r" "list_all identifier_char k" "access_char d"
    using assms(1) by (auto simp: access_pattern_def)
  show ?thesis
    using assms(2)
  proof (induction x)
    case (Cons c x)
    then have "strip_prefix pat ((c # x) @ rest) = None"
      unfolding pat(1) by (intro strip_pattern_None pat assms(3)) simp_all
    with Cons show ?case by simp
  qed simp
qed

lemma accessed_plain [simp]: "access_pattern pat \<Longrightarrow> plain x \<Longrightarrow> accessed pat x = []"
  using accessed_skip [of pat x "[]"] by simp

text \<open>Texts that can be put one after the other: no occurrence begins in one and ends in the next.\<close>

definition sealed :: "string \<Rightarrow> bool" where
  "sealed t \<longleftrightarrow> t = [] \<or> last t = CHR 0x0A \<or> last t = CHR '')''"

definition sealing :: "string \<Rightarrow> bool" where
  "sealing pat \<longleftrightarrow> pat \<noteq> [] \<and> CHR 0x0A \<notin> set pat \<and> CHR '')'' \<notin> set pat"

lemma identifier_chars [simp]: "\<not> identifier_char (CHR 0x0A)" "\<not> identifier_char (CHR '')'')"
  by (simp_all add: identifier_char_def)

lemma strip_prefix_sealed:
  assumes "CHR 0x0A \<notin> set p \<and> CHR '')'' \<notin> set p" and "sealed a" and "a \<noteq> []"
  shows "strip_prefix p (a @ b) = map_option (\<lambda>r. r @ b) (strip_prefix p a) \<and>
    (\<forall>r. strip_prefix p a = Some r \<longrightarrow> r \<noteq> [] \<and> sealed r)"
  using assms
proof (induction p arbitrary: a)
  case (Cons q p)
  then obtain c a' where a: "a = c # a'" by (cases a) auto
  show ?case
  proof (cases "c = q")
    case True
    with Cons.prems a have "a' \<noteq> []" "sealed a'" by (auto simp: sealed_def split: if_splits)
    with Cons.IH [of a'] Cons.prems(1) True a show ?thesis by simp
  qed (use a in simp)
qed simp

lemma takeWhile_sealed: "sealed r \<Longrightarrow> r \<noteq> [] \<Longrightarrow> takeWhile identifier_char (r @ b) = takeWhile identifier_char r"
  by (metis identifier_chars last_in_set sealed_def takeWhile_append1)

lemma sealed_tl: "sealed (c # a) \<Longrightarrow> sealed a"
  by (auto simp: sealed_def split: if_splits)

lemma accessed_append:
  assumes "sealing pat" and "sealed a"
  shows "accessed pat (a @ b) = accessed pat a @ accessed pat b"
  using assms(2)
proof (induction a)
  case (Cons c a)
  have "strip_prefix pat ((c # a) @ b) = map_option (\<lambda>r. r @ b) (strip_prefix pat (c # a)) \<and>
      (\<forall>r. strip_prefix pat (c # a) = Some r \<longrightarrow> r \<noteq> [] \<and> sealed r)"
    using assms(1) Cons.prems by (intro strip_prefix_sealed) (auto simp: sealing_def)
  with Cons.IH [OF sealed_tl [OF Cons.prems]] show ?case
    by (auto simp: takeWhile_sealed split: option.splits)
qed simp


section \<open>Programs and what their text accesses\<close>

text \<open>The program ends, leaves the stack of blocks, and appends a text that accesses the fields \<open>fs\<close>.\<close>

definition accesses :: "string \<Rightarrow> CodeGenerator gen \<Rightarrow> string list \<Rightarrow> bool" where
  "accesses pat m fs \<longleftrightarrow> (\<forall>s. \<exists>t u. m s = (Inr (), t) \<and> bm_blockStack t = bm_blockStack s \<and>
     bm_out t = bm_out s @ u \<and> sealed u \<and> accessed pat u = fs)"

text \<open>The patterns of the two sides.\<close>

definition field_pattern :: "string \<Rightarrow> bool" where
  "field_pattern pat \<longleftrightarrow> pat \<in> {''reqIn.set_'', ''respOut.'', ''request->'', ''response->set_''}"

lemma access_patternI:
  "k \<noteq> [] \<Longrightarrow> list_all identifier_char k \<Longrightarrow> access_char d \<Longrightarrow> access_pattern (k @ d # r)"
  by (auto simp: access_pattern_def)

lemma field_pattern_access:
  assumes "field_pattern pat"
  shows "access_pattern pat"
proof -
  have "access_pattern (''reqIn'' @ CHR ''.'' # ''set_'')" "access_pattern (''respOut'' @ CHR ''.'' # [])"
    "access_pattern (''request'' @ CHR ''-'' # ''>'')" "access_pattern (''response'' @ CHR ''-'' # ''>set_'')"
    by (rule access_patternI; simp add: identifier_char_def access_char_def)+
  with assms show ?thesis by (auto simp: field_pattern_def)
qed

lemma field_pattern_sealing: "field_pattern pat \<Longrightarrow> sealing pat"
  by (auto simp: field_pattern_def sealing_def)

lemma sealed_append: "sealed a \<Longrightarrow> sealed b \<Longrightarrow> sealed (a @ b)"
  by (cases "b = []") (auto simp: sealed_def)

lemma sealed_end: "b \<noteq> [] \<Longrightarrow> sealed b \<Longrightarrow> sealed (a @ b)"
  by (auto simp: sealed_def)

named_theorems access_intros \<open>what the text of a program accesses\<close>

lemma accesses_return [access_intros]: "accesses pat (return_eff ()) []"
  by (auto simp: accesses_def eff_simps sealed_def)

lemma accesses_seq:
  assumes "field_pattern pat" and "accesses pat m a" and "accesses pat k b"
  shows "accesses pat (seq_eff m k) (a @ b)"
  unfolding accesses_def
proof
  fix s
  obtain t u where 1: "m s = (Inr (), t)" "bm_blockStack t = bm_blockStack s" "bm_out t = bm_out s @ u" "sealed u"
    "accessed pat u = a" using assms(2) unfolding accesses_def by blast
  obtain t' u' where 2: "k t = (Inr (), t')" "bm_blockStack t' = bm_blockStack t" "bm_out t' = bm_out t @ u'" "sealed u'"
    "accessed pat u' = b" using assms(3) unfolding accesses_def by blast
  show "\<exists>t u. seq_eff m k s = (Inr (), t) \<and> bm_blockStack t = bm_blockStack s \<and> bm_out t = bm_out s @ u \<and> sealed u \<and>
      accessed pat u = a @ b"
    using 1 2 sealed_append [OF 1(4) 2(4)] accessed_append [OF field_pattern_sealing [OF assms(1)] 1(4), of u']
    by (intro exI [of _ t'] exI [of _ "u @ u'"]) (simp add: eff_simps)
qed

lemma accesses_run_all [access_intros]:
  "accesses pat (run_all []) []"
  "field_pattern pat \<Longrightarrow> accesses pat m a \<Longrightarrow> accesses pat (run_all ms) b \<Longrightarrow> accesses pat (run_all (m # ms)) (a @ b)"
  by (simp_all add: run_all_def accesses_return accesses_seq)

lemma accesses_for [access_intros]:
  assumes "field_pattern pat" and "\<And>x. x \<in> set xs \<Longrightarrow> accesses pat (f x) (g x)"
  shows "accesses pat (for_eff f xs) (concat (List.map g xs))"
  using assms(2) by (induction xs) (simp_all add: accesses_return accesses_seq assms(1))

lemma accesses_if [access_intros]:
  "(c \<Longrightarrow> accesses pat m a) \<Longrightarrow> (\<not> c \<Longrightarrow> accesses pat k b) \<Longrightarrow> accesses pat (if c then m else k) (if c then a else b)"
  by simp

lemma accesses_if_then [access_intros]:
  "(c \<Longrightarrow> accesses pat (run_all ms) a) \<Longrightarrow> accesses pat (if_then c ms) (if c then a else [])"
  by (simp add: if_then_def accesses_return)

lemma plain_indent: "plain (bm_indent b)"
  by (auto simp: bm_indent_def plain_def access_char_def list_all_iff)

lemma opens_nonempty: "c \<noteq> [] \<Longrightarrow> opens (c @ r) = opens c"
  by (cases c) auto

text \<open>The indentation accesses nothing, and no identifier runs into it.\<close>

lemma accessed_indent: "access_pattern pat \<Longrightarrow> accessed pat (bm_indent b @ t) = accessed pat t"
proof -
  assume pat: "access_pattern pat"
  have "accessed pat (concat (replicate n ''  '') @ t) = accessed pat t" for n
  proof (induction n)
    case (Suc n)
    have *: "strip_prefix pat (CHR '' '' # r) = None" for r
    proof -
      obtain k d q where p: "pat = k @ d # q" "k \<noteq> []" "list_all identifier_char k" using pat by (auto simp: access_pattern_def)
      have "\<not> identifier_char (CHR '' '')" by (simp add: identifier_char_def)
      with p show ?thesis by (cases k) auto
    qed
    with Suc show ?case by simp
  qed simp
  then show ?thesis by (simp add: bm_indent_def)
qed

lemma accesses_out [access_intros]:
  assumes "field_pattern pat" and "concat ts \<noteq> [] \<and> sealed (concat ts)"
  shows "accesses pat (out ts) (accessed pat (concat ts))"
  using assms accessed_indent [OF field_pattern_access [OF assms(1)]]
  by (auto simp: accesses_def out_def bm_write_def eff_simps intro: sealed_end)

lemma accesses_newline [access_intros]: "field_pattern pat \<Longrightarrow> accesses pat newline []"
  using accessed_plain [OF field_pattern_access, of pat nl]
  by (auto simp: accesses_def newline_def bm_write_def eff_simps sealed_def nl_def access_char_def)

lemma accesses_cong: "accesses pat m a \<Longrightarrow> a = b \<Longrightarrow> accesses pat m b"
  by simp


lemma plain_blocks: "plain cppBeginBlock" "plain cppEndBlock" "sealed (a @ cppBeginBlock)" "sealed (a @ cppEndBlock)"
  by (simp_all add: cppBeginBlock_def cppEndBlock_def nl_def access_char_def sealed_def)

lemma accesses_block [access_intros]:
  assumes pat: "field_pattern pat" and m: "accesses pat m fs"
  shows "accesses pat (block_guard STD m) fs"
  unfolding accesses_def
proof
  fix s :: CodeGenerator
  define s1 where "s1 = snd (enter STD s)"
  have s1: "enter STD s = (Inr (), s1)" by (simp add: s1_def enter_def eff_simps)
  define b where "b = bm_indent s @ cppBeginBlock"
  have "bm_indent (s\<lparr>bm_blockStack := STD # bm_blockStack s\<rparr>) = bm_indent s" by (simp add: bm_indent_def)
  then have s1': "bm_blockStack s1 = STD # bm_blockStack s" "bm_out s1 = bm_out s @ b"
    by (simp_all add: s1_def enter_def eff_simps Let_def b_def)
  obtain t u where t: "m s1 = (Inr (), t)" "bm_blockStack t = bm_blockStack s1" "bm_out t = bm_out s1 @ u" "sealed u"
    "accessed pat u = fs" using m unfolding accesses_def by blast
  define i where "i = (if bm_indentLevel t > 0
    then t\<lparr>bm_blockStack := bm_blockStack s, bm_indentLevel := bm_indentLevel t - 1\<rparr> else t\<lparr>bm_blockStack := bm_blockStack s\<rparr>)"
  define t' where "t' = i\<lparr>bm_out := bm_out i @ bm_indent i @ cppEndBlock\<rparr>"
  have t': "leave t = (Inr (), t')" "bm_blockStack t' = bm_blockStack s" "bm_out t' = bm_out t @ bm_indent i @ cppEndBlock"
    using t(2) s1'(1) by (simp_all add: leave_def Let_def t'_def i_def)
  define e where "e = bm_indent i @ cppEndBlock"
  have "plain b" "plain e" "sealed b" "sealed e" by (simp_all add: b_def e_def plain_blocks plain_indent)
  moreover from this have "accessed pat (b @ u @ e) = fs"
    using t(4,5) accessed_append [OF field_pattern_sealing [OF pat]] accessed_plain [OF field_pattern_access [OF pat]] by simp
  moreover have "sealed (b @ u @ e)" using calculation t(4) by (intro sealed_append)
  ultimately show "\<exists>t u. block_guard STD m s = (Inr (), t) \<and> bm_blockStack t = bm_blockStack s \<and> bm_out t = bm_out s @ u \<and>
      sealed u \<and> accessed pat u = fs"
    using t t' s1 s1' by (intro exI [of _ t'] exI [of _ "b @ u @ e"]) (simp add: block_guard_def eff_simps e_def)
qed

text \<open>A declaration is written in three parts.\<close>

lemma accesses_declaration:
  assumes pat: "field_pattern pat" and a: "plain (concat a)" and b: "plain (concat b)" and rest: "accesses pat (run_all ms) fs"
  shows "accesses pat (run_all (out a # if_then c [out b] # out [nl] # ms)) fs"
  unfolding accesses_def
proof
  fix s :: CodeGenerator
  define d where "d = bm_indent s @ concat a @ (if c then bm_indent s @ concat b else []) @ bm_indent s @ nl"
  have "bm_indent (s\<lparr>bm_out := x\<rparr>) = bm_indent s" for x by (simp add: bm_indent_def)
  then have run: "run_all (out a # if_then c [out b] # out [nl] # ms) s = run_all ms (s\<lparr>bm_out := bm_out s @ d\<rparr>)"
    by (simp add: run_all_def if_then_def out_def bm_write_def eff_simps d_def)
  obtain t u where t: "run_all ms (s\<lparr>bm_out := bm_out s @ d\<rparr>) = (Inr (), t)" "bm_blockStack t = bm_blockStack s"
    "bm_out t = (bm_out s @ d) @ u" "sealed u" "accessed pat u = fs"
    using rest unfolding accesses_def by (metis (no_types, lifting) CppBlockManager.select_convs(2,3) CppBlockManager.surjective
        CppBlockManager.update_convs(2))
  have "plain d" using a b by (simp add: d_def plain_indent nl_def access_char_def)
  moreover have d: "sealed d" by (simp add: d_def nl_def sealed_def)
  ultimately have "accessed pat (d @ u) = fs"
    using t(5) accessed_append [OF field_pattern_sealing [OF pat]] accessed_plain [OF field_pattern_access [OF pat]] by simp
  with t sealed_append [OF d t(4)] show "\<exists>t u. run_all (out a # if_then c [out b] # out [nl] # ms) s = (Inr (), t) \<and>
      bm_blockStack t = bm_blockStack s \<and> bm_out t = bm_out s @ u \<and> sealed u \<and> accessed pat u = fs"
    by (intro exI [of _ t] exI [of _ "d @ u"]) (simp add: run)
qed

section \<open>Interfaces with plain names\<close>

text \<open>Parameters are named by identifiers, no other name or type of the method has a dot or a minus sign,
  and the variable made for the method does not end in the name of the response.\<close>

definition identifier_text :: "string \<Rightarrow> bool" where
  "identifier_text t \<longleftrightarrow> list_all identifier_char t"

definition plain_type :: "TypeDescriptor \<Rightarrow> bool" where
  "plain_type d \<longleftrightarrow> plain (getFullTypeDescription d) \<and> plain (td_rpcType d)"

definition plain_method :: "Cppast \<Rightarrow> MethodDescriptor \<Rightarrow> bool" where
  "plain_method cp m \<longleftrightarrow>
     plain (MethodDescriptor_getDeclaration cp m) \<and> plain (MethodDescriptor_getReturnType m) \<and> plain (md_name m) \<and>
     \<not> Sublist.suffix ''respOut'' (md_name m) \<and>
     plain (md_rpcName m) \<and> plain (md_requestName m) \<and> plain (md_responseName m) \<and> plain_type (md_returnDescriptor m) \<and>
     list_all (\<lambda>p. identifier_text (pd_name p) \<and> plain_type (pd_type p)) (md_params m)"

definition plain_names :: "GeneratorNames \<Rightarrow> bool" where
  "plain_names n \<longleftrightarrow> plain (gn_className n) \<and> plain (gn_grpcClassName n)"

lemma identifier_plain: "identifier_text t \<Longrightarrow> plain t"
  by (auto simp: identifier_text_def plain_def list_all_iff identifier_char_def access_char_def)

lemma identifier_lower: "identifier_text t \<Longrightarrow> identifier_text (to_lower t)"
  by (auto simp: identifier_text_def list_all_iff to_lower_def identifier_char_def Let_def take_bit_eq_mod)

lemma takeWhile_identifier:
  "identifier_text t \<Longrightarrow> \<not> identifier_char c \<Longrightarrow> takeWhile identifier_char (t @ c # r) = t"
  by (auto simp: identifier_text_def list_all_iff intro: takeWhile_append2 [THEN trans])

lemmas read_text = access_char_def identifier_char_def takeWhile_identifier nl_def sealed_def

section \<open>The fields of the parameters\<close>

abbreviation field :: "ParameterDescriptor \<Rightarrow> string" where
  "field p \<equiv> to_lower (pd_name p)"

text \<open>What a proxy sends and receives, and what a server receives and sends.\<close>

definition sent :: "ParameterDescriptor \<Rightarrow> bool" where
  "sent p \<longleftrightarrow> td_kind (pd_type p) \<noteq> array_t"

definition received :: "ParameterDescriptor \<Rightarrow> bool" where
  "received p \<longleftrightarrow> td_kind (pd_type p) \<noteq> array_t \<and> td_kind (pd_type p) \<noteq> c_string_t"

lemma other_kind:
  "k \<noteq> user_defined_t \<Longrightarrow> k \<noteq> template_t \<Longrightarrow> k \<noteq> builtin_t \<Longrightarrow> k \<noteq> enum_t \<Longrightarrow> k \<noteq> std_string_t \<Longrightarrow>
   k \<noteq> c_string_t \<Longrightarrow> k = array_t"
  by (cases k) simp_all

definition plain_parameter :: "ParameterDescriptor \<Rightarrow> bool" where
  "plain_parameter p \<longleftrightarrow> identifier_text (pd_name p) \<and> plain_type (pd_type p)"

lemma plain_parameterD:
  assumes "plain_parameter p"
  shows "plain (pd_name p)" "plain (field p)" "identifier_text (field p)" "plain (getFullTypeDescription (pd_type p))"
    "plain (td_rpcType (pd_type p))"
  using assms identifier_plain identifier_lower by (auto simp: plain_parameter_def plain_type_def)

lemma field_patterns:
  "field_pattern ''reqIn.set_''" "field_pattern ''respOut.''" "field_pattern ''request->''" "field_pattern ''response->set_''"
  by (simp_all add: field_pattern_def)

lemmas pattern_access [simp] = field_patterns [THEN field_pattern_access]

lemma proxy_input_sent [access_intros]:
  assumes "plain_parameter p"
  shows "accesses ''reqIn.set_'' (ProxyGenerator_bindInput p) (if sent p then [field p] else [])"
  unfolding ProxyGenerator_bindInput_def
  by (rule accesses_cong, (rule access_intros field_patterns | (simp add: nl_def sealed_def del: accessed.simps; fail))+,
      (simp only: concat.simps append.simps append_assoc append_Nil2 nl_def)?,
      (auto simp: read_text sent_def plain_parameterD [OF assms] dest: other_kind cong: text_cong)?)

lemma proxy_input_received [access_intros]:
  assumes "plain_parameter p"
  shows "accesses ''respOut.'' (ProxyGenerator_bindInput p) []"
  unfolding ProxyGenerator_bindInput_def
  by (rule accesses_cong, (rule access_intros field_patterns | (simp add: nl_def sealed_def del: accessed.simps; fail))+,
      (simp only: concat.simps append.simps append_assoc append_Nil2 nl_def)?,
      (auto simp: read_text plain_parameterD [OF assms] dest: other_kind cong: text_cong)?)

lemma proxy_output_sent [access_intros]:
  assumes "plain_parameter p"
  shows "accesses ''reqIn.set_'' (ProxyGenerator_bindOutput p) []"
  unfolding ProxyGenerator_bindOutput_def
  by (rule accesses_cong, (rule access_intros field_patterns | (simp add: nl_def sealed_def del: accessed.simps; fail))+,
      (simp only: concat.simps append.simps append_assoc append_Nil2 nl_def)?,
      (auto simp: read_text plain_parameterD [OF assms] dest: other_kind cong: text_cong)?)

lemma proxy_output_received [access_intros]:
  assumes "plain_parameter p"
  shows "accesses ''respOut.'' (ProxyGenerator_bindOutput p) (if received p then [field p] else [])"
  unfolding ProxyGenerator_bindOutput_def
  by (rule accesses_cong, (rule access_intros field_patterns | (simp add: nl_def sealed_def del: accessed.simps; fail))+,
      (simp only: concat.simps append.simps append_assoc append_Nil2 nl_def)?,
      (auto simp: read_text received_def plain_parameterD [OF assms] dest: other_kind cong: text_cong)?)

lemma server_input_read [access_intros]:
  assumes "plain_parameter p"
  shows "accesses ''request->'' (ServerGenerator_bindInput p) (if pd_ioType p = io_in \<or> pd_ioType p = io_inout then [field p] else [])"
  unfolding ServerGenerator_bindInput_def request_transcription_def
  by (rule accesses_cong, (rule access_intros field_patterns | (simp add: nl_def sealed_def del: accessed.simps; fail))+,
      (simp only: concat.simps append.simps append_assoc append_Nil2 nl_def)?,
      (auto simp: read_text plain_parameterD [OF assms] dest: other_kind)?)

lemma server_input_written [access_intros]:
  assumes "plain_parameter p"
  shows "accesses ''response->set_'' (ServerGenerator_bindInput p) []"
  unfolding ServerGenerator_bindInput_def request_transcription_def
  by (rule accesses_cong, (rule access_intros field_patterns | (simp add: nl_def sealed_def del: accessed.simps; fail))+,
      (simp only: concat.simps append.simps append_assoc append_Nil2 nl_def)?,
      (auto simp: read_text plain_parameterD [OF assms] dest: other_kind)?)

lemma server_output_read [access_intros]:
  assumes "plain_parameter p"
  shows "accesses ''request->'' (ServerGenerator_bindOutput p) []"
  unfolding ServerGenerator_bindOutput_def
  by (rule accesses_cong, (rule access_intros field_patterns | (simp add: nl_def sealed_def del: accessed.simps; fail))+,
      (simp only: concat.simps append.simps append_assoc append_Nil2 nl_def)?,
      (auto simp: read_text plain_parameterD [OF assms] dest: other_kind cong: text_cong)?)

lemma server_output_written [access_intros]:
  assumes "plain_parameter p"
  shows "accesses ''response->set_'' (ServerGenerator_bindOutput p)
    (if (pd_ioType p = io_inout \<or> pd_ioType p = io_out) \<and> received p then [field p] else [])"
  unfolding ServerGenerator_bindOutput_def
  by (rule accesses_cong, (rule access_intros field_patterns | (simp add: nl_def sealed_def del: accessed.simps; fail))+,
      (simp only: concat.simps append.simps append_assoc append_Nil2 nl_def)?,
      (auto simp: read_text received_def plain_parameterD [OF assms] dest: other_kind cong: text_cong)?)

section \<open>The fields of a method\<close>

lemma strip_at_access:
  assumes "list_all identifier_char k" and "access_char d" and "plain x"
  shows "strip_prefix (k @ d # q) (x @ d # r) = (if x = k then strip_prefix q r else None)"
  using assms
proof (induction k arbitrary: x)
  case Nil
  then show ?case by (cases x) auto
next
  case (Cons p k)
  then show ?case by (cases x) (auto simp: identifier_char_def access_char_def)
qed

lemma accessed_at_access:
  assumes "list_all identifier_char k" and "access_char d" and "plain x" and "Sublist.suffix k x \<longrightarrow> strip_prefix q r = None"
  shows "accessed (k @ d # q) (x @ d # r) = accessed (k @ d # q) (d # r)"
  using assms(3,4)
proof (induction x)
  case (Cons c x)
  have "strip_prefix (k @ d # q) ((c # x) @ d # r) = None"
    using strip_at_access [OF assms(1,2) Cons.prems(1)] Cons.prems(2) by auto
  with Cons show ?case by (simp add: suffix_Cons)
qed simp

lemma accessed_member [simp]:
  "plain x \<Longrightarrow> \<not> Sublist.suffix ''respOut'' x \<Longrightarrow> accessed ''respOut.'' (x @ CHR ''.'' # r) = accessed ''respOut.'' (CHR ''.'' # r)"
  "plain x \<Longrightarrow> strip_prefix ''set_'' r = None \<Longrightarrow> accessed ''reqIn.set_'' (x @ CHR ''.'' # r) = accessed ''reqIn.set_'' (CHR ''.'' # r)"
  using accessed_at_access [of "''respOut''" "CHR ''.''" x "[]" r] accessed_at_access [of "''reqIn''" "CHR ''.''" x "''set_''" r]
  by (simp_all add: access_char_def identifier_char_def)

lemma plain_methodD:
  assumes "plain_method cp m"
  shows "plain (MethodDescriptor_getDeclaration cp m)" "plain (MethodDescriptor_getReturnType m)" "plain (md_name m)"
    "plain (md_rpcName m)" "plain (md_requestName m)" "plain (md_responseName m)"
    "plain (getFullTypeDescription (md_returnDescriptor m))" "plain (td_rpcType (md_returnDescriptor m))"
    "\<not> Sublist.suffix ''respOut'' (md_name m)" "p \<in> set (md_params m) \<Longrightarrow> plain_parameter p"
  using assms by (auto simp: plain_method_def plain_type_def plain_parameter_def list_all_iff)

lemma filed_parameters:
  assumes "parameters_filed m"
  shows "in_params m = filter (\<lambda>p. effective_io p = io_in) (md_params m)"
    and "out_params m = filter (\<lambda>p. effective_io p = io_out) (md_params m)"
    and "inout_params m = filter (\<lambda>p. effective_io p = io_inout) (md_params m)"
proof -
  have "List.map (nth ps) (filter (\<lambda>i. f (ps ! i)) [0..<length ps]) = filter f ps" for f and ps :: "ParameterDescriptor list"
    by (metis (no_types, lifting) filter_map map_nth o_apply filter_cong)
  then show "in_params m = filter (\<lambda>p. effective_io p = io_in) (md_params m)"
    "out_params m = filter (\<lambda>p. effective_io p = io_out) (md_params m)"
    "inout_params m = filter (\<lambda>p. effective_io p = io_inout) (md_params m)"
    using assms by (simp_all add: parameters_filed_def positions_of_def in_params_def out_params_def inout_params_def)
qed

lemma concat_if_filter: "concat (List.map (\<lambda>p. if c p then [f p] else []) xs) = List.map f (filter c xs)"
  by (induction xs) auto

lemma concat_nothing: "concat (List.map (\<lambda>p. []) xs) = []"
  by (induction xs) auto

text \<open>The field that asks for a compressed response, and the field of the result.\<close>

definition compression_access :: "MethodDescriptor \<Rightarrow> string list" where
  "compression_access m = (if hasOutputs m \<and> \<not> md_compressionDisabled m then [''grpcservercompressionformat''] else [])"

definition result_access :: "MethodDescriptor \<Rightarrow> string list" where
  "result_access m =
     (if \<not> td_isVoid (md_returnDescriptor m) \<and> td_kind (md_returnDescriptor m) \<noteq> std_string_t \<and>
         td_kind (md_returnDescriptor m) \<noteq> array_t
      then [''xpcfgrpcreturnvalue''] else [])"

lemma no_parameters: "\<not> hasInputs m \<Longrightarrow> in_params m = [] \<and> inout_params m = []"
  "\<not> hasOutputs m \<Longrightarrow> inout_params m = [] \<and> out_params m = []"
  by (simp_all add: hasInputs_def hasOutputs_def in_params_def inout_params_def out_params_def)

lemma proxy_compression_sent [access_intros]:
  assumes "plain_method cp m"
  shows "accesses ''reqIn.set_'' (ProxyGenerator_compression m) (compression_access m)"
  unfolding ProxyGenerator_compression_def
  by (rule accesses_cong, (rule access_intros field_patterns | (simp add: nl_def sealed_def del: accessed.simps; fail))+,
      (simp only: concat.simps append.simps append_assoc append_Nil2 nl_def)?,
      (auto simp: read_text plain_methodD [OF assms] concat_if_filter concat_nothing compression_access_def cong: text_cong)?)

lemma proxy_compression_received [access_intros]:
  assumes "plain_method cp m"
  shows "accesses ''respOut.'' (ProxyGenerator_compression m) []"
  unfolding ProxyGenerator_compression_def
  by (rule accesses_cong, (rule access_intros field_patterns | (simp add: nl_def sealed_def del: accessed.simps; fail))+,
      (simp only: concat.simps append.simps append_assoc append_Nil2 nl_def)?,
      (auto simp: read_text plain_methodD [OF assms] concat_if_filter concat_nothing cong: text_cong)?)

lemma server_compression_read [access_intros]:
  assumes "plain_method cp m"
  shows "accesses ''request->'' (ServerGenerator_compression m) (compression_access m)"
  unfolding ServerGenerator_compression_def
  by (rule accesses_cong, (rule access_intros field_patterns | (simp add: nl_def sealed_def del: accessed.simps; fail))+,
      (simp only: concat.simps append.simps append_assoc append_Nil2 nl_def)?,
      (auto simp: read_text plain_methodD [OF assms] concat_if_filter concat_nothing compression_access_def cong: text_cong)?)

lemma server_compression_written [access_intros]:
  assumes "plain_method cp m"
  shows "accesses ''response->set_'' (ServerGenerator_compression m) []"
  unfolding ServerGenerator_compression_def
  by (rule accesses_cong, (rule access_intros field_patterns | (simp add: nl_def sealed_def del: accessed.simps; fail))+,
      (simp only: concat.simps append.simps append_assoc append_Nil2 nl_def)?,
      (auto simp: read_text plain_methodD [OF assms] concat_if_filter concat_nothing cong: text_cong)?)

lemma proxy_result_sent [access_intros]:
  assumes "plain_method cp m"
  shows "accesses ''reqIn.set_'' (ProxyGenerator_result m) []"
  unfolding ProxyGenerator_result_def
  by (rule accesses_cong, (rule access_intros field_patterns | (simp add: nl_def sealed_def del: accessed.simps; fail))+,
      (simp only: concat.simps append.simps append_assoc append_Nil2 nl_def)?,
      (auto simp: read_text plain_methodD [OF assms] concat_if_filter concat_nothing cong: text_cong)?)

lemma proxy_result_received [access_intros]:
  assumes "plain_method cp m"
  shows "accesses ''respOut.'' (ProxyGenerator_result m) (result_access m)"
  unfolding ProxyGenerator_result_def
  by (rule accesses_cong, (rule access_intros field_patterns | (simp add: nl_def sealed_def del: accessed.simps; fail))+,
      (simp only: concat.simps append.simps append_assoc append_Nil2 nl_def)?,
      (auto simp: read_text plain_methodD [OF assms] concat_if_filter concat_nothing result_access_def dest: other_kind cong: text_cong)?)

lemma server_result_read [access_intros]:
  assumes "plain_method cp m"
  shows "accesses ''request->'' (ServerGenerator_result m) []"
  unfolding ServerGenerator_result_def
  by (rule accesses_cong, (rule access_intros field_patterns | (simp add: nl_def sealed_def del: accessed.simps; fail))+,
      (simp only: concat.simps append.simps append_assoc append_Nil2 nl_def)?,
      (auto simp: read_text plain_methodD [OF assms] concat_if_filter concat_nothing cong: text_cong)?)

lemma server_result_written [access_intros]:
  assumes "plain_method cp m"
  shows "accesses ''response->set_'' (ServerGenerator_result m) (result_access m)"
  unfolding ServerGenerator_result_def
  by (rule accesses_cong, (rule access_intros field_patterns | (simp add: nl_def sealed_def del: accessed.simps; fail))+,
      (simp only: concat.simps append.simps append_assoc append_Nil2 nl_def)?,
      (auto simp: read_text plain_methodD [OF assms] concat_if_filter concat_nothing result_access_def dest: other_kind cong: text_cong)?)

lemma proxy_call_sent [access_intros]:
  assumes "plain_method cp m" and "plain_names n"
  shows "accesses ''reqIn.set_'' (ProxyGenerator_call n m) []"
  unfolding ProxyGenerator_call_def
  by (rule accesses_cong, (rule access_intros field_patterns | (simp add: nl_def sealed_def del: accessed.simps; fail))+,
      (simp only: concat.simps append.simps append_assoc append_Nil2 nl_def)?,
      (auto simp: read_text plain_methodD [OF assms(1)] concat_if_filter concat_nothing assms(2) [unfolded plain_names_def] cong: text_cong)?)

lemma proxy_call_received [access_intros]:
  assumes "plain_method cp m" and "plain_names n"
  shows "accesses ''respOut.'' (ProxyGenerator_call n m) []"
  unfolding ProxyGenerator_call_def
  by (rule accesses_cong, (rule access_intros field_patterns | (simp add: nl_def sealed_def del: accessed.simps; fail))+,
      (simp only: concat.simps append.simps append_assoc append_Nil2 nl_def)?,
      (auto simp: read_text plain_methodD [OF assms(1)] concat_if_filter concat_nothing assms(2) [unfolded plain_names_def] cong: text_cong)?)

lemma proxy_inputs_sent [access_intros]:
  assumes "plain_method cp m" and "parameters_filed m"
  shows "accesses ''reqIn.set_'' (ProxyGenerator_inputs m) (List.map field (filter sent (in_params m @ inout_params m)))"
  unfolding ProxyGenerator_inputs_def
  by (rule accesses_cong, (rule access_intros field_patterns | (simp add: nl_def sealed_def plain_methodD(10) [OF assms(1)] filed_parameters [OF assms(2)] del: accessed.simps; fail))+,
      (simp only: concat.simps append.simps append_assoc append_Nil2 nl_def)?,
      (auto simp: read_text plain_methodD [OF assms(1)] concat_if_filter concat_nothing no_parameters cong: text_cong)?)

lemma proxy_inputs_received [access_intros]:
  assumes "plain_method cp m" and "parameters_filed m"
  shows "accesses ''respOut.'' (ProxyGenerator_inputs m) []"
  unfolding ProxyGenerator_inputs_def
  by (rule accesses_cong, (rule access_intros field_patterns | (simp add: nl_def sealed_def plain_methodD(10) [OF assms(1)] filed_parameters [OF assms(2)] del: accessed.simps; fail))+,
      (simp only: concat.simps append.simps append_assoc append_Nil2 nl_def)?,
      (auto simp: read_text plain_methodD [OF assms(1)] concat_if_filter concat_nothing no_parameters cong: text_cong)?)

lemma proxy_outputs_sent [access_intros]:
  assumes "plain_method cp m" and "parameters_filed m"
  shows "accesses ''reqIn.set_'' (ProxyGenerator_outputs m) []"
  unfolding ProxyGenerator_outputs_def
  by (rule accesses_cong, (rule access_intros field_patterns | (simp add: nl_def sealed_def plain_methodD(10) [OF assms(1)] filed_parameters [OF assms(2)] del: accessed.simps; fail))+,
      (simp only: concat.simps append.simps append_assoc append_Nil2 nl_def)?,
      (auto simp: read_text plain_methodD [OF assms(1)] concat_if_filter concat_nothing no_parameters cong: text_cong)?)

lemma proxy_outputs_received [access_intros]:
  assumes "plain_method cp m" and "parameters_filed m"
  shows "accesses ''respOut.'' (ProxyGenerator_outputs m) (List.map field (filter received (inout_params m @ out_params m)))"
  unfolding ProxyGenerator_outputs_def
  by (rule accesses_cong, (rule access_intros field_patterns | (simp add: nl_def sealed_def plain_methodD(10) [OF assms(1)] filed_parameters [OF assms(2)] del: accessed.simps; fail))+,
      (simp only: concat.simps append.simps append_assoc append_Nil2 nl_def)?,
      (auto simp: read_text plain_methodD [OF assms(1)] concat_if_filter concat_nothing no_parameters cong: text_cong)?)


section \<open>The text of a method\<close>

lemmas method_access = access_intros field_patterns

lemma proxy_method_sent:
  assumes "plain_method cp m" and "plain_names n" and "parameters_filed m"
  shows "accesses ''reqIn.set_'' (ProxyGenerator_body_method cp n m)
    (compression_access m @ List.map field (filter sent (in_params m @ inout_params m)))"
  unfolding ProxyGenerator_body_method_def
  by (rule accesses_cong, rule accesses_declaration,
      (rule method_access assms proxy_compression_sent [OF assms(1)] proxy_inputs_sent [OF assms(1,3)]
         proxy_call_sent [OF assms(1,2)] proxy_outputs_sent [OF assms(1,3)] proxy_result_sent [OF assms(1)]
       | (simp add: nl_def sealed_def plain_methodD [OF assms(1)] assms(2) [unfolded plain_names_def] access_char_def
            del: accessed.simps; fail))+,
      (simp only: concat.simps append.simps append_assoc append_Nil2 nl_def)?,
      (auto simp: read_text plain_methodD [OF assms(1)] cong: text_cong)?)

lemma proxy_method_received:
  assumes "plain_method cp m" and "plain_names n" and "parameters_filed m"
  shows "accesses ''respOut.'' (ProxyGenerator_body_method cp n m)
    (List.map field (filter received (inout_params m @ out_params m)) @ result_access m)"
  unfolding ProxyGenerator_body_method_def
  by (rule accesses_cong, rule accesses_declaration,
      (rule method_access assms proxy_compression_received [OF assms(1)] proxy_inputs_received [OF assms(1,3)]
         proxy_call_received [OF assms(1,2)] proxy_outputs_received [OF assms(1,3)] proxy_result_received [OF assms(1)]
       | (simp add: nl_def sealed_def plain_methodD [OF assms(1)] assms(2) [unfolded plain_names_def] access_char_def
            del: accessed.simps; fail))+,
      (simp only: concat.simps append.simps append_assoc append_Nil2 nl_def)?,
      (auto simp: read_text plain_methodD [OF assms(1)] cong: text_cong)?)

lemma plain_concat: "(\<And>t. t \<in> set ts \<Longrightarrow> plain t) \<Longrightarrow> plain (concat ts)"
  by (induction ts) auto

lemma method_call_accesses:
  assumes "plain_method cp m"
  shows "accesses ''request->'' (out (method_call m @ ['');'', nl])) []"
    and "accesses ''response->set_'' (out (method_call m @ ['');'', nl])) []"
proof -
  define ps where "ps = concat (concat (List.map (\<lambda>i. (if i \<noteq> 0 then ['', ''] else []) @ [pd_name (md_params m ! i)])
    [0..<length (md_params m)]))"
  have ps: "plain ps"
    unfolding ps_def using plain_parameterD(1) [OF plain_methodD(10) [OF assms nth_mem]]
    by (intro plain_concat) (auto simp: access_char_def)
  have call: "concat (method_call m @ ['');'', nl]) = concat (if \<not> td_isVoid (md_returnDescriptor m)
      then (if td_kind (md_returnDescriptor m) = c_string_t then [''std::string returnValue = '']
            else [getFullTypeDescription (md_returnDescriptor m), '' returnValue = '']) else []) @
    ''m_xpcfComponent->'' @ md_name m @ ''('' @ ps @ '');'' @ nl"
    by (simp add: method_call_def ps_def)
  have "sealed (concat (method_call m @ ['');'', nl]))" "concat (method_call m @ ['');'', nl]) \<noteq> []"
    unfolding call by (simp_all add: sealed_def nl_def)
  moreover have "accessed ''request->'' (concat (method_call m @ ['');'', nl])) = []"
    "accessed ''response->set_'' (concat (method_call m @ ['');'', nl])) = []"
    unfolding call using ps by (auto simp: read_text plain_methodD [OF assms])
  ultimately show "accesses ''request->'' (out (method_call m @ ['');'', nl])) []"
    "accesses ''response->set_'' (out (method_call m @ ['');'', nl])) []"
    by (metis accesses_out field_patterns)+
qed

lemma server_method_read:
  assumes "plain_method cp m" and "plain_names n"
  shows "accesses ''request->'' (ServerGenerator_body_method n m)
    (compression_access m @ List.map field (filter (\<lambda>p. pd_ioType p = io_in \<or> pd_ioType p = io_inout) (md_params m)))"
  unfolding ServerGenerator_body_method_def
  by (rule accesses_cong,
      (rule method_call_accesses [OF assms(1)] method_access server_compression_read [OF assms(1)]
         server_result_read [OF assms(1)] plain_methodD(10) [OF assms(1)]
       | (simp add: nl_def sealed_def del: accessed.simps; fail))+,
      (simp only: concat.simps append.simps append_assoc append_Nil2 nl_def)?,
      (auto simp: read_text plain_methodD [OF assms(1)] assms(2) [unfolded plain_names_def] concat_if_filter concat_nothing
         cong: text_cong)?)

lemma server_method_written:
  assumes "plain_method cp m" and "plain_names n"
  shows "accesses ''response->set_'' (ServerGenerator_body_method n m)
    (List.map field (filter (\<lambda>p. (pd_ioType p = io_inout \<or> pd_ioType p = io_out) \<and> received p) (md_params m)) @ result_access m)"
  unfolding ServerGenerator_body_method_def
  by (rule accesses_cong,
      (rule method_call_accesses [OF assms(1)] method_access server_compression_written [OF assms(1)]
         server_result_written [OF assms(1)] plain_methodD(10) [OF assms(1)]
       | (simp add: nl_def sealed_def del: accessed.simps; fail))+,
      (simp only: concat.simps append.simps append_assoc append_Nil2 nl_def)?,
      (auto simp: read_text plain_methodD [OF assms(1)] assms(2) [unfolded plain_names_def] concat_if_filter concat_nothing
         cong: text_cong)?)

section \<open>Agreement\<close>

lemma effective_in_or_inout:
  "pd_ioType p \<noteq> io_none \<Longrightarrow> effective_io p = pd_ioType p"
  by (simp add: effective_io_def)

lemma mset_two_filters:
  "(\<And>x. x \<in> set xs \<Longrightarrow> \<not> (a x \<and> b x)) \<Longrightarrow> mset (filter a xs) + mset (filter b xs) = mset (filter (\<lambda>x. a x \<or> b x) xs)"
  by (induction xs) auto

text \<open>A filed parameter goes one way, both ways or comes back, so the lists of the proxy are those of the server.\<close>

lemma filed_fields:
  assumes "parameters_filed m" and "\<And>p. p \<in> set (md_params m) \<Longrightarrow> pd_ioType p \<noteq> io_none"
  shows "mset (in_params m @ inout_params m) = mset (filter (\<lambda>p. pd_ioType p = io_in \<or> pd_ioType p = io_inout) (md_params m))"
    and "mset (inout_params m @ out_params m) = mset (filter (\<lambda>p. pd_ioType p = io_inout \<or> pd_ioType p = io_out) (md_params m))"
proof -
  have "filter (\<lambda>p. effective_io p = t) (md_params m) = filter (\<lambda>p. pd_ioType p = t) (md_params m)" for t
    using assms(2) effective_in_or_inout by (intro filter_cong) auto
  with filed_parameters [OF assms(1)]
  have lists: "in_params m = filter (\<lambda>p. pd_ioType p = io_in) (md_params m)"
    "out_params m = filter (\<lambda>p. pd_ioType p = io_out) (md_params m)"
    "inout_params m = filter (\<lambda>p. pd_ioType p = io_inout) (md_params m)" by simp_all
  show "mset (in_params m @ inout_params m) = mset (filter (\<lambda>p. pd_ioType p = io_in \<or> pd_ioType p = io_inout) (md_params m))"
    "mset (inout_params m @ out_params m) = mset (filter (\<lambda>p. pd_ioType p = io_inout \<or> pd_ioType p = io_out) (md_params m))"
    unfolding lists mset_append by (rule mset_two_filters; simp)+
qed

text \<open>The text a program appends.\<close>

definition text_of :: "CodeGenerator gen \<Rightarrow> CodeGenerator \<Rightarrow> string" where
  "text_of m s = drop (length (bm_out s)) (bm_out (snd (m s)))"

lemma accesses_text: "accesses pat m fs \<Longrightarrow> fst (m s) = Inr () \<and> accessed pat (text_of m s) = fs"
  unfolding accesses_def text_of_def by (metis append_eq_conv_conj fst_conv snd_conv)

text \<open>
  Property C15. The two sides of a method agree. The text generated for the proxy sets, in this order, the field that asks
  for a compressed response, when there are outputs and compression is not disabled, and the fields of the inputs and the
  input-outputs; the text generated for the server reads the same fields of the request. The server sets the fields of the
  input-outputs and outputs it can send and of the result, and the proxy reads the same fields of the response. This holds
  for a method filed by the parser, with identifiers as the names of its parameters and without arrays, whose parameters are each an
  input, an output or both. A \<open>std::tuple\<close> of references passed by value is neither and is filed as an input: the proxy sets its
  field and the server does not read it. The field of the result is left out, on both sides, when the result is a
  \<open>std::string\<close>: the proxy of such a method returns nothing.
\<close>

theorem client_server_agree:
  assumes "plain_method cp m" and "plain_names n" and "plain_names n'" and "parameters_filed m"
    and "\<And>p. p \<in> set (md_params m) \<Longrightarrow> pd_ioType p \<noteq> io_none \<and> td_kind (pd_type p) \<noteq> array_t"
  shows "let client = text_of (ProxyGenerator_body_method cp n m) s; server = text_of (ServerGenerator_body_method n' m) s' in
    accessed ''reqIn.set_'' client = compression_access m @ List.map field (in_params m @ inout_params m) \<and>
    mset (accessed ''request->'' server) = mset (accessed ''reqIn.set_'' client) \<and>
    accessed ''respOut.'' client = List.map field (filter received (inout_params m @ out_params m)) @ result_access m \<and>
    mset (accessed ''response->set_'' server) = mset (accessed ''respOut.'' client)"
proof -
  have io: "pd_ioType p \<noteq> io_none" if "p \<in> set (md_params m)" for p using assms(5) that by blast
  have "filter sent (in_params m @ inout_params m) = in_params m @ inout_params m"
    using assms(5) filed_parameters [OF assms(4)] by (intro filter_True) (auto simp: sent_def)
  then have sent: "accessed ''reqIn.set_'' (text_of (ProxyGenerator_body_method cp n m) s) =
      compression_access m @ List.map field (in_params m @ inout_params m)"
    using accesses_text [OF proxy_method_sent [OF assms(1,2,4)], of s] by simp
  have received: "accessed ''respOut.'' (text_of (ProxyGenerator_body_method cp n m) s) =
      List.map field (filter received (inout_params m @ out_params m)) @ result_access m"
    using accesses_text [OF proxy_method_received [OF assms(1,2,4)], of s] by simp
  have "mset (List.map field (filter (\<lambda>p. pd_ioType p = io_in \<or> pd_ioType p = io_inout) (md_params m))) =
      mset (List.map field (in_params m @ inout_params m))"
    by (simp only: mset_map filed_fields(1) [OF assms(4) io])
  then have read: "mset (accessed ''request->'' (text_of (ServerGenerator_body_method n' m) s')) =
      mset (compression_access m @ List.map field (in_params m @ inout_params m))"
    using accesses_text [OF server_method_read [OF assms(1,3)], of s'] by simp
  have "filter (\<lambda>p. (pd_ioType p = io_inout \<or> pd_ioType p = io_out) \<and> received p) (md_params m) =
      filter received (filter (\<lambda>p. pd_ioType p = io_inout \<or> pd_ioType p = io_out) (md_params m))"
    by (simp add: conj_commute)
  then have "mset (filter (\<lambda>p. (pd_ioType p = io_inout \<or> pd_ioType p = io_out) \<and> received p) (md_params m)) =
      mset (filter received (inout_params m @ out_params m))"
    by (simp only: mset_filter filed_fields(2) [OF assms(4) io])
  then have written: "mset (accessed ''response->set_'' (text_of (ServerGenerator_body_method n' m) s')) =
      mset (List.map field (filter received (inout_params m @ out_params m)) @ result_access m)"
    using accesses_text [OF server_method_written [OF assms(1,3)], of s'] by (simp add: mset_map)
  show ?thesis unfolding Let_def sent received read written by simp
qed

theorem client_server_agree_witness:
  "accessed ''reqIn.set_'' (text_of (ProxyGenerator_body_method sample_cppast sample_names sample_copy) sample_text_state) =
     [''grpcservercompressionformat'', ''from'', ''descriptor''] \<and>
   accessed ''respOut.'' (text_of (ProxyGenerator_body_method sample_cppast sample_names sample_copy) sample_text_state) =
     [''descriptor'', ''xpcfgrpcreturnvalue''] \<and>
   mset (accessed ''request->'' (text_of (ServerGenerator_body_method sample_names sample_copy) sample_text_state)) =
     mset [''grpcservercompressionformat'', ''from'', ''descriptor'']"
proof -
  have "case Some sample_copy of Some m \<Rightarrow> plain_method sample_cppast m \<and> parameters_filed m" by code_simp
  then have m: "plain_method sample_cppast sample_copy" "parameters_filed sample_copy" by simp_all
  have n: "plain_names sample_names" by code_simp
  have "case Some sample_copy of Some m \<Rightarrow>
      list_all (\<lambda>p. pd_ioType p \<noteq> io_none \<and> td_kind (pd_type p) \<noteq> array_t) (md_params m) \<and>
      compression_access m = [''grpcservercompressionformat''] \<and> result_access m = [''xpcfgrpcreturnvalue''] \<and>
      List.map field (in_params m @ inout_params m) = [''from'', ''descriptor''] \<and>
      List.map field (filter received (inout_params m @ out_params m)) = [''descriptor'']"
    by code_simp
  then have "\<And>p. p \<in> set (md_params sample_copy) \<Longrightarrow> pd_ioType p \<noteq> io_none \<and> td_kind (pd_type p) \<noteq> array_t"
    and fields: "compression_access sample_copy = [''grpcservercompressionformat'']" "result_access sample_copy = [''xpcfgrpcreturnvalue'']"
      "List.map field (in_params sample_copy @ inout_params sample_copy) = [''from'', ''descriptor'']"
      "List.map field (filter received (inout_params sample_copy @ out_params sample_copy)) = [''descriptor'']"
    by (simp_all add: list_all_iff)
  from client_server_agree [OF m(1) n n m(2) this(1), of sample_text_state sample_text_state]
  show ?thesis unfolding Let_def fields by simp
qed

end
