(* ===== verification/Xpcf_XmlText.thy ===== *)
theory Xpcf_XmlText
  imports Xpcf_Xml Xpcf_NumberText "HOL-Library.Word"
begin

unbundle bit_operations_syntax

text \<open>
  The text of XML documents in the vendored \<^verbatim>\<open>src/tinyxml2.cpp\<close>, which reads and writes every registry and configuration file:
  how a piece of the buffer becomes the value of an attribute or a text (\<open>StrPair\<close>, \<open>XMLUtil\<close>), in place, and how
  \<open>XMLPrinter\<close> writes such a value. A C string is the list of its bytes without the terminating zero; what is read behind
  its end is zero.
\<close>

section \<open>Bytes\<close>

abbreviation NUL :: char where "NUL \<equiv> CHR 0x00"
abbreviation CR :: char where "CR \<equiv> CHR 0x0D"
abbreviation LF :: char where "LF \<equiv> CHR 0x0A"

definition byte_at :: "string \<Rightarrow> nat \<Rightarrow> char" where
  "byte_at s i = (if i < length s then s ! i else NUL)"

definition c_string :: "string \<Rightarrow> string" where
  "c_string s = takeWhile (\<lambda>c. c \<noteq> NUL) s"

text \<open>\<open>strncmp(p, q, n) == 0\<close> where \<open>n\<close> is the length of \<open>q\<close>.\<close>

definition starts_with :: "string \<Rightarrow> string \<Rightarrow> bool" where
  "starts_with p q = (take (length q) p = q)"

definition IsUTF8Continuation :: "char \<Rightarrow> bool" where
  "IsUTF8Continuation c = ((of_char c :: nat) \<ge> 128)"

definition IsWhiteSpace :: "char \<Rightarrow> bool" where
  "IsWhiteSpace c = (\<not> IsUTF8Continuation c \<and> is_space c)"

definition SkipWhiteSpace :: "string \<Rightarrow> string" where
  "SkipWhiteSpace p = dropWhile IsWhiteSpace p"

definition is_alpha :: "char \<Rightarrow> bool" where
  "is_alpha c = (let n = of_char c :: nat in 65 \<le> n \<and> n \<le> 90 \<or> 97 \<le> n \<and> n \<le> 122)"

definition is_digit :: "char \<Rightarrow> bool" where
  "is_digit c = (let n = of_char c :: nat in 48 \<le> n \<and> n \<le> 57)"

definition IsNameStartChar :: "char \<Rightarrow> bool" where
  "IsNameStartChar c =
     (if (of_char c :: nat) \<ge> 128 then True else if is_alpha c then True else c = CHR '':'' \<or> c = CHR ''_'')"

definition IsNameChar :: "char \<Rightarrow> bool" where
  "IsNameChar c = (IsNameStartChar c \<or> is_digit c \<or> c = CHR ''.'' \<or> c = CHR ''-'')"

definition ReadBOM :: "string \<Rightarrow> string \<times> bool" where
  "ReadBOM p = (if starts_with p [CHR 0xEF, CHR 0xBB, CHR 0xBF] then (drop 3 p, True) else (p, False))"

section \<open>Character references\<close>

definition low_byte :: "64 word \<Rightarrow> char" where
  "low_byte w = char_of (unat w)"

definition FIRST_BYTE_MARK :: "64 word list" where
  "FIRST_BYTE_MARK = [0x00, 0x00, 0xC0, 0xE0, 0xF0, 0xF8, 0xFC]"

definition utf8_length :: "64 word \<Rightarrow> nat" where
  "utf8_length input =
     (if input < 0x80 then 1 else if input < 0x800 then 2 else if input < 0x10000 then 3
      else if input < 0x200000 then 4 else 0)"

text \<open>The cases of the switch, which fall through to the next: the last byte is written first.\<close>

fun utf8_bytes :: "nat \<Rightarrow> 64 word \<Rightarrow> 64 word \<Rightarrow> string \<Rightarrow> string" where
  "utf8_bytes (Suc (Suc n)) mark input out =
     utf8_bytes (Suc n) mark (drop_bit 6 input) (low_byte ((input OR 0x80) AND 0xBF) # out)"
| "utf8_bytes (Suc 0) mark input out = low_byte (input OR mark) # out"
| "utf8_bytes 0 mark input out = out"

definition ConvertUTF32ToUTF8 :: "64 word \<Rightarrow> string" where
  "ConvertUTF32ToUTF8 input =
     (let len = utf8_length input in if len = 0 then [] else utf8_bytes len (FIRST_BYTE_MARK ! len) input [])"

definition hex_digit :: "char \<Rightarrow> 32 word option" where
  "hex_digit c = (let n = of_char c :: nat in
     if 48 \<le> n \<and> n \<le> 57 then Some (of_nat (n - 48)) else if 97 \<le> n \<and> n \<le> 102 then Some (of_nat (n - 97 + 10))
     else if 65 \<le> n \<and> n \<le> 70 then Some (of_nat (n - 65 + 10)) else None)"

definition decimal_digit :: "char \<Rightarrow> 32 word option" where
  "decimal_digit c = (let n = of_char c :: nat in if 48 \<le> n \<and> n \<le> 57 then Some (of_nat (n - 48)) else None)"

text \<open>
  The loop over the digits, from the last to the character before the first: the multiplier has the 32 bits of
  \<open>unsigned\<close> and wraps around, the sum the 64 of \<open>unsigned long\<close>.
\<close>

fun reference_value :: "char \<Rightarrow> (char \<Rightarrow> 32 word option) \<Rightarrow> 32 word \<Rightarrow> 32 word \<Rightarrow> 64 word \<Rightarrow> string \<Rightarrow> 64 word option" where
  "reference_value before digit_of base mult ucs [] = None"
| "reference_value before digit_of base mult ucs (c # cs) =
     (if c = before then Some ucs
      else case digit_of c of
          None \<Rightarrow> None
        | Some digit \<Rightarrow> reference_value before digit_of base (mult * base) (ucs + ucast (mult * digit)) cs)"

text \<open>\<open>strchr\<close> from a position.\<close>

definition strchr_from :: "nat \<Rightarrow> char \<Rightarrow> string \<Rightarrow> nat option" where
  "strchr_from i c p = (let j = length (takeWhile (\<lambda>x. x \<noteq> c) (drop i p)) in if i + j < length p then Some (i + j) else None)"

text \<open>Nothing stands for the null pointer, otherwise how far the pointer moves and the bytes.\<close>

definition GetCharacterRef :: "string \<Rightarrow> (nat \<times> string) option" where
  "GetCharacterRef p =
     (if byte_at p 1 = CHR ''#'' \<and> byte_at p 2 \<noteq> NUL then
        if byte_at p 2 = CHR ''x'' then
          if byte_at p 3 = NUL then None
          else case strchr_from 3 CHR '';'' p of
              None \<Rightarrow> None
            | Some delta \<Rightarrow> map_option (\<lambda>ucs. (delta + 1, ConvertUTF32ToUTF8 ucs))
                (reference_value CHR ''x'' hex_digit 16 1 0 (rev (take delta p)))
        else
          case strchr_from 2 CHR '';'' p of
            None \<Rightarrow> None
          | Some delta \<Rightarrow> map_option (\<lambda>ucs. (delta + 1, ConvertUTF32ToUTF8 ucs))
              (reference_value CHR ''#'' decimal_digit 10 1 0 (rev (take delta p)))
      else Some (1, []))"

definition entities :: "(string \<times> char) list" where
  "entities = [(''quot'', CHR 0x22), (''amp'', CHR ''&''), (''apos'', CHR 0x27), (''lt'', CHR ''<''), (''gt'', CHR ''>'')]"

text \<open>The first entity of the table that follows the ampersand, with its length and its value.\<close>

fun find_entity :: "(string \<times> char) list \<Rightarrow> string \<Rightarrow> (nat \<times> char) option" where
  "find_entity [] p = None"
| "find_entity ((pattern, val) # es) p =
     (if starts_with p pattern \<and> byte_at p (length pattern) = CHR '';'' then Some (length pattern, val) else find_entity es p)"

lemma reference_moves: "GetCharacterRef p = Some (n, bs) \<Longrightarrow> 0 < n"
  by (auto simp: GetCharacterRef_def split: if_splits option.splits)

section \<open>The value of a piece of the buffer\<close>

text \<open>\<open>memcpy\<close> into the buffer.\<close>

fun copy_bytes :: "string \<Rightarrow> nat \<Rightarrow> string \<Rightarrow> string" where
  "copy_bytes buf q [] = buf"
| "copy_bytes buf q (b # bs) = copy_bytes (buf[q := b]) (Suc q) bs"

lemma length_copy_bytes [simp]: "length (copy_bytes buf q bs) = length buf"
  by (induction buf q bs rule: copy_bytes.induct) auto

text \<open>
  The loop of \<open>GetStr\<close>. It reads at \<open>p\<close> and writes at \<open>q\<close> in the same buffer. An ampersand that starts no entity is stepped
  over by both pointers, without a write.
\<close>

function GetStr_loop :: "bool \<Rightarrow> bool \<Rightarrow> string \<Rightarrow> nat \<Rightarrow> nat \<Rightarrow> string \<times> nat" where
  "GetStr_loop newlines ents buf p q =
     (if p < length buf then
        let c = buf ! p in
        if newlines \<and> c = CR then
          GetStr_loop newlines ents (buf[q := LF]) (if byte_at buf (p + 1) = LF then p + 2 else p + 1) (q + 1)
        else if newlines \<and> c = LF then
          GetStr_loop newlines ents (buf[q := LF]) (if byte_at buf (p + 1) = CR then p + 2 else p + 1) (q + 1)
        else if ents \<and> c = CHR ''&'' then
          if byte_at buf (p + 1) = CHR ''#'' then
            case GetCharacterRef (drop p buf) of
              None \<Rightarrow> GetStr_loop newlines ents (buf[q := c]) (p + 1) (q + 1)
            | Some (n, bs) \<Rightarrow> GetStr_loop newlines ents (copy_bytes buf q bs) (p + n) (q + length bs)
          else
            case find_entity entities (drop (p + 1) buf) of
              Some (len, val) \<Rightarrow> GetStr_loop newlines ents (buf[q := val]) (p + len + 2) (q + 1)
            | None \<Rightarrow> GetStr_loop newlines ents buf (p + 1) (q + 1)
        else GetStr_loop newlines ents (buf[q := c]) (p + 1) (q + 1)
      else (buf, q))"
  by pat_completeness auto
termination
  by (relation "measure (\<lambda>(newlines, ents, buf, p, q). length buf - p)") (auto dest: reference_moves)

declare GetStr_loop.simps [simp del]

text \<open>The loop of \<open>CollapseWhitespace\<close>, whose pointers only lose white space.\<close>

function collapse_loop :: "string \<Rightarrow> string" where
  "collapse_loop p =
     (case p of
        [] \<Rightarrow> []
      | c # cs \<Rightarrow>
          if IsWhiteSpace c then
            case SkipWhiteSpace p of
              [] \<Rightarrow> []
            | d # ds \<Rightarrow> CHR '' '' # d # collapse_loop ds
          else c # collapse_loop cs)"
  by pat_completeness auto
termination
proof (relation "measure length", goal_cases)
  case (2 p c cs d ds)
  then have "length (d # ds) \<le> length p"
    using length_dropWhile_le [of IsWhiteSpace p] by (simp add: SkipWhiteSpace_def)
  then show ?case by simp
qed auto

declare collapse_loop.simps [simp del]

definition CollapseWhitespace :: "string \<Rightarrow> string" where
  "CollapseWhitespace s = collapse_loop (SkipWhiteSpace s)"

text \<open>The flags of a piece: what \<open>GetStr\<close> is to do with it.\<close>

record StrFlags =
  NEEDS_ENTITY_PROCESSING :: bool
  NEEDS_NEWLINE_NORMALIZATION :: bool
  NEEDS_WHITESPACE_COLLAPSING :: bool

definition no_flags :: StrFlags where
  "no_flags = \<lparr>NEEDS_ENTITY_PROCESSING = False, NEEDS_NEWLINE_NORMALIZATION = False, NEEDS_WHITESPACE_COLLAPSING = False\<rparr>"

definition newline_flags :: StrFlags where
  "newline_flags = no_flags\<lparr>NEEDS_NEWLINE_NORMALIZATION := True\<rparr>"

definition text_flags :: "bool \<Rightarrow> StrFlags" where
  "text_flags processEntities = newline_flags\<lparr>NEEDS_ENTITY_PROCESSING := processEntities\<rparr>"

text \<open>What is left in the buffer is a C string, so a reference to the character zero ends the value.\<close>

definition GetStr :: "StrFlags \<Rightarrow> string \<Rightarrow> string" where
  "GetStr flags s =
     (if flags = no_flags then s
      else let (buf, q) = GetStr_loop (NEEDS_NEWLINE_NORMALIZATION flags) (NEEDS_ENTITY_PROCESSING flags) s 0 0;
               t = c_string (take q buf)
           in if NEEDS_WHITESPACE_COLLAPSING flags then CollapseWhitespace t else t)"

section \<open>Reading in place is reading\<close>

text \<open>
  Without the buffer: what one step at the rest \<open>p\<close> consumes and the bytes it gives, none for the ampersand nothing is
  written for. The byte there is the one of the original text at the place the result has reached.
\<close>

definition text_step :: "bool \<Rightarrow> bool \<Rightarrow> string \<Rightarrow> nat \<times> string option" where
  "text_step newlines ents p =
     (let c = hd p in
      if newlines \<and> c = CR then (if byte_at p 1 = LF then 2 else 1, Some [LF])
      else if newlines \<and> c = LF then (if byte_at p 1 = CR then 2 else 1, Some [LF])
      else if ents \<and> c = CHR ''&'' then
        if byte_at p 1 = CHR ''#'' then
          case GetCharacterRef p of None \<Rightarrow> (1, Some [c]) | Some (n, bs) \<Rightarrow> (n, Some bs)
        else case find_entity entities (drop 1 p) of Some (len, val) \<Rightarrow> (len + 2, Some [val]) | None \<Rightarrow> (1, None)
      else (1, Some [c]))"

lemma text_step_moves: "text_step newlines ents p = (n, r) \<Longrightarrow> 0 < n"
  by (auto simp: text_step_def Let_def dest: reference_moves split: if_splits option.splits prod.splits)

function text_value :: "bool \<Rightarrow> bool \<Rightarrow> string \<Rightarrow> string \<Rightarrow> string \<Rightarrow> string" where
  "text_value newlines ents original out p =
     (if p = [] then out
      else case text_step newlines ents p of
          (n, Some bs) \<Rightarrow> text_value newlines ents original (out @ bs) (drop n p)
        | (n, None) \<Rightarrow> text_value newlines ents original (out @ [byte_at original (length out)]) (drop n p))"
  by pat_completeness auto
termination
  by (relation "measure (\<lambda>(newlines, ents, original, out, p). length p)") (auto dest!: text_step_moves [OF sym])

declare text_value.simps [simp del]

lemma byte_at_drop: "byte_at (drop p s) i = byte_at s (p + i)"
  by (auto simp: byte_at_def)

lemma copy_bytes_append:
  "q + length bs \<le> length buf \<Longrightarrow> copy_bytes buf q bs = take q buf @ bs @ drop (q + length bs) buf"
proof (induction buf q bs rule: copy_bytes.induct)
  case (2 buf q b bs)
  then have "copy_bytes buf q (b # bs) = take (Suc q) (buf[q := b]) @ bs @ drop (Suc q + length bs) (buf[q := b])"
    by simp
  also have "\<dots> = take q buf @ (b # bs) @ drop (q + length (b # bs)) buf"
    using 2(2) by (simp add: take_Suc_conv_app_nth)
  finally show ?case .
qed simp

lemma copy_bytes_one: "copy_bytes buf q [b] = buf[q := b]"
  by simp

lemma GetStr_loop_step:
  "GetStr_loop newlines ents buf p q =
     (if p < length buf then
        case text_step newlines ents (drop p buf) of
          (n, Some bs) \<Rightarrow> GetStr_loop newlines ents (copy_bytes buf q bs) (p + n) (q + length bs)
        | (n, None) \<Rightarrow> GetStr_loop newlines ents buf (p + n) (q + 1)
      else (buf, q))"
  by (subst GetStr_loop.simps)
    (auto simp: text_step_def Let_def hd_drop_conv_nth byte_at_drop add.commute [of p] add.assoc split: option.splits)

lemma strchr_from_bound: "strchr_from i c p = Some j \<Longrightarrow> i \<le> j \<and> j < length p \<and> p ! j = c"
proof -
  assume "strchr_from i c p = Some j"
  then have j: "j = i + length (takeWhile (\<lambda>x. x \<noteq> c) (drop i p))" and "j < length p"
    by (auto simp: strchr_from_def Let_def split: if_splits)
  then have "length (takeWhile (\<lambda>x. x \<noteq> c) (drop i p)) < length (drop i p)"
    by simp
  from nth_length_takeWhile [OF this] j \<open>j < length p\<close> show ?thesis by simp
qed

lemma length_utf8_bytes: "length (utf8_bytes n mark input out) = n + length out"
  by (induction n mark input out rule: utf8_bytes.induct) auto

lemma length_ConvertUTF32ToUTF8: "length (ConvertUTF32ToUTF8 input) = utf8_length input"
  by (simp add: ConvertUTF32ToUTF8_def Let_def length_utf8_bytes)

lemma utf8_length_bound: "utf8_length input \<le> 4"
  by (simp add: utf8_length_def)

text \<open>A reference has more bytes than what it stands for, so that the write pointer never overtakes the read pointer.\<close>

lemma reference_bounds:
  assumes "GetCharacterRef p = Some (n, bs)" and "p \<noteq> []"
  shows "length bs \<le> n" and "length bs \<le> 4" and "n \<le> length p"
proof -
  show "length bs \<le> 4"
    using assms(1) by (auto simp: GetCharacterRef_def length_ConvertUTF32ToUTF8 utf8_length_bound split: if_splits option.splits)
  have "(n = 1 \<and> bs = []) \<or> (\<exists>delta before digit_of base ucs. n = delta + 1 \<and> 2 \<le> delta \<and> delta < length p \<and>
      (delta = 2 \<longrightarrow> before = CHR ''#'') \<and> byte_at p 1 = CHR ''#'' \<and>
      bs = ConvertUTF32ToUTF8 ucs \<and> reference_value before digit_of base 1 0 (rev (take delta p)) = Some ucs)" (is "_ \<or> ?ref")
    using assms(1) by (fastforce simp: GetCharacterRef_def dest: strchr_from_bound split: if_splits option.splits)
  then have "length bs \<le> n \<and> n \<le> length p"
  proof
    assume ?ref
    then obtain delta before digit_of base ucs where r: "n = delta + 1" "2 \<le> delta" "delta < length p"
        "delta = 2 \<longrightarrow> before = CHR ''#''" "byte_at p 1 = CHR ''#''" "bs = ConvertUTF32ToUTF8 ucs"
        "reference_value before digit_of base 1 0 (rev (take delta p)) = Some ucs"
      by blast
    show ?thesis
    proof (cases "delta = 2")
      case True
      with r have "take delta p = [hd p, CHR ''#'']"
        by (cases p; cases "tl p") (auto simp: byte_at_def)
      with r True have "ucs = 0" by simp
      with r show ?thesis by (simp add: length_ConvertUTF32ToUTF8 utf8_length_def)
    next
      case False
      with r utf8_length_bound [of ucs] show ?thesis by (simp add: length_ConvertUTF32ToUTF8)
    qed
  qed (use assms(2) in \<open>simp add: Suc_le_eq\<close>)
  then show "length bs \<le> n" and "n \<le> length p" by auto
qed

lemma starts_with_length: "starts_with p s \<Longrightarrow> length s \<le> length p"
  by (auto simp: starts_with_def) (metis length_take min.absorb_iff2 nat_le_linear)

lemma find_entity_bound: "find_entity es p = Some (len, val) \<Longrightarrow> len < length p"
  by (induction es p rule: find_entity.induct) (auto simp: byte_at_def split: if_splits)

lemma text_step_bounds:
  assumes "text_step newlines ents p = (n, r)" and "p \<noteq> []"
  shows "n \<le> length p" and "length (case r of Some bs \<Rightarrow> bs | None \<Rightarrow> [NUL]) \<le> n"
proof -
  from assms(2) have "Suc 0 \<le> length p"
    by (simp add: Suc_le_eq)
  then show "n \<le> length p" and "length (case r of Some bs \<Rightarrow> bs | None \<Rightarrow> [NUL]) \<le> n"
    using assms reference_bounds [OF _ assms(2)] text_step_moves [OF assms(1)]
    by (auto simp: text_step_def Let_def byte_at_def split: if_splits option.splits dest!: find_entity_bound)
qed

lemma GetStr_loop_value:
  assumes "q \<le> p" and "p \<le> length buf" and "length buf = length original" and "drop q buf = drop q original"
  shows "snd (GetStr_loop newlines ents buf p q) \<le> length original \<and>
    take (snd (GetStr_loop newlines ents buf p q)) (fst (GetStr_loop newlines ents buf p q)) =
    text_value newlines ents original (take q buf) (drop p buf)"
  using assms
proof (induction "length buf - p" arbitrary: buf p q rule: less_induct)
  case less
  let ?goal = "\<lambda>buf p q out rest. snd (GetStr_loop newlines ents buf p q) \<le> length original \<and>
    take (snd (GetStr_loop newlines ents buf p q)) (fst (GetStr_loop newlines ents buf p q)) =
    text_value newlines ents original out rest"
  show ?case
  proof (cases "p < length buf")
    case True
    obtain n r where step: "text_step newlines ents (drop p buf) = (n, r)"
      by fastforce
    from True have "drop p buf \<noteq> []" by simp
    note bounds = text_step_bounds [OF step this] and moves = text_step_moves [OF step]
    show ?thesis
    proof (cases r)
      case None
      have "?goal buf (p + n) (q + 1) (take (q + 1) buf) (drop (p + n) buf)"
      proof (rule less.hyps)
        show "drop (q + 1) buf = drop (q + 1) original"
          using less.prems(4) by (metis add.commute drop_drop)
      qed (use less.prems bounds moves True in auto)
      moreover have "take (q + 1) buf = take q buf @ [byte_at original q]"
        using less.prems True by (simp add: take_Suc_conv_app_nth byte_at_def flip: hd_drop_conv_nth)
      moreover have "GetStr_loop newlines ents buf p q = GetStr_loop newlines ents buf (p + n) (q + 1)"
        by (subst GetStr_loop_step) (simp add: True step None)
      moreover have "text_value newlines ents original (take q buf) (drop p buf) =
          text_value newlines ents original (take q buf @ [byte_at original q]) (drop (p + n) buf)"
        using less.prems True by (subst text_value.simps) (simp add: step None add.commute [of n])
      ultimately show ?thesis by simp
    next
      case (Some bs)
      let ?buf = "copy_bytes buf q bs"
      have fits: "q + length bs \<le> p + n" "p + n \<le> length buf"
        using less.prems bounds Some True by auto
      then have buf: "?buf = take q buf @ bs @ drop (q + length bs) buf"
        by (intro copy_bytes_append) simp
      have rest: "drop (p + n) ?buf = drop (p + n) buf" and tail: "drop (q + length bs) ?buf = drop (q + length bs) buf"
        and written: "take (q + length bs) ?buf = take q buf @ bs"
        using fits less.prems True by (auto simp: buf)
      have "?goal ?buf (p + n) (q + length bs) (take (q + length bs) ?buf) (drop (p + n) ?buf)"
      proof (rule less.hyps)
        show "drop (q + length bs) ?buf = drop (q + length bs) original"
          using less.prems(4) unfolding tail by (metis add.commute drop_drop)
      qed (use fits less.prems moves True in auto)
      moreover have "GetStr_loop newlines ents buf p q = GetStr_loop newlines ents ?buf (p + n) (q + length bs)"
        by (subst GetStr_loop_step) (simp add: True step Some)
      moreover have "text_value newlines ents original (take q buf) (drop p buf) =
          text_value newlines ents original (take q buf @ bs) (drop (p + n) buf)"
        using True by (subst text_value.simps) (simp add: step Some add.commute [of n])
      ultimately show ?thesis
        unfolding rest written by simp
    qed
  next
    case False
    then have "GetStr_loop newlines ents buf p q = (buf, q)"
      by (subst GetStr_loop.simps) simp
    with False less.prems show ?thesis
      by (simp add: text_value.simps [of _ _ _ _ "[]"])
  qed
qed

lemma GetStr_value:
  "GetStr flags s =
     (if flags = no_flags then s
      else let t = c_string (text_value (NEEDS_NEWLINE_NORMALIZATION flags) (NEEDS_ENTITY_PROCESSING flags) s [] s)
           in if NEEDS_WHITESPACE_COLLAPSING flags then CollapseWhitespace t else t)"
  using GetStr_loop_value [of 0 0 s s "NEEDS_NEWLINE_NORMALIZATION flags" "NEEDS_ENTITY_PROCESSING flags"]
  by (auto simp: GetStr_def Let_def split: prod.splits)

text \<open>
  Property C25. The value of a piece of the buffer is the one a reader with a buffer of its own makes of it, whatever the text:
  although \<open>GetStr\<close> writes over what it has yet to read, it never writes past the place it reads at.
\<close>

theorem value_in_place:
  "GetStr flags s =
     (if flags = no_flags then s
      else let t = c_string (text_value (NEEDS_NEWLINE_NORMALIZATION flags) (NEEDS_ENTITY_PROCESSING flags) s [] s)
           in if NEEDS_WHITESPACE_COLLAPSING flags then CollapseWhitespace t else t) \<and>
   snd (GetStr_loop (NEEDS_NEWLINE_NORMALIZATION flags) (NEEDS_ENTITY_PROCESSING flags) s 0 0) \<le> length s"
  using GetStr_value [of flags s] GetStr_loop_value [of 0 0 s s "NEEDS_NEWLINE_NORMALIZATION flags" "NEEDS_ENTITY_PROCESSING flags"]
  by simp

section \<open>Writing a value\<close>

definition entity_flag :: "bool \<Rightarrow> char \<Rightarrow> bool" where
  "entity_flag restricted c =
     (if restricted then c = CHR ''&'' \<or> c = CHR ''<'' \<or> c = CHR ''>'' else c \<in> snd ` set entities)"

fun entity_pattern :: "(string \<times> char) list \<Rightarrow> char \<Rightarrow> string option" where
  "entity_pattern [] c = None"
| "entity_pattern ((pattern, val) # es) c = (if val = c then Some pattern else entity_pattern es c)"

text \<open>
  \<open>run\<close> is what lies between the two pointers. A character from 1 to 63 may be an entity; those above 127 are negative.
\<close>

fun PrintString_loop :: "bool \<Rightarrow> string \<Rightarrow> string \<Rightarrow> string" where
  "PrintString_loop restricted run [] = run"
| "PrintString_loop restricted run (c # cs) =
     (if 0 < (of_char c :: nat) \<and> (of_char c :: nat) < 64 \<and> entity_flag restricted c then
        run @ (case entity_pattern entities c of Some pattern \<Rightarrow> ''&'' @ pattern @ '';'' | None \<Rightarrow> '''') @
        PrintString_loop restricted [] cs
      else PrintString_loop restricted (run @ [c]) cs)"

definition PrintString :: "bool \<Rightarrow> bool \<Rightarrow> string \<Rightarrow> string" where
  "PrintString processEntities restricted p = (if processEntities then PrintString_loop restricted [] p else p)"

definition escaped :: "bool \<Rightarrow> char \<Rightarrow> string" where
  "escaped restricted c =
     (if c = CHR ''&'' then ''&amp;'' else if c = CHR ''<'' then ''&lt;'' else if c = CHR ''>'' then ''&gt;''
      else if \<not> restricted \<and> c = CHR 0x22 then ''&quot;'' else if \<not> restricted \<and> c = CHR 0x27 then ''&apos;'' else [c])"

lemma PrintString_loop_escaped: "PrintString_loop restricted run s = run @ concat (map (escaped restricted) s)"
  by (induction restricted run s rule: PrintString_loop.induct) (auto simp: escaped_def entity_flag_def entities_def)

lemma PrintString_escaped: "PrintString True restricted s = concat (map (escaped restricted) s)"
  by (simp add: PrintString_def PrintString_loop_escaped)

text \<open>A text a value can have when it is read: without the character zero and without carriage returns.\<close>

definition xml_plain :: "string \<Rightarrow> bool" where
  "xml_plain s \<longleftrightarrow> NUL \<notin> set s \<and> CR \<notin> set s"

lemma xml_plain_simps [simp]:
  "xml_plain []" "xml_plain (c # cs) \<longleftrightarrow> c \<noteq> NUL \<and> c \<noteq> CR \<and> xml_plain cs"
  "xml_plain (s @ t) \<longleftrightarrow> xml_plain s \<and> xml_plain t"
  by (auto simp: xml_plain_def)

lemma text_step_entity:
  "text_step newlines True (''&amp;'' @ rest) = (5, Some ''&'')"
  "text_step newlines True (''&lt;'' @ rest) = (4, Some ''<'')"
  "text_step newlines True (''&gt;'' @ rest) = (4, Some ''>'')"
  "text_step newlines True (''&quot;'' @ rest) = (6, Some [CHR 0x22])"
  "text_step newlines True (''&apos;'' @ rest) = (6, Some [CHR 0x27])"
  by (simp_all add: text_step_def byte_at_def entities_def starts_with_def)

lemma text_step_plain:
  assumes "c \<noteq> CR" and "c \<noteq> CHR ''&''" and "c = LF \<Longrightarrow> byte_at rest 0 \<noteq> CR"
  shows "text_step newlines ents (c # rest) = (1, Some [c])"
  using assms by (auto simp: text_step_def byte_at_def)

lemma text_value_plain:
  assumes "xml_plain s" and "ents \<longrightarrow> CHR ''&'' \<notin> set s"
  shows "text_value newlines ents original out s = out @ s"
  using assms
proof (induction s arbitrary: out)
  case (Cons c cs)
  then have "text_step newlines ents (c # cs) = (1, Some [c])"
    by (cases cs) (auto simp: text_step_def byte_at_def)
  with Cons show ?case
    by (subst text_value.simps) simp
qed (simp add: text_value.simps)

lemma byte_at_escaped: "xml_plain s \<Longrightarrow> byte_at (concat (map (escaped restricted) s)) 0 \<noteq> CR"
  by (cases s) (auto simp: byte_at_def escaped_def)

lemma text_step_escaped:
  assumes "c \<noteq> CR" and "byte_at rest 0 \<noteq> CR"
  shows "text_step newlines True (escaped restricted c @ rest) = (length (escaped restricted c), Some [c])"
proof (cases "escaped restricted c = [c]")
  case True
  then have "c \<noteq> CHR ''&''"
    by (auto simp: escaped_def)
  with True assms show ?thesis
    by (simp add: text_step_plain)
next
  case False
  then consider "c = CHR ''&''" | "c = CHR ''<''" | "c = CHR ''>''" | "\<not> restricted" "c = CHR 0x22" | "\<not> restricted" "c = CHR 0x27"
    by (auto simp: escaped_def split: if_splits)
  then show ?thesis
    by cases (simp_all only: escaped_def if_True if_False simp_thms char.inject text_step_entity list.size, simp_all)
qed

lemma text_value_escaped:
  "xml_plain s \<Longrightarrow> text_value newlines True original out (concat (map (escaped restricted) s)) = out @ s"
proof (induction s arbitrary: out)
  case (Cons c cs)
  let ?rest = "concat (map (escaped restricted) cs)"
  have "text_step newlines True (escaped restricted c @ ?rest) = (length (escaped restricted c), Some [c])"
    using Cons.prems byte_at_escaped [of cs restricted] by (intro text_step_escaped) auto
  moreover have "escaped restricted c \<noteq> []"
    by (simp add: escaped_def)
  ultimately show ?case
    using Cons by (subst text_value.simps) simp
qed (simp add: text_value.simps)

lemma c_string_plain: "xml_plain s \<Longrightarrow> c_string s = s"
  by (auto simp: c_string_def xml_plain_def takeWhile_eq_all_conv)

text \<open>What the printer writes for a value is read as the value.\<close>

lemma printed_value:
  assumes "xml_plain s"
  shows "GetStr (text_flags pe) (PrintString pe restricted s) = s"
proof (cases pe)
  case True
  with assms show ?thesis
    using GetStr_value [of "text_flags True" "PrintString True restricted s"]
    by (simp add: text_flags_def newline_flags_def no_flags_def PrintString_escaped text_value_escaped c_string_plain)
next
  case False
  with assms show ?thesis
    using GetStr_value [of "text_flags False" s]
    by (simp add: text_flags_def newline_flags_def no_flags_def PrintString_def text_value_plain c_string_plain)
qed

text \<open>
  An ampersand that starts no entity keeps whatever byte is at the place that is written next: behind a real entity that is
  not the ampersand.
\<close>

lemma unknown_entity_garbled: "GetStr (text_flags True) ''&lt;x&foo;'' = ''<xtfoo;''"
  by (simp add: GetStr_value text_flags_def newline_flags_def no_flags_def text_value.simps text_step_def byte_at_def entities_def
      starts_with_def c_string_def)

end
