(* ===== verification/Xpcf_XmlParse.thy ===== *)
theory Xpcf_XmlParse
  imports Xpcf_XmlText
begin

text \<open>
  The parser of the vendored \<^verbatim>\<open>src/tinyxml2.cpp\<close>: from the bytes of a file to the document the framework walks through. A
  pointer into the buffer is the rest of the text behind it. The names and values of nodes are what \<open>GetStr\<close> makes of their
  pieces of the buffer, which the code does when they are first read. Line numbers and messages of errors, and the memory
  pools of the nodes, are left out.
\<close>

section \<open>Documents\<close>

datatype dom =
    XMLElement string "(string \<times> string) list" "dom list"
  | XMLText string bool
  | XMLComment string
  | XMLDeclaration string
  | XMLUnknown string

datatype XMLError =
    XML_SUCCESS
  | XML_ERROR_FILE_NOT_FOUND
  | XML_ERROR_PARSING_ELEMENT
  | XML_ERROR_PARSING_ATTRIBUTE
  | XML_ERROR_PARSING_TEXT
  | XML_ERROR_PARSING_CDATA
  | XML_ERROR_PARSING_COMMENT
  | XML_ERROR_PARSING_DECLARATION
  | XML_ERROR_PARSING_UNKNOWN
  | XML_ERROR_EMPTY_DOCUMENT
  | XML_ERROR_MISMATCHED_ELEMENT
  | XML_ERROR_PARSING
  | XML_ELEMENT_DEPTH_EXCEEDED

datatype ElementClosingType = OPEN | CLOSED | CLOSING

definition TINYXML2_MAX_ELEMENT_DEPTH :: nat where
  "TINYXML2_MAX_ELEMENT_DEPTH = 500"

record XMLDocument_options =
  processEntities :: bool
  collapseWhitespace :: bool

definition default_options :: XMLDocument_options where
  "default_options = \<lparr>processEntities = True, collapseWhitespace = False\<rparr>"

section \<open>Pieces of the text\<close>

text \<open>\<open>ParseText\<close>: the piece before the end tag and the rest behind it, or the null pointer when the text ends first.\<close>

fun ParseText :: "string \<Rightarrow> string \<Rightarrow> (string \<times> string) option" where
  "ParseText endTag [] = None"
| "ParseText endTag (c # cs) =
     (if starts_with (c # cs) endTag then Some ([], drop (length endTag) (c # cs))
      else map_option (\<lambda>(piece, rest). (c # piece, rest)) (ParseText endTag cs))"

definition ParseName :: "string \<Rightarrow> (string \<times> string) option" where
  "ParseName p =
     (case p of
        [] \<Rightarrow> None
      | c # cs \<Rightarrow> if IsNameStartChar c then Some (c # takeWhile IsNameChar cs, dropWhile IsNameChar cs) else None)"

datatype node_kind = Declaration_node | Comment_node | CData_node | Unknown_node | Element_node | Text_node

text \<open>No node is made of white space at the end; text that is not markup is taken from where the white space starts.\<close>

definition Identify :: "string \<Rightarrow> (node_kind \<times> string) option" where
  "Identify start =
     (let p = SkipWhiteSpace start in
      if p = [] then None
      else if starts_with p ''<?'' then Some (Declaration_node, drop 2 p)
      else if starts_with p ''<!--'' then Some (Comment_node, drop 4 p)
      else if starts_with p ''<![CDATA['' then Some (CData_node, drop 9 p)
      else if starts_with p ''<!'' then Some (Unknown_node, drop 2 p)
      else if starts_with p ''<'' then Some (Element_node, drop 1 p)
      else Some (Text_node, start))"

section \<open>Attributes\<close>

text \<open>
  \<open>XMLAttribute::ParseDeep\<close>. The value ends at the next quote of the kind it starts with.
\<close>

definition XMLAttribute_ParseDeep :: "bool \<Rightarrow> string \<Rightarrow> ((string \<times> string) \<times> string) option" where
  "XMLAttribute_ParseDeep pe p =
     (case ParseName p of
        None \<Rightarrow> None
      | Some (name, p) \<Rightarrow>
          if p = [] then None
          else (case SkipWhiteSpace p of
              c # p \<Rightarrow>
                if c \<noteq> CHR ''='' then None
                else (case SkipWhiteSpace p of
                    q # p \<Rightarrow>
                      if q \<noteq> CHR 0x22 \<and> q \<noteq> CHR 0x27 then None
                      else map_option (\<lambda>(piece, rest). ((name, GetStr (text_flags pe) piece), rest)) (ParseText [q] p)
                  | [] \<Rightarrow> None)
            | [] \<Rightarrow> None))"

lemma ParseText_shorter: "ParseText endTag p = Some (piece, rest) \<Longrightarrow> endTag \<noteq> [] \<Longrightarrow> length rest < length p"
proof (induction p arbitrary: piece)
  case (Cons c cs)
  show ?case
  proof (cases "starts_with (c # cs) endTag")
    case True
    with Cons.prems show ?thesis by (cases endTag) auto
  next
    case False
    with Cons.prems(1) obtain piece' where "ParseText endTag cs = Some (piece', rest)"
      by auto
    from Cons.IH [OF this Cons.prems(2)] show ?thesis by simp
  qed
qed simp

lemma ParseName_shorter: "ParseName p = Some (name, rest) \<Longrightarrow> length rest < length p"
  using length_dropWhile_le [of IsNameChar] by (auto simp: ParseName_def less_Suc_eq_le split: list.splits if_splits)

lemma SkipWhiteSpace_shorter: "length (SkipWhiteSpace p) \<le> length p"
  by (simp add: SkipWhiteSpace_def length_dropWhile_le)

lemma attribute_shorter:
  assumes "XMLAttribute_ParseDeep pe p = Some (a, rest)"
  shows "length rest < length p"
proof -
  from assms obtain name p1 c p2 q p3 piece where "ParseName p = Some (name, p1)" "SkipWhiteSpace p1 = c # p2"
      "SkipWhiteSpace p2 = q # p3" "ParseText [q] p3 = Some (piece, rest)"
    by (auto simp: XMLAttribute_ParseDeep_def split: option.splits list.splits if_splits prod.splits)
  then show ?thesis
    using ParseName_shorter [of p name p1] SkipWhiteSpace_shorter [of p1] SkipWhiteSpace_shorter [of p2]
      ParseText_shorter [of "[q]" p3 piece rest] by simp
qed

text \<open>
  \<open>XMLElement::ParseAttributes\<close>, from the attributes read so far: an error, or the attributes, how the element is closed and
  the rest.
\<close>

function ParseAttributes ::
  "bool \<Rightarrow> ElementClosingType \<Rightarrow> (string \<times> string) list \<Rightarrow> string \<Rightarrow> XMLError + (string \<times> string) list \<times> ElementClosingType \<times> string" where
  "ParseAttributes pe closing attrs p0 =
     (let p = SkipWhiteSpace p0 in
      if p = [] then Inl XML_ERROR_PARSING_ELEMENT
      else if IsNameStartChar (hd p) then
        case XMLAttribute_ParseDeep pe p of
          None \<Rightarrow> Inl XML_ERROR_PARSING_ATTRIBUTE
        | Some ((name, val), p') \<Rightarrow>
            if FindAttribute name attrs \<noteq> None then Inl XML_ERROR_PARSING_ATTRIBUTE
            else ParseAttributes pe closing (attrs @ [(name, val)]) p'
      else if hd p = CHR ''>'' then Inr (attrs, closing, tl p)
      else if hd p = CHR ''/'' \<and> byte_at p 1 = CHR ''>'' then Inr (attrs, CLOSED, drop 2 p)
      else Inl XML_ERROR_PARSING_ELEMENT)"
  by pat_completeness auto
termination
proof (relation "measure (\<lambda>(pe, closing, attrs, p). length p)", goal_cases)
  case (2 pe closing attrs p0 p x1 a p' name val)
  then show ?case
    using attribute_shorter [of pe p "(name, val)" p'] SkipWhiteSpace_shorter [of p0] by simp
qed simp

declare ParseAttributes.simps [simp del]
section \<open>Nodes\<close>

text \<open>
  What \<open>ParseDeep\<close> of a node below another leaves: an error that was set, the null pointer without one, or the node, how it is
  closed, the end tag that was found for it and the rest.
\<close>

datatype child = Child_error XMLError | Child_null | Child dom ElementClosingType "string option" string

text \<open>
  What \<open>ParseDeep\<close> of the children leaves: the end of the text; the end tag of the parent with the rest behind it; or an error.
\<close>

datatype nodes = Ended "dom list" | Closed_by string string "dom list" | Failed XMLError "dom list"

definition parse_piece :: "string \<Rightarrow> StrFlags \<Rightarrow> (string \<Rightarrow> dom) \<Rightarrow> XMLError \<Rightarrow> string \<Rightarrow> child" where
  "parse_piece endTag flags build err p =
     (case ParseText endTag p of
        None \<Rightarrow> Child_error err
      | Some (piece, rest) \<Rightarrow> Child (build (GetStr flags piece)) OPEN None rest)"

text \<open>The pointer stays at the tag that ends a text; a text that ends the document with such a sign is refused.\<close>

definition XMLText_ParseDeep :: "XMLDocument_options \<Rightarrow> string \<Rightarrow> child" where
  "XMLText_ParseDeep opts p =
     (let flags = (text_flags (processEntities opts))\<lparr>NEEDS_WHITESPACE_COLLAPSING := collapseWhitespace opts\<rparr> in
      case ParseText ''<'' p of
        None \<Rightarrow> Child_error XML_ERROR_PARSING_TEXT
      | Some (piece, rest) \<Rightarrow>
          if rest \<noteq> [] then Child (XMLText (GetStr flags piece) False) OPEN None (''<'' @ rest) else Child_null)"

fun leaf_ParseDeep :: "XMLDocument_options \<Rightarrow> node_kind \<Rightarrow> string \<Rightarrow> child" where
  "leaf_ParseDeep opts Declaration_node p = parse_piece ''?>'' newline_flags XMLDeclaration XML_ERROR_PARSING_DECLARATION p"
| "leaf_ParseDeep opts Comment_node p = parse_piece ''-->'' newline_flags XMLComment XML_ERROR_PARSING_COMMENT p"
| "leaf_ParseDeep opts CData_node p = parse_piece '']]>'' newline_flags (\<lambda>t. XMLText t True) XML_ERROR_PARSING_CDATA p"
| "leaf_ParseDeep opts Unknown_node p = parse_piece ''>'' newline_flags XMLUnknown XML_ERROR_PARSING_UNKNOWN p"
| "leaf_ParseDeep opts Text_node p = XMLText_ParseDeep opts p"
| "leaf_ParseDeep opts Element_node p = Child_null"

text \<open>
  \<open>XMLElement::ParseDeep\<close>; \<open>deep\<close> parses the children. The closing form \<open></name>\<close> is parsed like an element, attributes
  included.
\<close>

definition XMLElement_ParseDeep :: "XMLDocument_options \<Rightarrow> (string \<Rightarrow> nodes option) \<Rightarrow> string \<Rightarrow> child option" where
  "XMLElement_ParseDeep opts deep p0 =
     (let p = SkipWhiteSpace p0;
          (closing, p) = (if p \<noteq> [] \<and> hd p = CHR ''/'' then (CLOSING, tl p) else (OPEN, p))
      in case ParseName p of
          None \<Rightarrow> Some Child_null
        | Some (name, p) \<Rightarrow>
            (case ParseAttributes (processEntities opts) closing [] p of
               Inl e \<Rightarrow> Some (Child_error e)
             | Inr (attrs, closing, p) \<Rightarrow>
                 if p = [] \<or> closing \<noteq> OPEN then Some (Child (XMLElement name attrs []) closing None p)
                 else (case deep p of
                     None \<Rightarrow> None
                   | Some (Ended cs) \<Rightarrow> Some Child_null
                   | Some (Failed e cs) \<Rightarrow> Some (Child_error e)
                   | Some (Closed_by endTag rest cs) \<Rightarrow> Some (Child (XMLElement name attrs cs) OPEN (Some endTag) rest))))"

fun is_declaration :: "dom \<Rightarrow> bool" where
  "is_declaration (XMLDeclaration _) = True"
| "is_declaration _ = False"

text \<open>A declaration stands in the document, with nothing but declarations before it.\<close>

definition well_located :: "bool \<Rightarrow> dom list \<Rightarrow> bool" where
  "well_located in_document cs = (in_document \<and> (cs = [] \<or> is_declaration (hd cs) \<and> is_declaration (last cs)))"

fun mismatched :: "dom \<Rightarrow> ElementClosingType \<Rightarrow> string option \<Rightarrow> bool" where
  "mismatched (XMLElement name _ _) closing None = (closing = OPEN)"
| "mismatched (XMLElement name _ _) closing (Some endTag) = (closing \<noteq> OPEN \<or> endTag \<noteq> name)"
| "mismatched _ _ _ = False"

text \<open>
  The loop of \<open>XMLNode::ParseDeep\<close> from the children read so far, at the depth \<open>PushDepth\<close> has counted; \<open>in_document\<close> tells
  whether it is the document's. Every round takes one unit of fuel, \<open>None\<close> stands for its end.
\<close>

fun ParseDeep_loop :: "XMLDocument_options \<Rightarrow> nat \<Rightarrow> nat \<Rightarrow> bool \<Rightarrow> dom list \<Rightarrow> string \<Rightarrow> nodes option" where
  "ParseDeep_loop opts 0 depth in_document cs p = None"
| "ParseDeep_loop opts (Suc fuel) depth in_document cs p =
     (case (if p = [] then None else Identify p) of
        None \<Rightarrow> Some (Ended cs)
      | Some (kind, q) \<Rightarrow>
          (case (if kind = Element_node
                 then XMLElement_ParseDeep opts
                   (\<lambda>r. if Suc depth = TINYXML2_MAX_ELEMENT_DEPTH then Some (Failed XML_ELEMENT_DEPTH_EXCEEDED [])
                        else ParseDeep_loop opts fuel (Suc depth) False [] r) q
                 else Some (leaf_ParseDeep opts kind q)) of
             None \<Rightarrow> None
           | Some Child_null \<Rightarrow> Some (Failed XML_ERROR_PARSING cs)
           | Some (Child_error e) \<Rightarrow> Some (Failed e cs)
           | Some (Child node closing endTag rest) \<Rightarrow>
               if is_declaration node \<and> \<not> well_located in_document cs then Some (Failed XML_ERROR_PARSING_DECLARATION cs)
               else (case (node, closing) of
                   (XMLElement name attrs _, CLOSING) \<Rightarrow> Some (Closed_by name rest cs)
                 | _ \<Rightarrow>
                     if mismatched node closing endTag then Some (Failed XML_ERROR_MISMATCHED_ELEMENT cs)
                     else ParseDeep_loop opts fuel depth in_document (cs @ [node]) rest)))"

text \<open>\<open>XMLDocument::Parse\<close> of the buffer, with fuel for each of its bytes: the error, the children and whether there is a mark of the byte order.\<close>

definition XMLDocument_Parse :: "XMLDocument_options \<Rightarrow> string \<Rightarrow> (XMLError \<times> dom list \<times> bool) option" where
  "XMLDocument_Parse opts charBuffer =
     (let (p, bom) = ReadBOM (SkipWhiteSpace charBuffer) in
      if p = [] then Some (XML_ERROR_EMPTY_DOCUMENT, [], bom)
      else (case ParseDeep_loop opts (Suc (length p)) 1 True [] p of
          None \<Rightarrow> None
        | Some (Ended cs) \<Rightarrow> Some (XML_SUCCESS, cs, bom)
        | Some (Closed_by endTag rest cs) \<Rightarrow> Some (XML_SUCCESS, cs, bom)
        | Some (Failed e cs) \<Rightarrow> Some (e, cs, bom)))"

text \<open>\<open>LoadFile\<close> of the bytes of the file, which are read as a C string; no bytes when it cannot be opened.\<close>

definition XMLDocument_LoadFile :: "XMLDocument_options \<Rightarrow> string option \<Rightarrow> (XMLError \<times> dom list \<times> bool) option" where
  "XMLDocument_LoadFile opts content =
     (case content of
        None \<Rightarrow> Some (XML_ERROR_FILE_NOT_FOUND, [], False)
      | Some bytes \<Rightarrow> if bytes = [] then Some (XML_ERROR_EMPTY_DOCUMENT, [], False) else XMLDocument_Parse opts (c_string bytes))"

section \<open>The fuel is enough\<close>

lemma ParseAttributes_shorter:
  "ParseAttributes pe closing attrs p = Inr (attrs', closing', rest) \<Longrightarrow> length rest < length p"
proof (induction pe closing attrs p rule: ParseAttributes.induct)
  case (1 pe closing attrs p0)
  let ?p = "SkipWhiteSpace p0"
  show ?case
  proof (cases "?p \<noteq> [] \<and> IsNameStartChar (hd ?p)")
    case True
    then obtain name val p' where a: "XMLAttribute_ParseDeep pe ?p = Some ((name, val), p')" "FindAttribute name attrs = None"
        "ParseAttributes pe closing (attrs @ [(name, val)]) p' = Inr (attrs', closing', rest)"
      using "1.prems" by (auto simp: ParseAttributes.simps [of pe closing attrs p0] Let_def split: option.splits prod.splits if_splits)
    with "1.IH" [of ?p] True have "length rest < length p'" by simp
    then show ?thesis
      using attribute_shorter [OF a(1)] SkipWhiteSpace_shorter [of p0] by simp
  next
    case False
    with "1.prems" SkipWhiteSpace_shorter [of p0] show ?thesis
      by (cases ?p) (auto simp: ParseAttributes.simps [of pe closing attrs p0] Let_def split: if_splits)
  qed
qed

lemma parse_piece_shorter: "parse_piece endTag flags build err p = Child node c e rest \<Longrightarrow> endTag \<noteq> [] \<Longrightarrow> length rest < length p"
  by (auto simp: parse_piece_def split: option.splits dest: ParseText_shorter)

lemma ParseText_text:
  "ParseText [c] p = Some (piece, rest) \<longleftrightarrow> p = piece @ c # rest \<and> c \<notin> set piece"
proof (induction p arbitrary: piece)
  case (Cons d ds)
  then show ?case
    by (cases "d = c"; cases piece) (auto simp: starts_with_def)
qed simp

lemma leaf_shorter:
  assumes "Identify p = Some (kind, q)" and "leaf_ParseDeep opts kind q = Child node c e rest"
  shows "length rest < length p"
proof (cases "kind = Text_node")
  case True
  with assms have q: "q = p" and start: "SkipWhiteSpace p \<noteq> []" "\<not> starts_with (SkipWhiteSpace p) ''<''"
    by (auto simp: Identify_def Let_def split: if_splits)
  from assms(2) True obtain piece r where r: "p = piece @ CHR ''<'' # r" "rest = CHR ''<'' # r"
    by (auto simp: q XMLText_ParseDeep_def Let_def ParseText_text split: option.splits if_splits)
  have "piece \<noteq> []"
    using start r(1) by (auto simp: SkipWhiteSpace_def IsWhiteSpace_def is_space_def starts_with_def)
  with r show ?thesis by simp
next
  case False
  from assms(1) SkipWhiteSpace_shorter [of p] False have "length q \<le> length p"
    by (auto simp: Identify_def Let_def split: if_splits)
  moreover from assms(2) False have "length rest < length q"
    by (cases kind) (auto dest!: parse_piece_shorter)
  ultimately show ?thesis by simp
qed

lemma element_shorter:
  assumes "XMLElement_ParseDeep opts deep q = Some (Child node c e rest)"
    and "\<And>r e rest cs. deep r = Some (Closed_by e rest cs) \<Longrightarrow> length rest < length r"
  shows "length rest < length q"
proof -
  from assms(1) obtain closing p name p1 attrs closing' p2 where
    start: "(if SkipWhiteSpace q \<noteq> [] \<and> hd (SkipWhiteSpace q) = CHR ''/'' then (CLOSING, tl (SkipWhiteSpace q)) else (OPEN, SkipWhiteSpace q)) = (closing, p)"
    and name: "ParseName p = Some (name, p1)" and attrs: "ParseAttributes (processEntities opts) closing [] p1 = Inr (attrs, closing', p2)"
    and rest: "rest = p2 \<or> (\<exists>e cs. deep p2 = Some (Closed_by e rest cs))"
    by (auto simp: XMLElement_ParseDeep_def Let_def split: prod.splits option.splits sum.splits if_splits nodes.splits)
  have "length p \<le> length q"
    using start SkipWhiteSpace_shorter [of q] by (auto split: if_splits)
  moreover have "length rest \<le> length p2"
    using rest assms(2) by (auto simp: less_imp_le)
  ultimately show ?thesis
    using ParseName_shorter [OF name] ParseAttributes_shorter [OF attrs] by simp
qed

lemma Identify_element: "Identify p = Some (Element_node, q) \<Longrightarrow> length q < length p"
  using SkipWhiteSpace_shorter [of p] by (cases "SkipWhiteSpace p") (auto simp: Identify_def Let_def split: if_splits)

abbreviation parse_children :: "XMLDocument_options \<Rightarrow> nat \<Rightarrow> nat \<Rightarrow> string \<Rightarrow> nodes option" where
  "parse_children opts fuel depth r \<equiv>
     (if Suc depth = TINYXML2_MAX_ELEMENT_DEPTH then Some (Failed XML_ELEMENT_DEPTH_EXCEEDED [])
      else ParseDeep_loop opts fuel (Suc depth) False [] r)"

abbreviation parse_child :: "XMLDocument_options \<Rightarrow> nat \<Rightarrow> nat \<Rightarrow> node_kind \<Rightarrow> string \<Rightarrow> child option" where
  "parse_child opts fuel depth kind q \<equiv>
     (if kind = Element_node then XMLElement_ParseDeep opts (parse_children opts fuel depth) q else Some (leaf_ParseDeep opts kind q))"

lemma ParseDeep_loop_shorter:
  "ParseDeep_loop opts fuel depth in_document cs p = Some (Closed_by e rest cs') \<Longrightarrow> length rest < length p"
proof (induction fuel arbitrary: depth in_document cs p e rest cs')
  case (Suc fuel)
  have child: "length rest < length p"
    if "Identify p = Some (kind, q)" "parse_child opts fuel depth kind q = Some (Child node c e rest)" for kind q node c e rest
  proof (cases "kind = Element_node")
    case True
    with that have "XMLElement_ParseDeep opts (parse_children opts fuel depth) q = Some (Child node c e rest)" by simp
    then have "length rest < length q"
      by (rule element_shorter) (auto split: if_splits dest: Suc.IH)
    with Identify_element that(1) True show ?thesis by fastforce
  next
    case False
    with that show ?thesis by (auto intro: leaf_shorter)
  qed
  from Suc.prems obtain kind q node c e' r where i: "Identify p = Some (kind, q)"
    and n: "parse_child opts fuel depth kind q = Some (Child node c e' r)"
    and r: "rest = r \<or> ParseDeep_loop opts fuel depth in_document (cs @ [node]) r = Some (Closed_by e rest cs')"
    by (auto split: option.splits if_splits prod.splits child.splits dom.splits ElementClosingType.splits)
  from child [OF i n] r Suc.IH [of depth in_document "cs @ [node]" r e rest cs'] show ?case by auto
qed simp

lemma element_some:
  assumes "\<And>r. length r < length q \<Longrightarrow> deep r \<noteq> None"
  shows "XMLElement_ParseDeep opts deep q \<noteq> None"
proof
  assume "XMLElement_ParseDeep opts deep q = None"
  then obtain closing p name p1 attrs closing' p2 where
    start: "(if SkipWhiteSpace q \<noteq> [] \<and> hd (SkipWhiteSpace q) = CHR ''/'' then (CLOSING, tl (SkipWhiteSpace q)) else (OPEN, SkipWhiteSpace q)) = (closing, p)"
    and name: "ParseName p = Some (name, p1)" and attrs: "ParseAttributes (processEntities opts) closing [] p1 = Inr (attrs, closing', p2)"
    and none: "deep p2 = None"
    by (auto simp: XMLElement_ParseDeep_def Let_def split: prod.splits option.splits sum.splits if_splits nodes.splits)
  have "length p \<le> length q"
    using start SkipWhiteSpace_shorter [of q] by (auto split: if_splits)
  with ParseName_shorter [OF name] ParseAttributes_shorter [OF attrs] have "length p2 < length q" by simp
  with assms none show False by blast
qed

lemma child_shorter:
  assumes "Identify p = Some (kind, q)" and "parse_child opts fuel depth kind q = Some (Child node c e rest)"
  shows "length rest < length p"
proof (cases "kind = Element_node")
  case True
  with assms have "XMLElement_ParseDeep opts (parse_children opts fuel depth) q = Some (Child node c e rest)" by simp
  then have "length rest < length q"
    by (rule element_shorter) (auto split: if_splits dest: ParseDeep_loop_shorter)
  with Identify_element assms(1) True show ?thesis by fastforce
qed (use assms in \<open>auto intro: leaf_shorter\<close>)

lemma ParseDeep_loop_ends: "length p < fuel \<Longrightarrow> ParseDeep_loop opts fuel depth in_document cs p \<noteq> None"
proof (induction fuel arbitrary: depth in_document cs p)
  case (Suc fuel)
  show ?case
  proof (cases "if p = [] then None else Identify p")
    case None
    then show ?thesis by simp
  next
    case (Some kq)
    then obtain kind q where i: "Identify p = Some (kind, q)" "p \<noteq> []" "kq = (kind, q)"
      by (cases kq) (auto split: if_splits)
    have "parse_child opts fuel depth kind q \<noteq> None"
    proof (cases "kind = Element_node")
      case True
      with i Identify_element have "length q < length p" by blast
      with Suc have "XMLElement_ParseDeep opts (parse_children opts fuel depth) q \<noteq> None"
        by (intro element_some) auto
      with True show ?thesis by simp
    qed simp
    then obtain ch where ch: "parse_child opts fuel depth kind q = Some ch"
      by blast
    show ?thesis
    proof (cases ch)
      case (Child node c e rest)
      from child_shorter [OF i(1) ch [unfolded Child]] Suc.prems
      have "ParseDeep_loop opts fuel depth in_document (cs @ [node]) rest \<noteq> None"
        by (intro Suc.IH) simp
      with i ch Child show ?thesis
        by (auto split: dom.splits ElementClosingType.splits)
    qed (use i ch in auto)
  qed
qed simp

text \<open>
  Property C26. Parsing ends: for every buffer, however its tags are nested or broken, the fuel of one unit for each byte is
  enough, for every document that can be loaded the answer is a document or one of the errors.
\<close>

theorem parsing_ends: "\<exists>err cs bom. XMLDocument_LoadFile opts content = Some (err, cs, bom)"
proof (cases content)
  case (Some bytes)
  have "\<exists>err cs bom. XMLDocument_Parse opts buf = Some (err, cs, bom)" for buf
  proof -
    obtain p bom where p: "ReadBOM (SkipWhiteSpace buf) = (p, bom)"
      by fastforce
    obtain r where "ParseDeep_loop opts (Suc (length p)) 1 True [] p = Some r"
      using ParseDeep_loop_ends [of p "Suc (length p)" opts 1 True "[]"] by blast
    with p show ?thesis
      by (cases r) (simp_all add: XMLDocument_Parse_def del: ParseDeep_loop.simps)
  qed
  with Some show ?thesis
    by (auto simp: XMLDocument_LoadFile_def)
next
  case None
  then have "XMLDocument_LoadFile opts content = Some (XML_ERROR_FILE_NOT_FOUND, [], False)"
    by (simp add: XMLDocument_LoadFile_def)
  then show ?thesis by blast
qed

end
