(* ===== verification/Xpcf_XmlPrint.thy ===== *)
theory Xpcf_XmlPrint
  imports Xpcf_XmlParse
begin

text \<open>
  The printer of the vendored \<^verbatim>\<open>src/tinyxml2.cpp\<close>, with which the framework saves registries and configurations, and that
  what it prints is parsed into the document that was printed.
\<close>

section \<open>The printer\<close>

record XMLPrinter =
  xp_elementJustOpened :: bool
  xp_stack :: "string list"
  xp_firstElement :: bool
  xp_depth :: int
  xp_textDepth :: int
  xp_processEntities :: bool
  xp_compactMode :: bool
  xp_out :: string

definition newXMLPrinter :: "bool \<Rightarrow> XMLPrinter" where
  "newXMLPrinter compact = \<lparr>xp_elementJustOpened = False, xp_stack = [], xp_firstElement = True, xp_depth = 0, xp_textDepth = -1,
     xp_processEntities = True, xp_compactMode = compact, xp_out = ''''\<rparr>"

definition print_text :: "string \<Rightarrow> XMLPrinter \<Rightarrow> XMLPrinter" where
  "print_text data pr = pr\<lparr>xp_out := xp_out pr @ data\<rparr>"

definition PrintSpace :: "int \<Rightarrow> XMLPrinter \<Rightarrow> XMLPrinter" where
  "PrintSpace depth pr = print_text (concat (replicate (nat depth) ''    '')) pr"

definition SealElementIfJustOpened :: "XMLPrinter \<Rightarrow> XMLPrinter" where
  "SealElementIfJustOpened pr =
     (if \<not> xp_elementJustOpened pr then pr else print_text ''>'' (pr\<lparr>xp_elementJustOpened := False\<rparr>))"

definition PrepareForNewNode :: "bool \<Rightarrow> XMLPrinter \<Rightarrow> XMLPrinter" where
  "PrepareForNewNode compactMode pr0 =
     (let pr = SealElementIfJustOpened pr0 in
      if compactMode then pr
      else (let pr = (if xp_firstElement pr then PrintSpace (xp_depth pr) pr
                      else if xp_textDepth pr < 0 then PrintSpace (xp_depth pr) (print_text [LF] pr) else pr)
            in pr\<lparr>xp_firstElement := False\<rparr>))"

definition OpenElement :: "string \<Rightarrow> bool \<Rightarrow> XMLPrinter \<Rightarrow> XMLPrinter" where
  "OpenElement name compactMode pr0 =
     (let pr = PrepareForNewNode compactMode pr0;
          pr = pr\<lparr>xp_stack := name # xp_stack pr\<rparr>;
          pr = print_text name (print_text ''<'' pr)
      in pr\<lparr>xp_elementJustOpened := True, xp_depth := xp_depth pr + 1\<rparr>)"

definition PushAttribute :: "string \<times> string \<Rightarrow> XMLPrinter \<Rightarrow> XMLPrinter" where
  "PushAttribute = (\<lambda>(name, val) pr.
     print_text [CHR 0x22] (print_text (PrintString (xp_processEntities pr) False val)
       (print_text (CHR ''='' # [CHR 0x22]) (print_text name (print_text '' '' pr)))))"

definition CloseElement :: "bool \<Rightarrow> XMLPrinter \<Rightarrow> XMLPrinter" where
  "CloseElement compactMode pr0 =
     (let pr = pr0\<lparr>xp_depth := xp_depth pr0 - 1\<rparr>;
          name = hd (xp_stack pr);
          pr = pr\<lparr>xp_stack := tl (xp_stack pr)\<rparr>;
          pr = (if xp_elementJustOpened pr then print_text ''/>'' pr
                else (let pr = (if xp_textDepth pr < 0 \<and> \<not> compactMode then PrintSpace (xp_depth pr) (print_text [LF] pr) else pr)
                      in print_text ''>'' (print_text name (print_text ''</'' pr))));
          pr = (if xp_textDepth pr = xp_depth pr then pr\<lparr>xp_textDepth := -1\<rparr> else pr);
          pr = (if xp_depth pr = 0 \<and> \<not> compactMode then print_text [LF] pr else pr)
      in pr\<lparr>xp_elementJustOpened := False\<rparr>)"

definition PushText :: "string \<Rightarrow> bool \<Rightarrow> XMLPrinter \<Rightarrow> XMLPrinter" where
  "PushText txt cdata pr0 =
     (let pr = SealElementIfJustOpened (pr0\<lparr>xp_textDepth := xp_depth pr0 - 1\<rparr>) in
      if cdata then print_text '']]>'' (print_text txt (print_text ''<![CDATA['' pr))
      else print_text (PrintString (xp_processEntities pr) True txt) pr)"

definition PushComment :: "string \<Rightarrow> XMLPrinter \<Rightarrow> XMLPrinter" where
  "PushComment comment pr =
     print_text ''-->'' (print_text comment (print_text ''<!--'' (PrepareForNewNode (xp_compactMode pr) pr)))"

definition PushDeclaration :: "string \<Rightarrow> XMLPrinter \<Rightarrow> XMLPrinter" where
  "PushDeclaration val pr =
     print_text ''?>'' (print_text val (print_text ''<?'' (PrepareForNewNode (xp_compactMode pr) pr)))"

definition PushUnknown :: "string \<Rightarrow> XMLPrinter \<Rightarrow> XMLPrinter" where
  "PushUnknown val pr =
     print_text ''>'' (print_text val (print_text ''<!'' (PrepareForNewNode (xp_compactMode pr) pr)))"

definition PushHeader :: "bool \<Rightarrow> bool \<Rightarrow> XMLPrinter \<Rightarrow> XMLPrinter" where
  "PushHeader writeBOM writeDec pr0 =
     (let pr = (if writeBOM then print_text [CHR 0xEF, CHR 0xBB, CHR 0xBF] pr0 else pr0)
      in if writeDec then PushDeclaration (''xml version='' @ [CHR 0x22] @ ''1.0'' @ [CHR 0x22]) pr else pr)"

section \<open>Visiting\<close>

definition VisitEnter_document :: "bool \<Rightarrow> bool \<Rightarrow> XMLPrinter \<Rightarrow> XMLPrinter" where
  "VisitEnter_document pe hasBOM pr0 =
     (let pr = pr0\<lparr>xp_processEntities := pe\<rparr> in if hasBOM then PushHeader True False pr else pr)"

text \<open>The mode of an element is the printer's, whichever its parent is.\<close>

definition VisitEnter_element :: "string \<Rightarrow> (string \<times> string) list \<Rightarrow> XMLPrinter \<Rightarrow> XMLPrinter" where
  "VisitEnter_element name attrs pr = fold PushAttribute attrs (OpenElement name (xp_compactMode pr) pr)"

definition VisitExit_element :: "XMLPrinter \<Rightarrow> XMLPrinter" where
  "VisitExit_element pr = CloseElement (xp_compactMode pr) pr"

fun Accept :: "dom \<Rightarrow> XMLPrinter \<Rightarrow> XMLPrinter"
  and Accept_children :: "dom list \<Rightarrow> XMLPrinter \<Rightarrow> XMLPrinter" where
  "Accept (XMLElement name attrs cs) pr = VisitExit_element (Accept_children cs (VisitEnter_element name attrs pr))"
| "Accept (XMLText txt cdata) pr = PushText txt cdata pr"
| "Accept (XMLComment comment) pr = PushComment comment pr"
| "Accept (XMLDeclaration val) pr = PushDeclaration val pr"
| "Accept (XMLUnknown val) pr = PushUnknown val pr"
| "Accept_children [] pr = pr"
| "Accept_children (c # cs) pr = Accept_children cs (Accept c pr)"

text \<open>\<open>SaveFile\<close>: the bytes that are written.\<close>

definition XMLDocument_SaveFile :: "XMLDocument_options \<Rightarrow> bool \<Rightarrow> bool \<Rightarrow> dom list \<Rightarrow> string" where
  "XMLDocument_SaveFile opts hasBOM compact cs =
     xp_out (Accept_children cs (VisitEnter_document (processEntities opts) hasBOM (newXMLPrinter compact)))"

section \<open>What can be read back\<close>

definition name_ok :: "string \<Rightarrow> bool" where
  "name_ok n \<longleftrightarrow> n \<noteq> [] \<and> IsNameStartChar (hd n) \<and> list_all IsNameChar n"

text \<open>The end tag does not end the piece early, wherever it may start.\<close>

definition ends_at :: "string \<Rightarrow> string \<Rightarrow> bool" where
  "ends_at endTag piece \<longleftrightarrow> ParseText endTag (piece @ endTag) = Some (piece, [])"

definition attributes_ok :: "(string \<times> string) list \<Rightarrow> bool" where
  "attributes_ok attrs \<longleftrightarrow> list_all (\<lambda>(n, v). name_ok n \<and> xml_plain v) attrs \<and> distinct (map fst attrs)"

text \<open>
  The nodes that survive: names are names, attributes differ, no value has a carriage return or the character zero, a text has
  more than white space and no text follows another, comments do not contain their end, and the elements with children nest
  at most \<open>h\<close> deep. \<open>prev\<close> tells whether a text is before the nodes.
\<close>

fun printable :: "nat \<Rightarrow> bool \<Rightarrow> dom list \<Rightarrow> bool" where
  "printable h prev [] = True"
| "printable h prev (XMLElement name attrs cs # rest) =
     (name_ok name \<and> attributes_ok attrs \<and> (cs = [] \<or> 0 < h \<and> printable (h - 1) False cs) \<and> printable h False rest)"
| "printable h prev (XMLText txt cdata # rest) =
     (xml_plain txt \<and>
      (if cdata then ends_at '']]>'' txt \<and> printable h False rest
       else \<not> prev \<and> SkipWhiteSpace txt \<noteq> [] \<and> printable h True rest))"
| "printable h prev (XMLComment comment # rest) = (xml_plain comment \<and> ends_at ''-->'' comment \<and> printable h False rest)"
| "printable h prev (_ # rest) = False"

section \<open>Texts of nodes\<close>

text \<open>
  \<open>written pe h prev cs s\<close>: \<open>s\<close> is a text of the nodes \<open>cs\<close>. White space may stand before markup, except directly behind a
  text, whose part it would be. Values and texts are any pieces that are read as them.
\<close>

inductive attributes_written :: "bool \<Rightarrow> (string \<times> string) list \<Rightarrow> string \<Rightarrow> bool" for pe where
  no_attributes: "attributes_written pe [] ''''"
| one_attribute: "name_ok n \<Longrightarrow> CHR 0x22 \<notin> set piece \<Longrightarrow> NUL \<notin> set piece \<Longrightarrow> GetStr (text_flags pe) piece = v \<Longrightarrow> attributes_written pe as s \<Longrightarrow>
    attributes_written pe ((n, v) # as) ('' '' @ n @ CHR ''='' # CHR 0x22 # piece @ CHR 0x22 # s)"

definition blank :: "string \<Rightarrow> bool" where
  "blank s \<longleftrightarrow> list_all IsWhiteSpace s"

inductive written :: "bool \<Rightarrow> nat \<Rightarrow> bool \<Rightarrow> dom list \<Rightarrow> string \<Rightarrow> bool" for pe where
  written_Nil: "blank ws \<Longrightarrow> (prev \<Longrightarrow> ws = []) \<Longrightarrow> written pe h prev [] ws"
| written_text: "SkipWhiteSpace piece \<noteq> [] \<Longrightarrow> CHR ''<'' \<notin> set piece \<Longrightarrow> NUL \<notin> set piece \<Longrightarrow> GetStr (text_flags pe) piece = t \<Longrightarrow>
    written pe h True cs s \<Longrightarrow> written pe h False (XMLText t False # cs) (piece @ s)"
| written_cdata: "ends_at '']]>'' t \<Longrightarrow> xml_plain t \<Longrightarrow> written pe h False cs s \<Longrightarrow>
    written pe h prev (XMLText t True # cs) (''<![CDATA['' @ t @ '']]>'' @ s)"
| written_comment: "blank ws \<Longrightarrow> (prev \<Longrightarrow> ws = []) \<Longrightarrow> ends_at ''-->'' t \<Longrightarrow> xml_plain t \<Longrightarrow> written pe h False cs s \<Longrightarrow>
    written pe h prev (XMLComment t # cs) (ws @ ''<!--'' @ t @ ''-->'' @ s)"
| written_empty: "blank ws \<Longrightarrow> (prev \<Longrightarrow> ws = []) \<Longrightarrow> name_ok n \<Longrightarrow> attributes_written pe as a \<Longrightarrow> distinct (map fst as) \<Longrightarrow>
    written pe h False cs s \<Longrightarrow> written pe h prev (XMLElement n as [] # cs) (ws @ ''<'' @ n @ a @ ''/>'' @ s)"
| written_element: "blank ws \<Longrightarrow> (prev \<Longrightarrow> ws = []) \<Longrightarrow> name_ok n \<Longrightarrow> attributes_written pe as a \<Longrightarrow> distinct (map fst as) \<Longrightarrow>
    written pe h False bs body \<Longrightarrow> written pe (Suc h) False cs s \<Longrightarrow>
    written pe (Suc h) prev (XMLElement n as bs # cs) (ws @ ''<'' @ n @ a @ ''>'' @ body @ ''</'' @ n @ ''>'' @ s)"
section \<open>Parsing what is written\<close>

lemma SkipWhiteSpace_blank: "blank ws \<Longrightarrow> SkipWhiteSpace (ws @ p) = SkipWhiteSpace p"
  by (induction ws) (auto simp: blank_def SkipWhiteSpace_def)

lemma SkipWhiteSpace_stop: "\<not> IsWhiteSpace c \<Longrightarrow> SkipWhiteSpace (c # p) = c # p"
  by (simp add: SkipWhiteSpace_def)

lemma markup_not_white [simp]:
  "\<not> IsWhiteSpace CHR ''<''" "\<not> IsWhiteSpace CHR ''>''" "\<not> IsWhiteSpace CHR ''/''" "\<not> IsWhiteSpace CHR ''=''" "\<not> IsWhiteSpace CHR 0x22"
  "IsWhiteSpace CHR '' ''" "IsWhiteSpace LF"
  by (simp_all add: IsWhiteSpace_def IsUTF8Continuation_def is_space_def)

lemma markup_not_name [simp]:
  "\<not> IsNameChar CHR ''>''" "\<not> IsNameChar CHR ''/''" "\<not> IsNameChar CHR ''=''" "\<not> IsNameChar CHR '' ''"
  "\<not> IsNameStartChar CHR ''>''" "\<not> IsNameStartChar CHR ''/''" "\<not> IsNameStartChar CHR ''!''" "\<not> IsNameStartChar CHR ''?''"
  by (simp_all add: IsNameChar_def IsNameStartChar_def is_alpha_def is_digit_def)

lemma name_start_not_white: "IsNameStartChar c \<Longrightarrow> \<not> IsWhiteSpace c"
  by (auto simp: IsNameStartChar_def IsWhiteSpace_def IsUTF8Continuation_def is_alpha_def is_space_def Let_def split: if_splits)

lemma ParseName_name:
  assumes "name_ok n" and "\<not> IsNameChar c"
  shows "ParseName (n @ c # rest) = Some (n, c # rest)"
  using assms by (cases n) (auto simp: name_ok_def ParseName_def takeWhile_append list_all_iff)

lemma ParseText_length: "ParseText endTag p = Some (piece, rest) \<Longrightarrow> length endTag \<le> length p"
  by (induction p arbitrary: piece) (fastforce split: if_splits dest: starts_with_length)+

lemma ParseText_more:
  "ParseText endTag p = Some (piece, rest) \<Longrightarrow> ParseText endTag (p @ q) = Some (piece, rest @ q)"
proof (induction p arbitrary: piece)
  case (Cons c cs)
  show ?case
  proof (cases "starts_with (c # cs) endTag")
    case True
    then have "starts_with (c # cs @ q) endTag"
      using starts_with_length [OF True] by (simp add: starts_with_def flip: append_Cons)
    then have "ParseText endTag ((c # cs) @ q) = Some ([], drop (length endTag) ((c # cs) @ q))"
      by simp
    moreover from True Cons.prems have "piece = []" "rest = drop (length endTag) (c # cs)"
      by simp_all
    ultimately show ?thesis
      using starts_with_length [OF True] by (simp del: append_Cons)
  next
    case False
    with Cons.prems obtain piece' where piece': "ParseText endTag cs = Some (piece', rest)" "piece = c # piece'"
      by auto
    from ParseText_length [OF piece'(1)] have "length endTag \<le> length cs" .
    with False have "\<not> starts_with (c # cs @ q) endTag"
      by (simp add: starts_with_def flip: append_Cons)
    with piece' Cons.IH show ?thesis by simp
  qed
qed simp

lemma ends_at_rest: "ends_at endTag piece \<Longrightarrow> ParseText endTag (piece @ endTag @ rest) = Some (piece, rest)"
  using ParseText_more [of endTag "piece @ endTag" piece "[]" rest] by (simp add: ends_at_def)

lemma ParseText_char: "c \<notin> set piece \<Longrightarrow> ParseText [c] (piece @ c # rest) = Some (piece, rest)"
  by (simp add: ParseText_text)

lemma attribute_written:
  assumes "name_ok n" and "CHR 0x22 \<notin> set piece" and "GetStr (text_flags pe) piece = v"
  shows "XMLAttribute_ParseDeep pe (n @ CHR ''='' # CHR 0x22 # piece @ CHR 0x22 # rest) = Some ((n, v), rest)"
  using assms by (simp add: XMLAttribute_ParseDeep_def ParseName_name SkipWhiteSpace_stop ParseText_char)

lemma FindAttribute_fresh: "n \<notin> fst ` set as \<Longrightarrow> FindAttribute n as = None"
  by (induction n as rule: FindAttribute.induct) auto

lemma attributes_parsed:
  assumes "attributes_written pe as a" and "distinct (map fst (acc @ as))"
  shows "ParseAttributes pe closing acc (a @ rest) = ParseAttributes pe closing (acc @ as) rest"
  using assms
proof (induction arbitrary: acc rule: attributes_written.induct)
  case (one_attribute n piece v as s)
  let ?p = "n @ CHR ''='' # CHR 0x22 # piece @ CHR 0x22 # s @ rest"
  from one_attribute.hyps(1) have n: "n \<noteq> []" "IsNameStartChar (hd n)" "\<not> IsWhiteSpace (hd n)"
    by (auto simp: name_ok_def name_start_not_white)
  then have "SkipWhiteSpace ('' '' @ ?p) = ?p"
    by (cases n) (simp_all add: SkipWhiteSpace_def)
  moreover have "FindAttribute n acc = None"
    using one_attribute.prems by (intro FindAttribute_fresh) auto
  ultimately have "ParseAttributes pe closing acc ('' '' @ ?p) = ParseAttributes pe closing (acc @ [(n, v)]) (s @ rest)"
    using n by (subst ParseAttributes.simps) (simp add: Let_def attribute_written [OF one_attribute.hyps(1,2,4)])
  with one_attribute show ?case by simp
qed simp

lemma attributes_end:
  "ParseAttributes pe closing as (CHR ''>'' # rest) = Inr (as, closing, rest)"
  "ParseAttributes pe closing as (CHR ''/'' # CHR ''>'' # rest) = Inr (as, CLOSED, rest)"
  by (simp_all add: ParseAttributes.simps [of _ _ _ "_ # _"] SkipWhiteSpace_stop byte_at_def)

lemma attributes_start: "attributes_written pe as a \<Longrightarrow> a = [] \<or> hd a = CHR '' ''"
  by (cases rule: attributes_written.cases) auto

lemma name_before_attributes:
  assumes "name_ok n" and "attributes_written pe as a" and "\<not> IsNameChar c"
  shows "ParseName (n @ a @ c # rest) = Some (n, a @ c # rest)"
  using assms attributes_start [OF assms(2)] by (cases a) (auto simp: ParseName_name)

lemma name_head:
  assumes "name_ok n"
  obtains c cs where "n = c # cs" "IsNameStartChar c" "c \<noteq> CHR ''!''" "c \<noteq> CHR ''?''" "c \<noteq> CHR ''/''" "\<not> IsWhiteSpace c"
  using assms by (cases n) (auto simp: name_ok_def name_start_not_white intro!: that)

lemma Identify_tag:
  assumes "blank ws" and "c \<noteq> CHR ''!''" and "c \<noteq> CHR ''?''"
  shows "Identify (ws @ CHR ''<'' # c # p) = Some (Element_node, c # p)"
  using assms by (simp add: Identify_def SkipWhiteSpace_blank SkipWhiteSpace_stop starts_with_def)

lemma Identify_comment: "blank ws \<Longrightarrow> Identify (ws @ ''<!--'' @ p) = Some (Comment_node, p)"
  by (simp add: Identify_def SkipWhiteSpace_blank SkipWhiteSpace_stop starts_with_def)

lemma Identify_cdata: "Identify (''<![CDATA['' @ p) = Some (CData_node, p)"
  by (simp add: Identify_def SkipWhiteSpace_stop starts_with_def)

lemma Identify_text:
  assumes "SkipWhiteSpace piece \<noteq> []" and "CHR ''<'' \<notin> set piece"
  shows "Identify (piece @ p) = Some (Text_node, piece @ p)"
proof -
  from assms have "hd (SkipWhiteSpace piece) \<in> set piece"
    by (metis SkipWhiteSpace_def hd_in_set set_dropWhileD)
  moreover have "SkipWhiteSpace (piece @ p) = SkipWhiteSpace piece @ p"
    using assms(1) by (auto simp: SkipWhiteSpace_def dropWhile_append)
  ultimately show ?thesis
    using assms by (cases "SkipWhiteSpace piece") (auto simp: Identify_def starts_with_def Let_def)
qed

lemma Identify_blank: "blank ws \<Longrightarrow> Identify ws = None"
  using SkipWhiteSpace_blank [of ws "[]"] by (simp add: Identify_def SkipWhiteSpace_def)

lemma loop_child:
  assumes "Identify p = Some (kind, q)" and "parse_child opts fuel depth kind q = Some (Child node c e rest)"
    and "\<not> is_declaration node" and "c \<noteq> CLOSING" and "\<not> mismatched node c e"
  shows "ParseDeep_loop opts (Suc fuel) depth in_document acc p = ParseDeep_loop opts fuel depth in_document (acc @ [node]) rest"
proof -
  from assms(1) have "p \<noteq> []"
    by (auto simp: Identify_def SkipWhiteSpace_def)
  with assms show ?thesis
    by (cases node; cases c) (simp_all del: mismatched.simps)
qed

lemma loop_closing:
  assumes "name_ok n" and "blank ws"
  shows "ParseDeep_loop opts (Suc fuel) depth in_document acc (ws @ ''</'' @ n @ ''>'' @ rest) = Some (Closed_by n rest acc)"
proof -
  have "Identify (ws @ ''</'' @ n @ ''>'' @ rest) = Some (Element_node, ''/'' @ n @ ''>'' @ rest)"
    using Identify_tag [OF assms(2), of "CHR ''/''" "n @ ''>'' @ rest"] by simp
  moreover have "XMLElement_ParseDeep opts deep (''/'' @ n @ ''>'' @ rest) = Some (Child (XMLElement n [] []) CLOSING None rest)" for deep
    using ParseName_name [OF assms(1), of "CHR ''>''" rest]
    by (simp add: XMLElement_ParseDeep_def SkipWhiteSpace_stop attributes_end)
  ultimately show ?thesis by simp
qed

lemma parse_piece_end:
  "ends_at endTag t \<Longrightarrow> xml_plain t \<Longrightarrow> parse_piece endTag newline_flags build err (t @ endTag @ p) = Child (build t) OPEN None p"
  by (simp add: parse_piece_def ends_at_rest GetStr_value newline_flags_def no_flags_def text_value_plain c_string_plain)

lemma written_behind_text: "written pe h True cs s \<Longrightarrow> s = [] \<or> (\<exists>c r. s = CHR ''<'' # c # r)"
  by (cases rule: written.cases) (auto simp: neq_Nil_conv append_eq_Cons_conv name_ok_def)

lemma text_parsed:
  assumes "SkipWhiteSpace piece \<noteq> []" and "CHR ''<'' \<notin> set piece" and "\<not> collapseWhitespace opts"
  shows "leaf_ParseDeep opts Text_node (piece @ CHR ''<'' # c # r) =
    Child (XMLText (GetStr (text_flags (processEntities opts)) piece) False) OPEN None (CHR ''<'' # c # r)"
  using assms ParseText_char [of "CHR ''<''" piece "c # r"]
  by (simp add: XMLText_ParseDeep_def text_flags_def newline_flags_def no_flags_def)

lemma element_parsed:
  assumes "name_ok n" and "attributes_written (processEntities opts) as a" and "distinct (map fst as)"
  shows "XMLElement_ParseDeep opts deep (n @ a @ ''/>'' @ rest) = Some (Child (XMLElement n as []) CLOSED None rest)"
    and "rest \<noteq> [] \<Longrightarrow> deep rest = Some (Closed_by m r bs) \<Longrightarrow>
      XMLElement_ParseDeep opts deep (n @ a @ ''>'' @ rest) = Some (Child (XMLElement n as bs) OPEN (Some m) r)"
proof -
  from assms(1) obtain c cs where n: "n = c # cs" "c \<noteq> CHR ''/''" "\<not> IsWhiteSpace c"
    by (rule name_head)
  note parts = XMLElement_ParseDeep_def SkipWhiteSpace_stop attributes_end
    attributes_parsed [OF assms(2), of "[]", simplified, OF assms(3)] name_before_attributes [OF assms(1,2), unfolded n, simplified]
  show "XMLElement_ParseDeep opts deep (n @ a @ ''/>'' @ rest) = Some (Child (XMLElement n as []) CLOSED None rest)"
    using n by (simp add: parts)
  show "XMLElement_ParseDeep opts deep (n @ a @ ''>'' @ rest) = Some (Child (XMLElement n as bs) OPEN (Some m) r)"
    if "rest \<noteq> []" "deep rest = Some (Closed_by m r bs)"
    using n that by (simp add: parts)
qed

lemma parse_written:
  assumes "written (processEntities opts) h prev cs s" and "\<not> collapseWhitespace opts"
    and "\<And>fuel acc ws. blank ws \<Longrightarrow> length (ws @ tail) < fuel \<Longrightarrow>
      ParseDeep_loop opts fuel depth in_document acc (ws @ tail) = Some (R acc)"
    and "depth + h < TINYXML2_MAX_ELEMENT_DEPTH"
    and "(\<forall>t. XMLText t False \<notin> set cs) \<or> (\<exists>c r. tail = CHR ''<'' # c # r)"
    and "length (s @ tail) < fuel"
  shows "ParseDeep_loop opts fuel depth in_document acc (s @ tail) = Some (R (acc @ cs))"
  using assms
proof (induction arbitrary: depth in_document tail R fuel acc rule: written.induct)
  case (written_Nil ws prev h)
  then show ?case by simp
next
  case (written_text piece t h cs s)
  then obtain f where f: "fuel = Suc f" by (cases fuel) auto
  from written_text.hyps(1) have "0 < length piece" by (auto simp: SkipWhiteSpace_def)
  with written_text.prems(5) f have shorter: "length (s @ tail) < f"
    by (simp only: length_append)
  obtain c r where rest: "s @ tail = CHR ''<'' # c # r"
    using written_behind_text [OF written_text.hyps(5)] written_text.prems(4) by auto
  have "ParseDeep_loop opts (Suc f) depth in_document acc ((piece @ s) @ tail) =
      ParseDeep_loop opts f depth in_document (acc @ [XMLText t False]) (s @ tail)"
    using written_text.hyps(4) unfolding append_assoc rest
    by (intro loop_child [where c = OPEN and e = None, OF Identify_text [OF written_text.hyps(1,2)]])
      (simp_all only: text_parsed [OF written_text.hyps(1,2) written_text.prems(1)] node_kind.simps if_False is_declaration.simps
        mismatched.simps ElementClosingType.simps simp_thms)
  also have "\<dots> = Some (R ((acc @ [XMLText t False]) @ cs))"
    using written_text.prems shorter by (intro written_text.IH) auto
  finally show ?case by (simp add: f)
next
  case (written_cdata t h cs s prev)
  then obtain f where f: "fuel = Suc f" by (cases fuel) auto
  have "ParseDeep_loop opts (Suc f) depth in_document acc ((''<![CDATA['' @ t @ '']]>'' @ s) @ tail) =
      ParseDeep_loop opts f depth in_document (acc @ [XMLText t True]) (s @ tail)"
    unfolding append_assoc using written_cdata.hyps
    by (intro loop_child [where c = OPEN and e = None, OF Identify_cdata]) (simp_all add: parse_piece_end [of "'']]>''", simplified])
  also have "\<dots> = Some (R ((acc @ [XMLText t True]) @ cs))"
    using written_cdata.prems f by (intro written_cdata.IH) auto
  finally show ?case by (simp add: f)
next
  case (written_comment ws prev t h cs s)
  then obtain f where f: "fuel = Suc f" by (cases fuel) auto
  have "ParseDeep_loop opts (Suc f) depth in_document acc ((ws @ ''<!--'' @ t @ ''-->'' @ s) @ tail) =
      ParseDeep_loop opts f depth in_document (acc @ [XMLComment t]) (s @ tail)"
    unfolding append_assoc using written_comment.hyps
    by (intro loop_child [where c = OPEN and e = None, OF Identify_comment]) (simp_all add: parse_piece_end [of "''-->''", simplified])
  also have "\<dots> = Some (R ((acc @ [XMLComment t]) @ cs))"
    using written_comment.prems f by (intro written_comment.IH) auto
  finally show ?case by (simp add: f)
next
  case (written_empty ws prev n as a h cs s)
  then obtain f where f: "fuel = Suc f" by (cases fuel) auto
  from written_empty.hyps(3) obtain c ns where n: "n = c # ns" "c \<noteq> CHR ''!''" "c \<noteq> CHR ''?''"
    by (rule name_head)
  have i: "Identify ((ws @ ''<'' @ n @ a @ ''/>'' @ s) @ tail) = Some (Element_node, n @ a @ ''/>'' @ s @ tail)"
    using Identify_tag [OF written_empty.hyps(1) n(2,3)] by (simp add: n(1))
  have "ParseDeep_loop opts (Suc f) depth in_document acc ((ws @ ''<'' @ n @ a @ ''/>'' @ s) @ tail) =
      ParseDeep_loop opts f depth in_document (acc @ [XMLElement n as []]) (s @ tail)"
    by (rule loop_child [where c = CLOSED and e = None, OF i])
      (simp_all only: if_True simp_thms element_parsed(1) [OF written_empty.hyps(3-5)] is_declaration.simps mismatched.simps ElementClosingType.simps)
  also have "\<dots> = Some (R ((acc @ [XMLElement n as []]) @ cs))"
    using written_empty.prems f by (intro written_empty.IH) auto
  finally show ?case by (simp add: f)
next
  case (written_element ws prev n as a h bs body cs s)
  then obtain f where f: "fuel = Suc f" by (cases fuel) auto
  from written_element.hyps(3) obtain c ns where n: "n = c # ns" "c \<noteq> CHR ''!''" "c \<noteq> CHR ''?''"
    by (rule name_head)
  let ?rest = "''</'' @ n @ ''>'' @ s @ tail"
  have i: "Identify ((ws @ ''<'' @ n @ a @ ''>'' @ body @ ''</'' @ n @ ''>'' @ s) @ tail) = Some (Element_node, n @ a @ ''>'' @ body @ ?rest)"
    using Identify_tag [OF written_element.hyps(1) n(2,3)] by (simp add: n(1))
  have "ParseDeep_loop opts f (Suc depth) False [] (body @ ?rest) = Some (Closed_by n (s @ tail) ([] @ bs))"
  proof (rule written_element.IH(1))
    show "ParseDeep_loop opts fuel (Suc depth) False acc (ws @ ?rest) = Some (Closed_by n (s @ tail) acc)"
      if "blank ws" "length (ws @ ?rest) < fuel" for fuel acc ws
      using loop_closing [OF written_element.hyps(3) that(1)] that(2) by (cases fuel) auto
  qed (use written_element.prems f in auto)
  then have deep: "parse_children opts f depth (body @ ?rest) = Some (Closed_by n (s @ tail) bs)"
    using written_element.prems(3) by auto
  have "ParseDeep_loop opts (Suc f) depth in_document acc ((ws @ ''<'' @ n @ a @ ''>'' @ body @ ''</'' @ n @ ''>'' @ s) @ tail) =
      ParseDeep_loop opts f depth in_document (acc @ [XMLElement n as bs]) (s @ tail)"
    by (rule loop_child [where c = OPEN and e = "Some n", OF i])
      (simp_all only: if_True simp_thms element_parsed(2) [where deep = "parse_children opts f depth" and rest = "body @ ?rest", OF written_element.hyps(3-5) _ deep] append_is_Nil_conv list.simps
        is_declaration.simps mismatched.simps ElementClosingType.simps)
  also have "\<dots> = Some (R ((acc @ [XMLElement n as bs]) @ cs))"
    using written_element.prems f by (intro written_element.IH(2)) auto
  finally show ?case by (simp add: f)
qed

section \<open>What is printed is written\<close>

definition seal_text :: "XMLPrinter \<Rightarrow> string" where
  "seal_text pr = (if xp_elementJustOpened pr then ''>'' else '''')"

lemma blank_simps [simp]: "blank []" "blank (c # s) \<longleftrightarrow> IsWhiteSpace c \<and> blank s" "blank (s @ t) \<longleftrightarrow> blank s \<and> blank t"
  by (auto simp: blank_def)

lemma blank_margin: "blank (concat (replicate n ''    ''))"
  by (induction n) auto

text \<open>Behind a text nothing is put before a node, as the depth of the text is not negative then.\<close>

definition after_text :: "XMLPrinter \<Rightarrow> bool" where
  "after_text pr \<longleftrightarrow> 0 \<le> xp_textDepth pr \<and> (xp_compactMode pr \<or> \<not> xp_firstElement pr)"

lemma prepared:
  "\<exists>ws. blank ws \<and> (after_text pr \<longrightarrow> ws = []) \<and>
     PrepareForNewNode (xp_compactMode pr) pr =
       pr\<lparr>xp_elementJustOpened := False, xp_firstElement := xp_firstElement pr \<and> xp_compactMode pr, xp_out := xp_out pr @ seal_text pr @ ws\<rparr>"
proof -
  let ?ws = "if xp_compactMode pr then [] else if xp_firstElement pr then concat (replicate (nat (xp_depth pr)) ''    '')
    else if xp_textDepth pr < 0 then LF # concat (replicate (nat (xp_depth pr)) ''    '') else []"
  have "blank ?ws" "after_text pr \<longrightarrow> ?ws = []"
    by (auto simp: blank_margin after_text_def)
  moreover have "PrepareForNewNode (xp_compactMode pr) pr =
      pr\<lparr>xp_elementJustOpened := False, xp_firstElement := xp_firstElement pr \<and> xp_compactMode pr, xp_out := xp_out pr @ seal_text pr @ ?ws\<rparr>"
    by (cases pr) (simp add: PrepareForNewNode_def SealElementIfJustOpened_def PrintSpace_def print_text_def seal_text_def Let_def)
  ultimately show ?thesis by blast
qed

definition attribute_text :: "string \<times> string \<Rightarrow> string" where
  "attribute_text = (\<lambda>(n, v). '' '' @ n @ CHR ''='' # CHR 0x22 # PrintString True False v @ [CHR 0x22])"

lemma attributes_printed:
  "xp_processEntities pr \<Longrightarrow> fold PushAttribute attrs pr = pr\<lparr>xp_out := xp_out pr @ concat (map attribute_text attrs)\<rparr>"
  by (induction attrs arbitrary: pr) (auto simp: PushAttribute_def print_text_def attribute_text_def)

lemma quote_escaped: "CHR 0x22 \<notin> set (PrintString True False v)"
  by (auto simp: PrintString_escaped escaped_def split: if_splits)

lemma tag_escaped: "CHR ''<'' \<notin> set (PrintString True True v)"
  by (auto simp: PrintString_escaped escaped_def split: if_splits)

lemma printed_not_zero: "xml_plain v \<Longrightarrow> NUL \<notin> set (PrintString True restricted v)"
  by (auto simp: PrintString_escaped escaped_def xml_plain_def split: if_splits)

lemma attributes_ok_written:
  "list_all (\<lambda>(n, v). name_ok n \<and> xml_plain v) attrs \<Longrightarrow> attributes_written True attrs (concat (map attribute_text attrs))"
proof (induction attrs)
  case (Cons nv attrs)
  then show ?case
    using one_attribute [of "fst nv" "PrintString True False (snd nv)" True "snd nv"]
    by (cases nv) (simp add: attribute_text_def quote_escaped printed_not_zero printed_value)
qed (simp add: no_attributes)

lemma SkipWhiteSpace_escaped:
  assumes "SkipWhiteSpace s \<noteq> []"
  shows "SkipWhiteSpace (PrintString True restricted s) \<noteq> []"
proof -
  from assms obtain c where c: "c \<in> set s" "\<not> IsWhiteSpace c"
    by (auto simp: SkipWhiteSpace_def dropWhile_eq_Nil_conv)
  have "\<exists>d\<in>set (escaped restricted c). \<not> IsWhiteSpace d"
    using c(2) by (auto simp: escaped_def IsWhiteSpace_def IsUTF8Continuation_def is_space_def)
  with c(1) show ?thesis
    by (auto simp: SkipWhiteSpace_def PrintString_escaped dropWhile_eq_Nil_conv)
qed

fun last_text :: "bool \<Rightarrow> dom list \<Rightarrow> bool" where
  "last_text prev [] = prev"
| "last_text prev (XMLText t cdata # cs) = last_text (\<not> cdata) cs"
| "last_text prev (_ # cs) = last_text False cs"

lemma written_end:
  assumes "written pe h prev cs s" and "blank ws" and "last_text prev cs \<Longrightarrow> ws = []"
  shows "written pe h prev cs (s @ ws)"
  using assms by (induction rule: written.induct) (auto intro: written.intros [unfolded append_Cons append_Nil])

lemma element_closed:
  assumes "xp_stack pr = name # st"
  shows "\<exists>ws. blank ws \<and> (0 \<le> xp_textDepth pr \<longrightarrow> ws = []) \<and>
    (\<exists>td. VisitExit_element pr = pr\<lparr>xp_depth := xp_depth pr - 1, xp_stack := st, xp_elementJustOpened := False, xp_textDepth := td,
       xp_out := xp_out pr @ (if xp_elementJustOpened pr then ''/>'' else ws @ ''</'' @ name @ ''>'') @
         (if xp_depth pr = 1 \<and> \<not> xp_compactMode pr then [LF] else [])\<rparr>)"
proof -
  let ?ws = "if xp_textDepth pr < 0 \<and> \<not> xp_compactMode pr then LF # concat (replicate (nat (xp_depth pr - 1)) ''    '') else []"
  have "blank ?ws" "0 \<le> xp_textDepth pr \<longrightarrow> ?ws = []"
    by (auto simp: blank_margin)
  moreover have "VisitExit_element pr = pr\<lparr>xp_depth := xp_depth pr - 1, xp_stack := st, xp_elementJustOpened := False,
      xp_textDepth := (if xp_textDepth pr = xp_depth pr - 1 then -1 else xp_textDepth pr),
      xp_out := xp_out pr @ (if xp_elementJustOpened pr then ''/>'' else ?ws @ ''</'' @ name @ ''>'') @
         (if xp_depth pr = 1 \<and> \<not> xp_compactMode pr then [LF] else [])\<rparr>"
    using assms by (cases pr) (simp add: VisitExit_element_def CloseElement_def PrintSpace_def print_text_def Let_def)
  ultimately show ?thesis by blast
qed

text \<open>What \<open>Accept_children\<close> adds to the text and how it leaves the rest of the printer.\<close>

definition prints :: "nat \<Rightarrow> bool \<Rightarrow> dom list \<Rightarrow> XMLPrinter \<Rightarrow> XMLPrinter \<Rightarrow> string \<Rightarrow> bool" where
  "prints h prev cs pr pr' s \<longleftrightarrow>
     xp_out pr' = xp_out pr @ (if cs = [] then '''' else seal_text pr) @ s \<and> written True h prev cs s \<and>
     (last_text prev cs \<longrightarrow> after_text pr') \<and> xp_elementJustOpened pr' = (xp_elementJustOpened pr \<and> cs = []) \<and>
     xp_stack pr' = xp_stack pr \<and> xp_depth pr' = xp_depth pr \<and> xp_processEntities pr' = xp_processEntities pr \<and>
     xp_compactMode pr' = xp_compactMode pr \<and> (xp_compactMode pr \<or> \<not> xp_firstElement pr \<longrightarrow> xp_compactMode pr' \<or> \<not> xp_firstElement pr')"

lemma element_opened:
  assumes "xp_processEntities pr"
  shows "\<exists>ws. blank ws \<and> (after_text pr \<longrightarrow> ws = []) \<and>
    VisitEnter_element name attrs pr =
      pr\<lparr>xp_elementJustOpened := True, xp_firstElement := xp_firstElement pr \<and> xp_compactMode pr, xp_stack := name # xp_stack pr,
        xp_depth := xp_depth pr + 1, xp_out := xp_out pr @ seal_text pr @ ws @ ''<'' @ name @ concat (map attribute_text attrs)\<rparr>"
proof -
  obtain ws where "blank ws" "after_text pr \<longrightarrow> ws = []" and p: "PrepareForNewNode (xp_compactMode pr) pr =
      pr\<lparr>xp_elementJustOpened := False, xp_firstElement := xp_firstElement pr \<and> xp_compactMode pr, xp_out := xp_out pr @ seal_text pr @ ws\<rparr>"
    using prepared [of pr] by blast
  moreover have "VisitEnter_element name attrs pr =
      pr\<lparr>xp_elementJustOpened := True, xp_firstElement := xp_firstElement pr \<and> xp_compactMode pr, xp_stack := name # xp_stack pr,
        xp_depth := xp_depth pr + 1, xp_out := xp_out pr @ seal_text pr @ ws @ ''<'' @ name @ concat (map attribute_text attrs)\<rparr>"
    using assms by (simp add: VisitEnter_element_def OpenElement_def p print_text_def attributes_printed Let_def)
  ultimately show ?thesis by blast
qed

text \<open>An element, from what its children print; at the depth of the document a line feed ends it.\<close>

lemma element_printed:
  assumes "name_ok name" and "attributes_ok attrs" and "cs = [] \<or> 0 < h" and "xp_processEntities pr" and "0 \<le> xp_depth pr"
    and "\<And>pr. cs \<noteq> [] \<Longrightarrow> xp_processEntities pr \<Longrightarrow> 1 \<le> xp_depth pr \<Longrightarrow> xp_compactMode pr \<or> \<not> xp_firstElement pr \<Longrightarrow>
      \<exists>s. prints (h - 1) False cs pr (Accept_children cs pr) s"
  obtains u pr' where "Accept (XMLElement name attrs cs) pr = pr'"
    and "xp_out pr' = xp_out pr @ seal_text pr @ u @ (if xp_depth pr = 0 \<and> \<not> xp_compactMode pr then [LF] else [])"
    and "\<And>rest s. written True h False rest s \<Longrightarrow> \<not> prev \<or> after_text pr \<Longrightarrow> written True h prev (XMLElement name attrs cs # rest) (u @ s)"
    and "\<not> xp_elementJustOpened pr'" and "xp_stack pr' = xp_stack pr" and "xp_depth pr' = xp_depth pr" and "xp_processEntities pr'"
    and "xp_compactMode pr' = xp_compactMode pr" and "xp_compactMode pr' \<or> \<not> xp_firstElement pr'"
proof -
  let ?a = "concat (map attribute_text attrs)"
  from assms(2) have a: "attributes_written True attrs ?a" "distinct (map fst attrs)"
    by (auto simp: attributes_ok_def attributes_ok_written)
  obtain ws where ws: "blank ws" "after_text pr \<longrightarrow> ws = []" and enter: "VisitEnter_element name attrs pr =
      pr\<lparr>xp_elementJustOpened := True, xp_firstElement := xp_firstElement pr \<and> xp_compactMode pr, xp_stack := name # xp_stack pr,
        xp_depth := xp_depth pr + 1, xp_out := xp_out pr @ seal_text pr @ ws @ ''<'' @ name @ ?a\<rparr>" (is "_ = ?pr1")
    using element_opened [OF assms(4)] by blast
  show thesis
  proof (cases "cs = []")
    case True
    obtain td where "Accept (XMLElement name attrs cs) pr = ?pr1\<lparr>xp_depth := xp_depth pr, xp_stack := xp_stack pr,
        xp_elementJustOpened := False, xp_textDepth := td,
        xp_out := xp_out ?pr1 @ ''/>'' @ (if xp_depth pr = 0 \<and> \<not> xp_compactMode pr then [LF] else [])\<rparr>"
      using element_closed [of ?pr1 name "xp_stack pr"] True by (auto simp: enter)
    moreover have "written True h prev (XMLElement name attrs cs # rest) ((ws @ ''<'' @ name @ ?a @ ''/>'') @ s)"
      if "written True h False rest s" "\<not> prev \<or> after_text pr" for rest s
      using written_empty [of ws prev name True attrs ?a h rest s] ws a assms(1) that True by simp
    ultimately show thesis
      using assms(4) by (intro that [of "Accept (XMLElement name attrs cs) pr" "ws @ ''<'' @ name @ ?a @ ''/>''"]) (auto simp del: Accept.simps)
  next
    case False
    let ?pr2 = "Accept_children cs ?pr1"
    obtain body where body: "prints (h - 1) False cs ?pr1 ?pr2 body"
      using assms(6) [of ?pr1] assms(4,5) False by auto
    then have stack: "xp_stack ?pr2 = name # xp_stack pr"
      by (simp add: prints_def)
    obtain ws2 td where ws2: "blank ws2" "0 \<le> xp_textDepth ?pr2 \<longrightarrow> ws2 = []"
      and exit: "VisitExit_element ?pr2 = ?pr2\<lparr>xp_depth := xp_depth ?pr2 - 1, xp_stack := xp_stack pr, xp_elementJustOpened := False,
        xp_textDepth := td, xp_out := xp_out ?pr2 @ (if xp_elementJustOpened ?pr2 then ''/>'' else ws2 @ ''</'' @ name @ ''>'') @
         (if xp_depth ?pr2 = 1 \<and> \<not> xp_compactMode ?pr2 then [LF] else [])\<rparr>"
      using element_closed [OF stack] by blast
    have "written True (h - 1) False cs (body @ ws2)"
      using body ws2 by (intro written_end) (auto simp: prints_def after_text_def)
    then have "written True h prev (XMLElement name attrs cs # rest) ((ws @ ''<'' @ name @ ?a @ ''>'' @ body @ ws2 @ ''</'' @ name @ ''>'') @ s)"
      if "written True h False rest s" "\<not> prev \<or> after_text pr" for rest s
      using written_element [of ws prev name True attrs ?a "h - 1" cs "body @ ws2" rest s] ws a assms(1,3) that False by auto
    with body show thesis
      using assms(4) False enter exit
      by (intro that [of "VisitExit_element ?pr2" "ws @ ''<'' @ name @ ?a @ ''>'' @ body @ ws2 @ ''</'' @ name @ ''>''"])
        (auto simp: prints_def seal_text_def)
  qed
qed

lemma text_printed:
  "PushText t cdata pr = pr\<lparr>xp_textDepth := xp_depth pr - 1, xp_elementJustOpened := False,
     xp_out := xp_out pr @ seal_text pr @ (if cdata then ''<![CDATA['' @ t @ '']]>'' else PrintString (xp_processEntities pr) True t)\<rparr>"
  by (simp add: PushText_def SealElementIfJustOpened_def seal_text_def print_text_def Let_def)

lemma comment_printed:
  "\<exists>ws. blank ws \<and> (after_text pr \<longrightarrow> ws = []) \<and> PushComment t pr =
     pr\<lparr>xp_elementJustOpened := False, xp_firstElement := xp_firstElement pr \<and> xp_compactMode pr,
       xp_out := xp_out pr @ seal_text pr @ ws @ ''<!--'' @ t @ ''-->''\<rparr>"
proof -
  obtain ws where "blank ws" "after_text pr \<longrightarrow> ws = []" "PrepareForNewNode (xp_compactMode pr) pr =
      pr\<lparr>xp_elementJustOpened := False, xp_firstElement := xp_firstElement pr \<and> xp_compactMode pr, xp_out := xp_out pr @ seal_text pr @ ws\<rparr>"
    using prepared [of pr] by blast
  then show ?thesis
    by (intro exI [of _ ws]) (simp add: PushComment_def print_text_def)
qed

lemma written_blank:
  assumes "written pe h False cs s" and "blank ws" and "\<forall>t b. XMLText t b \<notin> set cs"
  shows "written pe h False cs (ws @ s)"
  using assms(1)
proof (cases rule: written.cases)
  case (written_comment ws' t cs s)
  with written.written_comment [of "ws @ ws'" False t pe h cs s] assms(2) show ?thesis by simp
next
  case (written_empty ws' n as a cs s)
  with written.written_empty [of "ws @ ws'" False n pe as a h cs s] assms(2) show ?thesis by simp
next
  case (written_element ws' n as a h' bs body cs s)
  with written.written_element [of "ws @ ws'" False n pe as a h' bs body cs s] assms(2) show ?thesis by simp
qed (use assms in \<open>auto intro: written_Nil\<close>)

lemma Accept_printed:
  assumes "printable h prev cs" and "xp_processEntities pr" and "prev \<longrightarrow> \<not> xp_elementJustOpened pr \<and> after_text pr"
    and "xp_depth pr = 0 \<and> (\<forall>t b. XMLText t b \<notin> set cs) \<or> 1 \<le> xp_depth pr \<and> (xp_compactMode pr \<or> \<not> xp_firstElement pr)"
  shows "\<exists>s. prints h prev cs pr (Accept_children cs pr) s"
  using assms
proof (induction h prev cs arbitrary: pr rule: printable.induct)
  case (1 h prev)
  then show ?case
    by (intro exI [of _ "[]"]) (auto simp: prints_def intro: written_Nil)
next
  case (2 h prev name attrs cs rest)
  obtain u pr' where pr': "Accept (XMLElement name attrs cs) pr = pr'"
    and out: "xp_out pr' = xp_out pr @ seal_text pr @ u @ (if xp_depth pr = 0 \<and> \<not> xp_compactMode pr then [LF] else [])"
    and wr: "\<And>rest s. written True h False rest s \<Longrightarrow> \<not> prev \<or> after_text pr \<Longrightarrow> written True h prev (XMLElement name attrs cs # rest) (u @ s)"
    and frame: "\<not> xp_elementJustOpened pr'" "xp_stack pr' = xp_stack pr" "xp_depth pr' = xp_depth pr" "xp_processEntities pr'"
      "xp_compactMode pr' = xp_compactMode pr" "xp_compactMode pr' \<or> \<not> xp_firstElement pr'"
  proof (rule element_printed [of name attrs cs h pr prev])
    show "\<exists>s. prints (h - 1) False cs pr (Accept_children cs pr) s"
      if "cs \<noteq> []" "xp_processEntities pr" "1 \<le> xp_depth pr" "xp_compactMode pr \<or> \<not> xp_firstElement pr" for pr
      using that 2(3) by (intro 2(1)) auto
  qed (use "2.prems" in auto)
  obtain s where s: "prints h False rest pr' (Accept_children rest pr') s"
    using "2.IH"(2) [of pr'] "2.prems" frame by auto
  let ?lf = "if xp_depth pr = 0 \<and> \<not> xp_compactMode pr then [LF] else []"
  have "written True h False rest (?lf @ s)"
    using s "2.prems"(4) written_blank [of True h rest s "[LF]"] by (auto simp: prints_def)
  from wr [OF this] "2.prems" have "written True h prev (XMLElement name attrs cs # rest) (u @ ?lf @ s)"
    by blast
  moreover have "Accept_children (XMLElement name attrs cs # rest) pr = Accept_children rest pr'"
    by (simp add: pr' del: Accept.simps)
  moreover have "seal_text pr' = []"
    by (simp add: seal_text_def frame)
  ultimately show ?case
    using s frame out "2.prems"(2) by (intro exI [of _ "u @ ?lf @ s"]) (simp add: prints_def, blast)
next
  case (3 h prev t cdata rest)
  let ?pr' = "PushText t cdata pr"
  have deep: "1 \<le> xp_depth pr" "xp_compactMode pr \<or> \<not> xp_firstElement pr"
    using "3.prems"(4) by auto
  show ?case
  proof (cases cdata)
    case True
    obtain s where s: "prints h False rest ?pr' (Accept_children rest ?pr') s"
      using "3.IH"(1) [of ?pr'] "3.prems" deep True by (auto simp: text_printed)
    then have "written True h prev (XMLText t True # rest) (''<![CDATA['' @ t @ '']]>'' @ s)"
      using "3.prems"(1) True by (intro written_cdata) (auto simp: prints_def)
    with s True deep show ?thesis
      by (intro exI [of _ "''<![CDATA['' @ t @ '']]>'' @ s"]) (auto simp: prints_def text_printed seal_text_def)
  next
    case False
    obtain s where s: "prints h True rest ?pr' (Accept_children rest ?pr') s"
      using "3.IH"(2) [of ?pr'] "3.prems" deep False by (auto simp: text_printed after_text_def)
    then have "written True h False (XMLText t False # rest) (PrintString True True t @ s)"
      using "3.prems"(1) False
      by (intro written_text) (auto simp: prints_def tag_escaped printed_not_zero printed_value SkipWhiteSpace_escaped)
    with s False deep "3.prems" show ?thesis
      by (intro exI [of _ "PrintString True True t @ s"]) (auto simp: prints_def text_printed seal_text_def)
  qed
next
  case (4 h prev t rest)
  obtain ws where ws: "blank ws" "after_text pr \<longrightarrow> ws = []" and p: "PushComment t pr =
      pr\<lparr>xp_elementJustOpened := False, xp_firstElement := xp_firstElement pr \<and> xp_compactMode pr,
        xp_out := xp_out pr @ seal_text pr @ ws @ ''<!--'' @ t @ ''-->''\<rparr>" (is "_ = ?pr'")
    using comment_printed [of pr t] by blast
  obtain s where s: "prints h False rest ?pr' (Accept_children rest ?pr') s"
    using "4.IH" [of ?pr'] "4.prems" by auto
  then have "written True h prev (XMLComment t # rest) (ws @ ''<!--'' @ t @ ''-->'' @ s)"
    using "4.prems" ws by (intro written_comment) (auto simp: prints_def)
  with s show ?case
    by (intro exI [of _ "ws @ ''<!--'' @ t @ ''-->'' @ s"]) (auto simp: prints_def p seal_text_def)
qed auto

section \<open>Whole documents\<close>

text \<open>Declarations come first; the nodes of the document itself are no texts.\<close>

fun document_printable :: "nat \<Rightarrow> dom list \<Rightarrow> bool" where
  "document_printable h (XMLDeclaration v # cs) = (xml_plain v \<and> ends_at ''?>'' v \<and> document_printable h cs)"
| "document_printable h cs = (list_all (\<lambda>c. case c of XMLText t b \<Rightarrow> False | _ \<Rightarrow> True) cs \<and> printable h False cs)"

inductive document_written :: "bool \<Rightarrow> nat \<Rightarrow> dom list \<Rightarrow> string \<Rightarrow> bool" for pe h where
  written_nodes: "written pe h False cs s \<Longrightarrow> \<forall>t b. XMLText t b \<notin> set cs \<Longrightarrow> document_written pe h cs s"
| written_declaration: "blank ws \<Longrightarrow> ends_at ''?>'' v \<Longrightarrow> xml_plain v \<Longrightarrow> document_written pe h cs s \<Longrightarrow>
    document_written pe h (XMLDeclaration v # cs) (ws @ ''<?'' @ v @ ''?>'' @ s)"

lemma Identify_declaration: "blank ws \<Longrightarrow> Identify (ws @ ''<?'' @ p) = Some (Declaration_node, p)"
  by (simp add: Identify_def SkipWhiteSpace_blank SkipWhiteSpace_stop starts_with_def)

lemma parse_document_written:
  assumes "document_written (processEntities opts) h cs s" and "\<not> collapseWhitespace opts" and "h + 1 < TINYXML2_MAX_ELEMENT_DEPTH"
    and "\<And>fuel acc ws. blank ws \<Longrightarrow> length (ws @ tail) < fuel \<Longrightarrow> ParseDeep_loop opts fuel 1 True acc (ws @ tail) = Some (R acc)"
    and "list_all is_declaration acc" and "length (s @ tail) < fuel"
  shows "ParseDeep_loop opts fuel 1 True acc (s @ tail) = Some (R (acc @ cs))"
  using assms
proof (induction arbitrary: acc fuel rule: document_written.induct)
  case (written_nodes cs s)
  with parse_written [of opts h False cs s tail 1 True R fuel acc] show ?case by simp
next
  case (written_declaration ws v cs s)
  obtain f where f: "fuel = Suc f"
    using written_declaration.prems(5) by (cases fuel) auto
  have "well_located True acc"
    using written_declaration.prems(4) by (cases acc) (auto simp: well_located_def list_all_iff)
  then have "ParseDeep_loop opts (Suc f) 1 True acc ((ws @ ''<?'' @ v @ ''?>'' @ s) @ tail) =
      ParseDeep_loop opts f 1 True (acc @ [XMLDeclaration v]) (s @ tail)"
    using Identify_declaration [OF written_declaration.hyps(1), of "v @ ''?>'' @ s @ tail"] written_declaration.hyps(2,3)
    by (simp add: parse_piece_end [of "''?>''", simplified])
  also have "\<dots> = Some (R ((acc @ [XMLDeclaration v]) @ cs))"
    using written_declaration.prems f by (intro written_declaration.IH) auto
  finally show ?case by (simp add: f)
qed

lemma parse_document_end:
  assumes "document_written (processEntities opts) h cs s" and "\<not> collapseWhitespace opts" and "h + 1 < TINYXML2_MAX_ELEMENT_DEPTH"
  shows "ParseDeep_loop opts (Suc (length s)) 1 True [] s = Some (Ended cs)"
proof -
  have "ParseDeep_loop opts fuel 1 True acc (ws @ []) = Some (Ended acc)" if "blank ws" "length (ws @ []) < fuel" for fuel acc ws
    using that by (cases fuel) (auto simp: Identify_blank)
  from parse_document_written [OF assms this, of "[]" "Suc (length s)"] show ?thesis by simp
qed

text \<open>A closing tag ends the document, whatever comes behind it.\<close>

lemma parse_document_closed:
  assumes "document_written (processEntities opts) h cs s" and "\<not> collapseWhitespace opts" and "h + 1 < TINYXML2_MAX_ELEMENT_DEPTH" and "name_ok n"
  shows "ParseDeep_loop opts (Suc (length (s @ ''</'' @ n @ ''>'' @ rest))) 1 True [] (s @ ''</'' @ n @ ''>'' @ rest) = Some (Closed_by n rest cs)"
proof -
  have "ParseDeep_loop opts fuel 1 True acc (ws @ ''</'' @ n @ ''>'' @ rest) = Some (Closed_by n rest acc)"
    if "blank ws" "length (ws @ ''</'' @ n @ ''>'' @ rest) < fuel" for fuel acc ws
    using loop_closing [OF assms(4) that(1)] that(2) by (cases fuel) auto
  from parse_document_written [OF assms(1-3) this, of "[]" "Suc (length (s @ ''</'' @ n @ ''>'' @ rest))"] show ?thesis by simp
qed

lemma declaration_printed:
  "\<exists>ws. blank ws \<and> PushDeclaration t pr =
     pr\<lparr>xp_elementJustOpened := False, xp_firstElement := xp_firstElement pr \<and> xp_compactMode pr,
       xp_out := xp_out pr @ seal_text pr @ ws @ ''<?'' @ t @ ''?>''\<rparr>"
proof -
  obtain ws where "blank ws" "PrepareForNewNode (xp_compactMode pr) pr =
      pr\<lparr>xp_elementJustOpened := False, xp_firstElement := xp_firstElement pr \<and> xp_compactMode pr, xp_out := xp_out pr @ seal_text pr @ ws\<rparr>"
    using prepared [of pr] by blast
  then show ?thesis
    by (intro exI [of _ ws]) (simp add: PushDeclaration_def print_text_def)
qed

lemma document_printed:
  assumes "document_printable h cs" and "xp_processEntities pr" and "xp_depth pr = 0" and "\<not> xp_elementJustOpened pr"
  shows "\<exists>s. xp_out (Accept_children cs pr) = xp_out pr @ s \<and> document_written True h cs s"
proof -
  have nodes: "\<exists>s. xp_out (Accept_children cs pr) = xp_out pr @ s \<and> document_written True h cs s"
    if "list_all (\<lambda>c. case c of XMLText t b \<Rightarrow> False | _ \<Rightarrow> True) cs" "printable h False cs" "xp_processEntities pr" "xp_depth pr = 0"
      "\<not> xp_elementJustOpened pr" for h cs pr
  proof -
    note ok = that
    have none: "\<forall>t b. XMLText t b \<notin> set cs"
      using ok(1) by (auto simp: list_all_iff)
    then obtain s where "prints h False cs pr (Accept_children cs pr) s"
      using Accept_printed [OF ok(2,3)] ok(4) by auto
    then show ?thesis
      using ok(5) none by (intro exI [of _ s]) (auto simp: prints_def seal_text_def intro: written_nodes)
  qed
  show ?thesis
    using assms
  proof (induction h cs arbitrary: pr rule: document_printable.induct)
    case (1 h v cs)
    obtain ws where ws: "blank ws" and p: "PushDeclaration v pr =
        pr\<lparr>xp_elementJustOpened := False, xp_firstElement := xp_firstElement pr \<and> xp_compactMode pr,
          xp_out := xp_out pr @ seal_text pr @ ws @ ''<?'' @ v @ ''?>''\<rparr>" (is "_ = ?pr'")
      using declaration_printed [of v pr] by blast
    obtain s where s: "xp_out (Accept_children cs ?pr') = xp_out ?pr' @ s" "document_written True h cs s"
      using "1.IH" [of ?pr'] "1.prems" by auto
    then have "document_written True h (XMLDeclaration v # cs) (ws @ ''<?'' @ v @ ''?>'' @ s)"
      using "1.prems" ws by (intro written_declaration) auto
    with s(1) "1.prems"(4) show ?case
      by (intro exI [of _ "ws @ ''<?'' @ v @ ''?>'' @ s"]) (auto simp: p seal_text_def)
  qed (rule nodes; simp only: document_printable.simps simp_thms)+
qed

lemma zero_nowhere [simp]: "\<not> IsNameChar NUL" "\<not> IsWhiteSpace NUL"
  by (simp_all add: IsNameChar_def IsNameStartChar_def is_alpha_def is_digit_def IsWhiteSpace_def is_space_def)

lemma name_not_zero: "name_ok n \<Longrightarrow> NUL \<notin> set n"
  by (auto simp: name_ok_def list_all_iff)

lemma blank_not_zero: "blank ws \<Longrightarrow> NUL \<notin> set ws"
  by (auto simp: blank_def list_all_iff)

lemma plain_not_zero: "xml_plain t \<Longrightarrow> NUL \<notin> set t"
  by (simp add: xml_plain_def)

lemmas not_zero = name_not_zero blank_not_zero plain_not_zero

lemma attributes_not_zero: "attributes_written pe as a \<Longrightarrow> NUL \<notin> set a"
  by (induction rule: attributes_written.induct) (auto simp: not_zero)

lemma written_not_zero: "written pe h prev cs s \<Longrightarrow> NUL \<notin> set s"
  by (induction rule: written.induct) (auto simp: not_zero attributes_not_zero)

lemma document_not_zero: "document_written pe h cs s \<Longrightarrow> NUL \<notin> set s"
  by (induction rule: document_written.induct) (auto simp: not_zero written_not_zero)

lemma skip_to_tag: "blank ws \<Longrightarrow> SkipWhiteSpace (ws @ CHR ''<'' # s) = CHR ''<'' # s"
  by (simp add: SkipWhiteSpace_blank SkipWhiteSpace_stop)

lemma written_skip:
  assumes "written pe h False cs s" and "\<forall>t b. XMLText t b \<notin> set cs" and "cs \<noteq> []"
  shows "\<exists>r. SkipWhiteSpace s = CHR ''<'' # r \<and> written pe h False cs (CHR ''<'' # r)"
  using assms(1)
proof (cases rule: written.cases)
  case (written_comment ws t cs s)
  with written.written_comment [of "[]" False t pe h cs s] show ?thesis by (simp add: skip_to_tag)
next
  case (written_empty ws n as a cs s)
  with written.written_empty [of "[]" False n pe as a h cs s] show ?thesis by (simp add: skip_to_tag)
next
  case (written_element ws n as a h' bs body cs s)
  with written.written_element [of "[]" False n pe as a h' bs body cs s] show ?thesis by (simp add: skip_to_tag)
qed (use assms in auto)

lemma document_skip:
  assumes "document_written pe h cs s" and "cs \<noteq> []"
  shows "\<exists>r. SkipWhiteSpace s = CHR ''<'' # r \<and> document_written pe h cs (CHR ''<'' # r)"
  using assms(1)
proof (cases rule: document_written.cases)
  case written_nodes
  with written_skip assms(2) show ?thesis by (metis document_written.written_nodes)
next
  case (written_declaration ws v cs s)
  with document_written.written_declaration [of "[]" v pe h cs s] show ?thesis by (simp add: skip_to_tag)
qed

text \<open>Any text of a document is parsed into the document, with a mark of the byte order before it and without.\<close>

definition BOM :: string where
  "BOM = [CHR 0xEF, CHR 0xBB, CHR 0xBF]"

lemma BOM_not_white: "SkipWhiteSpace (BOM @ s) = BOM @ s"
  by (simp add: BOM_def SkipWhiteSpace_def IsWhiteSpace_def IsUTF8Continuation_def)

lemma BOM_read:
  assumes "document_written pe h cs s" and "cs \<noteq> []"
  shows "\<exists>u. ReadBOM (SkipWhiteSpace ((if bom then BOM else []) @ s @ tail)) = (u @ tail, bom) \<and> u \<noteq> [] \<and> document_written pe h cs u"
proof -
  obtain ws r where r: "s = ws @ CHR ''<'' # r" "blank ws" "document_written pe h cs (CHR ''<'' # r)"
    using document_skip [OF assms] by (metis SkipWhiteSpace_def blank_def list_all_iff set_takeWhileD takeWhile_dropWhile_id)
  show ?thesis
  proof (cases bom)
    case True
    then show ?thesis
      using r(1) assms(1) by (intro exI [of _ s]) (simp add: BOM_not_white, simp add: ReadBOM_def starts_with_def BOM_def)
  next
    case False
    then show ?thesis
      using r by (intro exI [of _ "CHR ''<'' # r"]) (simp add: skip_to_tag ReadBOM_def starts_with_def)
  qed
qed

lemma load_written:
  assumes "document_written (processEntities opts) h cs s" and "\<not> collapseWhitespace opts" and "h + 1 < TINYXML2_MAX_ELEMENT_DEPTH" and "cs \<noteq> []"
  shows "XMLDocument_LoadFile opts (Some ((if bom then BOM else []) @ s)) = Some (XML_SUCCESS, cs, bom)"
proof -
  obtain u where u: "ReadBOM (SkipWhiteSpace ((if bom then BOM else []) @ s)) = (u, bom)" "u \<noteq> []" "document_written (processEntities opts) h cs u"
    using BOM_read [OF assms(1,4), of bom "[]"] by auto
  have c: "c_string ((if bom then BOM else []) @ s) = (if bom then BOM else []) @ s"
    using document_not_zero [OF assms(1)] by (auto simp: c_string_def BOM_def takeWhile_eq_all_conv)
  have "(if bom then BOM else []) @ s \<noteq> []"
    using document_skip [OF assms(1,4)] by (auto simp: SkipWhiteSpace_def)
  with u parse_document_end [OF u(3) assms(2,3)] show ?thesis
    by (simp add: XMLDocument_LoadFile_def XMLDocument_Parse_def c del: ParseDeep_loop.simps append_is_Nil_conv)
qed

lemma saved_written:
  assumes "document_printable h cs"
  shows "\<exists>s. XMLDocument_SaveFile default_options bom compact cs = (if bom then BOM else []) @ s \<and> document_written True h cs s"
proof -
  let ?pr = "VisitEnter_document True bom (newXMLPrinter compact)"
  have pr: "xp_processEntities ?pr" "xp_depth ?pr = 0" "\<not> xp_elementJustOpened ?pr" "xp_out ?pr = (if bom then BOM else [])"
    by (simp_all add: VisitEnter_document_def PushHeader_def newXMLPrinter_def print_text_def BOM_def Let_def)
  show ?thesis
    using document_printed [OF assms pr(1-3)] pr(4) by (simp add: XMLDocument_SaveFile_def default_options_def)
qed

text \<open>
  Property C12. A document that is saved and loaded again is the same document, compact or not, with a mark of the byte order or
  without: whatever markup characters its values and texts have, they come back, and the white space the printer adds does not.
  The document has a node, and is one a file can express (\<open>document_printable\<close>): the names of elements and attributes are names, the
  attributes of an element distinct, values and texts have neither carriage returns nor the character zero; a text, always
  inside an element, is more than white space and does not follow another one, unless it is a CDATA section; comments are
  without \<open>-->\<close>, CDATA sections without \<open>]]>\<close>, declarations, all in front, without \<open>?>\<close>; there are no unknown nodes; and elements
  are nested less deep than the limit of the parser, 500.
\<close>

theorem saved_document_loads:
  assumes "document_printable h cs" and "cs \<noteq> []" and "h + 1 < TINYXML2_MAX_ELEMENT_DEPTH"
  shows "XMLDocument_LoadFile default_options (Some (XMLDocument_SaveFile default_options bom compact cs)) = Some (XML_SUCCESS, cs, bom)"
proof -
  obtain s where s: "XMLDocument_SaveFile default_options bom compact cs = (if bom then BOM else []) @ s" "document_written True h cs s"
    using saved_written [OF assms(1)] by blast
  then show ?thesis
    using load_written [of default_options h cs s bom] assms(2,3) by (simp add: default_options_def)
qed

text \<open>
  Property C27. An end tag too many is no error: what a file has behind an end tag outside of every element is left unread, and
  loading it succeeds with the nodes before it.
\<close>

theorem stray_end_tag:
  assumes "document_printable h cs" and "cs \<noteq> []" and "h + 1 < TINYXML2_MAX_ELEMENT_DEPTH" and "name_ok n"
  shows "XMLDocument_LoadFile default_options (Some (XMLDocument_SaveFile default_options bom compact cs @ ''</'' @ n @ ''>'' @ rest)) =
    Some (XML_SUCCESS, cs, bom)"
proof -
  obtain s where s: "XMLDocument_SaveFile default_options bom compact cs = (if bom then BOM else []) @ s" "document_written True h cs s"
    using saved_written [OF assms(1)] by blast
  let ?closing = "''</'' @ n @ ''>'' @ c_string rest"
  obtain u where u: "ReadBOM (SkipWhiteSpace ((if bom then BOM else []) @ s @ ?closing)) = (u @ ?closing, bom)" "document_written True h cs u"
    using BOM_read [OF s(2) assms(2), of bom ?closing] by blast
  have c: "c_string (((if bom then BOM else []) @ s) @ ''</'' @ n @ ''>'' @ rest) = (if bom then BOM else []) @ s @ ?closing"
    using document_not_zero [OF s(2)] name_not_zero [OF assms(4)] by (auto simp: c_string_def BOM_def takeWhile_append)
  have "ParseDeep_loop default_options (Suc (length (u @ ?closing))) 1 True [] (u @ ?closing) = Some (Closed_by n (c_string rest) cs)"
    using parse_document_closed [of default_options h cs u n "c_string rest"] u(2) assms(3,4) by (simp add: default_options_def)
  then show ?thesis
    unfolding s(1) XMLDocument_LoadFile_def XMLDocument_Parse_def option.case c u(1) prod.case Let_def
    by (simp only: append_is_Nil_conv list.distinct simp_thms if_False option.case nodes.case)
qed

definition sample_dom :: "dom list" where
  "sample_dom = [XMLDeclaration ''xml'', XMLElement ''a'' [(''k'', ''<&>'')]
     [XMLText ''x < y'' False, XMLElement ''b'' [] [XMLElement ''c'' [] []], XMLComment ''-'', XMLText ''&amp;'' True]]"

lemma sample_dom_printable: "document_printable 2 sample_dom"
  by (simp add: sample_dom_def ends_at_def starts_with_def name_ok_def attributes_ok_def IsNameStartChar_def IsNameChar_def is_alpha_def
      SkipWhiteSpace_def IsWhiteSpace_def IsUTF8Continuation_def is_space_def)

theorem saved_document_loads_witness:
  "XMLDocument_LoadFile default_options (Some (XMLDocument_SaveFile default_options True False sample_dom)) = Some (XML_SUCCESS, sample_dom, True)"
  by (rule saved_document_loads [OF sample_dom_printable]) (simp_all add: sample_dom_def TINYXML2_MAX_ELEMENT_DEPTH_def)

theorem stray_end_tag_witness:
  "XMLDocument_LoadFile default_options (Some (XMLDocument_SaveFile default_options False True sample_dom @ ''</a><module/>'')) =
     Some (XML_SUCCESS, sample_dom, False)"
proof -
  have "name_ok ''a''"
    by (simp add: name_ok_def IsNameStartChar_def IsNameChar_def is_alpha_def)
  from stray_end_tag [OF sample_dom_printable _ _ this, of False True "''<module/>''"] show ?thesis
    by (simp add: sample_dom_def TINYXML2_MAX_ELEMENT_DEPTH_def)
qed

end
