(* ===== verification/Xpcf_XmlFiles.thy ===== *)
theory Xpcf_XmlFiles
  imports Xpcf_XmlPrint Xpcf_GenConfig
begin

text \<open>
  From the bytes of files to the trees the rest of the development works on: what loading a file gives the framework, for
  files the framework saves with \<^verbatim>\<open>src/tinyxml2.cpp\<close> and for those \<^verbatim>\<open>XpcfConfigGenerator.cpp\<close> writes as text.
\<close>

section \<open>Trees of documents\<close>

text \<open>An element with a markup node that \<open>xml\<close> has no constructor for has no tree.\<close>

fun xml_of :: "dom \<Rightarrow> xml option"
  and xmls_of :: "dom list \<Rightarrow> xml list option" where
  "xml_of (XMLElement name attrs cs) = map_option (Element name attrs) (xmls_of cs)"
| "xml_of (XMLText t cdata) = Some (Text t)"
| "xml_of (XMLComment t) = Some (Comment t)"
| "xml_of (XMLDeclaration t) = None"
| "xml_of (XMLUnknown t) = None"
| "xmls_of [] = Some []"
| "xmls_of (c # cs) = (case (xml_of c, xmls_of cs) of (Some x, Some xs) \<Rightarrow> Some (x # xs) | _ \<Rightarrow> None)"

fun dom_of :: "xml \<Rightarrow> dom"
  and doms_of :: "xml list \<Rightarrow> dom list" where
  "dom_of (Element name attrs cs) = XMLElement name attrs (doms_of cs)"
| "dom_of (Text t) = XMLText t False"
| "dom_of (Comment t) = XMLComment t"
| "doms_of [] = []"
| "doms_of (x # xs) = dom_of x # doms_of xs"

lemma xml_of_dom_of: "xml_of (dom_of x) = Some x" and xmls_of_doms_of: "xmls_of (doms_of xs) = Some xs"
  by (induction x and xs rule: dom_of_doms_of.induct) auto

text \<open>\<open>RootElement\<close> is the first element of the document.\<close>

fun RootElement :: "dom list \<Rightarrow> dom option" where
  "RootElement [] = None"
| "RootElement (XMLElement name attrs cs # rest) = Some (XMLElement name attrs cs)"
| "RootElement (_ # rest) = RootElement rest"

text \<open>
  What \<open>LoadFile\<close> and \<open>RootElement\<close> give a caller that goes on only after a success. There is no tree for a file that does not
  load. There is none either for one that loads and has no element, where the callers read through the null pointer
  \<open>RootElement\<close> returns, nor for one with a markup node of another kind inside its root: these are files the framework
  does not write, and nothing is said of them.
\<close>

definition load_xml :: "string option \<Rightarrow> xml option" where
  "load_xml content =
     (case XMLDocument_LoadFile default_options content of
        Some (XML_SUCCESS, cs, bom) \<Rightarrow> Option.bind (RootElement cs) xml_of
      | _ \<Rightarrow> None)"

text \<open>What is saved for a tree that is the root of a new document.\<close>

definition save_xml :: "xml \<Rightarrow> string" where
  "save_xml x = XMLDocument_SaveFile default_options False False [dom_of x]"

lemma load_xml_root:
  assumes "XMLDocument_LoadFile default_options content = Some (XML_SUCCESS, cs, bom)" and "RootElement cs = Some (dom_of x)"
  shows "load_xml content = Some x"
  using assms by (simp add: load_xml_def xml_of_dom_of)

lemma RootElement_one: "RootElement [dom_of (Element name attrs cs)] = Some (dom_of (Element name attrs cs))"
  by simp

lemma saved_xml_loads:
  assumes "printable h False [dom_of (Element name attrs cs)]" and "h + 1 < TINYXML2_MAX_ELEMENT_DEPTH"
  shows "load_xml (Some (save_xml (Element name attrs cs))) = Some (Element name attrs cs)"
proof -
  let ?d = "dom_of (Element name attrs cs)"
  obtain s where "xp_out (Accept_children [?d] (newXMLPrinter False)) = s" "document_written True h [?d] s"
    using document_printed [of h "[?d]" "newXMLPrinter False"] assms(1) by (auto simp: newXMLPrinter_def)
  moreover have "VisitEnter_document True False (newXMLPrinter False) = newXMLPrinter False"
    by (simp add: VisitEnter_document_def newXMLPrinter_def)
  ultimately have "XMLDocument_LoadFile default_options (Some (save_xml (Element name attrs cs))) = Some (XML_SUCCESS, [?d], False)"
    using load_written [of default_options h "[?d]" s False] assms(2)
    by (simp add: save_xml_def XMLDocument_SaveFile_def default_options_def del: dom_of.simps Accept_children.simps)
  then show ?thesis
    by (rule load_xml_root) simp
qed

text \<open>A file that is no more than a comment is such a file: loading it succeeds, and there is no root.\<close>

lemma rootless_file:
  "\<exists>cs. XMLDocument_LoadFile default_options (Some ''<!--no element-->'') = Some (XML_SUCCESS, cs, False) \<and> RootElement cs = None"
proof -
  have "written True 0 False [XMLComment ''no element''] ([] @ ''<!--'' @ ''no element'' @ ''-->'' @ [])"
    by (rule written_comment [OF _ _ _ _ written_Nil]) (simp_all add: blank_def ends_at_def starts_with_def)
  then have "document_written True 0 [XMLComment ''no element''] ''<!--no element-->''"
    by (intro written_nodes) simp_all
  then show ?thesis
    using load_written [of default_options 0 "[XMLComment ''no element'']" "''<!--no element-->''" False]
    by (simp add: default_options_def TINYXML2_MAX_ELEMENT_DEPTH_def)
qed

section \<open>Configurations that are saved\<close>

text \<open>
  The texts the parser gives back: without carriage returns and the character zero, and the items of a list of values with
  more than white space.
\<close>

fun text_comes_back :: "bool \<Rightarrow> property_value \<Rightarrow> bool" where
  "text_comes_back item (V_string t) = (xml_plain t \<and> (item \<longrightarrow> SkipWhiteSpace t \<noteq> []))"
| "text_comes_back item v = True"

definition comes_back :: "'a PropertyMemory_scheme \<Rightarrow> IProperty \<Rightarrow> bool" where
  "comes_back s p \<longleftrightarrow> xml_plain (property_name p) \<and>
     list_all (text_comes_back (length (wrapped_values s p) \<noteq> 1)) (wrapped_values s p)"

lemma number_text_plain: "xml_plain (to_string i) \<and> SkipWhiteSpace (to_string i) \<noteq> []"
proof
  have "48 \<le> (of_char c :: nat)" if "c \<in> set (nat_text n)" for c n
    using nat_text_digits [OF that] by auto
  from this [of NUL] this [of CR] show "xml_plain (to_string i)"
    by (auto simp: to_string_def xml_plain_def)
  show "SkipWhiteSpace (to_string i) \<noteq> []"
    using nat_text_hd_digit [of "nat i"] by (cases "nat_text (nat i)")
      (auto simp: to_string_def SkipWhiteSpace_def IsWhiteSpace_def IsUTF8Continuation_def is_space_def)
qed

lemma plain_text_comes_back:
  assumes "text_comes_back item v" and "value_kind v \<in> exact_kinds" and "v \<noteq> V_string ''''"
  shows "xml_plain (plain_text v) \<and> (item \<longrightarrow> SkipWhiteSpace (plain_text v) \<noteq> [])"
  using assms number_text_plain by (cases v) (auto simp: exact_kinds_def)

lemma printable_elements:
  assumes "\<And>x. x \<in> set xs \<Longrightarrow> \<exists>name attrs cs. x = Element name attrs cs \<and> printable h False [dom_of x]"
  shows "printable h False (doms_of xs)"
  using assms
proof (induction xs)
  case (Cons x xs)
  then obtain name attrs cs where "x = Element name attrs cs" and "printable h False [dom_of x]"
    by fastforce
  moreover have "printable h False (doms_of xs)"
    using Cons by simp
  ultimately show ?case by simp
qed simp

lemmas name_eval = name_ok_def IsNameStartChar_def IsNameChar_def is_alpha_def is_digit_def

lemma property_element_printable:
  assumes "comes_back s p" and "property_type p \<in> exact_kinds"
    and "\<And>v. v \<in> set (wrapped_values s p) \<Longrightarrow> value_kind v = property_type p \<and> v \<noteq> V_string ''''"
  shows "printable 2 False [dom_of (property_element s p)]"
proof -
  let ?vs = "wrapped_values s p"
  have texts: "xml_plain (plain_text v) \<and> (length ?vs \<noteq> 1 \<longrightarrow> SkipWhiteSpace (plain_text v) \<noteq> [])" if "v \<in> set ?vs" for v
    using that assms plain_text_comes_back [of "length ?vs \<noteq> 1" v] by (auto simp: comes_back_def list_all_iff)
  have items: "printable 1 False (doms_of (map (\<lambda>v. Element ''value'' [] [Text (plain_text v)]) ?vs))" if "length ?vs \<noteq> 1"
    using texts that by (intro printable_elements) (auto simp: name_eval attributes_ok_def)
  have strings: "xml_plain (property_name p)" "xml_plain (propertyAccessToStrMap (property_access p))"
      "xml_plain (propertyTypeToStrMap (property_type p))"
    using assms(1,2) by (cases "property_access p"; auto simp: comes_back_def exact_kinds_def)+
  moreover have "length ?vs = 1 \<Longrightarrow> xml_plain (plain_text (hd ?vs))"
    using texts by (cases ?vs) auto
  ultimately show ?thesis
    using items by (auto simp: property_element_def Let_def name_eval attributes_ok_def)
qed

lemma property_element_is_element: "\<exists>name attrs cs. property_element s p = Element name attrs cs"
  by (simp add: property_element_def Let_def)

lemma component_document_loads:
  assumes "\<And>a. a \<in> set as \<Longrightarrow> restorable s d a \<and> comes_back s (the (pm_properties s a))" and "xml_plain (pf_string_of_uuid pf u)"
  shows "load_xml (Some (save_xml (component_document pf u s as))) = Some (component_document pf u s as)"
proof -
  have "printable 2 False [dom_of (property_element s (the (pm_properties s a)))]" if "a \<in> set as" for a
    using assms(1) [OF that] by (auto simp: restorable_def intro!: property_element_printable)
  then have "printable 2 False (doms_of (map (\<lambda>a. property_element s (the (pm_properties s a))) as))"
    using property_element_is_element by (intro printable_elements) fastforce
  then have "printable 5 False [dom_of (component_document pf u s as)]"
    using assms(2) by (simp add: component_document_def name_eval attributes_ok_def numeral_eq_Suc)
  then show ?thesis
    unfolding component_document_def by (intro saved_xml_loads [where h = 5]) (simp_all add: TINYXML2_MAX_ELEMENT_DEPTH_def)
qed

text \<open>
  Property C7. A component whose properties wrap integers, and strings that are not empty, or sequences of them, can be written to a new
  file, and configuring it from what the parser makes of the text of that file restores every wrapped value: whatever the values
  were in between, as long as the sequences kept their lengths, they are what they were when the file was written, and nothing
  else changes. The parser reads carriage returns as line ends and skips texts of white space, so that names and strings must
  be without carriage returns and the character zero and the strings of a sequence, of any length but 1, must have more than white space.
  The identifier of the component is no alias of another one.
\<close>

theorem serialize_configure:
  assumes "pm_maps s root = Some d"
    and "\<And>a. a \<in> set (m_collectionPropertyMap d) \<Longrightarrow> restorable s d a \<and> comes_back s (the (pm_properties s a))"
    and "pm_maps t = pm_maps s" and "pm_properties t = pm_properties s"
    and "\<And>c. length (pm_sequences t c) = length (pm_sequences s c)"
    and "pf_load_xml pf path = None" and "\<And>doc. save path doc" and "xml_plain (pf_string_of_uuid pf u)"
    and "pf_uuid_of_string pf (pf_string_of_uuid pf u) = Some u" and "componentResolverMap aliases (pf_string_of_uuid pf u) = None"
  shows "\<exists>doc. PropertyManager_serialize (Suc depth) pf fc save u root path s = (Inr (SUCCESS, Some doc), s) \<and>
    PropertyManager_configure (pf\<lparr>pf_load_xml := (pf_load_xml pf)(path := load_xml (Some (save_xml doc)))\<rparr>) fc aliases u (Some root) path t =
      (Inr SUCCESS, restored s (m_collectionPropertyMap d) t)"
proof -
  have ok: "restorable s d a" if "a \<in> set (m_collectionPropertyMap d)" for a
    using assms(2) [OF that] by blast
  let ?doc = "component_document pf u s (m_collectionPropertyMap d)"
  have "load_xml (Some (save_xml ?doc)) = Some ?doc"
    using assms(2,8) by (rule component_document_loads)
  then have "PropertyManager_configure (pf\<lparr>pf_load_xml := (pf_load_xml pf)(path := load_xml (Some (save_xml ?doc)))\<rparr>) fc aliases u (Some root) path t =
      (Inr SUCCESS, restored s (m_collectionPropertyMap d) t)"
    using assms(9,10) by (intro configure_document [OF assms(1) ok assms(3-5), where pf' = pf and u = u]) simp_all
  moreover have "PropertyManager_serialize (Suc depth) pf fc save u root path s = (Inr (SUCCESS, Some ?doc), s)"
    using assms(7) by (simp add: serialize_document [OF assms(1) ok assms(6)] del: serializeParameter.simps)
  ultimately show ?thesis by blast
qed

text \<open>A number, a sequence and a string with markup in it; the values are changed after the file is written.\<close>

definition sample_configurable :: PropertyMemory where
  "sample_configurable = sample_memory\<lparr>
     pm_properties := (pm_properties sample_memory)(5 \<mapsto>
       PropertyWrapper \<lparr>pw_name = ''title'', pw_type = IProperty_CHARSTR, pw_variable = 5, pw_accessSpecifier = IProperty_INOUT\<rparr>),
     pm_variables := (pm_variables sample_memory)(5 := V_string ''<a> & b''),
     pm_maps := [9 \<mapsto> \<lparr>m_propertyMap = [''count'' \<mapsto> 0, ''ids'' \<mapsto> 1, ''title'' \<mapsto> 5], m_collectionPropertyMap = [0, 1, 5]\<rparr>]\<rparr>"

definition changed_configurable :: PropertyMemory where
  "changed_configurable = sample_configurable\<lparr>pm_variables := (\<lambda>_. V_int 0), pm_sequences := (pm_sequences sample_configurable)(0 := [V_uint 7, V_uint 7])\<rparr>"

theorem serialize_configure_witness:
  "\<exists>doc. let (r, t) = PropertyManager_configure (sample_platform\<lparr>pf_load_xml := [''a.xml'' \<mapsto> doc]\<rparr>) sample_floats
      AliasContext_init 21 (Some 9) ''a.xml'' changed_configurable
    in r = Inr SUCCESS \<and> pm_variables t 0 = V_int 4 \<and> pm_sequences t 0 = [V_uint 1, V_uint 2] \<and> pm_variables t 5 = V_string ''<a> & b''"
proof -
  let ?d = "\<lparr>m_propertyMap = [''count'' \<mapsto> 0, ''ids'' \<mapsto> 1, ''title'' \<mapsto> 5], m_collectionPropertyMap = [0, 1, 5 :: nat]\<rparr>"
  note samples = sample_configurable_def changed_configurable_def sample_memory_def
  have ok: "restorable sample_configurable ?d a \<and> comes_back sample_configurable (the (pm_properties sample_configurable a))"
    if "a \<in> set (m_collectionPropertyMap ?d)" for a
    using that by (auto simp: restorable_def comes_back_def samples exact_kinds_def)
  have platform: "pf_load_xml sample_platform = Map.empty" "pf_string_of_uuid sample_platform 21 = ''u-c''"
      "pf_uuid_of_string sample_platform ''u-c'' = Some 21"
    by (simp_all add: sample_platform_def Filesystem.extend_def Platform.fields_def)
  have "pm_maps sample_configurable 9 = Some ?d" "pm_maps changed_configurable = pm_maps sample_configurable"
      "pm_properties changed_configurable = pm_properties sample_configurable"
      "\<And>c. length (pm_sequences changed_configurable c) = length (pm_sequences sample_configurable c)"
    by (simp_all add: samples)
  from serialize_configure [where save = "\<lambda>_ _. True" and pf = sample_platform and path = "''a.xml''" and u = 21 and depth = 0
      and aliases = AliasContext_init and fc = sample_floats, OF this(1) ok this(2-4)] platform
  obtain tree where configured: "PropertyManager_configure (sample_platform\<lparr>pf_load_xml := Map.empty(''a.xml'' := tree)\<rparr>) sample_floats
      AliasContext_init 21 (Some 9) ''a.xml'' changed_configurable =
        (Inr SUCCESS, restored sample_configurable (m_collectionPropertyMap ?d) changed_configurable)"
    by (auto simp: AliasContext_init_def)
  have "0 \<in> variables_of sample_configurable [0, 1, 5]"
    unfolding variables_of_def
    by (intro CollectI exI [where x = "\<lparr>pw_name = ''count'', pw_type = IProperty_INTEGER, pw_variable = 0, pw_accessSpecifier = IProperty_INOUT\<rparr>"]
        exI [where x = 0]) (simp add: samples)
  moreover have "5 \<in> variables_of sample_configurable [0, 1, 5]"
    unfolding variables_of_def
    by (intro CollectI exI [where x = "\<lparr>pw_name = ''title'', pw_type = IProperty_CHARSTR, pw_variable = 5, pw_accessSpecifier = IProperty_INOUT\<rparr>"]
        exI [where x = 5]) (simp add: samples)
  moreover have "0 \<in> sequences_of sample_configurable [0, 1, 5]"
    unfolding sequences_of_def
    by (intro CollectI exI [where x = "\<lparr>pw_name = ''ids'', pw_type = IProperty_UINTEGER, pw_variable = 0, pw_accessSpecifier = IProperty_IN\<rparr>"]
        exI [where x = 1]) (simp add: samples)
  ultimately have values_back: "pm_variables (restored sample_configurable (m_collectionPropertyMap ?d) changed_configurable) 0 = V_int 4"
      "pm_variables (restored sample_configurable (m_collectionPropertyMap ?d) changed_configurable) 5 = V_string ''<a> & b''"
      "pm_sequences (restored sample_configurable (m_collectionPropertyMap ?d) changed_configurable) 0 = [V_uint 1, V_uint 2]"
    by (simp_all add: restored_def samples)
  show ?thesis
  proof (cases tree)
    case None
    have "PropertyManager_configure (sample_platform\<lparr>pf_load_xml := Map.empty(''a.xml'' := None)\<rparr>) sample_floats
        AliasContext_init 21 (Some 9) ''a.xml'' changed_configurable = (Inr SUCCESS, changed_configurable)"
      by (simp add: PropertyManager_configure_def PropertyManager_configure_if_def eff_simps)
    with configured None values_back(1) show ?thesis
      by (simp add: changed_configurable_def)
  next
    case (Some doc)
    with configured values_back show ?thesis
      by (intro exI [where x = doc]) simp
  qed
qed

section \<open>The files of the generator\<close>

text \<open>
  The generator writes names and values as they are. They come back when the values are no markup: without quotes, ampersands,
  carriage returns and the character zero, and for the lines of a sequence without \<open><\<close> and with more than white space.
\<close>

definition value_ok :: "string \<Rightarrow> bool" where
  "value_ok v \<longleftrightarrow> xml_plain v \<and> CHR 0x22 \<notin> set v \<and> CHR ''&'' \<notin> set v"

definition line_ok :: "string \<Rightarrow> bool" where
  "line_ok v \<longleftrightarrow> xml_plain v \<and> CHR ''<'' \<notin> set v \<and> CHR ''&'' \<notin> set v \<and> SkipWhiteSpace v \<noteq> []"

fun tree_ok :: "nat \<Rightarrow> xml list \<Rightarrow> bool" where
  "tree_ok h [] = True"
| "tree_ok h (Element name attrs cs # rest) =
     (name_ok name \<and> list_all (\<lambda>(n, v). name_ok n \<and> value_ok v) attrs \<and> distinct (map fst attrs) \<and>
      (case h of 0 \<Rightarrow> False | Suc h' \<Rightarrow> tree_ok h' cs) \<and> tree_ok h rest)"
| "tree_ok h (Text t # rest) = (line_ok t \<and> rest = [])"
| "tree_ok h (Comment t # rest) = False"

lemma plain_value: "xml_plain v \<Longrightarrow> CHR ''&'' \<notin> set v \<Longrightarrow> GetStr (text_flags True) v = v"
  using GetStr_value [of "text_flags True" v]
  by (simp add: text_flags_def newline_flags_def no_flags_def text_value_plain c_string_plain)

lemma attributes_text_written:
  "list_all (\<lambda>(n, v). name_ok n \<and> value_ok v) attrs \<Longrightarrow> attributes_written True attrs (attributes_text attrs)"
proof (induction attrs rule: attributes_text.induct)
  case (2 n v attrs)
  then show ?case
    using one_attribute [of n v True v attrs "attributes_text attrs"] by (simp add: value_ok_def plain_value plain_not_zero)
qed (simp add: no_attributes)

lemma nl_blank: "blank nl"
  by (simp add: nl_def)
lemma margin_blank: "blank (xml_margin n)"
  by (induction n) (auto simp: xml_margin_def blank_def list_all_iff)

lemma spells_no_text: "spells n ts u \<Longrightarrow> \<forall>t b. XMLText t b \<notin> set (doms_of ts)"
  by (induction rule: spells.induct) auto

lemma no_text_last: "\<forall>t b. XMLText t b \<notin> set cs \<Longrightarrow> \<not> last_text False cs"
  by (induction "False" cs rule: last_text.induct) auto

lemma spells_written: "spells n ts u \<Longrightarrow> tree_ok h ts \<Longrightarrow> written True h False (doms_of ts) u"
proof (induction arbitrary: h rule: spells.induct)
  case (spells_Nil n)
  then show ?case by (simp add: written_Nil)
next
  case (spells_node n ts u a as)
  then have "written True h False (doms_of ts) (nl @ u)"
    by (intro written_blank nl_blank) (auto dest: spells_no_text)
  with written_empty [OF margin_blank [of n], of False a True as "attributes_text as" h "doms_of ts" "nl @ u"] spells_node.prems
  show ?case by (simp add: attributes_text_written)
next
  case (spells_value n ts u v)
  then obtain k where k: "h = Suc k" "line_ok v" by (cases h) auto
  have "written True k False [XMLText v False] (v @ [])"
    using k(2) by (intro written_text written_Nil) (auto simp: line_ok_def plain_value plain_not_zero)
  moreover have "written True h False (doms_of ts) (nl @ u)"
    using spells_value by (intro written_blank nl_blank) (auto dest: spells_no_text)
  ultimately show ?case
    using written_element [OF margin_blank [of n], of False "''value''" True "[]" "[]" k "[XMLText v False]" v "doms_of ts" "nl @ u"] k(1) spells_value.prems
    by (simp add: no_attributes)
next
  case (spells_block n cs body ts u a as)
  then obtain k where k: "h = Suc k" by (cases h) auto
  have "written True k False (doms_of cs) (nl @ body)"
    using spells_block k by (intro written_blank nl_blank) (auto dest: spells_no_text)
  then have "written True k False (doms_of cs) ((nl @ body) @ xml_margin n)"
    by (rule written_end [OF _ margin_blank]) (use no_text_last spells_no_text [OF spells_block.hyps(1)] in blast)
  moreover have "written True h False (doms_of ts) (nl @ u)"
    using spells_block by (intro written_blank nl_blank) (auto dest: spells_no_text)
  ultimately show ?case
    using written_element [OF margin_blank [of n], of False a True as "attributes_text as" k "doms_of cs" "nl @ body @ xml_margin n" "doms_of ts" "nl @ u"]
      k spells_block.prems attributes_text_written [of as] by simp
qed

lemma declaration_written:
  assumes "written True h False (doms_of [Element name attrs cs]) u"
  shows "\<exists>v. document_written True h (XMLDeclaration v # doms_of [Element name attrs cs]) (xml_declaration @ u)"
proof -
  obtain v where v: "v = drop 2 (take (length xml_declaration - 3) xml_declaration)"
    by blast
  have "xml_plain v" "ends_at ''?>'' v" and decl: "xml_declaration = ''<?'' @ v @ ''?>'' @ nl"
    by (simp_all add: v xml_declaration_def nl_def xml_plain_def ends_at_def starts_with_def)
  moreover have "document_written True h (doms_of [Element name attrs cs]) (nl @ u)"
    using assms by (intro written_nodes written_blank nl_blank) auto
  ultimately have "document_written True h (XMLDeclaration v # doms_of [Element name attrs cs]) ([] @ ''<?'' @ v @ ''?>'' @ nl @ u)"
    by (intro written_declaration) auto
  then show ?thesis
    unfolding decl by auto
qed

lemma spelled_document_loads:
  assumes "spells n [Element name attrs cs] u" and "tree_ok h [Element name attrs cs]" and "h + 1 < TINYXML2_MAX_ELEMENT_DEPTH"
  shows "load_xml (Some (xml_declaration @ u)) = Some (Element name attrs cs)"
proof -
  obtain v where "document_written True h (XMLDeclaration v # doms_of [Element name attrs cs]) (xml_declaration @ u)"
    using declaration_written [OF spells_written [OF assms(1,2)]] by blast
  then have "XMLDocument_LoadFile default_options (Some (xml_declaration @ u)) =
      Some (XML_SUCCESS, XMLDeclaration v # doms_of [Element name attrs cs], False)"
    using load_written [of default_options h _ "xml_declaration @ u" False] assms(3) by (simp add: default_options_def)
  then show ?thesis
    by (rule load_xml_root) simp
qed

text \<open>
  Property C34. In the mode that writes files, the generator ends without an error for any classes, and what the framework's
  parser makes of each of the four files is the document it is to hold: the registries of the client and of the server, with
  the module, a component for every class with its interfaces, and, for the server, a binding of every server component
  to the service interface; and the two property files, with the lines of every class. The names and values that go into a document are to
  be such that they need no escaping, which the generator does not do.
\<close>

theorem generated_files_load:
  assumes "\<And>a b. fs_append fs folder a = fs_append fs folder b \<Longrightarrow> a = b" and "xg_grpcComponentBinds g = []"
    and "tree_ok 5 [config_document uuid_str md cs k]"
  shows "\<exists>g'. XpcfConfigGenerator_run fs uuid_str folder md cs g = (Inr (), g') \<and>
    load_xml (Some (xg_text g' (Config_file (fs_append fs folder (config_file_name md k))))) = Some (config_document uuid_str md cs k)"
proof -
  obtain g' u where g': "XpcfConfigGenerator_run fs uuid_str folder md cs g = (Inr (), g')"
    and u: "xg_text g' (Config_file (fs_append fs folder (config_file_name md k))) = xml_declaration @ u"
      "spells 0 [config_document uuid_str md cs k] u"
    using configuration_documents [of fs folder g uuid_str md cs, OF assms(1,2)] by blast
  have "load_xml (Some (xml_declaration @ u)) = Some (config_document uuid_str md cs k)"
    using u(2) assms(3) unfolding config_document_def
    by (rule spelled_document_loads) (simp add: TINYXML2_MAX_ELEMENT_DEPTH_def)
  with g' u(1) show ?thesis by auto
qed

theorem generated_files_load_witness:
  "\<exists>g'. XpcfConfigGenerator_run sample_fs (\<lambda>_. ''u'') ''out'' sample_config_metadata [(sample_config_class, sample_config_metadata)]
      sample_config_generator = (Inr (), g') \<and>
    load_xml (Some (xg_text g' (Config_file ''out/xpcfGrpcRemotingGeoClient_properties.xml''))) =
      Some (Element ''xpcf-configuration'' [] [Element ''properties'' []
        [property_config ''u-c'' ''grpc_compress_proxy'' [''service|none|none'', ''method|area|none|none'']]])"
proof -
  have doc: "config_document (\<lambda>_. ''u'') sample_config_metadata [(sample_config_class, sample_config_metadata)] ClientPropsMgr =
      Element ''xpcf-configuration'' [] [Element ''properties'' []
        [property_config ''u-c'' ''grpc_compress_proxy'' [''service|none|none'', ''method|area|none|none'']]]"
    by (simp add: config_document_def metadata_value_def sample_config_metadata_def client_lines_def config_lines_def sample_config_class_def
        Xpcf_GenDescriptors.md_name_def MethodDescriptor_init_def sample_function_def)
  have ok: "tree_ok 5 [config_document (\<lambda>_. ''u'') sample_config_metadata [(sample_config_class, sample_config_metadata)] ClientPropsMgr]"
    unfolding doc
    by (simp add: property_config_def numeral_eq_Suc name_ok_def value_ok_def line_ok_def IsNameStartChar_def IsNameChar_def is_alpha_def is_digit_def
        SkipWhiteSpace_def IsWhiteSpace_def IsUTF8Continuation_def is_space_def)
  have "fs_append sample_fs ''out'' (config_file_name sample_config_metadata ClientPropsMgr) = ''out/xpcfGrpcRemotingGeoClient_properties.xml''"
    by (simp add: sample_fs_def config_file_name_def metadata_value_def sample_config_metadata_def)
  moreover have "\<exists>g'. XpcfConfigGenerator_run sample_fs (\<lambda>_. ''u'') ''out'' sample_config_metadata [(sample_config_class, sample_config_metadata)]
      sample_config_generator = (Inr (), g') \<and>
    load_xml (Some (xg_text g' (Config_file (fs_append sample_fs ''out'' (config_file_name sample_config_metadata ClientPropsMgr))))) =
      Some (config_document (\<lambda>_. ''u'') sample_config_metadata [(sample_config_class, sample_config_metadata)] ClientPropsMgr)"
    by (rule generated_files_load [OF _ _ ok]) (simp_all add: sample_fs_def sample_config_generator_def)
  ultimately show ?thesis
    unfolding doc by simp
qed

end
