(* ===== verification/Spec2Isabelle.thy ===== *)
theory Spec2Isabelle
  imports Xpcf_GenAst Xpcf_GenFlatBuffer Xpcf_ComponentManager Xpcf_NewContext Xpcf_ConfigurableBase Xpcf_Threads Xpcf_MultiConsumer Xpcf_Tasks Xpcf_GenAgreement Xpcf_XmlFiles
begin

text \<open>
  XPCF, the cross platform component framework: a model of the C++ library under \<^verbatim>\<open>src/\<close> and \<^verbatim>\<open>interfaces/xpcf/\<close> and of
  the code generators under \<^verbatim>\<open>tools/generators/grpc/\<close>, with the theorems that say what they do. Paths below are relative to
  the root of the repository.

  \<^bold>\<open>The program.\<close> An application asks the component manager for components by the identifiers of their classes or interfaces. The
  registry knows, from registry files and module libraries, which module has which component; the module manager loads modules
  and calls their entry points; the factory keeps the bindings from interfaces to components, makes components and
  injects into them what they declare; the property manager sets the properties of components from configuration
  files; the alias manager gives identifiers names. Beside this the library has queues and tasks for threads, and a tool that reads
  C++ interfaces and generates remote proxies and servers for them, with their \<^verbatim>\<open>.proto\<close> and configuration files.

  \<^bold>\<open>The form of the model.\<close> A member function is a computation \<open>('s, 'e, 'a) eff\<close> (theory \<^verbatim>\<open>Xpcf_Prelude\<close>): from the
  state of the object to an exception or a value and the state at that point, because what was written before a throw stays. The
  states of the manager classes extend each other as the objects contain each other: \<^verbatim>\<open>ModuleManager\<close>,
  \<^verbatim>\<open>RegistryState\<close> (with the aliases), \<^verbatim>\<open>PropertyManagerState\<close>, \<^verbatim>\<open>FactoryState\<close>, \<^verbatim>\<open>ComponentManagerState\<close>; so one
  computation runs across the managers as a call does. Components, metadata and properties that are shared by pointers live in
  heaps, maps from addresses. Exceptions are the datatype \<open>exn\<close>; undefined behaviour of C++ (a null pointer, the top of an empty
  stack) and the overflow of the stack are outcomes of it that no handler catches. Threads are inductive step relations with one
  step for each access that other threads can come between. Integers of a width are words.

  \<^bold>\<open>The theories of the framework.\<close>
  \<^item> \<^verbatim>\<open>Xpcf_Prelude\<close>: computations, their evaluation (\<open>eff_simps\<close>) and the calculus of invariants (\<open>preserves\<close>).
  \<^item> \<^verbatim>\<open>Xpcf_Exceptions\<close>: error codes, exception classes and messages, catch clauses (\<^verbatim>\<open>core/\<close>, \<^verbatim>\<open>src/Exception.cpp\<close>,
    \<^verbatim>\<open>src/BaseException.cpp\<close>, \<^verbatim>\<open>src/ErrorMessage.cpp\<close>).
  \<^item> \<^verbatim>\<open>Xpcf_Collections\<close>: collections and enumerators (\<^verbatim>\<open>collection/\<close>), with the locale of what a loop needs of an enumerator.
  \<^item> \<^verbatim>\<open>Xpcf_Xml\<close>, \<^verbatim>\<open>Xpcf_NumberText\<close>: the XML tree with the accessors the code calls; numbers as text (\<open>std::stol\<close> and the like).
  \<^item> \<^verbatim>\<open>Xpcf_XmlText\<close>, \<^verbatim>\<open>Xpcf_XmlParse\<close>, \<^verbatim>\<open>Xpcf_XmlPrint\<close>: the vendored \<^verbatim>\<open>src/tinyxml2.cpp\<close>, through which every registry and
    configuration goes: values read in place, the parser and the printer. Parsing ends for every file, and a document that is printed is parsed
    into itself; \<open>written\<close> is the relation between documents and their texts on which both sides rest.
  \<^item> \<^verbatim>\<open>Xpcf_PathBuilder\<close>: where files are looked for (\<^verbatim>\<open>src/PathBuilder.cpp\<close>).
  \<^item> \<^verbatim>\<open>Xpcf_AliasManager\<close>: \<^verbatim>\<open>src/AliasManager.cpp\<close>, with the locale its clients rely on.
  \<^item> \<^verbatim>\<open>Xpcf_Metadata\<close>, \<^verbatim>\<open>Xpcf_ModuleManager\<close>, \<^verbatim>\<open>Xpcf_Registry\<close>: the metadata classes, \<^verbatim>\<open>src/ModuleManager.cpp\<close> and
    \<^verbatim>\<open>src/Registry.cpp\<close>. The registry's invariant says that vectors and maps hold the same metadata; it is kept by every reader, also
    when it throws. The locale \<open>module_directory\<close> is what finding a component's module needs.
  \<^item> \<^verbatim>\<open>Xpcf_ComponentBase\<close>: \<^verbatim>\<open>src/ComponentBase.cpp\<close> with the templates of \<^verbatim>\<open>api/IInjectable.h\<close>: interfaces, reference
    counts, injectables. When an object is deleted is a theorem over all sequences of its calls.
  \<^item> \<^verbatim>\<open>Xpcf_Bindings\<close>, \<^verbatim>\<open>Xpcf_Factory\<close>, \<^verbatim>\<open>Xpcf_FactoryConfig\<close>: \<^verbatim>\<open>src/Factory.cpp\<close>. The search for a binding refines an
    explicit order of preference; resolving, injecting and \<open>resolveAll\<close> call each other with the depth the stack leaves as
    argument; a ranking of the components by what they declare gives a depth that is always enough, and a component
    that asks for itself overflows every depth. Instances that are stored stay, whatever is resolved later.
  \<^item> \<^verbatim>\<open>Xpcf_NewContext\<close>: \<open>createNewFactoryContext\<close>, with the contexts in a store, as two factories may share them.
  \<^item> \<^verbatim>\<open>Xpcf_PropertyManager\<close>, \<^verbatim>\<open>Xpcf_Property\<close>, \<^verbatim>\<open>Xpcf_Configure\<close>, \<^verbatim>\<open>Xpcf_ConfigurableBase\<close>: which file configures which
    component, the property classes, reading and writing the elements of a configuration (\<^verbatim>\<open>src/PropertyManager.cpp\<close>,
    \<^verbatim>\<open>src/Property.cpp\<close>, \<^verbatim>\<open>src/PropertyMap.cpp\<close>, \<^verbatim>\<open>PropertyWrapper.h\<close>, \<^verbatim>\<open>PropertySequenceWrapper.h\<close>,
    \<^verbatim>\<open>src/ConfigurableBase.cpp\<close>). The tree that is written for a component configures it again.
  \<^item> \<^verbatim>\<open>Xpcf_ComponentManager\<close>: \<^verbatim>\<open>src/ComponentManager.cpp\<close>; the instance is made by double-checked locking, shown for
    every interleaving; and the construction of the factory.
  \<^item> \<^verbatim>\<open>Xpcf_Queues\<close>, \<^verbatim>\<open>Xpcf_Threads\<close>: the five queue classes of \<^verbatim>\<open>threading/\<close> as the code under their mutex, a locale for
    what a queue promises (it refines an operation on lists) with an interpretation for each class, and the threads that share one:
    linearizability, no forgotten consumer, and the interleavings in which one sleeps for ever. \<open>clear\<close>, which takes no
    lock, is a step of its own, and runs end at a data race of it.
  \<^item> \<^verbatim>\<open>Xpcf_MultiConsumer\<close>, \<^verbatim>\<open>Xpcf_Tasks\<close>: \<^verbatim>\<open>threading/MultiConsumer.h\<close>; \<open>DelegateTask\<close> of \<^verbatim>\<open>threading/BaseTask.h\<close>.
  \<^item> \<^verbatim>\<open>Xpcf_GrpcHelper\<close>: \<^verbatim>\<open>remoting/GrpcHelper.h\<close>, what generated proxies and servers call to choose a compression.
\<close>

text \<open>
  \<^bold>\<open>The theories of the generators\<close> (files of \<^verbatim>\<open>tools/generators/grpc/\<close>).
  \<^item> \<^verbatim>\<open>Xpcf_GenAst\<close>: \<^verbatim>\<open>ASTParser.cpp\<close>, the classes and interfaces a visit of a file records, and
    \<^verbatim>\<open>RemoteServiceGenerator.cpp\<close>. The visit refines a loop over the entities with the namespaces around them.
  \<^item> \<^verbatim>\<open>Xpcf_GenTypes\<close>, \<^verbatim>\<open>Xpcf_GenDescriptors\<close>: the descriptions of types, parameters, methods and classes
    (\<^verbatim>\<open>TypeDescriptor.cpp\<close>, \<^verbatim>\<open>ParameterDescriptor.cpp\<close>, \<^verbatim>\<open>MethodDescriptor.cpp\<close>, \<^verbatim>\<open>ClassDescriptor.cpp\<close>).
  \<^item> \<^verbatim>\<open>Xpcf_GenProto\<close>, \<^verbatim>\<open>Xpcf_GenFlatBuffer\<close>: the files of messages (\<^verbatim>\<open>GRPCProtoGenerator.cpp\<close>, \<^verbatim>\<open>GRPCFlatBufferGenerator.cpp\<close>).
  \<^item> \<^verbatim>\<open>Xpcf_GenCpp\<close>, \<^verbatim>\<open>Xpcf_GenProxy\<close>, \<^verbatim>\<open>Xpcf_GenServer\<close>, \<^verbatim>\<open>Xpcf_GenMock\<close>: the C++ text (\<^verbatim>\<open>CppHelpers.h\<close>,
    \<^verbatim>\<open>ProxyGenerator.cpp\<close>, \<^verbatim>\<open>ServerGenerator.cpp\<close>, \<^verbatim>\<open>MockGenerator.cpp\<close>). \<^verbatim>\<open>Xpcf_GenLayout\<close> shows that blocks and braces are
    closed on every path; \<^verbatim>\<open>Xpcf_GenAgreement\<close> that the two sides of a call access the same fields.
  \<^item> \<^verbatim>\<open>Xpcf_GenConfig\<close>: \<^verbatim>\<open>XmlHelpers.h\<close>, \<^verbatim>\<open>XpcfConfigGenerator.cpp\<close>, \<^verbatim>\<open>AbstractGenerator.h\<close>. The text of the four
    configuration files spells given XML trees; the trees are followed through the model of the property manager and the
    reading of the lines into a configured proxy. \<^verbatim>\<open>Xpcf_XmlFiles\<close> joins this and the property manager to the parser: loading
    the files gives these trees, and the text of a saved configuration, parsed again, restores the component.

  \<^bold>\<open>Parameters.\<close> What the repository only calls is an argument: the file system, the environment, dynamic libraries, the
  tree a path of an XML file loads to and the text of identifiers (records \<^verbatim>\<open>Filesystem\<close> and \<^verbatim>\<open>Platform\<close>), what components of the application do when
  they are injected into or configured (\<^verbatim>\<open>Framework\<close>), the conversions of floating-point numbers (\<^verbatim>\<open>FloatConversions\<close>), the
  texts and the members without a value of the \<^verbatim>\<open>cppast\<close> library (\<^verbatim>\<open>Cppast\<close>, \<^verbatim>\<open>RawMembers\<close>) and its visits of files,
  the identifiers that are made, and the credentials of gRPC. Where a theorem needs a documented law of one of them, such as
  different names in a folder being different paths, it is a hypothesis of the theorem.

  \<^bold>\<open>Bounds and fuel.\<close> The parser of XML has one unit of fuel for each byte, shown to be enough for every file; the loop of \<open>TypeDescriptor::parse\<close> has fuel, one more than the size of the type, which is shown to be
  enough for every type; resolving has the depth of the stack, shown to be enough for acyclic configurations at the rank of the
  component. All other recursions end by their measures. \<open>long\<close> has 64 bits, as on the systems with \<^verbatim>\<open>.so\<close> libraries.

  \<^bold>\<open>Not modelled.\<close>
  \<^item> Of the vendored \<^verbatim>\<open>tinyxml2\<close>, the memory pools, line numbers, messages, cloning, comparison and the conversions of numbers.
    Assertions are as in a build without \<^verbatim>\<open>TINYXML2_DEBUG\<close>, where they do nothing.
  \<^item> Files that load and have no root element, whose null root the framework reads: \<open>Platform\<close> gives a tree or none.
  \<^item> \<open>MethodMetadata\<close>, which nothing uses; the template wrappers of \<^verbatim>\<open>IFactory.h\<close> and
    \<^verbatim>\<open>IComponentManager.h\<close>, which pass their type parameters on as identifiers.
  \<^item> \<^verbatim>\<open>src/GrpcManager.cpp\<close>, \<open>BaseBuffer\<close> and \<open>ISerializable\<close>, which rest on gRPC and Boost.Serialization; \<open>FiberTask\<close>, on
    Boost.Fiber; \<open>BaseTask\<close>, whose work is the application's.
  \<^item> Of the generators, the options of the command line, the paths of the Remaken tool and the runs of \<^verbatim>\<open>protoc\<close> and \<^verbatim>\<open>pkg-config\<close>.
  \<^item> The command line tools, the SWIG bindings, samples, tests, tutorials and wizards.
  \<^item> Collections over containers other than vectors; the Windows and macOS variants of the home folder; the text of log messages.
\<close>

end
